(* ===== verification/Prelude.thy ===== *)
theory Prelude
  imports Main
begin

text \<open>
  Shared vocabulary of the WikiMind development: the exceptions of the program as values,
  the result type and its bind, query primitives over tables (a table is the list of its rows,
  in insertion order), and the two dictionary idioms the Python code uses everywhere: an index
  that keeps the first row of every key, and an insertion-ordered duplicate removal.
  The exceptions model \<^verbatim>\<open>src/src/wikimind/errors.py\<close> and the exceptions of the
  standard library and of the database layer that the modelled functions raise.
\<close>

section \<open>Collections of simplification rules\<close>

named_theorems row_simps "query primitives on tables"
named_theorems res_simps "the result monad"
named_theorems str_simps "Python string operations"
named_theorems fl_simps "binary64 arithmetic"

section \<open>Exceptions and results\<close>

datatype exc =
    WikiMindError string
  | IngestError string
  | CompilationError string
  | QueryError string
  | ConfigError string
  | NotFoundError string
  | PermissionDeniedError string
  | GoneError string
  | UpstreamError string
  | QuotaExceededError string int int
  | ValueError string
  | HTTPException nat string
  | RegistryTemplateMismatchError "string list"
  | ProviderError string
  | DecryptError
  | NoResultFound
  | MultipleResultsFound
  | IntegrityError string
  | AttributeError string
  | KeyError string
  | TypeError string
  | RuntimeError string
  | OSError string
  | PendingRollbackError

text \<open>The \<open>code\<close> and \<open>status_code\<close> class attributes; \<open>None\<close> for exceptions outside the hierarchy.\<close>

fun error_code :: "exc \<Rightarrow> string option" where
  "error_code (WikiMindError _) = Some ''wikimind_error''"
| "error_code (IngestError _) = Some ''ingest_failed''"
| "error_code (CompilationError _) = Some ''compilation_failed''"
| "error_code (QueryError _) = Some ''query_failed''"
| "error_code (ConfigError _) = Some ''config_error''"
| "error_code (NotFoundError _) = Some ''not_found''"
| "error_code (PermissionDeniedError _) = Some ''permission_denied''"
| "error_code (GoneError _) = Some ''gone''"
| "error_code (UpstreamError _) = Some ''upstream_error''"
| "error_code _ = None"

fun status_code :: "exc \<Rightarrow> nat option" where
  "status_code (WikiMindError _) = Some 500"
| "status_code (IngestError _) = Some 400"
| "status_code (CompilationError _) = Some 500"
| "status_code (QueryError _) = Some 400"
| "status_code (ConfigError _) = Some 500"
| "status_code (NotFoundError _) = Some 404"
| "status_code (PermissionDeniedError _) = Some 403"
| "status_code (GoneError _) = Some 410"
| "status_code (UpstreamError _) = Some 502"
| "status_code _ = None"

text \<open>The exceptions of the database layer, all subclasses of \<open>SQLAlchemyError\<close>.\<close>

fun is_sqlalchemy_error :: "exc \<Rightarrow> bool" where
  "is_sqlalchemy_error NoResultFound = True"
| "is_sqlalchemy_error MultipleResultsFound = True"
| "is_sqlalchemy_error (IntegrityError _) = True"
| "is_sqlalchemy_error PendingRollbackError = True"
| "is_sqlalchemy_error _ = False"

type_synonym 'a result = "exc + 'a"

abbreviation ok :: "'a \<Rightarrow> 'a result" where "ok \<equiv> Inr"
abbreviation raise :: "exc \<Rightarrow> 'a result" where "raise \<equiv> Inl"

definition bindR :: "'a result \<Rightarrow> ('a \<Rightarrow> 'b result) \<Rightarrow> 'b result" where
  "bindR m f = (case m of Inl e \<Rightarrow> Inl e | Inr x \<Rightarrow> f x)"

lemma bindR_Inl [simp, res_simps]: "bindR (Inl e) f = Inl e"
  and bindR_Inr [simp, res_simps]: "bindR (Inr x) f = f x"
  by (simp_all add: bindR_def)

lemma bindR_eq_Inr [res_simps]: "bindR m f = Inr y \<longleftrightarrow> (\<exists>x. m = Inr x \<and> f x = Inr y)"
  by (cases m) auto

lemma bindR_eq_Inl [res_simps]: "bindR m f = Inl e \<longleftrightarrow> m = Inl e \<or> (\<exists>x. m = Inr x \<and> f x = Inl e)"
  by (cases m) auto

lemma bindR_assoc: "bindR (bindR m f) g = bindR m (\<lambda>x. bindR (f x) g)"
  by (cases m) auto

section \<open>Tables\<close>

text \<open>
  \<open>select\<close> is a \<open>SELECT \<dots> WHERE\<close>; \<open>get_by\<close> a primary-key lookup (\<open>session.get\<close>);
  \<open>first_of\<close>, \<open>one_or_none\<close> and \<open>one\<close> are the accessors of a SQLAlchemy result of the same
  names, with the exceptions they raise; \<open>update_where\<close> and \<open>delete_where\<close> the bulk statements.
\<close>

definition select :: "('a \<Rightarrow> bool) \<Rightarrow> 'a list \<Rightarrow> 'a list" where
  "select p rows = filter p rows"

definition get_by :: "('a \<Rightarrow> 'k) \<Rightarrow> 'k \<Rightarrow> 'a list \<Rightarrow> 'a option" where
  "get_by key k rows = find (\<lambda>r. key r = k) rows"

definition first_of :: "'a list \<Rightarrow> 'a option" where
  "first_of rows = (case rows of [] \<Rightarrow> None | r # _ \<Rightarrow> Some r)"

definition one_or_none :: "'a list \<Rightarrow> 'a option result" where
  "one_or_none rows = (case rows of [] \<Rightarrow> ok None | [r] \<Rightarrow> ok (Some r) | _ \<Rightarrow> raise MultipleResultsFound)"

definition one :: "'a list \<Rightarrow> 'a result" where
  "one rows = (case rows of [] \<Rightarrow> raise NoResultFound | [r] \<Rightarrow> ok r | _ \<Rightarrow> raise MultipleResultsFound)"

definition update_where :: "('a \<Rightarrow> bool) \<Rightarrow> ('a \<Rightarrow> 'a) \<Rightarrow> 'a list \<Rightarrow> 'a list" where
  "update_where p f rows = map (\<lambda>r. if p r then f r else r) rows"

definition delete_where :: "('a \<Rightarrow> bool) \<Rightarrow> 'a list \<Rightarrow> 'a list" where
  "delete_where p rows = filter (\<lambda>r. \<not> p r) rows"

lemma select_Nil [simp]: "select p [] = []"
  and select_append [simp]: "select p (xs @ ys) = select p xs @ select p ys"
  and set_select [simp]: "set (select p xs) = {x \<in> set xs. p x}"
  by (auto simp: select_def)

lemma select_Cons: "select p (x # xs) = (if p x then x # select p xs else select p xs)"
  by (simp add: select_def)

lemma select_empty_iff: "select p xs = [] \<longleftrightarrow> (\<forall>x \<in> set xs. \<not> p x)"
  by (simp add: select_def filter_empty_conv)

lemma select_select: "select p (select q xs) = select (\<lambda>x. q x \<and> p x) xs"
  by (simp add: select_def)

lemma get_by_Some: "get_by key k rows = Some r \<Longrightarrow> r \<in> set rows \<and> key r = k"
  by (auto simp: get_by_def find_Some_iff)

lemma get_by_None: "get_by key k rows = None \<longleftrightarrow> k \<notin> key ` set rows"
  by (auto simp: get_by_def find_None_iff)

lemma find_distinct_map:
  assumes "distinct (map key rows)" and "r \<in> set rows"
  shows "find (\<lambda>x. key x = key r) rows = Some r"
  using assms by (induction rows) auto

lemma get_by_distinct:
  assumes "distinct (map key rows)" and "r \<in> set rows"
  shows "get_by key (key r) rows = Some r"
  using assms by (simp add: get_by_def find_distinct_map)

lemma get_by_append_new:
  "k \<notin> key ` set rows \<Longrightarrow> key r = k \<Longrightarrow> get_by key k (rows @ [r]) = Some r"
  by (induction rows) (auto simp: get_by_def)

lemma first_of_Some: "first_of rows = Some r \<Longrightarrow> r \<in> set rows"
  by (cases rows) (auto simp: first_of_def)

lemma first_of_None [simp]: "first_of rows = None \<longleftrightarrow> rows = []"
  by (cases rows) (auto simp: first_of_def)

lemma one_or_none_ok_Some: "one_or_none rows = ok (Some r) \<longleftrightarrow> rows = [r]"
  by (cases rows; cases "tl rows") (auto simp: one_or_none_def)

lemma one_or_none_ok_None: "one_or_none rows = ok None \<longleftrightarrow> rows = []"
  by (cases rows; cases "tl rows") (auto simp: one_or_none_def)

lemma one_ok: "one rows = ok r \<longleftrightarrow> rows = [r]"
  by (cases rows; cases "tl rows") (auto simp: one_def)

lemmas query_simps = one_or_none_ok_Some one_or_none_ok_None one_ok

lemma length_update_where [simp]: "length (update_where p f rows) = length rows"
  by (simp add: update_where_def)

lemma set_update_where: "set (update_where p f rows) = (\<lambda>r. if p r then f r else r) ` set rows"
  by (simp add: update_where_def)

lemma map_update_where [simp]:
  "(\<And>r. p r \<Longrightarrow> key (f r) = key r) \<Longrightarrow> map key (update_where p f rows) = map key rows"
  by (simp add: update_where_def)

lemma select_update_other:
  "(\<And>r. p r \<Longrightarrow> \<not> q r) \<Longrightarrow> (\<And>r. p r \<Longrightarrow> \<not> q (f r)) \<Longrightarrow> select q (update_where p f rows) = select q rows"
  by (induction rows) (auto simp: select_def update_where_def)

lemma select_update_same:
  "(\<And>r. p r \<Longrightarrow> p (f r)) \<Longrightarrow> select p (update_where p f rows) = map f (select p rows)"
  by (induction rows) (auto simp: select_def update_where_def)

lemma select_delete_other:
  "(\<And>r. p r \<Longrightarrow> \<not> q r) \<Longrightarrow> select q (delete_where p rows) = select q rows"
  by (induction rows) (auto simp: select_def delete_where_def)

lemma set_delete_where [simp]: "set (delete_where p rows) = {r \<in> set rows. \<not> p r}"
  by (auto simp: delete_where_def)

lemma select_distinct_key:
  assumes "distinct (map key rows)" and "r \<in> set rows"
  shows "select (\<lambda>x. key x = key r) rows = [r]"
  using assms by (induction rows) (auto simp: select_def filter_empty_conv image_iff)

text \<open>Rows under a key that is unique.\<close>

lemma distinct_map_eq: "distinct (map f xs) \<Longrightarrow> x \<in> set xs \<Longrightarrow> y \<in> set xs \<Longrightarrow> f x = f y \<longleftrightarrow> x = y"
  by (auto simp: distinct_map dest: inj_onD)

lemma distinct_map_select: "distinct (map f rows) \<Longrightarrow> distinct (map f (select p rows))"
  by (simp add: select_def distinct_map_filter)

lemma distinct_map_delete: "distinct (map f rows) \<Longrightarrow> distinct (map f (delete_where p rows))"
  by (simp add: delete_where_def distinct_map_filter)

lemma same_keys_length:
  "distinct (map f xs) \<Longrightarrow> distinct (map g ys) \<Longrightarrow> set (map f xs) = set (map g ys) \<Longrightarrow> length xs = length ys"
  by (metis distinct_card length_map)

section \<open>Dictionaries\<close>

text \<open>
  The loop \<^verbatim>\<open>for x in xs: if k(x) not in d: d[k(x)] = x\<close>; a row whose key is \<open>None\<close> is
  not indexed.
\<close>

definition index_step :: "('a \<Rightarrow> 'k option) \<Rightarrow> ('k \<rightharpoonup> 'a) \<Rightarrow> 'a \<Rightarrow> ('k \<rightharpoonup> 'a)" where
  "index_step key d x =
     (case key x of None \<Rightarrow> d | Some k \<Rightarrow> if d k = None then d(k \<mapsto> x) else d)"

definition index_first :: "('a \<Rightarrow> 'k option) \<Rightarrow> 'a list \<Rightarrow> ('k \<rightharpoonup> 'a)" where
  "index_first key xs = foldl (index_step key) Map.empty xs"

lemma foldl_index_step:
  "foldl (index_step key) d xs k =
     (case d k of Some v \<Rightarrow> Some v | None \<Rightarrow> find (\<lambda>x. key x = Some k) xs)"
  by (induction xs arbitrary: d) (auto simp: index_step_def split: option.splits)

lemma index_first_eq_find: "index_first key xs k = find (\<lambda>x. key x = Some k) xs"
  by (simp add: index_first_def foldl_index_step)

text \<open>\<^verbatim>\<open>list(dict.fromkeys(xs))\<close>: the first occurrence of every element, in order.\<close>

fun nub_acc :: "'a list \<Rightarrow> 'a list \<Rightarrow> 'a list" where
  "nub_acc seen [] = []"
| "nub_acc seen (x # xs) = (if x \<in> set seen then nub_acc seen xs else x # nub_acc (x # seen) xs)"

definition nub :: "'a list \<Rightarrow> 'a list" where
  "nub xs = nub_acc [] xs"

lemma set_nub_acc: "set (nub_acc seen xs) = set xs - set seen"
  by (induction seen xs rule: nub_acc.induct) auto

lemma set_nub [simp]: "set (nub xs) = set xs"
  by (simp add: nub_def set_nub_acc)

lemma distinct_nub_acc: "distinct (nub_acc seen xs)"
  by (induction seen xs rule: nub_acc.induct) (auto simp: set_nub_acc)

lemma distinct_nub [simp]: "distinct (nub xs)"
  by (simp add: nub_def distinct_nub_acc)

section \<open>Lists\<close>

lemma find_filter: "find p (filter q xs) = find (\<lambda>x. q x \<and> p x) xs"
  by (induction xs) auto

lemma find_Some_in: "find p xs = Some x \<Longrightarrow> x \<in> set xs \<and> p x"
  by (auto simp: find_Some_iff)

lemma find_None_all: "find p xs = None \<longleftrightarrow> (\<forall>x \<in> set xs. \<not> p x)"
  by (auto simp: find_None_iff)

lemma filter_id_all: "(\<And>x. x \<in> set xs \<Longrightarrow> p x) \<Longrightarrow> filter p xs = xs"
  by (induction xs) auto

lemma length_filter_append1: "length (filter p (xs @ [x])) = length (filter p xs) + (if p x then 1 else 0)"
  by simp

end
