(* ===== verification/Domain.thy ===== *)
theory Domain
  imports Complex_Main Prelude
begin

text \<open>
  The vocabulary and the tables of the program: the enumerations of
  \<^verbatim>\<open>src/src/wikimind/models/enums.py\<close> and the SQLModel tables of
  \<^verbatim>\<open>src/src/wikimind/models/tables/\<close> that the modelled components read or write. A table class
  is a record with one field per column, in the order of the source; the field \<open>name\<close> of a class
  with prefix \<open>p\<close> is \<open>p_name\<close>. The database is the record \<open>db\<close> of its tables. A \<open>datetime\<close>
  is the number of microseconds since 1970-01-01 (naive UTC, as the code stores it), a \<open>float\<close>
  column holds the rational value of the binary64 number, a JSON column its text. Columns that
  only carry blobs for other programs (embeddings, image bytes) are left out with their tables.
  A handler is a function \<open>db \<Rightarrow> (db \<times> 'a) result\<close>: an exception rolls the session back
  (\<open>get_session\<close> in \<^verbatim>\<open>database.py\<close>), so an error carries no new state.
\<close>

section \<open>Enumerations\<close>

datatype page_type = SOURCE | CONCEPT | ANSWER | INDEX | META | SYNTHESIS

fun page_type_value :: "page_type \<Rightarrow> string" where
  "page_type_value SOURCE = ''source''"
| "page_type_value CONCEPT = ''concept''"
| "page_type_value ANSWER = ''answer''"
| "page_type_value INDEX = ''index''"
| "page_type_value META = ''meta''"
| "page_type_value SYNTHESIS = ''synthesis''"

datatype relation_type = REFERENCES | CONTRADICTS | EXTENDS | SUPERSEDES | SYNTHESIZES | RELATED_TO

fun relation_type_value :: "relation_type \<Rightarrow> string" where
  "relation_type_value REFERENCES = ''references''"
| "relation_type_value CONTRADICTS = ''contradicts''"
| "relation_type_value EXTENDS = ''extends''"
| "relation_type_value SUPERSEDES = ''supersedes''"
| "relation_type_value SYNTHESIZES = ''synthesizes''"
| "relation_type_value RELATED_TO = ''related_to''"

datatype source_type = S_URL | S_PDF | S_YOUTUBE | S_AUDIO | S_TEXT | S_RSS | S_EMAIL | S_OBSIDIAN

fun source_type_value :: "source_type \<Rightarrow> string" where
  "source_type_value S_URL = ''url''"
| "source_type_value S_PDF = ''pdf''"
| "source_type_value S_YOUTUBE = ''youtube''"
| "source_type_value S_AUDIO = ''audio''"
| "source_type_value S_TEXT = ''text''"
| "source_type_value S_RSS = ''rss''"
| "source_type_value S_EMAIL = ''email''"
| "source_type_value S_OBSIDIAN = ''obsidian''"

datatype ingest_status = PENDING | PROCESSING | REVIEW_PENDING | COMPILED | INGEST_FAILED

datatype confidence_level = SOURCED | MIXED | INFERRED | OPINION

fun confidence_level_value :: "confidence_level \<Rightarrow> string" where
  "confidence_level_value SOURCED = ''sourced''"
| "confidence_level_value MIXED = ''mixed''"
| "confidence_level_value INFERRED = ''inferred''"
| "confidence_level_value OPINION = ''opinion''"

datatype job_type = COMPILE_SOURCE | LINT_WIKI | SWEEP_WIKILINKS | REINDEX | EMBED_CHUNKS
  | RECOMPILE_ARTICLE | SYNC_PUSH | SYNC_PULL | POLL_RSS_FEEDS | PING

datatype job_status = QUEUED | RUNNING | COMPLETE | JOB_FAILED

datatype provider = ANTHROPIC | OPENAI | OPENAI_COMPATIBLE | GOOGLE | OLLAMA | MOCK

fun provider_value :: "provider \<Rightarrow> string" where
  "provider_value ANTHROPIC = ''anthropic''"
| "provider_value OPENAI = ''openai''"
| "provider_value OPENAI_COMPATIBLE = ''openai_compatible''"
| "provider_value GOOGLE = ''google''"
| "provider_value OLLAMA = ''ollama''"
| "provider_value MOCK = ''mock''"

text \<open>Iterating over the enumeration class visits its members in the order of declaration.\<close>

definition all_providers :: "provider list" where
  "all_providers = [ANTHROPIC, OPENAI, OPENAI_COMPATIBLE, GOOGLE, OLLAMA, MOCK]"

text \<open>The constructor call \<open>Provider(s)\<close>.\<close>

definition provider_of :: "string \<Rightarrow> provider result" where
  "provider_of s = (case find (\<lambda>p. provider_value p = s) all_providers of
     None \<Rightarrow> raise (ValueError s) | Some p \<Rightarrow> ok p)"

datatype task_type = T_COMPILE | T_QA | T_LINT | T_INDEX | T_INGEST | T_EXPORT

fun task_type_value :: "task_type \<Rightarrow> string" where
  "task_type_value T_COMPILE = ''compile''"
| "task_type_value T_QA = ''qa''"
| "task_type_value T_LINT = ''lint''"
| "task_type_value T_INDEX = ''index''"
| "task_type_value T_INGEST = ''ingest''"
| "task_type_value T_EXPORT = ''export''"

datatype contradiction_status = ACTIVE | RESOLVED | DISMISSED

datatype locator_kind = PDF_PAGE_RECT | HTML_PARAGRAPH_OFFSET | TEXT_BYTE_RANGE | YOUTUBE_TIMESTAMP

lemma set_all_providers: "set all_providers = UNIV"
proof -
  have "p \<in> set all_providers" for p by (cases p) (simp_all add: all_providers_def)
  then show ?thesis by blast
qed

lemma provider_value_inject [simp]: "provider_value p = provider_value q \<longleftrightarrow> p = q"
  by (cases p; cases q) simp_all

lemma provider_of_value [simp]: "provider_of (provider_value p) = ok p"
  by (cases p) (simp_all add: provider_of_def all_providers_def)

lemma provider_of_ok: "provider_of s = ok p \<longleftrightarrow> s = provider_value p"
proof
  assume "provider_of s = ok p"
  then show "s = provider_value p"
    by (auto simp: provider_of_def split: option.splits dest: find_Some_in)
qed simp

section \<open>Tables\<close>

type_synonym datetime = int

text \<open>One day in microseconds; the calendar date of a naive UTC \<open>datetime\<close>.\<close>

definition day_us :: int where "day_us = 86400000000"

definition date_of :: "datetime \<Rightarrow> int" where "date_of t = t div day_us"

record user =
  usr_id :: string
  usr_email :: string
  usr_name :: "string option"
  usr_avatar_url :: "string option"
  usr_auth_provider :: string
  usr_auth_provider_id :: string
  usr_is_admin :: bool
  usr_plan_id :: "string option"
  usr_plan_effective_until :: "datetime option"
  usr_lemon_squeezy_customer_id :: "string option"
  usr_created_at :: datetime
  usr_updated_at :: datetime

record plan =
  pln_id :: string
  pln_name :: string
  pln_display_name :: string
  pln_price_cents :: int
  pln_billing_interval :: "string option"
  pln_max_sources :: "int option"
  pln_max_articles :: "int option"
  pln_max_queries_per_day :: "int option"
  pln_max_storage_bytes :: "int option"
  pln_max_active_shares :: "int option"
  pln_daily_llm_spend_cap_cents :: "int option"
  pln_allowed_exports :: "string list"
  pln_mcp_enabled :: bool
  pln_llm_provider :: string
  pln_llm_model :: string
  pln_byok_allowed :: bool
  pln_is_default :: bool
  pln_is_active :: bool
  pln_sort_order :: int
  pln_lemon_squeezy_variant_id :: "string option"
  pln_created_at :: datetime
  pln_updated_at :: datetime

record subscription =
  sub_id :: string
  sub_user_id :: string
  sub_plan_id :: string
  sub_lemon_squeezy_subscription_id :: string
  sub_lemon_squeezy_customer_id :: string
  sub_status :: string
  sub_cancel_at_period_end :: bool
  sub_current_period_start :: datetime
  sub_current_period_end :: datetime
  sub_created_at :: datetime
  sub_updated_at :: datetime

record webhook_event =
  wh_id :: string
  wh_lemon_squeezy_event_id :: string
  wh_event_type :: string
  wh_processed_at :: datetime
  wh_payload_hash :: string

record storage_usage =
  stu_user_id :: string
  stu_total_bytes :: int
  stu_updated_at :: datetime

record query_count =
  qc_user_id :: string
  qc_date :: int
  qc_count :: int

record source =
  src_id :: string
  src_user_id :: string
  src_source_type :: source_type
  src_source_url :: "string option"
  src_title :: "string option"
  src_author :: "string option"
  src_published_date :: "int option"
  src_status :: ingest_status
  src_ingested_at :: datetime
  src_compiled_at :: "datetime option"
  src_token_count :: "int option"
  src_error_message :: "string option"
  src_file_path :: "string option"
  src_clean_text :: "string option"
  src_content_hash :: "string option"

record source_span =
  sp_id :: string
  sp_source_id :: string
  sp_user_id :: string
  sp_locator_kind :: locator_kind
  sp_locator :: "(string \<times> int) list"
  sp_text :: string
  sp_fingerprint :: string
  sp_stale :: bool
  sp_created_at :: datetime

record article =
  art_id :: string
  art_user_id :: string
  art_slug :: string
  art_title :: string
  art_file_path :: string
  art_concept_ids :: "string option"
  art_confidence :: "confidence_level option"
  art_linter_score :: "rat option"
  art_summary :: "string option"
  art_created_at :: datetime
  art_updated_at :: datetime
  art_confidence_score :: rat
  art_last_reinforced_at :: "datetime option"
  art_source_newest_at :: "datetime option"
  art_source_ids :: "string option"
  art_provider :: "provider option"
  art_page_type :: page_type
  art_manually_edited :: bool
  art_edited_at :: "datetime option"
  art_is_stub :: bool
  art_compiled_at :: "datetime option"
  art_compilation_duration_ms :: "int option"
  art_compilation_tokens :: "int option"

record concept =
  con_id :: string
  con_user_id :: string
  con_name :: string
  con_parent_id :: "string option"
  con_article_count :: int
  con_description :: "string option"
  con_created_at :: datetime
  con_concept_kind :: string

record article_concept =
  ac_article_id :: string
  ac_concept_name :: string

record article_source =
  as_article_id :: string
  as_source_id :: string

record concept_kind_def =
  ckd_name :: string
  ckd_prompt_template_key :: string
  ckd_required_sections :: "string list"
  ckd_linter_rules :: "string list"
  ckd_description :: "string option"

record backlink =
  bl_source_article_id :: string
  bl_target_article_id :: string
  bl_user_id :: string
  bl_context :: "string option"
  bl_relation_type :: relation_type
  bl_resolution :: "string option"
  bl_resolution_note :: "string option"
  bl_resolved_at :: "datetime option"
  bl_resolved_by :: "string option"

record share_link =
  sl_id :: string
  sl_user_id :: string
  sl_article_id :: string
  sl_token :: string
  sl_created_at :: datetime
  sl_expires_at :: "datetime option"
  sl_revoked :: bool
  sl_view_count :: int
  sl_last_viewed_at :: "datetime option"

record saved_search =
  ss_id :: string
  ss_user_id :: string
  ss_name :: string
  ss_query :: string
  ss_filters_json :: string
  ss_created_at :: datetime

record tag =
  tag_id :: string
  tag_user_id :: string
  tag_name :: string
  tag_color :: string
  tag_created_at :: datetime

record article_tag =
  at_id :: string
  at_article_id :: string
  at_tag_id :: string
  at_created_at :: datetime

record contradiction =
  ctr_id :: string
  ctr_claim_a :: string
  ctr_claim_b :: string
  ctr_article_a_id :: string
  ctr_article_b_id :: string
  ctr_source_finding_id :: "string option"
  ctr_claim_fingerprint :: string
  ctr_detected_at :: datetime
  ctr_status :: contradiction_status
  ctr_resolution :: "string option"
  ctr_resolved_at :: "datetime option"
  ctr_resolved_by :: "string option"
  ctr_user_id :: string

record user_api_key =
  uak_id :: string
  uak_user_id :: string
  uak_provider :: provider
  uak_encrypted_key :: string
  uak_salt :: string
  uak_created_at :: datetime
  uak_updated_at :: datetime

record cost_log =
  cl_id :: string
  cl_user_id :: string
  cl_provider :: provider
  cl_model :: string
  cl_task_type :: task_type
  cl_input_tokens :: int
  cl_output_tokens :: int
  cl_cost_usd :: rat
  cl_latency_ms :: int
  cl_job_id :: "string option"
  cl_created_at :: datetime

record llm_trace =
  tr_id :: string
  tr_user_id :: string
  tr_model :: string
  tr_prompt_tokens :: int
  tr_completion_tokens :: int
  tr_total_tokens :: int
  tr_latency_ms :: int
  tr_created_at :: datetime
  tr_prompt_text :: "string option"
  tr_completion_text :: "string option"
  tr_source_id :: "string option"
  tr_operation :: string

record compilation_draft =
  cd_id :: string
  cd_user_id :: string
  cd_source_id :: string
  cd_title :: string
  cd_summary :: string
  cd_key_takeaways :: string
  cd_draft_result_json :: string
  cd_user_guidance :: "string option"
  cd_status :: string
  cd_created_at :: datetime
  cd_reviewed_at :: "datetime option"

record job =
  job_id :: string
  job_user_id :: string
  job_job_type :: job_type
  job_status :: job_status
  job_source_id :: "string option"
  job_article_id :: "string option"
  job_priority :: int
  job_queued_at :: datetime
  job_started_at :: "datetime option"
  job_completed_at :: "datetime option"
  job_error :: "string option"
  job_result_summary :: "string option"

record compiled_claim =
  cc_id :: string
  cc_article_id :: string
  cc_user_id :: string
  cc_text :: string
  cc_subjects :: string
  cc_predicate :: "string option"
  cc_confidence_level :: string
  cc_confidence_score :: rat
  cc_source_ids :: string
  cc_last_reinforced_at :: datetime
  cc_quote :: "string option"
  cc_embedding :: "nat list option"
  cc_embedding_version :: "string option"
  cc_source_span_ids :: string
  cc_cluster_assignment_reconciled :: bool
  cc_created_at :: datetime
  cc_updated_at :: datetime

record reinforcement_event =
  re_id :: string
  re_article_id :: string
  re_event_type :: string
  re_occurred_at :: datetime
  re_source_id :: "string option"
  re_user_id :: string

record compilation_schema =
  cs_id :: string
  cs_user_id :: string
  cs_name :: string
  cs_description :: "string option"
  cs_is_active :: bool
  cs_article_max_length :: "int option"
  cs_required_sections :: "string option"
  cs_style :: "string option"
  cs_focus :: "string option"
  cs_concept_max_depth :: "int option"
  cs_concept_naming :: "string option"
  cs_extraction_always_note :: "string option"
  cs_extraction_ignore :: "string option"
  cs_custom_directives :: "string option"
  cs_created_at :: datetime
  cs_updated_at :: datetime

record conversation =
  cv_id :: string
  cv_user_id :: string
  cv_title :: string
  cv_created_at :: datetime
  cv_updated_at :: datetime
  cv_filed_article_id :: "string option"
  cv_crystallized_article_id :: "string option"
  cv_parent_conversation_id :: "string option"
  cv_forked_at_turn_index :: "int option"

record qa_query =
  qq_id :: string
  qq_user_id :: string
  qq_question :: string
  qq_answer :: string
  qq_confidence :: "string option"
  qq_source_article_ids :: "string option"
  qq_related_article_ids :: "string option"
  qq_filed_back :: bool
  qq_filed_article_id :: "string option"
  qq_created_at :: datetime
  qq_conversation_id :: "string option"
  qq_turn_index :: int

text \<open>The database: its tables, and the article files of the wiki storage of every user.\<close>

record db =
  users :: "user list"
  plans :: "plan list"
  subscriptions :: "subscription list"
  webhook_events :: "webhook_event list"
  storage_usages :: "storage_usage list"
  query_counts :: "query_count list"
  sources :: "source list"
  source_spans :: "source_span list"
  articles :: "article list"
  concepts :: "concept list"
  article_concepts :: "article_concept list"
  article_sources :: "article_source list"
  concept_kind_defs :: "concept_kind_def list"
  backlinks :: "backlink list"
  share_links :: "share_link list"
  saved_searches :: "saved_search list"
  tags :: "tag list"
  article_tags :: "article_tag list"
  contradictions :: "contradiction list"
  user_api_keys :: "user_api_key list"
  cost_logs :: "cost_log list"
  llm_traces :: "llm_trace list"
  compilation_drafts :: "compilation_draft list"
  jobs :: "job list"
  wiki_files :: "(string \<times> string) \<rightharpoonup> string"

definition empty_db :: db where
  "empty_db = \<lparr>users = [], plans = [], subscriptions = [], webhook_events = [], storage_usages = [],
     query_counts = [], sources = [], source_spans = [], articles = [], concepts = [], article_concepts = [],
     article_sources = [], concept_kind_defs = [], backlinks = [], share_links = [],
     saved_searches = [], tags = [], article_tags = [], contradictions = [], user_api_keys = [],
     cost_logs = [], llm_traces = [], compilation_drafts = [], jobs = [], wiki_files = Map.empty\<rparr>"

text \<open>The defaults of the \<open>Article\<close> constructor, for the witnesses of the development.\<close>

definition new_article :: "string \<Rightarrow> string \<Rightarrow> string \<Rightarrow> string \<Rightarrow> string \<Rightarrow> datetime \<Rightarrow> article" where
  "new_article aid uid slug title path now = \<lparr>art_id = aid, art_user_id = uid, art_slug = slug,
     art_title = title, art_file_path = path, art_concept_ids = None, art_confidence = None,
     art_linter_score = None, art_summary = None, art_created_at = now, art_updated_at = now,
     art_confidence_score = 1 / 2, art_last_reinforced_at = None, art_source_newest_at = None,
     art_source_ids = None, art_provider = None, art_page_type = SOURCE, art_manually_edited = False,
     art_edited_at = None, art_is_stub = False, art_compiled_at = None,
     art_compilation_duration_ms = None, art_compilation_tokens = None\<rparr>"

text \<open>Key constraints: primary keys and unique columns the schema declares.\<close>

definition keys_ok :: "db \<Rightarrow> bool" where
  "keys_ok d \<longleftrightarrow>
     distinct (map usr_id (users d)) \<and> distinct (map pln_id (plans d)) \<and> distinct (map pln_name (plans d)) \<and>
     distinct (map con_id (concepts d)) \<and> distinct (map (\<lambda>c. (con_user_id c, con_name c)) (concepts d)) \<and>
     distinct (map art_id (articles d)) \<and> distinct (map src_id (sources d)) \<and>
     distinct (map (\<lambda>b. (bl_source_article_id b, bl_target_article_id b)) (backlinks d)) \<and>
     distinct (map sl_id (share_links d)) \<and> distinct (map sl_token (share_links d)) \<and>
     distinct (map tag_id (tags d)) \<and> distinct (map (\<lambda>t. (tag_user_id t, tag_name t)) (tags d)) \<and>
     distinct (map (\<lambda>t. (at_article_id t, at_tag_id t)) (article_tags d)) \<and>
     distinct (map ss_id (saved_searches d)) \<and> distinct (map ctr_id (contradictions d)) \<and>
     distinct (map cd_id (compilation_drafts d)) \<and>
     distinct (map (\<lambda>k. (uak_user_id k, uak_provider k)) (user_api_keys d)) \<and>
     distinct (map stu_user_id (storage_usages d)) \<and>
     distinct (map (\<lambda>q. (qc_user_id q, qc_date q)) (query_counts d)) \<and>
     distinct (map (\<lambda>a. (art_user_id a, art_slug a)) (articles d))"

end
