(* ===== verification/PyStr.thy ===== *)
theory PyStr
  imports Prelude
begin

text \<open>
  The fragment of Python's \<open>str\<close>, \<open>re\<close> and \<open>unicodedata\<close> that the modelled code uses.
  A Python string is a \<^typ>\<open>string\<close> whose characters are the code points U+0000 to U+00FF
  (the Latin-1 range, which \<^typ>\<open>char\<close> holds exactly); on that range the operations below agree
  with the standard library character for character: case folding, the white-space class, the
  word class of \<open>re\<close>, the NFKD decomposition followed by the ASCII filter, and UTF-8.
  No operation leads out of the range. Titles with code points above U+00FF are outside the model.
\<close>

section \<open>Character classes\<close>

definition cp :: "char \<Rightarrow> nat" where
  "cp c = of_char c"

text \<open>\<open>str.lower\<close> on one code point: ASCII letters and the Latin-1 capitals except U+00D7.\<close>

definition lower_char :: "char \<Rightarrow> char" where
  "lower_char c =
     (if 65 \<le> cp c \<and> cp c \<le> 90 \<or> 192 \<le> cp c \<and> cp c \<le> 222 \<and> cp c \<noteq> 215
      then char_of (cp c + 32) else c)"

definition py_lower :: "string \<Rightarrow> string" where
  "py_lower s = map lower_char s"

definition is_space :: "char \<Rightarrow> bool" where
  "is_space c \<longleftrightarrow> 9 \<le> cp c \<and> cp c \<le> 13 \<or> 28 \<le> cp c \<and> cp c \<le> 32 \<or> cp c = 133 \<or> cp c = 160"

definition is_lower_alnum :: "char \<Rightarrow> bool" where
  "is_lower_alnum c \<longleftrightarrow> 97 \<le> cp c \<and> cp c \<le> 122 \<or> 48 \<le> cp c \<and> cp c \<le> 57"

text \<open>The class \<^verbatim>\<open>\w\<close> of \<open>re\<close> with the \<open>UNICODE\<close> flag.\<close>

definition is_word :: "char \<Rightarrow> bool" where
  "is_word c \<longleftrightarrow>
     48 \<le> cp c \<and> cp c \<le> 57 \<or> 65 \<le> cp c \<and> cp c \<le> 90 \<or> 97 \<le> cp c \<and> cp c \<le> 122 \<or>
     cp c \<in> {95, 170, 178, 179, 181, 185, 186, 188, 189, 190} \<or>
     192 \<le> cp c \<and> cp c \<noteq> 215 \<and> cp c \<noteq> 247"

text \<open>
  \<^verbatim>\<open>unicodedata.normalize("NFKD", s).encode("ascii", "ignore")\<close> on one code point: the ASCII
  characters of its compatibility decomposition.
\<close>

definition ascii_fold_char :: "char \<Rightarrow> string" where
  "ascii_fold_char c =
     (let n = cp c in
      if n < 128 then [c]
      else if n \<in> {160, 168, 175, 180, 184} then '' ''
      else if n = 170 \<or> 224 \<le> n \<and> n \<le> 229 then ''a''
      else if n = 178 then ''2'' else if n = 179 then ''3'' else if n = 185 then ''1''
      else if n = 186 \<or> 242 \<le> n \<and> n \<le> 246 then ''o''
      else if n = 188 then ''14'' else if n = 189 then ''12'' else if n = 190 then ''34''
      else if 192 \<le> n \<and> n \<le> 197 then ''A'' else if n = 199 then ''C''
      else if 200 \<le> n \<and> n \<le> 203 then ''E'' else if 204 \<le> n \<and> n \<le> 207 then ''I''
      else if n = 209 then ''N'' else if 210 \<le> n \<and> n \<le> 214 then ''O''
      else if 217 \<le> n \<and> n \<le> 220 then ''U'' else if n = 221 then ''Y''
      else if n = 231 then ''c'' else if 232 \<le> n \<and> n \<le> 235 then ''e''
      else if 236 \<le> n \<and> n \<le> 239 then ''i'' else if n = 241 then ''n''
      else if 249 \<le> n \<and> n \<le> 252 then ''u'' else if n = 253 \<or> n = 255 then ''y''
      else [])"

definition ascii_fold :: "string \<Rightarrow> string" where
  "ascii_fold s = concat (map ascii_fold_char s)"

lemma cp_less_256: "cp c < 256"
proof -
  have "(of_char c :: nat) = of_char c mod 256"
    by (metis char_of_nat char_of_mod_256 nat_of_char_less_256 mod_less)
  then show ?thesis
    unfolding cp_def by (metis mod_less_divisor zero_less_numeral)
qed

lemma char_of_cp [simp]: "char_of (cp c) = c"
  by (simp add: cp_def)

lemma cp_char_of [simp]: "n < 256 \<Longrightarrow> cp (char_of n) = n"
  by (simp add: cp_def of_char_of)

lemma cp_inject: "cp c = cp d \<longleftrightarrow> c = d"
  by (metis char_of_cp)

lemma char_of_eqI: "cp c = n \<Longrightarrow> char_of n = c"
  by auto

lemma cp_lower_char:
  "cp (lower_char c) =
     (if 65 \<le> cp c \<and> cp c \<le> 90 \<or> 192 \<le> cp c \<and> cp c \<le> 222 \<and> cp c \<noteq> 215
      then cp c + 32 else cp c)"
  using cp_less_256 [of c] by (auto simp: lower_char_def)

lemma lower_char_idem [simp]: "lower_char (lower_char c) = lower_char c"
proof -
  have "cp (lower_char (lower_char c)) = cp (lower_char c)"
    by (auto simp: cp_lower_char)
  then show ?thesis by (simp add: cp_inject)
qed

lemma py_lower_idem [simp]: "py_lower (py_lower s) = py_lower s"
  by (simp add: py_lower_def)

lemma length_py_lower [simp]: "length (py_lower s) = length s"
  by (simp add: py_lower_def)

lemma py_lower_append [simp]: "py_lower (s @ t) = py_lower s @ py_lower t"
  by (simp add: py_lower_def)

lemma is_space_lower_char [simp]: "is_space (lower_char c) = is_space c"
  by (auto simp: is_space_def cp_lower_char)

section \<open>Stripping\<close>

definition strip_by :: "('a \<Rightarrow> bool) \<Rightarrow> 'a list \<Rightarrow> 'a list" where
  "strip_by p xs = rev (dropWhile p (rev (dropWhile p xs)))"

definition py_strip :: "string \<Rightarrow> string" where
  "py_strip s = strip_by is_space s"

lemma strip_by_decomp: "\<exists>l r. xs = l @ strip_by p xs @ r \<and> (\<forall>x \<in> set l. p x) \<and> (\<forall>x \<in> set r. p x)"
proof -
  let ?m = "dropWhile p xs"
  have a: "xs = takeWhile p xs @ ?m" by simp
  have "rev ?m = takeWhile p (rev ?m) @ dropWhile p (rev ?m)" by simp
  then have "rev (rev ?m) = rev (takeWhile p (rev ?m) @ dropWhile p (rev ?m))"
    by (rule arg_cong)
  then have b: "?m = strip_by p xs @ rev (takeWhile p (rev ?m))"
    by (simp only: strip_by_def rev_append rev_rev_ident)
  have "xs = takeWhile p xs @ strip_by p xs @ rev (takeWhile p (rev ?m))"
    using a b by simp
  then show ?thesis
    by (intro exI conjI) (auto dest: set_takeWhileD)
qed

lemma strip_by_hd: "strip_by p xs \<noteq> [] \<Longrightarrow> \<not> p (hd (strip_by p xs))"
proof -
  assume ne: "strip_by p xs \<noteq> []"
  let ?m = "dropWhile p xs"
  obtain r where r: "?m = strip_by p xs @ r"
    by (metis rev_append rev_rev_ident strip_by_def takeWhile_dropWhile_id)
  with ne have "hd ?m = hd (strip_by p xs)" and "?m \<noteq> []" by (auto simp: hd_append)
  moreover from \<open>?m \<noteq> []\<close> have "\<not> p (hd ?m)" by (rule hd_dropWhile)
  ultimately show ?thesis by simp
qed

lemma strip_by_last: "strip_by p xs \<noteq> [] \<Longrightarrow> \<not> p (last (strip_by p xs))"
  by (simp add: strip_by_def last_rev hd_dropWhile)

lemma dropWhile_id: "(xs \<noteq> [] \<Longrightarrow> \<not> p (hd xs)) \<Longrightarrow> dropWhile p xs = xs"
  by (cases xs) auto

lemma strip_by_id:
  assumes "xs \<noteq> [] \<Longrightarrow> \<not> p (hd xs)" and "xs \<noteq> [] \<Longrightarrow> \<not> p (last xs)"
  shows "strip_by p xs = xs"
proof -
  have "dropWhile p xs = xs" using assms(1) by (rule dropWhile_id)
  moreover have "dropWhile p (rev xs) = rev xs"
    using assms(2) by (intro dropWhile_id) (simp add: hd_rev)
  ultimately show ?thesis by (simp add: strip_by_def)
qed

lemma set_strip_by: "set (strip_by p xs) \<subseteq> set xs"
  by (auto simp: strip_by_def dest!: set_dropWhileD)

lemma strip_by_idem [simp]: "strip_by p (strip_by p xs) = strip_by p xs"
  by (rule strip_by_id) (simp_all add: strip_by_hd strip_by_last)

lemma strip_by_Nil_iff: "strip_by p xs = [] \<longleftrightarrow> (\<forall>x \<in> set xs. p x)"
  by (auto simp: strip_by_def dropWhile_eq_Nil_conv dest: set_dropWhileD)
    (metis set_dropWhileD takeWhile_dropWhile_id Un_iff set_append set_takeWhileD)

section \<open>Runs\<close>

text \<open>
  \<open>sub_runs n p r s\<close> is \<^verbatim>\<open>re.sub(r"[p]{n,}", r, s)\<close> for a character class \<open>p\<close>: every maximal
  run of at least \<open>n\<close> characters of the class becomes \<open>r\<close>, shorter runs stay. \<open>split_runs n p [] s\<close>
  is \<^verbatim>\<open>re.split\<close> with the same pattern (the third argument holds the current piece, reversed).
\<close>

function sub_runs :: "nat \<Rightarrow> ('a \<Rightarrow> bool) \<Rightarrow> 'a list \<Rightarrow> 'a list \<Rightarrow> 'a list" where
  "sub_runs n p r [] = []"
| "sub_runs n p r (x # xs) =
     (if p x
      then (let run = x # takeWhile p xs in
            (if n \<le> length run then r else run) @ sub_runs n p r (dropWhile p xs))
      else x # sub_runs n p r xs)"
  by pat_completeness auto
termination
  by (relation "measure (\<lambda>(n, p, r, xs). length xs)") (auto simp: le_imp_less_Suc length_dropWhile_le)

function split_runs :: "nat \<Rightarrow> ('a \<Rightarrow> bool) \<Rightarrow> 'a list \<Rightarrow> 'a list \<Rightarrow> 'a list list" where
  "split_runs n p acc [] = [rev acc]"
| "split_runs n p acc (x # xs) =
     (if p x
      then (let run = x # takeWhile p xs; rest = dropWhile p xs in
            if n \<le> length run then rev acc # split_runs n p [] rest
            else split_runs n p (rev run @ acc) rest)
      else split_runs n p (x # acc) xs)"
  by pat_completeness auto
termination
  by (relation "measure (\<lambda>(n, p, acc, xs). length xs)") (auto simp: le_imp_less_Suc length_dropWhile_le)

lemma set_sub_runs: "set (sub_runs n p r xs) \<subseteq> set xs \<union> set r"
proof (induction n p r xs rule: sub_runs.induct)
  case (2 n p r x xs)
  then show ?case
    by (auto simp: Let_def dest: set_takeWhileD set_dropWhileD split: if_splits)
qed simp

lemma set_sub_runs_1: "set (sub_runs 1 p r xs) \<subseteq> {x \<in> set xs. \<not> p x} \<union> set r"
proof (induction "1 :: nat" p r xs rule: sub_runs.induct)
  case (2 p r x xs)
  then show ?case
    by (auto simp: Let_def split: if_splits dest: set_dropWhileD)
qed simp

lemma sub_runs_id: "(\<And>x. x \<in> set xs \<Longrightarrow> \<not> p x) \<Longrightarrow> sub_runs n p r xs = xs"
  by (induction xs) auto

section \<open>Searching\<close>

text \<open>\<open>find_from pat xs i\<close> is \<^verbatim>\<open>xs.find(pat, i)\<close> for \<open>i \<ge> 0\<close>, with \<open>None\<close> for \<open>-1\<close>.\<close>

fun find_sub :: "'a list \<Rightarrow> 'a list \<Rightarrow> nat option" where
  "find_sub pat [] = (if pat = [] then Some 0 else None)"
| "find_sub pat (x # xs) =
     (if take (length pat) (x # xs) = pat then Some 0 else map_option Suc (find_sub pat xs))"

definition find_from :: "'a list \<Rightarrow> 'a list \<Rightarrow> nat \<Rightarrow> nat option" where
  "find_from pat xs i =
     (if i \<le> length xs then map_option (\<lambda>k. i + k) (find_sub pat (drop i xs)) else None)"

lemma find_sub_Some: "find_sub pat xs = Some i \<Longrightarrow> take (length pat) (drop i xs) = pat \<and> i + length pat \<le> length xs"
proof (induction pat xs arbitrary: i rule: find_sub.induct)
  case (2 pat x xs)
  show ?case
  proof (cases "take (length pat) (x # xs) = pat")
    case True
    with 2 have "i = 0" by simp
    moreover from True have "length pat \<le> length (x # xs)"
      by (metis length_take min.cobounded1)
    ultimately show ?thesis using True by simp
  next
    case False
    with 2 show ?thesis by fastforce
  qed
qed (simp split: if_splits)

lemma find_sub_le:
  assumes "take (length pat) (drop k xs) = pat" and "k \<le> length xs"
  shows "\<exists>i \<le> k. find_sub pat xs = Some i"
  using assms
proof (induction pat xs arbitrary: k rule: find_sub.induct)
  case (2 pat x xs)
  show ?case
  proof (cases "take (length pat) (x # xs) = pat")
    case False
    with 2 obtain k' where k: "k = Suc k'" by (cases k) auto
    with 2 False obtain i where "i \<le> k'" "find_sub pat xs = Some i" by fastforce
    with False k show ?thesis by auto
  qed simp
qed auto

lemma find_from_Some:
  assumes "find_from pat xs j = Some i"
  shows "j \<le> i \<and> take (length pat) (drop i xs) = pat \<and> i + length pat \<le> length xs"
proof -
  from assms obtain k where j: "j \<le> length xs" and k: "find_sub pat (drop j xs) = Some k" and i: "i = j + k"
    by (auto simp: find_from_def split: if_splits)
  from find_sub_Some [OF k] j i show ?thesis by (auto simp: add.commute)
qed

lemma find_from_le:
  assumes "take (length pat) (drop k xs) = pat" and "j \<le> k" and "k \<le> length xs"
  shows "\<exists>i. j \<le> i \<and> i \<le> k \<and> find_from pat xs j = Some i"
proof -
  have "take (length pat) (drop (k - j) (drop j xs)) = pat" and "k - j \<le> length (drop j xs)"
    using assms by (simp_all add: add.commute)
  then obtain i where "i \<le> k - j" "find_sub pat (drop j xs) = Some i"
    using find_sub_le by blast
  with assms show ?thesis by (auto simp: find_from_def)
qed

section \<open>Joining, printing numbers, UTF-8\<close>

fun py_join :: "'a list \<Rightarrow> 'a list list \<Rightarrow> 'a list" where
  "py_join sep [] = []"
| "py_join sep [x] = x"
| "py_join sep (x # y # ys) = x @ sep @ py_join sep (y # ys)"

fun show_nat :: "nat \<Rightarrow> string" where
  "show_nat n = (if n < 10 then [char_of (48 + n)] else show_nat (n div 10) @ [char_of (48 + n mod 10)])"

declare show_nat.simps [simp del]

definition read_nat :: "string \<Rightarrow> nat" where
  "read_nat s = foldl (\<lambda>acc c. acc * 10 + (cp c - 48)) 0 s"

lemma read_show_nat [simp]: "read_nat (show_nat n) = n"
proof (induction n rule: show_nat.induct)
  case (1 n)
  then show ?case
    by (subst show_nat.simps) (auto simp: read_nat_def)
qed

lemma show_nat_inject [simp]: "show_nat m = show_nat n \<longleftrightarrow> m = n"
  by (metis read_show_nat)

definition utf8_char :: "char \<Rightarrow> nat list" where
  "utf8_char c = (if cp c < 128 then [cp c] else [192 + cp c div 64, 128 + cp c mod 64])"

definition utf8 :: "string \<Rightarrow> nat list" where
  "utf8 s = concat (map utf8_char s)"

lemma utf8_append [simp]: "utf8 (s @ t) = utf8 s @ utf8 t"
  by (simp add: utf8_def)

lemma utf8_Nil [simp]: "utf8 [] = []"
  by (simp add: utf8_def)

lemma utf8_eq_Nil [simp]: "utf8 s = [] \<longleftrightarrow> s = []"
  by (cases s) (auto simp: utf8_def utf8_char_def)

section \<open>Visible characters\<close>

text \<open>What splitting, stripping and joining at white space keep: the characters that are not white space.\<close>

definition visible :: "string \<Rightarrow> string" where
  "visible s = filter (\<lambda>c. \<not> is_space c) s"

lemma py_strip_eq: "py_strip = strip_by is_space"
  by (rule ext) (simp add: py_strip_def)

lemma split_runs_filter:
  assumes "\<And>x. p x \<Longrightarrow> \<not> q x"
  shows "concat (map (filter q) (split_runs n p acc xs)) = filter q (rev acc @ xs)"
  using assms
proof (induction n p acc xs rule: split_runs.induct)
  case (2 n p acc x xs)
  let ?run = "x # takeWhile p xs" and ?rest = "dropWhile p xs"
  have run: "filter q ?run = []" if "p x"
    using that 2(4) by (auto simp: filter_empty_conv dest: set_takeWhileD)
  have xs: "filter q (x # xs) = filter q ?run @ filter q ?rest"
    by (metis append_Cons filter_append takeWhile_dropWhile_id)
  consider "\<not> p x" | "p x" "n \<le> length ?run" | "p x" "\<not> n \<le> length ?run" by blast
  then show ?case
  proof cases
    case 1
    with 2 show ?thesis by simp
  next
    case 2
    have "concat (map (filter q) (split_runs n p [] ?rest)) = filter q (rev [] @ ?rest)"
      by (rule "2.IH"(1)) (use 2 "2.prems" in auto)
    moreover have "split_runs n p acc (x # xs) = rev acc # split_runs n p [] ?rest"
      using 2 by (simp add: Let_def)
    ultimately show ?thesis using xs run [OF 2(1)] by (simp del: filter.simps)
  next
    case 3
    have "concat (map (filter q) (split_runs n p (rev ?run @ acc) ?rest)) = filter q (rev (rev ?run @ acc) @ ?rest)"
      by (rule "2.IH"(2)) (use 3 "2.prems" in auto)
    moreover have "split_runs n p acc (x # xs) = split_runs n p (rev ?run @ acc) ?rest"
      using 3 by (simp add: Let_def)
    moreover have "rev (rev ?run @ acc) @ ?rest = rev acc @ x # xs" by simp
    ultimately show ?thesis by (simp only:)
  qed
qed simp

lemma filter_strip_by: "(\<And>x. p x \<Longrightarrow> \<not> q x) \<Longrightarrow> filter q (strip_by p xs) = filter q xs"
proof -
  assume pq: "\<And>x. p x \<Longrightarrow> \<not> q x"
  obtain l r where xs: "xs = l @ strip_by p xs @ r" and l: "\<forall>x \<in> set l. p x" and r: "\<forall>x \<in> set r. p x"
    using strip_by_decomp [of xs p] by (elim exE conjE)
  have "filter q l = []" "filter q r = []" using l r pq by (auto simp: filter_empty_conv)
  then show ?thesis by (subst (2) xs) simp
qed

lemma visible_append [simp]: "visible (xs @ ys) = visible xs @ visible ys"
  and visible_Nil [simp]: "visible [] = []"
  by (simp_all add: visible_def)

lemma visible_spaces: "(\<And>c. c \<in> set xs \<Longrightarrow> is_space c) \<Longrightarrow> visible xs = []"
  by (simp add: visible_def filter_empty_conv)

lemma visible_strip [simp]: "visible (py_strip s) = visible s"
  by (simp add: visible_def py_strip_eq filter_strip_by)

lemma py_strip_Nil_iff: "py_strip s = [] \<longleftrightarrow> visible s = []"
  by (simp add: visible_def py_strip_eq strip_by_Nil_iff filter_empty_conv)

lemma visible_join: "visible sep = [] \<Longrightarrow> visible (py_join sep xs) = visible (concat xs)"
  by (induction sep xs rule: py_join.induct) simp_all

lemma length_strip_by: "length (strip_by p xs) \<le> length xs"
  by (metis strip_by_def length_rev length_dropWhile_le le_trans)

lemma length_py_strip: "length (py_strip s) \<le> length s"
  by (simp add: py_strip_eq length_strip_by)

section \<open>Words\<close>

text \<open>\<^verbatim>\<open>s.split()\<close>: the maximal runs of characters that are not white space.\<close>

definition py_split :: "string \<Rightarrow> string list" where
  "py_split s = filter (\<lambda>w. w \<noteq> []) (split_runs 1 is_space [] s)"

lemma split_runs_no_sep:
  "n = 1 \<Longrightarrow> (\<And>x. x \<in> set acc \<Longrightarrow> \<not> p x) \<Longrightarrow> w \<in> set (split_runs n p acc xs) \<Longrightarrow> x \<in> set w \<Longrightarrow> \<not> p x"
proof (induction n p acc xs rule: split_runs.induct)
  case (2 n p acc y ys)
  show ?case
  proof (cases "p y")
    case True
    then have "split_runs n p acc (y # ys) = rev acc # split_runs n p [] (dropWhile p ys)" using 2(4) by (simp add: Let_def)
    with 2(6) consider "w = rev acc" | "w \<in> set (split_runs n p [] (dropWhile p ys))" by auto
    then show ?thesis
    proof cases
      case 1
      with 2(5, 7) show ?thesis by auto
    next
      case 2
      show ?thesis by (rule "2.IH"(1) [OF True refl refl _ "2.prems"(1) _ 2 "2.prems"(4)]) (use "2.prems"(1) in auto)
    qed
  next
    case False
    show ?thesis by (rule "2.IH"(3) [OF False "2.prems"(1) _ _ "2.prems"(4)]) (use False "2.prems" in auto)
  qed
qed auto

lemma py_split_words: "w \<in> set (py_split s) \<Longrightarrow> w \<noteq> [] \<and> (\<forall>c \<in> set w. \<not> is_space c)"
  using split_runs_no_sep [of 1 "[]" is_space w s] by (auto simp: py_split_def)

lemma concat_filter_nonempty: "concat (filter (\<lambda>w. w \<noteq> []) ws) = concat ws"
  by (induction ws) auto

lemma concat_py_split: "concat (py_split s) = visible s"
proof -
  let ?ws = "split_runs 1 is_space [] s"
  have "map (filter (\<lambda>c. \<not> is_space c)) ?ws = ?ws"
    by (rule map_idI, rule filter_id_all) (use split_runs_no_sep [of 1 "[]" is_space _ s] in auto)
  then show ?thesis
    using split_runs_filter [of is_space "\<lambda>c. \<not> is_space c" 1 "[]" s]
    by (simp add: py_split_def visible_def concat_filter_nonempty)
qed

end
