(* ===== verification/TitleNormalizer.thy ===== *)
theory TitleNormalizer
  imports PyStr
begin

text \<open>
  \<^verbatim>\<open>src/src/wikimind/engine/title_normalizer.py\<close>: the one title normaliser of the code base.
  The interface its callers rely on is the locale \<open>canonical_form\<close>: the result is canonical and
  canonical strings are fixed points. The interpretation discharges it for \<open>normalize_title\<close>.
\<close>

section \<open>The normaliser\<close>

abbreviation hyphen :: char where "hyphen \<equiv> CHR ''-''"

definition title_char :: "char \<Rightarrow> bool" where
  "title_char c \<longleftrightarrow> is_lower_alnum c \<or> c = hyphen"

definition normalize_title :: "string \<Rightarrow> string" where
  "normalize_title s =
     (let ascii_form = ascii_fold s;
          lower = py_lower ascii_form;
          no_apostrophes = filter (\<lambda>c. c \<noteq> CHR 0x27) lower;
          hyphenated = sub_runs 1 (\<lambda>c. \<not> title_char c) [hyphen] no_apostrophes;
          stripped = strip_by ((=) hyphen) hyphenated
      in sub_runs 2 ((=) hyphen) [hyphen] stripped)"

fun no_double :: "'a \<Rightarrow> 'a list \<Rightarrow> bool" where
  "no_double h (x # y # zs) = (\<not> (x = h \<and> y = h) \<and> no_double h (y # zs))"
| "no_double h _ = True"

definition canonical_title :: "string \<Rightarrow> bool" where
  "canonical_title t \<longleftrightarrow>
     (\<forall>c \<in> set t. title_char c) \<and> no_double hyphen t \<and>
     (t = [] \<or> hd t \<noteq> hyphen \<and> last t \<noteq> hyphen)"

section \<open>The interface of a normaliser\<close>

locale canonical_form =
  fixes norm :: "'a \<Rightarrow> 'a"
    and canon :: "'a \<Rightarrow> bool"
  assumes canon_norm: "canon (norm x)"
    and norm_canon: "canon x \<Longrightarrow> norm x = x"
begin

lemma norm_idem: "norm (norm x) = norm x"
  by (rule norm_canon [OF canon_norm])

lemma canon_iff_fixpoint: "canon x \<longleftrightarrow> norm x = x"
  using canon_norm [of x] norm_canon by auto

lemma range_norm: "range norm = {x. canon x}"
  using canon_norm norm_canon by (auto intro: rangeI simp: image_iff) (metis)

lemma norm_eq_canon: "canon y \<Longrightarrow> norm x = norm y \<longleftrightarrow> norm x = y"
  by (simp add: norm_canon)

end

section \<open>Collapsing hyphens\<close>

lemma no_double_Cons: "no_double h (x # xs) \<longleftrightarrow> (xs = [] \<or> \<not> (x = h \<and> hd xs = h)) \<and> no_double h xs"
  by (cases xs) auto

lemma hd_sub_runs_sep:
  assumes "xs \<noteq> []"
  shows "sub_runs n ((=) h) [h] xs \<noteq> [] \<and> hd (sub_runs n ((=) h) [h] xs) = hd xs"
  using assms by (cases xs) (auto simp: Let_def)

lemma hd_dropWhile_eq: "dropWhile ((=) h) xs \<noteq> [] \<Longrightarrow> hd (dropWhile ((=) h) xs) \<noteq> h"
  using hd_dropWhile [of "(=) h" xs] by auto

lemma hd_sub_runs_rest:
  assumes "d = dropWhile ((=) h) xs"
  shows "sub_runs n ((=) h) [h] d = [] \<or> hd (sub_runs n ((=) h) [h] d) \<noteq> h"
proof (cases d)
  case (Cons y ys)
  with hd_dropWhile_eq [of h xs] assms have "y \<noteq> h"
    by (metis list.sel(1) list.distinct(1))
  then show ?thesis unfolding Cons by simp
qed simp

lemma no_double_sub_runs: "no_double h (sub_runs 2 ((=) h) [h] xs)"
proof (induction "2 :: nat" "(=) h" "[h]" xs rule: sub_runs.induct)
  case (2 x xs)
  show ?case
  proof (cases "x = h")
    case True
    let ?R = "sub_runs 2 ((=) h) [h] (dropWhile ((=) h) xs)"
    have "no_double h ?R" and "?R = [] \<or> hd ?R \<noteq> h"
      using 2(1) True hd_sub_runs_rest [OF refl, of 2 h xs] by auto
    then have R: "no_double h (h # ?R)" by (auto simp: no_double_Cons)
    show ?thesis
    proof (cases "takeWhile ((=) h) xs")
      case Nil
      with True R show ?thesis by simp
    next
      case (Cons y ys)
      with True R show ?thesis by (simp add: Let_def)
    qed
  next
    case False
    with 2 show ?thesis by (auto simp: no_double_Cons)
  qed
qed simp

lemma last_sub_runs_sep:
  assumes "xs \<noteq> []" and "last xs \<noteq> h"
  shows "last (sub_runs n ((=) h) [h] xs) = last xs"
  using assms
proof (induction n "(=) h" "[h]" xs rule: sub_runs.induct)
  case (2 n x xs)
  show ?case
  proof (cases "x = h")
    case True
    let ?d = "dropWhile ((=) h) xs"
    from True 2(3,4) have xs: "xs \<noteq> []" and l: "last xs \<noteq> h" by (auto split: if_splits)
    have ne: "?d \<noteq> []"
    proof
      assume "?d = []"
      then have "\<forall>y \<in> set xs. h = y" by (simp only: dropWhile_eq_Nil_conv)
      then have "h = last xs" using last_in_set [OF xs] by (rule bspec)
      with l show False by simp
    qed
    then have ld: "last ?d = last xs"
      by (metis last_appendR takeWhile_dropWhile_id)
    have pre: "\<exists>pre. sub_runs n ((=) h) [h] (x # xs) = pre @ sub_runs n ((=) h) [h] ?d"
      unfolding sub_runs.simps Let_def True by auto
    have "last (sub_runs n ((=) h) [h] ?d) = last ?d"
      using 2(1) [OF True [symmetric] refl ne] ld l by simp
    with pre ld xs hd_sub_runs_sep [OF ne, of n h] show ?thesis
      by (metis last_ConsR last_appendR)
  next
    case False
    show ?thesis
    proof (cases "xs = []")
      case False
      with \<open>x \<noteq> h\<close> 2 hd_sub_runs_sep [OF False, of n h] show ?thesis by auto
    qed (use \<open>x \<noteq> h\<close> in simp)
  qed
qed simp

lemma sub_runs_2_no_double: "no_double h xs \<Longrightarrow> sub_runs 2 ((=) h) [h] xs = xs"
proof (induction xs)
  case (Cons x xs)
  show ?case
  proof (cases "x = h")
    case True
    with Cons have "xs = [] \<or> hd xs \<noteq> h" by (simp add: no_double_Cons)
    then have "takeWhile ((=) h) xs = []" and "dropWhile ((=) h) xs = xs"
      by (cases xs; auto)+
    with Cons True show ?thesis by (simp add: no_double_Cons)
  qed (use Cons in \<open>simp add: no_double_Cons\<close>)
qed simp

section \<open>The normaliser meets its interface\<close>

lemma set_sub_runs_title:
  "set (sub_runs 1 (\<lambda>c. \<not> title_char c) [hyphen] xs) \<subseteq> {c. title_char c}"
  using set_sub_runs_1 [of "\<lambda>c. \<not> title_char c" "[hyphen]" xs] by (auto simp: title_char_def)

lemma normalize_title_canonical_aux: "canonical_title (normalize_title s)"
proof -
  define h where "h = sub_runs 1 (\<lambda>c. \<not> title_char c) [hyphen]
     (filter (\<lambda>c. c \<noteq> CHR 0x27) (py_lower (ascii_fold s)))"
  define st where "st = strip_by ((=) hyphen) h"
  have n: "normalize_title s = sub_runs 2 ((=) hyphen) [hyphen] st"
    by (simp add: normalize_title_def h_def st_def Let_def)
  have "set h \<subseteq> {c. title_char c}"
    unfolding h_def by (rule set_sub_runs_title)
  then have st: "set st \<subseteq> {c. title_char c}"
    using set_strip_by [of "(=) hyphen" h] by (auto simp: st_def)
  have cs: "set (normalize_title s) \<subseteq> {c. title_char c}"
    using set_sub_runs [of 2 "(=) hyphen" "[hyphen]" st] st by (auto simp: n title_char_def)
  show ?thesis
  proof (cases "st = []")
    case False
    then have "hd st \<noteq> hyphen" "last st \<noteq> hyphen"
      using strip_by_hd [of "(=) hyphen" h] strip_by_last [of "(=) hyphen" h]
      by (auto simp: st_def)
    with False show ?thesis
      using cs no_double_sub_runs [of hyphen st] hd_sub_runs_sep [OF False, of 2 hyphen]
        last_sub_runs_sep [OF False, of hyphen 2]
      by (auto simp: canonical_title_def n)
  qed (simp add: canonical_title_def n)
qed

lemma cp_hyphen [simp]: "cp hyphen = 45"
  by (simp add: cp_def)

lemma title_char_cp: "title_char c \<longleftrightarrow> 97 \<le> cp c \<and> cp c \<le> 122 \<or> 48 \<le> cp c \<and> cp c \<le> 57 \<or> cp c = 45"
  by (metis cp_hyphen cp_inject is_lower_alnum_def title_char_def)

lemma title_char_fixed:
  assumes "title_char c"
  shows "ascii_fold_char c = [c]" and "lower_char c = c" and "c \<noteq> CHR 0x27"
proof -
  have b: "cp c < 128" and n: "\<not> (65 \<le> cp c \<and> cp c \<le> 90)" and a: "cp c \<noteq> 39"
    using assms by (auto simp: title_char_cp)
  show "ascii_fold_char c = [c]" using b by (simp add: ascii_fold_char_def)
  show "lower_char c = c" using b n by (auto simp: lower_char_def)
  show "c \<noteq> CHR 0x27" using a by (auto simp: cp_def)
qed

lemma normalize_title_fixed:
  assumes "canonical_title t"
  shows "normalize_title t = t"
proof -
  have ch: "\<And>c. c \<in> set t \<Longrightarrow> title_char c" using assms by (simp add: canonical_title_def)
  have "ascii_fold t = t"
    using ch by (induction t) (auto simp: ascii_fold_def title_char_fixed)
  moreover have "py_lower t = t"
    using ch by (induction t) (auto simp: py_lower_def title_char_fixed)
  moreover have "filter (\<lambda>c. c \<noteq> CHR 0x27) t = t"
    using ch title_char_fixed(3) by (intro filter_id_all) blast
  moreover have "sub_runs 1 (\<lambda>c. \<not> title_char c) [hyphen] t = t"
    using ch by (intro sub_runs_id) simp
  moreover have "strip_by ((=) hyphen) t = t"
    using assms by (intro strip_by_id) (auto simp: canonical_title_def)
  moreover have "sub_runs 2 ((=) hyphen) [hyphen] t = t"
    using assms by (intro sub_runs_2_no_double) (simp add: canonical_title_def)
  ultimately show ?thesis by (simp add: normalize_title_def)
qed

interpretation title: canonical_form normalize_title canonical_title
  by unfold_locales (rule normalize_title_canonical_aux, rule normalize_title_fixed)

text \<open>
  The result of \<open>normalize_title\<close> is canonical: only \<open>a-z\<close>, \<open>0-9\<close> and hyphens, no two hyphens
  in a row, none at either end; and the canonical strings are exactly the strings it can return
  and exactly its fixed points. Titles are therefore compared up to a true normal form.
\<close>

lemma normalize_title_canonical:
  "canonical_title (normalize_title s) \<and>
   (canonical_title t \<longleftrightarrow> normalize_title t = t) \<and>
   range normalize_title = {u. canonical_title u}"
  using title.canon_norm title.canon_iff_fixpoint title.range_norm by blast

section \<open>Case does not matter\<close>

lemma lower_fold_latin:
  assumes "192 \<le> cp c" and "cp c \<le> 222" and "cp c \<noteq> 215"
  shows "py_lower (ascii_fold_char (char_of (cp c + 32))) = py_lower (ascii_fold_char c)"
proof -
  have "192 \<le> cp c \<and> cp c \<le> 197 \<or> cp c = 198 \<or> cp c = 199 \<or> 200 \<le> cp c \<and> cp c \<le> 203 \<or>
    204 \<le> cp c \<and> cp c \<le> 207 \<or> cp c = 208 \<or> cp c = 209 \<or> 210 \<le> cp c \<and> cp c \<le> 214 \<or>
    cp c = 216 \<or> 217 \<le> cp c \<and> cp c \<le> 220 \<or> cp c = 221 \<or> cp c = 222"
    using assms by linarith
  then show ?thesis
    by (elim disjE)
      (simp add: ascii_fold_char_def py_lower_def lower_char_def cp_def of_char_of;
       rule char_of_eqI [symmetric]; simp add: cp_def)+
qed

lemma lower_fold_char: "py_lower (ascii_fold_char (lower_char c)) = py_lower (ascii_fold_char c)"
proof -
  consider "65 \<le> cp c \<and> cp c \<le> 90" | "192 \<le> cp c \<and> cp c \<le> 222 \<and> cp c \<noteq> 215"
    | "lower_char c = c"
    unfolding lower_char_def by meson
  then show ?thesis
  proof cases
    case 1
    then have "cp (lower_char c) < 128" by (simp add: cp_lower_char)
    with 1 show ?thesis by (simp add: ascii_fold_char_def py_lower_def)
  next
    case 2
    then have "lower_char c = char_of (cp c + 32)" by (simp add: lower_char_def)
    with 2 lower_fold_latin show ?thesis by simp
  qed simp
qed

lemma lower_fold: "py_lower (ascii_fold (py_lower s)) = py_lower (ascii_fold s)"
proof (induction s)
  case (Cons c s)
  then show ?case
    using lower_fold_char [of c] by (simp add: ascii_fold_def py_lower_def)
qed (simp add: ascii_fold_def py_lower_def)

lemma normalize_title_lower: "normalize_title (py_lower s) = normalize_title s"
  by (simp add: normalize_title_def lower_fold)

lemma normalize_title_case_insensitive:
  "py_lower s = py_lower t \<Longrightarrow> normalize_title s = normalize_title t"
  by (metis normalize_title_lower)

end
