(* ===== verification/WikilinkResolver.thy ===== *)
theory WikilinkResolver
  imports Domain TitleNormalizer
begin

text \<open>
  \<^verbatim>\<open>src/src/wikimind/engine/wikilink_resolver.py\<close>: resolution of candidate titles against the
  articles of one user, first by title up to case, then by normalised title. The dictionaries
  of the code are indexes that keep the first article in order of creation. \<open>target_spec\<close> states
  what a candidate resolves to without dictionaries; the loop is proved to implement it.
  Rows with equal \<open>created_at\<close> keep their insertion order here (SQL leaves it open).
\<close>

section \<open>The resolver\<close>

record resolved_backlink =
  rb_candidate_text :: string
  rb_target_id :: string
  rb_target_title :: string
  rb_relation_type :: string

definition clean_candidates :: "string list \<Rightarrow> string list" where
  "clean_candidates candidates = map py_strip (filter (\<lambda>c. c \<noteq> [] \<and> py_strip c \<noteq> []) candidates)"

definition load_articles :: "db \<Rightarrow> string \<Rightarrow> string option \<Rightarrow> article list" where
  "load_articles d user_id exclude_article_id =
     (let all_articles = sort_key art_created_at (select (\<lambda>a. art_user_id a = user_id) (articles d))
      in case exclude_article_id of
           None \<Rightarrow> all_articles
         | Some x \<Rightarrow> filter (\<lambda>a. art_id a \<noteq> x) all_articles)"

definition lower_key :: "article \<Rightarrow> string option" where
  "lower_key a = Some (py_lower (art_title a))"

definition norm_key :: "article \<Rightarrow> string option" where
  "norm_key a = (let k = normalize_title (art_title a) in if k = [] then None else Some k)"

definition lookup_target :: "(string \<rightharpoonup> article) \<Rightarrow> (string \<rightharpoonup> article) \<Rightarrow> string \<Rightarrow> article option" where
  "lookup_target by_lower by_normalized candidate =
     (case by_lower (py_lower candidate) of
        Some a \<Rightarrow> Some a
      | None \<Rightarrow> (let norm = normalize_title candidate in
                 if norm \<noteq> [] then by_normalized norm else None))"

text \<open>One turn of the loop; \<open>resolved_by_target\<close> is the insertion-ordered dictionary.\<close>

definition resolve_step ::
  "(string \<Rightarrow> article option) \<Rightarrow> (string \<rightharpoonup> string) \<Rightarrow>
   (string \<times> resolved_backlink) list \<times> string list \<Rightarrow> string \<Rightarrow>
   (string \<times> resolved_backlink) list \<times> string list" where
  "resolve_step look rel_map st candidate =
     (let (resolved_by_target, unresolved) = st in
      case look candidate of
        None \<Rightarrow> (resolved_by_target, unresolved @ [candidate])
      | Some target \<Rightarrow>
          if art_id target \<notin> fst ` set resolved_by_target
          then (resolved_by_target @
                  [(art_id target,
                    \<lparr>rb_candidate_text = candidate, rb_target_id = art_id target,
                     rb_target_title = art_title target,
                     rb_relation_type = (case rel_map (py_lower candidate) of
                        None \<Rightarrow> ''references'' | Some r \<Rightarrow> r)\<rparr>)], unresolved)
          else (resolved_by_target, unresolved))"

definition resolve_backlink_candidates ::
  "string list \<Rightarrow> db \<Rightarrow> string \<Rightarrow> string option \<Rightarrow> (string \<rightharpoonup> string) \<Rightarrow>
   resolved_backlink list \<times> string list" where
  "resolve_backlink_candidates candidates d user_id exclude_article_id rel_map =
     (let cleaned = clean_candidates candidates in
      if cleaned = [] then ([], [])
      else
        (let all_articles = load_articles d user_id exclude_article_id;
             by_lower = index_first lower_key all_articles;
             by_normalized = index_first norm_key all_articles;
             (resolved_by_target, unresolved) =
               foldl (resolve_step (lookup_target by_lower by_normalized) rel_map) ([], []) cleaned
         in (map snd resolved_by_target, unresolved)))"

section \<open>What a candidate resolves to\<close>

definition eligible :: "db \<Rightarrow> string \<Rightarrow> string option \<Rightarrow> article \<Rightarrow> bool" where
  "eligible d uid excl a \<longleftrightarrow> a \<in> set (articles d) \<and> art_user_id a = uid \<and> excl \<noteq> Some (art_id a)"

definition matches :: "string \<Rightarrow> article \<Rightarrow> bool" where
  "matches c a \<longleftrightarrow>
     py_lower (art_title a) = py_lower c \<or>
     normalize_title (art_title a) = normalize_title c \<and> normalize_title c \<noteq> []"

definition target_spec :: "article list \<Rightarrow> string \<Rightarrow> article option" where
  "target_spec arts c =
     (case find (\<lambda>a. py_lower (art_title a) = py_lower c) arts of
        Some a \<Rightarrow> Some a
      | None \<Rightarrow> if normalize_title c = [] then None
                else find (\<lambda>a. normalize_title (art_title a) = normalize_title c) arts)"

lemma set_load_articles: "set (load_articles d uid excl) = {a. eligible d uid excl a}"
  by (auto simp: load_articles_def eligible_def Let_def split: option.splits)

lemma find_norm_key:
  "n \<noteq> [] \<Longrightarrow> find (\<lambda>a. norm_key a = Some n) arts = find (\<lambda>a. normalize_title (art_title a) = n) arts"
  by (induction arts) (auto simp: norm_key_def Let_def split: if_splits)

lemma lookup_target_spec:
  "lookup_target (index_first lower_key arts) (index_first norm_key arts) c = target_spec arts c"
  by (simp add: lookup_target_def target_spec_def index_first_eq_find lower_key_def find_norm_key Let_def
      split: option.splits)

lemma target_spec_Some:
  "target_spec arts c = Some a \<Longrightarrow> a \<in> set arts \<and> matches c a"
  by (auto simp: target_spec_def matches_def split: option.splits if_splits dest: find_Some_in)

lemma target_spec_None: "target_spec arts c = None \<longleftrightarrow> (\<forall>a \<in> set arts. \<not> matches c a)"
  by (auto simp: target_spec_def matches_def find_None_all split: option.splits if_splits dest: find_Some_in)

text \<open>The loop, for any lookup function: what holds after the candidates \<open>seen\<close>.\<close>

definition entry_ok :: "(string \<Rightarrow> article option) \<Rightarrow> string list \<Rightarrow> string \<times> resolved_backlink \<Rightarrow> bool" where
  "entry_ok look seen e \<longleftrightarrow>
     fst e = rb_target_id (snd e) \<and> rb_candidate_text (snd e) \<in> set seen \<and>
     (\<exists>a. look (rb_candidate_text (snd e)) = Some a \<and> art_id a = fst e \<and> art_title a = rb_target_title (snd e))"

definition targets :: "(string \<Rightarrow> article option) \<Rightarrow> string list \<Rightarrow> string set" where
  "targets look seen = {art_id a | a c. c \<in> set seen \<and> look c = Some a}"

definition loop_ok ::
  "(string \<Rightarrow> article option) \<Rightarrow> string list \<Rightarrow> (string \<times> resolved_backlink) list \<times> string list \<Rightarrow> bool" where
  "loop_ok look seen st \<longleftrightarrow>
     distinct (map fst (fst st)) \<and> (\<forall>e \<in> set (fst st). entry_ok look seen e) \<and>
     fst ` set (fst st) = targets look seen \<and> snd st = filter (\<lambda>c. look c = None) seen"

lemma entry_ok_snoc: "entry_ok look seen e \<Longrightarrow> entry_ok look (seen @ [c]) e"
  by (auto simp: entry_ok_def)

lemma targets_snoc:
  "targets look (seen @ [c]) = targets look seen \<union> (case look c of None \<Rightarrow> {} | Some a \<Rightarrow> {art_id a})"
  by (auto simp: targets_def split: option.splits)

lemma loop_ok_step:
  assumes "loop_ok look seen st"
  shows "loop_ok look (seen @ [c]) (resolve_step look rel_map st c)"
proof -
  obtain rs un where st: "st = (rs, un)" by (cases st)
  show ?thesis
  proof (cases "look c")
    case None
    with assms show ?thesis
      by (simp add: loop_ok_def resolve_step_def st targets_snoc entry_ok_snoc)
  next
    case (Some a)
    show ?thesis
    proof (cases "art_id a \<in> fst ` set rs")
      case True
      with assms Some show ?thesis
        by (auto simp: loop_ok_def resolve_step_def st targets_snoc entry_ok_snoc)
    next
      case False
      with assms Some show ?thesis
        by (auto simp: loop_ok_def resolve_step_def st targets_snoc entry_ok_snoc entry_ok_def [of _ _ "(_, _)"])
    qed
  qed
qed

lemma loop_ok_foldl:
  "loop_ok look seen st \<Longrightarrow> loop_ok look (seen @ cs) (foldl (resolve_step look rel_map) st cs)"
proof (induction cs arbitrary: seen st)
  case (Cons c cs)
  from loop_ok_step [OF Cons.prems] have "loop_ok look ((seen @ [c]) @ cs)
      (foldl (resolve_step look rel_map) (resolve_step look rel_map st c) cs)"
    by (rule Cons.IH)
  then show ?case by simp
qed simp

lemma loop_ok_result: "loop_ok look cs (foldl (resolve_step look rel_map) ([], []) cs)"
  using loop_ok_foldl [of look "[]" "([], [])" cs rel_map] by (simp add: loop_ok_def targets_def)

lemma resolve_loop_ok:
  assumes "resolve_backlink_candidates candidates d uid excl rel_map = (resolved, unresolved)"
  shows "\<exists>rs. resolved = map snd rs \<and>
    loop_ok (target_spec (load_articles d uid excl)) (clean_candidates candidates) (rs, unresolved)"
proof (cases "clean_candidates candidates = []")
  case True
  with assms show ?thesis
    by (auto simp: resolve_backlink_candidates_def loop_ok_def targets_def)
next
  case False
  let ?look = "target_spec (load_articles d uid excl)"
  obtain rs un where rs: "foldl (resolve_step ?look rel_map) ([], []) (clean_candidates candidates) = (rs, un)"
    by fastforce
  have "lookup_target (index_first lower_key (load_articles d uid excl))
      (index_first norm_key (load_articles d uid excl)) = ?look"
    by (simp add: fun_eq_iff lookup_target_spec)
  with assms False rs have "resolved = map snd rs" "unresolved = un"
    by (simp_all add: resolve_backlink_candidates_def Let_def)
  with loop_ok_result [of ?look "clean_candidates candidates" rel_map] rs show ?thesis by auto
qed

lemma loop_ok_target_ids: "loop_ok look cs (rs, un) \<Longrightarrow> map (rb_target_id \<circ> snd) rs = map fst rs"
  by (auto simp: loop_ok_def entry_ok_def)

section \<open>Properties\<close>

text \<open>
  C1. Soundness and isolation: every resolved link points at an article of the requesting user that
  exists, is not the excluded (own) article, carries that article's title, and was produced from a
  candidate that equals the title up to case or has the same non-empty normal form. No article is
  the target of two resolved links.
\<close>

theorem resolve_sound:
  assumes "resolve_backlink_candidates candidates d uid excl rel_map = (resolved, unresolved)"
  shows "distinct (map rb_target_id resolved) \<and>
    (\<forall>rb \<in> set resolved. rb_candidate_text rb \<in> set (clean_candidates candidates) \<and>
       (\<exists>a. eligible d uid excl a \<and> matches (rb_candidate_text rb) a \<and>
            art_id a = rb_target_id rb \<and> art_title a = rb_target_title rb))"
proof -
  from resolve_loop_ok [OF assms] obtain rs where
    r: "resolved = map snd rs" and
    l: "loop_ok (target_spec (load_articles d uid excl)) (clean_candidates candidates) (rs, unresolved)"
    by blast
  from l have "distinct (map (rb_target_id \<circ> snd) rs)"
    unfolding loop_ok_target_ids [OF l] by (simp add: loop_ok_def)
  moreover have "\<exists>a. eligible d uid excl a \<and> matches (rb_candidate_text rb) a \<and>
            art_id a = rb_target_id rb \<and> art_title a = rb_target_title rb"
    and "rb_candidate_text rb \<in> set (clean_candidates candidates)" if "rb \<in> set resolved" for rb
    using l that target_spec_Some set_load_articles by (fastforce simp: r loop_ok_def entry_ok_def)+
  ultimately show ?thesis
    unfolding r by simp
qed

text \<open>
  Completeness: the unresolved list is, in order, exactly the cleaned candidates that match no
  eligible article; and every candidate that matches one has its target among the resolved links.
\<close>

lemma resolve_complete:
  assumes "resolve_backlink_candidates candidates d uid excl rel_map = (resolved, unresolved)"
  shows "unresolved = filter (\<lambda>c. \<forall>a. eligible d uid excl a \<longrightarrow> \<not> matches c a) (clean_candidates candidates) \<and>
    (\<forall>c \<in> set (clean_candidates candidates). c \<notin> set unresolved \<longrightarrow>
       (\<exists>rb \<in> set resolved. \<exists>a. eligible d uid excl a \<and> matches c a \<and> art_id a = rb_target_id rb))"
proof -
  let ?look = "target_spec (load_articles d uid excl)"
  from resolve_loop_ok [OF assms] obtain rs where
    r: "resolved = map snd rs" and l: "loop_ok ?look (clean_candidates candidates) (rs, unresolved)"
    by blast
  have u: "unresolved = filter (\<lambda>c. ?look c = None) (clean_candidates candidates)"
    using l by (simp add: loop_ok_def)
  have "\<exists>rb \<in> set resolved. \<exists>a. eligible d uid excl a \<and> matches c a \<and> art_id a = rb_target_id rb"
    if c: "c \<in> set (clean_candidates candidates)" "c \<notin> set unresolved" for c
  proof -
    from c u obtain a where a: "?look c = Some a" by auto
    with c l have "art_id a \<in> set (map fst rs)" by (auto simp: loop_ok_def targets_def)
    then have "art_id a \<in> rb_target_id ` set resolved"
      unfolding loop_ok_target_ids [OF l, symmetric] r by auto
    with a target_spec_Some set_load_articles show ?thesis by fastforce
  qed
  with u show ?thesis
    by (auto simp: target_spec_None set_load_articles)
qed

lemma matches_canonical:
  assumes "normalize_title (art_title a) = k" and "k \<noteq> []"
  shows "matches k a"
  using assms title.norm_idem [of "art_title a"] by (auto simp: matches_def)

text \<open>
  A link written with the normal form of a title always resolves: if some eligible article's
  title normalises to \<open>k\<close> and \<open>k\<close> is not empty, then a candidate \<open>k\<close> is never reported as
  unresolved. (Canonical titles contain no white space, so the initial stripping keeps them.)
\<close>

lemma canonical_candidate_resolves:
  assumes "resolve_backlink_candidates candidates d uid excl rel_map = (resolved, unresolved)"
    and "eligible d uid excl a" and "normalize_title (art_title a) = k" and "k \<noteq> []"
  shows "k \<notin> set unresolved"
proof
  assume "k \<in> set unresolved"
  moreover have "unresolved = filter (\<lambda>c. target_spec (load_articles d uid excl) c = None) (clean_candidates candidates)"
    using resolve_loop_ok [OF assms(1)] by (auto simp: loop_ok_def)
  ultimately have "\<not> matches k a"
    using assms(2) by (auto simp: target_spec_None set_load_articles)
  with matches_canonical assms show False by blast
qed

section \<open>Witnesses\<close>

definition ex_articles :: "article list" where
  "ex_articles =
     [new_article ''a1'' ''u1'' ''attention'' ''Attention Is All You Need'' ''a1.md'' 2,
      new_article ''a2'' ''u1'' ''bert'' ''BERT'' ''a2.md'' 1,
      new_article ''a3'' ''u2'' ''gpt'' ''GPT-3'' ''a3.md'' 0]"

definition ex_db :: db where
  "ex_db = empty_db\<lparr>articles := ex_articles\<rparr>"

lemma ex_resolve:
  "resolve_backlink_candidates ['' bert '', ''attention is all-you need!'', ''gpt-3'', ''  ''] ex_db ''u1'' None Map.empty =
   ([\<lparr>rb_candidate_text = ''bert'', rb_target_id = ''a2'', rb_target_title = ''BERT'',
      rb_relation_type = ''references''\<rparr>,
     \<lparr>rb_candidate_text = ''attention is all-you need!'', rb_target_id = ''a1'',
      rb_target_title = ''Attention Is All You Need'', rb_relation_type = ''references''\<rparr>], [''gpt-3''])"
  by code_simp

theorem resolve_sound_witness:
  "distinct (map rb_target_id
     (fst (resolve_backlink_candidates ['' bert '', ''attention is all-you need!'', ''gpt-3'', ''  ''] ex_db ''u1'' None Map.empty)))"
  using resolve_sound [OF ex_resolve] ex_resolve by simp

lemma resolve_complete_witness:
  "snd (resolve_backlink_candidates ['' bert '', ''attention is all-you need!'', ''gpt-3'', ''  ''] ex_db ''u1'' None Map.empty) =
   filter (\<lambda>c. \<forall>a. eligible ex_db ''u1'' None a \<longrightarrow> \<not> matches c a)
     (clean_candidates ['' bert '', ''attention is all-you need!'', ''gpt-3'', ''  ''])"
  using resolve_complete [OF ex_resolve] ex_resolve by simp

lemma ex_resolve_canonical:
  "resolve_backlink_candidates [''attention-is-all-you-need''] ex_db ''u1'' None Map.empty =
   ([\<lparr>rb_candidate_text = ''attention-is-all-you-need'', rb_target_id = ''a1'',
      rb_target_title = ''Attention Is All You Need'', rb_relation_type = ''references''\<rparr>], [])"
  by code_simp

lemma canonical_candidate_resolves_witness:
  "''attention-is-all-you-need'' \<notin> set (snd
     (resolve_backlink_candidates [''attention-is-all-you-need''] ex_db ''u1'' None Map.empty))"
proof -
  have "eligible ex_db ''u1'' None (ex_articles ! 0)"
    by (simp add: eligible_def ex_db_def ex_articles_def new_article_def)
  moreover have "normalize_title (art_title (ex_articles ! 0)) = ''attention-is-all-you-need''"
    by code_simp
  ultimately have "''attention-is-all-you-need'' \<notin> set []"
    by (rule canonical_candidate_resolves [OF ex_resolve_canonical]) simp
  then show ?thesis using ex_resolve_canonical by simp
qed

end
