(* ===== verification/Sweep.thy ===== *)
theory Sweep
  imports WikilinkResolver
begin

text \<open>
  \<^verbatim>\<open>src/src/wikimind/jobs/sweep.py\<close>: the incremental sweep that promotes \<open>[[Title]]\<close> brackets of
  stored articles to links. The pattern \<^verbatim>\<open>\[\[([^\]]+)\]\]\<close> is a scanner that cuts the text into
  literal characters and bracket tokens. The wiki storage is the map \<open>wiki_files\<close> from user and
  path to content (a path the storage refuses counts as absent, as in the code). The full-text
  index the clean-up also trims is maintained by the database on Postgres, where the call does
  nothing (\<open>remove_article\<close> in \<^verbatim>\<open>services/search.py\<close>); the model is of that deployment. The exceptions
  the job loop catches (storage and database failures) do not occur in the model.
\<close>

section \<open>The bracket pattern\<close>

datatype seg = Lit char | Link string

definition match_at :: "string \<Rightarrow> (string \<times> string) option" where
  "match_at s =
     (if take 2 s = ''[['' then
        (let rest = drop 2 s;
             g = takeWhile (\<lambda>c. c \<noteq> CHR '']'') rest;
             after = dropWhile (\<lambda>c. c \<noteq> CHR '']'') rest
         in if g \<noteq> [] \<and> take 2 after = '']]'' then Some (g, drop 2 after) else None)
      else None)"

lemma match_at_Some:
  assumes "match_at s = Some (g, rest)"
  shows "s = ''[['' @ g @ '']]'' @ rest" and "length rest < length s"
proof -
  from assms have s: "take 2 s = ''[[''" and
    g: "g = takeWhile (\<lambda>c. c \<noteq> CHR '']'') (drop 2 s)" and
    a: "take 2 (dropWhile (\<lambda>c. c \<noteq> CHR '']'') (drop 2 s)) = '']]''" and
    r: "rest = drop 2 (dropWhile (\<lambda>c. c \<noteq> CHR '']'') (drop 2 s))"
    by (auto simp: match_at_def Let_def split: if_splits)
  have "drop 2 s = g @ '']]'' @ rest"
    by (metis a append_take_drop_id g r takeWhile_dropWhile_id)
  with s show "s = ''[['' @ g @ '']]'' @ rest"
    by (metis append_take_drop_id)
  then have "length s = 2 + length g + 2 + length rest" by simp
  then show "length rest < length s" by linarith
qed

function segs :: "string \<Rightarrow> seg list" where
  "segs [] = []"
| "segs (c # cs) =
     (case match_at (c # cs) of
        Some (g, rest) \<Rightarrow> Link g # segs rest
      | None \<Rightarrow> Lit c # segs cs)"
  by pat_completeness auto
termination
  by (relation "measure length") (auto dest: match_at_Some(2))

definition findall :: "string \<Rightarrow> string list" where
  "findall s = concat (map (\<lambda>t. case t of Link g \<Rightarrow> [g] | Lit _ \<Rightarrow> []) (segs s))"

definition bracketed :: "string \<Rightarrow> string" where
  "bracketed g = ''[['' @ g @ '']]''"

definition sub_links :: "(string \<Rightarrow> string) \<Rightarrow> string \<Rightarrow> string" where
  "sub_links f s = concat (map (\<lambda>t. case t of Link g \<Rightarrow> f g | Lit c \<Rightarrow> [c]) (segs s))"

lemma sub_links_bracketed: "sub_links bracketed s = s"
proof (induction s rule: segs.induct)
  case (2 c cs)
  show ?case
  proof (cases "match_at (c # cs)")
    case None
    with 2 show ?thesis by (simp add: sub_links_def)
  next
    case (Some p)
    obtain g rest where p: "p = (g, rest)" by (cases p)
    with Some 2 have IH: "sub_links bracketed rest = rest" by simp
    have "sub_links bracketed (c # cs) = bracketed g @ sub_links bracketed rest"
      using Some p by (simp add: sub_links_def)
    also have "\<dots> = c # cs"
      using match_at_Some(1) [of "c # cs" g rest] Some p IH by (simp add: bracketed_def)
    finally show ?thesis .
  qed
qed (simp add: sub_links_def)

lemma in_findall: "g \<in> set (findall s) \<longleftrightarrow> Link g \<in> set (segs s)"
  by (force simp: findall_def split: seg.splits)

lemma sub_links_cong: "(\<And>g. g \<in> set (findall s) \<Longrightarrow> f g = h g) \<Longrightarrow> sub_links f s = sub_links h s"
  unfolding sub_links_def
  by (rule arg_cong [where f = concat], rule map_cong) (auto simp: in_findall split: seg.splits)

section \<open>Sweeping one article\<close>

definition resolved_map :: "resolved_backlink list \<Rightarrow> (string \<rightharpoonup> string)" where
  "resolved_map resolved = foldl (\<lambda>m rb. m(py_lower (rb_candidate_text rb) \<mapsto> rb_target_id rb)) Map.empty resolved"

definition replace_match :: "(string \<rightharpoonup> string) \<Rightarrow> string \<Rightarrow> string" where
  "replace_match m bracket_text =
     (case m (py_lower bracket_text) of
        Some target_id \<Rightarrow> ''['' @ bracket_text @ ''](/wiki/'' @ target_id @ '')''
      | None \<Rightarrow> bracketed bracket_text)"

definition put_backlink :: "string \<Rightarrow> string \<Rightarrow> backlink list \<Rightarrow> resolved_backlink \<Rightarrow> backlink list" where
  "put_backlink aid uid bls rb =
     (if get_by (\<lambda>b. (bl_source_article_id b, bl_target_article_id b)) (aid, rb_target_id rb) bls \<noteq> None
      then update_where (\<lambda>b. bl_source_article_id b = aid \<and> bl_target_article_id b = rb_target_id rb)
             (\<lambda>b. b\<lparr>bl_context := Some (rb_candidate_text rb)\<rparr>) bls
      else bls @ [\<lparr>bl_source_article_id = aid, bl_target_article_id = rb_target_id rb, bl_user_id = uid,
             bl_context = Some (rb_candidate_text rb), bl_relation_type = REFERENCES, bl_resolution = None,
             bl_resolution_note = None, bl_resolved_at = None, bl_resolved_by = None\<rparr>])"

definition sweep_single_article :: "string \<Rightarrow> db \<Rightarrow> db \<times> bool" where
  "sweep_single_article article_id d =
     (case get_by art_id article_id (articles d) of
        None \<Rightarrow> (d, False)
      | Some article \<Rightarrow>
        (let uid = art_user_id article in
         case wiki_files d (uid, art_file_path article) of
           None \<Rightarrow> (d, False)
         | Some content \<Rightarrow>
           (let found = findall content in
            if found = [] then (d, False)
            else
              (let (resolved, unresolved) =
                     resolve_backlink_candidates (nub found) d uid (Some (art_id article)) Map.empty
               in if resolved = [] then (d, False)
                  else
                    (let new_content = sub_links (replace_match (resolved_map resolved)) content in
                     if new_content = content then (d, False)
                     else (d\<lparr>wiki_files := (wiki_files d)((uid, art_file_path article) \<mapsto> new_content),
                             backlinks := foldl (put_backlink (art_id article) uid) (backlinks d) resolved\<rparr>,
                           True))))))"

section \<open>The whole sweep\<close>

definition delete_article_links :: "string \<Rightarrow> backlink list \<Rightarrow> backlink list" where
  "delete_article_links aid bls =
     delete_where (\<lambda>b. bl_source_article_id b = aid \<or> bl_target_article_id b = aid) bls"

definition cleanup_step :: "string \<Rightarrow> db \<times> nat \<Rightarrow> article \<Rightarrow> db \<times> nat" where
  "cleanup_step user_id st a =
     (let (d, cleaned) = st in
      if wiki_files d (user_id, art_file_path a) \<noteq> None then (d, cleaned)
      else (d\<lparr>backlinks := delete_article_links (art_id a) (backlinks d),
              articles := delete_where (\<lambda>x. art_id x = art_id a) (articles d)\<rparr>, cleaned + 1))"

definition cleanup_orphaned_concept_pages :: "string \<Rightarrow> db \<Rightarrow> db \<times> nat" where
  "cleanup_orphaned_concept_pages user_id d =
     foldl (cleanup_step user_id) (d, 0)
       (select (\<lambda>a. art_page_type a = CONCEPT \<and> art_user_id a = user_id) (articles d))"

definition sweep_step :: "db \<times> nat \<Rightarrow> string \<Rightarrow> db \<times> nat" where
  "sweep_step st aid =
     (let (d, updated_count) = st; (d', changed) = sweep_single_article aid d
      in (d', if changed then updated_count + 1 else updated_count))"

text \<open>
  The job record gets the identifier \<open>jid\<close>; \<open>t0\<close>, \<open>t1\<close> and \<open>t2\<close> are the clock when the job is
  queued, started and completed. With no articles the code completes the job without a
  completion time.
\<close>

definition sweep_job :: "string \<Rightarrow> datetime \<Rightarrow> datetime \<Rightarrow> string \<Rightarrow> job" where
  "sweep_job jid t0 t1 user_id =
     \<lparr>job_id = jid, job_user_id = user_id, job_job_type = SWEEP_WIKILINKS, job_status = RUNNING,
      job_source_id = None, job_article_id = None, job_priority = 5, job_queued_at = t0,
      job_started_at = Some t1, job_completed_at = None, job_error = None, job_result_summary = None\<rparr>"

definition sweep_wikilinks :: "string \<Rightarrow> datetime \<Rightarrow> datetime \<Rightarrow> datetime \<Rightarrow> string \<Rightarrow> db \<Rightarrow> db" where
  "sweep_wikilinks jid t0 t1 t2 user_id d =
     (let j = sweep_job jid t0 t1 user_id;
          d1 = fst (cleanup_orphaned_concept_pages user_id d);
          article_ids = map art_id (select (\<lambda>a. art_user_id a = user_id) (articles d1))
      in if article_ids = []
         then d1\<lparr>jobs := jobs d1 @ [j\<lparr>job_status := COMPLETE, job_result_summary := Some ''No articles to sweep''\<rparr>]\<rparr>
         else
           (let (d2, updated_count) = foldl sweep_step (d1, 0) article_ids
            in d2\<lparr>jobs := jobs d2 @ [j\<lparr>job_status := COMPLETE, job_completed_at := Some t2,
                 job_result_summary := Some (''Swept '' @ show_nat (length article_ids) @ '' articles, updated '' @
                   show_nat updated_count)\<rparr>]\<rparr>))"

section \<open>Promoted links are sound\<close>

lemma foldl_map_upd_Some:
  "foldl (\<lambda>m rb. m(k rb \<mapsto> v rb)) m xs y = Some t \<Longrightarrow> m y = Some t \<or> (\<exists>rb \<in> set xs. k rb = y \<and> v rb = t)"
proof (induction xs arbitrary: m)
  case (Cons x xs)
  from Cons.IH [of "m(k x \<mapsto> v x)"] Cons.prems show ?case by (auto split: if_splits)
qed simp

lemma resolved_map_Some:
  "resolved_map resolved k = Some t \<Longrightarrow> \<exists>rb \<in> set resolved. py_lower (rb_candidate_text rb) = k \<and> rb_target_id rb = t"
  using foldl_map_upd_Some [where k = "\<lambda>rb. py_lower (rb_candidate_text rb)" and v = rb_target_id]
  by (fastforce simp: resolved_map_def)

lemma matches_lower_cong: "py_lower g = py_lower c \<Longrightarrow> matches c a \<Longrightarrow> matches g a"
  using normalize_title_case_insensitive [of g c] by (auto simp: matches_def)

lemma resolve_target_sound:
  assumes "resolve_backlink_candidates cs d uid excl rm = (resolved, unresolved)" and "rb \<in> set resolved"
  shows "\<exists>a. eligible d uid excl a \<and> matches (rb_candidate_text rb) a \<and> art_id a = rb_target_id rb"
proof -
  from resolve_loop_ok [OF assms(1)] obtain rs where
    r: "resolved = map snd rs" and
    l: "loop_ok (target_spec (load_articles d uid excl)) (clean_candidates cs) (rs, unresolved)"
    by blast
  with assms(2) show ?thesis
    using target_spec_Some set_load_articles by (fastforce simp: loop_ok_def entry_ok_def)
qed

lemma replace_match_sound:
  assumes "resolve_backlink_candidates cs d uid excl Map.empty = (resolved, unresolved)"
  shows "replace_match (resolved_map resolved) g = bracketed g \<or>
    (\<exists>a. eligible d uid excl a \<and> matches g a \<and>
         replace_match (resolved_map resolved) g = ''['' @ g @ ''](/wiki/'' @ art_id a @ '')'')"
proof (cases "resolved_map resolved (py_lower g)")
  case (Some t)
  then obtain rb where rb: "rb \<in> set resolved" "py_lower (rb_candidate_text rb) = py_lower g" "rb_target_id rb = t"
    using resolved_map_Some by blast
  from resolve_target_sound [OF assms rb(1)] obtain a where
    "eligible d uid excl a" "matches (rb_candidate_text rb) a" "art_id a = t"
    using rb(3) by blast
  with matches_lower_cong [OF rb(2) [symmetric]] Some show ?thesis
    by (auto simp: replace_match_def)
qed (simp add: replace_match_def)

lemma sweep_single_cases:
  obtains (same) "sweep_single_article aid d = (d, False)"
  | (changed) article content resolved unresolved where
      "get_by art_id aid (articles d) = Some article"
      "wiki_files d (art_user_id article, art_file_path article) = Some content"
      "findall content \<noteq> []"
      "resolve_backlink_candidates (nub (findall content)) d (art_user_id article) (Some (art_id article)) Map.empty
         = (resolved, unresolved)"
      "sweep_single_article aid d =
        (d\<lparr>wiki_files := (wiki_files d)((art_user_id article, art_file_path article) \<mapsto>
             sub_links (replace_match (resolved_map resolved)) content),
           backlinks := foldl (put_backlink (art_id article) (art_user_id article)) (backlinks d) resolved\<rparr>, True)"
proof (cases "get_by art_id aid (articles d)")
  case None
  then show thesis by (intro same) (simp add: sweep_single_article_def)
next
  case a: (Some article)
  show thesis
  proof (cases "wiki_files d (art_user_id article, art_file_path article)")
    case None
    with a show thesis by (intro same) (simp add: sweep_single_article_def)
  next
    case c: (Some content)
    obtain resolved unresolved where r: "resolve_backlink_candidates (nub (findall content)) d
        (art_user_id article) (Some (art_id article)) Map.empty = (resolved, unresolved)"
      by fastforce
    show thesis
    proof (cases "findall content = [] \<or> resolved = [] \<or>
        sub_links (replace_match (resolved_map resolved)) content = content")
      case True
      with a c r show thesis by (intro same) (auto simp: sweep_single_article_def Let_def)
    next
      case False
      with a c r show thesis
        by (intro changed [OF a c _ r]) (auto simp: sweep_single_article_def Let_def)
    qed
  qed
qed

text \<open>
  C2. The sweep only rewrites brackets, and only to links that are right: the new text of the
  article is its old text in which every bracket \<open>[[g]]\<close> is kept or became \<open>[g](/wiki/t)\<close>, where
  \<open>t\<close> is the identifier of an article of the same owner, other than the swept one, that \<open>g\<close>
  matches by title. Every other file and every article row stays as it was.
\<close>

theorem sweep_links_sound:
  assumes "sweep_single_article aid d = (d', True)"
  shows "articles d' = articles d \<and>
    (\<exists>article content f. get_by art_id aid (articles d) = Some article \<and>
       wiki_files d (art_user_id article, art_file_path article) = Some content \<and>
       wiki_files d' = (wiki_files d)((art_user_id article, art_file_path article) \<mapsto> sub_links f content) \<and>
       (\<forall>g. f g = bracketed g \<or>
          (\<exists>a. eligible d (art_user_id article) (Some (art_id article)) a \<and> matches g a \<and>
               f g = ''['' @ g @ ''](/wiki/'' @ art_id a @ '')'')))"
proof (cases aid d rule: sweep_single_cases)
  case same
  with assms show ?thesis by simp
next
  case (changed article content resolved unresolved)
  let ?f = "replace_match (resolved_map resolved)"
  have "\<forall>g. ?f g = bracketed g \<or>
      (\<exists>a. eligible d (art_user_id article) (Some (art_id article)) a \<and> matches g a \<and>
           ?f g = ''['' @ g @ ''](/wiki/'' @ art_id a @ '')'')"
    using replace_match_sound [OF changed(4)] by blast
  moreover have "articles d' = articles d"
    and "wiki_files d' = (wiki_files d)((art_user_id article, art_file_path article) \<mapsto> sub_links ?f content)"
    using assms changed(5) by auto
  ultimately show ?thesis using changed(1,2) by blast
qed

section \<open>Backlink rows\<close>

abbreviation link_key :: "backlink \<Rightarrow> string \<times> string" where
  "link_key b \<equiv> (bl_source_article_id b, bl_target_article_id b)"

lemma put_backlink_keys:
  "map link_key (put_backlink aid uid bls rb) =
     (if (aid, rb_target_id rb) \<in> link_key ` set bls then map link_key bls
      else map link_key bls @ [(aid, rb_target_id rb)])"
  using get_by_None [of link_key "(aid, rb_target_id rb)" bls]
  by (auto simp: put_backlink_def)

lemma put_backlink_distinct:
  "distinct (map link_key bls) \<Longrightarrow> distinct (map link_key (put_backlink aid uid bls rb))"
  unfolding put_backlink_keys by (auto simp: image_iff)

lemma foldl_put_backlink:
  "distinct (map link_key bls) \<Longrightarrow>
   distinct (map link_key (foldl (put_backlink aid uid) bls rbs)) \<and>
   link_key ` set (foldl (put_backlink aid uid) bls rbs) =
     link_key ` set bls \<union> (\<lambda>rb. (aid, rb_target_id rb)) ` set rbs"
proof (induction rbs arbitrary: bls)
  case (Cons rb rbs)
  have "link_key ` set (put_backlink aid uid bls rb) = set (map link_key (put_backlink aid uid bls rb))"
    by simp
  also have "\<dots> = insert (aid, rb_target_id rb) (link_key ` set bls)"
    unfolding put_backlink_keys by auto
  finally show ?case
    using Cons.IH [OF put_backlink_distinct [OF Cons.prems]] by auto
qed simp

text \<open>
  Backlink integrity: a sweep keeps the primary key of the backlink table, deletes no link, and
  adds only links that leave the swept article and end at another article of the same owner; in
  particular it never creates a self-link or a link across users.
\<close>

lemma sweep_backlinks:
  assumes "distinct (map link_key (backlinks d))" and "sweep_single_article aid d = (d', changed)"
  shows "distinct (map link_key (backlinks d')) \<and>
    link_key ` set (backlinks d) \<subseteq> link_key ` set (backlinks d') \<and>
    (\<forall>k \<in> link_key ` set (backlinks d') - link_key ` set (backlinks d).
       fst k = aid \<and> (\<exists>s a. s \<in> set (articles d) \<and> art_id s = aid \<and>
          eligible d (art_user_id s) (Some aid) a \<and> art_id a = snd k \<and> snd k \<noteq> aid))"
proof (cases aid d rule: sweep_single_cases)
  case same
  with assms show ?thesis by simp
next
  case (changed article content resolved unresolved)
  from changed(1) have art: "article \<in> set (articles d)" "art_id article = aid"
    using get_by_Some by fastforce+
  have bl: "backlinks d' = foldl (put_backlink aid (art_user_id article)) (backlinks d) resolved"
    using assms(2) changed(5) art(2) by auto
  note F = foldl_put_backlink [OF assms(1), of aid "art_user_id article" resolved]
  have "\<exists>a. eligible d (art_user_id article) (Some aid) a \<and> art_id a = rb_target_id rb \<and> rb_target_id rb \<noteq> aid"
    if "rb \<in> set resolved" for rb
    using resolve_target_sound [OF changed(4) that] art(2) by (fastforce simp: eligible_def)
  with F art show ?thesis
    unfolding bl by (auto simp: image_iff)
qed

section \<open>Orphaned concept pages\<close>

definition orphan :: "db \<Rightarrow> string \<Rightarrow> article \<Rightarrow> bool" where
  "orphan d uid a \<longleftrightarrow>
     art_page_type a = CONCEPT \<and> art_user_id a = uid \<and> wiki_files d (uid, art_file_path a) = None"

lemma delete_where_twice: "delete_where p (delete_where q xs) = delete_where (\<lambda>x. q x \<or> p x) xs"
  by (simp add: delete_where_def conj_commute)

lemma foldl_cleanup_step:
  defines "ids d uid as \<equiv> art_id ` {a \<in> set as. wiki_files d (uid, art_file_path a) = None}"
  shows "foldl (cleanup_step uid) (d, n) as =
    (d\<lparr>backlinks := delete_where (\<lambda>b. bl_source_article_id b \<in> ids d uid as \<or> bl_target_article_id b \<in> ids d uid as) (backlinks d),
       articles := delete_where (\<lambda>x. art_id x \<in> ids d uid as) (articles d)\<rparr>,
     n + length (filter (\<lambda>a. wiki_files d (uid, art_file_path a) = None) as))"
proof (induction as arbitrary: d n)
  case Nil
  show ?case by (simp add: ids_def delete_where_def)
next
  case (Cons a as)
  show ?case
  proof (cases "wiki_files d (uid, art_file_path a) = None")
    case True
    let ?d = "d\<lparr>backlinks := delete_article_links (art_id a) (backlinks d),
      articles := delete_where (\<lambda>x. art_id x = art_id a) (articles d)\<rparr>"
    have "ids d uid (a # as) = insert (art_id a) (ids ?d uid as)"
      using True by (auto simp: ids_def)
    with True Cons.IH [of ?d "n + 1"] show ?thesis
      by (simp add: cleanup_step_def delete_article_links_def delete_where_twice disj_ac)
  next
    case False
    then have "ids d uid (a # as) = ids d uid as" by (auto simp: ids_def)
    with False Cons.IH [of d n] show ?thesis by (simp add: cleanup_step_def)
  qed
qed

text \<open>
  The clean-up before a sweep deletes exactly the orphans: the user's concept pages whose file is
  gone. It reports their number, removes every backlink that touches one of them and no other,
  and leaves all other articles and all files alone.
\<close>

lemma cleanup_removes_exactly_orphans:
  assumes "distinct (map art_id (articles d))" and "cleanup_orphaned_concept_pages uid d = (d', n)"
  shows "articles d' = filter (\<lambda>a. \<not> orphan d uid a) (articles d) \<and>
    n = length (filter (orphan d uid) (articles d)) \<and>
    backlinks d' = filter (\<lambda>b. \<forall>a \<in> set (articles d). orphan d uid a \<longrightarrow>
        bl_source_article_id b \<noteq> art_id a \<and> bl_target_article_id b \<noteq> art_id a) (backlinks d) \<and>
    wiki_files d' = wiki_files d"
proof -
  let ?L = "select (\<lambda>a. art_page_type a = CONCEPT \<and> art_user_id a = uid) (articles d)"
  let ?I = "art_id ` {a \<in> set ?L. wiki_files d (uid, art_file_path a) = None}"
  have I: "?I = art_id ` {a \<in> set (articles d). orphan d uid a}"
    by (auto simp: orphan_def)
  have mem: "art_id a \<in> ?I \<longleftrightarrow> orphan d uid a" if "a \<in> set (articles d)" for a
    unfolding I using that assms(1) by (auto simp: distinct_map inj_on_def)
  note R = foldl_cleanup_step [of uid d 0 ?L, folded cleanup_orphaned_concept_pages_def, unfolded assms(2)]
  from R have "articles d' = filter (\<lambda>a. \<not> orphan d uid a) (articles d)"
    by (simp add: delete_where_def) (rule filter_cong [OF refl], use mem in auto)
  moreover have "filter (\<lambda>a. wiki_files d (uid, art_file_path a) = None) ?L = filter (orphan d uid) (articles d)"
    unfolding select_def filter_filter by (rule filter_cong) (auto simp: orphan_def)
  with R have "n = length (filter (orphan d uid) (articles d))" by simp
  moreover from R have "backlinks d' = filter (\<lambda>b. \<forall>a \<in> set (articles d). orphan d uid a \<longrightarrow>
        bl_source_article_id b \<noteq> art_id a \<and> bl_target_article_id b \<noteq> art_id a) (backlinks d)"
    by (simp add: delete_where_def) (rule filter_cong [OF refl], use I in auto)
  moreover from R have "wiki_files d' = wiki_files d" by simp
  ultimately show ?thesis by blast
qed

section \<open>Nothing to promote\<close>

definition no_brackets :: "db \<Rightarrow> string \<Rightarrow> bool" where
  "no_brackets d uid \<longleftrightarrow> (\<forall>a \<in> set (articles d). art_user_id a = uid \<longrightarrow> \<not> orphan d uid a \<and>
     (\<forall>content. wiki_files d (uid, art_file_path a) = Some content \<longrightarrow> findall content = []))"

lemma sweep_single_no_brackets:
  assumes "\<And>a content. get_by art_id aid (articles d) = Some a \<Longrightarrow>
    wiki_files d (art_user_id a, art_file_path a) = Some content \<Longrightarrow> findall content = []"
  shows "sweep_single_article aid d = (d, False)"
  using assms by (auto simp: sweep_single_article_def Let_def split: option.splits)

lemma foldl_sweep_same:
  assumes "\<And>aid. aid \<in> set ids \<Longrightarrow> sweep_single_article aid d = (d, False)"
  shows "foldl sweep_step (d, n) ids = (d, n)"
  using assms by (induction ids) (auto simp: sweep_step_def)

lemma cleanup_no_orphans:
  assumes "\<And>a. a \<in> set (articles d) \<Longrightarrow> \<not> orphan d uid a"
  shows "cleanup_orphaned_concept_pages uid d = (d, 0)"
proof -
  have "\<forall>a \<in> set (select (\<lambda>a. art_page_type a = CONCEPT \<and> art_user_id a = uid) (articles d)).
      wiki_files d (uid, art_file_path a) \<noteq> None"
    using assms by (auto simp: orphan_def)
  then have "foldl (cleanup_step uid) (d, 0)
      (select (\<lambda>a. art_page_type a = CONCEPT \<and> art_user_id a = uid) (articles d)) = (d, 0)"
    by (induction rule: list.induct) (auto simp: cleanup_step_def)
  then show ?thesis by (simp add: cleanup_orphaned_concept_pages_def)
qed

text \<open>
  The documented idempotence: on a wiki in which no article of the user has an open bracket and no
  concept page is orphaned, a whole sweep writes nothing but its own job record, and that record
  ends in state \<open>COMPLETE\<close>.
\<close>

lemma sweep_wikilinks_noop:
  assumes "distinct (map art_id (articles d))" and "no_brackets d uid"
  shows "\<exists>j. sweep_wikilinks jid t0 t1 t2 uid d = d\<lparr>jobs := jobs d @ [j]\<rparr> \<and>
    job_id j = jid \<and> job_status j = COMPLETE \<and> job_error j = None"
proof -
  have c: "cleanup_orphaned_concept_pages uid d = (d, 0)"
    using assms(2) by (intro cleanup_no_orphans) (auto simp: no_brackets_def orphan_def)
  have "sweep_single_article aid d = (d, False)"
    if "aid \<in> set (map art_id (select (\<lambda>a. art_user_id a = uid) (articles d)))" for aid
  proof (rule sweep_single_no_brackets)
    fix a content
    assume a: "get_by art_id aid (articles d) = Some a"
      and f: "wiki_files d (art_user_id a, art_file_path a) = Some content"
    from that obtain b where b: "b \<in> set (articles d)" "art_user_id b = uid" "art_id b = aid" by auto
    with a get_by_distinct [OF assms(1) b(1)] have "a = b" by simp
    with b f assms(2) show "findall content = []" by (auto simp: no_brackets_def)
  qed
  then have f: "foldl sweep_step (d, 0) (map art_id (select (\<lambda>a. art_user_id a = uid) (articles d))) = (d, 0)"
    by (rule foldl_sweep_same)
  show ?thesis
  proof (cases "select (\<lambda>a. art_user_id a = uid) (articles d) = []")
    case True
    then have "sweep_wikilinks jid t0 t1 t2 uid d = d\<lparr>jobs := jobs d @
        [(sweep_job jid t0 t1 uid)\<lparr>job_status := COMPLETE, job_result_summary := Some ''No articles to sweep''\<rparr>]\<rparr>"
      by (simp add: sweep_wikilinks_def c)
    then show ?thesis by (intro exI conjI) (assumption | simp add: sweep_job_def)+
  next
    case False
    then obtain r where "sweep_wikilinks jid t0 t1 t2 uid d = d\<lparr>jobs := jobs d @
        [(sweep_job jid t0 t1 uid)\<lparr>job_status := COMPLETE, job_completed_at := Some t2, job_result_summary := r\<rparr>]\<rparr>"
      by (simp add: sweep_wikilinks_def c f)
    then show ?thesis by (intro exI conjI) (assumption | simp add: sweep_job_def)+
  qed
qed

section \<open>Witnesses and the limits of one pass\<close>

definition ex_wiki :: "string \<Rightarrow> db" where
  "ex_wiki content = empty_db\<lparr>articles :=
      [new_article ''a1'' ''u1'' ''notes'' ''Notes'' ''a1.md'' 1,
       new_article ''a2'' ''u1'' ''deep-learning'' ''Deep Learning'' ''a2.md'' 2,
       (new_article ''c1'' ''u1'' ''gone'' ''Gone'' ''c1.md'' 3)\<lparr>art_page_type := CONCEPT\<rparr>],
     backlinks := [\<lparr>bl_source_article_id = ''c1'', bl_target_article_id = ''a2'', bl_user_id = ''u1'',
       bl_context = None, bl_relation_type = SYNTHESIZES, bl_resolution = None,
       bl_resolution_note = None, bl_resolved_at = None, bl_resolved_by = None\<rparr>],
     wiki_files := [(''u1'', ''a1.md'') \<mapsto> content, (''u1'', ''a2.md'') \<mapsto> ''plain'']\<rparr>"

definition sweep_once :: "db \<Rightarrow> db" where
  "sweep_once d = fst (sweep_single_article ''a1'' d)"

lemma ex_swept: "snd (sweep_single_article ''a1'' (ex_wiki ''see [[Deep Learning]]'')) = True"
  by code_simp

lemma ex_swept_pair:
  "sweep_single_article ''a1'' (ex_wiki ''see [[Deep Learning]]'') = (sweep_once (ex_wiki ''see [[Deep Learning]]''), True)"
  using ex_swept by (metis prod.collapse sweep_once_def)

theorem sweep_links_sound_witness:
  "articles (sweep_once (ex_wiki ''see [[Deep Learning]]'')) = articles (ex_wiki ''see [[Deep Learning]]'')"
  using sweep_links_sound [OF ex_swept_pair] by blast

lemma sweep_backlinks_witness:
  "distinct (map link_key (backlinks (sweep_once (ex_wiki ''see [[Deep Learning]]''))))"
proof -
  have "distinct (map link_key (backlinks (ex_wiki ''see [[Deep Learning]]'')))"
    by (simp add: ex_wiki_def)
  from sweep_backlinks [OF this ex_swept_pair] show ?thesis by blast
qed

lemma cleanup_removes_exactly_orphans_witness:
  "map art_id (articles (fst (cleanup_orphaned_concept_pages ''u1'' (ex_wiki ''x'')))) = [''a1'', ''a2''] \<and>
   snd (cleanup_orphaned_concept_pages ''u1'' (ex_wiki ''x'')) = 1"
proof -
  have "distinct (map art_id (articles (ex_wiki ''x'')))" by code_simp
  from cleanup_removes_exactly_orphans [OF this, of "''u1''"] show ?thesis
    by (cases "cleanup_orphaned_concept_pages ''u1'' (ex_wiki ''x'')")
      (auto simp: ex_wiki_def orphan_def new_article_def)
qed

lemma sweep_wikilinks_noop_witness:
  "\<exists>j. sweep_wikilinks ''j'' 0 0 0 ''u1'' (empty_db\<lparr>articles := [new_article ''a1'' ''u1'' ''n'' ''N'' ''a1.md'' 1]\<rparr>)
      = empty_db\<lparr>articles := [new_article ''a1'' ''u1'' ''n'' ''N'' ''a1.md'' 1], jobs := [j]\<rparr> \<and> job_status j = COMPLETE"
proof -
  let ?d = "empty_db\<lparr>articles := [new_article ''a1'' ''u1'' ''n'' ''N'' ''a1.md'' 1]\<rparr>"
  have "distinct (map art_id (articles ?d))" and "no_brackets ?d ''u1''"
    by (simp_all add: no_brackets_def orphan_def new_article_def empty_db_def)
  from sweep_wikilinks_noop [OF this, of "''j''" 0 0 0] show ?thesis
    by (auto simp: empty_db_def)
qed

text \<open>
  Where one pass is not enough, and where no pass helps. Candidates are grouped by target, and only the first
  spelling of a target is promoted: with two spellings of one title the second bracket survives
  the sweep although it matches, and a second sweep changes the file again. A bracket padded with
  blanks resolves (the resolver strips it) but is never promoted, since the replacement looks the
  unstripped text up.
\<close>

lemma sweep_one_pass_limits:
  "wiki_files (sweep_once (ex_wiki ''[[Deep Learning]] [[deep-learning]]'')) (''u1'', ''a1.md'')
     = Some ''[Deep Learning](/wiki/a2) [[deep-learning]]'' \<and>
   wiki_files (sweep_once (sweep_once (ex_wiki ''[[Deep Learning]] [[deep-learning]]''))) (''u1'', ''a1.md'')
     = Some ''[Deep Learning](/wiki/a2) [deep-learning](/wiki/a2)'' \<and>
   fst (resolve_backlink_candidates (findall ''[[ Deep Learning ]]'') (ex_wiki ''[[ Deep Learning ]]'') ''u1'' (Some ''a1'') Map.empty) \<noteq> [] \<and>
   snd (sweep_single_article ''a1'' (ex_wiki ''[[ Deep Learning ]]'')) = False"
  by (intro conjI; code_simp)

end
