(* ===== verification/Slug.thy ===== *)
theory Slug
  imports Domain PyStr
begin

text \<open>
  \<^verbatim>\<open>src/src/wikimind/slug.py\<close>: unique slugs per user. \<open>slugify\<close> belongs to the python-slugify package
  and is a parameter (title and maximal length to slug); nothing is assumed about it.
  \<open>max_attempts\<close> is the resolved limit (the argument or \<open>settings.compiler.slug_max_attempts\<close>).
  The message of the exception shows the title without the quotes of \<open>repr\<close>.
\<close>

definition slug_taken :: "db \<Rightarrow> string \<Rightarrow> string \<Rightarrow> bool" where
  "slug_taken d user_id candidate \<longleftrightarrow>
     first_of (select (\<lambda>a. art_slug a = candidate \<and> art_user_id a = user_id) (articles d)) \<noteq> None"

text \<open>The loop: attempts left, the current candidate and the next suffix.\<close>

fun slug_loop :: "(string \<Rightarrow> bool) \<Rightarrow> string \<Rightarrow> nat \<Rightarrow> string \<Rightarrow> nat \<Rightarrow> string option" where
  "slug_loop taken base 0 candidate suffix = None"
| "slug_loop taken base (Suc n) candidate suffix =
     (if \<not> taken candidate then Some candidate
      else slug_loop taken base n (base @ ''-'' @ show_nat suffix) (suffix + 1))"

definition generate_unique_slug ::
  "(string \<Rightarrow> nat \<Rightarrow> string) \<Rightarrow> string \<Rightarrow> db \<Rightarrow> string \<Rightarrow> string \<Rightarrow> nat \<Rightarrow> nat \<Rightarrow> string result" where
  "generate_unique_slug slugify title d user_id prefix max_length max_attempts =
     (let base = prefix @ slugify title max_length in
      case slug_loop (slug_taken d user_id) base max_attempts base 2 of
        Some s \<Rightarrow> ok s
      | None \<Rightarrow> raise (ValueError (''Could not generate unique slug for '' @ title @ '' after '' @ show_nat max_attempts @ '' attempts'')))"

section \<open>The candidates\<close>

definition slug_cand :: "string \<Rightarrow> nat \<Rightarrow> string" where
  "slug_cand base i = (if i = 0 then base else base @ ''-'' @ show_nat (i + 1))"

lemma slug_cand_inject: "slug_cand base i = slug_cand base j \<longleftrightarrow> i = j"
  by (auto simp: slug_cand_def)

lemma slug_loop_find:
  assumes "candidate = slug_cand base i" and "suffix = i + 2"
  shows "slug_loop taken base n candidate suffix =
    map_option (slug_cand base) (find (\<lambda>k. \<not> taken (slug_cand base k)) [i..<i + n])"
  using assms
proof (induction n arbitrary: i candidate suffix)
  case (Suc n)
  have "[i..<i + Suc n] = i # [Suc i..<Suc i + n]" by (simp add: upt_rec)
  moreover have "base @ ''-'' @ show_nat suffix = slug_cand base (Suc i)"
    using Suc.prems by (simp add: slug_cand_def)
  ultimately show ?case
    using Suc.IH [of "base @ ''-'' @ show_nat suffix" "Suc i" "suffix + 1"] Suc.prems by simp
qed simp

lemma generate_unique_slug_find:
  "generate_unique_slug slugify title d uid prefix ml n =
     (case find (\<lambda>k. \<not> slug_taken d uid (slug_cand (prefix @ slugify title ml) k)) [0..<n] of
        Some k \<Rightarrow> ok (slug_cand (prefix @ slugify title ml) k)
      | None \<Rightarrow> raise (ValueError (''Could not generate unique slug for '' @ title @ '' after '' @ show_nat n @ '' attempts'')))"
  using slug_loop_find [of "prefix @ slugify title ml" "prefix @ slugify title ml" 0 2 "slug_taken d uid" n]
  by (simp add: generate_unique_slug_def slug_cand_def split: option.splits)

lemma slug_taken_iff: "slug_taken d uid s \<longleftrightarrow> s \<in> art_slug ` {a \<in> set (articles d). art_user_id a = uid}"
  by (auto simp: slug_taken_def select_empty_iff)

section \<open>Properties\<close>

text \<open>
  A generated slug is free for the user, so an article stored under it keeps the unique
  constraint on user and slug; it starts with the prefix and the slugified title, and it is the
  first free name in the sequence base, base-2, base-3, and so on.
\<close>

lemma generate_unique_slug_fresh:
  assumes "generate_unique_slug slugify title d uid prefix ml n = ok s"
    and "distinct (map (\<lambda>a. (art_user_id a, art_slug a)) (articles d))"
    and "art_user_id art = uid" and "art_slug art = s"
  shows "\<not> slug_taken d uid s \<and>
    distinct (map (\<lambda>a. (art_user_id a, art_slug a)) (articles d @ [art])) \<and>
    (\<exists>k < n. s = slug_cand (prefix @ slugify title ml) k \<and>
       (\<forall>j < k. slug_taken d uid (slug_cand (prefix @ slugify title ml) j)))"
proof -
  let ?c = "slug_cand (prefix @ slugify title ml)"
  from assms(1) obtain k where k: "find (\<lambda>k. \<not> slug_taken d uid (?c k)) [0..<n] = Some k" and s: "s = ?c k"
    unfolding generate_unique_slug_find by (auto split: option.splits)
  then obtain i where i: "i < n" "\<not> slug_taken d uid (?c i)" "k = i"
    "\<forall>j < i. slug_taken d uid (?c j)"
    unfolding find_Some_iff by auto
  then have free: "\<not> slug_taken d uid s" using s by simp
  then have "(uid, s) \<notin> (\<lambda>a. (art_user_id a, art_slug a)) ` set (articles d)"
    by (auto simp: slug_taken_iff)
  with assms(2-4) free i s show ?thesis by auto
qed

text \<open>
  Generation succeeds whenever the user owns fewer distinct slugs than attempts are allowed, and
  it fails with a \<open>ValueError\<close> exactly when every candidate of the bounded sequence is taken.
\<close>

lemma generate_unique_slug_succeeds:
  "(card (art_slug ` {a \<in> set (articles d). art_user_id a = uid}) < n \<longrightarrow>
      (\<exists>s. generate_unique_slug slugify title d uid prefix ml n = ok s)) \<and>
   ((\<exists>e. generate_unique_slug slugify title d uid prefix ml n = raise e) \<longleftrightarrow>
      (\<forall>k < n. slug_taken d uid (slug_cand (prefix @ slugify title ml) k)))"
proof -
  let ?c = "slug_cand (prefix @ slugify title ml)"
  let ?S = "art_slug ` {a \<in> set (articles d). art_user_id a = uid}"
  have fail: "(\<exists>e. generate_unique_slug slugify title d uid prefix ml n = raise e) \<longleftrightarrow>
      (\<forall>k < n. slug_taken d uid (?c k))"
  proof (cases "find (\<lambda>k. \<not> slug_taken d uid (?c k)) [0..<n]")
    case None
    then have "\<forall>k < n. slug_taken d uid (?c k)" by (simp add: find_None_all)
    with None show ?thesis unfolding generate_unique_slug_find None option.case by blast
  next
    case (Some k)
    with find_Some_in [OF Some] show ?thesis unfolding generate_unique_slug_find by auto
  qed
  have "\<not> (\<forall>k < n. slug_taken d uid (?c k))" if "card ?S < n"
  proof
    assume "\<forall>k < n. slug_taken d uid (?c k)"
    then have "?c ` {..<n} \<subseteq> ?S" by (auto simp: slug_taken_iff)
    then have "card (?c ` {..<n}) \<le> card ?S" by (intro card_mono) auto
    moreover have "card (?c ` {..<n}) = n"
      by (simp add: card_image inj_on_def slug_cand_inject)
    ultimately show False using that by simp
  qed
  with fail show ?thesis
    by (cases "generate_unique_slug slugify title d uid prefix ml n") auto
qed

section \<open>Witnesses\<close>

definition ex_slug_db :: db where
  "ex_slug_db = empty_db\<lparr>articles := [new_article ''a1'' ''u1'' ''bert'' ''BERT'' ''a.md'' 0,
     new_article ''a2'' ''u1'' ''bert-2'' ''BERT'' ''b.md'' 0, new_article ''a3'' ''u2'' ''bert-3'' ''BERT'' ''c.md'' 0]\<rparr>"

definition ex_slugify :: "string \<Rightarrow> nat \<Rightarrow> string" where
  "ex_slugify t n = take n (py_lower t)"

lemma ex_slug: "generate_unique_slug ex_slugify ''BERT'' ex_slug_db ''u1'' '''' 80 10 = ok ''bert-3''"
  by code_simp

lemma generate_unique_slug_fresh_witness: "\<not> slug_taken ex_slug_db ''u1'' ''bert-3''"
proof -
  have "distinct (map (\<lambda>a. (art_user_id a, art_slug a)) (articles ex_slug_db))"
    by (simp add: ex_slug_db_def new_article_def)
  from generate_unique_slug_fresh [OF ex_slug this,
      where art = "new_article ''a4'' ''u1'' ''bert-3'' ''BERT'' ''d.md'' 0"]
  show ?thesis by (simp add: new_article_def)
qed

lemma generate_unique_slug_succeeds_witness:
  "\<exists>s. generate_unique_slug ex_slugify ''BERT'' ex_slug_db ''u1'' '''' 80 3 = ok s"
proof -
  have "art_slug ` {a \<in> set (articles ex_slug_db). art_user_id a = ''u1''} =
      set (map art_slug (filter (\<lambda>a. art_user_id a = ''u1'') (articles ex_slug_db)))"
    by auto
  also have "\<dots> = {''bert'', ''bert-2''}"
    by (simp add: ex_slug_db_def new_article_def)
  finally have "card (art_slug ` {a \<in> set (articles ex_slug_db). art_user_id a = ''u1''}) < 3"
    by simp
  with generate_unique_slug_succeeds [of ex_slug_db "''u1''" 3] show ?thesis by blast
qed

end
