(* ===== verification/Float64.thy ===== *)
theory Float64
  imports Complex_Main Prelude "HOL-Library.Log_Nat"
begin

text \<open>
  Python's \<open>float\<close>: IEEE binary64 with rounding to nearest, ties to even. A finite float is
  its rational value; every arithmetic operation of the source is the exact operation followed by
  \<open>fl\<close>, which rounds to 53 significant bits. The exponent is unbounded here: overflow to infinity,
  subnormal numbers and NaN are outside the model, and the scores, prices and rates of the program
  are far inside the range where this makes no difference. The locale \<open>rounding\<close> collects what the
  float clients rely on; \<open>fl\<close> is its interpretation.
\<close>

section \<open>What clients rely on\<close>

locale rounding =
  fixes rnd :: "rat \<Rightarrow> rat"
  assumes rnd_mono: "x \<le> y \<Longrightarrow> rnd x \<le> rnd y"
    and rnd_0: "rnd 0 = 0"
    and rnd_1: "rnd 1 = 1"
begin

lemma rnd_nonneg: "0 \<le> x \<Longrightarrow> 0 \<le> rnd x"
  using rnd_mono [of 0 x] rnd_0 by simp

lemma rnd_nonpos: "x \<le> 0 \<Longrightarrow> rnd x \<le> 0"
  using rnd_mono [of x 0] rnd_0 by simp

lemma rnd_le_1: "x \<le> 1 \<Longrightarrow> rnd x \<le> 1"
  using rnd_mono [of x 1] rnd_1 by simp

lemma rnd_ge_1: "1 \<le> x \<Longrightarrow> 1 \<le> rnd x"
  using rnd_mono [of 1 x] rnd_1 by simp

lemma rnd_unit: "0 \<le> x \<Longrightarrow> x \<le> 1 \<Longrightarrow> 0 \<le> rnd x \<and> rnd x \<le> 1"
  by (simp add: rnd_nonneg rnd_le_1)

lemma rnd_add_mono: "a \<le> c \<Longrightarrow> b \<le> e \<Longrightarrow> rnd (a + b) \<le> rnd (c + e)"
  by (rule rnd_mono) simp

lemma rnd_diff_antimono: "b \<le> c \<Longrightarrow> rnd (a - c) \<le> rnd (a - b)"
  by (rule rnd_mono) simp

lemma rnd_mult_mono: "0 \<le> a \<Longrightarrow> b \<le> c \<Longrightarrow> rnd (a * b) \<le> rnd (a * c)"
  by (rule rnd_mono) (rule mult_left_mono)

lemma rnd_mult_mono2: "0 \<le> a \<Longrightarrow> b \<le> c \<Longrightarrow> rnd (b * a) \<le> rnd (c * a)"
  by (rule rnd_mono) (rule mult_right_mono)

lemma rnd_div_mono: "0 < c \<Longrightarrow> a \<le> b \<Longrightarrow> rnd (a / c) \<le> rnd (b / c)"
  by (rule rnd_mono) (simp add: divide_right_mono)

end

section \<open>Rounding to nearest, ties to even\<close>

definition rne :: "rat \<Rightarrow> int" where
  "rne x =
     (let f = \<lfloor>x\<rfloor>; r = x - of_int f in
      if r < 1 / 2 then f else if 1 / 2 < r then f + 1 else if even f then f else f + 1)"

lemma rne_bounds: "\<lfloor>x\<rfloor> \<le> rne x \<and> rne x \<le> \<lfloor>x\<rfloor> + 1"
  by (simp add: rne_def Let_def)

lemma rne_mono: "x \<le> y \<Longrightarrow> rne x \<le> rne y"
proof -
  assume le: "x \<le> y"
  then have "\<lfloor>x\<rfloor> \<le> \<lfloor>y\<rfloor>" by (rule floor_mono)
  then consider "\<lfloor>x\<rfloor> + 1 \<le> \<lfloor>y\<rfloor>" | "\<lfloor>x\<rfloor> = \<lfloor>y\<rfloor>" by linarith
  then show ?thesis
  proof cases
    case 1
    with rne_bounds [of x] rne_bounds [of y] show ?thesis by linarith
  next
    case 2
    with le show ?thesis by (auto simp: rne_def Let_def)
  qed
qed

lemma rne_of_int [simp]: "rne (of_int n) = n"
  by (simp add: rne_def)

text \<open>\<open>expo x\<close> is \<open>\<lfloor>log 2 x\<rfloor>\<close> for \<open>x > 0\<close>, from the bit lengths of numerator and denominator.\<close>

definition expo :: "rat \<Rightarrow> int" where
  "expo x =
     (let (p, q) = quotient_of x; e = bitlen p - bitlen q in if 2 powi e \<le> x then e else e - 1)"

definition fl_pos :: "rat \<Rightarrow> rat" where
  "fl_pos x = (let u = 2 powi (expo x - 52) in of_int (rne (x / u)) * u)"

definition fl :: "rat \<Rightarrow> rat" where
  "fl x = (if x = 0 then 0 else if 0 < x then fl_pos x else - fl_pos (- x))"

lemma powi_strict_mono: "a < b \<Longrightarrow> (2 :: rat) powi a < 2 powi b"
proof -
  assume "a < b"
  then have "(2 :: rat) powi (b - a) = 2 ^ nat (b - a)" and "0 < nat (b - a)"
    by (simp_all add: power_int_def)
  then have "1 < (2 :: rat) powi (b - a)" by simp
  then have "2 powi a * 1 < (2 :: rat) powi a * 2 powi (b - a)"
    by (intro mult_strict_left_mono) simp_all
  then show ?thesis by (simp add: power_int_add [symmetric])
qed

lemma powi_less_iff: "(2 :: rat) powi a < 2 powi b \<longleftrightarrow> a < b"
  by (metis linorder_neq_iff order_less_asym powi_strict_mono)

lemma powi_le_iff: "(2 :: rat) powi a \<le> 2 powi b \<longleftrightarrow> a \<le> b"
  by (metis not_less powi_less_iff)

lemma bitlen_powi:
  assumes "0 < p"
  shows "(2 :: rat) powi (bitlen p - 1) \<le> of_int p" and "of_int p < (2 :: rat) powi (bitlen p)"
proof -
  from bitlen_bounds [OF assms] have lo: "2 ^ nat (bitlen p - 1) \<le> p" and hi: "p < 2 ^ nat (bitlen p)"
    by auto
  have b: "1 \<le> bitlen p" using assms bitlen_eq_zero_iff [of p] bitlen_nonneg [of p] by linarith
  then have "(2 :: rat) powi (bitlen p - 1) = of_int (2 ^ nat (bitlen p - 1))"
    and "(2 :: rat) powi (bitlen p) = of_int (2 ^ nat (bitlen p))"
    by (simp_all add: power_int_def)
  with lo hi show "(2 :: rat) powi (bitlen p - 1) \<le> of_int p" and "of_int p < (2 :: rat) powi (bitlen p)"
    by (simp_all only: of_int_le_iff of_int_less_iff)
qed

lemma expo_bounds:
  assumes "0 < x"
  shows "2 powi expo x \<le> x" and "x < 2 powi (expo x + 1)"
proof -
  obtain p q where pq: "quotient_of x = (p, q)" by fastforce
  have x: "x = of_int p / of_int q" and q: "0 < q"
    using quotient_of_div [OF pq] quotient_of_denom_pos [OF pq] by auto
  have p: "0 < p" using assms x q by (simp add: zero_less_divide_iff)
  let ?e = "bitlen p - bitlen q"
  have "x < 2 powi (bitlen p) / 2 powi (bitlen q - 1)"
    unfolding x using bitlen_powi [OF p] bitlen_powi [OF q] p q by (intro frac_less) auto
  also have "\<dots> = 2 powi (?e + 1)"
    by (simp add: power_int_diff power_int_add)
  finally have hi: "x < 2 powi (?e + 1)" .
  have "2 powi (?e - 1) = 2 powi (bitlen p - 1) / (2 :: rat) powi (bitlen q)"
    by (simp add: power_int_diff power_int_add)
  also have "\<dots> \<le> x"
    unfolding x using bitlen_powi [OF p] bitlen_powi [OF q] p q by (intro frac_le) auto
  finally have lo: "2 powi (?e - 1) \<le> x" .
  show "2 powi expo x \<le> x" and "x < 2 powi (expo x + 1)"
    using hi lo by (auto simp: expo_def pq Let_def)
qed

lemma expo_unique:
  assumes "2 powi e \<le> x" and "x < 2 powi (e + 1)"
  shows "expo x = e"
proof -
  have "0 < (2 :: rat) powi e" by simp
  with assms(1) have "0 < x" by linarith
  from expo_bounds [OF this] assms have "2 powi expo x < (2 :: rat) powi (e + 1)" "2 powi e < (2 :: rat) powi (expo x + 1)"
    by linarith+
  then show ?thesis unfolding powi_less_iff by linarith
qed

lemma expo_mono: "0 < x \<Longrightarrow> x \<le> y \<Longrightarrow> expo x \<le> expo y"
proof -
  assume "0 < x" "x \<le> y"
  with expo_bounds [of x] expo_bounds [of y] have "2 powi expo x < (2 :: rat) powi (expo y + 1)"
    by linarith
  then show ?thesis unfolding powi_less_iff by linarith
qed

lemma powi_scale: "(2 :: rat) powi a / 2 powi (a - 52) = of_int (2 ^ 52)"
  and powi_scale1: "(2 :: rat) powi (a + 1) / 2 powi (a - 52) = of_int (2 ^ 53)"
  by (simp_all add: power_int_diff [symmetric])

text \<open>A rounded number stays in its binade, end points included.\<close>

lemma fl_pos_bounds:
  assumes "0 < x"
  shows "2 powi expo x \<le> fl_pos x" and "fl_pos x \<le> 2 powi (expo x + 1)"
proof -
  let ?u = "(2 :: rat) powi (expo x - 52)"
  have u: "0 < ?u" by simp
  have "2 powi expo x / ?u \<le> x / ?u" and "x / ?u \<le> 2 powi (expo x + 1) / ?u"
    using expo_bounds [OF assms] u by (simp_all only: divide_right_mono less_imp_le)
  then have "rne (of_int (2 ^ 52)) \<le> rne (x / ?u)" and "rne (x / ?u) \<le> rne (of_int (2 ^ 53))"
    unfolding powi_scale powi_scale1 by (simp_all only: rne_mono)
  then have "(of_int (2 ^ 52) :: rat) \<le> of_int (rne (x / ?u))" and "(of_int (rne (x / ?u)) :: rat) \<le> of_int (2 ^ 53)"
    by (simp_all only: rne_of_int of_int_le_iff)
  then have "of_int (2 ^ 52) * ?u \<le> fl_pos x" and "fl_pos x \<le> of_int (2 ^ 53) * ?u"
    using u by (simp_all only: fl_pos_def Let_def mult_right_mono less_imp_le)
  moreover have "of_int (2 ^ 52) * ?u = 2 powi expo x" and "of_int (2 ^ 53) * ?u = 2 powi (expo x + 1)"
    using powi_scale [of "expo x"] powi_scale1 [of "expo x"] u by (simp_all add: field_simps)
  ultimately show "2 powi expo x \<le> fl_pos x" and "fl_pos x \<le> 2 powi (expo x + 1)" by simp_all
qed

lemma fl_pos_positive: "0 < x \<Longrightarrow> 0 < fl_pos x"
  using fl_pos_bounds(1) [of x] zero_less_power_int [of "2 :: rat" "expo x"] by linarith

lemma fl_pos_mono:
  assumes "0 < x" and "x \<le> y"
  shows "fl_pos x \<le> fl_pos y"
proof (cases "expo x = expo y")
  case True
  have "x / 2 powi (expo x - 52) \<le> y / 2 powi (expo x - 52)"
    using assms(2) by (simp add: divide_right_mono)
  from rne_mono [OF this] True show ?thesis
    by (simp add: fl_pos_def Let_def mult_right_mono)
next
  case False
  with expo_mono [OF assms] have "expo x + 1 \<le> expo y" by linarith
  then have "(2 :: rat) powi (expo x + 1) \<le> 2 powi expo y" unfolding powi_le_iff .
  with fl_pos_bounds(2) [OF assms(1)] fl_pos_bounds(1) [of y] assms show ?thesis by linarith
qed

lemma fl_mono: "x \<le> y \<Longrightarrow> fl x \<le> fl y"
proof -
  assume le: "x \<le> y"
  consider "0 < x" | "x \<le> 0" "0 \<le> y" | "y < 0" using le by linarith
  then show ?thesis
  proof cases
    case 1
    with le fl_pos_mono [of x y] show ?thesis by (simp add: fl_def)
  next
    case 2
    then have "fl x \<le> 0" and "0 \<le> fl y"
      using fl_pos_positive [of "- x"] fl_pos_positive [of y] by (auto simp: fl_def)
    then show ?thesis by linarith
  next
    case 3
    with le fl_pos_mono [of "- y" "- x"] show ?thesis by (simp add: fl_def)
  qed
qed

section \<open>Exact values\<close>

lemma fl_pos_exact:
  assumes "x = of_int k * 2 powi j" and "0 < k" and "k \<le> 2 ^ 53"
  shows "fl_pos x = x"
proof -
  have "0 < x" using assms by simp
  have "of_int k * (2 :: rat) powi j \<le> of_int (2 ^ 53) * 2 powi j"
    using assms(3) by (intro mult_right_mono) (simp_all only: of_int_le_iff, simp)
  also have "\<dots> = 2 powi (j + 53)" by (simp add: power_int_add)
  finally have "2 powi expo x \<le> (2 :: rat) powi (j + 53)"
    using expo_bounds(1) [OF \<open>0 < x\<close>] assms(1) by linarith
  then have le: "expo x - 52 \<le> j + 1" unfolding powi_le_iff by linarith
  show ?thesis
  proof (cases "expo x - 52 \<le> j")
    case True
    have "x / 2 powi (expo x - 52) = of_int k * 2 powi (j - (expo x - 52))"
      by (simp add: assms(1) power_int_diff)
    also have "\<dots> = of_int (k * 2 ^ nat (j - (expo x - 52)))"
      using True by (simp add: power_int_def)
    finally have q: "x / 2 powi (expo x - 52) = of_int (k * 2 ^ nat (j - (expo x - 52)))" .
    have "fl_pos x = x / 2 powi (expo x - 52) * 2 powi (expo x - 52)"
      unfolding fl_pos_def Let_def q rne_of_int ..
    then show ?thesis by simp
  next
    case False
    with le have e: "expo x = j + 53" by linarith
    with expo_bounds(1) [OF \<open>0 < x\<close>] assms(1)
    have "of_int (2 ^ 53) * (2 :: rat) powi j \<le> of_int k * 2 powi j"
      by (simp add: power_int_add)
    then have "(of_int (2 ^ 53) :: rat) \<le> of_int k"
      by (rule mult_right_le_imp_le) simp
    then have k: "k = 2 ^ 53" using assms(3) by (simp only: of_int_le_iff)
    have "x = 2 powi expo x" unfolding e unfolding assms(1) k by (simp add: power_int_add)
    then have "x / 2 powi (expo x - 52) = of_int (2 ^ 52)"
      using powi_scale [of "expo x"] by simp
    then have "fl_pos x = of_int (2 ^ 52) * 2 powi (expo x - 52)"
      by (simp only: fl_pos_def Let_def rne_of_int)
    also have "expo x - 52 = j + 1" using e by simp
    also have "of_int (2 ^ 52) * (2 :: rat) powi (j + 1) = x"
      unfolding assms(1) k by (simp add: power_int_add)
    finally show ?thesis .
  qed
qed

lemma fl_exact:
  assumes "x = of_int k * 2 powi j" and "\<bar>k\<bar> \<le> 2 ^ 53"
  shows "fl x = x"
proof -
  consider "k = 0" | "0 < k" | "k < 0" by linarith
  then show ?thesis
  proof cases
    case 1
    with assms show ?thesis by (simp add: fl_def)
  next
    case 2
    with assms fl_pos_exact [of x k j] show ?thesis by (simp add: fl_def)
  next
    case 3
    then have "x < 0" using assms(1) by (simp add: mult_less_0_iff)
    moreover have "fl_pos (- x) = - x"
      using 3 assms by (intro fl_pos_exact [of _ "- k" j]) simp_all
    ultimately show ?thesis by (simp add: fl_def)
  qed
qed

lemma fl_of_int: "\<bar>n\<bar> \<le> 2 ^ 53 \<Longrightarrow> fl (of_int n) = of_int n"
  using fl_exact [of "of_int n" n 0] by simp

lemma fl_0 [simp, fl_simps]: "fl 0 = 0"
  by (simp add: fl_def)

lemma fl_1 [simp, fl_simps]: "fl 1 = 1"
  using fl_of_int [of 1] by simp

lemma fl_half [simp, fl_simps]: "fl (1 / 2) = 1 / 2"
  by (rule fl_exact [of _ 1 "- 1"]) (simp_all add: power_int_minus)

interpretation f64: rounding fl
  by unfold_locales (simp_all add: fl_mono)

text \<open>A float is a fixed point of rounding.\<close>

definition is_float :: "rat \<Rightarrow> bool" where
  "is_float x \<longleftrightarrow> fl x = x"

lemma fl_pos_form:
  assumes "0 < x"
  shows "\<exists>k j. fl_pos x = of_int k * 2 powi j \<and> 0 < k \<and> k \<le> 2 ^ 53"
proof (intro exI conjI)
  let ?u = "(2 :: rat) powi (expo x - 52)" and ?k = "rne (x / 2 powi (expo x - 52))"
  show f: "fl_pos x = of_int ?k * ?u" by (simp add: fl_pos_def Let_def)
  have "0 < of_int ?k * ?u" and "of_int ?k * ?u \<le> 2 powi (expo x + 1)"
    using fl_pos_positive [OF assms] fl_pos_bounds(2) [OF assms] f by simp_all
  moreover have "(2 :: rat) powi (expo x + 1) = of_int (2 ^ 53) * ?u"
    using powi_scale1 [of "expo x"] by (simp add: field_simps)
  ultimately show "0 < ?k" and "?k \<le> 2 ^ 53"
    by (simp_all only: zero_less_mult_iff mult_le_cancel_right of_int_le_iff of_int_0_less_iff) auto
qed

lemma fl_idem [simp]: "fl (fl x) = fl x"
proof -
  consider "x = 0" | "0 < x" | "x < 0" by linarith
  then show ?thesis
  proof cases
    case 2
    then obtain k j where f: "fl_pos x = of_int k * 2 powi j" "0 < k" "k \<le> 2 ^ 53"
      using fl_pos_form by blast
    with fl_exact [OF f(1)] 2 show ?thesis by (simp add: fl_def)
  next
    case 3
    then obtain k j where f: "fl_pos (- x) = of_int k * 2 powi j" "0 < k" "k \<le> 2 ^ 53"
      using fl_pos_form [of "- x"] by auto
    then have "- fl_pos (- x) = of_int (- k) * 2 powi j" by simp
    from fl_exact [OF this] f 3 show ?thesis by (simp add: fl_def)
  qed simp
qed

lemma is_float_fl [simp]: "is_float (fl x)"
  by (simp add: is_float_def)

lemma is_float_01 [simp]: "is_float 0" "is_float 1" "is_float (1 / 2)"
  by (simp_all add: is_float_def)

section \<open>Evaluation\<close>

text \<open>
  Equations to evaluate roundings with: on integers, with the bits of numerals, and a greatest common divisor that
  strips factors of two where one number is a power of two, as the denominators of floats are.
\<close>

fun is_pow2 :: "num \<Rightarrow> bool" where
  "is_pow2 num.One = True"
| "is_pow2 (num.Bit0 n) = is_pow2 n"
| "is_pow2 (num.Bit1 n) = False"

fun gcd2 :: "num \<Rightarrow> num \<Rightarrow> num" where
  "gcd2 (num.Bit0 m) (num.Bit0 n) = num.Bit0 (gcd2 m n)"
| "gcd2 m n = num.One"

lemma is_pow2_power: "is_pow2 n \<Longrightarrow> \<exists>j. (numeral n :: int) = 2 ^ j"
proof (induction n)
  case One
  have "(numeral num.One :: int) = 2 ^ 0" by simp
  then show ?case ..
next
  case (Bit0 n)
  then obtain j where "(numeral n :: int) = 2 ^ j" by auto
  have "(2 ^ j :: int) + 2 ^ j = 2 ^ Suc j" by simp
  with \<open>numeral n = 2 ^ j\<close> have "(numeral n :: int) + numeral n = 2 ^ Suc j" by (simp only:)
  then have "(numeral (num.Bit0 n) :: int) = 2 ^ Suc j" unfolding numeral_Bit0 .
  then show ?case ..
qed simp

lemma pow2_odd:
  assumes "is_pow2 n" and "odd (k :: int)"
  shows "gcd k (numeral n) = 1"
proof -
  obtain j where j: "(numeral n :: int) = 2 ^ j" using is_pow2_power [OF assms(1)] by blast
  have "coprime k (2 ^ j)" using assms(2) by simp
  then show ?thesis unfolding j by (simp only: coprime_iff_gcd_eq_1)
qed

lemma gcd2_gcd: "is_pow2 n \<Longrightarrow> gcd (numeral m) (numeral n :: int) = numeral (gcd2 m n)"
proof (induction m n rule: gcd2.induct)
  case (1 m n)
  have "gcd (numeral (num.Bit0 m)) (numeral (num.Bit0 n) :: int) = gcd (2 * numeral m) (2 * numeral n)"
    unfolding numeral_Bit0 by (simp flip: mult_2)
  also have "\<dots> = 2 * gcd (numeral m) (numeral n)" using gcd_mult_distrib_int [of 2 "numeral m" "numeral n"] by simp
  also have "\<dots> = numeral (gcd2 (num.Bit0 m) (num.Bit0 n))" using 1 by simp
  finally show ?case .
qed (simp_all add: pow2_odd)

lemma gcd_pos_code [code]:
  "gcd (Int.Pos m) (Int.Pos n) =
     (if is_pow2 n then Int.Pos (gcd2 m n) else if is_pow2 m then Int.Pos (gcd2 n m)
      else gcd (Int.Pos n) (Int.Pos m mod Int.Pos n))"
  using gcd2_gcd [of n m] gcd2_gcd [of m n] gcd_red_int [of "numeral m" "numeral n"] gcd.commute [of "numeral m" "numeral n :: int"]
  by (cases "is_pow2 n"; cases "is_pow2 m") (simp_all only: if_True if_False Int.Pos_def simp_thms)

lemma gcd_code_rest [code]:
  "gcd (0 :: int) k = \<bar>k\<bar>" "gcd k (0 :: int) = \<bar>k\<bar>"
  "gcd (Int.Neg m) k = gcd (Int.Pos m) k" "gcd k (Int.Neg m) = gcd k (Int.Pos m)"
  by simp_all

fun num_len :: "num \<Rightarrow> int" where
  "num_len num.One = 1"
| "num_len (num.Bit0 n) = num_len n + 1"
| "num_len (num.Bit1 n) = num_len n + 1"

fun num_pow2 :: "num \<Rightarrow> num" where
  "num_pow2 num.One = num.Bit0 num.One"
| "num_pow2 (num.Bit0 n) = Num.sqr (num_pow2 n)"
| "num_pow2 (num.Bit1 n) = num.Bit0 (Num.sqr (num_pow2 n))"

text \<open>The number of bits, a power of two, and the rounding of a quotient of integers.\<close>

definition ilen :: "int \<Rightarrow> int" where
  "ilen n = bitlen n"
definition ipow2 :: "int \<Rightarrow> int" where
  "ipow2 e = 2 ^ nat e"

definition irne :: "int \<Rightarrow> int \<Rightarrow> int" where
  "irne p q = (let f = p div q; r = 2 * (p - q * f) in if r < q then f else if q < r then f + 1 else if even f then f else f + 1)"

definition iexpo :: "int \<Rightarrow> int \<Rightarrow> int" where
  "iexpo p q =
     (let e = ilen p - ilen q in if (if 0 \<le> e then ipow2 e * q \<le> p else q \<le> p * ipow2 (- e)) then e else e - 1)"

definition ifl :: "int \<Rightarrow> int \<Rightarrow> rat" where
  "ifl p q =
     (let k = iexpo p q - 52
      in if 0 \<le> k then of_int (irne p (q * ipow2 k) * ipow2 k) else Fract (irne (p * ipow2 (- k)) q) (ipow2 (- k)))"

lemma num_len: "bitlen (numeral n) = num_len n"
  by (induction n) (subst compute_bitlen, simp)+

lemma num_pow2: "(numeral (num_pow2 n) :: int) = 2 ^ numeral n"
proof -
  have twice: "k * num.Bit0 num.One = num.Bit0 k" for k by (simp add: num_eq_iff nat_of_num_mult)
  have "num_pow2 n = Num.pow (num.Bit0 num.One) n" by (induction n) (simp_all add: twice)
  then show ?thesis by (simp only: power_numeral)
qed

lemma ilen_code [code]: "ilen (Int.Pos n) = num_len n" "ilen 0 = 0" "ilen (Int.Neg n) = 0"
  by (simp_all add: ilen_def num_len) (simp_all add: compute_bitlen)

lemma ipow2_code [code]: "ipow2 (Int.Pos n) = Int.Pos (num_pow2 n)" "ipow2 0 = 1" "ipow2 (Int.Neg n) = 1"
  by (simp_all add: ipow2_def num_pow2)

lemma irne_rne:
  assumes "0 < q"
  shows "irne p q = rne (of_int p / of_int q)"
proof -
  have f: "\<lfloor>of_int p / (of_int q :: rat)\<rfloor> = p div q" by (rule floor_divide_of_int_eq)
  have r: "of_int p / of_int q - of_int (p div q) = of_int (p - q * (p div q)) / (of_int q :: rat)"
    using assms by (simp add: diff_divide_distrib)
  have half: "of_int k / of_int q < (1 / 2 :: rat) \<longleftrightarrow> 2 * k < q" "(1 / 2 :: rat) < of_int k / of_int q \<longleftrightarrow> q < 2 * k" for k
  proof -
    have "of_int k / of_int q < (1 / 2 :: rat) \<longleftrightarrow> of_int (2 * k) < (of_int q :: rat)"
      "(1 / 2 :: rat) < of_int k / of_int q \<longleftrightarrow> of_int q < (of_int (2 * k) :: rat)"
      using assms by (simp_all add: divide_less_eq less_divide_eq mult.commute)
    then show "of_int k / of_int q < (1 / 2 :: rat) \<longleftrightarrow> 2 * k < q" "(1 / 2 :: rat) < of_int k / of_int q \<longleftrightarrow> q < 2 * k"
      by (simp_all only: of_int_less_iff)
  qed
  show ?thesis unfolding rne_def irne_def Let_def f r half by (rule refl)
qed

lemma ipow2_powi: "0 \<le> e \<Longrightarrow> (of_int (ipow2 e) :: rat) = 2 powi e"
  by (simp add: ipow2_def power_int_def)

lemma ipow2_neg: "e < 0 \<Longrightarrow> (2 :: rat) powi e = 1 / of_int (ipow2 (- e))"
  using ipow2_powi [of "- e"] by (simp add: power_int_minus inverse_eq_divide)

lemma ifl_fl:
  assumes "quotient_of x = (p, q)" and "0 < x"
  shows "ifl p q = fl_pos x"
proof -
  have x: "x = of_int p / of_int q" and q: "0 < q"
    using quotient_of_div [OF assms(1)] quotient_of_denom_pos [OF assms(1)] by auto
  let ?e = "ilen p - ilen q" and ?k = "expo x - 52"
  have ge: "(if 0 \<le> ?e then ipow2 ?e * q \<le> p else q \<le> p * ipow2 (- ?e)) \<longleftrightarrow> 2 powi ?e \<le> x"
  proof (cases "0 \<le> ?e")
    case True
    have "2 powi ?e \<le> x \<longleftrightarrow> of_int (ipow2 ?e * q) \<le> (of_int p :: rat)"
      unfolding x using q ipow2_powi [OF True] by (simp add: le_divide_eq)
    with True show ?thesis by (simp only: of_int_le_iff if_True)
  next
    case False
    then have "(2 :: rat) powi ?e = 1 / of_int (ipow2 (- ?e))" by (intro ipow2_neg) simp
    moreover have "0 < (of_int (ipow2 (- ?e)) :: rat)" "0 < (of_int q :: rat)" using q by (simp_all add: ipow2_def)
    then have "1 / of_int (ipow2 (- ?e)) \<le> of_int p / (of_int q :: rat) \<longleftrightarrow> of_int q \<le> (of_int (p * ipow2 (- ?e)) :: rat)"
      by (simp add: field_simps)
    ultimately have "2 powi ?e \<le> x \<longleftrightarrow> of_int q \<le> (of_int (p * ipow2 (- ?e)) :: rat)" unfolding x by simp
    with False show ?thesis by (simp only: of_int_le_iff if_False)
  qed
  have e: "iexpo p q = expo x"
    unfolding iexpo_def Let_def ge by (simp add: expo_def assms(1) ilen_def)
  show ?thesis
  proof (cases "0 \<le> ?k")
    case True
    have "irne p (q * ipow2 ?k) = rne (x / 2 powi ?k)"
      using irne_rne [of "q * ipow2 ?k" p] q ipow2_powi [OF True] by (simp add: x ipow2_def)
    with True ipow2_powi [OF True] show ?thesis by (simp add: ifl_def Let_def e fl_pos_def)
  next
    case False
    then have u: "(2 :: rat) powi ?k = 1 / of_int (ipow2 (- ?k))" by (intro ipow2_neg) simp
    have "irne (p * ipow2 (- ?k)) q = rne (x / 2 powi ?k)"
      using irne_rne [OF q, of "p * ipow2 (- ?k)"] unfolding u by (simp add: x)
    moreover have "0 < ipow2 (- ?k)" by (simp add: ipow2_def)
    ultimately show ?thesis using False by (simp add: ifl_def Let_def e fl_pos_def u Fract_of_int_quotient)
  qed
qed

lemma fl_code [code]: "fl x = (case quotient_of x of (p, q) \<Rightarrow> if p = 0 then 0 else if 0 < p then ifl p q else - ifl (- p) q)"
proof -
  obtain p q where pq: "quotient_of x = (p, q)" by (rule prod.exhaust)
  have x: "x = of_int p / of_int q" and q: "0 < q"
    using quotient_of_div [OF pq] quotient_of_denom_pos [OF pq] by auto
  have neg: "quotient_of (- x) = (- p, q)" using pq by (simp add: rat_uminus_code)
  have sign: "x = 0 \<longleftrightarrow> p = 0" "0 < x \<longleftrightarrow> 0 < p" unfolding x using q by (simp_all add: zero_less_divide_iff)
  consider "p = 0" | "0 < p" | "p < 0" by linarith
  then show ?thesis
  proof cases
    case 3
    then have "0 < - x" using sign by linarith
    from ifl_fl [OF neg this] 3 show ?thesis by (simp add: fl_def pq sign)
  qed (use ifl_fl [OF pq] in \<open>simp_all add: fl_def pq sign\<close>)
qed

end
