(* ===== verification/Confidence.thy ===== *)
theory Confidence
  imports Float64 PyStr
begin

text \<open>
  \<^verbatim>\<open>src/src/wikimind/engine/confidence.py\<close>: confidence and staleness scores, operation by operation in
  binary64. A decimal literal of the source is \<open>fl\<close> of its decimal value, \<open>a / b\<close> on integers is the
  correctly rounded quotient, and an integer operand of a float operation is converted first.
  \<open>sum\<close> on floats is CPython's compensated summation (the repository pins Python 3.12).
\<close>

section \<open>Constants\<close>

definition SOURCE_COUNT_WEIGHT :: rat where "SOURCE_COUNT_WEIGHT = fl (40 / 100)"
definition RECENCY_WEIGHT :: rat where "RECENCY_WEIGHT = fl (30 / 100)"
definition SOURCE_QUALITY_WEIGHT :: rat where "SOURCE_QUALITY_WEIGHT = fl (20 / 100)"
definition CONTRADICTION_WEIGHT :: rat where "CONTRADICTION_WEIGHT = fl (10 / 100)"
definition SOURCE_COUNT_SATURATION :: int where "SOURCE_COUNT_SATURATION = 4"
definition RECENCY_HORIZON_DAYS :: int where "RECENCY_HORIZON_DAYS = 365"
definition SOURCE_QUALITY_BASELINE :: rat where "SOURCE_QUALITY_BASELINE = fl (7 / 10)"
definition CONTRADICTION_PENALTY_PER_HIT :: rat where "CONTRADICTION_PENALTY_PER_HIT = fl (25 / 100)"
definition DECAY_FLOOR :: rat where "DECAY_FLOOR = fl (5 / 10)"
definition DECAY_HORIZON_DAYS :: int where "DECAY_HORIZON_DAYS = 365"
definition DECAY_MAX_REDUCTION :: rat where "DECAY_MAX_REDUCTION = fl (3 / 10)"
definition CLAIM_DEFAULT_BASELINE :: rat where "CLAIM_DEFAULT_BASELINE = fl (3 / 10)"
definition CLAIM_SOURCE_BONUS_WEIGHT :: rat where "CLAIM_SOURCE_BONUS_WEIGHT = fl (2 / 10)"

definition CLAIM_CONFIDENCE_BASELINES :: "string \<rightharpoonup> rat" where
  "CLAIM_CONFIDENCE_BASELINES =
     [''sourced'' \<mapsto> fl (8 / 10), ''mixed'' \<mapsto> fl (5 / 10), ''inferred'' \<mapsto> fl (3 / 10), ''opinion'' \<mapsto> fl (2 / 10)]"

section \<open>Operations\<close>

definition clamp01 :: "rat \<Rightarrow> rat" where
  "clamp01 v = (if v < 0 then 0 else if v > 1 then 1 else v)"

definition compute_confidence :: "int \<Rightarrow> int \<Rightarrow> int \<Rightarrow> rat" where
  "compute_confidence source_count newest_source_age_days contradiction_count =
     (let source_component = min 1 (fl (of_int (max 0 source_count) / of_int SOURCE_COUNT_SATURATION));
          recency_component = max 0 (fl (1 - fl (of_int (max 0 newest_source_age_days) / of_int RECENCY_HORIZON_DAYS)));
          quality_component = SOURCE_QUALITY_BASELINE;
          contradiction_component =
            max 0 (fl (1 - fl (CONTRADICTION_PENALTY_PER_HIT * fl (of_int (max 0 contradiction_count)))));
          score = fl (fl (fl (fl (SOURCE_COUNT_WEIGHT * source_component)
                            + fl (RECENCY_WEIGHT * recency_component))
                        + fl (SOURCE_QUALITY_WEIGHT * quality_component))
                    + fl (CONTRADICTION_WEIGHT * contradiction_component))
      in clamp01 score)"

definition compute_staleness :: "rat \<Rightarrow> rat \<Rightarrow> rat" where
  "compute_staleness days_since_reinforced decay_rate =
     (let days = max 0 days_since_reinforced in clamp01 (fl (days * decay_rate)))"

definition decay_multiplier :: "int \<Rightarrow> rat" where
  "decay_multiplier days_since_reinforced =
     (let days = max 0 days_since_reinforced in
      max DECAY_FLOOR (fl (1 - fl (fl (of_int days / of_int DECAY_HORIZON_DAYS) * DECAY_MAX_REDUCTION))))"

definition apply_decay :: "rat \<Rightarrow> int \<Rightarrow> rat" where
  "apply_decay base days_since_reinforced = clamp01 (fl (base * decay_multiplier days_since_reinforced))"

definition compute_claim_confidence :: "string \<Rightarrow> int \<Rightarrow> rat" where
  "compute_claim_confidence level source_count =
     (let baseline = (case CLAIM_CONFIDENCE_BASELINES (py_lower level) of
                        None \<Rightarrow> CLAIM_DEFAULT_BASELINE | Some b \<Rightarrow> b);
          source_bonus = min 1 (fl (of_int (max 0 source_count) / of_int SOURCE_COUNT_SATURATION))
      in clamp01 (fl (baseline + fl (CLAIM_SOURCE_BONUS_WEIGHT * source_bonus))))"

text \<open>The running sum and its compensation, as the interpreter keeps them.\<close>

fun cs_add :: "rat \<times> rat \<Rightarrow> rat \<Rightarrow> rat \<times> rat" where
  "cs_add (hi, lo) x =
     (let t = fl (hi + x) in
      if \<bar>hi\<bar> \<ge> \<bar>x\<bar> then (t, fl (lo + fl (fl (hi - t) + x)))
      else (t, fl (lo + fl (fl (x - t) + hi))))"

definition py_sum :: "rat list \<Rightarrow> rat" where
  "py_sum xs = (let (hi, lo) = foldl cs_add (0, 0) xs in fl (hi + lo))"

definition aggregate_claim_confidence :: "rat list \<Rightarrow> rat" where
  "aggregate_claim_confidence claim_scores =
     (if claim_scores = [] then 1 / 2
      else clamp01 (fl (py_sum claim_scores / of_int (int (length claim_scores)))))"

section \<open>Clamping and rounding\<close>

lemma clamp01_bounds: "0 \<le> clamp01 v" "clamp01 v \<le> 1"
  by (simp_all add: clamp01_def)

lemma clamp01_mono: "v \<le> w \<Longrightarrow> clamp01 v \<le> clamp01 w"
  by (simp add: clamp01_def)

lemma clamp01_id: "0 \<le> v \<Longrightarrow> v \<le> 1 \<Longrightarrow> clamp01 v = v"
  by (simp add: clamp01_def)

lemmas score_mono = clamp01_mono fl_mono add_mono mult_left_mono f64.rnd_nonneg

lemma weights_nonneg:
  "0 \<le> SOURCE_COUNT_WEIGHT" "0 \<le> RECENCY_WEIGHT" "0 \<le> SOURCE_QUALITY_WEIGHT" "0 \<le> CONTRADICTION_WEIGHT"
  "0 \<le> SOURCE_QUALITY_BASELINE" "0 \<le> CONTRADICTION_PENALTY_PER_HIT" "0 \<le> DECAY_MAX_REDUCTION"
  "0 \<le> CLAIM_SOURCE_BONUS_WEIGHT" "0 \<le> CLAIM_DEFAULT_BASELINE"
  by (simp_all add: SOURCE_COUNT_WEIGHT_def RECENCY_WEIGHT_def SOURCE_QUALITY_WEIGHT_def
      CONTRADICTION_WEIGHT_def SOURCE_QUALITY_BASELINE_def CONTRADICTION_PENALTY_PER_HIT_def
      DECAY_MAX_REDUCTION_def CLAIM_SOURCE_BONUS_WEIGHT_def CLAIM_DEFAULT_BASELINE_def f64.rnd_nonneg)

text \<open>The three varying components, named so that their monotonicity is stated once.\<close>

definition saturating :: "int \<Rightarrow> rat" where
  "saturating n = min 1 (fl (of_int (max 0 n) / of_int SOURCE_COUNT_SATURATION))"

definition recency :: "int \<Rightarrow> rat" where
  "recency n = max 0 (fl (1 - fl (of_int (max 0 n) / of_int RECENCY_HORIZON_DAYS)))"

definition agreement :: "int \<Rightarrow> rat" where
  "agreement n = max 0 (fl (1 - fl (CONTRADICTION_PENALTY_PER_HIT * fl (of_int (max 0 n)))))"

lemma saturating_mono: "m \<le> n \<Longrightarrow> saturating m \<le> saturating n"
  unfolding saturating_def SOURCE_COUNT_SATURATION_def
  by (intro min.mono fl_mono divide_right_mono order_refl) auto

lemma recency_antimono: "m \<le> n \<Longrightarrow> recency n \<le> recency m"
  unfolding recency_def RECENCY_HORIZON_DAYS_def
  by (intro max.mono fl_mono diff_left_mono divide_right_mono order_refl) auto

lemma agreement_antimono: "m \<le> n \<Longrightarrow> agreement n \<le> agreement m"
  unfolding agreement_def
  by (intro max.mono fl_mono diff_left_mono mult_left_mono order_refl weights_nonneg) auto

lemma components_nonneg: "0 \<le> saturating n" "0 \<le> recency n" "0 \<le> agreement n"
  by (simp_all add: saturating_def recency_def agreement_def SOURCE_COUNT_SATURATION_def f64.rnd_nonneg)

lemma compute_confidence_components:
  "compute_confidence s a c =
     clamp01 (fl (fl (fl (fl (SOURCE_COUNT_WEIGHT * saturating s) + fl (RECENCY_WEIGHT * recency a))
               + fl (SOURCE_QUALITY_WEIGHT * SOURCE_QUALITY_BASELINE))
             + fl (CONTRADICTION_WEIGHT * agreement c)))"
  by (simp add: compute_confidence_def saturating_def recency_def agreement_def Let_def)

lemma compute_confidence_mono:
  assumes "s \<le> s'" "a' \<le> a" "c' \<le> c"
  shows "compute_confidence s a c \<le> compute_confidence s' a' c'"
  unfolding compute_confidence_components
  by (intro score_mono saturating_mono recency_antimono agreement_antimono weights_nonneg order_refl assms)

lemma saturating_full: "4 \<le> n \<Longrightarrow> saturating n = 1"
  using f64.rnd_ge_1 [of "of_int n / 4"]
  by (simp add: saturating_def SOURCE_COUNT_SATURATION_def min_def)

lemma compute_confidence_saturates:
  "4 \<le> s \<Longrightarrow> 4 \<le> s' \<Longrightarrow> compute_confidence s a c = compute_confidence s' a c"
  by (simp add: compute_confidence_components saturating_full)

section \<open>Properties\<close>

lemma compute_confidence_least: "compute_confidence 0 365 4 \<le> compute_confidence s a c"
proof -
  have "saturating 0 = 0" "recency 365 = 0" "agreement 4 = 0" by code_simp+
  then show ?thesis
    unfolding compute_confidence_components
    by (intro score_mono weights_nonneg order_refl) (simp_all add: components_nonneg)
qed

lemma compute_confidence_greatest: "compute_confidence s a c \<le> compute_confidence 4 0 0"
proof -
  have "saturating s \<le> 1" by (simp add: saturating_def)
  moreover have "saturating 4 = 1" by code_simp
  moreover have "recency a \<le> recency 0"
    using recency_antimono [of 0 "max 0 a"] by (simp add: recency_def)
  moreover have "agreement c \<le> agreement 0"
    using agreement_antimono [of 0 "max 0 c"] by (simp add: agreement_def)
  ultimately show ?thesis
    unfolding compute_confidence_components
    by (intro score_mono weights_nonneg order_refl) simp_all
qed

text \<open>
  The article score: more sources, a more recent source and fewer contradictions never lower
  it, it never leaves the interval from just below 0.14 (the quality baseline alone) to the float
  0.94, and the upper end is reached by an article with four fresh sources and no contradiction.
\<close>

lemma compute_confidence_ordered:
  assumes "s \<le> s'" and "a' \<le> a" and "c' \<le> c"
  shows "139999 / 1000000 < compute_confidence s a c \<and>
    compute_confidence s a c \<le> compute_confidence s' a' c' \<and>
    compute_confidence s' a' c' \<le> fl (94 / 100) \<and>
    compute_confidence 4 0 0 = fl (94 / 100)"
proof -
  have top: "compute_confidence 4 0 0 = fl (94 / 100)" by code_simp
  have "139999 / 1000000 < compute_confidence 0 365 4" by code_simp
  then have "139999 / 1000000 < compute_confidence s a c"
    by (rule less_le_trans) (rule compute_confidence_least)
  with top show ?thesis
    using compute_confidence_mono [OF assms] compute_confidence_greatest [of s' a' c'] by simp
qed

lemma compute_confidence_ordered_witness:
  "compute_confidence 1 30 2 \<le> compute_confidence 3 (-1) 0"
  using compute_confidence_ordered [of 1 3 "-1" 30 0 2] by simp

lemma decay_multiplier_antimono: "m \<le> n \<Longrightarrow> decay_multiplier n \<le> decay_multiplier m"
  unfolding decay_multiplier_def Let_def DECAY_HORIZON_DAYS_def
  by (intro max.mono fl_mono diff_left_mono mult_right_mono divide_right_mono order_refl weights_nonneg) auto

lemma decay_multiplier_bounds: "1 / 2 \<le> decay_multiplier n" "decay_multiplier n \<le> 1"
proof -
  show "1 / 2 \<le> decay_multiplier n"
    by (simp add: decay_multiplier_def DECAY_FLOOR_def Let_def)
  have "decay_multiplier 0 = 1" by code_simp
  then show "decay_multiplier n \<le> 1"
    using decay_multiplier_antimono [of 0 "max 0 n"] by (simp add: decay_multiplier_def)
qed

lemma decay_multiplier_fresh: "n \<le> 0 \<Longrightarrow> decay_multiplier n = 1"
proof -
  assume "n \<le> 0"
  then have "decay_multiplier n = decay_multiplier 0" by (simp add: decay_multiplier_def max_def)
  also have "\<dots> = 1" by code_simp
  finally show ?thesis .
qed

text \<open>
  Decay: for a stored score in the unit interval the effective score lies between the rounded
  half and the stored score, does not grow with the days since reinforcement, and equals the
  stored score when no day has passed.
\<close>

lemma apply_decay_bounds:
  assumes "is_float base" and "0 \<le> base" and "base \<le> 1" and "m \<le> n"
  shows "fl (base / 2) \<le> apply_decay base n \<and> apply_decay base n \<le> apply_decay base m \<and>
    apply_decay base m \<le> base \<and> (n \<le> 0 \<longrightarrow> apply_decay base n = base)"
proof -
  have base: "fl base = base" using assms(1) by (simp add: is_float_def)
  have up: "fl (base * decay_multiplier k) \<le> base" for k
    using fl_mono [OF mult_left_mono [OF decay_multiplier_bounds(2) [of k] assms(2)]] base by simp
  have low: "fl (base / 2) \<le> fl (base * decay_multiplier k)" for k
    using fl_mono [OF mult_left_mono [OF decay_multiplier_bounds(1) [of k] assms(2)]] by simp
  have unit: "apply_decay base k = fl (base * decay_multiplier k)" for k
    unfolding apply_decay_def
  proof (rule clamp01_id)
    show "0 \<le> fl (base * decay_multiplier k)"
      using low [of k] f64.rnd_nonneg [of "base / 2"] assms(2) by simp
    show "fl (base * decay_multiplier k) \<le> 1" using up [of k] assms(3) by simp
  qed
  have "fl (base * decay_multiplier n) \<le> fl (base * decay_multiplier m)"
    by (intro fl_mono mult_left_mono decay_multiplier_antimono assms)
  with up low base show ?thesis by (simp add: unit decay_multiplier_fresh)
qed

lemma apply_decay_bounds_witness: "fl (1 / 2) \<le> apply_decay 1 400"
  using apply_decay_bounds [of 1 30 400] by simp

text \<open>
  The decay reaches its floor, a multiplier of one half, exactly from day 609 on (the
  documentation of the function places it around day 1095).
\<close>

lemma decay_floor_day: "decay_multiplier n = 1 / 2 \<longleftrightarrow> 609 \<le> n"
proof
  assume "609 \<le> n"
  moreover have "decay_multiplier 609 = 1 / 2" by code_simp
  ultimately show "decay_multiplier n = 1 / 2"
    using decay_multiplier_antimono [of 609 n] decay_multiplier_bounds(1) [of n] by simp
next
  assume half: "decay_multiplier n = 1 / 2"
  show "609 \<le> n"
  proof (rule ccontr)
    assume "\<not> 609 \<le> n"
    then have "decay_multiplier 608 \<le> decay_multiplier n" by (intro decay_multiplier_antimono) simp
    moreover have "1 / 2 < decay_multiplier 608" by code_simp
    ultimately show False using half by simp
  qed
qed

lemma compute_claim_confidence_saturating:
  "compute_claim_confidence l n =
     clamp01 (fl ((case CLAIM_CONFIDENCE_BASELINES (py_lower l) of None \<Rightarrow> CLAIM_DEFAULT_BASELINE | Some b \<Rightarrow> b)
                  + fl (CLAIM_SOURCE_BONUS_WEIGHT * saturating n)))"
  by (simp add: compute_claim_confidence_def saturating_def Let_def)

lemma compute_claim_confidence_mono: "m \<le> n \<Longrightarrow> compute_claim_confidence l m \<le> compute_claim_confidence l n"
  unfolding compute_claim_confidence_saturating
  by (intro score_mono saturating_mono weights_nonneg order_refl)

lemma claim_labels:
  "CLAIM_CONFIDENCE_BASELINES (py_lower ''opinion'') = Some (fl (2 / 10))"
  "CLAIM_CONFIDENCE_BASELINES (py_lower ''inferred'') = Some (fl (3 / 10))"
  "CLAIM_CONFIDENCE_BASELINES (py_lower ''mixed'') = Some (fl (5 / 10))"
  "CLAIM_CONFIDENCE_BASELINES (py_lower ''sourced'') = Some (fl (8 / 10))"
  by code_simp+

text \<open>
  Claim scores: more sources never lower a score, the labels are ordered
  opinion, inferred, mixed, sourced at every source count, a label outside the four scores as
  \<open>inferred\<close>, and a sourced claim with at least four sources has exactly score 1.
\<close>

lemma compute_claim_confidence_ordered:
  assumes "m \<le> n"
  shows "0 \<le> compute_claim_confidence l m \<and>
    compute_claim_confidence l m \<le> compute_claim_confidence l n \<and>
    compute_claim_confidence l n \<le> 1 \<and>
    compute_claim_confidence ''opinion'' n \<le> compute_claim_confidence ''inferred'' n \<and>
    compute_claim_confidence ''inferred'' n \<le> compute_claim_confidence ''mixed'' n \<and>
    compute_claim_confidence ''mixed'' n \<le> compute_claim_confidence ''sourced'' n \<and>
    (py_lower l \<notin> {''sourced'', ''mixed'', ''inferred'', ''opinion''} \<longrightarrow>
       compute_claim_confidence l n = compute_claim_confidence ''inferred'' n) \<and>
    (4 \<le> n \<longrightarrow> compute_claim_confidence ''sourced'' n = 1)"
proof (intro conjI impI)
  show "0 \<le> compute_claim_confidence l m" "compute_claim_confidence l n \<le> 1"
    unfolding compute_claim_confidence_saturating by (rule clamp01_bounds)+
  show "compute_claim_confidence l m \<le> compute_claim_confidence l n"
    by (rule compute_claim_confidence_mono [OF assms])
  show "compute_claim_confidence ''opinion'' n \<le> compute_claim_confidence ''inferred'' n"
    "compute_claim_confidence ''inferred'' n \<le> compute_claim_confidence ''mixed'' n"
    "compute_claim_confidence ''mixed'' n \<le> compute_claim_confidence ''sourced'' n"
    unfolding compute_claim_confidence_saturating claim_labels option.case
    by (intro score_mono order_refl; simp)+
  show "compute_claim_confidence l n = compute_claim_confidence ''inferred'' n"
    if "py_lower l \<notin> {''sourced'', ''mixed'', ''inferred'', ''opinion''}"
  proof -
    from that have "CLAIM_CONFIDENCE_BASELINES (py_lower l) = None"
      by (auto simp: CLAIM_CONFIDENCE_BASELINES_def)
    then show ?thesis
      by (simp add: compute_claim_confidence_saturating claim_labels CLAIM_DEFAULT_BASELINE_def)
  qed
  show "compute_claim_confidence ''sourced'' n = 1" if "4 \<le> n"
  proof -
    have "compute_claim_confidence ''sourced'' n = compute_claim_confidence ''sourced'' 4"
      using that by (simp add: compute_claim_confidence_saturating saturating_full)
    also have "\<dots> = 1" by code_simp
    finally show ?thesis .
  qed
qed

lemma compute_claim_confidence_ordered_witness:
  "compute_claim_confidence ''Rumour'' 2 = compute_claim_confidence ''inferred'' 2 \<and>
   compute_claim_confidence ''sourced'' 7 = 1"
proof -
  have "py_lower ''Rumour'' \<notin> {''sourced'', ''mixed'', ''inferred'', ''opinion''}" by code_simp
  then show ?thesis
    using compute_claim_confidence_ordered [of 1 2 "''Rumour''"] compute_claim_confidence_ordered [of 1 7 "''x''"]
    by simp
qed

lemma compute_staleness_mono: "0 \<le> r \<Longrightarrow> x \<le> y \<Longrightarrow> compute_staleness x r \<le> compute_staleness y r"
  unfolding compute_staleness_def Let_def by (intro clamp01_mono fl_mono mult_right_mono max.mono order_refl)

lemma aggregate_single: "is_float x \<Longrightarrow> 0 \<le> x \<Longrightarrow> x \<le> 1 \<Longrightarrow> aggregate_claim_confidence [x] = x"
  by (simp add: aggregate_claim_confidence_def py_sum_def is_float_def Let_def clamp01_id)

end
