(* ===== verification/Spans.thy ===== *)
theory Spans
  imports Domain PyStr
begin

text \<open>
  \<^verbatim>\<open>src/src/wikimind/ingest/spans.py\<close>: paragraphs of a source as citation anchors, their fingerprints,
  and the re-anchoring of stored spans when a source is ingested again. The digest
  (\<open>hashlib.sha256(\<dots>).hexdigest()\<close> on bytes) is the parameter \<open>sha\<close>; nothing is assumed about it.
  \<open>fresh i\<close> is the \<open>i\<close>-th identifier drawn from \<open>uuid4\<close> and \<open>now\<close> the clock of the column default.
  A locator is the association list of its JSON object.
\<close>

section \<open>Fingerprints and paragraphs\<close>

definition split_ws :: "string \<Rightarrow> string list" where
  "split_ws s = filter (\<lambda>w. w \<noteq> []) (split_runs 1 is_space [] s)"

definition normalize_text :: "string \<Rightarrow> string" where
  "normalize_text text =
     (let lowered = py_lower text;
          no_punct = filter (\<lambda>c. is_word c \<or> is_space c) lowered
      in py_join '' '' (split_ws no_punct))"

definition compute_fingerprint :: "(nat list \<Rightarrow> string) \<Rightarrow> string \<Rightarrow> string" where
  "compute_fingerprint sha text = sha (utf8 (normalize_text text))"

definition split_paragraphs :: "string \<Rightarrow> string list" where
  "split_paragraphs text =
     map py_strip (filter (\<lambda>p. py_strip p \<noteq> []) (split_runs 2 (\<lambda>c. c = CHR 0x0A) [] text))"

section \<open>Extraction\<close>

definition new_span ::
  "(nat list \<Rightarrow> string) \<Rightarrow> string \<Rightarrow> datetime \<Rightarrow> string \<Rightarrow> string \<Rightarrow> locator_kind \<Rightarrow> (string \<times> int) list \<Rightarrow> string \<Rightarrow> source_span" where
  "new_span sha sid now source_id user_id kind locator para =
     \<lparr>sp_id = sid, sp_source_id = source_id, sp_user_id = user_id, sp_locator_kind = kind,
      sp_locator = locator, sp_text = para, sp_fingerprint = compute_fingerprint sha para,
      sp_stale = False, sp_created_at = now\<rparr>"

definition text_span_step ::
  "(nat list \<Rightarrow> string) \<Rightarrow> (nat \<Rightarrow> string) \<Rightarrow> datetime \<Rightarrow> string \<Rightarrow> string \<Rightarrow> nat list \<Rightarrow>
   source_span list \<times> nat \<Rightarrow> string \<Rightarrow> source_span list \<times> nat" where
  "text_span_step sha fresh now source_id user_id text_bytes st para =
     (let (spans, search_start) = st; para_bytes = utf8 para in
      case find_from para_bytes text_bytes search_start of
        None \<Rightarrow> (spans, search_start)
      | Some byte_start \<Rightarrow>
          (let byte_end = byte_start + length para_bytes in
           (spans @ [new_span sha (fresh (length spans)) now source_id user_id TEXT_BYTE_RANGE
                       [(''start'', int byte_start), (''end'', int byte_end)] para], byte_end)))"

definition extract_text_spans ::
  "(nat list \<Rightarrow> string) \<Rightarrow> (nat \<Rightarrow> string) \<Rightarrow> datetime \<Rightarrow> string \<Rightarrow> string \<Rightarrow> string \<Rightarrow> source_span list" where
  "extract_text_spans sha fresh now text source_id user_id =
     fst (foldl (text_span_step sha fresh now source_id user_id (utf8 text)) ([], 0) (split_paragraphs text))"

text \<open>\<open>enumerate\<close>, and the spans of one page of a PDF.\<close>

definition enumerate_list :: "'a list \<Rightarrow> (nat \<times> 'a) list" where
  "enumerate_list xs = zip [0..<length xs] xs"

definition pdf_page_spans ::
  "(nat list \<Rightarrow> string) \<Rightarrow> (nat \<Rightarrow> string) \<Rightarrow> datetime \<Rightarrow> string \<Rightarrow> string \<Rightarrow> source_span list \<Rightarrow> nat \<times> string \<Rightarrow> source_span list" where
  "pdf_page_spans sha fresh now source_id user_id spans page =
     (let (page_num, page_text) = page in
      foldl (\<lambda>acc (para_idx, para).
               acc @ [new_span sha (fresh (length acc)) now source_id user_id PDF_PAGE_RECT
                        [(''page'', int page_num + 1), (''paragraph'', int para_idx)] para])
        spans (enumerate_list (split_paragraphs page_text)))"

definition extract_pdf_spans ::
  "(nat list \<Rightarrow> string) \<Rightarrow> (nat \<Rightarrow> string) \<Rightarrow> datetime \<Rightarrow> string \<Rightarrow> string \<Rightarrow> string \<Rightarrow> string list option \<Rightarrow> source_span list" where
  "extract_pdf_spans sha fresh now text source_id user_id page_texts =
     (case page_texts of
        Some (p # ps) \<Rightarrow> foldl (pdf_page_spans sha fresh now source_id user_id) [] (enumerate_list (p # ps))
      | _ \<Rightarrow> pdf_page_spans sha fresh now source_id user_id [] (0, text))"

definition extract_url_spans ::
  "(nat list \<Rightarrow> string) \<Rightarrow> (nat \<Rightarrow> string) \<Rightarrow> datetime \<Rightarrow> string \<Rightarrow> string \<Rightarrow> string \<Rightarrow> source_span list" where
  "extract_url_spans sha fresh now text source_id user_id =
     foldl (\<lambda>acc (para_idx, para).
              acc @ [new_span sha (fresh (length acc)) now source_id user_id HTML_PARAGRAPH_OFFSET
                       [(''paragraph'', int para_idx), (''offset'', 0), (''length'', int (length para))] para])
       [] (enumerate_list (split_paragraphs text))"

section \<open>Persistence and re-anchoring\<close>

text \<open>
  The state of the re-anchoring loop: the table, the matched old identifiers, the final list.
  A matched old span is the ORM object of its row, so assigning to it updates the row.
\<close>

definition reanchor :: "source_span \<Rightarrow> source_span \<Rightarrow> source_span" where
  "reanchor new_sp old_sp = old_sp\<lparr>sp_locator := sp_locator new_sp, sp_text := sp_text new_sp, sp_stale := False\<rparr>"

definition reanchor_step ::
  "(string \<rightharpoonup> source_span) \<Rightarrow> source_span list \<times> string list \<times> source_span list \<Rightarrow> source_span \<Rightarrow>
   source_span list \<times> string list \<times> source_span list" where
  "reanchor_step old_by_fingerprint st new_sp =
     (let (rows, matched_old_ids, final_spans) = st in
      case old_by_fingerprint (sp_fingerprint new_sp) of
        Some old_sp \<Rightarrow>
          if sp_id old_sp \<notin> set matched_old_ids
          then (update_where (\<lambda>r. sp_id r = sp_id old_sp) (reanchor new_sp) rows,
                sp_id old_sp # matched_old_ids, final_spans @ [reanchor new_sp old_sp])
          else (rows @ [new_sp], matched_old_ids, final_spans @ [new_sp])
      | None \<Rightarrow> (rows @ [new_sp], matched_old_ids, final_spans @ [new_sp]))"

definition mark_stale :: "string list \<Rightarrow> string list \<Rightarrow> source_span list \<Rightarrow> source_span list" where
  "mark_stale old_ids matched_old_ids rows =
     update_where (\<lambda>r. sp_id r \<in> set old_ids \<and> sp_id r \<notin> set matched_old_ids) (\<lambda>r. r\<lparr>sp_stale := True\<rparr>) rows"

definition reanchor_onto :: "source_span list \<Rightarrow> source_span list \<Rightarrow> db \<Rightarrow> db \<times> source_span list" where
  "reanchor_onto old_spans new_spans d =
     (let old_by_fingerprint = index_first (\<lambda>s. Some (sp_fingerprint s)) old_spans;
          (rows, matched_old_ids, final_spans) =
            foldl (reanchor_step old_by_fingerprint) (source_spans d, [], []) new_spans
      in (d\<lparr>source_spans := mark_stale (map sp_id old_spans) matched_old_ids rows\<rparr>, final_spans))"

definition persist_spans :: "source_span list \<Rightarrow> db \<Rightarrow> db" where
  "persist_spans spans d =
     (case spans of
        [] \<Rightarrow> d
      | s # _ \<Rightarrow>
          (let existing_spans = select (\<lambda>r. sp_source_id r = sp_source_id s) (source_spans d) in
           if existing_spans \<noteq> [] then fst (reanchor_onto existing_spans spans d)
           else d\<lparr>source_spans := source_spans d @ spans\<rparr>))"

definition reanchor_spans :: "string \<Rightarrow> source_span list \<Rightarrow> source_span list option \<Rightarrow> db \<Rightarrow> db \<times> source_span list" where
  "reanchor_spans source_id new_spans existing_spans d =
     (let old_spans = (case existing_spans of
            Some xs \<Rightarrow> xs | None \<Rightarrow> select (\<lambda>r. sp_source_id r = source_id) (source_spans d))
      in if old_spans = [] then (persist_spans new_spans d, new_spans)
         else reanchor_onto old_spans new_spans d)"

section \<open>Splitting loses no text\<close>

text \<open>\<open>in_order ps t\<close>: the pieces occur in \<open>t\<close> one after the other, without overlap.\<close>

fun in_order :: "'a list list \<Rightarrow> 'a list \<Rightarrow> bool" where
  "in_order [] t \<longleftrightarrow> True"
| "in_order (p # ps) t \<longleftrightarrow> (\<exists>l r. t = l @ p @ r \<and> in_order ps r)"

lemma in_order_prefix: "in_order ps r \<Longrightarrow> in_order ps (l @ r)"
  by (cases ps) (auto, metis append_assoc)

lemma in_order_ConsI: "in_order ps r \<Longrightarrow> in_order (p # ps) (l @ p @ r)"
  by auto

lemma split_runs_in_order: "in_order (split_runs n p acc xs) (rev acc @ xs)"
proof (induction n p acc xs rule: split_runs.induct)
  case (1 n p acc)
  show ?case by (auto intro: exI [of _ "[]"])
next
  case (2 n p acc x xs)
  let ?run = "x # takeWhile p xs" and ?rest = "dropWhile p xs"
  have xs: "x # xs = ?run @ ?rest" by simp
  consider "\<not> p x" | "p x" "n \<le> length ?run" | "p x" "\<not> n \<le> length ?run" by blast
  then show ?case
  proof cases
    case 1
    with 2 show ?thesis by simp
  next
    case 2
    then have "in_order (split_runs n p [] ?rest) (?run @ ?rest)"
      using "2.IH"(1) by (intro in_order_prefix) (simp add: Let_def)
    then have "in_order (rev acc # split_runs n p [] ?rest) ([] @ rev acc @ ?run @ ?rest)"
      by (rule in_order_ConsI)
    with 2 show ?thesis by (simp add: Let_def del: in_order.simps)
  next
    case 3
    then have "in_order (split_runs n p (rev ?run @ acc) ?rest) (rev (rev ?run @ acc) @ ?rest)"
      by (intro "2.IH"(2)) simp_all
    moreover have "rev (rev ?run @ acc) @ ?rest = rev acc @ x # xs" by simp
    ultimately show ?thesis using 3 by (simp add: Let_def del: in_order.simps)
  qed
qed

lemma in_order_strip: "in_order ps t \<Longrightarrow> in_order (map (strip_by q) (filter f ps)) t"
proof (induction ps arbitrary: t)
  case (Cons p ps)
  then obtain l r where t: "t = l @ p @ r" and r: "in_order (map (strip_by q) (filter f ps)) r" by auto
  obtain a b where p: "p = a @ strip_by q p @ b"
    using strip_by_decomp [of p q] by (elim exE conjE)
  show ?case
  proof (cases "f p")
    case True
    have "t = (l @ a) @ strip_by q p @ (b @ r)" unfolding t by (subst p) simp
    moreover have "in_order (strip_by q p # map (strip_by q) (filter f ps)) ((l @ a) @ strip_by q p @ (b @ r))"
      by (rule in_order_ConsI) (rule in_order_prefix [OF r])
    ultimately show ?thesis using True by (simp only: filter.simps list.map if_True)
  next
    case False
    have "in_order (map (strip_by q) (filter f ps)) ((l @ p) @ r)" by (rule in_order_prefix [OF r])
    with False t show ?thesis by simp
  qed
qed simp

lemma paragraphs_in_order: "in_order (split_paragraphs text) text"
  using in_order_strip [OF split_runs_in_order [of 2 "\<lambda>c. c = CHR 0x0A" "[]" "text"], of is_space]
  by (simp add: split_paragraphs_def py_strip_eq)

lemma split_paragraphs_lossless:
  "concat (map (filter (\<lambda>c. \<not> is_space c)) (split_paragraphs text)) = filter (\<lambda>c. \<not> is_space c) text"
proof -
  let ?q = "\<lambda>c. \<not> is_space c" and ?pieces = "split_runs 2 (\<lambda>c. c = CHR 0x0A) [] text"
  have "concat (map (filter ?q) (map py_strip (filter (\<lambda>p. py_strip p \<noteq> []) ps))) = concat (map (filter ?q) ps)"
    for ps
  proof (induction ps)
    case (Cons p ps)
    have f: "filter ?q (py_strip p) = filter ?q p" by (simp add: py_strip_eq filter_strip_by)
    show ?case
    proof (cases "py_strip p = []")
      case True
      with f have "filter ?q p = []" by simp
      with True Cons show ?thesis by simp
    next
      case False
      with f Cons show ?thesis by simp
    qed
  qed simp
  moreover have "concat (map (filter ?q) ?pieces) = filter ?q (rev [] @ text)"
    by (rule split_runs_filter) (simp add: is_space_def cp_def)
  ultimately show ?thesis by (simp add: split_paragraphs_def)
qed

section \<open>Byte ranges\<close>

definition loc :: "string \<Rightarrow> source_span \<Rightarrow> int" where
  "loc k s = (case map_of (sp_locator s) k of None \<Rightarrow> -1 | Some v \<Rightarrow> v)"

definition exact_range :: "nat list \<Rightarrow> source_span \<Rightarrow> bool" where
  "exact_range bs s \<longleftrightarrow> 0 \<le> loc ''start'' s \<and> loc ''start'' s < loc ''end'' s \<and> loc ''end'' s \<le> int (length bs) \<and>
     take (nat (loc ''end'' s - loc ''start'' s)) (drop (nat (loc ''start'' s)) bs) = utf8 (sp_text s)"

definition before :: "source_span \<Rightarrow> source_span \<Rightarrow> bool" where
  "before s t \<longleftrightarrow> loc ''end'' s \<le> loc ''start'' t"

lemma text_span_loop:
  assumes "in_order ps rest" and "tb = pre @ utf8 rest" and "start \<le> length pre" and "[] \<notin> set ps"
  shows "\<exists>new. fst (foldl (text_span_step sha fresh now sid uid tb) (acc, start) ps) = acc @ new \<and>
    map sp_text new = ps \<and> list_all (exact_range tb) new \<and> sorted_wrt before new \<and>
    (\<forall>s \<in> set new. int start \<le> loc ''start'' s \<and> sp_source_id s = sid \<and> sp_user_id s = uid \<and>
       sp_fingerprint s = compute_fingerprint sha (sp_text s))"
  using assms
proof (induction ps arbitrary: rest pre start acc)
  case (Cons p ps)
  then obtain l r where rest: "rest = l @ p @ r" and r: "in_order ps r" by auto
  let ?k = "length pre + length (utf8 l)" and ?pre = "pre @ utf8 l @ utf8 p"
  have tb: "tb = ?pre @ utf8 r" using Cons.prems(2) rest by simp
  then have "take (length (utf8 p)) (drop ?k tb) = utf8 p" and "?k \<le> length tb" by simp_all
  with Cons.prems(3) obtain i where i: "start \<le> i" "i \<le> ?k" "find_from (utf8 p) tb start = Some i"
    using find_from_le [of "utf8 p" ?k tb start] by auto
  let ?e = "i + length (utf8 p)"
  define sp where "sp = new_span sha (fresh (length acc)) now sid uid TEXT_BYTE_RANGE
    [(''start'', int i), (''end'', int ?e)] p"
  have step: "text_span_step sha fresh now sid uid tb (acc, start) p = (acc @ [sp], ?e)"
    by (simp add: text_span_step_def i Let_def sp_def)
  have "?e \<le> length ?pre" using i by simp
  then obtain new where new:
    "fst (foldl (text_span_step sha fresh now sid uid tb) (acc @ [sp], ?e) ps) = (acc @ [sp]) @ new"
    "map sp_text new = ps" "list_all (exact_range tb) new" "sorted_wrt before new"
    "\<forall>s \<in> set new. int ?e \<le> loc ''start'' s \<and> sp_source_id s = sid \<and> sp_user_id s = uid \<and>
       sp_fingerprint s = compute_fingerprint sha (sp_text s)"
    using Cons.IH [OF r tb, of ?e "acc @ [sp]"] Cons.prems(4) by auto
  have loc: "loc ''start'' sp = int i" "loc ''end'' sp = int ?e" "sp_text sp = p"
    "sp_source_id sp = sid" "sp_user_id sp = uid" "sp_fingerprint sp = compute_fingerprint sha p"
    by (simp_all add: loc_def new_span_def sp_def)
  have "exact_range tb sp"
    using find_from_Some [OF i(3)] Cons.prems(4) by (auto simp: exact_range_def loc)
  moreover have "before sp s" if "s \<in> set new" for s
    using new(5) that by (simp add: before_def loc)
  ultimately show ?case
    using new loc i step by (intro exI [of _ "sp # new"]) auto
qed simp

lemma paragraphs_nonempty: "[] \<notin> set (split_paragraphs text)"
  by (auto simp: split_paragraphs_def)

text \<open>
  Plain-text spans are exact: there is one span per paragraph, in order, with the paragraph
  as its text; its byte range cuts exactly that paragraph out of the UTF-8 encoding of the source; the
  ranges are disjoint and ascending; and the spans together hold every visible character.
\<close>

lemma extract_text_spans_exact:
  "map sp_text (extract_text_spans sha fresh now text sid uid) = split_paragraphs text \<and>
   list_all (exact_range (utf8 text)) (extract_text_spans sha fresh now text sid uid) \<and>
   sorted_wrt before (extract_text_spans sha fresh now text sid uid) \<and>
   concat (map (\<lambda>s. filter (\<lambda>c. \<not> is_space c) (sp_text s)) (extract_text_spans sha fresh now text sid uid)) =
     filter (\<lambda>c. \<not> is_space c) text"
proof -
  from text_span_loop [OF paragraphs_in_order _ _ paragraphs_nonempty, of "utf8 text" "[]" "text" 0 sha fresh now sid uid "[]"]
  have e: "map sp_text (extract_text_spans sha fresh now text sid uid) = split_paragraphs text"
    "list_all (exact_range (utf8 text)) (extract_text_spans sha fresh now text sid uid)"
    "sorted_wrt before (extract_text_spans sha fresh now text sid uid)"
    by (auto simp: extract_text_spans_def)
  have "concat (map (\<lambda>s. filter (\<lambda>c. \<not> is_space c) (sp_text s)) (extract_text_spans sha fresh now text sid uid))
    = concat (map (filter (\<lambda>c. \<not> is_space c)) (map sp_text (extract_text_spans sha fresh now text sid uid)))"
    by (simp add: comp_def)
  also have "\<dots> = filter (\<lambda>c. \<not> is_space c) text"
    by (simp only: e split_paragraphs_lossless)
  finally show ?thesis using e by simp
qed

section \<open>Re-anchoring\<close>

text \<open>What a re-anchored row keeps, and what it takes from the new span.\<close>

definition identity_of :: "source_span \<Rightarrow> string \<times> string \<times> string \<times> locator_kind \<times> string \<times> datetime" where
  "identity_of r = (sp_id r, sp_source_id r, sp_user_id r, sp_locator_kind r, sp_fingerprint r, sp_created_at r)"

definition content_of :: "source_span \<Rightarrow> (string \<times> int) list \<times> string \<times> string" where
  "content_of r = (sp_locator r, sp_text r, sp_fingerprint r)"

lemma identity_reanchor [simp]: "identity_of (reanchor n r) = identity_of r"
  and id_reanchor [simp]: "sp_id (reanchor n r) = sp_id r"
  and content_reanchor: "content_of (reanchor n r) = (sp_locator n, sp_text n, sp_fingerprint r)"
  and stale_reanchor [simp]: "\<not> sp_stale (reanchor n r)"
  by (simp_all add: identity_of_def reanchor_def content_of_def)

text \<open>
  The invariant of the loop after the new spans \<open>seen\<close>, of which \<open>added\<close> were inserted: rows keep
  their identity, the touched rows carry exactly the content of \<open>seen\<close> and are live, the matched rows
  are the representatives of the fingerprints seen, all other rows are as before.
\<close>

definition reanchor_inv ::
  "source_span list \<Rightarrow> (string \<rightharpoonup> source_span) \<Rightarrow> source_span list \<Rightarrow> source_span list \<Rightarrow>
   source_span list \<Rightarrow> string list \<Rightarrow> bool" where
  "reanchor_inv rows0 rep seen added rows matched \<longleftrightarrow>
     map identity_of rows = map identity_of rows0 @ map identity_of added \<and> set added \<subseteq> set seen \<and>
     content_of ` {r \<in> set rows. sp_id r \<in> set matched \<union> sp_id ` set added} = content_of ` set seen \<and>
     (\<forall>r \<in> set rows. sp_id r \<in> set matched \<union> sp_id ` set added \<longrightarrow> \<not> sp_stale r) \<and>
     (\<forall>r \<in> set rows. sp_id r \<notin> set matched \<union> sp_id ` set added \<longrightarrow> r \<in> set rows0) \<and>
     set matched = {sp_id q | q n. n \<in> set seen \<and> rep (sp_fingerprint n) = Some q}"

definition rep_ok :: "source_span list \<Rightarrow> (string \<rightharpoonup> source_span) \<Rightarrow> bool" where
  "rep_ok rows0 rep \<longleftrightarrow> (\<forall>f q. rep f = Some q \<longrightarrow> q \<in> set rows0 \<and> sp_fingerprint q = f)"

lemma rep_okD: "rep_ok rows0 rep \<Longrightarrow> rep f = Some q \<Longrightarrow> q \<in> set rows0 \<and> sp_fingerprint q = f"
  by (simp add: rep_ok_def)

lemma identity_sp_id: "map identity_of xs = map identity_of ys \<Longrightarrow> map sp_id xs = map sp_id ys"
proof -
  assume "map identity_of xs = map identity_of ys"
  then have "map fst (map identity_of xs) = map fst (map identity_of ys)" by (rule arg_cong)
  then show ?thesis by (simp add: identity_of_def comp_def)
qed

lemma reanchor_invD:
  assumes "reanchor_inv rows0 rep seen added rows matched"
  shows inv_identity: "map identity_of rows = map identity_of (rows0 @ added)"
    and inv_added: "set added \<subseteq> set seen"
    and inv_content: "content_of ` {r \<in> set rows. sp_id r \<in> set matched \<union> sp_id ` set added} = content_of ` set seen"
    and inv_live: "r \<in> set rows \<Longrightarrow> sp_id r \<in> set matched \<union> sp_id ` set added \<Longrightarrow> \<not> sp_stale r"
    and inv_frozen: "r \<in> set rows \<Longrightarrow> sp_id r \<notin> set matched \<union> sp_id ` set added \<Longrightarrow> r \<in> set rows0"
    and inv_matched: "set matched = {sp_id q | q n. n \<in> set seen \<and> rep (sp_fingerprint n) = Some q}"
proof -
  note inv = assms [unfolded reanchor_inv_def]
  show "map identity_of rows = map identity_of (rows0 @ added)" using inv [THEN conjunct1] by simp
  show "set added \<subseteq> set seen" using inv [THEN conjunct2, THEN conjunct1] .
  show "content_of ` {r \<in> set rows. sp_id r \<in> set matched \<union> sp_id ` set added} = content_of ` set seen"
    using inv [THEN conjunct2, THEN conjunct2, THEN conjunct1] .
  show "\<not> sp_stale r" if "r \<in> set rows" "sp_id r \<in> set matched \<union> sp_id ` set added"
    using inv [THEN conjunct2, THEN conjunct2, THEN conjunct2, THEN conjunct1] that by blast
  show "r \<in> set rows0" if "r \<in> set rows" "sp_id r \<notin> set matched \<union> sp_id ` set added"
    using inv [THEN conjunct2, THEN conjunct2, THEN conjunct2, THEN conjunct2, THEN conjunct1] that by blast
  show "set matched = {sp_id q | q n. n \<in> set seen \<and> rep (sp_fingerprint n) = Some q}"
    using inv [THEN conjunct2, THEN conjunct2, THEN conjunct2, THEN conjunct2, THEN conjunct2] .
qed

lemma reanchor_invI:
  assumes "map identity_of rows = map identity_of rows0 @ map identity_of added" and "set added \<subseteq> set seen"
    and "content_of ` {r \<in> set rows. sp_id r \<in> set matched \<union> sp_id ` set added} = content_of ` set seen"
    and "\<And>r. r \<in> set rows \<Longrightarrow> sp_id r \<in> set matched \<union> sp_id ` set added \<Longrightarrow> \<not> sp_stale r"
    and "\<And>r. r \<in> set rows \<Longrightarrow> sp_id r \<notin> set matched \<union> sp_id ` set added \<Longrightarrow> r \<in> set rows0"
    and "set matched = {sp_id q | q n. n \<in> set seen \<and> rep (sp_fingerprint n) = Some q}"
  shows "reanchor_inv rows0 rep seen added rows matched"
  unfolding reanchor_inv_def by (intro conjI ballI impI) (fact assms)+

lemma reanchor_inv_ids:
  assumes "reanchor_inv rows0 rep seen added rows matched"
  shows "sp_id ` set rows = sp_id ` set rows0 \<union> sp_id ` set added"
proof -
  have "map sp_id rows = map sp_id (rows0 @ added)"
    by (rule identity_sp_id) (rule inv_identity [OF assms])
  then have "set (map sp_id rows) = set (map sp_id (rows0 @ added))" by (rule arg_cong)
  then show ?thesis by (simp add: image_Un)
qed

lemma reanchor_inv_row:
  assumes inv: "reanchor_inv rows0 rep seen added rows matched"
    and dist: "distinct (map sp_id (rows0 @ seen))"
    and q: "q \<in> set rows0" and r: "r \<in> set rows" "sp_id r = sp_id q"
  shows "sp_fingerprint r = sp_fingerprint q"
proof -
  have "identity_of r \<in> set (map identity_of rows)" using r by simp
  then obtain x where x: "x \<in> set (rows0 @ added)" "identity_of r = identity_of x"
    unfolding inv_identity [OF inv] by (auto simp: image_iff)
  then have "x \<in> set (rows0 @ seen)" using inv_added [OF inv] by auto
  moreover have "sp_id x = sp_id q" using x r by (simp add: identity_of_def)
  ultimately have "x = q" using dist q by (metis distinct_map inj_onD in_set_conv_decomp set_append UnI1)
  then show ?thesis using x by (simp add: identity_of_def)
qed

lemma reanchor_inv_add:
  assumes inv: "reanchor_inv rows0 rep seen added rows matched"
    and dist: "distinct (map sp_id (rows0 @ seen @ [n]))" and live: "\<not> sp_stale n"
    and rep: "rep_ok rows0 rep"
    and n: "\<And>q. rep (sp_fingerprint n) = Some q \<Longrightarrow> sp_id q \<in> set matched"
  shows "reanchor_inv rows0 rep (seen @ [n]) (added @ [n]) (rows @ [n]) matched"
proof -
  have "sp_id n \<notin> sp_id ` set rows"
    using image_mono [OF inv_added [OF inv], of sp_id] dist unfolding reanchor_inv_ids [OF inv] by auto
  then have fresh: "\<And>r. r \<in> set rows \<Longrightarrow> sp_id r \<noteq> sp_id n" by (metis image_eqI)
  have "set matched \<subseteq> sp_id ` set rows0" unfolding inv_matched [OF inv] using rep by (auto simp: rep_ok_def)
  then have "sp_id n \<notin> set matched" using dist by auto
  then have touched: "{r \<in> set (rows @ [n]). sp_id r \<in> set matched \<union> sp_id ` set (added @ [n])} =
      insert n {r \<in> set rows. sp_id r \<in> set matched \<union> sp_id ` set added}"
    using fresh by auto
  have "set matched = {sp_id q | q m. m \<in> set (seen @ [n]) \<and> rep (sp_fingerprint m) = Some q}"
    using n unfolding inv_matched [OF inv] by auto
  moreover have "content_of ` {r \<in> set (rows @ [n]). sp_id r \<in> set matched \<union> sp_id ` set (added @ [n])} =
      content_of ` set (seen @ [n])"
    unfolding touched image_insert inv_content [OF inv] by auto
  moreover have "\<not> sp_stale r" if "r \<in> set (rows @ [n])" "sp_id r \<in> set matched \<union> sp_id ` set (added @ [n])" for r
  proof -
    have "r \<in> insert n {r \<in> set rows. sp_id r \<in> set matched \<union> sp_id ` set added}"
      unfolding touched [symmetric] using that by simp
    then show ?thesis using inv_live [OF inv, of r] live by auto
  qed
  moreover have "r \<in> set rows0" if "r \<in> set (rows @ [n])" "sp_id r \<notin> set matched \<union> sp_id ` set (added @ [n])" for r
    using that inv_frozen [OF inv, of r] by auto
  ultimately show ?thesis
    using inv_identity [OF inv] inv_added [OF inv] unfolding reanchor_inv_def by (intro conjI) auto
qed

lemma reanchor_inv_match:
  assumes inv: "reanchor_inv rows0 rep seen added rows matched"
    and dist: "distinct (map sp_id (rows0 @ seen @ [n]))"
    and rep: "rep_ok rows0 rep"
    and q: "rep (sp_fingerprint n) = Some q" "sp_id q \<notin> set matched"
  shows "reanchor_inv rows0 rep (seen @ [n]) added
    (update_where (\<lambda>r. sp_id r = sp_id q) (reanchor n) rows) (sp_id q # matched)"
proof -
  let ?u = "\<lambda>r. if sp_id r = sp_id q then reanchor n r else r"
  let ?T = "set matched \<union> sp_id ` set added"
  have q0: "q \<in> set rows0" "sp_fingerprint q = sp_fingerprint n" using rep q by (auto simp: rep_ok_def)
  have "sp_id q \<notin> sp_id ` set added"
  proof
    assume "sp_id q \<in> sp_id ` set added"
    then have "sp_id q \<in> sp_id ` set seen" using inv_added [OF inv] by blast
    moreover have "sp_id q \<in> sp_id ` set rows0" using q0 by simp
    ultimately show False using dist by auto
  qed
  with q have nT: "sp_id q \<notin> ?T" by simp
  obtain r0 where r0: "r0 \<in> set rows" "sp_id r0 = sp_id q"
    using reanchor_inv_ids [OF inv] q0 by (metis UnI1 image_iff)
  have fp: "sp_fingerprint r = sp_fingerprint n" if "r \<in> set rows" "sp_id r = sp_id q" for r
    using reanchor_inv_row [OF inv _ q0(1) that] dist q0 by simp
  have "content_of ` {r \<in> ?u ` set rows. sp_id r \<in> insert (sp_id q) ?T} =
      content_of ` ?u ` {r \<in> set rows. sp_id r \<in> insert (sp_id q) ?T}"
    by (rule arg_cong [where f = "image content_of"]) auto
  also have "\<dots> = (\<lambda>r. content_of (?u r)) ` {r \<in> set rows. sp_id r = sp_id q} \<union>
      (\<lambda>r. content_of (?u r)) ` {r \<in> set rows. sp_id r \<in> ?T}"
    unfolding image_image image_Un [symmetric] by (rule arg_cong [where f = "image _"]) blast
  also have "(\<lambda>r. content_of (?u r)) ` {r \<in> set rows. sp_id r = sp_id q} = (\<lambda>_. content_of n) ` {r \<in> set rows. sp_id r = sp_id q}"
    by (rule image_cong) (simp_all add: reanchor_def content_of_def fp)
  also have "\<dots> = {content_of n}" using r0 by auto
  also have "(\<lambda>r. content_of (?u r)) ` {r \<in> set rows. sp_id r \<in> ?T} = content_of ` {r \<in> set rows. sp_id r \<in> ?T}"
  proof (rule image_cong [OF refl])
    fix r assume "r \<in> {r \<in> set rows. sp_id r \<in> ?T}"
    with nT have "sp_id r \<noteq> sp_id q" by (metis mem_Collect_eq)
    then show "content_of (?u r) = content_of r" by simp
  qed
  finally have content: "content_of ` {r \<in> ?u ` set rows. sp_id r \<in> insert (sp_id q) ?T} =
      content_of ` set (seen @ [n])"
    using inv_content [OF inv] by simp
  have m: "set (sp_id q # matched) = {sp_id q | q m. m \<in> set (seen @ [n]) \<and> rep (sp_fingerprint m) = Some q}"
    using inv_matched [OF inv] q by auto
  have "map identity_of (update_where (\<lambda>r. sp_id r = sp_id q) (reanchor n) rows) = map identity_of rows"
    by (rule map_update_where) simp
  then have ids: "map identity_of (update_where (\<lambda>r. sp_id r = sp_id q) (reanchor n) rows) =
      map identity_of rows0 @ map identity_of added"
    using inv_identity [OF inv] by simp
  show ?thesis
  proof (rule reanchor_invI [OF ids])
    show "set added \<subseteq> set (seen @ [n])" using inv_added [OF inv] by auto
    show "content_of ` {r \<in> set (update_where (\<lambda>r. sp_id r = sp_id q) (reanchor n) rows).
        sp_id r \<in> set (sp_id q # matched) \<union> sp_id ` set added} = content_of ` set (seen @ [n])"
      using content by (simp only: set_update_where set_simps Un_insert_left)
    fix r assume "r \<in> set (update_where (\<lambda>r. sp_id r = sp_id q) (reanchor n) rows)"
    then obtain x where x: "x \<in> set rows" "r = ?u x" by (auto simp: set_update_where)
    then have id: "sp_id r = sp_id x" by simp
    show "\<not> sp_stale r" if "sp_id r \<in> set (sp_id q # matched) \<union> sp_id ` set added"
      using that x id inv_live [OF inv x(1)] by (cases "sp_id x = sp_id q") auto
    show "r \<in> set rows0" if "sp_id r \<notin> set (sp_id q # matched) \<union> sp_id ` set added"
      using that x id inv_frozen [OF inv x(1)] by (cases "sp_id x = sp_id q") auto
  qed (fact m)
qed

lemma reanchor_step_inv:
  assumes inv: "reanchor_inv rows0 rep seen added rows matched"
    and dist: "distinct (map sp_id (rows0 @ seen @ [n]))" and live: "\<not> sp_stale n"
    and rep: "rep_ok rows0 rep"
    and step: "reanchor_step rep (rows, matched, final) n = (rows', matched', final')"
  shows "\<exists>added'. reanchor_inv rows0 rep (seen @ [n]) added' rows' matched'"
proof (cases "\<exists>q. rep (sp_fingerprint n) = Some q \<and> sp_id q \<notin> set matched")
  case True
  then obtain q where q: "rep (sp_fingerprint n) = Some q" "sp_id q \<notin> set matched" by blast
  with step have "rows' = update_where (\<lambda>r. sp_id r = sp_id q) (reanchor n) rows" "matched' = sp_id q # matched"
    by (auto simp: reanchor_step_def)
  with reanchor_inv_match [OF inv dist rep q] show ?thesis by blast
next
  case False
  then have "rows' = rows @ [n]" "matched' = matched"
    using step by (auto simp: reanchor_step_def split: option.splits if_splits)
  with reanchor_inv_add [OF inv dist live rep] False show ?thesis by blast
qed

lemma reanchor_loop_inv:
  assumes "reanchor_inv rows0 rep seen added rows matched"
    and "distinct (map sp_id (rows0 @ seen @ new))" and "\<forall>n \<in> set new. \<not> sp_stale n" and "rep_ok rows0 rep"
    and "foldl (reanchor_step rep) (rows, matched, final) new = (rows', matched', final')"
  shows "\<exists>added'. reanchor_inv rows0 rep (seen @ new) added' rows' matched'"
  using assms
proof (induction new arbitrary: seen added rows matched final)
  case (Cons n new)
  obtain rows1 matched1 final1 where s: "reanchor_step rep (rows, matched, final) n = (rows1, matched1, final1)"
    by (metis prod_cases3)
  have "distinct (map sp_id (rows0 @ seen @ [n]))" using Cons.prems(2) by auto
  with reanchor_step_inv [OF Cons.prems(1) _ _ Cons.prems(4) s] Cons.prems(3)
  obtain added1 where "reanchor_inv rows0 rep (seen @ [n]) added1 rows1 matched1" by auto
  from Cons.IH [OF this] Cons.prems s show ?case by simp
qed auto

lemma reanchor_inv_init: "reanchor_inv rows0 rep [] [] rows0 []"
  by (simp add: reanchor_inv_def)

lemma index_fingerprint_ok:
  "set old \<subseteq> set rows0 \<Longrightarrow> rep_ok rows0 (index_first (\<lambda>s. Some (sp_fingerprint s)) old)"
  by (auto simp: rep_ok_def index_first_eq_find dest: find_Some_in)

text \<open>
  The outcome of re-anchoring in one statement: \<open>rows\<close> is the table before the unmatched old spans
  are marked.
\<close>

lemma persist_spans_reanchored:
  assumes "distinct (map sp_id (source_spans d @ spans))" and "spans \<noteq> []"
    and "\<forall>s \<in> set spans. sp_source_id s = sid \<and> \<not> sp_stale s"
    and "old = select (\<lambda>r. sp_source_id r = sid) (source_spans d)" and "old \<noteq> []"
  obtains added rows matched where
    "reanchor_inv (source_spans d) (index_first (\<lambda>s. Some (sp_fingerprint s)) old) spans added rows matched"
    "source_spans (persist_spans spans d) = mark_stale (map sp_id old) matched rows"
proof -
  let ?rep = "index_first (\<lambda>s. Some (sp_fingerprint s)) old"
  obtain s ss where sp: "spans = s # ss" "sp_source_id s = sid" using assms(2,3) by (cases spans) auto
  obtain rows matched final where f: "foldl (reanchor_step ?rep) (source_spans d, [], []) spans = (rows, matched, final)"
    by (metis prod_cases3)
  have "set old \<subseteq> set (source_spans d)" using assms(4) by auto
  then obtain added where "reanchor_inv (source_spans d) ?rep spans added rows matched"
    using reanchor_loop_inv [OF reanchor_inv_init _ _ _ f] index_fingerprint_ok assms(1,3) by auto
  moreover have "source_spans (persist_spans spans d) = mark_stale (map sp_id old) matched rows"
    using sp f assms(4,5) by (simp add: persist_spans_def reanchor_onto_def)
  ultimately show ?thesis by (rule that)
qed

definition live_spans :: "string \<Rightarrow> db \<Rightarrow> source_span set" where
  "live_spans sid d = {r \<in> set (source_spans d). sp_source_id r = sid \<and> \<not> sp_stale r}"

lemma identity_mark_stale: "map identity_of (mark_stale old matched rows) = map identity_of rows"
  unfolding mark_stale_def by (rule map_update_where) (simp add: identity_of_def)

lemma live_after_marking:
  assumes inv: "reanchor_inv (source_spans d) rep spans added rows matched"
    and rep: "rep_ok (select (\<lambda>r. sp_source_id r = sid) (source_spans d)) rep"
    and src: "\<forall>s \<in> set spans. sp_source_id s = sid"
    and dist: "distinct (map sp_id (source_spans d @ spans))"
    and old: "old = select (\<lambda>r. sp_source_id r = sid) (source_spans d)"
  shows "{r \<in> set (mark_stale (map sp_id old) matched rows). sp_source_id r = sid \<and> \<not> sp_stale r} =
    {r \<in> set rows. sp_id r \<in> set matched \<union> sp_id ` set added}" (is "?L = ?R")
proof -
  have ident: "\<exists>x \<in> set (source_spans d @ added). sp_id r = sp_id x \<and> sp_source_id r = sp_source_id x"
    if "r \<in> set rows" for r
  proof -
    have "identity_of r \<in> set (map identity_of (source_spans d @ added))"
      using that unfolding inv_identity [OF inv, symmetric] by simp
    then show ?thesis by (auto simp: identity_of_def)
  qed
  have matched_old: "set matched \<subseteq> sp_id ` set old"
    using inv_matched [OF inv] rep old by (auto simp: rep_ok_def)
  have added_old: "sp_id ` set added \<inter> sp_id ` set old = {}"
    using inv_added [OF inv] dist old by auto
  show ?thesis
  proof (intro set_eqI iffI)
    fix r assume r: "r \<in> ?R"
    then have "sp_id r \<in> set matched \<or> sp_id r \<notin> sp_id ` set old" using added_old by auto
    then have "r \<in> set (mark_stale (map sp_id old) matched rows)"
      using r by (auto simp: mark_stale_def set_update_where image_iff intro!: bexI [of _ r])
    moreover have "sp_source_id r = sid"
    proof -
      obtain x where x: "x \<in> set (source_spans d @ added)" "sp_id r = sp_id x" "sp_source_id r = sp_source_id x"
        using ident r by blast
      have "sp_id x \<in> sp_id ` set old \<union> sp_id ` set added" using r x matched_old by auto
      then obtain y where y: "y \<in> set old \<union> set added" "sp_id x = sp_id y" by auto
      have "x \<in> set (source_spans d @ spans)" "y \<in> set (source_spans d @ spans)"
        using x y inv_added [OF inv] old by auto
      then have "x = y" using dist y(2) by (metis distinct_map inj_onD)
      then show ?thesis using x y src inv_added [OF inv] old by auto
    qed
    ultimately show "r \<in> ?L" using inv_live [OF inv, of r] r by auto
  next
    fix r assume r: "r \<in> ?L"
    then obtain x where x: "x \<in> set rows" "r = x" "\<not> (sp_id x \<in> sp_id ` set old \<and> sp_id x \<notin> set matched)"
      by (auto simp: mark_stale_def set_update_where split: if_splits)
    moreover have "sp_id x \<in> sp_id ` set old \<union> sp_id ` set added"
      using ident [OF x(1)] x(2) r old by force
    ultimately show "r \<in> ?R" by auto
  qed
qed

lemma others_after_marking:
  assumes inv: "reanchor_inv (source_spans d) rep spans added rows matched"
    and rep: "rep_ok (select (\<lambda>r. sp_source_id r = sid) (source_spans d)) rep"
    and src: "\<forall>s \<in> set spans. sp_source_id s = sid"
    and dist: "distinct (map sp_id (source_spans d @ spans))"
    and old: "old = select (\<lambda>r. sp_source_id r = sid) (source_spans d)"
  shows "{r \<in> set (mark_stale (map sp_id old) matched rows). sp_source_id r \<noteq> sid} =
    {r \<in> set (source_spans d). sp_source_id r \<noteq> sid}"
proof -
  have uniq: "x = y" if "x \<in> set (source_spans d @ spans)" "y \<in> set (source_spans d @ spans)" "sp_id x = sp_id y" for x y
    using dist that by (metis distinct_map inj_onD)
  have other: "r \<in> set (source_spans d) \<and> sp_id r \<notin> sp_id ` set old" if r: "r \<in> set rows" "sp_source_id r \<noteq> sid" for r
  proof -
    have "identity_of r \<in> set (map identity_of (source_spans d @ added))"
      using r unfolding inv_identity [OF inv, symmetric] by simp
    then obtain x where x: "x \<in> set (source_spans d @ added)" "sp_id r = sp_id x" "sp_source_id r = sp_source_id x"
      by (auto simp: identity_of_def)
    then have x0: "x \<in> set (source_spans d)" "x \<notin> set spans" "x \<notin> set old"
      using r(2) src inv_added [OF inv] old by auto
    have "sp_id x \<notin> sp_id ` set added"
    proof
      assume "sp_id x \<in> sp_id ` set added"
      then obtain y where "y \<in> set spans" "sp_id x = sp_id y" using inv_added [OF inv] by auto
      then show False using uniq [of x y] x0 by auto
    qed
    moreover have o: "sp_id x \<notin> sp_id ` set old"
    proof
      assume "sp_id x \<in> sp_id ` set old"
      then obtain y where "y \<in> set old" "sp_id x = sp_id y" by auto
      then show False using uniq [of x y] x0 old by auto
    qed
    moreover have "set matched \<subseteq> sp_id ` set old"
      unfolding inv_matched [OF inv] using rep old by (auto simp: rep_ok_def)
    ultimately have "r \<in> set (source_spans d)" using inv_frozen [OF inv r(1)] x(2) by auto
    with o x(2) show ?thesis by simp
  qed
  show ?thesis
  proof (intro set_eqI iffI)
    fix r assume "r \<in> {r \<in> set (mark_stale (map sp_id old) matched rows). sp_source_id r \<noteq> sid}"
    then obtain x where x: "x \<in> set rows" "sp_source_id r \<noteq> sid"
      "r = (if sp_id x \<in> set (map sp_id old) \<and> sp_id x \<notin> set matched then x\<lparr>sp_stale := True\<rparr> else x)"
      unfolding mark_stale_def set_update_where by blast
    then have "sp_source_id x \<noteq> sid" by (simp split: if_splits)
    with x other [of x] have "r = x" by simp
    with x(1,2) other [of r] show "r \<in> {r \<in> set (source_spans d). sp_source_id r \<noteq> sid}" by simp
  next
    fix r assume r: "r \<in> {r \<in> set (source_spans d). sp_source_id r \<noteq> sid}"
    then have "identity_of r \<in> set (map identity_of rows)" unfolding inv_identity [OF inv] by simp
    then obtain x where x: "x \<in> set rows" "sp_id x = sp_id r" "sp_source_id x = sp_source_id r"
      by (auto simp: identity_of_def)
    with other [of x] r have "x = r" using uniq [of x r] by auto
    with x other [of x] r show "r \<in> {r \<in> set (mark_stale (map sp_id old) matched rows). sp_source_id r \<noteq> sid}"
      by (auto simp: mark_stale_def set_update_where image_iff intro!: bexI [of _ r])
  qed
qed

text \<open>
  C3. Re-ingesting a source: afterwards its live spans carry exactly the locators, texts and
  fingerprints of the new extraction; every stored span keeps its row, its identifier and its
  fingerprint, so that no citation dangles; and the spans of other sources are not touched.
\<close>

theorem persist_spans_refreshes:
  assumes "distinct (map sp_id (source_spans d @ spans))" and "spans \<noteq> []"
    and "\<forall>s \<in> set spans. sp_source_id s = sid \<and> \<not> sp_stale s"
  shows "content_of ` live_spans sid (persist_spans spans d) = content_of ` set spans \<and>
    identity_of ` set (source_spans d) \<subseteq> identity_of ` set (source_spans (persist_spans spans d)) \<and>
    {r \<in> set (source_spans (persist_spans spans d)). sp_source_id r \<noteq> sid} =
      {r \<in> set (source_spans d). sp_source_id r \<noteq> sid}"
proof (cases "select (\<lambda>r. sp_source_id r = sid) (source_spans d) = []")
  case True
  obtain s ss where sp: "spans = s # ss" "sp_source_id s = sid" using assms(2,3) by (cases spans) auto
  have p: "source_spans (persist_spans spans d) = source_spans d @ spans"
    using True sp by (simp add: persist_spans_def)
  have none: "\<forall>r \<in> set (source_spans d). sp_source_id r \<noteq> sid" using True by (simp add: select_empty_iff)
  then have "live_spans sid (persist_spans spans d) = set spans"
    using assms(3) unfolding live_spans_def p by auto
  with none assms(3) show ?thesis unfolding p by auto
next
  case False
  let ?old = "select (\<lambda>r. sp_source_id r = sid) (source_spans d)"
  let ?rep = "index_first (\<lambda>s. Some (sp_fingerprint s)) ?old"
  obtain added rows matched where inv: "reanchor_inv (source_spans d) ?rep spans added rows matched"
    and p: "source_spans (persist_spans spans d) = mark_stale (map sp_id ?old) matched rows"
    using persist_spans_reanchored [OF assms refl False] by blast
  have rep: "rep_ok ?old ?rep" by (rule index_fingerprint_ok) simp
  have src: "\<forall>s \<in> set spans. sp_source_id s = sid" using assms(3) by simp
  have "live_spans sid (persist_spans spans d) = {r \<in> set rows. sp_id r \<in> set matched \<union> sp_id ` set added}"
    unfolding live_spans_def p by (rule live_after_marking [OF inv rep src assms(1) refl])
  then have "content_of ` live_spans sid (persist_spans spans d) = content_of ` set spans"
    using inv_content [OF inv] by simp
  moreover have ids: "map identity_of (source_spans (persist_spans spans d)) = map identity_of (source_spans d @ added)"
    unfolding p identity_mark_stale by (rule inv_identity [OF inv])
  then have "identity_of ` set (source_spans d) \<subseteq> identity_of ` set (source_spans (persist_spans spans d))"
    by (metis Un_upper1 list.set_map map_append set_append)
  moreover have "{r \<in> set (source_spans (persist_spans spans d)). sp_source_id r \<noteq> sid} =
      {r \<in> set (source_spans d). sp_source_id r \<noteq> sid}"
    unfolding p by (rule others_after_marking [OF inv rep src assms(1) refl])
  ultimately show ?thesis by blast
qed

text \<open>
  Citations survive re-ingestion by fingerprint: a stored span that is the first of its
  source with its fingerprint keeps its row, and that row is live exactly when the new content has a
  paragraph with the same fingerprint.
\<close>

lemma anchor_survives:
  assumes "distinct (map sp_id (source_spans d @ spans))" and "spans \<noteq> []"
    and "\<forall>s \<in> set spans. sp_source_id s = sid \<and> \<not> sp_stale s"
    and "find (\<lambda>r. sp_source_id r = sid \<and> sp_fingerprint r = fp) (source_spans d) = Some q"
  shows "\<exists>r \<in> set (source_spans (persist_spans spans d)). identity_of r = identity_of q \<and>
    (sp_stale r \<longleftrightarrow> fp \<notin> sp_fingerprint ` set spans)"
proof -
  let ?old = "select (\<lambda>r. sp_source_id r = sid) (source_spans d)"
  let ?rep = "index_first (\<lambda>s. Some (sp_fingerprint s)) ?old"
  have q: "q \<in> set (source_spans d)" "sp_source_id q = sid" "sp_fingerprint q = fp"
    using find_Some_in [OF assms(4)] by auto
  then have "?old \<noteq> []" by (auto simp: select_empty_iff)
  then obtain added rows matched where inv: "reanchor_inv (source_spans d) ?rep spans added rows matched"
    and p: "source_spans (persist_spans spans d) = mark_stale (map sp_id ?old) matched rows"
    using persist_spans_reanchored [OF assms(1-3) refl] by blast
  have repq: "?rep fp = Some q"
    using assms(4) by (simp add: index_first_eq_find select_def find_filter)
  have rep: "rep_ok ?old ?rep" by (rule index_fingerprint_ok) simp
  have inj: "x = q" if "x \<in> set (source_spans d)" "sp_id x = sp_id q" for x
    using assms(1) that q(1) by (metis distinct_append distinct_map inj_onD map_append)
  have m: "sp_id q \<in> set matched \<longleftrightarrow> fp \<in> sp_fingerprint ` set spans"
  proof -
    have "z = q" if "?rep f = Some z" "sp_id z = sp_id q" for f z
      using inj [of z] rep_okD [OF rep that(1)] that(2) by simp
    then have "sp_id q \<in> set matched \<longleftrightarrow> (\<exists>n \<in> set spans. ?rep (sp_fingerprint n) = Some q)"
      unfolding inv_matched [OF inv] mem_Collect_eq by metis
    also have "\<dots> \<longleftrightarrow> fp \<in> sp_fingerprint ` set spans"
      using repq rep_okD [OF rep] q(3) by (metis image_iff)
    finally show ?thesis .
  qed
  have "identity_of q \<in> set (map identity_of rows)" unfolding inv_identity [OF inv] using q(1) by simp
  then obtain r where r: "r \<in> set rows" "identity_of r = identity_of q" by auto
  then have id: "sp_id r = sp_id q" by (simp add: identity_of_def)
  let ?r = "if sp_id r \<in> set matched then r else r\<lparr>sp_stale := True\<rparr>"
  have "sp_id q \<in> sp_id ` set ?old" using q by auto
  then have "?r \<in> set (mark_stale (map sp_id ?old) matched rows)"
    using r(1) id by (auto simp: mark_stale_def set_update_where image_iff intro!: bexI [of _ r])
  moreover have "identity_of ?r = identity_of q" using r(2) by (simp add: identity_of_def)
  moreover have "sp_stale ?r \<longleftrightarrow> fp \<notin> sp_fingerprint ` set spans"
    using inv_live [OF inv r(1)] m id by auto
  ultimately show ?thesis unfolding p by blast
qed

section \<open>Witnesses\<close>

definition ex_sha :: "nat list \<Rightarrow> string" where
  "ex_sha bs = map char_of bs"

definition ex_fresh :: "char \<Rightarrow> nat \<Rightarrow> string" where
  "ex_fresh c i = [c] @ show_nat i"

definition ex_text :: "string \<Rightarrow> string \<Rightarrow> string" where
  "ex_text a b = a @ [CHR 0x0A, CHR 0x0A] @ b"

definition ex_ingest :: "char \<Rightarrow> string \<Rightarrow> source_span list" where
  "ex_ingest c t = extract_text_spans ex_sha (ex_fresh c) 0 t ''s1'' ''u1''"

definition ex_spans_db :: db where
  "ex_spans_db = persist_spans (ex_ingest CHR ''a'' (ex_text ''One.'' ''Two'')) empty_db"

lemma ex_ingest_hyps:
  "distinct (map sp_id (source_spans ex_spans_db @ ex_ingest CHR ''b'' (ex_text ''two!'' ''Three''))) \<and>
   ex_ingest CHR ''b'' (ex_text ''two!'' ''Three'') \<noteq> [] \<and>
   (\<forall>s \<in> set (ex_ingest CHR ''b'' (ex_text ''two!'' ''Three'')). sp_source_id s = ''s1'' \<and> \<not> sp_stale s)"
  by code_simp

theorem persist_spans_refreshes_witness:
  "content_of ` live_spans ''s1'' (persist_spans (ex_ingest CHR ''b'' (ex_text ''two!'' ''Three'')) ex_spans_db) =
   content_of ` set (ex_ingest CHR ''b'' (ex_text ''two!'' ''Three''))"
  using persist_spans_refreshes [of ex_spans_db "ex_ingest CHR ''b'' (ex_text ''two!'' ''Three'')" "''s1''"] ex_ingest_hyps
  by blast

lemma anchor_survives_witness:
  "\<exists>r \<in> set (source_spans (persist_spans (ex_ingest CHR ''b'' (ex_text ''two!'' ''Three'')) ex_spans_db)).
     sp_id r = ''a1'' \<and> \<not> sp_stale r"
proof -
  have "find (\<lambda>r. sp_source_id r = ''s1'' \<and> sp_fingerprint r = ''two'') (source_spans ex_spans_db) =
      Some (source_spans ex_spans_db ! 1)" by code_simp
  moreover have "''two'' \<in> sp_fingerprint ` set (ex_ingest CHR ''b'' (ex_text ''two!'' ''Three''))" by code_simp
  moreover have "sp_id (source_spans ex_spans_db ! 1) = ''a1''" by code_simp
  ultimately show ?thesis
    using anchor_survives [of ex_spans_db "ex_ingest CHR ''b'' (ex_text ''two!'' ''Three'')" "''s1''" "''two''"
        "source_spans ex_spans_db ! 1"] ex_ingest_hyps
    by (auto simp: identity_of_def)
qed

text \<open>
  Re-ingesting identical content with a repeated paragraph does not keep its spans: the second
  of two equal paragraphs is marked stale and inserted again under a new identifier, because the
  index keeps one span per fingerprint.
\<close>

lemma reingest_repeated_paragraph:
  "map (\<lambda>r. (sp_id r, sp_text r, sp_stale r))
     (source_spans (persist_spans (ex_ingest CHR ''b'' (ex_text ''Same'' ''Same''))
       (persist_spans (ex_ingest CHR ''a'' (ex_text ''Same'' ''Same'')) empty_db))) =
   [(''a0'', ''Same'', False), (''a1'', ''Same'', True), (''b1'', ''Same'', False)]"
  by code_simp

end
