(* ===== verification/Quota.thy ===== *)
theory Quota
  imports Domain Float64
begin

text \<open>
  \<^verbatim>\<open>src/src/wikimind/services/quota.py\<close>: the plan in force for a user and the checks of its limits.
  Checks that only read return \<open>unit result\<close>; the query check, which also counts, returns the new
  database. The advisory lock of the source, article and share checks is part of the step
  relation \<open>quota_step\<close>, in which request handlers of one user and resource interleave: a handler
  waits for the lock, checks while holding it, and inserts its row in the transaction whose end
  releases the lock. The locale \<open>counted_resource\<close> states what a resource must provide for its
  limit to hold in every reachable state; sources, articles and share links interpret it.
\<close>

section \<open>The plan in force\<close>

definition in_force :: "datetime \<Rightarrow> user \<Rightarrow> bool" where
  "in_force now u \<longleftrightarrow> (case usr_plan_effective_until u of None \<Rightarrow> True | Some t \<Rightarrow> now < t)"

definition default_plan :: "db \<Rightarrow> plan result" where
  "default_plan d = one (select pln_is_default (plans d))"

definition get_effective_plan :: "datetime \<Rightarrow> db \<Rightarrow> string \<Rightarrow> plan result" where
  "get_effective_plan now d user_id =
     bindR (one_or_none (select (\<lambda>u. usr_id u = user_id) (users d))) (\<lambda>user.
       case user of
         None \<Rightarrow> default_plan d
       | Some u \<Rightarrow>
         (case usr_plan_id u of
            None \<Rightarrow> default_plan d
          | Some pid \<Rightarrow>
            if pid \<noteq> [] \<and> in_force now u
            then bindR (one_or_none (select (\<lambda>p. pln_id p = pid) (plans d))) (\<lambda>plan.
                   case plan of Some p \<Rightarrow> ok p | None \<Rightarrow> default_plan d)
            else default_plan d))"

section \<open>Limits\<close>

text \<open>
  \<^verbatim>\<open>if not limit: return\<close>, then \<^verbatim>\<open>if count >= limit: raise\<close>. A limit of \<open>0\<close> is falsy and means no limit.
\<close>

definition check_limit :: "string \<Rightarrow> int \<Rightarrow> int option \<Rightarrow> unit result" where
  "check_limit resource count limit =
     (case limit of
        None \<Rightarrow> ok ()
      | Some n \<Rightarrow> if n = 0 then ok ()
                  else if n \<le> count then raise (QuotaExceededError resource count n) else ok ())"

definition count_sources :: "string \<Rightarrow> db \<Rightarrow> int" where
  "count_sources user_id d = int (length (select (\<lambda>s. src_user_id s = user_id) (sources d)))"

definition check_source_quota :: "db \<Rightarrow> string \<Rightarrow> plan \<Rightarrow> unit result" where
  "check_source_quota d user_id plan = check_limit ''source'' (count_sources user_id d) (pln_max_sources plan)"

definition count_articles :: "string \<Rightarrow> db \<Rightarrow> int" where
  "count_articles user_id d = int (length (select (\<lambda>a. art_user_id a = user_id) (articles d)))"

definition check_article_quota :: "db \<Rightarrow> string \<Rightarrow> plan \<Rightarrow> unit result" where
  "check_article_quota d user_id plan = check_limit ''article'' (count_articles user_id d) (pln_max_articles plan)"

definition count_shares :: "string \<Rightarrow> db \<Rightarrow> int" where
  "count_shares user_id d = int (length (select (\<lambda>l. sl_user_id l = user_id \<and> \<not> sl_revoked l) (share_links d)))"

definition check_share_quota :: "db \<Rightarrow> string \<Rightarrow> plan \<Rightarrow> unit result" where
  "check_share_quota d user_id plan = check_limit ''share_link'' (count_shares user_id d) (pln_max_active_shares plan)"

section \<open>Storage\<close>

definition reserve_storage :: "db \<Rightarrow> string \<Rightarrow> plan \<Rightarrow> unit result" where
  "reserve_storage d user_id plan =
     (case pln_max_storage_bytes plan of
        None \<Rightarrow> ok ()
      | Some n \<Rightarrow>
          if n = 0 then ok ()
          else bindR (one_or_none (select (\<lambda>s. stu_user_id s = user_id) (storage_usages d))) (\<lambda>usage.
            case usage of
              Some s \<Rightarrow> if n \<le> stu_total_bytes s then raise (QuotaExceededError ''storage'' (stu_total_bytes s) n) else ok ()
            | None \<Rightarrow> ok ()))"

definition check_storage_quota :: "db \<Rightarrow> string \<Rightarrow> plan \<Rightarrow> unit result" where
  "check_storage_quota d user_id plan = reserve_storage d user_id plan"

definition commit_storage :: "datetime \<Rightarrow> string \<Rightarrow> int \<Rightarrow> db \<Rightarrow> db" where
  "commit_storage now user_id actual_bytes d =
     d\<lparr>storage_usages := update_where (\<lambda>s. stu_user_id s = user_id)
        (\<lambda>s. s\<lparr>stu_total_bytes := stu_total_bytes s + actual_bytes, stu_updated_at := now\<rparr>) (storage_usages d)\<rparr>"

section \<open>Daily queries\<close>

definition is_day_row :: "string \<Rightarrow> int \<Rightarrow> query_count \<Rightarrow> bool" where
  "is_day_row user_id day q \<longleftrightarrow> qc_user_id q = user_id \<and> qc_date q = day"

definition upsert_day :: "string \<Rightarrow> int \<Rightarrow> query_count list \<Rightarrow> query_count list" where
  "upsert_day user_id day qs =
     (if select (is_day_row user_id day) qs = []
      then qs @ [\<lparr>qc_user_id = user_id, qc_date = day, qc_count = 0\<rparr>] else qs)"

definition day_count :: "string \<Rightarrow> int \<Rightarrow> query_count list \<Rightarrow> int" where
  "day_count user_id day qs =
     (case first_of (select (is_day_row user_id day) qs) of None \<Rightarrow> 0 | Some q \<Rightarrow> qc_count q)"

definition check_query_quota :: "datetime \<Rightarrow> string \<Rightarrow> plan \<Rightarrow> db \<Rightarrow> db result" where
  "check_query_quota now user_id plan d =
     (case pln_max_queries_per_day plan of
        None \<Rightarrow> ok d
      | Some n \<Rightarrow>
          if n = 0 then ok d
          else
            (let today = date_of now;
                 qs = upsert_day user_id today (query_counts d);
                 current = day_count user_id today qs
             in if n \<le> current then raise (QuotaExceededError ''query'' current n)
                else ok (d\<lparr>query_counts := update_where (is_day_row user_id today)
                            (\<lambda>q. q\<lparr>qc_count := qc_count q + 1\<rparr>) qs\<rparr>)))"

section \<open>Pure checks and the spend cap\<close>

definition check_export_format :: "plan \<Rightarrow> string \<Rightarrow> unit result" where
  "check_export_format plan fmt =
     (if fmt \<notin> set (pln_allowed_exports plan) then raise (QuotaExceededError ''export'' 0 0) else ok ())"

definition check_mcp_access :: "plan \<Rightarrow> unit result" where
  "check_mcp_access plan = (if \<not> pln_mcp_enabled plan then raise (QuotaExceededError ''mcp'' 0 0) else ok ())"

text \<open>\<open>SUM\<close> over a double precision column adds row by row; \<open>int\<close> truncates towards zero.\<close>

definition sql_sum :: "rat list \<Rightarrow> rat" where
  "sql_sum xs = foldl (\<lambda>acc x. fl (acc + x)) 0 xs"

definition py_int :: "rat \<Rightarrow> int" where
  "py_int x = (if 0 \<le> x then \<lfloor>x\<rfloor> else \<lceil>x\<rceil>)"

definition today_cents :: "datetime \<Rightarrow> string \<Rightarrow> db \<Rightarrow> int" where
  "today_cents now user_id d =
     py_int (fl (sql_sum (map cl_cost_usd
       (select (\<lambda>c. cl_user_id c = user_id \<and> date_of (cl_created_at c) = date_of now) (cost_logs d))) * 100))"

definition check_daily_llm_spend :: "datetime \<Rightarrow> db \<Rightarrow> string \<Rightarrow> plan \<Rightarrow> unit result" where
  "check_daily_llm_spend now d user_id plan =
     check_limit ''llm_spend'' (today_cents now user_id d) (pln_daily_llm_spend_cap_cents plan)"

section \<open>Handlers under the advisory lock\<close>

text \<open>
  The handlers of one user for one resource: \<open>handler\<close> numbers them. \<open>Admitted\<close> is the state between
  a passed check and the commit of the row; only then is the lock held. \<open>other\<close> is any concurrent
  change by transactions that do not insert counted rows (deletions, revocations, other users).
\<close>

datatype phase = Waiting | Admitted | Committed | Refused

record qsys =
  q_db :: db
  q_lock :: "nat option"
  q_phase :: "nat \<Rightarrow> phase"

inductive quota_step ::
  "(db \<Rightarrow> unit result) \<Rightarrow> (nat \<Rightarrow> db \<Rightarrow> db) \<Rightarrow> (db \<Rightarrow> int) \<Rightarrow> qsys \<Rightarrow> qsys \<Rightarrow> bool"
  for check insert_row cnt where
  admit: "q_phase s h = Waiting \<Longrightarrow> q_lock s = None \<Longrightarrow> check (q_db s) = ok () \<Longrightarrow>
    quota_step check insert_row cnt s (s\<lparr>q_lock := Some h, q_phase := (q_phase s)(h := Admitted)\<rparr>)"
| refuse: "q_phase s h = Waiting \<Longrightarrow> q_lock s = None \<Longrightarrow> check (q_db s) = raise e \<Longrightarrow>
    quota_step check insert_row cnt s (s\<lparr>q_phase := (q_phase s)(h := Refused)\<rparr>)"
| commit: "q_lock s = Some h \<Longrightarrow> q_phase s h = Admitted \<Longrightarrow>
    quota_step check insert_row cnt s
      (s\<lparr>q_db := insert_row h (q_db s), q_lock := None, q_phase := (q_phase s)(h := Committed)\<rparr>)"
| rollback: "q_lock s = Some h \<Longrightarrow> q_phase s h = Admitted \<Longrightarrow>
    quota_step check insert_row cnt s (s\<lparr>q_lock := None, q_phase := (q_phase s)(h := Refused)\<rparr>)"
| other: "cnt d' \<le> cnt (q_db s) \<Longrightarrow> quota_step check insert_row cnt s (s\<lparr>q_db := d'\<rparr>)"

definition quota_start :: "db \<Rightarrow> qsys" where
  "quota_start d = \<lparr>q_db = d, q_lock = None, q_phase = (\<lambda>_. Waiting)\<rparr>"

locale counted_resource =
  fixes cnt :: "string \<Rightarrow> db \<Rightarrow> int"
    and limit :: "plan \<Rightarrow> int option"
    and check :: "db \<Rightarrow> string \<Rightarrow> plan \<Rightarrow> unit result"
    and ins :: "'r \<Rightarrow> db \<Rightarrow> db"
  assumes check_refuses: "limit p = Some n \<Longrightarrow> n \<noteq> 0 \<Longrightarrow> n \<le> cnt u d \<Longrightarrow> check d u p \<noteq> ok ()"
    and check_admits: "limit p = Some n \<Longrightarrow> cnt u d < n \<Longrightarrow> check d u p = ok ()"
    and ins_cnt: "cnt u (ins r d) \<le> cnt u d + 1"
begin

lemma step_keeps_limit:
  assumes "quota_step (\<lambda>d. check d u p) (\<lambda>h. ins (row h)) (cnt u) s t" and "limit p = Some n" and "0 < n"
    and "cnt u (q_db s) \<le> n"
    and "\<And>h. q_lock s = Some h \<Longrightarrow> q_phase s h = Admitted \<and> cnt u (q_db s) < n"
  shows "cnt u (q_db t) \<le> n \<and> (\<forall>h. q_lock t = Some h \<longrightarrow> q_phase t h = Admitted \<and> cnt u (q_db t) < n)"
  using assms(1)
proof (cases rule: quota_step.cases)
  case (admit h)
  then have "\<not> n \<le> cnt u (q_db s)" using check_refuses [OF assms(2), of u "q_db s"] assms(3) by auto
  then have "cnt u (q_db s) < n" by simp
  with admit assms(4) show ?thesis by simp
next
  case (commit h)
  with assms(5) have "cnt u (q_db s) < n" by blast
  with commit ins_cnt [of u "row h" "q_db s"] show ?thesis by simp
next
  case (other d')
  with assms(4,5) show ?thesis by fastforce
qed (use assms(4,5) in auto)

lemma reachable_keeps_limit:
  assumes "(quota_step (\<lambda>d. check d u p) (\<lambda>h. ins (row h)) (cnt u))\<^sup>*\<^sup>* (quota_start d) s"
    and "limit p = Some n" and "0 < n" and "cnt u d \<le> n"
  shows "cnt u (q_db s) \<le> n \<and> (\<forall>h. q_lock s = Some h \<longrightarrow> q_phase s h = Admitted \<and> cnt u (q_db s) < n)"
  using assms(1)
proof (induction rule: rtranclp_induct)
  case base
  show ?case using assms(4) by (simp add: quota_start_def)
next
  case (step s t)
  show ?case using step_keeps_limit [OF step(2) assms(2,3)] step(3) by blast
qed

lemma waiting_can_proceed:
  assumes "(quota_step (\<lambda>d. check d u p) (\<lambda>h. ins (row h)) (cnt u))\<^sup>*\<^sup>* (quota_start d) s"
    and "limit p = Some n" and "0 < n" and "cnt u d \<le> n" and "q_phase s h = Waiting"
  shows "\<exists>t k. quota_step (\<lambda>d. check d u p) (\<lambda>h. ins (row h)) (cnt u) s t \<and>
    q_phase s k \<noteq> q_phase t k \<and> (q_lock s = None \<longrightarrow> k = h)"
proof (cases "q_lock s")
  case None
  show ?thesis
  proof (cases "check (q_db s) u p")
    case (Inl e)
    from quota_step.refuse [of s h "\<lambda>d. check d u p" e] None Inl assms(5) show ?thesis
      by (intro exI [of _ "s\<lparr>q_phase := (q_phase s)(h := Refused)\<rparr>"] exI [of _ h]) simp
  next
    case (Inr v)
    from quota_step.admit [of s h "\<lambda>d. check d u p"] None Inr assms(5) show ?thesis
      by (intro exI [of _ "s\<lparr>q_lock := Some h, q_phase := (q_phase s)(h := Admitted)\<rparr>"] exI [of _ h]) simp
  qed
next
  case (Some k)
  with reachable_keeps_limit [OF assms(1-4)] have "q_phase s k = Admitted" by blast
  with quota_step.rollback [of s k] Some show ?thesis
    by (intro exI [of _ "s\<lparr>q_lock := None, q_phase := (q_phase s)(k := Refused)\<rparr>"] exI [of _ k]) simp
qed

end

definition add_source :: "source \<Rightarrow> db \<Rightarrow> db" where
  "add_source r d = d\<lparr>sources := sources d @ [r]\<rparr>"

definition add_article :: "article \<Rightarrow> db \<Rightarrow> db" where
  "add_article r d = d\<lparr>articles := articles d @ [r]\<rparr>"

definition add_share :: "share_link \<Rightarrow> db \<Rightarrow> db" where
  "add_share r d = d\<lparr>share_links := share_links d @ [r]\<rparr>"

lemmas check_defs = check_limit_def check_source_quota_def check_article_quota_def check_share_quota_def
lemmas count_defs = count_sources_def count_articles_def count_shares_def add_source_def add_article_def add_share_def

interpretation source_quota: counted_resource count_sources pln_max_sources check_source_quota add_source
  by unfold_locales (auto simp: check_defs count_defs select_Cons)

interpretation article_quota: counted_resource count_articles pln_max_articles check_article_quota add_article
  by unfold_locales (auto simp: check_defs count_defs select_Cons)

interpretation share_quota: counted_resource count_shares pln_max_active_shares check_share_quota add_share
  by unfold_locales (auto simp: check_defs count_defs select_Cons)

definition source_run :: "string \<Rightarrow> plan \<Rightarrow> (nat \<Rightarrow> source) \<Rightarrow> qsys \<Rightarrow> qsys \<Rightarrow> bool" where
  "source_run u p row s t \<longleftrightarrow> quota_step (\<lambda>d. check_source_quota d u p) (\<lambda>h. add_source (row h)) (count_sources u) s t"

definition article_run :: "string \<Rightarrow> plan \<Rightarrow> (nat \<Rightarrow> article) \<Rightarrow> qsys \<Rightarrow> qsys \<Rightarrow> bool" where
  "article_run u p row s t \<longleftrightarrow> quota_step (\<lambda>d. check_article_quota d u p) (\<lambda>h. add_article (row h)) (count_articles u) s t"

definition share_run :: "string \<Rightarrow> plan \<Rightarrow> (nat \<Rightarrow> share_link) \<Rightarrow> qsys \<Rightarrow> qsys \<Rightarrow> bool" where
  "share_run u p row s t \<longleftrightarrow> quota_step (\<lambda>d. check_share_quota d u p) (\<lambda>h. add_share (row h)) (count_shares u) s t"

lemma run_eqs:
  "source_run u p row = quota_step (\<lambda>d. check_source_quota d u p) (\<lambda>h. add_source (row h)) (count_sources u)"
  "article_run u p arow = quota_step (\<lambda>d. check_article_quota d u p) (\<lambda>h. add_article (arow h)) (count_articles u)"
  "share_run u p srow = quota_step (\<lambda>d. check_share_quota d u p) (\<lambda>h. add_share (srow h)) (count_shares u)"
  by (intro ext, simp add: source_run_def article_run_def share_run_def)+

section \<open>Properties\<close>


text \<open>
  The same for articles and for active share links: in every reachable state the count is
  within the limit of the plan.
\<close>

lemma article_share_quota_hold:
  assumes "(article_run u p arow)\<^sup>*\<^sup>* (quota_start d) s" and "pln_max_articles p = Some n" and "0 < n"
    and "count_articles u d \<le> n"
    and "(share_run u p srow)\<^sup>*\<^sup>* (quota_start d) t" and "pln_max_active_shares p = Some m" and "0 < m"
    and "count_shares u d \<le> m"
  shows "count_articles u (q_db s) \<le> n \<and> count_shares u (q_db t) \<le> m"
  using article_quota.reachable_keeps_limit [OF assms(1) [unfolded run_eqs] assms(2-4)]
    share_quota.reachable_keeps_limit [OF assms(5) [unfolded run_eqs] assms(6-8)]
  by simp

lemma in_force_iff: "in_force now u \<longleftrightarrow> (\<forall>t. usr_plan_effective_until u = Some t \<longrightarrow> now < t)"
  by (auto simp: in_force_def split: option.splits)

lemma one_or_none_by_key:
  assumes "distinct (map key rows)"
  shows "one_or_none (select (\<lambda>r. key r = k) rows) = ok (get_by key k rows)"
proof (cases "get_by key k rows")
  case None
  then have "select (\<lambda>r. key r = k) rows = []" by (auto simp: get_by_None select_empty_iff)
  with None show ?thesis by (simp add: one_or_none_def)
next
  case (Some r)
  then have "select (\<lambda>x. key x = key r) rows = [r]" "key r = k"
    using get_by_Some [OF Some] assms by (auto intro!: select_distinct_key)
  with Some show ?thesis by (simp add: one_or_none_def)
qed

lemma get_effective_plan_known:
  assumes "distinct (map usr_id (users d))" and "distinct (map pln_id (plans d))" and "u \<in> set (users d)"
  shows "get_effective_plan now d (usr_id u) =
    (case usr_plan_id u of
       None \<Rightarrow> default_plan d
     | Some pid \<Rightarrow> if pid \<noteq> [] \<and> in_force now u
                    then (case get_by pln_id pid (plans d) of Some p \<Rightarrow> ok p | None \<Rightarrow> default_plan d)
                    else default_plan d)"
  using assms unfolding get_effective_plan_def one_or_none_by_key [OF assms(1)] one_or_none_by_key [OF assms(2)]
  by (simp add: get_by_distinct split: option.split)

text \<open>
  The plan in force: for a known user, with unique keys and a single default plan, the
  lookup never fails; it is the user's plan exactly while \<open>plan_effective_until\<close> is absent or in the
  future and the plan row exists, and the default plan otherwise.
\<close>

lemma get_effective_plan_correct:
  assumes "keys_ok d" and "select pln_is_default (plans d) = [p0]" and "u \<in> set (users d)"
  shows "get_effective_plan now d (usr_id u) =
    ok (case usr_plan_id u of
          None \<Rightarrow> p0
        | Some pid \<Rightarrow> if pid \<noteq> [] \<and> (\<forall>t. usr_plan_effective_until u = Some t \<longrightarrow> now < t)
                       then (case get_by pln_id pid (plans d) of Some p \<Rightarrow> p | None \<Rightarrow> p0) else p0)"
proof -
  have "default_plan d = ok p0" using assms(2) by (simp add: default_plan_def one_def)
  moreover have "distinct (map usr_id (users d))" "distinct (map pln_id (plans d))"
    using assms(1) by (simp_all add: keys_ok_def)
  ultimately show ?thesis
    unfolding in_force_iff [symmetric]
    using get_effective_plan_known [OF _ _ assms(3), of now] by (simp split: option.split)
qed

section \<open>Daily queries\<close>

fun ask_queries :: "datetime \<Rightarrow> string \<Rightarrow> plan \<Rightarrow> nat \<Rightarrow> db \<Rightarrow> db \<times> nat" where
  "ask_queries now u p 0 d = (d, 0)"
| "ask_queries now u p (Suc k) d =
     (case check_query_quota now u p d of
        Inr d' \<Rightarrow> (let (d'', a) = ask_queries now u p k d' in (d'', a + 1))
      | Inl e \<Rightarrow> ask_queries now u p k d)"

lemma day_count_upsert: "day_count u day (upsert_day u day qs) = day_count u day qs"
  by (cases "select (is_day_row u day) qs")
    (simp_all add: day_count_def upsert_day_def first_of_def is_day_row_def select_Cons)

lemma day_count_bump:
  assumes "select (is_day_row u day) qs \<noteq> []"
  shows "day_count u day (update_where (is_day_row u day) (\<lambda>q. q\<lparr>qc_count := qc_count q + 1\<rparr>) qs) = day_count u day qs + 1"
  using assms
proof (induction qs)
  case (Cons q qs)
  show ?case
  proof (cases "is_day_row u day q")
    case True
    then show ?thesis by (simp add: day_count_def first_of_def select_Cons update_where_def is_day_row_def)
  next
    case False
    with Cons show ?thesis by (simp add: day_count_def select_Cons update_where_def)
  qed
qed simp

lemma upsert_day_row: "select (is_day_row u day) (upsert_day u day qs) \<noteq> []"
  by (simp add: upsert_day_def is_day_row_def select_Cons)

lemma check_query_quota_cases:
  assumes "pln_max_queries_per_day p = Some n" and "n \<noteq> 0"
  shows "check_query_quota now u p d =
    (let c = day_count u (date_of now) (query_counts d) in
     if n \<le> c then raise (QuotaExceededError ''query'' c n)
     else ok (d\<lparr>query_counts := update_where (is_day_row u (date_of now)) (\<lambda>q. q\<lparr>qc_count := qc_count q + 1\<rparr>)
                 (upsert_day u (date_of now) (query_counts d))\<rparr>))"
  using assms by (simp add: check_query_quota_def day_count_upsert Let_def)

lemma check_query_quota_counts:
  assumes "check_query_quota now u p d = ok d'" and "pln_max_queries_per_day p = Some n" and "n \<noteq> 0"
  shows "day_count u (date_of now) (query_counts d') = day_count u (date_of now) (query_counts d) + 1"
  using assms day_count_bump [OF upsert_day_row [of u "date_of now" "query_counts d"]]
  by (auto simp: check_query_quota_cases day_count_upsert Let_def split: if_splits)

lemma select_upsert_other:
  "(u, day) \<noteq> (u', day') \<Longrightarrow> select (is_day_row u' day') (upsert_day u day qs) = select (is_day_row u' day') qs"
  by (auto simp: upsert_day_def is_day_row_def select_Cons)

lemma check_query_quota_others:
  assumes "check_query_quota now u p d = ok d'" and "(u, date_of now) \<noteq> (u', day')"
  shows "day_count u' day' (query_counts d') = day_count u' day' (query_counts d)"
proof -
  have "select (is_day_row u' day') (query_counts d') = select (is_day_row u' day') (query_counts d)"
  proof (cases "d' = d")
    case False
    then have d': "query_counts d' = update_where (is_day_row u (date_of now)) (\<lambda>q. q\<lparr>qc_count := qc_count q + 1\<rparr>)
        (upsert_day u (date_of now) (query_counts d))"
      using assms(1) by (auto simp: check_query_quota_def Let_def split: option.splits if_splits)
    have "select (is_day_row u' day') (query_counts d') =
        select (is_day_row u' day') (upsert_day u (date_of now) (query_counts d))"
      unfolding d' by (rule select_update_other) (use assms(2) in \<open>auto simp: is_day_row_def\<close>)
    with select_upsert_other [OF assms(2)] show ?thesis by simp
  qed simp
  then show ?thesis by (simp add: day_count_def)
qed

text \<open>
  The daily query quota is exact: of \<open>k\<close> requests made on one day precisely as many are
  admitted as the limit leaves, the counter advances by that number, it never passes the limit, and
  the counters of other users and other days do not move.
\<close>

lemma query_quota_exact:
  assumes "pln_max_queries_per_day p = Some n" and "0 < n"
    and "day_count u (date_of now) (query_counts d) \<le> n"
    and "ask_queries now u p k d = (d', admitted)"
  shows "int admitted = min (int k) (n - day_count u (date_of now) (query_counts d)) \<and>
    day_count u (date_of now) (query_counts d') = day_count u (date_of now) (query_counts d) + int admitted \<and>
    (\<forall>u' day'. (u', day') \<noteq> (u, date_of now) \<longrightarrow>
       day_count u' day' (query_counts d') = day_count u' day' (query_counts d))"
  using assms(3,4)
proof (induction k arbitrary: d admitted)
  case (Suc k)
  let ?c = "\<lambda>d. day_count u (date_of now) (query_counts d)"
  show ?case
  proof (cases "check_query_quota now u p d")
    case (Inl e)
    with assms(1,2) have "n \<le> ?c d" by (auto simp: check_query_quota_cases Let_def split: if_splits)
    moreover from Inl Suc.prems have "ask_queries now u p k d = (d', admitted)" by simp
    ultimately show ?thesis using Suc.IH Suc.prems(1) by fastforce
  next
    case (Inr d1)
    then have bump: "?c d1 = ?c d + 1" using assms(1,2) by (intro check_query_quota_counts) auto
    from Inr assms(1,2) have lt: "?c d < n" by (auto simp: check_query_quota_cases Let_def split: if_splits)
    from Inr Suc.prems obtain a where a: "ask_queries now u p k d1 = (d', a)" "admitted = a + 1"
      by (auto split: prod.splits)
    have "?c d1 \<le> n" using bump lt by simp
    note IH = Suc.IH [OF this a(1)]
    have "day_count u' day' (query_counts d1) = day_count u' day' (query_counts d)"
      if "(u', day') \<noteq> (u, date_of now)" for u' day'
      by (rule check_query_quota_others [OF Inr]) (use that in auto)
    with IH bump a(2) show ?thesis by auto
  qed
qed (use assms in auto)

section \<open>Storage accounting\<close>

text \<open>
  Storage of a user without a usage row is never accounted: committing any sequence of byte
  counts leaves the database unchanged, so the storage check never refuses. (No code path inserts a
  usage row; only the migration that introduced billing wrote rows for the users of that time.)
\<close>

lemma storage_unaccounted_without_row:
  assumes "\<forall>s \<in> set (storage_usages d). stu_user_id s \<noteq> u"
  shows "foldl (\<lambda>d (t, b). commit_storage t u b d) d uploads = d \<and> check_storage_quota d u plan = ok ()"
proof -
  have c: "commit_storage t u b d = d" for t b
    using assms by (simp add: commit_storage_def update_where_def map_idI)
  have "foldl (\<lambda>d (t, b). commit_storage t u b d) d uploads = d"
    by (induction uploads) (auto simp: c)
  moreover have "select (\<lambda>s. stu_user_id s = u) (storage_usages d) = []"
    using assms by (simp add: select_empty_iff)
  then have "check_storage_quota d u plan = ok ()"
    by (simp add: check_storage_quota_def reserve_storage_def one_or_none_def split: option.split)
  ultimately show ?thesis ..
qed

section \<open>Spend cap\<close>

definition ex_cost :: "rat \<Rightarrow> cost_log" where
  "ex_cost usd = \<lparr>cl_id = ''c1'', cl_user_id = ''u1'', cl_provider = OPENAI, cl_model = ''m'', cl_task_type = T_QA,
     cl_input_tokens = 1, cl_output_tokens = 1, cl_cost_usd = usd, cl_latency_ms = 0, cl_job_id = None, cl_created_at = 0\<rparr>"

definition ex_plan :: plan where
  "ex_plan = \<lparr>pln_id = ''p1'', pln_name = ''free'', pln_display_name = ''Free'', pln_price_cents = 0,
     pln_billing_interval = None, pln_max_sources = Some 1, pln_max_articles = Some 1,
     pln_max_queries_per_day = Some 2, pln_max_storage_bytes = Some 100, pln_max_active_shares = Some 1,
     pln_daily_llm_spend_cap_cents = Some 29, pln_allowed_exports = [''markdown''], pln_mcp_enabled = False,
     pln_llm_provider = ''openai_compatible'', pln_llm_model = ''gpt-4o-mini'', pln_byok_allowed = False,
     pln_is_default = True, pln_is_active = True, pln_sort_order = 0, pln_lemon_squeezy_variant_id = None,
     pln_created_at = 0, pln_updated_at = 0\<rparr>"

text \<open>
  The spend cap compares whole cents after truncating the binary product: a user who has
  spent 0.29 dollars today counts as 28 cents and is let through under a cap of 29 cents.
\<close>

lemma spend_cap_truncates:
  "today_cents 0 ''u1'' (empty_db\<lparr>cost_logs := [ex_cost (fl (29 / 100))]\<rparr>) = 28 \<and>
   check_daily_llm_spend 0 (empty_db\<lparr>cost_logs := [ex_cost (fl (29 / 100))]\<rparr>) ''u1'' ex_plan = ok ()"
  by code_simp

section \<open>Witnesses\<close>

definition ex_source :: "string \<Rightarrow> source" where
  "ex_source sid = \<lparr>src_id = sid, src_user_id = ''u1'', src_source_type = S_TEXT, src_source_url = None,
     src_title = None, src_author = None, src_published_date = None, src_status = PENDING, src_ingested_at = 0,
     src_compiled_at = None, src_token_count = None, src_error_message = None, src_file_path = None,
     src_clean_text = None, src_content_hash = None\<rparr>"

definition ex_share :: share_link where
  "ex_share = \<lparr>sl_id = ''l1'', sl_user_id = ''u1'', sl_article_id = ''a1'', sl_token = ''t1'', sl_created_at = 0,
     sl_expires_at = None, sl_revoked = False, sl_view_count = 0, sl_last_viewed_at = None\<rparr>"

definition ex_user :: user where
  "ex_user = \<lparr>usr_id = ''u1'', usr_email = ''e'', usr_name = None, usr_avatar_url = None,
     usr_auth_provider = ''google'', usr_auth_provider_id = ''g1'', usr_is_admin = False,
     usr_plan_id = Some ''p2'', usr_plan_effective_until = Some 10, usr_lemon_squeezy_customer_id = None,
     usr_created_at = 0, usr_updated_at = 0\<rparr>"

definition admitted :: "qsys \<Rightarrow> qsys" where
  "admitted s = s\<lparr>q_lock := Some 0, q_phase := (q_phase s)(0 := Admitted)\<rparr>"

definition committed :: "(db \<Rightarrow> db) \<Rightarrow> qsys \<Rightarrow> qsys" where
  "committed f s = s\<lparr>q_db := f (q_db s), q_lock := None, q_phase := (q_phase s)(0 := Committed)\<rparr>"

lemma two_step_run:
  assumes "check d = ok ()"
  shows "(quota_step check insert_row cnt)\<^sup>*\<^sup>* (quota_start d) (committed (insert_row 0) (admitted (quota_start d)))"
proof -
  have "quota_step check insert_row cnt (quota_start d) (admitted (quota_start d))"
    unfolding admitted_def by (rule quota_step.admit) (simp_all add: quota_start_def assms)
  moreover have "quota_step check insert_row cnt (admitted (quota_start d)) (committed (insert_row 0) (admitted (quota_start d)))"
    unfolding committed_def by (rule quota_step.commit) (simp_all add: admitted_def)
  ultimately show ?thesis by (meson converse_rtranclp_into_rtranclp rtranclp.rtrancl_refl)
qed

lemmas ex_run_defs = committed_def admitted_def quota_start_def count_defs select_Cons


lemma article_share_quota_hold_witness:
  "count_shares ''u1'' (q_db (committed (add_share ex_share) (admitted (quota_start empty_db)))) \<le> 1"
proof -
  have "check_share_quota empty_db ''u1'' ex_plan = ok ()" by code_simp
  with two_step_run [of "\<lambda>d. check_share_quota d ''u1'' ex_plan" empty_db "\<lambda>h. add_share ex_share" "count_shares ''u1''"]
  have run: "(share_run ''u1'' ex_plan (\<lambda>_. ex_share))\<^sup>*\<^sup>* (quota_start empty_db)
      (committed (add_share ex_share) (admitted (quota_start empty_db)))"
    by (simp add: run_eqs)
  have plan: "pln_max_articles ex_plan = Some 1" "pln_max_active_shares ex_plan = Some 1"
    by (simp_all add: ex_plan_def)
  have zero: "count_articles ''u1'' empty_db \<le> 1" "count_shares ''u1'' empty_db \<le> 1"
    by (simp_all add: count_articles_def count_shares_def empty_db_def)
  show ?thesis
    using article_share_quota_hold [OF rtranclp.rtrancl_refl plan(1) _ zero(1) run plan(2) _ zero(2)] by simp
qed

lemma get_effective_plan_correct_witness:
  "get_effective_plan 5 (empty_db\<lparr>users := [ex_user], plans := [ex_plan, ex_plan\<lparr>pln_id := ''p2'', pln_name := ''pro'', pln_is_default := False\<rparr>]\<rparr>) ''u1'' =
     ok (ex_plan\<lparr>pln_id := ''p2'', pln_name := ''pro'', pln_is_default := False\<rparr>) \<and>
   get_effective_plan 10 (empty_db\<lparr>users := [ex_user], plans := [ex_plan]\<rparr>) ''u1'' = ok ex_plan"
  using get_effective_plan_correct [of "empty_db\<lparr>users := [ex_user], plans := [ex_plan, ex_plan\<lparr>pln_id := ''p2'', pln_name := ''pro'', pln_is_default := False\<rparr>]\<rparr>" ex_plan ex_user 5]
    get_effective_plan_correct [of "empty_db\<lparr>users := [ex_user], plans := [ex_plan]\<rparr>" ex_plan ex_user 10]
  by (simp add: keys_ok_def empty_db_def ex_user_def ex_plan_def select_def get_by_def)

lemma query_quota_exact_witness: "snd (ask_queries 0 ''u1'' ex_plan 5 empty_db) = 2"
proof -
  obtain d' a where r: "ask_queries 0 ''u1'' ex_plan 5 empty_db = (d', a)" by (cases "ask_queries 0 ''u1'' ex_plan 5 empty_db")
  then have "int a = 2"
    using query_quota_exact [of ex_plan 2 "''u1''" 0 empty_db 5 d' a]
    by (simp add: ex_plan_def day_count_def empty_db_def first_of_def)
  with r show ?thesis by simp
qed

lemma storage_unaccounted_without_row_witness:
  "foldl (\<lambda>d (t, b). commit_storage t ''u1'' b d) empty_db [(0, 1000), (1, 5000)] = empty_db"
  using storage_unaccounted_without_row [of empty_db "''u1''" "[(0, 1000), (1, 5000)]"] by (simp add: empty_db_def)

end
