(* ===== verification/Json.thy ===== *)
theory Json
  imports Prelude PyStr
begin

text \<open>
  Decoded JSON as the Python code sees it: what \<open>json.loads\<close> returns, and the operations the handlers
  apply to it: \<open>.get\<close> and indexing on dictionaries with the exceptions they raise, truthiness and
  \<open>str\<close>. A dictionary is the association list of its items. Numbers are integers: no handler that
  is modelled reads a fractional number. \<open>driver_text\<close> and \<open>driver_int\<close> are the type checks of the
  database driver when a decoded value is bound to a text or integer column.
\<close>

datatype json =
    JNull
  | JBool bool
  | JInt int
  | JStr string
  | JList "json list"
  | JObj "(string \<times> json) list"

fun truthy :: "json \<Rightarrow> bool" where
  "truthy JNull = False"
| "truthy (JBool b) = b"
| "truthy (JInt i) = (i \<noteq> 0)"
| "truthy (JStr s) = (s \<noteq> [])"
| "truthy (JList xs) = (xs \<noteq> [])"
| "truthy (JObj kvs) = (kvs \<noteq> [])"

definition show_int :: "int \<Rightarrow> string" where
  "show_int i = (if i < 0 then ''-'' @ show_nat (nat (- i)) else show_nat (nat i))"

text \<open>\<open>str(x)\<close> for scalars; a container in the place of a scalar is printed as a placeholder.\<close>

fun py_str :: "json \<Rightarrow> string" where
  "py_str JNull = ''None''"
| "py_str (JBool b) = (if b then ''True'' else ''False'')"
| "py_str (JInt i) = show_int i"
| "py_str (JStr s) = s"
| "py_str (JList _) = ''[...]''"
| "py_str (JObj _) = ''{...}''"

fun jget :: "json \<Rightarrow> string \<Rightarrow> json \<Rightarrow> json result" where
  "jget (JObj kvs) k dflt = ok (case map_of kvs k of Some v \<Rightarrow> v | None \<Rightarrow> dflt)"
| "jget _ k dflt = raise (AttributeError ''get'')"

fun jindex :: "json \<Rightarrow> string \<Rightarrow> json result" where
  "jindex (JObj kvs) k = (case map_of kvs k of Some v \<Rightarrow> ok v | None \<Rightarrow> raise (KeyError k))"
| "jindex _ k = raise (TypeError k)"

text \<open>\<open>for x in v\<close> on a decoded value.\<close>

fun json_items :: "json \<Rightarrow> json list result" where
  "json_items (JList xs) = ok xs"
| "json_items (JObj kvs) = ok (map (JStr \<circ> fst) kvs)"
| "json_items (JStr s) = ok (map (\<lambda>c. JStr [c]) s)"
| "json_items _ = raise (TypeError ''not iterable'')"

fun driver_text :: "json \<Rightarrow> string result" where
  "driver_text (JStr s) = ok s"
| "driver_text _ = raise (TypeError ''expected str'')"

fun driver_int :: "json \<Rightarrow> int result" where
  "driver_int (JInt i) = ok i"
| "driver_int _ = raise (TypeError ''expected int'')"

lemma driver_text_ok: "driver_text j = ok s \<longleftrightarrow> j = JStr s"
  by (cases j) auto

lemma driver_int_ok: "driver_int j = ok i \<longleftrightarrow> j = JInt i"
  by (cases j) auto

end
