(* ===== verification/Billing.thy ===== *)
theory Billing
  imports Quota Json
begin

text \<open>
  \<^verbatim>\<open>src/src/wikimind/services/billing.py\<close> and the webhook of
  \<^verbatim>\<open>src/src/wikimind/api/routes/billing.py\<close>: subscriptions of the payment provider mapped to plans.
  Parameters: \<open>mac\<close> (HMAC-SHA256 hex digest of secret and body), \<open>sha\<close> (SHA-256 hex digest), \<open>loads\<close>
  (\<open>json.loads\<close>, with its exception), \<open>parse_iso\<close> (\<open>datetime.fromisoformat\<close>) and the answers of the
  provider's HTTP API. Nothing is assumed about them. An ORM object is its row: assigning to it
  updates the row, so a handler receives the identifier of the user and works on the database.
  \<open>billing_enabled\<close> is the setting of the same name.
\<close>

section \<open>Entitlements\<close>

definition verify_webhook_signature :: "(string \<Rightarrow> string \<Rightarrow> string) \<Rightarrow> string \<Rightarrow> string \<Rightarrow> string \<Rightarrow> bool" where
  "verify_webhook_signature mac payload signature secret \<longleftrightarrow> mac secret payload = signature"

definition set_user_plan :: "string \<Rightarrow> string \<Rightarrow> datetime option \<Rightarrow> db \<Rightarrow> db" where
  "set_user_plan user_id plan_id until d =
     d\<lparr>users := update_where (\<lambda>u. usr_id u = user_id)
        (\<lambda>u. u\<lparr>usr_plan_id := Some plan_id, usr_plan_effective_until := until\<rparr>) (users d)\<rparr>"

definition active_status :: "string \<Rightarrow> bool" where
  "active_status s \<longleftrightarrow> s \<in> {''active'', ''on_trial'', ''past_due''}"

definition ending_status :: "string \<Rightarrow> bool" where
  "ending_status s \<longleftrightarrow> s \<in> {''cancelled'', ''paused''}"

definition ended_status :: "string \<Rightarrow> bool" where
  "ended_status s \<longleftrightarrow> s \<in> {''expired'', ''unpaid''}"

definition apply_entitlement :: "string \<Rightarrow> string \<Rightarrow> string \<Rightarrow> datetime option \<Rightarrow> db \<Rightarrow> db result" where
  "apply_entitlement user_id ls_status plan_name period_end d =
     bindR (one_or_none (select (\<lambda>p. pln_name p = plan_name) (plans d))) (\<lambda>plan.
       case plan of
         None \<Rightarrow> ok d
       | Some p \<Rightarrow>
         bindR (default_plan d) (\<lambda>dflt.
           if active_status ls_status then ok (set_user_plan user_id (pln_id p) None d)
           else if ending_status ls_status then ok (set_user_plan user_id (pln_id p) period_end d)
           else if ended_status ls_status then ok (set_user_plan user_id (pln_id dflt) None d)
           else ok d))"

record usage_stats =
  us_sources :: int
  us_articles :: int
  us_storage_bytes :: int
  us_queries_today :: int
  us_active_shares :: int
  us_llm_spend_cents_today :: int

definition get_usage_stats :: "datetime \<Rightarrow> db \<Rightarrow> string \<Rightarrow> usage_stats result" where
  "get_usage_stats now d user_id =
     bindR (one_or_none (select (\<lambda>s. stu_user_id s = user_id) (storage_usages d))) (\<lambda>storage.
       ok \<lparr>us_sources = count_sources user_id d, us_articles = count_articles user_id d,
           us_storage_bytes = (case storage of Some s \<Rightarrow> stu_total_bytes s | None \<Rightarrow> 0),
           us_queries_today = day_count user_id (date_of now) (query_counts d),
           us_active_shares = count_shares user_id d,
           us_llm_spend_cents_today = today_cents now user_id d\<rparr>)"

section \<open>Price synchronisation\<close>

definition set_price :: "datetime \<Rightarrow> string \<Rightarrow> int \<Rightarrow> db \<Rightarrow> db" where
  "set_price now plan_id price d =
     d\<lparr>plans := update_where (\<lambda>p. pln_id p = plan_id) (\<lambda>p. p\<lparr>pln_price_cents := price, pln_updated_at := now\<rparr>) (plans d)\<rparr>"

definition plan_of_variant :: "string \<Rightarrow> db \<Rightarrow> plan option result" where
  "plan_of_variant variant_id d = one_or_none (select (\<lambda>p. pln_lemon_squeezy_variant_id p = Some variant_id) (plans d))"

definition handle_variant_updated :: "datetime \<Rightarrow> json \<Rightarrow> db \<Rightarrow> (db \<times> bool) result" where
  "handle_variant_updated now payload d =
     bindR (jget payload ''data'' (JObj [])) (\<lambda>data.
     bindR (jget data ''id'' (JStr [])) (\<lambda>vid.
     bindR (jget data ''attributes'' (JObj [])) (\<lambda>attrs.
     bindR (jget attrs ''price'' JNull) (\<lambda>new_price.
       if py_str vid = [] \<or> new_price = JNull then ok (d, False)
       else bindR (plan_of_variant (py_str vid) d) (\<lambda>plan.
         case plan of
           None \<Rightarrow> ok (d, False)
         | Some p \<Rightarrow> if JInt (pln_price_cents p) = new_price then ok (d, False)
                     else bindR (driver_int new_price) (\<lambda>price. ok (set_price now (pln_id p) price d, True)))))))"

definition product_step :: "datetime \<Rightarrow> (db \<times> nat) result \<Rightarrow> json \<Rightarrow> (db \<times> nat) result" where
  "product_step now st variant =
     bindR st (\<lambda>(d, updated).
     bindR (jget variant ''id'' (JStr [])) (\<lambda>vid.
     bindR (jget variant ''attributes'' (JObj [])) (\<lambda>attrs.
     bindR (jget attrs ''price'' JNull) (\<lambda>price.
       if py_str vid = [] \<or> price = JNull then ok (d, updated)
       else bindR (plan_of_variant (py_str vid) d) (\<lambda>plan.
         case plan of
           None \<Rightarrow> ok (d, updated)
         | Some p \<Rightarrow> if JInt (pln_price_cents p) \<noteq> price
                     then bindR (driver_int price) (\<lambda>c. ok (set_price now (pln_id p) c d, updated + 1))
                     else ok (d, updated))))))"

definition handle_product_updated ::
  "(string \<Rightarrow> json list result) \<Rightarrow> datetime \<Rightarrow> json \<Rightarrow> db \<Rightarrow> (db \<times> nat) result" where
  "handle_product_updated list_variants now payload d =
     bindR (jget payload ''data'' (JObj [])) (\<lambda>data.
     bindR (jget data ''id'' (JStr [])) (\<lambda>pid.
       if py_str pid = [] then ok (d, 0)
       else (case list_variants (py_str pid) of
               Inl e \<Rightarrow> ok (d, 0)
             | Inr variants \<Rightarrow> foldl (product_step now) (ok (d, 0)) variants)))"

text \<open>
  The body of the \<open>try\<close> block for one plan. The price of the API is bound to the column at the
  final commit, so a non-integer price fails there and not inside the \<open>try\<close>.
\<close>

definition remote_price :: "(string \<Rightarrow> json result) \<Rightarrow> plan \<Rightarrow> json result" where
  "remote_price get_variant p =
     bindR (get_variant (case pln_lemon_squeezy_variant_id p of Some v \<Rightarrow> v | None \<Rightarrow> [])) (\<lambda>variant_data.
     bindR (jindex variant_data ''attributes'') (\<lambda>attrs. jindex attrs ''price''))"

definition reconcile_price_step ::
  "(string \<Rightarrow> json result) \<Rightarrow> datetime \<Rightarrow> (db \<times> nat) result \<Rightarrow> plan \<Rightarrow> (db \<times> nat) result" where
  "reconcile_price_step get_variant now st p =
     bindR st (\<lambda>(d, corrected).
       case remote_price get_variant p of
         Inl e \<Rightarrow> ok (d, corrected)
       | Inr price \<Rightarrow>
           if JInt (pln_price_cents p) \<noteq> price
           then bindR (driver_int price) (\<lambda>c. ok (set_price now (pln_id p) c d, corrected + 1))
           else ok (d, corrected))"

definition reconcile_prices ::
  "bool \<Rightarrow> (string \<Rightarrow> json result) \<Rightarrow> datetime \<Rightarrow> db \<Rightarrow> (db \<times> nat) result" where
  "reconcile_prices billing_enabled get_variant now d =
     (if \<not> billing_enabled then ok (d, 0)
      else foldl (reconcile_price_step get_variant now) (ok (d, 0))
             (select (\<lambda>p. pln_is_active p \<and> pln_lemon_squeezy_variant_id p \<noteq> None) (plans d)))"

section \<open>Subscription reconciliation\<close>

definition set_sub_status :: "datetime \<Rightarrow> string \<Rightarrow> string \<Rightarrow> db \<Rightarrow> db" where
  "set_sub_status now sid status d =
     d\<lparr>subscriptions := update_where (\<lambda>s. sub_id s = sid) (\<lambda>s. s\<lparr>sub_status := status, sub_updated_at := now\<rparr>) (subscriptions d)\<rparr>"

definition parse_ends_at :: "(string \<Rightarrow> datetime result) \<Rightarrow> json \<Rightarrow> datetime option result" where
  "parse_ends_at parse_iso ends_at =
     (if truthy ends_at then bindR (driver_text ends_at) (\<lambda>s. bindR (parse_iso s) (\<lambda>t. ok (Some t))) else ok None)"

text \<open>What the provider reports for a subscription, up to the first change of the session.\<close>

definition remote_subscription ::
  "(string \<Rightarrow> json result) \<Rightarrow> subscription \<Rightarrow> db \<Rightarrow> (json \<times> string \<times> user option \<times> string) result" where
  "remote_subscription fetch sub d =
     bindR (fetch (sub_lemon_squeezy_subscription_id sub)) (\<lambda>resp.
     bindR (jindex resp ''data'') (\<lambda>data.
     bindR (jindex data ''attributes'') (\<lambda>attrs.
     bindR (jindex attrs ''status'') (\<lambda>st.
     bindR (driver_text st) (\<lambda>ls_status.
     bindR (one_or_none (select (\<lambda>u. usr_id u = sub_user_id sub) (users d))) (\<lambda>user.
       case user of
         None \<Rightarrow> ok (attrs, ls_status, None, [])
       | Some u \<Rightarrow>
         bindR (jget attrs ''variant_id'' (JStr [])) (\<lambda>vid.
         bindR (plan_of_variant (py_str vid) d) (\<lambda>plan.
           ok (attrs, ls_status, Some u, case plan of Some p \<Rightarrow> pln_name p | None \<Rightarrow> ''pro'')))))))))"

text \<open>
  One turn of the loop: an exception skips to the next subscription but keeps a status change
  already made, since the session is not rolled back.
\<close>

definition reconcile_one ::
  "(string \<Rightarrow> json result) \<Rightarrow> (string \<Rightarrow> datetime result) \<Rightarrow> datetime \<Rightarrow> db \<times> nat \<Rightarrow> subscription \<Rightarrow> db \<times> nat" where
  "reconcile_one fetch parse_iso now st sub =
     (let (d, reconciled) = st in
      case remote_subscription fetch sub d of
        Inl e \<Rightarrow> (d, reconciled)
      | Inr (attrs, ls_status, None, plan_name) \<Rightarrow> (d, reconciled)
      | Inr (attrs, ls_status, Some u, plan_name) \<Rightarrow>
          (let d1 = (if sub_status sub \<noteq> ls_status then set_sub_status now (sub_id sub) ls_status d else d) in
           case bindR (jget attrs ''ends_at'' JNull) (\<lambda>ends_at.
                bindR (parse_ends_at parse_iso ends_at) (\<lambda>period_end.
                  apply_entitlement (usr_id u) ls_status plan_name period_end d1)) of
             Inl e \<Rightarrow> (d1, reconciled)
           | Inr d2 \<Rightarrow> (d2, reconciled + 1)))"

definition reconcile_subscriptions ::
  "bool \<Rightarrow> (string \<Rightarrow> json result) \<Rightarrow> (string \<Rightarrow> datetime result) \<Rightarrow> datetime \<Rightarrow> db \<Rightarrow> db \<times> nat" where
  "reconcile_subscriptions billing_enabled fetch parse_iso now d =
     (if \<not> billing_enabled then (d, 0)
      else foldl (reconcile_one fetch parse_iso now) (d, 0)
             (select (\<lambda>s. sub_status s \<in> {''active'', ''cancelled'', ''past_due'', ''on_trial'', ''paused''}) (subscriptions d)))"

section \<open>The webhook\<close>

definition resolve_user :: "json \<Rightarrow> json \<Rightarrow> db \<Rightarrow> user option result" where
  "resolve_user attrs custom_data d =
     bindR (jget custom_data ''user_id'' JNull) (\<lambda>uid0.
     bindR (if truthy uid0 then ok uid0
            else bindR (jget attrs ''customer_id'' (JStr [])) (\<lambda>cid.
              if py_str cid = [] then ok uid0
              else bindR (one_or_none (select (\<lambda>u. usr_lemon_squeezy_customer_id u = Some (py_str cid)) (users d))) (\<lambda>found.
                ok (case found of Some u \<Rightarrow> JStr (usr_id u) | None \<Rightarrow> uid0)))) (\<lambda>user_id.
       if \<not> truthy user_id then ok None
       else bindR (driver_text user_id) (\<lambda>uid. one_or_none (select (\<lambda>u. usr_id u = uid) (users d)))))"

definition subscription_key :: "json \<Rightarrow> json \<Rightarrow> string result" where
  "subscription_key attrs payload =
     bindR (jget attrs ''first_subscription_item'' (JObj [])) (\<lambda>item.
     bindR (jget item ''subscription_id'' (JStr [])) (\<lambda>sid.
       if py_str sid \<noteq> [] then ok (py_str sid)
       else bindR (jget payload ''data'' (JObj [])) (\<lambda>data.
            bindR (jget data ''id'' (JStr [])) (\<lambda>i. ok (py_str i)))))"

definition sub_by_key :: "string \<Rightarrow> db \<Rightarrow> subscription option result" where
  "sub_by_key k d = one_or_none (select (\<lambda>s. sub_lemon_squeezy_subscription_id s = k) (subscriptions d))"

definition handle_subscription_active ::
  "string \<Rightarrow> datetime \<Rightarrow> user \<Rightarrow> json \<Rightarrow> json \<Rightarrow> plan option \<Rightarrow> string \<Rightarrow> db \<Rightarrow> db result" where
  "handle_subscription_active fresh now user attrs payload plan plan_name d =
     bindR (subscription_key attrs payload) (\<lambda>k.
     bindR (jget attrs ''status'' (JStr [])) (\<lambda>st.
     bindR (jget attrs ''customer_id'' (JStr [])) (\<lambda>cid.
     bindR (sub_by_key k d) (\<lambda>sub.
     bindR (driver_text st) (\<lambda>status.
       let d1 = (case sub of
                   Some s \<Rightarrow> d\<lparr>subscriptions := update_where (\<lambda>x. sub_id x = sub_id s) (\<lambda>x. x\<lparr>sub_status := status\<rparr>) (subscriptions d)\<rparr>
                 | None \<Rightarrow> d\<lparr>subscriptions := subscriptions d @
                     [\<lparr>sub_id = fresh, sub_user_id = usr_id user,
                       sub_plan_id = (case plan of Some p \<Rightarrow> pln_id p | None \<Rightarrow> []),
                       sub_lemon_squeezy_subscription_id = k, sub_lemon_squeezy_customer_id = py_str cid,
                       sub_status = status, sub_cancel_at_period_end = False, sub_current_period_start = now,
                       sub_current_period_end = now, sub_created_at = now, sub_updated_at = now\<rparr>]\<rparr>)
       in apply_entitlement (usr_id user) status plan_name None d1)))))"

definition handle_subscription_cancelled ::
  "(string \<Rightarrow> datetime result) \<Rightarrow> user \<Rightarrow> json \<Rightarrow> json \<Rightarrow> string \<Rightarrow> db \<Rightarrow> db result" where
  "handle_subscription_cancelled parse_iso user attrs payload plan_name d =
     bindR (subscription_key attrs payload) (\<lambda>k.
     bindR (sub_by_key k d) (\<lambda>sub.
       let d1 = (case sub of
                   Some s \<Rightarrow> d\<lparr>subscriptions := update_where (\<lambda>x. sub_id x = sub_id s)
                               (\<lambda>x. x\<lparr>sub_status := ''cancelled'', sub_cancel_at_period_end := True\<rparr>) (subscriptions d)\<rparr>
                 | None \<Rightarrow> d)
       in bindR (jget attrs ''ends_at'' JNull) (\<lambda>ends_at.
          bindR (parse_ends_at parse_iso ends_at) (\<lambda>period_end.
            apply_entitlement (usr_id user) ''cancelled'' plan_name period_end d1))))"

definition handle_subscription_expired :: "user \<Rightarrow> json \<Rightarrow> json \<Rightarrow> string \<Rightarrow> db \<Rightarrow> db result" where
  "handle_subscription_expired user attrs payload plan_name d =
     bindR (subscription_key attrs payload) (\<lambda>k.
     bindR (sub_by_key k d) (\<lambda>sub.
       let d1 = (case sub of
                   Some s \<Rightarrow> d\<lparr>subscriptions := update_where (\<lambda>x. sub_id x = sub_id s)
                               (\<lambda>x. x\<lparr>sub_status := ''expired''\<rparr>) (subscriptions d)\<rparr>
                 | None \<Rightarrow> d)
       in apply_entitlement (usr_id user) ''expired'' plan_name None d1))"

text \<open>\<open>remember_customer\<close> is the assignment of a customer identifier to a user who has none.\<close>

definition remember_customer :: "user \<Rightarrow> string \<Rightarrow> db \<Rightarrow> db" where
  "remember_customer user cid d =
     (if cid \<noteq> [] \<and> (usr_lemon_squeezy_customer_id user = None \<or> usr_lemon_squeezy_customer_id user = Some [])
      then d\<lparr>users := update_where (\<lambda>u. usr_id u = usr_id user) (\<lambda>u. u\<lparr>usr_lemon_squeezy_customer_id := Some cid\<rparr>) (users d)\<rparr>
      else d)"

definition process_subscription_event ::
  "(string \<Rightarrow> datetime result) \<Rightarrow> string \<Rightarrow> datetime \<Rightarrow> string \<Rightarrow> json \<Rightarrow> json \<Rightarrow> user \<Rightarrow> db \<Rightarrow> db result" where
  "process_subscription_event parse_iso fresh now event_type payload attrs user d =
     bindR (jget attrs ''customer_id'' (JStr [])) (\<lambda>cid.
     let d1 = remember_customer user (py_str cid) d in
     bindR (jget attrs ''variant_id'' (JStr [])) (\<lambda>vid.
     bindR (plan_of_variant (py_str vid) d1) (\<lambda>plan.
       let plan_name = (case plan of Some p \<Rightarrow> pln_name p | None \<Rightarrow> ''pro'') in
       if event_type \<in> {''subscription_created'', ''subscription_updated'', ''subscription_resumed''}
       then handle_subscription_active fresh now user attrs payload plan plan_name d1
       else if event_type = ''subscription_cancelled'' then handle_subscription_cancelled parse_iso user attrs payload plan_name d1
       else if event_type = ''subscription_expired'' then handle_subscription_expired user attrs payload plan_name d1
       else ok d1)))"

definition process_webhook_event ::
  "(string \<Rightarrow> json list result) \<Rightarrow> (string \<Rightarrow> datetime result) \<Rightarrow> string \<Rightarrow> datetime \<Rightarrow> string \<Rightarrow> json \<Rightarrow> db \<Rightarrow> db result" where
  "process_webhook_event list_variants parse_iso fresh now event_type payload d =
     (if event_type = ''variant_updated'' then bindR (handle_variant_updated now payload d) (\<lambda>r. ok (fst r))
      else if event_type = ''product_updated'' then bindR (handle_product_updated list_variants now payload d) (\<lambda>r. ok (fst r))
      else
        bindR (jget payload ''data'' (JObj [])) (\<lambda>data.
        bindR (jget data ''attributes'' (JObj [])) (\<lambda>attrs.
        bindR (jget payload ''meta'' (JObj [])) (\<lambda>meta.
        bindR (jget meta ''custom_data'' (JObj [])) (\<lambda>custom_data.
        bindR (resolve_user attrs custom_data d) (\<lambda>user.
          case user of
            None \<Rightarrow> ok d
          | Some u \<Rightarrow> process_subscription_event parse_iso fresh now event_type payload attrs u d))))))"

text \<open>The decoded body with its event name and its event identifier.\<close>

definition webhook_envelope :: "(string \<Rightarrow> json result) \<Rightarrow> string \<Rightarrow> (json \<times> json \<times> string) result" where
  "webhook_envelope loads body =
     bindR (loads body) (\<lambda>payload.
     bindR (jget payload ''meta'' (JObj [])) (\<lambda>meta.
     bindR (jget meta ''event_name'' (JStr [])) (\<lambda>event_name.
     bindR (jget meta ''webhook_id'' (JStr [])) (\<lambda>webhook_id.
       if \<not> truthy webhook_id then raise (HTTPException 400 ''Missing webhook_id'')
       else bindR (driver_text webhook_id) (\<lambda>event_id. ok (payload, event_name, event_id))))))"

definition handle_webhook ::
  "(string \<Rightarrow> string \<Rightarrow> string) \<Rightarrow> (string \<Rightarrow> string) \<Rightarrow> (string \<Rightarrow> json result) \<Rightarrow> (string \<Rightarrow> json list result) \<Rightarrow>
   (string \<Rightarrow> datetime result) \<Rightarrow> string \<Rightarrow> string \<times> string \<Rightarrow> datetime \<Rightarrow> string \<Rightarrow> string \<Rightarrow> db \<Rightarrow> (db \<times> string) result" where
  "handle_webhook mac sha loads list_variants parse_iso secret fresh now body signature d =
     (if \<not> verify_webhook_signature mac body signature secret then raise (HTTPException 401 ''Invalid webhook signature'')
      else
        bindR (webhook_envelope loads body) (\<lambda>(payload, event_name, event_id).
        bindR (one_or_none (select (\<lambda>e. wh_lemon_squeezy_event_id e = event_id) (webhook_events d))) (\<lambda>existing.
          if existing \<noteq> None then ok (d, ''duplicate'')
          else
            bindR (driver_text event_name) (\<lambda>event_type.
            bindR (process_webhook_event list_variants parse_iso (snd fresh) now event_type payload
                     (d\<lparr>webhook_events := webhook_events d @
                         [\<lparr>wh_id = fst fresh, wh_lemon_squeezy_event_id = event_id, wh_event_type = event_type,
                           wh_processed_at = now, wh_payload_hash = sha body\<rparr>]\<rparr>)) (\<lambda>d'.
              ok (d', ''ok''))))))"

section \<open>What the handlers leave alone\<close>

lemma if_ok_cases:
  "(if a then ok x else if b then ok y else if c then ok z else ok w) = ok r \<Longrightarrow> r = x \<or> r = y \<or> r = z \<or> r = w"
  by (cases a; cases b; cases c) auto

lemma apply_entitlement_result:
  assumes "apply_entitlement uid st pn pe d = ok d'"
  shows "d' = d \<or> (\<exists>pid until. d' = set_user_plan uid pid until d)"
proof -
  obtain plan where "one_or_none (select (\<lambda>p. pln_name p = pn) (plans d)) = ok plan"
    using assms unfolding apply_entitlement_def bindR_eq_Inr by blast
  with assms show ?thesis
    unfolding apply_entitlement_def
    by (cases plan) (auto simp only: bindR_Inr bindR_eq_Inr option.case sum.inject dest!: if_ok_cases)
qed

lemma set_user_plan_frame [simp]:
  "webhook_events (set_user_plan uid pid until d) = webhook_events d"
  "plans (set_user_plan uid pid until d) = plans d"
  "subscriptions (set_user_plan uid pid until d) = subscriptions d"
  by (simp_all add: set_user_plan_def)

lemma apply_entitlement_frame:
  "apply_entitlement uid st pn pe d = ok d' \<Longrightarrow> webhook_events d' = webhook_events d \<and> plans d' = plans d \<and> subscriptions d' = subscriptions d"
  by (drule apply_entitlement_result) auto

lemma set_price_frame [simp]: "webhook_events (set_price now pid c d) = webhook_events d"
  by (simp add: set_price_def)

lemma product_fold_frame:
  "foldl (product_step now) r vs = ok (d', n) \<Longrightarrow> \<exists>d m. r = ok (d, m) \<and> webhook_events d' = webhook_events d"
proof (induction vs arbitrary: r)
  case (Cons v vs)
  then obtain d1 m where 1: "product_step now r v = ok (d1, m)" "webhook_events d' = webhook_events d1"
    by fastforce
  then show ?case
    by (auto simp: product_step_def res_simps split: if_splits option.splits prod.splits)
qed simp

lemma handle_variant_updated_frame: "handle_variant_updated now payload d = ok (d', b) \<Longrightarrow> webhook_events d' = webhook_events d"
  by (auto simp: handle_variant_updated_def res_simps split: if_splits option.splits)

lemma handle_product_updated_frame: "handle_product_updated lv now payload d = ok (d', n) \<Longrightarrow> webhook_events d' = webhook_events d"
  by (auto simp: handle_product_updated_def res_simps split: if_splits sum.splits dest!: product_fold_frame)

lemma remember_customer_frame [simp]: "webhook_events (remember_customer u cid d) = webhook_events d"
  by (simp add: remember_customer_def)

lemma handle_subscription_active_frame:
  "handle_subscription_active fresh now u attrs payload plan pn d = ok d' \<Longrightarrow> webhook_events d' = webhook_events d"
  unfolding handle_subscription_active_def bindR_eq_Inr Let_def
  by (elim exE conjE) (drule apply_entitlement_frame, simp split: option.splits)

lemma handle_subscription_cancelled_frame:
  "handle_subscription_cancelled parse_iso u attrs payload pn d = ok d' \<Longrightarrow> webhook_events d' = webhook_events d"
  unfolding handle_subscription_cancelled_def bindR_eq_Inr Let_def
  by (elim exE conjE) (drule apply_entitlement_frame, simp split: option.splits)

lemma handle_subscription_expired_frame:
  "handle_subscription_expired u attrs payload pn d = ok d' \<Longrightarrow> webhook_events d' = webhook_events d"
  unfolding handle_subscription_expired_def bindR_eq_Inr Let_def
  by (elim exE conjE) (drule apply_entitlement_frame, simp split: option.splits)

lemmas handle_subscription_frames =
  handle_subscription_active_frame handle_subscription_cancelled_frame handle_subscription_expired_frame

lemma if4_ok:
  "(if a then x else if b then y else if c then z else ok w) = ok r \<Longrightarrow> x = ok r \<or> y = ok r \<or> z = ok r \<or> w = r"
  by (cases a; cases b; cases c) auto

lemma process_subscription_event_frame:
  "process_subscription_event parse_iso fresh now et payload attrs u d = ok d' \<Longrightarrow> webhook_events d' = webhook_events d"
  unfolding process_subscription_event_def bindR_eq_Inr Let_def
  by (elim exE conjE) (drule if4_ok, auto dest!: handle_subscription_frames)

lemma process_webhook_event_frame:
  assumes "process_webhook_event lv parse_iso fresh now et payload d = ok d'"
  shows "webhook_events d' = webhook_events d"
proof (cases "et = ''variant_updated'' \<or> et = ''product_updated''")
  case True
  then show ?thesis
    using assms handle_variant_updated_frame handle_product_updated_frame
    by (force simp: process_webhook_event_def bindR_eq_Inr)
next
  case False
  then have "\<exists>attrs cd user. resolve_user attrs cd d = ok user \<and>
      (case user of None \<Rightarrow> ok d | Some u \<Rightarrow> process_subscription_event parse_iso fresh now et payload attrs u d) = ok d'"
    using assms by (auto simp: process_webhook_event_def bindR_eq_Inr)
  then show ?thesis
    by (auto split: option.splits dest: process_subscription_event_frame)
qed

text \<open>
  C5. A webhook takes effect only with a valid signature and at most once: if a delivery was
  answered, its signature was the MAC of the body, and any later delivery of the same body, with any
  clock and any answers of the provider, is reported as a duplicate and changes nothing.
\<close>

theorem webhook_authentic_once:
  assumes "handle_webhook mac sha loads list_variants parse_iso secret fresh now body signature d = ok (d', status)"
  shows "mac secret body = signature \<and>
    handle_webhook mac sha' loads list_variants' parse_iso' secret fresh' now' body signature d' = ok (d', ''duplicate'')"
proof -
  from assms have sig: "mac secret body = signature"
    by (auto simp: handle_webhook_def verify_webhook_signature_def split: if_splits)
  with assms obtain payload ev eid existing where
    p: "webhook_envelope loads body = ok (payload, ev, eid)"
      "one_or_none (select (\<lambda>e. wh_lemon_squeezy_event_id e = eid) (webhook_events d)) = ok existing"
    and out: "if existing \<noteq> None then d' = d else
      (\<exists>e. webhook_events d' = webhook_events d @ [e] \<and> wh_lemon_squeezy_event_id e = eid)"
    unfolding handle_webhook_def verify_webhook_signature_def
    by (auto simp: bindR_eq_Inr split: if_splits dest!: process_webhook_event_frame)
  have "\<exists>x. one_or_none (select (\<lambda>e. wh_lemon_squeezy_event_id e = eid) (webhook_events d')) = ok (Some x)"
    using out p(2) by (cases existing) (auto simp: query_simps select_Cons)
  with sig p show ?thesis
    by (auto simp: handle_webhook_def verify_webhook_signature_def)
qed

section \<open>Entitlements and the plan in force\<close>

definition billing_ok :: "db \<Rightarrow> plan \<Rightarrow> bool" where
  "billing_ok d p0 \<longleftrightarrow> keys_ok d \<and> select pln_is_default (plans d) = [p0] \<and> [] \<notin> pln_id ` set (plans d)"

lemma billing_okD:
  assumes "billing_ok d p0"
  shows "distinct (map usr_id (users d))" "distinct (map pln_id (plans d))" "distinct (map pln_name (plans d))"
    "default_plan d = ok p0" "p0 \<in> set (plans d)" "\<And>p. p \<in> set (plans d) \<Longrightarrow> pln_id p \<noteq> []"
  using assms set_select [of pln_is_default "plans d"]
  by (auto simp: billing_ok_def keys_ok_def default_plan_def one_def image_iff)

lemma apply_entitlement_known:
  assumes "billing_ok d p0" and "p \<in> set (plans d)"
  shows "apply_entitlement uid st (pln_name p) pe d = ok
    (if active_status st then set_user_plan uid (pln_id p) None d
     else if ending_status st then set_user_plan uid (pln_id p) pe d
     else if ended_status st then set_user_plan uid (pln_id p0) None d else d)"
  using billing_okD [OF assms(1)] assms(2)
  by (simp add: apply_entitlement_def one_or_none_by_key get_by_distinct)

lemma effective_after_set:
  assumes "billing_ok d p0" and "u \<in> set (users d)" and "p \<in> set (plans d)"
  shows "get_effective_plan now (set_user_plan (usr_id u) (pln_id p) until d) (usr_id u) =
    ok (case until of None \<Rightarrow> p | Some t \<Rightarrow> if now < t then p else p0)"
proof -
  let ?d = "set_user_plan (usr_id u) (pln_id p) until d"
  let ?u = "u\<lparr>usr_plan_id := Some (pln_id p), usr_plan_effective_until := until\<rparr>"
  note ok = billing_okD [OF assms(1)]
  have "?u \<in> set (users ?d)" using assms(2) by (auto simp: set_user_plan_def set_update_where image_iff intro!: bexI [of _ u])
  moreover have "distinct (map usr_id (users ?d))" using ok(1) by (simp add: set_user_plan_def)
  moreover have "distinct (map pln_id (plans ?d))" "default_plan ?d = ok p0"
    using ok(2,4) by (simp_all add: default_plan_def)
  moreover have "get_by pln_id (pln_id p) (plans ?d) = Some p"
    using get_by_distinct [OF ok(2) assms(3)] by simp
  ultimately show ?thesis
    using get_effective_plan_known [of ?d ?u now] ok(6) [OF assms(3)] by (simp add: in_force_def split: option.split)
qed

lemma effective_other_user:
  assumes "v \<noteq> uid"
  shows "get_effective_plan now (set_user_plan uid pid until d) v = get_effective_plan now d v"
proof -
  have "select (\<lambda>u. usr_id u = v) (update_where (\<lambda>u. usr_id u = uid)
      (\<lambda>u. u\<lparr>usr_plan_id := Some pid, usr_plan_effective_until := until\<rparr>) (users d)) = select (\<lambda>u. usr_id u = v) (users d)"
    by (rule select_update_other) (use assms in auto)
  then have "select (\<lambda>u. usr_id u = v) (users (set_user_plan uid pid until d)) = select (\<lambda>u. usr_id u = v) (users d)"
    by (simp add: set_user_plan_def)
  then show ?thesis unfolding get_effective_plan_def default_plan_def set_user_plan_frame by (rule ssubst) (rule refl)
qed

text \<open>
  Applying a subscription status to a user gives exactly the documented plan from then on:
  the paid plan without end while active, on trial or past due; the paid plan until the end of the
  period, then the default plan, when cancelled or paused with a period end; the default plan when
  expired or unpaid; no change on an unknown status. The plan in force of every other user stays.
\<close>

lemma entitlement_effective:
  assumes "billing_ok d p0" and "u \<in> set (users d)" and "p \<in> set (plans d)"
  shows "\<exists>d'. apply_entitlement (usr_id u) st (pln_name p) pe d = ok d' \<and>
    get_effective_plan now d' (usr_id u) =
      (if st \<in> {''active'', ''on_trial'', ''past_due''} then ok p
       else if st \<in> {''cancelled'', ''paused''} then ok (case pe of None \<Rightarrow> p | Some t \<Rightarrow> if now < t then p else p0)
       else if st \<in> {''expired'', ''unpaid''} then ok p0
       else get_effective_plan now d (usr_id u)) \<and>
    (\<forall>v. v \<noteq> usr_id u \<longrightarrow> get_effective_plan now d' v = get_effective_plan now d v)"
  unfolding apply_entitlement_known [OF assms(1,3)]
    active_status_def [symmetric] ending_status_def [symmetric] ended_status_def [symmetric]
  using effective_after_set [OF assms] effective_after_set [OF assms(1,2) billing_okD(5) [OF assms(1)]]
  by (simp add: effective_other_user)

text \<open>
  A \<open>subscription_updated\<close> (or \<open>created\<close>, \<open>resumed\<close>) event whose status is \<open>cancelled\<close> or \<open>paused\<close>
  grants the paid plan for ever: the handler passes no period end, so the plan is in force at every later time.
\<close>

lemma cancelled_update_never_lapses:
  assumes "billing_ok d p0" and "u \<in> set (users d)" and "p \<in> set (plans d)"
    and "jget attrs ''status'' (JStr []) = ok (JStr st)" and "st \<in> {''cancelled'', ''paused''}"
    and "handle_subscription_active fresh now u attrs payload (Some p) (pln_name p) d = ok d'"
  shows "get_effective_plan t d' (usr_id u) = ok p"
proof -
  obtain ss where d1: "apply_entitlement (usr_id u) st (pln_name p) None (d\<lparr>subscriptions := ss\<rparr>) = ok d'"
    using assms(4,6) unfolding handle_subscription_active_def bindR_eq_Inr Let_def
    by (elim exE conjE) (auto split: option.splits)
  have b: "billing_ok (d\<lparr>subscriptions := ss\<rparr>) p0" using assms(1) by (simp add: billing_ok_def keys_ok_def)
  have "ending_status st" using assms(5) by (simp add: ending_status_def)
  moreover have "\<not> active_status st" using assms(5) by (auto simp: active_status_def)
  ultimately have "d' = set_user_plan (usr_id u) (pln_id p) None (d\<lparr>subscriptions := ss\<rparr>)"
    using d1 apply_entitlement_known [OF b, of p] assms(3) by simp
  with effective_after_set [OF b, of u p t None] assms(2,3) show ?thesis by simp
qed

text \<open>
  The expiry of one subscription takes the paid plan away even if the user holds another
  one: after \<open>subscription_expired\<close> the default plan is in force at every time, while every other
  subscription row, an active one too, is unchanged.
\<close>

lemma expiry_ignores_other_subscriptions:
  assumes "billing_ok d p0" and "u \<in> set (users d)" and "p \<in> set (plans d)"
    and "handle_subscription_expired u attrs payload (pln_name p) d = ok d'"
    and "subscription_key attrs payload = ok k"
  shows "get_effective_plan t d' (usr_id u) = ok p0 \<and>
    (\<forall>s \<in> set (subscriptions d). (\<forall>s' \<in> set (subscriptions d). sub_lemon_squeezy_subscription_id s' = k \<longrightarrow> sub_id s' \<noteq> sub_id s)
       \<longrightarrow> s \<in> set (subscriptions d'))"
proof -
  obtain sub where sub: "sub_by_key k d = ok sub"
    using assms(4,5) unfolding handle_subscription_expired_def bindR_eq_Inr by auto
  define ss where "ss = (case sub of None \<Rightarrow> subscriptions d
    | Some s \<Rightarrow> update_where (\<lambda>x. sub_id x = sub_id s) (\<lambda>x. x\<lparr>sub_status := ''expired''\<rparr>) (subscriptions d))"
  have e: "apply_entitlement (usr_id u) ''expired'' (pln_name p) None (d\<lparr>subscriptions := ss\<rparr>) = ok d'"
    using assms(4,5) sub by (cases sub) (auto simp: handle_subscription_expired_def ss_def)
  have b: "billing_ok (d\<lparr>subscriptions := ss\<rparr>) p0" using assms(1) by (simp add: billing_ok_def keys_ok_def)
  have "\<not> active_status ''expired''" "\<not> ending_status ''expired''" "ended_status ''expired''"
    by (simp_all add: active_status_def ending_status_def ended_status_def)
  then have d': "d' = set_user_plan (usr_id u) (pln_id p0) None (d\<lparr>subscriptions := ss\<rparr>)"
    using e apply_entitlement_known [OF b, of p] assms(3) by simp
  have "get_effective_plan t d' (usr_id u) = ok p0"
    unfolding d' using effective_after_set [OF b, of u p0 t None] assms(2) billing_okD(5) [OF b] by simp
  moreover have "s \<in> set (subscriptions d')"
    if "s \<in> set (subscriptions d)" "\<forall>s' \<in> set (subscriptions d). sub_lemon_squeezy_subscription_id s' = k \<longrightarrow> sub_id s' \<noteq> sub_id s" for s
  proof (cases sub)
    case (Some x)
    with sub have "x \<in> set (subscriptions d)" "sub_lemon_squeezy_subscription_id x = k"
      using set_select [of "\<lambda>s. sub_lemon_squeezy_subscription_id s = k" "subscriptions d"]
      by (auto simp: sub_by_key_def query_simps)
    with that(2) have "sub_id x \<noteq> sub_id s" by blast
    then have "(\<lambda>r. if sub_id r = sub_id x then r\<lparr>sub_status := ''expired''\<rparr> else r) s = s" by simp
    with that(1) Some show ?thesis
      unfolding d' ss_def by (force simp: set_update_where)
  qed (use that in \<open>simp add: d' ss_def\<close>)
  ultimately show ?thesis by blast
qed

section \<open>Price reconciliation\<close>

definition synced :: "(string \<Rightarrow> json result) \<Rightarrow> datetime \<Rightarrow> plan \<Rightarrow> plan" where
  "synced get_variant now p =
     (case remote_price get_variant p of
        Inr (JInt c) \<Rightarrow> if pln_price_cents p \<noteq> c then p\<lparr>pln_price_cents := c, pln_updated_at := now\<rparr> else p
      | _ \<Rightarrow> p)"

definition purchasable :: "plan \<Rightarrow> bool" where
  "purchasable p \<longleftrightarrow> pln_is_active p \<and> pln_lemon_squeezy_variant_id p \<noteq> None"

definition drifted :: "(string \<Rightarrow> json result) \<Rightarrow> plan \<Rightarrow> bool" where
  "drifted get_variant p \<longleftrightarrow> (\<exists>c. remote_price get_variant p = ok (JInt c) \<and> pln_price_cents p \<noteq> c)"

lemma remote_price_synced [simp]: "remote_price gv (synced gv now p) = remote_price gv p"
proof -
  have "pln_lemon_squeezy_variant_id (synced gv now p) = pln_lemon_squeezy_variant_id p"
    by (simp add: synced_def split: sum.split json.split)
  then show ?thesis by (simp add: remote_price_def)
qed

lemma synced_keeps [simp]: "pln_id (synced gv now p) = pln_id p" "purchasable (synced gv now p) = purchasable p"
  by (simp_all add: synced_def purchasable_def split: sum.split json.split)

lemma synced_price: "remote_price gv p = ok (JInt c) \<Longrightarrow> pln_price_cents (synced gv now p) = c"
  by (simp add: synced_def)

lemma not_drifted_synced: "\<not> drifted gv (synced gv now p)"
  by (auto simp: drifted_def synced_price)

lemma synced_not_drifted: "\<not> drifted gv p \<Longrightarrow> synced gv now p = p"
  by (auto simp: drifted_def synced_def split: sum.splits json.splits)

lemma reconcile_price_step_ok:
  assumes "reconcile_price_step gv now (ok (d, n)) q = ok (d1, m)"
    and "q \<in> set (plans d)" and "distinct (map pln_id (plans d))"
  shows "plans d1 = map (\<lambda>p. if pln_id p = pln_id q then synced gv now p else p) (plans d) \<and>
    m = n + (if drifted gv q then 1 else 0) \<and> d1 = d\<lparr>plans := plans d1\<rparr>"
proof -
  have q: "p = q" if "p \<in> set (plans d)" "pln_id p = pln_id q" for p
    using that assms(2,3) by (metis distinct_map inj_onD)
  show ?thesis
  proof (cases "drifted gv q")
    case True
    then obtain c where c: "remote_price gv q = ok (JInt c)" "pln_price_cents q \<noteq> c" by (auto simp: drifted_def)
    then have "d1 = set_price now (pln_id q) c d" "m = n + 1" using assms(1) by (auto simp: reconcile_price_step_def)
    moreover have "p\<lparr>pln_price_cents := c, pln_updated_at := now\<rparr> = synced gv now p"
      if "p \<in> set (plans d)" "pln_id p = pln_id q" for p
      using q [OF that] c by (simp add: synced_def)
    ultimately show ?thesis using True by (simp add: set_price_def update_where_def)
  next
    case False
    then have "d1 = d" "m = n" using assms(1)
      by (auto simp: reconcile_price_step_def drifted_def bindR_eq_Inr driver_int_ok split: sum.splits if_splits)
    moreover have "(if pln_id p = pln_id q then synced gv now p else p) = p" if "p \<in> set (plans d)" for p
      using q [OF that] synced_not_drifted [OF False] by auto
    ultimately show ?thesis using False by (simp add: map_idI)
  qed
qed

lemma reconcile_price_step_Inl [simp]: "foldl (reconcile_price_step gv now) (Inl e) L = Inl e"
  by (induction L) (simp_all add: reconcile_price_step_def)

lemma reconcile_price_loop:
  assumes "foldl (reconcile_price_step gv now) (ok (d, n)) L = ok (d', m)"
    and "distinct (map pln_id L)" and "set L \<subseteq> set (plans d)" and "distinct (map pln_id (plans d))"
  shows "plans d' = map (\<lambda>p. if pln_id p \<in> pln_id ` set L then synced gv now p else p) (plans d) \<and>
    m = n + length (filter (drifted gv) L) \<and> d' = d\<lparr>plans := plans d'\<rparr>"
  using assms
proof (induction L arbitrary: d n)
  case (Cons q L)
  obtain d1 n1 where s: "reconcile_price_step gv now (ok (d, n)) q = ok (d1, n1)"
    using Cons.prems(1) by (cases "reconcile_price_step gv now (ok (d, n)) q") auto
  let ?f = "\<lambda>p. if pln_id p = pln_id q then synced gv now p else p"
  have st: "plans d1 = map ?f (plans d)" "n1 = n + (if drifted gv q then 1 else 0)" "d1 = d\<lparr>plans := plans d1\<rparr>"
    using reconcile_price_step_ok [OF s] Cons.prems(3,4) by auto
  note d1 = st(1)
  have "set L \<subseteq> set (plans d1)"
  proof
    fix p assume p: "p \<in> set L"
    have "pln_id q \<notin> pln_id ` set L" using Cons.prems(2) by simp
    then have "pln_id p \<noteq> pln_id q" using imageI [OF p, of pln_id] by auto
    moreover have "?f p \<in> ?f ` set (plans d)" by (rule imageI) (use p Cons.prems(3) in auto)
    ultimately show "p \<in> set (plans d1)" unfolding d1 set_map by simp
  qed
  moreover have "distinct (map pln_id (plans d1))"
  proof -
    have "map pln_id (plans d1) = map pln_id (plans d)" unfolding d1 by simp
    with Cons.prems(4) show ?thesis by simp
  qed
  ultimately have IH: "plans d' = map (\<lambda>p. if pln_id p \<in> pln_id ` set L then synced gv now p else p) (plans d1)"
    "m = n1 + length (filter (drifted gv) L)" "d' = d1\<lparr>plans := plans d'\<rparr>"
    using Cons.IH [of d1 n1] Cons.prems(1,2) s by auto
  have "plans d' = map (\<lambda>p. if pln_id p \<in> pln_id ` set (q # L) then synced gv now p else p) (plans d)"
    unfolding IH(1) d1 using Cons.prems(2) by (auto intro!: map_cong)
  moreover have "d' = d\<lparr>plans := plans d'\<rparr>"
    by (metis IH(3) st(3) db.surjective db.update_convs(2))
  ultimately show ?case using IH(2) st(2) by auto
qed auto

text \<open>
  Price reconciliation: when it returns, the stored price of every active plan with a variant
  equals the price the provider reports for it (plans whose price could not be fetched keep
  theirs), the number returned is the number of plans that had drifted, nothing but plan rows
  changed, and running it again corrects nothing.
\<close>

lemma reconcile_prices_converges:
  assumes "reconcile_prices True get_variant now d = ok (d', n)" and "distinct (map pln_id (plans d))"
  shows "plans d' = map (\<lambda>p. if purchasable p then synced get_variant now p else p) (plans d) \<and>
    (\<forall>p \<in> set (plans d'). purchasable p \<longrightarrow>
       (\<forall>c. remote_price get_variant p = ok (JInt c) \<longrightarrow> pln_price_cents p = c)) \<and>
    n = length (filter (\<lambda>p. purchasable p \<and> drifted get_variant p) (plans d)) \<and>
    d' = d\<lparr>plans := plans d'\<rparr> \<and>
    (\<forall>now' m d''. reconcile_prices True get_variant now' d' = ok (d'', m) \<longrightarrow> d'' = d' \<and> m = 0)"
proof -
  have key: "plans e' = map (\<lambda>p. if purchasable p then synced get_variant t p else p) (plans e) \<and>
      m = length (filter (\<lambda>p. purchasable p \<and> drifted get_variant p) (plans e)) \<and> e' = e\<lparr>plans := plans e'\<rparr>"
    if "reconcile_prices True get_variant t e = ok (e', m)" "distinct (map pln_id (plans e))" for t e e' m
  proof -
    let ?L = "select purchasable (plans e)"
    have L: "(\<lambda>p. pln_is_active p \<and> pln_lemon_squeezy_variant_id p \<noteq> None) = purchasable"
      by (simp add: purchasable_def fun_eq_iff)
    have r: "foldl (reconcile_price_step get_variant t) (ok (e, 0)) ?L = ok (e', m)"
      using that(1) unfolding reconcile_prices_def L by simp
    have "distinct (map pln_id ?L)" using that(2) by (simp add: select_def distinct_map_filter)
    note loop = reconcile_price_loop [OF r this _ that(2)]
    have "pln_id p \<in> pln_id ` set ?L \<longleftrightarrow> purchasable p" if "p \<in> set (plans e)" for p
      using that \<open>distinct (map pln_id (plans e))\<close> by (auto simp: distinct_map dest: inj_onD)
    then show ?thesis using loop by (auto simp: select_def intro!: map_cong)
  qed
  note 1 = key [OF assms]
  have still: "\<not> drifted get_variant p" if "p \<in> set (plans d')" "purchasable p" for p
    using 1 that not_drifted_synced by (auto split: if_splits)
  have ids: "distinct (map pln_id (plans d'))"
    using 1 assms(2) by (simp add: comp_def if_distrib cong: if_cong)
  have "d'' = d' \<and> m = 0" if "reconcile_prices True get_variant now' d' = ok (d'', m)" for now' m d''
  proof -
    note 2 = key [OF that ids]
    have same: "plans d'' = plans d'" using 2 still by (auto intro!: map_idI simp: synced_not_drifted)
    have "m = 0" using 2 still by (auto simp: filter_empty_conv)
    moreover have "d'' = d'\<lparr>plans := plans d'\<rparr>" using 2 unfolding same by blast
    moreover have "d'\<lparr>plans := plans d'\<rparr> = d'" by simp
    ultimately show ?thesis by simp
  qed
  with 1 still show ?thesis by (auto simp: drifted_def)
qed

section \<open>Witnesses\<close>

definition ex_pro :: plan where
  "ex_pro = ex_plan\<lparr>pln_id := ''p2'', pln_name := ''pro'', pln_price_cents := 900, pln_is_default := False,
     pln_lemon_squeezy_variant_id := Some ''7''\<rparr>"

definition ex_sub :: "string \<Rightarrow> string \<Rightarrow> string \<Rightarrow> subscription" where
  "ex_sub sid ls status = \<lparr>sub_id = sid, sub_user_id = ''u1'', sub_plan_id = ''p2'',
     sub_lemon_squeezy_subscription_id = ls, sub_lemon_squeezy_customer_id = ''c1'', sub_status = status,
     sub_cancel_at_period_end = False, sub_current_period_start = 0, sub_current_period_end = 0,
     sub_created_at = 0, sub_updated_at = 0\<rparr>"

definition ex_billing :: db where
  "ex_billing = empty_db\<lparr>users := [ex_user\<lparr>usr_plan_effective_until := None\<rparr>], plans := [ex_plan, ex_pro],
     subscriptions := [ex_sub ''s2'' ''L2'' ''active'', ex_sub ''s1'' ''L1'' ''cancelled'']\<rparr>"

definition ex_event :: "string \<Rightarrow> string \<Rightarrow> string \<Rightarrow> json" where
  "ex_event ev status sub = JObj [(''meta'', JObj [(''event_name'', JStr ev), (''webhook_id'', JStr ''w1''),
       (''custom_data'', JObj [(''user_id'', JStr ''u1'')])]),
     (''data'', JObj [(''id'', JStr sub), (''attributes'', JObj [(''status'', JStr status), (''variant_id'', JInt 7),
       (''customer_id'', JInt 5)])])]"

definition ex_attrs :: "string \<Rightarrow> json" where
  "ex_attrs status = JObj [(''status'', JStr status), (''variant_id'', JInt 7), (''customer_id'', JInt 5)]"

definition ex_hook :: "datetime \<Rightarrow> db \<Rightarrow> (db \<times> string) result" where
  "ex_hook now d = handle_webhook (\<lambda>secret body. secret @ body) (\<lambda>b. b)
     (\<lambda>b. ok (ex_event ''subscription_expired'' ''expired'' ''L1'')) (\<lambda>_. ok []) (\<lambda>_. ok 0) ''k'' (''w'', ''s'') now ''b'' ''kb'' d"

lemma ex_billing_ok: "billing_ok ex_billing ex_plan" by code_simp

lemma projr_ok: "\<not> isl r \<Longrightarrow> r = ok (projr r)"
  by (cases r) auto

lemma ex_hook_runs: "ex_hook 1 ex_billing = ok (fst (projr (ex_hook 1 ex_billing)), ''ok'')"
proof -
  have "\<not> isl (ex_hook 1 ex_billing)" by code_simp
  then have "ex_hook 1 ex_billing = ok (projr (ex_hook 1 ex_billing))" by (rule projr_ok)
  moreover have "snd (projr (ex_hook 1 ex_billing)) = ''ok''" by code_simp
  ultimately show ?thesis by (metis prod.collapse)
qed

theorem webhook_authentic_once_witness:
  "ex_hook 2 (fst (projr (ex_hook 1 ex_billing))) = ok (fst (projr (ex_hook 1 ex_billing)), ''duplicate'')"
  using webhook_authentic_once [OF ex_hook_runs [unfolded ex_hook_def]] unfolding ex_hook_def by blast

lemma entitlement_effective_witness:
  "\<exists>d'. apply_entitlement ''u1'' ''cancelled'' ''pro'' (Some 10) ex_billing = ok d' \<and>
     get_effective_plan 10 d' ''u1'' = ok ex_plan"
proof -
  have "ex_user\<lparr>usr_plan_effective_until := None\<rparr> \<in> set (users ex_billing)" "ex_pro \<in> set (plans ex_billing)"
    by (simp_all add: ex_billing_def)
  from entitlement_effective [OF ex_billing_ok this, of "''cancelled''" "Some 10" 10] show ?thesis
    by (auto simp: ex_user_def ex_pro_def)
qed

lemma ex_update_runs:
  "handle_subscription_active ''x'' 1 (ex_user\<lparr>usr_plan_effective_until := None\<rparr>) (ex_attrs ''cancelled'')
     (ex_event ''subscription_updated'' ''cancelled'' ''L1'') (Some ex_pro) (pln_name ex_pro) ex_billing =
   ok (projr (handle_subscription_active ''x'' 1 (ex_user\<lparr>usr_plan_effective_until := None\<rparr>) (ex_attrs ''cancelled'')
     (ex_event ''subscription_updated'' ''cancelled'' ''L1'') (Some ex_pro) (pln_name ex_pro) ex_billing))"
  by (rule projr_ok) code_simp

lemma cancelled_update_never_lapses_witness:
  "\<exists>d'. handle_subscription_active ''x'' 1 (ex_user\<lparr>usr_plan_effective_until := None\<rparr>) (ex_attrs ''cancelled'')
      (ex_event ''subscription_updated'' ''cancelled'' ''L1'') (Some ex_pro) (pln_name ex_pro) ex_billing = ok d' \<and>
    get_effective_plan 1000000 d' ''u1'' = ok ex_pro"
proof -
  have m: "ex_user\<lparr>usr_plan_effective_until := None\<rparr> \<in> set (users ex_billing)" "ex_pro \<in> set (plans ex_billing)"
    by (simp_all add: ex_billing_def)
  have "jget (ex_attrs ''cancelled'') ''status'' (JStr []) = ok (JStr ''cancelled'')" by (simp add: ex_attrs_def)
  from cancelled_update_never_lapses [OF ex_billing_ok m this _ ex_update_runs, of 1000000] ex_update_runs
  show ?thesis by (intro exI conjI) (assumption | simp add: ex_user_def)+
qed

lemma ex_expiry_runs:
  "handle_subscription_expired (ex_user\<lparr>usr_plan_effective_until := None\<rparr>) (ex_attrs ''expired'')
     (ex_event ''subscription_expired'' ''expired'' ''L1'') (pln_name ex_pro) ex_billing =
   ok (projr (handle_subscription_expired (ex_user\<lparr>usr_plan_effective_until := None\<rparr>) (ex_attrs ''expired'')
     (ex_event ''subscription_expired'' ''expired'' ''L1'') (pln_name ex_pro) ex_billing))"
  by (rule projr_ok) code_simp

lemma expiry_ignores_other_subscriptions_witness:
  "\<exists>d'. handle_subscription_expired (ex_user\<lparr>usr_plan_effective_until := None\<rparr>) (ex_attrs ''expired'')
      (ex_event ''subscription_expired'' ''expired'' ''L1'') (pln_name ex_pro) ex_billing = ok d' \<and>
    get_effective_plan 1 d' ''u1'' = ok ex_plan \<and> ex_sub ''s2'' ''L2'' ''active'' \<in> set (subscriptions d')"
proof -
  have m: "ex_user\<lparr>usr_plan_effective_until := None\<rparr> \<in> set (users ex_billing)" "ex_pro \<in> set (plans ex_billing)"
    by (simp_all add: ex_billing_def)
  have k: "subscription_key (ex_attrs ''expired'') (ex_event ''subscription_expired'' ''expired'' ''L1'') = ok ''L1''" by code_simp
  have "ex_sub ''s2'' ''L2'' ''active'' \<in> set (subscriptions ex_billing)" by (simp add: ex_billing_def)
  moreover have "\<forall>s' \<in> set (subscriptions ex_billing). sub_lemon_squeezy_subscription_id s' = ''L1'' \<longrightarrow> sub_id s' \<noteq> sub_id (ex_sub ''s2'' ''L2'' ''active'')"
    by (simp add: ex_billing_def ex_sub_def)
  ultimately show ?thesis
    using expiry_ignores_other_subscriptions [OF ex_billing_ok m ex_expiry_runs k, of 1] ex_expiry_runs
    by (intro exI conjI) (assumption | simp add: ex_user_def)+
qed

definition ex_variant :: "string \<Rightarrow> json result" where
  "ex_variant v = ok (JObj [(''attributes'', JObj [(''price'', JInt 1200)])])"

lemma reconcile_prices_converges_witness:
  "\<exists>d' n. reconcile_prices True ex_variant 5 ex_billing = ok (d', n) \<and> n = 1 \<and>
     plans d' = [ex_plan, ex_pro\<lparr>pln_price_cents := 1200, pln_updated_at := 5\<rparr>]"
proof -
  have "\<not> isl (reconcile_prices True ex_variant 5 ex_billing)" by code_simp
  then obtain d' n where r: "reconcile_prices True ex_variant 5 ex_billing = ok (d', n)"
    by (cases "reconcile_prices True ex_variant 5 ex_billing") auto
  have d: "distinct (map pln_id (plans ex_billing))" by code_simp
  note out = reconcile_prices_converges [OF r d]
  note facts = out [THEN conjunct1] out [THEN conjunct2, THEN conjunct2, THEN conjunct1]
  have ex: "plans ex_billing = [ex_plan, ex_pro]" by (simp add: ex_billing_def)
  have "remote_price ex_variant ex_pro = ok (JInt 1200)" "purchasable ex_pro" "\<not> purchasable ex_plan"
    "pln_price_cents ex_pro = 900" by code_simp+
  then have "plans d' = [ex_plan, ex_pro\<lparr>pln_price_cents := 1200, pln_updated_at := 5\<rparr>]" "n = 1"
    using facts unfolding ex by (simp_all add: synced_def drifted_def)
  with r show ?thesis by blast
qed

definition ex_fetch :: "string \<Rightarrow> json result" where
  "ex_fetch ls = ok (JObj [(''data'', JObj [(''attributes'',
     JObj [(''status'', JStr (if ls = ''L2'' then ''active'' else ''expired'')), (''variant_id'', JInt 7)])])])"

definition ex_reconcile :: "db \<Rightarrow> db" where
  "ex_reconcile d = fst (reconcile_subscriptions True ex_fetch (\<lambda>_. ok 0) 1 d)"

text \<open>
  Reconciling subscriptions is not idempotent: a user holds an active subscription and an
  older one that the provider now reports as expired. The first run processes both and leaves the
  user on the default plan; the second no longer sees the expired one and restores the paid plan.
\<close>

lemma reconcile_subscriptions_not_idempotent:
  "get_effective_plan 1 (ex_reconcile ex_billing) ''u1'' = ok ex_plan \<and>
   get_effective_plan 1 (ex_reconcile (ex_reconcile ex_billing)) ''u1'' = ok ex_pro"
  by code_simp

end
