(* ===== verification/LlmRouter.thy ===== *)
theory LlmRouter
  imports Quota Json
begin

text \<open>
  \<^verbatim>\<open>src/src/wikimind/engine/llm_router.py\<close>, the price table of \<^verbatim>\<open>engine/provider_base.py\<close> and
  \<^verbatim>\<open>services/plan_routing.py\<close>: choice of the LLM provider, fallback, cost log and trace, monthly budget
  notices, and the decoding of JSON answers. The providers themselves are third-party clients: a call
  is the parameter \<open>call\<close> from an instance (provider and API key override), the request and the model to a
  response or an exception. \<open>user_key\<close> is the stored key of the user for a provider
  (\<open>get_user_api_key\<close>). Settings and runtime overrides are the record \<open>llm_config\<close>. Redis is an optional
  list of set keys; expiry of keys and failures of Redis and of the log tables are not modelled.
\<close>

section \<open>Requests, configuration, state\<close>

record completion_request =
  rq_system :: string
  rq_messages :: "(string \<times> string) list"
  rq_max_tokens :: int
  rq_temperature :: rat
  rq_response_format :: string
  rq_task_type :: task_type
  rq_preferred_provider :: "provider option"
  rq_reasoning_effort :: "string option"
  rq_model_override :: "string option"
  rq_disable_fallback :: bool

record completion_response =
  rs_content :: string
  rs_provider_used :: provider
  rs_model_used :: string
  rs_input_tokens :: int
  rs_output_tokens :: int
  rs_cost_usd :: rat
  rs_latency_ms :: int

record llm_config =
  lc_default_provider :: string
  lc_fallback_enabled :: bool
  lc_monthly_budget_usd :: rat
  lc_budget_warning_pct :: rat
  lc_budget_check_cache_seconds :: int
  lc_trace_enabled :: bool
  lc_trace_store_content :: bool
  lc_enabled :: "provider \<Rightarrow> bool"
  lc_model :: "provider \<Rightarrow> string"
  lc_api_key :: "provider \<Rightarrow> string option"
  lc_oc_enabled :: bool
  lc_oc_model :: string
  lc_oc_base_url :: string

record llm_instance =
  in_provider :: provider
  in_key :: "string option"

type_synonym month = "int \<times> int"

record router =
  ro_budget_warning_sent :: "string \<rightharpoonup> month"
  ro_budget_exceeded_sent :: "string \<rightharpoonup> month"
  ro_cached_spend :: "string \<rightharpoonup> rat"
  ro_cache_expires_at :: "string \<rightharpoonup> rat"
  ro_provider_cache :: "provider \<rightharpoonup> llm_instance"
  ro_redis :: "string list option"

section \<open>Prices\<close>

definition PRICING :: "provider \<Rightarrow> string \<rightharpoonup> rat \<times> rat" where
  "PRICING p = (case p of
     ANTHROPIC \<Rightarrow> [''claude-sonnet-4-5'' \<mapsto> (fl 3, fl 15), ''claude-haiku-4-5-20251001'' \<mapsto> (fl (80 / 100), fl 4)]
   | OPENAI \<Rightarrow> [''gpt-4o'' \<mapsto> (fl (250 / 100), fl 10), ''gpt-4o-mini'' \<mapsto> (fl (15 / 100), fl (60 / 100))]
   | OPENAI_COMPATIBLE \<Rightarrow> [''*'' \<mapsto> (0, 0)]
   | GOOGLE \<Rightarrow> [''gemini-2.0-flash'' \<mapsto> (fl (10 / 100), fl (40 / 100))]
   | OLLAMA \<Rightarrow> [''*'' \<mapsto> (0, 0)]
   | MOCK \<Rightarrow> [''*'' \<mapsto> (0, 0)])"

definition calc_cost :: "provider \<Rightarrow> string \<Rightarrow> int \<Rightarrow> int \<Rightarrow> rat" where
  "calc_cost provider model input_tokens output_tokens =
     (let (i, out) = (case PRICING provider model of
                        Some pr \<Rightarrow> pr
                      | None \<Rightarrow> (case PRICING provider ''*'' of Some pr \<Rightarrow> pr | None \<Rightarrow> (0, 0)))
      in fl (fl (fl (fl (of_int input_tokens) * i) + fl (fl (of_int output_tokens) * out)) / 1000000))"

section \<open>Provider selection\<close>

definition enabled_fallback :: "llm_config \<Rightarrow> provider \<Rightarrow> bool" where
  "enabled_fallback cfg p = (if p = OPENAI_COMPATIBLE then lc_oc_enabled cfg else lc_enabled cfg p)"

definition get_provider_order :: "llm_config \<Rightarrow> provider option \<Rightarrow> provider list result" where
  "get_provider_order cfg preferred =
     bindR (provider_of (lc_default_provider cfg)) (\<lambda>dflt.
       let order0 = (case preferred of Some p \<Rightarrow> [p] | None \<Rightarrow> []);
           order1 = (if dflt \<notin> set order0 then order0 @ [dflt] else order0)
       in ok (foldl (\<lambda>order p. if p \<notin> set order \<and> enabled_fallback cfg p then order @ [p] else order) order1 all_providers))"

definition nonempty :: "string option \<Rightarrow> bool" where
  "nonempty k \<longleftrightarrow> k \<noteq> None \<and> k \<noteq> Some []"

definition is_provider_available :: "llm_config \<Rightarrow> provider \<Rightarrow> bool" where
  "is_provider_available cfg p =
     (if p = OPENAI_COMPATIBLE then nonempty (lc_api_key cfg p) \<and> lc_oc_model cfg \<noteq> [] \<and> lc_oc_base_url cfg \<noteq> []
      else if \<not> lc_enabled cfg p then False
      else if p \<in> {OLLAMA, MOCK} then True
      else nonempty (lc_api_key cfg p))"

definition get_provider_instance ::
  "(provider \<rightharpoonup> llm_instance) \<Rightarrow> provider \<Rightarrow> string option \<Rightarrow> llm_instance \<times> (provider \<rightharpoonup> llm_instance)" where
  "get_provider_instance cache p api_key_override =
     (if api_key_override = None \<and> cache p \<noteq> None then (the (cache p), cache)
      else (let inst = \<lparr>in_provider = p, in_key = (if p \<in> {OLLAMA, MOCK} then None else api_key_override)\<rparr>
            in (inst, if api_key_override = None then cache(p \<mapsto> inst) else cache)))"

definition resolve_user_key :: "(provider \<Rightarrow> string option) \<Rightarrow> provider \<Rightarrow> string option" where
  "resolve_user_key user_key p = (if p \<in> {OLLAMA, MOCK} then None else user_key p)"

definition has_user_key :: "(provider \<Rightarrow> string option) \<Rightarrow> provider \<Rightarrow> bool" where
  "has_user_key user_key p \<longleftrightarrow> resolve_user_key user_key p \<noteq> None"

definition get_model :: "llm_config \<Rightarrow> provider \<Rightarrow> string option \<Rightarrow> string" where
  "get_model cfg p model_override =
     (if nonempty model_override then the model_override
      else if p = OPENAI_COMPATIBLE then (if lc_oc_model cfg \<noteq> [] then lc_oc_model cfg else ''unknown'')
      else lc_model cfg p)"

section \<open>Fallback\<close>

text \<open>The exceptions of \<open>_LLM_PROVIDER_ERRORS\<close>; client library errors are \<open>ProviderError\<close>.\<close>

fun is_provider_error :: "exc \<Rightarrow> bool" where
  "is_provider_error (ProviderError _) = True"
| "is_provider_error (UpstreamError _) = True"
| "is_provider_error (ValueError _) = True"
| "is_provider_error (KeyError _) = True"
| "is_provider_error (OSError _) = True"
| "is_provider_error _ = False"

fun exc_str :: "exc \<Rightarrow> string" where
  "exc_str (ProviderError m) = m"
| "exc_str (UpstreamError m) = m"
| "exc_str (ValueError m) = m"
| "exc_str (OSError m) = m"
| "exc_str (KeyError m) = CHR 0x27 # m @ [CHR 0x27]"
| "exc_str _ = []"

type_synonym attempt = "provider \<times> string option \<times> string"

fun fallback_loop ::
  "llm_config \<Rightarrow> (provider \<Rightarrow> string option) \<Rightarrow> (llm_instance \<Rightarrow> provider \<Rightarrow> string \<Rightarrow> 'a result) \<Rightarrow> bool \<Rightarrow> string option \<Rightarrow>
   exc option \<Rightarrow> (provider \<rightharpoonup> llm_instance) \<Rightarrow> provider list \<Rightarrow> (provider \<rightharpoonup> llm_instance) \<times> attempt list \<times> 'a result" where
  "fallback_loop cfg user_key operation disable_fallback model_override last_error cache [] =
     (cache, [], raise (UpstreamError (''All LLM providers failed. Last error: '' @
        (case last_error of None \<Rightarrow> ''None'' | Some e \<Rightarrow> exc_str e))))"
| "fallback_loop cfg user_key operation disable_fallback model_override last_error cache (p # ps) =
     (let k = resolve_user_key user_key p in
      if \<not> nonempty k \<and> \<not> is_provider_available cfg p
      then fallback_loop cfg user_key operation disable_fallback model_override last_error cache ps
      else
        (let model = get_model cfg p model_override;
             (inst, cache') = get_provider_instance cache p k
         in case operation inst p model of
              Inr v \<Rightarrow> (cache', [(p, k, model)], ok v)
            | Inl e \<Rightarrow>
                if \<not> is_provider_error e then (cache', [(p, k, model)], raise e)
                else if disable_fallback
                then (cache', [(p, k, model)], raise (UpstreamError (''Provider '' @ provider_value p @ '' failed: '' @ exc_str e)))
                else if \<not> lc_fallback_enabled cfg then (cache', [(p, k, model)], raise e)
                else (let (c, atts, r) = fallback_loop cfg user_key operation disable_fallback model_override (Some e) cache' ps
                      in (c, (p, k, model) # atts, r))))"

definition add_byok :: "provider list \<Rightarrow> provider list" where
  "add_byok order = foldl (\<lambda>order p. if p \<notin> set order then order @ [p] else order) order [ANTHROPIC, OPENAI, GOOGLE]"

definition execute_with_fallback ::
  "llm_config \<Rightarrow> (provider \<Rightarrow> string option) \<Rightarrow> provider option \<Rightarrow> (llm_instance \<Rightarrow> provider \<Rightarrow> string \<Rightarrow> 'a result) \<Rightarrow> bool \<Rightarrow>
   string option \<Rightarrow> (provider \<rightharpoonup> llm_instance) \<Rightarrow> (provider \<rightharpoonup> llm_instance) \<times> attempt list \<times> 'a result" where
  "execute_with_fallback cfg user_key preferred operation disable_fallback model_override cache =
     (case get_provider_order cfg preferred of
        Inl e \<Rightarrow> (cache, [], raise e)
      | Inr order \<Rightarrow> fallback_loop cfg user_key operation disable_fallback model_override None cache (add_byok order))"

section \<open>Monthly budget\<close>

text \<open>Year, month and day of a day number, by the proleptic Gregorian calendar.\<close>

definition civil :: "int \<Rightarrow> int \<times> int \<times> int" where
  "civil days =
     (let z = days + 719468; era = z div 146097; doe = z mod 146097;
          yoe = (doe - doe div 1460 + doe div 36524 - doe div 146096) div 365;
          doy = doe - (365 * yoe + yoe div 4 - yoe div 100);
          mp = (5 * doy + 2) div 153;
          dd = doy - (153 * mp + 2) div 5 + 1;
          mm = (if mp < 10 then mp + 3 else mp - 9)
      in (yoe + era * 400 + (if mm \<le> 2 then 1 else 0), mm, dd))"

definition month_key :: "datetime \<Rightarrow> month" where
  "month_key now = (let (y, m, dd) = civil (date_of now) in (y, m))"

text \<open>\<open>now.replace(day=1, hour=0, minute=0, second=0)\<close>: the microseconds stay.\<close>

definition start_of_month :: "datetime \<Rightarrow> datetime" where
  "start_of_month now = (let (y, m, dd) = civil (date_of now) in (date_of now - (dd - 1)) * day_us + now mod 1000000)"

datatype budget_event = BudgetWarning rat rat rat string | BudgetExceeded rat rat string

definition redis_key :: "string \<Rightarrow> month \<Rightarrow> string \<Rightarrow> string" where
  "redis_key flag_name mk user_id =
     ''wikimind:budget:'' @ flag_name @ '':'' @ user_id @ '':'' @ show_int (fst mk) @ '':'' @ show_int (snd mk)"

definition budget_flag_is_set :: "string \<Rightarrow> (string \<rightharpoonup> month) \<Rightarrow> string list option \<Rightarrow> month \<Rightarrow> string \<Rightarrow> bool" where
  "budget_flag_is_set flag_name local_flags redis mk user_id =
     (if local_flags user_id = Some mk then True
      else (case redis of None \<Rightarrow> False | Some keys \<Rightarrow> redis_key flag_name mk user_id \<in> set keys))"

definition set_redis_flag :: "string \<Rightarrow> month \<Rightarrow> string \<Rightarrow> string list option \<Rightarrow> string list option" where
  "set_redis_flag flag_name mk user_id redis = map_option (\<lambda>keys. redis_key flag_name mk user_id # keys) redis"

definition month_spend :: "datetime \<Rightarrow> string \<Rightarrow> db \<Rightarrow> rat" where
  "month_spend now user_id d =
     sql_sum (map cl_cost_usd (select (\<lambda>c. start_of_month now \<le> cl_created_at c \<and> cl_user_id c = user_id) (cost_logs d)))"

definition roll_over :: "month \<Rightarrow> string \<Rightarrow> (string \<rightharpoonup> month) \<Rightarrow> (string \<rightharpoonup> month)" where
  "roll_over mk user_id flags = (if flags user_id \<noteq> None \<and> flags user_id \<noteq> Some mk then flags(user_id := None) else flags)"

definition current_spend :: "llm_config \<Rightarrow> datetime \<Rightarrow> rat \<Rightarrow> string \<Rightarrow> db \<Rightarrow> router \<Rightarrow> rat \<times> router" where
  "current_spend cfg now clock user_id d st =
     (case ro_cached_spend st user_id of
        Some s \<Rightarrow>
          if clock < (case ro_cache_expires_at st user_id of Some t \<Rightarrow> t | None \<Rightarrow> 0) then (s, st)
          else (let s = month_spend now user_id d in
                (s, st\<lparr>ro_cached_spend := (ro_cached_spend st)(user_id \<mapsto> s),
                       ro_cache_expires_at := (ro_cache_expires_at st)(user_id \<mapsto> fl (clock + of_int (lc_budget_check_cache_seconds cfg)))\<rparr>))
      | None \<Rightarrow> (let s = month_spend now user_id d in
                (s, st\<lparr>ro_cached_spend := (ro_cached_spend st)(user_id \<mapsto> s),
                       ro_cache_expires_at := (ro_cache_expires_at st)(user_id \<mapsto> fl (clock + of_int (lc_budget_check_cache_seconds cfg)))\<rparr>)))"

definition warn_budget :: "llm_config \<Rightarrow> month \<Rightarrow> string \<Rightarrow> bool \<Rightarrow> rat \<Rightarrow> rat \<Rightarrow> router \<Rightarrow> router \<times> budget_event list" where
  "warn_budget cfg mk user_id warning_sent spend pct st =
     (if fl (lc_budget_warning_pct cfg * 100) \<le> pct \<and> \<not> warning_sent
      then (st\<lparr>ro_budget_warning_sent := (ro_budget_warning_sent st)(user_id \<mapsto> mk),
               ro_redis := set_redis_flag ''_budget_warning_sent'' mk user_id (ro_redis st)\<rparr>,
            [BudgetWarning spend (lc_monthly_budget_usd cfg) pct user_id])
      else (st, []))"

definition exceed_budget :: "llm_config \<Rightarrow> month \<Rightarrow> string \<Rightarrow> bool \<Rightarrow> rat \<Rightarrow> rat \<Rightarrow> router \<Rightarrow> router \<times> budget_event list" where
  "exceed_budget cfg mk user_id exceeded_sent spend pct st =
     (if 100 \<le> pct \<and> \<not> exceeded_sent
      then (st\<lparr>ro_budget_exceeded_sent := (ro_budget_exceeded_sent st)(user_id \<mapsto> mk),
               ro_redis := set_redis_flag ''_budget_exceeded_sent'' mk user_id (ro_redis st)\<rparr>,
            [BudgetExceeded spend (lc_monthly_budget_usd cfg) user_id])
      else (st, []))"

definition check_budget ::
  "llm_config \<Rightarrow> datetime \<Rightarrow> rat \<Rightarrow> string \<Rightarrow> db \<Rightarrow> router \<Rightarrow> router \<times> budget_event list" where
  "check_budget cfg now clock user_id d st0 =
     (let mk = month_key now;
          st = st0\<lparr>ro_budget_warning_sent := roll_over mk user_id (ro_budget_warning_sent st0),
                   ro_budget_exceeded_sent := roll_over mk user_id (ro_budget_exceeded_sent st0)\<rparr>;
          warning_sent = budget_flag_is_set ''_budget_warning_sent'' (ro_budget_warning_sent st) (ro_redis st) mk user_id;
          exceeded_sent = budget_flag_is_set ''_budget_exceeded_sent'' (ro_budget_exceeded_sent st) (ro_redis st) mk user_id
      in if warning_sent \<and> exceeded_sent then (st, [])
         else
           (let (spend, st1) = current_spend cfg now clock user_id d st;
                budget = lc_monthly_budget_usd cfg
            in if budget \<le> 0 then (st1, [])
               else
                 (let pct = fl (fl (spend / budget) * 100);
                      (st2, ev1) = warn_budget cfg mk user_id warning_sent spend pct st1;
                      (st3, ev2) = exceed_budget cfg mk user_id exceeded_sent spend pct st2
                  in (st3, ev1 @ ev2))))"

section \<open>Calls\<close>

definition log_cost :: "string \<Rightarrow> datetime \<Rightarrow> provider \<Rightarrow> string \<Rightarrow> task_type \<Rightarrow> completion_response \<Rightarrow> string \<Rightarrow> db \<Rightarrow> db" where
  "log_cost fresh now p model task resp user_id d =
     d\<lparr>cost_logs := cost_logs d @
        [\<lparr>cl_id = fresh, cl_user_id = user_id, cl_provider = p, cl_model = model, cl_task_type = task,
          cl_input_tokens = rs_input_tokens resp, cl_output_tokens = rs_output_tokens resp,
          cl_cost_usd = rs_cost_usd resp, cl_latency_ms = rs_latency_ms resp, cl_job_id = None, cl_created_at = now\<rparr>]\<rparr>"

definition log_trace ::
  "llm_config \<Rightarrow> string \<Rightarrow> datetime \<Rightarrow> string \<Rightarrow> task_type \<Rightarrow> completion_response \<Rightarrow> string \<Rightarrow> string option \<Rightarrow> db \<Rightarrow> db" where
  "log_trace cfg fresh now model task resp user_id prompt_text d =
     (if \<not> lc_trace_enabled cfg then d
      else d\<lparr>llm_traces := llm_traces d @
        [\<lparr>tr_id = fresh, tr_user_id = user_id, tr_model = model, tr_prompt_tokens = rs_input_tokens resp,
          tr_completion_tokens = rs_output_tokens resp, tr_total_tokens = rs_input_tokens resp + rs_output_tokens resp,
          tr_latency_ms = rs_latency_ms resp, tr_created_at = now,
          tr_prompt_text = (if lc_trace_store_content cfg then prompt_text else None),
          tr_completion_text = (if lc_trace_store_content cfg then Some (rs_content resp) else None),
          tr_source_id = None, tr_operation = task_type_value task\<rparr>]\<rparr>)"

definition prompt_of :: "completion_request \<Rightarrow> string" where
  "prompt_of req =
     (let body = py_join [CHR 0x0A] (map (\<lambda>(role, content). ''['' @ role @ '']: '' @ content) (rq_messages req))
      in if rq_system req \<noteq> [] then ''[system]: '' @ rq_system req @ [CHR 0x0A] @ body else body)"

text \<open>
  \<open>complete\<close>: the answered provider's cost and trace are logged and the budget is checked (in a
  background task whose exceptions are only logged). The last component of an attempt list is the
  provider that answered.
\<close>

record call_env =
  ce_now :: datetime
  ce_clock :: rat
  ce_fresh_cost :: string
  ce_fresh_trace :: string

definition complete ::
  "llm_config \<Rightarrow> (provider \<Rightarrow> string option) \<Rightarrow> (llm_instance \<Rightarrow> completion_request \<Rightarrow> string \<Rightarrow> completion_response result) \<Rightarrow>
   call_env \<Rightarrow> completion_request \<Rightarrow> string \<Rightarrow> router \<Rightarrow> db \<Rightarrow>
   router \<times> db \<times> attempt list \<times> budget_event list \<times> completion_response result" where
  "complete cfg user_key call env req user_id st d =
     (let (cache, atts, r) = execute_with_fallback cfg user_key (rq_preferred_provider req)
            (\<lambda>inst p model. bindR (call inst req model) (\<lambda>resp. ok (p, model, resp)))
            (rq_disable_fallback req) (rq_model_override req) (ro_provider_cache st);
          st1 = st\<lparr>ro_provider_cache := cache\<rparr>
      in case r of
           Inl e \<Rightarrow> (st1, d, atts, [], raise e)
         | Inr (p, model, resp) \<Rightarrow>
             (let d1 = log_cost (ce_fresh_cost env) (ce_now env) p model (rq_task_type req) resp user_id d;
                  d2 = log_trace cfg (ce_fresh_trace env) (ce_now env) model (rq_task_type req) resp user_id
                         (if lc_trace_enabled cfg then Some (prompt_of req) else None) d1;
                  (st2, evs) = check_budget cfg (ce_now env) (ce_clock env) user_id d2 st1
              in (st2, d2, atts, evs, ok resp)))"

definition stream_complete ::
  "llm_config \<Rightarrow> (provider \<Rightarrow> string option) \<Rightarrow> (llm_instance \<Rightarrow> completion_request \<Rightarrow> string \<Rightarrow> 's result) \<Rightarrow>
   completion_request \<Rightarrow> router \<Rightarrow> router \<times> attempt list \<times> 's result" where
  "stream_complete cfg user_key stream req st =
     (let (cache, atts, r) = execute_with_fallback cfg user_key (rq_preferred_provider req)
            (\<lambda>inst p model. stream inst req model) False None (ro_provider_cache st)
      in (st\<lparr>ro_provider_cache := cache\<rparr>, atts, r))"

section \<open>Plan-aware routing\<close>

definition plan_request :: "plan \<Rightarrow> provider \<Rightarrow> completion_request \<Rightarrow> completion_request" where
  "plan_request plan p req =
     req\<lparr>rq_preferred_provider := Some p, rq_model_override := Some (pln_llm_model plan), rq_disable_fallback := True\<rparr>"

definition plan_aware_complete ::
  "bool \<Rightarrow> llm_config \<Rightarrow> (provider \<Rightarrow> string option) \<Rightarrow> (llm_instance \<Rightarrow> completion_request \<Rightarrow> string \<Rightarrow> completion_response result) \<Rightarrow>
   call_env \<Rightarrow> completion_request \<Rightarrow> string \<Rightarrow> router \<Rightarrow> db \<Rightarrow>
   router \<times> db \<times> attempt list \<times> budget_event list \<times> completion_response result" where
  "plan_aware_complete billing_enabled cfg user_key call env req user_id st d =
     (if \<not> billing_enabled then complete cfg user_key call env req user_id st d
      else
        (case get_effective_plan (ce_now env) d user_id of
           Inl e \<Rightarrow> complete cfg user_key call env req user_id st d
         | Inr plan \<Rightarrow>
             (case check_daily_llm_spend (ce_now env) d user_id plan of
                Inl e \<Rightarrow> (st, d, [], [], raise e)
              | Inr _ \<Rightarrow>
                  (case provider_of (pln_llm_provider plan) of
                     Inl e \<Rightarrow> (st, d, [], [], raise e)
                   | Inr p \<Rightarrow>
                       if pln_byok_allowed plan \<and> has_user_key user_key p
                       then complete cfg user_key call env req user_id st d
                       else complete cfg user_key call env (plan_request plan p req) user_id st d))))"

section \<open>The order of providers\<close>

lemma foldl_extend:
  "set (foldl (\<lambda>order p. if p \<notin> set order \<and> f p then order @ [p] else order) xs ps) = set xs \<union> {p \<in> set ps. f p} \<and>
   (distinct xs \<longrightarrow> distinct (foldl (\<lambda>order p. if p \<notin> set order \<and> f p then order @ [p] else order) xs ps)) \<and>
   (\<exists>ys. foldl (\<lambda>order p. if p \<notin> set order \<and> f p then order @ [p] else order) xs ps = xs @ ys)"
proof (induction ps arbitrary: xs)
  case (Cons p ps)
  show ?case
  proof (cases "p \<notin> set xs \<and> f p")
    case True
    with Cons [of "xs @ [p]"] show ?thesis by auto
  next
    case False
    with Cons [of xs] show ?thesis by auto
  qed
qed simp

lemma get_provider_order_ok:
  assumes "get_provider_order cfg preferred = ok order"
  shows "\<exists>dflt. lc_default_provider cfg = provider_value dflt \<and>
    set order = set_option preferred \<union> {dflt} \<union> {p. enabled_fallback cfg p} \<and> distinct order \<and>
    (\<exists>ys. order = (case preferred of Some p \<Rightarrow> p | None \<Rightarrow> dflt) # ys)"
proof -
  from assms obtain dflt where d: "lc_default_provider cfg = provider_value dflt"
    by (auto simp: get_provider_order_def bindR_eq_Inr provider_of_ok)
  define start where "start = (let order0 = (case preferred of Some p \<Rightarrow> [p] | None \<Rightarrow> []) in
    if dflt \<notin> set order0 then order0 @ [dflt] else order0)"
  have "order = foldl (\<lambda>order p. if p \<notin> set order \<and> enabled_fallback cfg p then order @ [p] else order) start all_providers"
    using assms by (simp add: get_provider_order_def d Let_def start_def)
  moreover have "set start = set_option preferred \<union> {dflt}" "distinct start"
    "\<exists>ys. start = (case preferred of Some p \<Rightarrow> p | None \<Rightarrow> dflt) # ys"
    by (cases preferred; auto simp: start_def Let_def)+
  ultimately show ?thesis
    using foldl_extend [where f = "enabled_fallback cfg" and xs = start and ps = all_providers] d
    by (auto simp: set_all_providers)
qed

section \<open>Fallback\<close>

definition cache_ok :: "(provider \<rightharpoonup> llm_instance) \<Rightarrow> bool" where
  "cache_ok cache \<longleftrightarrow> (\<forall>p i. cache p = Some i \<longrightarrow> i = \<lparr>in_provider = p, in_key = None\<rparr>)"

definition usable :: "llm_config \<Rightarrow> (provider \<Rightarrow> string option) \<Rightarrow> provider \<Rightarrow> bool" where
  "usable cfg user_key p \<longleftrightarrow> nonempty (resolve_user_key user_key p) \<or> is_provider_available cfg p"

definition attempt_of :: "llm_config \<Rightarrow> (provider \<Rightarrow> string option) \<Rightarrow> string option \<Rightarrow> provider \<Rightarrow> attempt" where
  "attempt_of cfg user_key mo p = (p, resolve_user_key user_key p, get_model cfg p mo)"

definition answer ::
  "llm_config \<Rightarrow> (provider \<Rightarrow> string option) \<Rightarrow> string option \<Rightarrow> (llm_instance \<Rightarrow> provider \<Rightarrow> string \<Rightarrow> 'a result) \<Rightarrow> provider \<Rightarrow> 'a result" where
  "answer cfg user_key mo operation p =
     operation \<lparr>in_provider = p, in_key = resolve_user_key user_key p\<rparr> p (get_model cfg p mo)"

lemma get_provider_instance_ok:
  assumes "cache_ok cache" and "get_provider_instance cache p (resolve_user_key user_key p) = (inst, cache')"
  shows "inst = \<lparr>in_provider = p, in_key = resolve_user_key user_key p\<rparr> \<and> cache_ok cache'"
  using assms by (auto simp: get_provider_instance_def cache_ok_def resolve_user_key_def Let_def split: if_splits)

lemma fallback_loop_cache:
  assumes "cache_ok cache" and "fallback_loop cfg user_key operation dis mo lst cache ps = (c, atts, r)"
  shows "cache_ok c"
  using assms
proof (induction ps arbitrary: lst cache atts c)
  case (Cons p ps)
  obtain inst cache' where g: "get_provider_instance cache p (resolve_user_key user_key p) = (inst, cache')"
    by (cases "get_provider_instance cache p (resolve_user_key user_key p)")
  with Cons.prems(1) have "cache_ok cache'" using get_provider_instance_ok by blast
  with Cons g show ?case
    by (auto simp: Let_def split: if_splits sum.splits prod.splits)
qed simp

lemma fallback_loop_first:
  assumes "cache_ok cache" and "lc_fallback_enabled cfg"
    and "\<forall>p \<in> set ps. usable cfg user_key p \<longrightarrow> (\<forall>e. answer cfg user_key mo operation p = raise e \<longrightarrow> is_provider_error e)"
    and "fallback_loop cfg user_key operation False mo lst cache ps = (c, atts, r)"
  shows "case find (\<lambda>p. usable cfg user_key p \<and> \<not> isl (answer cfg user_key mo operation p)) ps of
      Some p \<Rightarrow> r = answer cfg user_key mo operation p
    | None \<Rightarrow> (\<exists>m. r = raise (UpstreamError m)) \<and> atts = map (attempt_of cfg user_key mo) (filter (usable cfg user_key) ps)"
  using assms
proof (induction ps arbitrary: lst cache atts c)
  case (Cons p ps)
  obtain inst cache' where g: "get_provider_instance cache p (resolve_user_key user_key p) = (inst, cache')"
    by (cases "get_provider_instance cache p (resolve_user_key user_key p)")
  with Cons.prems(1) have i: "inst = \<lparr>in_provider = p, in_key = resolve_user_key user_key p\<rparr>" "cache_ok cache'"
    using get_provider_instance_ok by blast+
  show ?case
  proof (cases "usable cfg user_key p")
    case False
    then have "fallback_loop cfg user_key operation False mo lst cache ps = (c, atts, r)"
      using Cons.prems(4) by (simp add: usable_def)
    from Cons.IH [OF Cons.prems(1,2) _ this] Cons.prems(3) False show ?thesis by (simp split: option.splits)
  next
    case True
    show ?thesis
    proof (cases "answer cfg user_key mo operation p")
      case (Inr v)
      with True Cons.prems(4) g i show ?thesis by (auto simp: usable_def answer_def)
    next
      case (Inl e)
      then have e: "is_provider_error e" using True Cons.prems(3) by simp
      obtain c1 a1 r1 where rec: "fallback_loop cfg user_key operation False mo (Some e) cache' ps = (c1, a1, r1)"
        by (rule prod_cases3)
      have eqs: "atts = attempt_of cfg user_key mo p # a1" "r = r1"
        using True Inl e Cons.prems(2,4) g i rec by (auto simp: usable_def answer_def attempt_of_def)
      from Cons.IH [OF i(2) Cons.prems(2) _ rec [folded eqs(2)]] Cons.prems(3) True Inl show ?thesis
        by (simp add: eqs(1) split: option.splits)
    qed
  qed
qed auto


lemma fallback_loop_single:
  assumes "fallback_loop cfg user_key operation True mo lst cache ps = (c, atts, r)"
  shows "atts = map (attempt_of cfg user_key mo) (take 1 (filter (usable cfg user_key) ps))"
  using assms
proof (induction ps arbitrary: lst cache atts)
  case (Cons p ps)
  show ?case
  proof (cases "usable cfg user_key p")
    case False
    with Cons show ?thesis by (simp add: usable_def)
  next
    case True
    with Cons.prems show ?thesis
      by (auto simp: usable_def attempt_of_def Let_def split: sum.splits prod.splits if_splits)
  qed
qed simp

lemma complete_pinned:
  assumes "complete cfg user_key call env req user_id st d = (st', d', atts, evs, r)" and "rq_disable_fallback req"
    and "rq_model_override req = Some m" and "m \<noteq> []"
  shows "length atts \<le> 1 \<and> (\<forall>(p, k, model) \<in> set atts. model = m)"
proof -
  define op where "op = (\<lambda>inst (p :: provider) (model :: string). bindR (call inst req model) (\<lambda>resp. ok (p, model, resp)))"
  obtain c r0 where x: "execute_with_fallback cfg user_key (rq_preferred_provider req) op True (Some m) (ro_provider_cache st) = (c, atts, r0)"
    using assms(1-3) unfolding complete_def op_def [symmetric]
    by (auto simp: Let_def split: prod.splits sum.splits)
  show ?thesis
  proof (cases "get_provider_order cfg (rq_preferred_provider req)")
    case (Inl e)
    with x show ?thesis by (simp add: execute_with_fallback_def)
  next
    case (Inr order)
    with x have "atts = map (attempt_of cfg user_key (Some m)) (take 1 (filter (usable cfg user_key) (add_byok order)))"
      using fallback_loop_single by (simp add: execute_with_fallback_def)
    then show ?thesis using assms(4) by (auto simp: attempt_of_def get_model_def nonempty_def)
  qed
qed

text \<open>
  Plan-aware routing in hosted mode, for a plan without own keys: a user over the daily spend cap
  is refused before any provider is called; otherwise at most one provider is called, and only with the
  model of the plan.
\<close>

lemma plan_routing_restricts:
  assumes "get_effective_plan (ce_now env) d user_id = ok plan" and "\<not> pln_byok_allowed plan" and "pln_llm_model plan \<noteq> []"
    and "plan_aware_complete True cfg user_key call env req user_id st d = (st', d', atts, evs, r)"
  shows "length atts \<le> 1 \<and> (\<forall>(p, k, model) \<in> set atts. model = pln_llm_model plan) \<and>
    (\<forall>e. check_daily_llm_spend (ce_now env) d user_id plan = raise e \<longrightarrow> atts = [] \<and> d' = d \<and> r = raise e)"
proof (cases "check_daily_llm_spend (ce_now env) d user_id plan")
  case (Inl e)
  with assms show ?thesis by (simp add: plan_aware_complete_def)
next
  case (Inr u)
  show ?thesis
  proof (cases "provider_of (pln_llm_provider plan)")
    case (Inl e)
    with Inr assms show ?thesis by (simp add: plan_aware_complete_def)
  next
    case (Inr p)
    with \<open>check_daily_llm_spend (ce_now env) d user_id plan = Inr u\<close> assms
    have "complete cfg user_key call env (plan_request plan p req) user_id st d = (st', d', atts, evs, r)"
      by (simp add: plan_aware_complete_def)
    from complete_pinned [OF this] assms(3) Inr \<open>check_daily_llm_spend (ce_now env) d user_id plan = Inr u\<close>
    show ?thesis by (simp add: plan_request_def)
  qed
qed

lemma execute_cache:
  assumes "cache_ok cache" and "execute_with_fallback cfg user_key preferred operation dis mo cache = (c, atts, r)"
  shows "cache_ok c"
  using assms fallback_loop_cache [OF assms(1)] by (auto simp: execute_with_fallback_def split: sum.splits)

lemma current_spend_frame:
  "ro_budget_warning_sent (snd (current_spend cfg now clock u d st)) = ro_budget_warning_sent st"
  "ro_budget_exceeded_sent (snd (current_spend cfg now clock u d st)) = ro_budget_exceeded_sent st"
  "ro_provider_cache (snd (current_spend cfg now clock u d st)) = ro_provider_cache st"
  by (simp_all add: current_spend_def Let_def split: option.splits)

lemma check_budget_cache:
  assumes "check_budget cfg now clock u d st = (st', evs)"
  shows "ro_provider_cache st' = ro_provider_cache st"
proof -
  let ?st = "st\<lparr>ro_budget_warning_sent := roll_over (month_key now) u (ro_budget_warning_sent st),
     ro_budget_exceeded_sent := roll_over (month_key now) u (ro_budget_exceeded_sent st)\<rparr>"
  obtain sp st1 where c: "current_spend cfg now clock u d ?st = (sp, st1)" by (cases "current_spend cfg now clock u d ?st")
  then have "ro_provider_cache st1 = ro_provider_cache st"
    using current_spend_frame(3) [of cfg now clock u d ?st] by simp
  with assms c show ?thesis
    by (auto simp: check_budget_def Let_def warn_budget_def exceed_budget_def split: if_splits)
qed

text \<open>
  A user's own key never enters the shared cache of provider instances: if no cached instance
  carries a key before a call, none does afterwards, whichever providers and keys the call used;
  this holds for completions and for streams.
\<close>

lemma user_keys_not_cached:
  assumes "cache_ok (ro_provider_cache st)"
    and "complete cfg user_key call env req user_id st d = (st', d', atts, evs, r)"
    and "stream_complete cfg user_key stream req st = (st2, atts2, r2)"
  shows "cache_ok (ro_provider_cache st') \<and> cache_ok (ro_provider_cache st2)"
proof
  obtain c a x where e: "execute_with_fallback cfg user_key (rq_preferred_provider req)
      (\<lambda>inst p model. bindR (call inst req model) (\<lambda>resp. ok (p, model, resp)))
      (rq_disable_fallback req) (rq_model_override req) (ro_provider_cache st) = (c, a, x)"
    by (rule prod_cases3)
  have "ro_provider_cache st' = c"
  proof (cases x)
    case (Inl err)
    with assms(2) e show ?thesis by (auto simp: complete_def)
  next
    case (Inr t)
    obtain p m resp where t: "t = (p, m, resp)" by (rule prod_cases3)
    define d2 where "d2 = log_trace cfg (ce_fresh_trace env) (ce_now env) m (rq_task_type req) resp user_id
        (if lc_trace_enabled cfg then Some (prompt_of req) else None)
        (log_cost (ce_fresh_cost env) (ce_now env) p m (rq_task_type req) resp user_id d)"
    obtain s2 ev where b: "check_budget cfg (ce_now env) (ce_clock env) user_id d2 (st\<lparr>ro_provider_cache := c\<rparr>) = (s2, ev)"
      by (cases "check_budget cfg (ce_now env) (ce_clock env) user_id d2 (st\<lparr>ro_provider_cache := c\<rparr>)")
    have "st' = s2"
      using assms(2) unfolding complete_def e by (simp add: Inr t b d2_def [symmetric] del: if_split)
    with check_budget_cache [OF b] show ?thesis by simp
  qed
  then show "cache_ok (ro_provider_cache st')" using execute_cache [OF assms(1) e] by simp
  obtain c a x where e: "execute_with_fallback cfg user_key (rq_preferred_provider req)
      (\<lambda>inst p model. stream inst req model) False None (ro_provider_cache st) = (c, a, x)"
    by (rule prod_cases3)
  with assms(3) have "ro_provider_cache st2 = c" by (auto simp: stream_complete_def)
  then show "cache_ok (ro_provider_cache st2)" using execute_cache [OF assms(1) e] by simp
qed

section \<open>Budget notices\<close>

fun warns :: "string \<Rightarrow> budget_event \<Rightarrow> bool" where
  "warns u (BudgetWarning _ _ _ v) = (u = v)"
| "warns u (BudgetExceeded _ _ v) = False"

fun exceeds :: "string \<Rightarrow> budget_event \<Rightarrow> bool" where
  "exceeds u (BudgetWarning _ _ _ v) = False"
| "exceeds u (BudgetExceeded _ _ v) = (u = v)"

record budget_call =
  bc_now :: datetime
  bc_clock :: rat
  bc_user :: string
  bc_db :: db

fun budget_run :: "llm_config \<Rightarrow> budget_call list \<Rightarrow> router \<Rightarrow> budget_event list" where
  "budget_run cfg [] st = []"
| "budget_run cfg (c # cs) st =
     (let (st', evs) = check_budget cfg (bc_now c) (bc_clock c) (bc_user c) (bc_db c) st in evs @ budget_run cfg cs st')"

lemma roll_over_keeps: "flags u = Some mk \<Longrightarrow> roll_over mk v flags u = Some mk"
  by (auto simp: roll_over_def)

lemma check_budget_flags:
  assumes "check_budget cfg now clock v d st = (st', evs)" and "mk = month_key now"
  shows "(if ro_budget_warning_sent st u = Some mk then ro_budget_warning_sent st' u = Some mk \<and> filter (warns u) evs = []
          else length (filter (warns u) evs) \<le> 1 \<and> (filter (warns u) evs \<noteq> [] \<longrightarrow> ro_budget_warning_sent st' u = Some mk)) \<and>
         (if ro_budget_exceeded_sent st u = Some mk then ro_budget_exceeded_sent st' u = Some mk \<and> filter (exceeds u) evs = []
          else length (filter (exceeds u) evs) \<le> 1 \<and> (filter (exceeds u) evs \<noteq> [] \<longrightarrow> ro_budget_exceeded_sent st' u = Some mk))"
proof -
  define st0 where "st0 = st\<lparr>ro_budget_warning_sent := roll_over mk v (ro_budget_warning_sent st),
     ro_budget_exceeded_sent := roll_over mk v (ro_budget_exceeded_sent st)\<rparr>"
  define w where "w = budget_flag_is_set ''_budget_warning_sent'' (ro_budget_warning_sent st0) (ro_redis st0) mk v"
  define x where "x = budget_flag_is_set ''_budget_exceeded_sent'' (ro_budget_exceeded_sent st0) (ro_redis st0) mk v"
  obtain sp st1 where c: "current_spend cfg now clock v d st0 = (sp, st1)" by (cases "current_spend cfg now clock v d st0")
  then have f: "ro_budget_warning_sent st1 = ro_budget_warning_sent st0" "ro_budget_exceeded_sent st1 = ro_budget_exceeded_sent st0"
    using current_spend_frame(1,2) [of cfg now clock v d st0] by simp_all
  have wx: "ro_budget_warning_sent st0 v = Some mk \<Longrightarrow> w" "ro_budget_exceeded_sent st0 v = Some mk \<Longrightarrow> x"
    by (simp_all add: w_def x_def budget_flag_is_set_def)
  have keep: "ro_budget_warning_sent st u = Some mk \<Longrightarrow> ro_budget_warning_sent st0 u = Some mk"
    "ro_budget_exceeded_sent st u = Some mk \<Longrightarrow> ro_budget_exceeded_sent st0 u = Some mk"
    by (simp_all add: st0_def roll_over_keeps)
  define pct where "pct = fl (fl (sp / lc_monthly_budget_usd cfg) * 100)"
  obtain st2 ev1 where wb: "warn_budget cfg mk v w sp pct st1 = (st2, ev1)" by (cases "warn_budget cfg mk v w sp pct st1")
  obtain st3 ev2 where xb: "exceed_budget cfg mk v x sp pct st2 = (st3, ev2)" by (cases "exceed_budget cfg mk v x sp pct st2")
  have out: "(st', evs) = (if w \<and> x then (st0, []) else if lc_monthly_budget_usd cfg \<le> 0 then (st1, []) else (st3, ev1 @ ev2))"
    unfolding assms(1) [symmetric] check_budget_def assms(2) [symmetric] st0_def [symmetric] w_def [symmetric] x_def [symmetric] Let_def c
    by (simp add: pct_def [symmetric] wb xb)
  consider "w \<and> x" | "\<not> (w \<and> x)" "lc_monthly_budget_usd cfg \<le> 0" | "\<not> (w \<and> x)" "\<not> lc_monthly_budget_usd cfg \<le> 0" by blast
  then show ?thesis
  proof cases
    case 1
    with out keep show ?thesis by simp
  next
    case 2
    with out keep f show ?thesis by simp
  next
    case 3
    then have e: "st' = st3" "evs = ev1 @ ev2" using out by (auto split: if_splits)
    have W: "(if ro_budget_warning_sent st0 u = Some mk then ro_budget_warning_sent st2 u = Some mk \<and> filter (warns u) ev1 = []
        else length (filter (warns u) ev1) \<le> 1 \<and> (filter (warns u) ev1 \<noteq> [] \<longrightarrow> ro_budget_warning_sent st2 u = Some mk)) \<and>
        ro_budget_exceeded_sent st2 = ro_budget_exceeded_sent st0 \<and> filter (exceeds u) ev1 = []"
      using wb wx(1) f by (cases "u = v") (auto simp: warn_budget_def split: if_splits)
    have X: "(if ro_budget_exceeded_sent st2 u = Some mk then ro_budget_exceeded_sent st3 u = Some mk \<and> filter (exceeds u) ev2 = []
        else length (filter (exceeds u) ev2) \<le> 1 \<and> (filter (exceeds u) ev2 \<noteq> [] \<longrightarrow> ro_budget_exceeded_sent st3 u = Some mk)) \<and>
        ro_budget_warning_sent st3 = ro_budget_warning_sent st2 \<and> filter (warns u) ev2 = []"
      using xb wx(2) W by (cases "u = v") (auto simp: exceed_budget_def split: if_splits)
    from W X keep show ?thesis unfolding e by (auto split: if_splits)
  qed
qed

text \<open>
  Budget notices are not repeated: over any sequence of budget checks within one calendar
  month, for any users and any spending, each user gets at most one warning and at most one
  exceeded notice.
\<close>

lemma budget_notices_once:
  assumes "\<forall>c \<in> set calls. month_key (bc_now c) = mk"
  shows "length (filter (warns u) (budget_run cfg calls st)) \<le> 1 \<and> length (filter (exceeds u) (budget_run cfg calls st)) \<le> 1"
proof -
  have "(if ro_budget_warning_sent st u = Some mk then filter (warns u) (budget_run cfg calls st) = []
         else length (filter (warns u) (budget_run cfg calls st)) \<le> 1) \<and>
        (if ro_budget_exceeded_sent st u = Some mk then filter (exceeds u) (budget_run cfg calls st) = []
         else length (filter (exceeds u) (budget_run cfg calls st)) \<le> 1)"
    using assms
  proof (induction calls arbitrary: st)
    case (Cons c cs)
    obtain st' evs where b: "check_budget cfg (bc_now c) (bc_clock c) (bc_user c) (bc_db c) st = (st', evs)"
      by (cases "check_budget cfg (bc_now c) (bc_clock c) (bc_user c) (bc_db c) st")
    have "mk = month_key (bc_now c)" using Cons.prems by simp
    note fl = check_budget_flags [OF b this, of u]
    have "\<forall>c \<in> set cs. month_key (bc_now c) = mk" using Cons.prems by simp
    note IH = Cons.IH [OF this, of st']
    have "budget_run cfg (c # cs) st = evs @ budget_run cfg cs st'" by (simp add: b)
    with fl IH show ?case by (auto split: if_splits)
  qed simp
  then show ?thesis by (auto split: if_splits)
qed

section \<open>Witnesses\<close>

definition ex_cfg :: llm_config where
  "ex_cfg = \<lparr>lc_default_provider = ''anthropic'', lc_fallback_enabled = True, lc_monthly_budget_usd = 50,
     lc_budget_warning_pct = fl (8 / 10), lc_budget_check_cache_seconds = 60, lc_trace_enabled = False,
     lc_trace_store_content = False, lc_enabled = (\<lambda>p. p \<in> {ANTHROPIC, OPENAI}), lc_model = (\<lambda>p. ''m''),
     lc_api_key = (\<lambda>p. if p \<in> {ANTHROPIC, OPENAI} then Some ''sys'' else None), lc_oc_enabled = False,
     lc_oc_model = [], lc_oc_base_url = []\<rparr>"

definition ex_req :: completion_request where
  "ex_req = \<lparr>rq_system = ''s'', rq_messages = [(''user'', ''hi'')], rq_max_tokens = 10, rq_temperature = 0,
     rq_response_format = ''text'', rq_task_type = T_QA, rq_preferred_provider = None, rq_reasoning_effort = None,
     rq_model_override = None, rq_disable_fallback = False\<rparr>"

definition ex_call :: "llm_instance \<Rightarrow> completion_request \<Rightarrow> string \<Rightarrow> completion_response result" where
  "ex_call inst req model =
     (if in_provider inst = ANTHROPIC then raise (ProviderError ''overloaded'')
      else ok \<lparr>rs_content = ''hello'', rs_provider_used = in_provider inst, rs_model_used = model, rs_input_tokens = 1,
              rs_output_tokens = 1, rs_cost_usd = 0, rs_latency_ms = 1\<rparr>)"

definition ex_router :: router where
  "ex_router = \<lparr>ro_budget_warning_sent = Map.empty, ro_budget_exceeded_sent = Map.empty, ro_cached_spend = Map.empty,
     ro_cache_expires_at = Map.empty, ro_provider_cache = Map.empty, ro_redis = None\<rparr>"

definition ex_env :: call_env where
  "ex_env = \<lparr>ce_now = 0, ce_clock = 0, ce_fresh_cost = ''c'', ce_fresh_trace = ''t''\<rparr>"

definition no_keys :: "provider \<Rightarrow> string option" where
  "no_keys p = None"

definition attempts_of :: "router \<times> db \<times> attempt list \<times> budget_event list \<times> completion_response result \<Rightarrow> attempt list" where
  "attempts_of x = fst (snd (snd x))"

definition ex_hosted :: "plan \<Rightarrow> db" where
  "ex_hosted p = empty_db\<lparr>users := [ex_user], plans := [p\<lparr>pln_is_default := True, pln_llm_provider := ''openai_compatible''\<rparr>]\<rparr>"

lemma cache_ok_empty [simp]: "cache_ok Map.empty"
  by (simp add: cache_ok_def)


lemma plan_routing_restricts_witness:
  "list_all (\<lambda>(p, k, model). model = ''gpt-4o-mini'')
     (attempts_of (plan_aware_complete True ex_cfg no_keys ex_call ex_env ex_req ''u1'' ex_router (ex_hosted ex_plan)))"
proof -
  obtain st' d' atts evs r where x:
    "plan_aware_complete True ex_cfg no_keys ex_call ex_env ex_req ''u1'' ex_router (ex_hosted ex_plan) = (st', d', atts, evs, r)"
    by (rule prod_cases5)
  have "get_effective_plan (ce_now ex_env) (ex_hosted ex_plan) ''u1'' = ok (ex_plan\<lparr>pln_llm_provider := ''openai_compatible''\<rparr>)"
    by code_simp
  from plan_routing_restricts [OF this _ _ x] x show ?thesis by (simp add: attempts_of_def ex_plan_def list_all_iff)
qed

lemma user_keys_not_cached_witness:
  "cache_ok (ro_provider_cache (fst (complete ex_cfg (\<lambda>p. Some ''mine'') ex_call ex_env ex_req ''u1'' ex_router empty_db)))"
proof -
  obtain st' d' atts evs r where x: "complete ex_cfg (\<lambda>p. Some ''mine'') ex_call ex_env ex_req ''u1'' ex_router empty_db = (st', d', atts, evs, r)"
    by (rule prod_cases5)
  obtain s2 a2 r2 where y: "stream_complete ex_cfg (\<lambda>p. Some ''mine'') (\<lambda>i q m. ok ()) ex_req ex_router = (s2, a2, r2)"
    by (rule prod_cases3)
  have "cache_ok (ro_provider_cache ex_router)" by (simp add: ex_router_def)
  from user_keys_not_cached [OF this x y] x show ?thesis by simp
qed

lemma budget_notices_once_witness:
  "length (filter (warns ''u1'') (budget_run ex_cfg (replicate 3 \<lparr>bc_now = 0, bc_clock = 0, bc_user = ''u1'', bc_db = empty_db\<rparr>) ex_router)) \<le> 1"
  using budget_notices_once [of "replicate 3 \<lparr>bc_now = 0, bc_clock = 0, bc_user = ''u1'', bc_db = empty_db\<rparr>" "month_key 0"] by simp

text \<open>
  What the plan does not enforce: if the provider of the plan is not available, its request
  is sent to another provider (with the plan's model) in spite of \<open>disable_fallback\<close>; a user whose plan does
  not allow own keys still has a stored key used; and a stream falls back to a second provider although
  the request disables fallback.
\<close>

lemma plan_restrictions_leak:
  "attempts_of (plan_aware_complete True ex_cfg no_keys ex_call ex_env ex_req ''u1'' ex_router (ex_hosted ex_plan)) =
     [(ANTHROPIC, None, ''gpt-4o-mini'')] \<and>
   attempts_of (plan_aware_complete True ex_cfg (\<lambda>p. if p = GOOGLE then Some ''mine'' else None) ex_call ex_env ex_req ''u1'' ex_router
       (empty_db\<lparr>users := [ex_user], plans := [ex_plan\<lparr>pln_llm_provider := ''google''\<rparr>]\<rparr>)) =
     [(GOOGLE, Some ''mine'', ''gpt-4o-mini'')] \<and>
   map fst (fst (snd (stream_complete ex_cfg no_keys ex_call (ex_req\<lparr>rq_disable_fallback := True\<rparr>) ex_router))) = [ANTHROPIC, OPENAI]"
  by (intro conjI) code_simp+

end
