(* ===== verification/Chunking.thy ===== *)
theory Chunking
  imports PyStr
begin

text \<open>
  Chunking of source texts: the functions \<open>estimate_tokens\<close>, \<open>_split_by_paragraphs\<close>,
  \<open>_split_by_token_window\<close> and \<open>chunk_text\<close> of \<^verbatim>\<open>src/src/wikimind/ingest/utils.py\<close>
  and the class \<open>DocumentChunk\<close> of \<^verbatim>\<open>models/dto/ingest.py\<close> (its random \<open>id\<close>, which no
  function here reads, and the \<open>embedding_id\<close>, set elsewhere, are left out). A token limit is a
  natural number. The window loop does not advance when the limit is \<open>0\<close>, so it is a partial
  function: not returning is \<open>None\<close>, and the theorems show that every positive limit gives a
  result. They also show the promise of the documentation, that no chunk exceeds the limit, and
  which characters of the text the chunks keep.
\<close>

section \<open>Data\<close>

record document_chunk =
  dc_document_id :: string
  dc_content :: string
  dc_heading_path :: "string list"
  dc_token_count :: nat
  dc_chunk_index :: nat

definition estimate_tokens :: "string \<Rightarrow> nat" where
  "estimate_tokens s = length s div 4"

text \<open>The constructor call that every branch of the code makes.\<close>

definition make_chunk :: "string \<Rightarrow> string list \<Rightarrow> nat \<Rightarrow> string \<Rightarrow> document_chunk" where
  "make_chunk doc_id heading_path chunk_index content =
     \<lparr>dc_document_id = doc_id, dc_content = content, dc_heading_path = heading_path,
      dc_token_count = estimate_tokens content, dc_chunk_index = chunk_index\<rparr>"

section \<open>Token windows\<close>

text \<open>
  \<open>rfind_space s i j\<close> is \<^verbatim>\<open>s.rfind(" ", i, j)\<close>, with \<open>None\<close> for \<open>-1\<close>; \<open>skip_spaces\<close> is the inner
  loop that moves the position past spaces.
\<close>

fun rfind_space :: "string \<Rightarrow> nat \<Rightarrow> nat \<Rightarrow> nat option" where
  "rfind_space s i 0 = None"
| "rfind_space s i (Suc j) =
     (if j < i then None
      else if j < length s \<and> s ! j = CHR '' '' then Some j
      else rfind_space s i j)"

function skip_spaces :: "string \<Rightarrow> nat \<Rightarrow> nat" where
  "skip_spaces s pos = (if pos < length s \<and> s ! pos = CHR '' '' then skip_spaces s (pos + 1) else pos)"
  by pat_completeness auto
termination
  by (relation "measure (\<lambda>(s, pos). length s - pos)") auto

definition window_end :: "string \<Rightarrow> nat \<Rightarrow> nat \<Rightarrow> nat" where
  "window_end s max_chars pos =
     (let e = min (pos + max_chars) (length s) in
      if e < length s
      then (case rfind_space s pos e of
              None \<Rightarrow> e
            | Some split_at \<Rightarrow> if split_at \<le> pos then e else split_at)
      else e)"

partial_function (option) window_loop ::
  "string \<Rightarrow> string \<Rightarrow> string list \<Rightarrow> nat \<Rightarrow> nat \<Rightarrow> nat \<Rightarrow> document_chunk list option" where
  "window_loop s doc_id heading_path max_chars chunk_index pos =
     (if pos < length s
      then (let e = window_end s max_chars pos;
                content = py_strip (take (e - pos) (drop pos s));
                new = (if content \<noteq> [] then [make_chunk doc_id heading_path chunk_index content] else [])
            in Option.bind (window_loop s doc_id heading_path max_chars (chunk_index + length new) (skip_spaces s e))
                 (\<lambda>rest. Some (new @ rest)))
      else Some [])"

declare window_loop.simps [code]

definition split_by_token_window ::
  "string \<Rightarrow> string \<Rightarrow> string list \<Rightarrow> nat \<Rightarrow> nat \<Rightarrow> document_chunk list option" where
  "split_by_token_window s doc_id heading_path max_chunk_tokens start_index =
     window_loop s doc_id heading_path (max_chunk_tokens * 4) start_index 0"

section \<open>Paragraphs\<close>

text \<open>
  \<open>flush_content\<close> is the branch on the size of a flushed group of paragraphs, the same at its
  two places; \<open>paragraph_loop\<close> the loop over the paragraphs and the final flush, which unlike
  the flush in the loop leaves out empty content.
\<close>

definition flush_content ::
  "string \<Rightarrow> string list \<Rightarrow> nat \<Rightarrow> nat \<Rightarrow> string \<Rightarrow> document_chunk list option" where
  "flush_content doc_id heading_path max_chunk_tokens chunk_index content =
     (if max_chunk_tokens < estimate_tokens content
      then split_by_token_window content doc_id heading_path max_chunk_tokens chunk_index
      else Some [make_chunk doc_id heading_path chunk_index content])"

fun paragraph_loop ::
  "string \<Rightarrow> string list \<Rightarrow> nat \<Rightarrow> nat \<Rightarrow> string list \<Rightarrow> string list \<Rightarrow> document_chunk list option" where
  "paragraph_loop doc_id heading_path mx chunk_index current_parts [] =
     (let content = py_strip (py_join [CHR 0x0A, CHR 0x0A] current_parts) in
      if current_parts \<noteq> [] \<and> content \<noteq> [] then flush_content doc_id heading_path mx chunk_index content
      else Some [])"
| "paragraph_loop doc_id heading_path mx chunk_index current_parts (para # paras) =
     (let candidate = py_strip (py_join [CHR 0x0A, CHR 0x0A] (current_parts @ [para])) in
      if mx < estimate_tokens candidate \<and> current_parts \<noteq> []
      then Option.bind
             (flush_content doc_id heading_path mx chunk_index (py_strip (py_join [CHR 0x0A, CHR 0x0A] current_parts)))
             (\<lambda>sub. Option.bind (paragraph_loop doc_id heading_path mx (chunk_index + length sub) [para] paras)
               (\<lambda>rest. Some (sub @ rest)))
      else paragraph_loop doc_id heading_path mx chunk_index (current_parts @ [para]) paras)"

definition split_by_paragraphs ::
  "string \<Rightarrow> string \<Rightarrow> string list \<Rightarrow> nat \<Rightarrow> nat \<Rightarrow> document_chunk list option" where
  "split_by_paragraphs s doc_id heading_path max_chunk_tokens start_index =
     paragraph_loop doc_id heading_path max_chunk_tokens start_index []
       (split_runs 2 (\<lambda>c. c = CHR 0x0A) [] s)"

section \<open>Headings\<close>

text \<open>
  \<open>heading_len s\<close> is the length of a match of \<^verbatim>\<open>#{1,3} .+\<close> at the start of \<open>s\<close>, \<open>0\<close> without one;
  \<open>split_headings []\<close> is \<^verbatim>\<open>re.split\<close> with that pattern as a group (pieces and matches
  alternate), \<open>heading_match\<close> the call of \<^verbatim>\<open>re.match\<close> with the level and the text as its groups.
\<close>

definition heading_len :: "string \<Rightarrow> nat" where
  "heading_len s =
     (let h = length (takeWhile (\<lambda>c. c = CHR ''#'') s); r = drop h s in
      if 1 \<le> h \<and> h \<le> 3 \<and> r \<noteq> [] \<and> hd r = CHR '' '' \<and> tl r \<noteq> [] \<and> hd (tl r) \<noteq> CHR 0x0A
      then h + 1 + length (takeWhile (\<lambda>c. c \<noteq> CHR 0x0A) (tl r))
      else 0)"

definition heading_match :: "string \<Rightarrow> (nat \<times> string) option" where
  "heading_match s =
     (if heading_len s = 0 then None
      else (let h = length (takeWhile (\<lambda>c. c = CHR ''#'') s)
            in Some (h, drop (h + 1) (take (heading_len s) s))))"

function split_headings :: "string \<Rightarrow> string \<Rightarrow> string list" where
  "split_headings acc [] = [rev acc]"
| "split_headings acc (c # cs) =
     (let n = heading_len (c # cs) in
      if n = 0 then split_headings (c # acc) cs
      else rev acc # take n (c # cs) # split_headings [] (drop n (c # cs)))"
  by pat_completeness auto
termination
  by (relation "measure (\<lambda>(acc, s). length s)") auto

text \<open>
  The loop over the sections carries the heading path, the collected sections and the next
  index; \<open>content_of\<close> is the joined and stripped content.
\<close>

definition content_of :: "string list \<Rightarrow> string" where
  "content_of current_content = py_strip (py_join [CHR 0x0A] current_content)"

fun section_loop ::
  "string \<Rightarrow> nat \<Rightarrow> string list \<Rightarrow> string list \<Rightarrow> nat \<Rightarrow> string list \<Rightarrow> document_chunk list" where
  "section_loop doc_id mx headings current_content chunk_index [] =
     (let content = content_of current_content in
      if content \<noteq> [] then [make_chunk doc_id headings chunk_index content] else [])"
| "section_loop doc_id mx headings current_content chunk_index (sec # secs) =
     (let (headings', collected) =
        (case heading_match sec of
           Some (level, heading_text) \<Rightarrow> (take (level - 1) headings @ [py_strip heading_text], current_content)
         | None \<Rightarrow> (headings, current_content @ [sec]));
        content = content_of collected
      in if mx \<le> estimate_tokens content \<and> content \<noteq> []
         then make_chunk doc_id headings' chunk_index content #
              section_loop doc_id mx headings' [] (chunk_index + 1) secs
         else section_loop doc_id mx headings' collected chunk_index secs)"

fun resplit_loop :: "string \<Rightarrow> nat \<Rightarrow> nat \<Rightarrow> document_chunk list \<Rightarrow> document_chunk list option" where
  "resplit_loop doc_id mx idx [] = Some []"
| "resplit_loop doc_id mx idx (chunk # chunks) =
     (if mx < dc_token_count chunk
      then Option.bind (split_by_paragraphs (dc_content chunk) doc_id (dc_heading_path chunk) mx idx)
             (\<lambda>sub. Option.bind (resplit_loop doc_id mx (idx + length sub) chunks) (\<lambda>rest. Some (sub @ rest)))
      else Option.bind (resplit_loop doc_id mx (idx + 1) chunks)
             (\<lambda>rest. Some (chunk\<lparr>dc_chunk_index := idx\<rparr> # rest)))"

definition section_chunks :: "string \<Rightarrow> string \<Rightarrow> nat \<Rightarrow> document_chunk list" where
  "section_chunks s doc_id max_chunk_tokens =
     (let chunks = section_loop doc_id max_chunk_tokens [] [] 0 (split_headings [] s) in
      if chunks = [] then [make_chunk doc_id [] 0 s] else chunks)"

definition chunk_text :: "string \<Rightarrow> string \<Rightarrow> nat \<Rightarrow> document_chunk list option" where
  "chunk_text s doc_id max_chunk_tokens =
     (let chunks = section_chunks s doc_id max_chunk_tokens in
      if \<not> list_ex (\<lambda>c. max_chunk_tokens < dc_token_count c) chunks then Some chunks
      else resplit_loop doc_id max_chunk_tokens 0 chunks)"

section \<open>The contract of a splitter\<close>

text \<open>
  \<open>covers d mx i s cs\<close>: the chunks \<open>cs\<close> of document \<open>d\<close> respect the limit \<open>mx\<close>, carry their own size,
  are numbered from \<open>i\<close> on without gaps, and contain the visible characters of \<open>s\<close> in order. The locale
  is the contract of a function that splits one text; its lemma composes a splitter with the
  processing of the text that follows.
\<close>

definition covers :: "string \<Rightarrow> nat \<Rightarrow> nat \<Rightarrow> string \<Rightarrow> document_chunk list \<Rightarrow> bool" where
  "covers d mx i s cs \<longleftrightarrow>
     (\<forall>c \<in> set cs. dc_document_id c = d \<and> dc_token_count c = estimate_tokens (dc_content c) \<and> dc_token_count c \<le> mx) \<and>
     map dc_chunk_index cs = [i ..< i + length cs] \<and>
     visible (concat (map dc_content cs)) = visible s"

lemma covers_append:
  assumes "covers d mx i s cs" and "covers d mx (i + length cs) t ds"
  shows "covers d mx i (s @ t) (cs @ ds)"
proof -
  have "[i ..< i + (length cs + length ds)] = [i ..< i + length cs] @ [i + length cs ..< i + length cs + length ds]"
    by (metis add.assoc le_add1 upt_add_eq_append)
  with assms show ?thesis by (auto simp: covers_def)
qed

lemma covers_Nil: "visible s = [] \<Longrightarrow> covers d mx i s []"
  by (simp add: covers_def)

lemma covers_single: "estimate_tokens s \<le> mx \<Longrightarrow> visible s = visible t \<Longrightarrow> covers d mx i t [make_chunk d hp i s]"
  by (simp add: covers_def make_chunk_def)

lemma covers_cong: "visible s = visible t \<Longrightarrow> covers d mx i s cs \<longleftrightarrow> covers d mx i t cs"
  by (simp add: covers_def)

locale splitter =
  fixes split :: "string \<Rightarrow> string \<Rightarrow> string list \<Rightarrow> nat \<Rightarrow> nat \<Rightarrow> document_chunk list option"
  assumes split_covers: "1 \<le> mx \<Longrightarrow> \<exists>cs. split s d hp mx i = Some cs \<and> covers d mx i s cs"
begin

lemma split_then:
  assumes "1 \<le> mx" and "\<And>j. \<exists>cs. k j = Some cs \<and> covers d mx j t cs"
  shows "\<exists>cs. Option.bind (split s d hp mx i) (\<lambda>sub. Option.bind (k (i + length sub)) (\<lambda>rest. Some (sub @ rest))) = Some cs \<and>
           covers d mx i (s @ t) cs"
proof -
  obtain cs where cs: "split s d hp mx i = Some cs" "covers d mx i s cs" using split_covers [OF assms(1)] by blast
  obtain ds where ds: "k (i + length cs) = Some ds" "covers d mx (i + length cs) t ds" using assms(2) by blast
  show ?thesis using cs ds by (auto intro: covers_append)
qed

end

section \<open>Windows are within the limit and keep the text\<close>

lemma rfind_space_bounds: "rfind_space s i j = Some k \<Longrightarrow> i \<le> k \<and> k < j"
  by (induction s i j rule: rfind_space.induct) (auto split: if_splits)

lemma window_end_bounds:
  assumes "pos < length s" and "0 < mx"
  shows "pos < window_end s mx pos \<and> window_end s mx pos \<le> pos + mx \<and> window_end s mx pos \<le> length s"
  using assms by (auto simp: window_end_def Let_def dest: rfind_space_bounds split: option.splits)

declare skip_spaces.simps [simp del]

lemma skip_spaces_bounds: "pos \<le> skip_spaces s pos \<and> (pos \<le> length s \<longrightarrow> skip_spaces s pos \<le> length s)"
proof (induction s pos rule: skip_spaces.induct)
  case (1 s pos)
  then show ?case by (subst (1 2) skip_spaces.simps) auto
qed

lemma visible_skip_spaces: "visible (drop (skip_spaces s pos) s) = visible (drop pos s)"
proof (induction s pos rule: skip_spaces.induct)
  case (1 s pos)
  show ?case
  proof (cases "pos < length s \<and> s ! pos = CHR '' ''")
    case True
    then have "drop pos s = CHR '' '' # drop (pos + 1) s" by (metis Cons_nth_drop_Suc Suc_eq_plus1)
    then have "visible (drop pos s) = visible (drop (pos + 1) s)" by (simp add: visible_def is_space_def cp_def)
    with True 1 show ?thesis by (subst skip_spaces.simps) simp
  next
    case False
    then show ?thesis by (subst skip_spaces.simps) auto
  qed
qed

lemma estimate_window: "estimate_tokens (py_strip (take n s)) \<le> mx" if "n \<le> mx * 4"
proof -
  have "length (py_strip (take n s)) \<le> mx * 4"
    using length_py_strip [of "take n s"] that by (simp add: min_def split: if_splits)
  then show ?thesis unfolding estimate_tokens_def by simp
qed

lemma window_loop_covers:
  assumes "1 \<le> mx"
  shows "\<exists>cs. window_loop s d hp (mx * 4) i pos = Some cs \<and> covers d mx i (drop pos s) cs"
proof (induction "length s - pos" arbitrary: i pos rule: less_induct)
  case less
  show ?case
  proof (cases "pos < length s")
    case False
    then show ?thesis by (subst window_loop.simps) (simp add: covers_Nil)
  next
    case True
    let ?e = "window_end s (mx * 4) pos"
    let ?content = "py_strip (take (?e - pos) (drop pos s))"
    let ?new = "if ?content \<noteq> [] then [make_chunk d hp i ?content] else []"
    have e: "pos < ?e" "?e \<le> pos + mx * 4" using window_end_bounds [OF True, of "mx * 4"] assms by auto
    with True skip_spaces_bounds [of ?e s] have "length s - skip_spaces s ?e < length s - pos" by linarith
    from less [OF this, of "i + length ?new"] obtain rest where
      rest: "window_loop s d hp (mx * 4) (i + length ?new) (skip_spaces s ?e) = Some rest"
        "covers d mx (i + length ?new) (drop (skip_spaces s ?e) s) rest" by blast
    have new: "covers d mx i (take (?e - pos) (drop pos s)) ?new"
      using e estimate_window [of "?e - pos" mx "drop pos s"]
      by (auto intro: covers_Nil covers_single simp: py_strip_Nil_iff)
    have "covers d mx (i + length ?new) (drop ?e s) rest"
      using rest(2) by (simp add: covers_cong [OF visible_skip_spaces])
    from covers_append [OF new this] have "covers d mx i (drop pos s) (?new @ rest)"
      using e by (metis append_take_drop_id drop_drop le_add_diff_inverse2 less_imp_le_nat)
    with True rest(1) show ?thesis by (subst window_loop.simps) (simp add: Let_def)
  qed
qed

interpretation windows: splitter split_by_token_window
  using window_loop_covers [where pos = 0] by unfold_locales (simp add: split_by_token_window_def)

section \<open>Paragraph groups\<close>

interpretation flush: splitter "\<lambda>s d hp mx i. flush_content d hp mx i s"
proof
  fix mx i :: nat and s d :: string and hp :: "string list"
  assume "1 \<le> mx"
  then show "\<exists>cs. flush_content d hp mx i s = Some cs \<and> covers d mx i s cs"
    using windows.split_covers by (auto simp: flush_content_def intro: covers_single)
qed

lemma visible_newlines [simp]: "visible [CHR 0x0A] = []" "visible [CHR 0x0A, CHR 0x0A] = []"
  by (simp_all add: visible_def is_space_def cp_def)

lemma paragraph_loop_covers:
  assumes "1 \<le> mx"
  shows "\<exists>cs. paragraph_loop d hp mx i parts paras = Some cs \<and> covers d mx i (concat parts @ concat paras) cs"
proof (induction paras arbitrary: i parts)
  case Nil
  let ?content = "py_strip (py_join [CHR 0x0A, CHR 0x0A] parts)"
  have v: "visible ?content = visible (concat parts)" by (simp add: visible_join)
  show ?case
  proof (cases "parts \<noteq> [] \<and> ?content \<noteq> []")
    case True
    with flush.split_covers [OF assms, where s = ?content and d = d and hp = hp and i = i] show ?thesis
      by (simp add: Let_def covers_cong [OF v])
  next
    case False
    then have "visible (concat parts) = []" using v by (auto simp: py_strip_Nil_iff)
    with False show ?thesis by (auto intro: covers_Nil)
  qed
next
  case (Cons para paras)
  let ?content = "py_strip (py_join [CHR 0x0A, CHR 0x0A] parts)"
  have v: "visible (?content @ para @ concat paras) = visible (concat parts @ para @ concat paras)"
    by (simp add: visible_join)
  have "\<exists>cs. paragraph_loop d hp mx j [para] paras = Some cs \<and> covers d mx j (para @ concat paras) cs" for j
    using Cons [of j "[para]"] by simp
  from flush.split_then [OF assms this, where s = ?content and hp = hp and i = i] Cons [of i "parts @ [para]"] show ?case
    by (auto simp: Let_def covers_cong [OF v])
qed

lemma visible_pieces: "visible (concat (split_runs n (\<lambda>c. c = CHR 0x0A) [] s)) = visible s"
  using split_runs_filter [of "\<lambda>c. c = CHR 0x0A" "\<lambda>c. \<not> is_space c" n "[]" s]
  by (simp add: visible_def filter_concat is_space_def cp_def)

interpretation paragraphs: splitter split_by_paragraphs
proof
  fix mx i :: nat and s d :: string and hp :: "string list"
  assume "1 \<le> mx"
  from paragraph_loop_covers [OF this, of d hp i "[]" "split_runs 2 (\<lambda>c. c = CHR 0x0A) [] s"]
  show "\<exists>cs. split_by_paragraphs s d hp mx i = Some cs \<and> covers d mx i s cs"
    by (simp add: split_by_paragraphs_def covers_cong [OF visible_pieces])
qed

section \<open>Headings\<close>

text \<open>The text without its headings: what is left when every match of the pattern is cut out.\<close>

function unheaded :: "string \<Rightarrow> string" where
  "unheaded [] = []"
| "unheaded (c # cs) =
     (let n = heading_len (c # cs) in if n = 0 then c # unheaded cs else unheaded (drop n (c # cs)))"
  by pat_completeness auto
termination
  by (relation "measure length") auto

lemma heading_len_pos:
  "heading_len s \<noteq> 0 \<longleftrightarrow> (\<exists>h x r. s = h @ CHR '' '' # x # r \<and> set h \<subseteq> {CHR ''#''} \<and> 1 \<le> length h \<and> length h \<le> 3 \<and> x \<noteq> CHR 0x0A)"
proof
  let ?h = "takeWhile (\<lambda>c. c = CHR ''#'') s"
  assume "heading_len s \<noteq> 0"
  then have r: "drop (length ?h) s \<noteq> []" "tl (drop (length ?h) s) \<noteq> []" "1 \<le> length ?h" "length ?h \<le> 3"
    "hd (drop (length ?h) s) = CHR '' ''" "hd (tl (drop (length ?h) s)) \<noteq> CHR 0x0A"
    by (auto simp: heading_len_def Let_def split: if_splits)
  moreover have "s = ?h @ drop (length ?h) s" by (metis takeWhile_eq_take append_take_drop_id)
  ultimately have "s = ?h @ CHR '' '' # hd (tl (drop (length ?h) s)) # tl (tl (drop (length ?h) s))"
    by (metis list.collapse)
  moreover have "set ?h \<subseteq> {CHR ''#''}" by (auto dest: set_takeWhileD)
  ultimately show "\<exists>h x r. s = h @ CHR '' '' # x # r \<and> set h \<subseteq> {CHR ''#''} \<and> 1 \<le> length h \<and> length h \<le> 3 \<and> x \<noteq> CHR 0x0A"
    using r by blast
next
  assume "\<exists>h x r. s = h @ CHR '' '' # x # r \<and> set h \<subseteq> {CHR ''#''} \<and> 1 \<le> length h \<and> length h \<le> 3 \<and> x \<noteq> CHR 0x0A"
  then obtain h x r where s: "s = h @ CHR '' '' # x # r" and h: "set h \<subseteq> {CHR ''#''}" "1 \<le> length h" "length h \<le> 3" "x \<noteq> CHR 0x0A"
    by blast
  have "takeWhile (\<lambda>c. c = CHR ''#'') s = h" using h(1) by (auto simp: s takeWhile_append)
  with h show "heading_len s \<noteq> 0" by (simp add: heading_len_def s)
qed

lemma heading_len_append: "heading_len (s @ t) = 0 \<Longrightarrow> heading_len s = 0"
  using heading_len_pos [of s] heading_len_pos [of "s @ t"] by force

lemma heading_len_Nil [simp]: "heading_len [] = 0"
  by (simp add: heading_len_def)

lemma heading_len_take: "heading_len (take (heading_len s) s) = heading_len s"
proof (cases "heading_len s = 0")
  case False
  define h where "h = takeWhile (\<lambda>c. c = CHR ''#'') s"
  define r where "r = drop (length h) s"
  define w where "w = takeWhile (\<lambda>c. c \<noteq> CHR 0x0A) (tl r)"
  have s: "s = h @ r" unfolding r_def h_def by (metis takeWhile_eq_take append_take_drop_id)
  have r: "r \<noteq> []" "hd r = CHR '' ''" "tl r \<noteq> []" "hd (tl r) \<noteq> CHR 0x0A" "1 \<le> length h" "length h \<le> 3"
    and len: "heading_len s = length h + 1 + length w"
    using False by (auto simp: heading_len_def Let_def h_def [symmetric] r_def [symmetric] w_def [symmetric] split: if_splits)
  have tr: "take (1 + length w) r = CHR '' '' # w"
    using r by (cases r) (simp_all add: w_def takeWhile_eq_take [symmetric])
  have wne: "w \<noteq> [] \<and> hd w \<noteq> CHR 0x0A" using r by (cases "tl r") (auto simp: w_def)
  have all: "takeWhile (\<lambda>c. c = CHR ''#'') h = h" "takeWhile (\<lambda>c. c \<noteq> CHR 0x0A) w = w"
    unfolding h_def w_def by (rule takeWhile_idem)+
  have "take (heading_len s) s = h @ CHR '' '' # w" using tr unfolding len by (simp add: s)
  moreover have "takeWhile (\<lambda>c. c = CHR ''#'') (h @ CHR '' '' # w) = h"
    using all(1) by (simp add: takeWhile_append takeWhile_eq_all_conv)
  moreover from this have "heading_len (h @ CHR '' '' # w) = length h + 1 + length w"
    using r wne by (simp add: heading_len_def all(2))
  ultimately show ?thesis by (simp only: len)
qed simp

text \<open>The sections that are not headings make up the text without its headings.\<close>

lemma split_headings_body:
  "acc = [] \<or> heading_len (rev acc @ s) = 0 \<Longrightarrow>
   concat (filter (\<lambda>p. heading_match p = None) (split_headings acc s)) = rev acc @ unheaded s"
proof (induction acc s rule: split_headings.induct)
  case (1 acc)
  then show ?case by (auto simp: heading_match_def Let_def)
next
  case (2 acc c cs)
  let ?n = "heading_len (c # cs)"
  show ?case
  proof (cases "?n = 0")
    case True
    with 2 show ?thesis by (auto simp: Let_def)
  next
    case False
    then have "heading_match (take ?n (c # cs)) \<noteq> None"
      by (simp add: heading_match_def heading_len_take Let_def del: take_Suc_Cons)
    moreover have "heading_len (rev acc) = 0" using 2(3) heading_len_append by auto
    ultimately show ?thesis using False 2(2) [OF refl False]
      by (simp add: Let_def heading_match_def [of "rev acc"])
  qed
qed

section \<open>Whole texts\<close>

lemma visible_content_of [simp]: "visible (content_of xs) = visible (concat xs)"
  by (simp add: content_of_def visible_join)

text \<open>Chunks made from sections: sizes are their own, numbers count from the start, only blank text is dropped.\<close>

definition numbered :: "string \<Rightarrow> nat \<Rightarrow> string \<Rightarrow> document_chunk list \<Rightarrow> bool" where
  "numbered d i s cs \<longleftrightarrow>
     (\<forall>c \<in> set cs. dc_document_id c = d \<and> dc_token_count c = estimate_tokens (dc_content c)) \<and>
     map dc_chunk_index cs = [i ..< i + length cs] \<and>
     visible (concat (map dc_content cs)) = visible s"

lemma numbered_Cons: "numbered d (i + 1) t cs \<Longrightarrow> visible s = visible a @ visible t \<Longrightarrow> numbered d i s (make_chunk d hp i a # cs)"
  by (auto simp: numbered_def make_chunk_def upt_conv_Cons [of i] simp del: upt_Suc)

lemma section_loop_numbered:
  "numbered d i (concat current @ concat (filter (\<lambda>p. heading_match p = None) secs)) (section_loop d mx hs current i secs)"
proof (induction secs arbitrary: hs current i)
  case Nil
  have "content_of current = [] \<longleftrightarrow> visible (concat current) = []"
    by (simp add: content_of_def py_strip_Nil_iff visible_join)
  then show ?case by (auto simp: Let_def numbered_def make_chunk_def)
next
  case (Cons sec secs)
  have next': "numbered d (Suc i) (concat (filter (\<lambda>p. heading_match p = None) secs)) (section_loop d mx hs' [] (Suc i) secs)" for hs'
    using Cons [of "Suc i" "[]"] by simp
  have more: "numbered d i (concat current @ sec @ concat (filter (\<lambda>p. heading_match p = None) secs)) (section_loop d mx hs' (current @ [sec]) i secs)" for hs'
    using Cons [of i "current @ [sec]"] by simp
  show ?case
  proof (cases "heading_match sec")
    case None
    with next' more show ?thesis
      by (auto simp: Let_def intro!: numbered_Cons)
  next
    case (Some lt)
    obtain l t where "lt = (l, t)" by (cases lt)
    with Some next' Cons show ?thesis
      by (auto simp: Let_def intro!: numbered_Cons)
  qed
qed

lemma section_loop_visible: "c \<in> set (section_loop d mx hs current i secs) \<Longrightarrow> visible (dc_content c) \<noteq> []"
proof (induction secs arbitrary: hs current i)
  case Nil
  then show ?case by (auto simp: Let_def make_chunk_def content_of_def py_strip_Nil_iff split: if_splits)
next
  case (Cons sec secs)
  show ?case
  proof (cases "heading_match sec")
    case None
    with Cons show ?thesis
      by (auto simp: Let_def make_chunk_def content_of_def py_strip_Nil_iff split: if_splits)
  next
    case (Some lt)
    obtain l t where "lt = (l, t)" by (cases lt)
    with Some Cons show ?thesis
      by (auto simp: Let_def make_chunk_def content_of_def py_strip_Nil_iff split: if_splits)
  qed
qed

text \<open>The text that chunking keeps: without its headings, unless nothing else is in it.\<close>

definition kept_text :: "string \<Rightarrow> string" where
  "kept_text s = (if visible (unheaded s) = [] then s else unheaded s)"

lemma section_chunks_numbered: "numbered d 0 (kept_text s) (section_chunks s d mx)"
proof -
  let ?cs = "section_loop d mx [] [] 0 (split_headings [] s)"
  have n: "numbered d 0 (unheaded s) ?cs"
    using section_loop_numbered [of d 0 "[]" "split_headings [] s" mx "[]"] by (simp add: split_headings_body)
  show ?thesis
  proof (cases "?cs = []")
    case True
    with n show ?thesis by (auto simp: section_chunks_def kept_text_def numbered_def make_chunk_def)
  next
    case False
    then have "hd ?cs \<in> set ?cs" by simp
    then have "visible (dc_content (hd ?cs)) \<noteq> []" by (rule section_loop_visible)
    with False n have "visible (unheaded s) \<noteq> []" by (cases ?cs) (auto simp: numbered_def)
    with False n show ?thesis by (simp add: section_chunks_def kept_text_def)
  qed
qed

lemma resplit_loop_covers:
  assumes "1 \<le> mx" and "\<forall>c \<in> set cs. dc_document_id c = d \<and> dc_token_count c = estimate_tokens (dc_content c)"
  shows "\<exists>ds. resplit_loop d mx i cs = Some ds \<and> covers d mx i (concat (map dc_content cs)) ds"
  using assms(2)
proof (induction cs arbitrary: i)
  case Nil
  show ?case by (simp add: covers_Nil)
next
  case (Cons c cs)
  then have IH: "\<exists>ds. resplit_loop d mx j cs = Some ds \<and> covers d mx j (concat (map dc_content cs)) ds" for j
    by simp
  show ?case
  proof (cases "mx < dc_token_count c")
    case True
    with paragraphs.split_then [OF assms(1) IH, of "dc_content c" "dc_heading_path c" i] show ?thesis by simp
  next
    case False
    obtain ds where ds: "resplit_loop d mx (i + 1) cs = Some ds" "covers d mx (i + 1) (concat (map dc_content cs)) ds"
      using IH by blast
    have "covers d mx i (dc_content c) [c\<lparr>dc_chunk_index := i\<rparr>]" using False Cons.prems by (simp add: covers_def)
    from covers_append [OF this, of "concat (map dc_content cs)" ds] ds False show ?thesis by simp
  qed
qed

lemma chunk_text_covers:
  assumes "1 \<le> mx"
  shows "\<exists>cs. chunk_text s d mx = Some cs \<and> covers d mx 0 (kept_text s) cs"
proof -
  let ?cs = "section_chunks s d mx"
  have n: "numbered d 0 (kept_text s) ?cs" by (rule section_chunks_numbered)
  then have v: "visible (concat (map dc_content ?cs)) = visible (kept_text s)" by (simp add: numbered_def)
  show ?thesis
  proof (cases "list_ex (\<lambda>c. mx < dc_token_count c) ?cs")
    case True
    with resplit_loop_covers [OF assms, of ?cs d 0] n show ?thesis
      by (simp add: chunk_text_def numbered_def covers_cong [OF v])
  next
    case False
    with n have "covers d mx 0 (kept_text s) ?cs" by (auto simp: covers_def numbered_def list_ex_iff not_less)
    with False show ?thesis by (simp add: chunk_text_def)
  qed
qed

text \<open>
  C7. The promise of the documentation: for every positive limit chunking returns, and no chunk exceeds the
  limit, whatever the text. Every chunk carries the document and its own size, and the
  numbers of the chunks are 0, 1, 2, \<dots> in order.
\<close>

theorem chunk_text_bounded:
  assumes "1 \<le> mx"
  shows "\<exists>cs. chunk_text s d mx = Some cs \<and>
    (\<forall>c \<in> set cs. dc_document_id c = d \<and> dc_token_count c = estimate_tokens (dc_content c) \<and> dc_token_count c \<le> mx) \<and>
    map dc_chunk_index cs = [0 ..< length cs]"
  using chunk_text_covers [OF assms, of s d] unfolding covers_def add_0 by blast

text \<open>
  C8. What the chunks contain: the characters of the text that are not white space, in order and each
  once, except those of headings, which survive only in the heading paths; a text with
  nothing but headings is kept as it is.
\<close>

theorem chunk_text_lossless:
  assumes "1 \<le> mx"
  shows "\<exists>cs. chunk_text s d mx = Some cs \<and> visible (concat (map dc_content cs)) =
    visible (if visible (unheaded s) = [] then s else unheaded s)"
  using chunk_text_covers [OF assms, of s d] unfolding covers_def kept_text_def by blast

text \<open>
  The pattern of a heading is not tied to the start of a line: in a sentence, a hash sign followed by a
  space starts a heading, and the rest of the line is missing from the chunk. Text collected
  under several headings goes into one chunk under the last of them.
\<close>

lemma chunk_text_heading_in_line:
  "chunk_text ''uses C# a lot'' ''d'' 4000 =
     Some [\<lparr>dc_document_id = ''d'', dc_content = ''uses C'', dc_heading_path = [''a lot''], dc_token_count = 1, dc_chunk_index = 0\<rparr>]"
  by code_simp

lemma chunk_text_last_heading:
  "chunk_text (''# A'' @ [CHR 0x0A] @ ''x'' @ [CHR 0x0A] @ ''# B'' @ [CHR 0x0A] @ ''y'') ''d'' 4000 =
     Some [\<lparr>dc_document_id = ''d'', dc_content = ''x'' @ [CHR 0x0A, CHR 0x0A, CHR 0x0A] @ ''y'', dc_heading_path = [''B''],
            dc_token_count = 1, dc_chunk_index = 0\<rparr>]"
  by code_simp

section \<open>Witnesses\<close>

theorem chunk_text_bounded_witness:
  "\<exists>cs. chunk_text ''# A heading and a text'' ''d'' 1 = Some cs \<and> map dc_chunk_index cs = [0 ..< length cs]"
  using chunk_text_bounded [of 1 "''# A heading and a text''" "''d''"] by auto

theorem chunk_text_lossless_witness:
  "\<exists>cs. chunk_text (''# A'' @ [CHR 0x0A] @ ''one two'') ''d'' 1 = Some cs \<and> visible (concat (map dc_content cs)) = ''onetwo''"
proof -
  have "visible (if visible (unheaded (''# A'' @ [CHR 0x0A] @ ''one two'')) = [] then ''# A'' @ [CHR 0x0A] @ ''one two''
    else unheaded (''# A'' @ [CHR 0x0A] @ ''one two'')) = ''onetwo''" by code_simp
  with chunk_text_lossless [of 1 "''# A'' @ [CHR 0x0A] @ ''one two''" "''d''"] show ?thesis by (simp only: order_refl)
qed

end
