(* ===== verification/MarkdownHtml.thy ===== *)
theory MarkdownHtml
  imports PyStr "HOL-Library.Sublist"
begin

text \<open>
  The Markdown renderer of \<^verbatim>\<open>src/src/wikimind/services/export.py\<close>, which produces the body
  of the public pages and of the PDF export: \<open>_markdown_to_html\<close> line by line with its list state, the
  block elements, and the inline formatting with its four regular-expression substitutions. The
  theorem of the theory says that, whatever the article contains, the only markup in the output is
  the fixed set of tags of the renderer and links with an allowed scheme.
\<close>

section \<open>Escaping\<close>

text \<open>\<^verbatim>\<open>s.replace(c, r)\<close> for a single character \<open>c\<close>.\<close>

definition replace_char :: "char \<Rightarrow> string \<Rightarrow> string \<Rightarrow> string" where
  "replace_char c r s = concat (map (\<lambda>x. if x = c then r else [x]) s)"

definition escape_html :: "string \<Rightarrow> string" where
  "escape_html s = replace_char CHR ''>'' ''&gt;'' (replace_char CHR ''<'' ''&lt;'' (replace_char CHR ''&'' ''&amp;'' s))"

section \<open>Inline formatting\<close>

definition allowed_schemes :: "string list" where
  "allowed_schemes = [''http://'', ''https://'', ''mailto:'']"

definition sanitize_url :: "string \<Rightarrow> string option" where
  "sanitize_url url =
     (let cleaned = filter (\<lambda>c. 0x20 < cp c) url in
      if list_ex (\<lambda>p. prefix p (py_lower cleaned)) allowed_schemes then Some cleaned else None)"

text \<open>The callback \<open>_replace_link\<close>, on the two groups of the match.\<close>

definition replace_link :: "string \<Rightarrow> string \<Rightarrow> string" where
  "replace_link link_text url =
     (if sanitize_url url \<noteq> None
      then ''<a href='' @ [CHR 0x22] @ replace_char CHR 0x22 ''&quot;'' url @ [CHR 0x22] @ ''>'' @ link_text @ ''</a>''
      else link_text)"

text \<open>
  \<open>sub_pairs k d l r s\<close> is \<^verbatim>\<open>re.sub\<close> with the pattern \<^verbatim>\<open>d{k}([^d]+)d{k}\<close> and the replacement \<open>l\<close>, group,
  \<open>r\<close>: the leftmost matches, without overlap. \<open>sub_md_links\<close> is the substitution of
  \<^verbatim>\<open>\[([^\]]+)\]\(([^)]+)\)\<close> with the callback.
\<close>

function sub_pairs :: "nat \<Rightarrow> char \<Rightarrow> string \<Rightarrow> string \<Rightarrow> string \<Rightarrow> string" where
  "sub_pairs k d l r [] = []"
| "sub_pairs k d l r (c # cs) =
     (let w = takeWhile (\<lambda>x. x \<noteq> d) (drop k (c # cs)); rest = drop (k + length w) (c # cs) in
      if take k (c # cs) = replicate k d \<and> w \<noteq> [] \<and> take k rest = replicate k d
      then l @ w @ r @ sub_pairs k d l r (drop k rest)
      else c # sub_pairs k d l r cs)"
  by pat_completeness auto
termination
  by (relation "measure (\<lambda>(k, d, l, r, s). length s)") auto

function sub_md_links :: "string \<Rightarrow> string" where
  "sub_md_links [] = []"
| "sub_md_links (c # cs) =
     (let link_text = takeWhile (\<lambda>x. x \<noteq> CHR '']'') cs; r1 = drop (length link_text) cs;
          url = takeWhile (\<lambda>x. x \<noteq> CHR '')'') (drop 2 r1); r2 = drop (2 + length url) r1 in
      if c = CHR ''['' \<and> link_text \<noteq> [] \<and> take 2 r1 = ''](''  \<and> url \<noteq> [] \<and> r2 \<noteq> []
      then replace_link link_text url @ sub_md_links (tl r2)
      else c # sub_md_links cs)"
  by pat_completeness auto
termination
  by (relation "measure length") auto

definition inline_format :: "string \<Rightarrow> string" where
  "inline_format s =
     (let r0 = escape_html s;
          r1 = sub_pairs 1 CHR 0x60 ''<code>'' ''</code>'' r0;
          r2 = sub_pairs 2 CHR ''*'' ''<strong>'' ''</strong>'' r1;
          r3 = sub_pairs 1 CHR ''*'' ''<em>'' ''</em>'' r2
      in sub_md_links r3)"

section \<open>Block elements\<close>

record list_state =
  in_list :: bool
  list_type :: string

definition close_tag :: "list_state \<Rightarrow> string" where
  "close_tag st = (if list_type st = ''ol'' then ''</ol>'' else ''</ul>'')"

definition startswith_any :: "string list \<Rightarrow> string \<Rightarrow> bool" where
  "startswith_any ps s = list_ex (\<lambda>p. prefix p s) ps"

text \<open>\<^verbatim>\<open>str.isdigit\<close> on the Latin-1 characters.\<close>

definition is_digit :: "char \<Rightarrow> bool" where
  "is_digit c \<longleftrightarrow> 48 \<le> cp c \<and> cp c \<le> 57 \<or> cp c \<in> {0xB2, 0xB3, 0xB9}"

definition open_list :: "string \<Rightarrow> list_state \<Rightarrow> string \<times> list_state" where
  "open_list kind st =
     (if in_list st then ([], st)
      else (''<'' @ kind @ ''>'' @ [CHR 0x0A], st\<lparr>in_list := True, list_type := kind\<rparr>))"

definition line_to_element :: "string \<Rightarrow> list_state \<Rightarrow> string \<times> list_state" where
  "line_to_element s st =
     (if prefix ''# '' s then (''<h1>'' @ inline_format (drop 2 s) @ ''</h1>'', st)
      else if prefix ''## '' s then (''<h2>'' @ inline_format (drop 3 s) @ ''</h2>'', st)
      else if prefix ''### '' s then (''<h3>'' @ inline_format (drop 4 s) @ ''</h3>'', st)
      else if prefix ''#### '' s then (''<h4>'' @ inline_format (drop 5 s) @ ''</h4>'', st)
      else if prefix ''> '' s then (''<blockquote>'' @ inline_format (drop 2 s) @ ''</blockquote>'', st)
      else if startswith_any [''- '', ''* ''] s
      then (let (open_tag, st') = open_list ''ul'' st
            in (open_tag @ ''<li>'' @ inline_format (drop 2 s) @ ''</li>'', st'))
      else if 2 < length s \<and> is_digit (s ! 0) \<and> (s ! 1 = CHR ''.'' \<or> s ! 1 = CHR '')'')
      then (let (open_tag, st') = open_list ''ol'' st
            in (open_tag @ ''<li>'' @ inline_format (dropWhile is_space (drop 2 s)) @ ''</li>'', st'))
      else if s = ''---'' \<or> s = ''***'' \<or> s = ''___'' then (''<hr>'', st)
      else (''<p>'' @ inline_format s @ ''</p>'', st))"

definition list_markers :: "string list" where
  "list_markers = [''- '', ''* '', ''1.'', ''2.'', ''3.'', ''4.'', ''5.'']"

definition convert_block_element :: "string \<Rightarrow> list_state \<Rightarrow> string option \<times> list_state" where
  "convert_block_element stripped st =
     (let closing = in_list st \<and> \<not> startswith_any list_markers stripped;
          pre = (if closing then close_tag st @ [CHR 0x0A] else []);
          st1 = (if closing then st\<lparr>in_list := False\<rparr> else st)
      in if stripped = [] then (if pre = [] then None else Some pre, st1)
         else (let (element, st2) = line_to_element stripped st1 in (Some (pre @ element), st2)))"

section \<open>Documents\<close>

text \<open>\<^verbatim>\<open>s.split("\n")\<close>; the first argument is the current line, reversed.\<close>

fun split_lines :: "string \<Rightarrow> string \<Rightarrow> string list" where
  "split_lines acc [] = [rev acc]"
| "split_lines acc (c # cs) = (if c = CHR 0x0A then rev acc # split_lines [] cs else split_lines (c # acc) cs)"

fun html_loop :: "bool \<Rightarrow> list_state \<Rightarrow> string list \<Rightarrow> string list" where
  "html_loop in_code_block st [] =
     (if in_list st then [close_tag st] else []) @ (if in_code_block then [''</code></pre>''] else [])"
| "html_loop in_code_block st (line # lines) =
     (let stripped = py_strip line in
      if prefix [CHR 0x60, CHR 0x60, CHR 0x60] stripped
      then (if in_code_block then ''</code></pre>'' else ''<pre><code>'') # html_loop (\<not> in_code_block) st lines
      else if in_code_block then escape_html line # html_loop in_code_block st lines
      else (case convert_block_element stripped st of
              (None, st') \<Rightarrow> html_loop in_code_block st' lines
            | (Some element, st') \<Rightarrow> element # html_loop in_code_block st' lines))"

definition markdown_to_html :: "string \<Rightarrow> string" where
  "markdown_to_html markdown_text =
     py_join [CHR 0x0A] (html_loop False \<lparr>in_list = False, list_type = []\<rparr> (split_lines [] markdown_text))"

section \<open>What the output may contain\<close>

text \<open>
  \<open>safe_html s\<close>: reading \<open>s\<close> from the left, every \<open><\<close> starts either one of the fixed tags or a link whose
  quoted address has no quote character inside and an allowed scheme. \<open>tagged\<close> is the same without links:
  the text as it is before links are substituted.
\<close>

definition simple_tags :: "string list" where
  "simple_tags = [''<code>'', ''</code>'', ''<strong>'', ''</strong>'', ''<em>'', ''</em>'', ''</a>'',
     ''<h1>'', ''</h1>'', ''<h2>'', ''</h2>'', ''<h3>'', ''</h3>'', ''<h4>'', ''</h4>'', ''<blockquote>'', ''</blockquote>'',
     ''<ul>'', ''</ul>'', ''<ol>'', ''</ol>'', ''<li>'', ''</li>'', ''<p>'', ''</p>'', ''<pre>'', ''</pre>'', ''<hr>'']"

definition allowed_url :: "string \<Rightarrow> bool" where
  "allowed_url u \<longleftrightarrow> list_ex (\<lambda>p. prefix p (py_lower (filter (\<lambda>c. 0x20 < cp c) u))) allowed_schemes"

inductive safe_html :: "string \<Rightarrow> bool" where
  empty: "safe_html []"
| char: "c \<noteq> CHR ''<'' \<Longrightarrow> safe_html s \<Longrightarrow> safe_html (c # s)"
| tag: "t \<in> set simple_tags \<Longrightarrow> safe_html s \<Longrightarrow> safe_html (t @ s)"
| link: "CHR 0x22 \<notin> set u \<Longrightarrow> allowed_url u \<Longrightarrow> safe_html s \<Longrightarrow>
    safe_html (''<a href='' @ [CHR 0x22] @ u @ [CHR 0x22] @ ''>'' @ s)"

inductive tagged :: "string \<Rightarrow> bool" where
  t_empty: "tagged []"
| t_char: "c \<noteq> CHR ''<'' \<Longrightarrow> tagged s \<Longrightarrow> tagged (c # s)"
| t_tag: "t \<in> set simple_tags \<Longrightarrow> tagged s \<Longrightarrow> tagged (t @ s)"

lemma tagged_safe: "tagged s \<Longrightarrow> safe_html s"
  by (induction rule: tagged.induct) (auto intro: safe_html.intros)

lemma safe_append: "safe_html a \<Longrightarrow> safe_html b \<Longrightarrow> safe_html (a @ b)"
proof (induction rule: safe_html.induct)
  case (link u s)
  then have "safe_html (''<a href='' @ [CHR 0x22] @ u @ [CHR 0x22] @ ''>'' @ (s @ b))" by (intro safe_html.link)
  then show ?case by simp
qed (simp_all add: safe_html.char safe_html.tag)

lemma tagged_append: "tagged a \<Longrightarrow> tagged b \<Longrightarrow> tagged (a @ b)"
  by (induction rule: tagged.induct) (auto intro: tagged.intros)

lemma safe_tag: "t \<in> set simple_tags \<Longrightarrow> safe_html t"
  using safe_html.tag [OF _ safe_html.empty] by simp

lemma tagged_tag: "t \<in> set simple_tags \<Longrightarrow> tagged t"
  using tagged.t_tag [OF _ tagged.t_empty] by simp

lemma tagged_plain: "CHR ''<'' \<notin> set s \<Longrightarrow> tagged s"
  by (induction s) (auto intro: tagged.intros)

lemma safe_join: "(\<And>x. x \<in> set xs \<Longrightarrow> safe_html x) \<Longrightarrow> safe_html sep \<Longrightarrow> safe_html (py_join sep xs)"
  by (induction sep xs rule: py_join.induct) (auto intro: safe_append safe_html.empty)

text \<open>The characters the renderer splits at do not occur in tags, so splitting never cuts a tag.\<close>

definition delimiter :: "char \<Rightarrow> bool" where
  "delimiter d \<longleftrightarrow> d \<in> set [CHR 0x60, CHR ''*'', CHR ''['', CHR '']'', CHR ''('', CHR '')'']"

lemma delimiter_tag: "delimiter d \<Longrightarrow> t \<in> set simple_tags \<Longrightarrow> d \<notin> set t"
proof -
  have "list_all (\<lambda>t. list_all (\<lambda>d. d \<notin> set t) [CHR 0x60, CHR ''*'', CHR ''['', CHR '']'', CHR ''('', CHR '')'']) simple_tags"
    by code_simp
  then show "delimiter d \<Longrightarrow> t \<in> set simple_tags \<Longrightarrow> d \<notin> set t" unfolding delimiter_def list_all_iff by blast
qed

lemma delimiter_not_less [simp]: "delimiter d \<Longrightarrow> d \<noteq> CHR ''<''"
  by (auto simp: delimiter_def)

lemma tagged_split:
  assumes "tagged (a @ d # b)" and "delimiter d"
  shows "tagged a \<and> tagged b"
  using assms
proof (induction "a @ d # b" arbitrary: a rule: tagged.induct)
  case (t_char c s)
  then show ?case by (cases a) (auto intro: tagged.intros)
next
  case (t_tag t s)
  have "d \<notin> set t" using delimiter_tag t_tag by blast
  from t_tag(4) consider us where "t = a @ us" "us @ s = d # b" | us where "a = t @ us" "s = us @ d # b"
    by (auto simp: append_eq_append_conv2)
  then show ?case
  proof cases
    case 1
    with \<open>d \<notin> set t\<close> have "us = []" by (cases us) auto
    with 1 have "s = [] @ d # b" "a = t" by simp_all
    with t_tag(1, 3, 5) show ?thesis using tagged_tag by blast
  next
    case 2
    with t_tag show ?thesis by (auto intro: tagged.t_tag)
  qed
qed simp

lemma tagged_split_replicate:
  assumes "delimiter d" and "tagged (a @ replicate k d @ b)" and "0 < k"
  shows "tagged a \<and> tagged b"
  using assms(2, 3)
proof (induction k arbitrary: a)
  case (Suc k)
  then have "tagged (a @ d # replicate k d @ b)" by simp
  from tagged_split [OF this assms(1)] have ab: "tagged a" "tagged ([] @ replicate k d @ b)" by auto
  show ?case
  proof (cases "k = 0")
    case False
    with Suc.IH [OF ab(2)] ab(1) show ?thesis by simp
  qed (use ab in simp)
qed simp

section \<open>Every stage keeps the markup safe\<close>

lemma replace_char_append [simp]: "replace_char c r (a @ b) = replace_char c r a @ replace_char c r b"
  by (simp add: replace_char_def)

lemma replace_char_id: "c \<notin> set s \<Longrightarrow> replace_char c r s = s"
  by (induction s) (auto simp: replace_char_def)

lemma set_replace_char: "set (replace_char c r s) \<subseteq> (set s - {c}) \<union> set r"
  by (auto simp: replace_char_def split: if_splits)

lemma escape_html_plain: "CHR ''<'' \<notin> set (escape_html s)"
proof -
  have "CHR ''<'' \<notin> set (replace_char CHR ''<'' ''&lt;'' x)" for x using set_replace_char [of _ "''&lt;''" x] by fastforce
  then show ?thesis unfolding escape_html_def using set_replace_char [of "CHR ''>''" "''&gt;''"] by fastforce
qed

lemma safe_escape: "safe_html (escape_html s)"
  by (rule tagged_safe) (rule tagged_plain [OF escape_html_plain])

lemma sub_pairs_skip: "d \<notin> set t \<Longrightarrow> 0 < k \<Longrightarrow> sub_pairs k d l r (t @ s) = t @ sub_pairs k d l r s"
proof (induction t)
  case (Cons c t)
  then have "take k (c # t @ s) \<noteq> replicate k d" by (cases k) auto
  with Cons show ?case by (simp add: Let_def)
qed simp

lemma sub_pairs_tagged:
  assumes "delimiter d" and "0 < k" and "tagged l" and "tagged r"
  shows "tagged s \<Longrightarrow> tagged (sub_pairs k d l r s)"
proof (induction "length s" arbitrary: s rule: less_induct)
  case less
  from less.prems show ?case
  proof cases
    case t_empty
    then show ?thesis by (simp add: tagged.t_empty)
  next
    case (t_tag t u)
    moreover have "t \<noteq> []" using t_tag(2) by (auto simp: simple_tags_def)
    ultimately have "tagged (sub_pairs k d l r u)" by (intro less.hyps) simp_all
    with t_tag delimiter_tag [OF assms(1)] show ?thesis by (simp add: sub_pairs_skip assms(2) tagged.t_tag)
  next
    case (t_char c cs)
    let ?w = "takeWhile (\<lambda>x. x \<noteq> d) (drop k s)" and ?rest = "drop (k + length (takeWhile (\<lambda>x. x \<noteq> d) (drop k s))) s"
    show ?thesis
    proof (cases "take k s = replicate k d \<and> ?w \<noteq> [] \<and> take k ?rest = replicate k d")
      case True
      have "s = replicate k d @ drop k s" using True by (metis append_take_drop_id)
      then have 1: "tagged (drop k s)"
        using less.prems tagged_split_replicate [OF assms(1), of "[]" k "drop k s"] assms(2) by simp
      have "drop k s = ?w @ ?rest" by (metis add.commute drop_drop takeWhile_eq_take append_take_drop_id)
      moreover have "?rest = replicate k d @ drop k ?rest" using True by (metis append_take_drop_id)
      ultimately have "tagged (?w @ replicate k d @ drop k ?rest)" using 1 by simp
      from tagged_split_replicate [OF assms(1) this assms(2)] have wr: "tagged ?w" "tagged (drop k ?rest)" by auto
      have "length (drop k ?rest) < length s" using assms(2) t_char(1) by simp
      from less.hyps [OF this wr(2)] wr(1) assms(3, 4) True t_char(1) show ?thesis
        by (simp add: Let_def tagged_append)
    next
      case False
      then have "sub_pairs k d l r s = c # sub_pairs k d l r cs" unfolding t_char(1) by (auto simp: Let_def)
      with t_char less.hyps [of cs] show ?thesis by (simp add: tagged.t_char)
    qed
  qed
qed

lemma allowed_url_quoted: "allowed_url u \<Longrightarrow> allowed_url (replace_char CHR 0x22 ''&quot;'' u)"
proof -
  let ?f = "filter (\<lambda>c. 0x20 < cp c)" and ?q = "replace_char CHR 0x22 ''&quot;''"
  assume "allowed_url u"
  then obtain p where p: "p \<in> set allowed_schemes" "prefix p (py_lower (?f u))"
    by (auto simp: allowed_url_def list_ex_iff)
  have comm: "?f (?q u) = ?q (?f u)"
    by (induction u) (auto simp: replace_char_def cp_def)
  from p(2) obtain z where "py_lower (?f u) = p @ z" by (auto elim: prefixE)
  then obtain y1 y2 where y: "?f u = y1 @ y2" "py_lower y1 = p"
    unfolding py_lower_def by (metis map_eq_append_conv)
  have "CHR 0x22 \<notin> set p" using p(1) by (auto simp: allowed_schemes_def)
  moreover have "CHR 0x22 \<in> set p" if "CHR 0x22 \<in> set y1"
  proof -
    have "lower_char (CHR 0x22) = CHR 0x22" by code_simp
    with that y(2) show ?thesis unfolding py_lower_def by (metis image_eqI set_map)
  qed
  ultimately have "CHR 0x22 \<notin> set y1" by blast
  then have "?q (?f u) = y1 @ ?q y2" using y(1) by (simp add: replace_char_id)
  then have "prefix p (py_lower (?f (?q u)))" using comm y(2) by (simp add: py_lower_append)
  with p(1) show ?thesis by (auto simp: allowed_url_def list_ex_iff)
qed

lemma replace_link_safe: "tagged t \<Longrightarrow> safe_html (replace_link t u)"
proof (cases "allowed_url u")
  case True
  assume "tagged t"
  then have "safe_html (t @ ''</a>'')" by (intro safe_append tagged_safe safe_tag) (simp_all add: simple_tags_def)
  moreover have "CHR 0x22 \<notin> set (replace_char CHR 0x22 ''&quot;'' u)"
    using set_replace_char [of "CHR 0x22" "''&quot;''" u] by auto
  ultimately have "safe_html (''<a href='' @ [CHR 0x22] @ replace_char CHR 0x22 ''&quot;'' u @ [CHR 0x22] @ ''>'' @ t @ ''</a>'')"
    using allowed_url_quoted [OF True] by (intro safe_html.link)
  with True show ?thesis by (simp add: replace_link_def sanitize_url_def allowed_url_def Let_def)
next
  case False
  assume "tagged t"
  with False show ?thesis by (simp add: replace_link_def sanitize_url_def allowed_url_def Let_def tagged_safe)
qed

lemma sub_md_links_skip: "CHR ''['' \<notin> set t \<Longrightarrow> sub_md_links (t @ s) = t @ sub_md_links s"
proof (induction t)
  case (Cons c t)
  then have "c \<noteq> CHR ''[''" by auto
  then have "sub_md_links (c # t @ s) = c # sub_md_links (t @ s)"
    unfolding sub_md_links.simps Let_def by (intro if_not_P) simp
  with Cons show ?case by simp
qed simp

lemma sub_md_links_safe: "tagged s \<Longrightarrow> safe_html (sub_md_links s)"
proof (induction "length s" arbitrary: s rule: less_induct)
  case less
  from less.prems show ?case
  proof cases
    case t_empty
    then show ?thesis by (simp add: safe_html.empty)
  next
    case (t_tag t u)
    moreover have "t \<noteq> []" using t_tag(2) by (auto simp: simple_tags_def)
    ultimately have "safe_html (sub_md_links u)" by (intro less.hyps) simp_all
    with t_tag delimiter_tag [of "CHR ''[''" t] show ?thesis by (simp add: sub_md_links_skip delimiter_def safe_html.tag)
  next
    case (t_char c cs)
    define t where "t = takeWhile (\<lambda>x. x \<noteq> CHR '']'') cs"
    define r1 where "r1 = drop (length t) cs"
    define u where "u = takeWhile (\<lambda>x. x \<noteq> CHR '')'') (drop 2 r1)"
    define r2 where "r2 = drop (2 + length u) r1"
    note defs = t_def [symmetric] r1_def [symmetric] u_def [symmetric] r2_def [symmetric]
    have cs: "cs = t @ r1" unfolding r1_def t_def by (metis takeWhile_eq_take append_take_drop_id)
    have r1: "drop 2 r1 = u @ r2" unfolding r2_def u_def by (metis add.commute drop_drop takeWhile_eq_take append_take_drop_id)
    show ?thesis
    proof (cases "c = CHR ''['' \<and> t \<noteq> [] \<and> take 2 r1 = ''](''  \<and> u \<noteq> [] \<and> r2 \<noteq> []")
      case True
      have "hd r2 = CHR '')''" using True r1 hd_dropWhile [of "\<lambda>x. x \<noteq> CHR '')''" "drop 2 r1"]
        by (metis u_def append_Nil2 append_eq_conv_conj dropWhile_eq_drop r2_def takeWhile_dropWhile_id)
      then have r2: "r2 = CHR '')'' # tl r2" using True by (cases r2) auto
      have "r1 = ''](''  @ u @ r2" using True r1 by (metis append_take_drop_id)
      then have all: "cs = t @ CHR '']'' # CHR ''('' # u @ CHR '')'' # tl r2" using cs r2 by simp
      with t_char(3) have "tagged t" "tagged (CHR ''('' # u @ CHR '')'' # tl r2)"
        using tagged_split [of t "CHR '']''"] by (simp_all add: delimiter_def)
      then have ttl: "tagged t" "tagged (tl r2)"
        using tagged_split [of "CHR ''('' # u" "CHR '')''" "tl r2"] by (simp_all add: delimiter_def)
      have "length (tl r2) < length s" using t_char(1) all by simp
      moreover have "sub_md_links s = replace_link t u @ sub_md_links (tl r2)"
        unfolding t_char(1) sub_md_links.simps Let_def defs using True by (rule if_P)
      ultimately show ?thesis using less.hyps [OF _ ttl(2)] replace_link_safe [OF ttl(1), of u] by (simp add: safe_append)
    next
      case False
      then have "sub_md_links s = c # sub_md_links cs"
        unfolding t_char(1) sub_md_links.simps Let_def defs by (rule if_not_P)
      with t_char less.hyps [of cs] show ?thesis by (simp add: safe_html.char)
    qed
  qed
qed

lemma tags [simp]:
  "''<code>'' \<in> set simple_tags" "''</code>'' \<in> set simple_tags" "''<strong>'' \<in> set simple_tags" "''</strong>'' \<in> set simple_tags"
  "''<em>'' \<in> set simple_tags" "''</em>'' \<in> set simple_tags" "''<ul>'' \<in> set simple_tags" "''</ul>'' \<in> set simple_tags"
  "''<ol>'' \<in> set simple_tags" "''</ol>'' \<in> set simple_tags" "''<li>'' \<in> set simple_tags" "''</li>'' \<in> set simple_tags"
  "''<pre>'' \<in> set simple_tags" "''</pre>'' \<in> set simple_tags" "''<hr>'' \<in> set simple_tags"
  "''<h1>'' \<in> set simple_tags" "''</h1>'' \<in> set simple_tags" "''<h2>'' \<in> set simple_tags" "''</h2>'' \<in> set simple_tags"
  "''<h3>'' \<in> set simple_tags" "''</h3>'' \<in> set simple_tags" "''<h4>'' \<in> set simple_tags" "''</h4>'' \<in> set simple_tags"
  "''<blockquote>'' \<in> set simple_tags" "''</blockquote>'' \<in> set simple_tags" "''<p>'' \<in> set simple_tags" "''</p>'' \<in> set simple_tags"
  by (simp_all add: simple_tags_def)

lemma inline_format_safe: "safe_html (inline_format s)"
proof -
  have 0: "tagged (escape_html s)" by (rule tagged_plain [OF escape_html_plain])
  have 1: "tagged x \<Longrightarrow> tagged (sub_pairs 1 CHR 0x60 ''<code>'' ''</code>'' x)" for x
    by (rule sub_pairs_tagged) (simp_all add: delimiter_def tagged_tag)
  have 2: "tagged x \<Longrightarrow> tagged (sub_pairs 2 CHR ''*'' ''<strong>'' ''</strong>'' x)" for x
    by (rule sub_pairs_tagged) (simp_all add: delimiter_def tagged_tag)
  have 3: "tagged x \<Longrightarrow> tagged (sub_pairs 1 CHR ''*'' ''<em>'' ''</em>'' x)" for x
    by (rule sub_pairs_tagged) (simp_all add: delimiter_def tagged_tag)
  show ?thesis unfolding inline_format_def Let_def by (rule sub_md_links_safe [OF 3 [OF 2 [OF 1 [OF 0]]]])
qed

lemma safe_element: "a \<in> set simple_tags \<Longrightarrow> b \<in> set simple_tags \<Longrightarrow> safe_html (a @ inline_format s @ b)"
  by (intro safe_append safe_tag inline_format_safe)

lemma safe_newline [simp]: "safe_html [CHR 0x0A]"
  by (intro safe_html.char safe_html.empty) simp

lemma open_list_safe: "kind \<in> {''ul'', ''ol''} \<Longrightarrow> safe_html (fst (open_list kind st))"
  using safe_append [OF safe_tag [of "''<ul>''"] safe_newline] safe_append [OF safe_tag [of "''<ol>''"] safe_newline]
  by (auto simp: open_list_def safe_html.empty)

lemma safe_item:
  assumes "kind \<in> {''ul'', ''ol''}"
  shows "safe_html (fst (let (open_tag, st') = open_list kind st in (open_tag @ ''<li>'' @ inline_format x @ ''</li>'', st')))"
proof -
  have "safe_html (fst (open_list kind st) @ ''<li>'' @ inline_format x @ ''</li>'')"
    by (intro safe_append [OF open_list_safe [OF assms]] safe_element) simp_all
  then show ?thesis by (simp add: split_beta)
qed

lemma line_to_element_safe: "safe_html (fst (line_to_element s st))"
proof -
  note el = safe_element [of "''<h1>''" "''</h1>''"] safe_element [of "''<h2>''" "''</h2>''"] safe_element [of "''<h3>''" "''</h3>''"]
    safe_element [of "''<h4>''" "''</h4>''"] safe_element [of "''<blockquote>''" "''</blockquote>''"] safe_element [of "''<p>''" "''</p>''"]
  have if_fst: "safe_html (fst (if b then x else y))" if "safe_html (fst x)" "safe_html (fst y)" for b and x y :: "string \<times> list_state"
    using that by simp
  show ?thesis unfolding line_to_element_def
    by (intro if_fst safe_item) (simp_all only: fst_conv el tags safe_tag insert_iff simp_thms)
qed

lemma convert_block_element_safe:
  assumes "convert_block_element s st = (Some x, st')"
  shows "safe_html x"
proof -
  define closing where "closing = (in_list st \<and> \<not> startswith_any list_markers s)"
  define pre where "pre = (if closing then close_tag st @ [CHR 0x0A] else [])"
  define st1 where "st1 = (if closing then st\<lparr>in_list := False\<rparr> else st)"
  have "safe_html (close_tag st @ [CHR 0x0A])" by (simp add: close_tag_def safe_append safe_tag)
  then have p: "safe_html pre" by (simp add: pre_def safe_html.empty)
  have "x = pre \<or> x = pre @ fst (line_to_element s st1)"
    using assms unfolding convert_block_element_def Let_def closing_def [symmetric] pre_def [symmetric] st1_def [symmetric]
    by (auto split: if_splits prod.splits)
  with p safe_append [OF p line_to_element_safe] show ?thesis by auto
qed

lemma html_loop_safe: "x \<in> set (html_loop in_code st lines) \<Longrightarrow> safe_html x"
proof (induction in_code st lines rule: html_loop.induct)
  case (1 in_code st)
  have "safe_html (''</code>'' @ ''</pre>'')" by (intro safe_append safe_tag) simp_all
  with 1 show ?case by (auto simp: close_tag_def safe_tag split: if_splits)
next
  case (2 in_code st line lines)
  have a: "safe_html (''</code>'' @ ''</pre>'')" "safe_html (''<pre>'' @ ''<code>'')" by (intro safe_append safe_tag; simp)+
  consider "prefix [CHR 0x60, CHR 0x60, CHR 0x60] (py_strip line)" | "\<not> prefix [CHR 0x60, CHR 0x60, CHR 0x60] (py_strip line)" in_code
    | "\<not> prefix [CHR 0x60, CHR 0x60, CHR 0x60] (py_strip line)" "\<not> in_code" by blast
  then show ?case
  proof cases
    case 1
    with 2 a show ?thesis by (auto simp: Let_def split: if_splits)
  next
    case 2
    with "2.IH"(2) "2.prems" safe_escape show ?thesis by (auto simp: Let_def)
  next
    case 3
    obtain el st' where c: "convert_block_element (py_strip line) st = (el, st')" by (cases "convert_block_element (py_strip line) st")
    with 3 "2.IH"(3, 4) "2.prems" convert_block_element_safe [of "py_strip line" st _ st'] show ?thesis
      by (cases el) (auto simp: Let_def)
  qed
qed

lemma rendered_safe: "safe_html (markdown_to_html s)"
  unfolding markdown_to_html_def by (rule safe_join [OF html_loop_safe safe_newline])

text \<open>
  C9. The rendering of an article is safe for a browser whatever the article contains: reading the
  output from the left, every opening angle bracket starts one of the fixed tags of the renderer
  or a link, and the address of a link is quoted, has no quote inside and an \<open>http\<close>, \<open>https\<close> or
  \<open>mailto\<close> scheme also after control characters and spaces are removed.
\<close>

theorem markdown_to_html_safe: "safe_html (markdown_to_html s)"
  by (rule rendered_safe)

text \<open>
  Limits of the renderer: list items numbered six and more each start a list of their own, because the
  test that closes a list knows the markers \<^verbatim>\<open>1.\<close> to \<^verbatim>\<open>5.\<close> only; a document that ends in an open code
  block inside a list closes the list before the code.
\<close>

lemma long_lists_split:
  "markdown_to_html (''5. e'' @ [CHR 0x0A] @ ''6. f'') =
     ''<ol>'' @ [CHR 0x0A] @ ''<li>e</li>'' @ [CHR 0x0A] @ ''</ol>'' @ [CHR 0x0A] @ ''<ol>'' @ [CHR 0x0A] @ ''<li>f</li>'' @ [CHR 0x0A] @ ''</ol>''"
  by code_simp

lemma open_code_in_list:
  "markdown_to_html (''- a'' @ [CHR 0x0A, CHR 0x60, CHR 0x60, CHR 0x60]) =
     ''<ul>'' @ [CHR 0x0A] @ ''<li>a</li>'' @ [CHR 0x0A] @ ''<pre><code>'' @ [CHR 0x0A] @ ''</ul>'' @ [CHR 0x0A] @ ''</code></pre>''"
  by code_simp

end
