(* ===== verification/Sharing.thy ===== *)
theory Sharing
  imports Quota MarkdownHtml
begin

text \<open>
  Public share links: the class \<open>SharingService\<close> of \<^verbatim>\<open>src/src/wikimind/services/sharing.py\<close>, the
  endpoint that creates a link after the quota check (\<^verbatim>\<open>api/routes/sharing.py\<close>) and
  \<open>read_article_content\<close> of \<^verbatim>\<open>storage.py\<close>. A new link takes its random id and token as arguments;
  the unique column \<open>token\<close> makes the insertion of a taken token an \<open>IntegrityError\<close>.
  \<open>share_step\<close> is the step relation of the link table: any sequence of creations, revocations and
  public views by anybody.
\<close>

section \<open>Responses\<close>

record share_link_response =
  slr_id :: string
  slr_article_id :: string
  slr_token :: string
  slr_created_at :: datetime
  slr_expires_at :: "datetime option"
  slr_revoked :: bool
  slr_view_count :: int
  slr_last_viewed_at :: "datetime option"
  slr_article_title :: "string option"

record source_response =
  sr_id :: string
  sr_source_type :: source_type
  sr_title :: "string option"
  sr_source_url :: "string option"
  sr_ingested_at :: datetime

record public_article_response =
  pa_title :: string
  pa_content_html :: string
  pa_summary :: "string option"
  pa_sources :: "source_response list"
  pa_created_at :: datetime
  pa_updated_at :: datetime

definition link_response :: "share_link \<Rightarrow> string option \<Rightarrow> share_link_response" where
  "link_response l title =
     \<lparr>slr_id = sl_id l, slr_article_id = sl_article_id l, slr_token = sl_token l, slr_created_at = sl_created_at l,
      slr_expires_at = sl_expires_at l, slr_revoked = sl_revoked l, slr_view_count = sl_view_count l,
      slr_last_viewed_at = sl_last_viewed_at l, slr_article_title = title\<rparr>"

definition source_response_of :: "source \<Rightarrow> source_response" where
  "source_response_of s = \<lparr>sr_id = src_id s, sr_source_type = src_source_type s, sr_title = src_title s,
     sr_source_url = src_source_url s, sr_ingested_at = src_ingested_at s\<rparr>"

section \<open>Operations\<close>

text \<open>
  \<^verbatim>\<open>if expires_in_days\<close> is false for \<open>None\<close> and for \<open>0\<close>.
\<close>

definition expiry :: "datetime \<Rightarrow> int option \<Rightarrow> datetime option" where
  "expiry now days = (case days of None \<Rightarrow> None | Some n \<Rightarrow> if n = 0 then None else Some (now + n * day_us))"

definition new_link :: "datetime \<Rightarrow> string \<Rightarrow> string \<Rightarrow> string \<Rightarrow> string \<Rightarrow> int option \<Rightarrow> share_link" where
  "new_link now lid token article_id user_id expires_in_days =
     \<lparr>sl_id = lid, sl_user_id = user_id, sl_article_id = article_id, sl_token = token, sl_created_at = now,
      sl_expires_at = expiry now expires_in_days, sl_revoked = False, sl_view_count = 0, sl_last_viewed_at = None\<rparr>"

definition create_share_link ::
  "datetime \<Rightarrow> string \<Rightarrow> string \<Rightarrow> string \<Rightarrow> string \<Rightarrow> int option \<Rightarrow> db \<Rightarrow> (db \<times> share_link_response) result" where
  "create_share_link now lid token article_id user_id expires_in_days d =
     (case get_by art_id article_id (articles d) of
        None \<Rightarrow> raise (NotFoundError ''Article not found'')
      | Some article \<Rightarrow>
          if art_user_id article \<noteq> user_id then raise (NotFoundError ''Article not found'')
          else
            (let link = new_link now lid token article_id user_id expires_in_days in
             if lid \<in> sl_id ` set (share_links d) \<or> token \<in> sl_token ` set (share_links d)
             then raise (IntegrityError ''sharelink'')
             else ok (d\<lparr>share_links := share_links d @ [link]\<rparr>, link_response link (Some (art_title article)))))"

text \<open>The endpoint: the plan is \<open>None\<close> when billing is disabled.\<close>

definition create_share_link_route ::
  "plan option \<Rightarrow> datetime \<Rightarrow> string \<Rightarrow> string \<Rightarrow> string \<Rightarrow> string \<Rightarrow> int option \<Rightarrow> db \<Rightarrow> (db \<times> share_link_response) result" where
  "create_share_link_route plan now lid token article_id user_id expires_in_days d =
     bindR (case plan of None \<Rightarrow> ok () | Some p \<Rightarrow> check_share_quota d user_id p) (\<lambda>_.
       create_share_link now lid token article_id user_id expires_in_days d)"

definition revoke_share_link :: "string \<Rightarrow> string \<Rightarrow> db \<Rightarrow> db result" where
  "revoke_share_link link_id user_id d =
     (case get_by sl_id link_id (share_links d) of
        None \<Rightarrow> raise (NotFoundError ''Share link not found'')
      | Some link \<Rightarrow>
          if sl_user_id link \<noteq> user_id then raise (NotFoundError ''Share link not found'')
          else ok (d\<lparr>share_links := update_where (\<lambda>l. sl_id l = link_id) (\<lambda>l. l\<lparr>sl_revoked := True\<rparr>) (share_links d)\<rparr>))"

definition list_share_links :: "string \<Rightarrow> string option \<Rightarrow> db \<Rightarrow> share_link_response list" where
  "list_share_links user_id article_id d =
     (let links = select (\<lambda>l. sl_user_id l = user_id) (share_links d);
          links' = (case article_id of
                      None \<Rightarrow> links
                    | Some a \<Rightarrow> if a = [] then links else select (\<lambda>l. sl_article_id l = a) links)
      in map (\<lambda>l. link_response l (map_option art_title (get_by art_id (sl_article_id l) (articles d))))
           (sort_key (\<lambda>l. - sl_created_at l) links'))"

definition read_article_content :: "db \<Rightarrow> string \<Rightarrow> string \<Rightarrow> string" where
  "read_article_content d file_path user_id =
     (case wiki_files d (user_id, file_path) of None \<Rightarrow> [] | Some content \<Rightarrow> content)"

definition article_sources_of :: "db \<Rightarrow> string \<Rightarrow> source list" where
  "article_sources_of d article_id =
     concat (map (\<lambda>s. map (\<lambda>_. s) (select (\<lambda>r. as_article_id r = article_id \<and> as_source_id r = src_id s) (article_sources d)))
       (sources d))"

definition expired :: "datetime \<Rightarrow> share_link \<Rightarrow> bool" where
  "expired now l \<longleftrightarrow> (case sl_expires_at l of None \<Rightarrow> False | Some t \<Rightarrow> t < now)"

definition record_view :: "datetime \<Rightarrow> share_link \<Rightarrow> db \<Rightarrow> db" where
  "record_view now link d =
     d\<lparr>share_links := update_where (\<lambda>l. sl_id l = sl_id link)
        (\<lambda>l. l\<lparr>sl_view_count := sl_view_count l + 1, sl_last_viewed_at := Some now\<rparr>) (share_links d)\<rparr>"

definition rendered_content :: "db \<Rightarrow> article \<Rightarrow> string" where
  "rendered_content d article =
     (let content = read_article_content d (art_file_path article) (art_user_id article)
      in if content \<noteq> [] then markdown_to_html content else [])"

definition get_public_article :: "datetime \<Rightarrow> string \<Rightarrow> db \<Rightarrow> (db \<times> public_article_response) result" where
  "get_public_article now token d =
     bindR (one_or_none (select (\<lambda>l. sl_token l = token) (share_links d))) (\<lambda>found.
       case found of
         None \<Rightarrow> raise (NotFoundError ''Share link not found'')
       | Some link \<Rightarrow>
           if sl_revoked link then raise (NotFoundError ''Share link not found'')
           else if expired now link then raise (GoneError ''Share link has expired'')
           else
             (case get_by art_id (sl_article_id link) (articles d) of
                None \<Rightarrow> raise (NotFoundError ''Article not found'')
              | Some article \<Rightarrow>
                  ok (record_view now link d,
                      \<lparr>pa_title = art_title article, pa_content_html = rendered_content d article,
                       pa_summary = art_summary article,
                       pa_sources = map source_response_of (article_sources_of d (art_id article)),
                       pa_created_at = art_created_at article, pa_updated_at = art_updated_at article\<rparr>)))"

section \<open>Steps\<close>

inductive share_step :: "db \<Rightarrow> db \<Rightarrow> bool" where
  create: "create_share_link_route plan now lid token aid uid days d = ok (d', resp) \<Longrightarrow> share_step d d'"
| revoke: "revoke_share_link lid uid d = ok d' \<Longrightarrow> share_step d d'"
| view: "get_public_article now token d = ok (d', page) \<Longrightarrow> share_step d d'"

inductive_cases share_stepE: "share_step d d'"

text \<open>
  The table in every reachable state: ids and tokens are unique, and every link leads to an article of
  its creator.
\<close>

definition links_ok :: "db \<Rightarrow> bool" where
  "links_ok d \<longleftrightarrow> distinct (map sl_id (share_links d)) \<and> distinct (map sl_token (share_links d)) \<and>
     (\<forall>l \<in> set (share_links d). \<exists>a. get_by art_id (sl_article_id l) (articles d) = Some a \<and> art_user_id a = sl_user_id l)"

lemma create_share_link_ok:
  assumes "create_share_link now lid token aid uid days d = ok (d', resp)"
  shows "\<exists>a. get_by art_id aid (articles d) = Some a \<and> art_user_id a = uid \<and>
    lid \<notin> sl_id ` set (share_links d) \<and> token \<notin> sl_token ` set (share_links d) \<and>
    d' = d\<lparr>share_links := share_links d @ [new_link now lid token aid uid days]\<rparr> \<and>
    resp = link_response (new_link now lid token aid uid days) (Some (art_title a))"
  using assms by (auto simp: create_share_link_def Let_def split: option.splits if_splits)

lemma revoke_share_link_ok:
  assumes "revoke_share_link lid uid d = ok d'"
  shows "\<exists>l. get_by sl_id lid (share_links d) = Some l \<and> sl_user_id l = uid \<and>
    d' = d\<lparr>share_links := update_where (\<lambda>l. sl_id l = lid) (\<lambda>l. l\<lparr>sl_revoked := True\<rparr>) (share_links d)\<rparr>"
  using assms by (auto simp: revoke_share_link_def split: option.splits if_splits)

lemma get_public_article_ok:
  assumes "get_public_article now token d = ok (d', page)"
  shows "\<exists>l a. select (\<lambda>l. sl_token l = token) (share_links d) = [l] \<and> \<not> sl_revoked l \<and> \<not> expired now l \<and>
    get_by art_id (sl_article_id l) (articles d) = Some a \<and> d' = record_view now l d \<and>
    pa_title page = art_title a \<and> pa_content_html page = rendered_content d a"
proof -
  from assms obtain l where l: "one_or_none (select (\<lambda>l. sl_token l = token) (share_links d)) = ok (Some l)"
    "\<not> sl_revoked l" "\<not> expired now l"
    by (auto simp: get_public_article_def res_simps split: option.splits if_splits)
  then obtain a where a: "get_by art_id (sl_article_id l) (articles d) = Some a"
    using assms by (auto simp: get_public_article_def split: option.splits)
  have "d' = record_view now l d \<and> pa_title page = art_title a \<and> pa_content_html page = rendered_content d a"
    using assms l a by (auto simp: get_public_article_def)
  with l a show ?thesis unfolding one_or_none_ok_Some by blast
qed

lemma update_link_keeps:
  assumes "\<And>l. sl_id (f l) = sl_id l \<and> sl_token (f l) = sl_token l \<and> sl_user_id (f l) = sl_user_id l \<and> sl_article_id (f l) = sl_article_id l"
    and "links_ok d"
  shows "links_ok (d\<lparr>share_links := update_where p f (share_links d)\<rparr>)"
  using assms by (auto simp: links_ok_def set_update_where)

lemma share_step_links_ok:
  assumes "share_step d d'" and "links_ok d"
  shows "links_ok d'"
  using assms(1)
proof cases
  case (create plan now lid token aid uid days resp)
  then have "create_share_link now lid token aid uid days d = ok (d', resp)"
    by (auto simp: create_share_link_route_def res_simps)
  from create_share_link_ok [OF this] assms(2) show ?thesis by (auto simp: links_ok_def new_link_def)
next
  case (revoke lid uid)
  from revoke_share_link_ok [OF this] update_link_keeps [OF _ assms(2)] show ?thesis by auto
next
  case (view now token page)
  from get_public_article_ok [OF this] update_link_keeps [OF _ assms(2)] show ?thesis by (auto simp: record_view_def)
qed

lemma share_steps_links_ok: "share_step\<^sup>*\<^sup>* d d' \<Longrightarrow> links_ok d \<Longrightarrow> links_ok d'"
  by (induction rule: rtranclp_induct) (auto intro: share_step_links_ok)

text \<open>A link stays in the table, keeps its token and its expiry, and once revoked stays revoked.\<close>

definition still_there :: "share_link \<Rightarrow> db \<Rightarrow> bool" where
  "still_there l d \<longleftrightarrow> (\<exists>l' \<in> set (share_links d). sl_token l' = sl_token l \<and> sl_expires_at l' = sl_expires_at l \<and> (sl_revoked l \<longrightarrow> sl_revoked l'))"

lemma still_there_update:
  assumes "still_there l d"
    and "\<And>l. sl_token (f l) = sl_token l \<and> sl_expires_at (f l) = sl_expires_at l \<and> (sl_revoked l \<longrightarrow> sl_revoked (f l))"
  shows "still_there l (d\<lparr>share_links := update_where p f (share_links d)\<rparr>)"
proof -
  from assms(1) obtain l' where l': "l' \<in> set (share_links d)" "sl_token l' = sl_token l" "sl_expires_at l' = sl_expires_at l"
    "sl_revoked l \<longrightarrow> sl_revoked l'" by (auto simp: still_there_def)
  then have "(if p l' then f l' else l') \<in> set (update_where p f (share_links d))" by (auto simp: set_update_where)
  with l' assms(2) [of l'] show ?thesis unfolding still_there_def by (intro bexI [of _ "if p l' then f l' else l'"]) auto
qed

lemma share_step_still_there:
  assumes "share_step d d'" and "still_there l d"
  shows "still_there l d'"
  using assms(1)
proof cases
  case (create plan now lid token aid uid days resp)
  then have "create_share_link now lid token aid uid days d = ok (d', resp)"
    by (auto simp: create_share_link_route_def res_simps)
  from create_share_link_ok [OF this] assms(2) show ?thesis by (auto simp: still_there_def)
next
  case (revoke lid uid)
  from revoke_share_link_ok [OF this] still_there_update [OF assms(2)] show ?thesis by auto
next
  case (view now token page)
  from get_public_article_ok [OF this] still_there_update [OF assms(2)] show ?thesis by (auto simp: record_view_def)
qed

lemma share_steps_still_there: "share_step\<^sup>*\<^sup>* d d' \<Longrightarrow> still_there l d \<Longrightarrow> still_there l d'"
  by (induction rule: rtranclp_induct) (auto intro: share_step_still_there)

lemma token_row:
  assumes "links_ok d" and "l \<in> set (share_links d)"
  shows "one_or_none (select (\<lambda>x. sl_token x = sl_token l) (share_links d)) = ok (Some l)"
proof -
  have "select (\<lambda>x. sl_token x = sl_token l) (share_links d) = [l]"
    using assms by (intro select_distinct_key) (simp_all add: links_ok_def)
  then show ?thesis by (simp add: query_simps)
qed

lemma later_row:
  assumes "links_ok d" and "still_there l d"
  shows "\<exists>l'. one_or_none (select (\<lambda>y. sl_token y = sl_token l) (share_links d)) = ok (Some l') \<and>
    sl_expires_at l' = sl_expires_at l \<and> (sl_revoked l \<longrightarrow> sl_revoked l')"
proof -
  from assms(2) obtain l' where l': "l' \<in> set (share_links d)" "sl_token l' = sl_token l" "sl_expires_at l' = sl_expires_at l"
    "sl_revoked l \<longrightarrow> sl_revoked l'" by (auto simp: still_there_def)
  with token_row [OF assms(1) l'(1)] show ?thesis by auto
qed

section \<open>Properties\<close>

text \<open>
  C10. Public access is authorised: in every state that creations, revocations and views can reach, a
  token gives content only if a link with it exists that is neither revoked nor past its expiry; the content
  is that of an article whose owner created the link, its HTML is safe, and the only effect is that
  the view counter of that link goes up by one.
\<close>

theorem public_access_authorized:
  assumes "links_ok d0" and "share_step\<^sup>*\<^sup>* d0 d" and "get_public_article now token d = ok (d', page)"
  shows "\<exists>l a. l \<in> set (share_links d) \<and> sl_token l = token \<and> \<not> sl_revoked l \<and> \<not> expired now l \<and>
    a \<in> set (articles d) \<and> art_id a = sl_article_id l \<and> art_user_id a = sl_user_id l \<and>
    pa_title page = art_title a \<and> safe_html (pa_content_html page) \<and>
    d' = d\<lparr>share_links := map (\<lambda>x. if x = l then l\<lparr>sl_view_count := sl_view_count l + 1, sl_last_viewed_at := Some now\<rparr> else x) (share_links d)\<rparr>"
proof -
  from get_public_article_ok [OF assms(3)] obtain l a where
    l: "select (\<lambda>l. sl_token l = token) (share_links d) = [l]" "\<not> sl_revoked l" "\<not> expired now l" and
    a: "get_by art_id (sl_article_id l) (articles d) = Some a" and
    d': "d' = record_view now l d" and page: "pa_title page = art_title a" "pa_content_html page = rendered_content d a"
    by blast
  have inv: "links_ok d" using share_steps_links_ok [OF assms(2, 1)] .
  have lin: "l \<in> set (share_links d) \<and> sl_token l = token" using l(1) set_select [of "\<lambda>l. sl_token l = token" "share_links d"] by auto
  have "x = l" if "x \<in> set (share_links d)" "sl_id x = sl_id l" for x
    using inv that lin by (auto simp: links_ok_def distinct_map dest: inj_onD)
  then have "d' = d\<lparr>share_links := map (\<lambda>x. if x = l then l\<lparr>sl_view_count := sl_view_count l + 1, sl_last_viewed_at := Some now\<rparr> else x) (share_links d)\<rparr>"
    unfolding d' record_view_def update_where_def by (auto intro!: arg_cong [where f = "\<lambda>x. d\<lparr>share_links := x\<rparr>"])
  moreover have "art_user_id a = sl_user_id l" using inv lin a by (auto simp: links_ok_def)
  moreover have "safe_html (pa_content_html page)" using page(2) by (simp add: rendered_content_def Let_def rendered_safe safe_html.empty)
  ultimately show ?thesis using l lin a get_by_Some [OF a] page(1) by blast
qed

text \<open>
  C11. Revocation is final, and only the owner can revoke: after a successful revocation the token of the link gives
  "not found" in every later state and at every time, and an expired link is refused from its expiry
  on, whatever links are created, revoked or viewed in between.
\<close>

theorem revocation_final:
  assumes "links_ok d" and "l \<in> set (share_links d)"
  shows "(\<forall>uid d1 d2 now. revoke_share_link (sl_id l) uid d = ok d1 \<and> share_step\<^sup>*\<^sup>* d1 d2 \<longrightarrow>
      uid = sl_user_id l \<and> get_public_article now (sl_token l) d2 = raise (NotFoundError ''Share link not found'')) \<and>
    (\<forall>d2 now. share_step\<^sup>*\<^sup>* d d2 \<and> expired now l \<longrightarrow>
      get_public_article now (sl_token l) d2 = raise (NotFoundError ''Share link not found'') \<or>
      get_public_article now (sl_token l) d2 = raise (GoneError ''Share link has expired''))"
proof (intro conjI allI impI)
  fix uid d1 d2 now
  assume s: "revoke_share_link (sl_id l) uid d = ok d1 \<and> share_step\<^sup>*\<^sup>* d1 d2"
  then have step: "share_step\<^sup>*\<^sup>* d d2" by (meson converse_rtranclp_into_rtranclp share_step.revoke)
  from s obtain k where k: "get_by sl_id (sl_id l) (share_links d) = Some k" "sl_user_id k = uid"
    and d1: "d1 = d\<lparr>share_links := update_where (\<lambda>x. sl_id x = sl_id l) (\<lambda>x. x\<lparr>sl_revoked := True\<rparr>) (share_links d)\<rparr>"
    using revoke_share_link_ok by blast
  show "uid = sl_user_id l"
    using k get_by_distinct [of sl_id "share_links d" l] assms by (simp add: links_ok_def)
  have "still_there (l\<lparr>sl_revoked := True\<rparr>) d1" using assms(2) unfolding d1
    by (auto simp: still_there_def set_update_where intro!: bexI [of _ "l\<lparr>sl_revoked := True\<rparr>"])
  then have "still_there (l\<lparr>sl_revoked := True\<rparr>) d2" using share_steps_still_there s by blast
  from later_row [OF share_steps_links_ok [OF step assms(1)] this]
  show "get_public_article now (sl_token l) d2 = raise (NotFoundError ''Share link not found'')"
    by (auto simp: get_public_article_def)
next
  fix d2 now
  assume s: "share_step\<^sup>*\<^sup>* d d2 \<and> expired now l"
  have "still_there l d" using assms(2) by (auto simp: still_there_def)
  then have "still_there l d2" using s share_steps_still_there by blast
  from later_row [OF share_steps_links_ok [OF _ assms(1)] this] s obtain l' where
    l': "one_or_none (select (\<lambda>y. sl_token y = sl_token l) (share_links d2)) = ok (Some l')" "sl_expires_at l' = sl_expires_at l"
    by blast
  with s have "expired now l'" by (simp add: expired_def)
  with l'(1) show "get_public_article now (sl_token l) d2 = raise (NotFoundError ''Share link not found'') \<or>
      get_public_article now (sl_token l) d2 = raise (GoneError ''Share link has expired'')"
    by (simp add: get_public_article_def)
qed

section \<open>Witnesses\<close>

definition ex_share_db :: db where
  "ex_share_db = empty_db\<lparr>articles := [new_article ''a1'' ''u1'' ''s'' ''T'' ''f'' 0],
     share_links := [new_link 0 ''l1'' ''tok'' ''a1'' ''u1'' (Some 1)],
     wiki_files := [(''u1'', ''f'') \<mapsto> ''# <b>'']\<rparr>"

lemma ex_links_ok: "links_ok ex_share_db"
  by (simp add: links_ok_def ex_share_db_def new_link_def new_article_def empty_db_def get_by_def)

lemma ex_view: "\<not> isl (get_public_article 5 ''tok'' ex_share_db)"
  by code_simp

theorem public_access_authorized_witness:
  "safe_html (pa_content_html (snd (projr (get_public_article 5 ''tok'' ex_share_db))))"
proof -
  obtain d' page where x: "get_public_article 5 ''tok'' ex_share_db = ok (d', page)"
    using ex_view by (metis old.prod.exhaust sum.collapse(2))
  from public_access_authorized [OF ex_links_ok rtranclp.rtrancl_refl x] x show ?thesis by auto
qed

theorem revocation_final_witness:
  "get_public_article 5 ''tok'' (projr (revoke_share_link ''l1'' ''u1'' ex_share_db)) = raise (NotFoundError ''Share link not found'') \<and>
   (get_public_article (day_us + 1) ''tok'' ex_share_db = raise (NotFoundError ''Share link not found'') \<or>
    get_public_article (day_us + 1) ''tok'' ex_share_db = raise (GoneError ''Share link has expired''))"
proof -
  let ?l = "new_link 0 ''l1'' ''tok'' ''a1'' ''u1'' (Some 1)"
  have l: "?l \<in> set (share_links ex_share_db)" "sl_id ?l = ''l1''" "sl_token ?l = ''tok''" by (simp_all add: ex_share_db_def new_link_def)
  have "\<not> isl (revoke_share_link ''l1'' ''u1'' ex_share_db)" by code_simp
  then have r: "revoke_share_link ''l1'' ''u1'' ex_share_db = ok (projr (revoke_share_link ''l1'' ''u1'' ex_share_db))"
    by (rule sum.collapse(2) [symmetric])
  have "expired (day_us + 1) ?l" by (simp add: expired_def new_link_def expiry_def)
  with revocation_final [OF ex_links_ok l(1)] r l(2, 3) show ?thesis
    by (metis rtranclp.rtrancl_refl)
qed

text \<open>Expired links still count against the limit of active links of the plan.\<close>

lemma expired_link_counts: "expired (day_us + 1) (hd (share_links ex_share_db)) \<and> count_shares ''u1'' ex_share_db = 1"
  by (simp add: ex_share_db_def new_link_def expired_def expiry_def count_shares_def select_def)

end
