(* ===== verification/BacklinkEnforcer.thy ===== *)
theory BacklinkEnforcer
  imports Domain Json
begin

text \<open>
  The structural checks of \<^verbatim>\<open>src/src/wikimind/engine/backlink_enforcer.py\<close>: \<open>ensure_bidirectional\<close>
  inserts the missing inverse of a link with a symmetric relation, \<open>enforce_backlinks\<close> runs
  the three checks on one article. \<open>loads\<close> stands for \<open>json.loads\<close>. Log messages are left out.
\<close>

section \<open>Definitions\<close>

definition symmetric_types :: "relation_type list" where
  "symmetric_types = [CONTRADICTS, RELATED_TO]"

record enforcer_violation =
  ev_article_id :: string
  ev_article_title :: string
  ev_violation_type :: string
  ev_detail :: string
  ev_auto_repaired :: bool

record enforcer_result =
  er_violations :: "enforcer_violation list"
  er_warnings :: "string list"

definition inverse_link :: "backlink \<Rightarrow> backlink" where
  "inverse_link b = \<lparr>bl_source_article_id = bl_target_article_id b, bl_target_article_id = bl_source_article_id b,
     bl_user_id = bl_user_id b, bl_context = bl_context b, bl_relation_type = bl_relation_type b,
     bl_resolution = None, bl_resolution_note = None, bl_resolved_at = None, bl_resolved_by = None\<rparr>"

definition ensure_bidirectional :: "backlink \<Rightarrow> db \<Rightarrow> db \<times> bool" where
  "ensure_bidirectional backlink d =
     (if bl_relation_type backlink \<notin> set symmetric_types then (d, False)
      else
        (case first_of (select (\<lambda>b. bl_source_article_id b = bl_target_article_id backlink \<and>
                                    bl_target_article_id b = bl_source_article_id backlink) (backlinks d)) of
           Some existing \<Rightarrow> (d, False)
         | None \<Rightarrow> (d\<lparr>backlinks := backlinks d @ [inverse_link backlink]\<rparr>, True)))"

text \<open>Both lists of the result grow together, with the message as the detail of the violation.\<close>

definition report :: "article \<Rightarrow> string \<Rightarrow> string \<Rightarrow> bool \<Rightarrow> enforcer_result \<Rightarrow> enforcer_result" where
  "report article violation_type msg auto_repaired res =
     \<lparr>er_violations = er_violations res @
        [\<lparr>ev_article_id = art_id article, ev_article_title = art_title article, ev_violation_type = violation_type,
          ev_detail = msg, ev_auto_repaired = auto_repaired\<rparr>],
      er_warnings = er_warnings res @ [msg]\<rparr>"

text \<open>
  The concepts of check 1: the rows of the link table, else the JSON column, in which any value that
  decodes counts as it is; an exception of \<open>json.loads\<close> is suppressed.
\<close>

definition has_concepts :: "(string \<Rightarrow> json result) \<Rightarrow> article \<Rightarrow> db \<Rightarrow> bool" where
  "has_concepts loads article d =
     (if select (\<lambda>ac. ac_article_id ac = art_id article) (article_concepts d) \<noteq> [] then True
      else (case art_concept_ids article of
              None \<Rightarrow> False
            | Some s \<Rightarrow> if s = [] then False
                        else (case loads s of Inr v \<Rightarrow> truthy v | Inl _ \<Rightarrow> False)))"

definition check_source :: "(string \<Rightarrow> json result) \<Rightarrow> article \<Rightarrow> db \<Rightarrow> enforcer_result \<Rightarrow> enforcer_result" where
  "check_source loads article d res =
     (if art_page_type article = SOURCE \<and> \<not> has_concepts loads article d
      then report article ''source_no_concepts''
             (''Source page '' @ [CHR 0x27] @ art_title article @ [CHR 0x27] @ '' has no concepts in concept_ids'') False res
      else res)"

definition synth_count :: "string \<Rightarrow> db \<Rightarrow> nat" where
  "synth_count article_id d =
     length (select (\<lambda>b. bl_source_article_id b = article_id \<and> bl_relation_type b = SYNTHESIZES) (backlinks d))"

definition check_concept :: "article \<Rightarrow> db \<Rightarrow> enforcer_result \<Rightarrow> enforcer_result" where
  "check_concept article d res =
     (if art_page_type article = CONCEPT \<and> synth_count (art_id article) d < 2
      then report article ''concept_insufficient_synthesizes''
             (''Concept page '' @ [CHR 0x27] @ art_title article @ [CHR 0x27] @ '' has '' @ show_nat (synth_count (art_id article) d) @
              '' synthesizes links (need >= 2)'') False res
      else res)"

fun enforce_loop :: "article \<Rightarrow> backlink list \<Rightarrow> db \<times> enforcer_result \<Rightarrow> db \<times> enforcer_result" where
  "enforce_loop article [] (d, res) = (d, res)"
| "enforce_loop article (bl # bls) (d, res) =
     (let (d', created) = ensure_bidirectional bl d;
          msg = ''Missing inverse link created: '' @ bl_source_article_id bl @ '' <-> '' @ bl_target_article_id bl @
                '' ('' @ relation_type_value (bl_relation_type bl) @ '')''
      in enforce_loop article bls (d', if created then report article ''missing_inverse_link'' msg True res else res))"

definition enforce_backlinks :: "(string \<Rightarrow> json result) \<Rightarrow> string \<Rightarrow> db \<Rightarrow> db \<times> enforcer_result" where
  "enforce_backlinks loads article_id d =
     (let res = \<lparr>er_violations = [], er_warnings = []\<rparr> in
      case first_of (select (\<lambda>a. art_id a = article_id) (articles d)) of
        None \<Rightarrow> (d, res\<lparr>er_warnings := [''Article '' @ article_id @ '' not found'']\<rparr>)
      | Some article \<Rightarrow>
          (let res2 = check_concept article d (check_source loads article d res);
               outbound = select (\<lambda>b. bl_source_article_id b = article_id) (backlinks d);
               inbound = select (\<lambda>b. bl_target_article_id b = article_id) (backlinks d)
           in enforce_loop article (outbound @ inbound) (d, res2)))"

section \<open>Symmetry\<close>

definition link_key :: "backlink \<Rightarrow> string \<times> string" where
  "link_key b = (bl_source_article_id b, bl_target_article_id b)"

definition symmetric :: "backlink \<Rightarrow> bool" where
  "symmetric b \<longleftrightarrow> bl_relation_type b \<in> {CONTRADICTS, RELATED_TO}"

definition has_inverse :: "db \<Rightarrow> backlink \<Rightarrow> bool" where
  "has_inverse d b \<longleftrightarrow> (bl_target_article_id b, bl_source_article_id b) \<in> link_key ` set (backlinks d)"

definition touches :: "string \<Rightarrow> backlink \<Rightarrow> bool" where
  "touches article_id b \<longleftrightarrow> bl_source_article_id b = article_id \<or> bl_target_article_id b = article_id"

lemma inverse_link_simps [simp]:
  "link_key (inverse_link b) = (bl_target_article_id b, bl_source_article_id b)"
  "symmetric (inverse_link b) = symmetric b"
  "touches a (inverse_link b) = touches a b"
  by (auto simp: inverse_link_def link_key_def symmetric_def touches_def)

lemma ensure_bidirectional_cases:
  "ensure_bidirectional b d =
     (if symmetric b \<and> \<not> has_inverse d b then (d\<lparr>backlinks := backlinks d @ [inverse_link b]\<rparr>, True) else (d, False))"
proof -
  have "first_of (select (\<lambda>c. bl_source_article_id c = bl_target_article_id b \<and> bl_target_article_id c = bl_source_article_id b) (backlinks d)) = None
    \<longleftrightarrow> \<not> has_inverse d b"
    by (auto simp: select_empty_iff has_inverse_def link_key_def image_iff)
  then show ?thesis
    by (auto simp: ensure_bidirectional_def symmetric_def symmetric_types_def first_of_def split: option.splits)
qed

lemma has_inverse_mono: "has_inverse d b \<Longrightarrow> has_inverse (d\<lparr>backlinks := backlinks d @ new\<rparr>) b"
  by (auto simp: has_inverse_def)

lemma enforce_loop_spec:
  assumes "enforce_loop article bls (d, res) = (d', res')" and "distinct (map link_key (backlinks d))"
  shows "\<exists>new. d' = d\<lparr>backlinks := backlinks d @ new\<rparr> \<and> distinct (map link_key (backlinks d')) \<and>
    (\<forall>n \<in> set new. \<exists>b \<in> set bls. symmetric b \<and> n = inverse_link b) \<and>
    (\<forall>b \<in> set bls. symmetric b \<longrightarrow> has_inverse d' b)"
  using assms
proof (induction bls arbitrary: d res)
  case Nil
  then show ?case by (auto intro: exI [of _ "[]"])
next
  case (Cons bl bls)
  show ?case
  proof (cases "symmetric bl \<and> \<not> has_inverse d bl")
    case False
    with Cons.prems have "enforce_loop article bls (d, res) = (d', res')" by (simp add: ensure_bidirectional_cases)
    from Cons.IH [OF this Cons.prems(2)] False show ?thesis using has_inverse_mono by (metis set_ConsD list.set_intros(2))
  next
    case True
    let ?d = "d\<lparr>backlinks := backlinks d @ [inverse_link bl]\<rparr>"
    from True Cons.prems(1) obtain res2 where run: "enforce_loop article bls (?d, res2) = (d', res')"
      by (auto simp: ensure_bidirectional_cases Let_def)
    have "distinct (map link_key (backlinks ?d))" using Cons.prems(2) True by (simp add: has_inverse_def)
    from Cons.IH [OF run this] obtain new where new: "d' = ?d\<lparr>backlinks := backlinks ?d @ new\<rparr>" "distinct (map link_key (backlinks d'))"
      "\<forall>n \<in> set new. \<exists>b \<in> set bls. symmetric b \<and> n = inverse_link b" "\<forall>b \<in> set bls. symmetric b \<longrightarrow> has_inverse d' b"
      by blast
    have "has_inverse ?d bl" by (simp add: has_inverse_def)
    then have "has_inverse d' bl" using has_inverse_mono new(1) by metis
    with new True show ?thesis by (intro exI [of _ "inverse_link bl # new"]) auto
  qed
qed

lemma enforce_loop_noop:
  "(\<And>b. b \<in> set bls \<Longrightarrow> symmetric b \<Longrightarrow> has_inverse d b) \<Longrightarrow> enforce_loop article bls (d, res) = (d, res)"
  by (induction bls) (auto simp: ensure_bidirectional_cases)

text \<open>
  Enforcing an article makes its symmetric links symmetric and nothing else: the only change to the
  database is that inverses of existing symmetric links of the article are added, with the same relation, context
  and user; the key of the table stays unique; afterwards every symmetric link from or to
  the article has a link in the other direction; and a second run changes nothing.
\<close>

lemma enforce_backlinks_symmetric:
  assumes "distinct (map link_key (backlinks d))" and "article_id \<in> art_id ` set (articles d)"
    and "enforce_backlinks loads article_id d = (d', res)"
  shows "(\<exists>new. d' = d\<lparr>backlinks := backlinks d @ new\<rparr> \<and>
      (\<forall>n \<in> set new. \<exists>b \<in> set (backlinks d). touches article_id b \<and> symmetric b \<and> n = inverse_link b)) \<and>
    distinct (map link_key (backlinks d')) \<and>
    (\<forall>b \<in> set (backlinks d'). touches article_id b \<and> symmetric b \<longrightarrow> has_inverse d' b) \<and>
    fst (enforce_backlinks loads article_id d') = d'"
proof -
  let ?ls = "\<lambda>x. select (\<lambda>b. bl_source_article_id b = article_id) (backlinks x) @ select (\<lambda>b. bl_target_article_id b = article_id) (backlinks x)"
  have ls: "b \<in> set (?ls x) \<longleftrightarrow> b \<in> set (backlinks x) \<and> touches article_id b" for b x by (auto simp: touches_def)
  obtain a where a: "first_of (select (\<lambda>a. art_id a = article_id) (articles d)) = Some a"
    using assms(2) by (cases "first_of (select (\<lambda>a. art_id a = article_id) (articles d))") (auto simp: select_empty_iff)
  then have run: "\<exists>r. enforce_loop a (?ls d) (d, r) = (d', res)" using assms(3) by (auto simp: enforce_backlinks_def Let_def)
  then obtain new where d': "d' = d\<lparr>backlinks := backlinks d @ new\<rparr>" and dis: "distinct (map link_key (backlinks d'))"
    and new: "\<forall>n \<in> set new. \<exists>b \<in> set (?ls d). symmetric b \<and> n = inverse_link b"
    and inv: "\<forall>b \<in> set (?ls d). symmetric b \<longrightarrow> has_inverse d' b"
    using enforce_loop_spec [OF _ assms(1)] by blast
  have sym: "has_inverse d' b" if "b \<in> set (backlinks d')" "touches article_id b" "symmetric b" for b
  proof (cases "b \<in> set (backlinks d)")
    case True
    then show ?thesis using inv ls that by blast
  next
    case False
    then have "b \<in> set new" using that(1) d' by simp
    then obtain c where c: "c \<in> set (backlinks d)" "b = inverse_link c" using new ls by blast
    then show ?thesis using d' by (auto simp: has_inverse_def inverse_link_def link_key_def)
  qed
  have "first_of (select (\<lambda>a. art_id a = article_id) (articles d')) = Some a" using a d' by simp
  moreover have "enforce_loop a (?ls d') (d', r) = (d', r)" for r
    by (rule enforce_loop_noop) (use sym ls in blast)
  ultimately have "fst (enforce_backlinks loads article_id d') = d'" by (simp add: enforce_backlinks_def Let_def)
  then show ?thesis using d' new dis sym ls by blast
qed

text \<open>
  A link in the other direction counts whatever its relation: a contradiction whose inverse
  is a plain reference stays asymmetric.
\<close>

definition ex_link :: "string \<Rightarrow> string \<Rightarrow> relation_type \<Rightarrow> backlink" where
  "ex_link s t r = \<lparr>bl_source_article_id = s, bl_target_article_id = t, bl_user_id = ''u1'', bl_context = None, bl_relation_type = r,
     bl_resolution = None, bl_resolution_note = None, bl_resolved_at = None, bl_resolved_by = None\<rparr>"

definition ex_links_db :: "backlink list \<Rightarrow> db" where
  "ex_links_db ls = empty_db\<lparr>articles := [new_article ''a'' ''u1'' ''s'' ''T'' ''f'' 0], backlinks := ls\<rparr>"

lemma inverse_of_other_relation:
  "fst (enforce_backlinks loads ''a'' (ex_links_db [ex_link ''a'' ''b'' CONTRADICTS, ex_link ''b'' ''a'' REFERENCES])) =
     ex_links_db [ex_link ''a'' ''b'' CONTRADICTS, ex_link ''b'' ''a'' REFERENCES]"
  by (simp add: enforce_backlinks_def ex_links_db_def ex_link_def empty_db_def new_article_def first_of_def select_def
      ensure_bidirectional_def symmetric_types_def)

section \<open>Witness\<close>

lemma enforce_backlinks_symmetric_witness:
  "let d' = fst (enforce_backlinks (\<lambda>_. ok JNull) ''a'' (ex_links_db [ex_link ''a'' ''b'' RELATED_TO, ex_link ''c'' ''a'' REFERENCES]))
   in distinct (map link_key (backlinks d')) \<and> fst (enforce_backlinks (\<lambda>_. ok JNull) ''a'' d') = d'"
proof -
  let ?d = "ex_links_db [ex_link ''a'' ''b'' RELATED_TO, ex_link ''c'' ''a'' REFERENCES]"
  obtain d' res where x: "enforce_backlinks (\<lambda>_. ok JNull) ''a'' ?d = (d', res)" by (rule prod.exhaust)
  have "distinct (map link_key (backlinks ?d))" "''a'' \<in> art_id ` set (articles ?d)"
    by (simp_all add: ex_links_db_def ex_link_def link_key_def new_article_def)
  from enforce_backlinks_symmetric [OF this x] x show ?thesis by (simp add: Let_def)
qed

end
