(* ===== verification/ApiKeys.thy ===== *)
theory ApiKeys
  imports Domain PyStr
begin

text \<open>
  \<^verbatim>\<open>src/src/wikimind/services/api_keys.py\<close>: API keys of users, encrypted at rest. The cryptography
  package is not part of the repository: its functions are the record \<open>crypto\<close>, with \<open>kdf\<close> for
  PBKDF2-HMAC-SHA256 followed by base64 (secret and salt to a Fernet key) and \<open>enc\<close>, \<open>dec\<close> for \<open>Fernet.encrypt\<close> and
  \<open>Fernet.decrypt\<close> on bytes. \<open>fernet_ok\<close> is the documented behaviour the properties rely on: a token is
  ASCII, and decrypting it with the key of encryption returns the plaintext. The salt of \<open>os.urandom\<close>, the nonce
  of a token and the id of a new row are arguments. Log messages are left out.
\<close>

section \<open>Bytes\<close>

text \<open>\<open>bytes.hex\<close>, \<open>bytes.fromhex\<close> (which skips white space between bytes) and \<open>bytes.decode\<close>, for the characters below 256.\<close>

definition hex_digit :: "nat \<Rightarrow> char" where
  "hex_digit n = char_of (if n < 10 then 48 + n else 87 + n)"

definition hex_value :: "char \<Rightarrow> nat option" where
  "hex_value c =
     (if 48 \<le> cp c \<and> cp c \<le> 57 then Some (cp c - 48)
      else if 97 \<le> cp c \<and> cp c \<le> 102 then Some (cp c - 87)
      else if 65 \<le> cp c \<and> cp c \<le> 70 then Some (cp c - 55)
      else None)"

definition bytes_hex :: "nat list \<Rightarrow> string" where
  "bytes_hex bs = concat (map (\<lambda>b. [hex_digit (b div 16), hex_digit (b mod 16)]) bs)"

fun bytes_fromhex :: "string \<Rightarrow> nat list result" where
  "bytes_fromhex [] = ok []"
| "bytes_fromhex (a # cs) =
     (if cp a \<in> {9, 10, 11, 12, 13, 32} then bytes_fromhex cs
      else (case cs of
              [] \<Rightarrow> raise (ValueError ''non-hexadecimal number'')
            | b # cs' \<Rightarrow>
                (case (hex_value a, hex_value b) of
                   (Some x, Some y) \<Rightarrow> bindR (bytes_fromhex cs') (\<lambda>bs. ok ((x * 16 + y) # bs))
                 | _ \<Rightarrow> raise (ValueError ''non-hexadecimal number''))))"

fun utf8_decode :: "nat list \<Rightarrow> string result" where
  "utf8_decode [] = ok []"
| "utf8_decode (b # bs) =
     (if b < 128 then bindR (utf8_decode bs) (\<lambda>s. ok (char_of b # s))
      else (case bs of
              [] \<Rightarrow> raise (ValueError ''utf-8'')
            | b2 # bs' \<Rightarrow>
                if b \<in> {194, 195} \<and> 128 \<le> b2 \<and> b2 < 192
                then bindR (utf8_decode bs') (\<lambda>s. ok (char_of ((b - 192) * 64 + (b2 - 128)) # s))
                else raise (ValueError ''utf-8'')))"

section \<open>Encryption\<close>

record crypto =
  kdf :: "nat list \<Rightarrow> nat list \<Rightarrow> nat list"
  enc :: "nat list \<Rightarrow> nat \<Rightarrow> nat list \<Rightarrow> nat list"
  dec :: "nat list \<Rightarrow> nat list \<Rightarrow> nat list result"

definition fernet_ok :: "crypto \<Rightarrow> bool" where
  "fernet_ok c \<longleftrightarrow> (\<forall>k nonce p. dec c k (enc c k nonce p) = ok p \<and> (\<forall>b \<in> set (enc c k nonce p). b < 128))"

definition derive_fernet_key :: "crypto \<Rightarrow> string \<Rightarrow> nat list \<Rightarrow> nat list result" where
  "derive_fernet_key c secret salt =
     (if secret = []
      then raise (ValueError ''JWT_SECRET_KEY must be configured for BYOK encryption. Set WIKIMIND_AUTH__JWT_SECRET_KEY in your environment.'')
      else ok (kdf c (utf8 secret) salt))"

definition encrypt_api_key :: "crypto \<Rightarrow> string \<Rightarrow> nat list \<Rightarrow> nat \<Rightarrow> string \<Rightarrow> (string \<times> string) result" where
  "encrypt_api_key c secret salt nonce plaintext =
     bindR (derive_fernet_key c secret salt) (\<lambda>k.
     bindR (utf8_decode (enc c k nonce (utf8 plaintext))) (\<lambda>encrypted.
       ok (encrypted, bytes_hex salt)))"

definition decrypt_api_key :: "crypto \<Rightarrow> string \<Rightarrow> string \<Rightarrow> string \<Rightarrow> string result" where
  "decrypt_api_key c secret encrypted_key salt_hex =
     bindR (bytes_fromhex salt_hex) (\<lambda>salt.
     bindR (derive_fernet_key c secret salt) (\<lambda>k.
     bindR (dec c k (utf8 encrypted_key)) utf8_decode))"

definition mask_api_key :: "string \<Rightarrow> string" where
  "mask_api_key key =
     (if length key \<le> 8 then ''****'' else take 4 key @ ''...'' @ drop (length key - 4) key)"

section \<open>Operations\<close>

definition is_key :: "string \<Rightarrow> provider \<Rightarrow> user_api_key \<Rightarrow> bool" where
  "is_key user_id p r \<longleftrightarrow> uak_user_id r = user_id \<and> uak_provider r = p"

definition set_user_api_key ::
  "crypto \<Rightarrow> string \<Rightarrow> datetime \<Rightarrow> string \<Rightarrow> nat list \<Rightarrow> nat \<Rightarrow> string \<Rightarrow> provider \<Rightarrow> string \<Rightarrow> db \<Rightarrow> (db \<times> user_api_key) result" where
  "set_user_api_key c secret now fresh salt nonce user_id p api_key d =
     bindR (encrypt_api_key c secret salt nonce api_key) (\<lambda>(encrypted_key, salt_hex).
     bindR (one_or_none (select (is_key user_id p) (user_api_keys d))) (\<lambda>existing.
       case existing of
         Some r \<Rightarrow>
           (let r' = r\<lparr>uak_encrypted_key := encrypted_key, uak_salt := salt_hex, uak_updated_at := now\<rparr>
            in ok (d\<lparr>user_api_keys := update_where (is_key user_id p) (\<lambda>_. r') (user_api_keys d)\<rparr>, r'))
       | None \<Rightarrow>
           (let r = \<lparr>uak_id = fresh, uak_user_id = user_id, uak_provider = p, uak_encrypted_key = encrypted_key,
                     uak_salt = salt_hex, uak_created_at = now, uak_updated_at = now\<rparr>
            in ok (d\<lparr>user_api_keys := user_api_keys d @ [r]\<rparr>, r))))"

definition get_user_api_key :: "crypto \<Rightarrow> string \<Rightarrow> string \<Rightarrow> provider \<Rightarrow> db \<Rightarrow> string option result" where
  "get_user_api_key c secret user_id p d =
     bindR (one_or_none (select (is_key user_id p) (user_api_keys d))) (\<lambda>r.
       case r of
         None \<Rightarrow> ok None
       | Some row \<Rightarrow> bindR (decrypt_api_key c secret (uak_encrypted_key row) (uak_salt row)) (\<lambda>k. ok (Some k)))"

definition list_user_api_keys :: "string \<Rightarrow> db \<Rightarrow> user_api_key list" where
  "list_user_api_keys user_id d = select (\<lambda>r. uak_user_id r = user_id) (user_api_keys d)"

definition delete_user_api_key :: "string \<Rightarrow> provider \<Rightarrow> db \<Rightarrow> (db \<times> bool) result" where
  "delete_user_api_key user_id p d =
     bindR (one_or_none (select (is_key user_id p) (user_api_keys d))) (\<lambda>r.
       case r of
         None \<Rightarrow> ok (d, False)
       | Some row \<Rightarrow> ok (d\<lparr>user_api_keys := delete_where (is_key user_id p) (user_api_keys d)\<rparr>, True))"

section \<open>Encoding round trips\<close>

lemma hex_value_digit [simp]: "n < 16 \<Longrightarrow> hex_value (hex_digit n) = Some n"
  and hex_digit_not_space: "n < 16 \<Longrightarrow> cp (hex_digit n) \<notin> {9, 10, 11, 12, 13, 32}"
  by (auto simp: hex_value_def hex_digit_def cp_char_of)

lemma fromhex_hex: "(\<And>b. b \<in> set bs \<Longrightarrow> b < 256) \<Longrightarrow> bytes_fromhex (bytes_hex bs) = ok bs"
proof (induction bs)
  case (Cons b bs)
  then have "b div 16 < 16" "b mod 16 < 16" by (auto simp: less_mult_imp_div_less)
  with Cons hex_digit_not_space [of "b div 16"] show ?case by (simp add: bytes_hex_def)
qed (simp add: bytes_hex_def)

lemma utf8_decode_char: "utf8_decode (utf8_char x @ bs) = bindR (utf8_decode bs) (\<lambda>s. ok (x # s))"
proof (cases "cp x < 128")
  case True
  then show ?thesis by (simp add: utf8_char_def char_of_cp)
next
  case False
  have "cp x < 256" by (rule cp_less_256)
  with False have "cp x div 64 = 2 \<or> cp x div 64 = 3" by linarith
  moreover have "cp x div 64 * 64 + cp x mod 64 = cp x" by simp
  ultimately have "192 + cp x div 64 \<in> {194, 195}" "((192 + cp x div 64) - 192) * 64 + (128 + cp x mod 64 - 128) = cp x"
    "128 \<le> 128 + cp x mod 64" "128 + cp x mod 64 < 192" "\<not> 192 + cp x div 64 < 128"
    by auto
  with False show ?thesis by (simp add: utf8_char_def char_of_cp)
qed

lemma utf8_decode_utf8: "utf8_decode (utf8 s) = ok s"
  by (induction s) (simp_all add: utf8_def utf8_decode_char)

lemma utf8_ascii: "(\<And>b. b \<in> set bs \<Longrightarrow> b < 128) \<Longrightarrow> \<exists>s. utf8_decode bs = ok s \<and> utf8 s = bs"
proof (induction bs)
  case (Cons b bs)
  then obtain s where "utf8_decode bs = ok s" "utf8 s = bs" by auto
  with Cons.prems [of b] show ?case by (intro exI [of _ "char_of b # s"]) (simp add: utf8_def utf8_char_def cp_char_of)
qed simp

lemma decrypt_encrypt:
  assumes "fernet_ok c" and "\<And>b. b \<in> set salt \<Longrightarrow> b < 256" and "encrypt_api_key c secret salt nonce key = ok (e, h)"
  shows "decrypt_api_key c secret e h = ok key"
proof -
  let ?k = "kdf c (utf8 secret) salt"
  from assms(3) have s: "secret \<noteq> []" "utf8_decode (enc c ?k nonce (utf8 key)) = ok e" "h = bytes_hex salt"
    by (auto simp: encrypt_api_key_def derive_fernet_key_def res_simps split: if_splits)
  moreover have "utf8 e = enc c ?k nonce (utf8 key)"
    using utf8_ascii [of "enc c ?k nonce (utf8 key)"] assms(1) s(2) by (auto simp: fernet_ok_def)
  moreover have "dec c ?k (enc c ?k nonce (utf8 key)) = ok (utf8 key)" using assms(1) by (simp add: fernet_ok_def)
  ultimately show ?thesis using fromhex_hex [OF assms(2)]
    by (simp add: decrypt_api_key_def derive_fernet_key_def utf8_decode_utf8)
qed

section \<open>The key store as a map\<close>

text \<open>
  \<open>key_store\<close> is the contract of a store with one secret per key: reading the store is reading an
  abstract map, which writing and deleting update at one key only. Its lemma says what any sequence of
  operations leaves in the store.
\<close>

datatype ('k, 'v, 'w) store_op = Put 'k 'v 'w | Del 'k

fun apply_op :: "('k \<rightharpoonup> 'v) \<Rightarrow> ('k, 'v, 'w) store_op \<Rightarrow> ('k \<rightharpoonup> 'v)" where
  "apply_op m (Put k v w) = m(k \<mapsto> v)"
| "apply_op m (Del k) = m(k := None)"

locale key_store =
  fixes inv :: "'s \<Rightarrow> bool"
    and admissible :: "'w \<Rightarrow> bool"
    and put :: "'k \<Rightarrow> 'v \<Rightarrow> 'w \<Rightarrow> 's \<Rightarrow> 's result"
    and del :: "'k \<Rightarrow> 's \<Rightarrow> 's result"
    and view :: "'s \<Rightarrow> 'k \<rightharpoonup> 'v"
  assumes put_law: "inv s \<Longrightarrow> admissible w \<Longrightarrow> \<exists>s'. put k v w s = ok s' \<and> inv s' \<and> view s' = (view s)(k \<mapsto> v)"
    and del_law: "inv s \<Longrightarrow> \<exists>s'. del k s = ok s' \<and> inv s' \<and> view s' = (view s)(k := None)"
begin

lemma steps:
  assumes "inv s" and "\<And>k v w. Put k v w \<in> set ops \<Longrightarrow> admissible w"
    and step: "\<And>s k v w. step s (Put k v w) = put k v w s" "\<And>s k. step s (Del k) = del k s"
  shows "\<exists>s'. foldl (\<lambda>r x. bindR r (\<lambda>s. step s x)) (ok s) ops = ok s' \<and> inv s' \<and> view s' = foldl apply_op (view s) ops"
  using assms(1, 2)
proof (induction ops arbitrary: s)
  case (Cons x ops)
  have "\<exists>s1. step s x = ok s1 \<and> inv s1 \<and> view s1 = apply_op (view s) x"
  proof (cases x)
    case (Put k v w)
    then have "Put k v w \<in> set (x # ops)" by simp
    then have "admissible w" by (rule Cons.prems(2))
    with Put put_law [OF Cons.prems(1)] show ?thesis by (simp add: step)
  next
    case (Del k)
    with del_law [OF Cons.prems(1)] show ?thesis by (simp add: step)
  qed
  then obtain s1 where "step s x = ok s1" "inv s1" "view s1 = apply_op (view s) x" by blast
  with Cons.IH [of s1] Cons.prems(2) show ?case by auto
qed simp

end

text \<open>The service as a store: the world argument of a write holds the time, the id, the salt and the nonce.\<close>

type_synonym key_world = "datetime \<times> string \<times> nat list \<times> nat"

definition keys_inv :: "db \<Rightarrow> bool" where
  "keys_inv d \<longleftrightarrow> distinct (map (\<lambda>r. (uak_user_id r, uak_provider r)) (user_api_keys d))"

definition salt_ok :: "key_world \<Rightarrow> bool" where
  "salt_ok w \<longleftrightarrow> (\<forall>b \<in> set (fst (snd (snd w))). b < 256)"

definition put_key :: "crypto \<Rightarrow> string \<Rightarrow> string \<times> provider \<Rightarrow> string \<Rightarrow> key_world \<Rightarrow> db \<Rightarrow> db result" where
  "put_key c secret k v w d = (case (k, w) of ((u, p), (now, fresh, salt, nonce)) \<Rightarrow>
     bindR (set_user_api_key c secret now fresh salt nonce u p v d) (\<lambda>x. ok (fst x)))"

definition del_key :: "string \<times> provider \<Rightarrow> db \<Rightarrow> db result" where
  "del_key k d = bindR (delete_user_api_key (fst k) (snd k) d) (\<lambda>x. ok (fst x))"

definition stored_key :: "crypto \<Rightarrow> string \<Rightarrow> db \<Rightarrow> string \<times> provider \<rightharpoonup> string" where
  "stored_key c secret d k = (case get_user_api_key c secret (fst k) (snd k) d of Inr v \<Rightarrow> v | Inl _ \<Rightarrow> None)"

lemma key_rows:
  assumes "keys_inv d"
  shows "select (is_key u p) (user_api_keys d) = [] \<or> (\<exists>r. select (is_key u p) (user_api_keys d) = [r] \<and> is_key u p r)"
proof (cases "\<exists>r \<in> set (user_api_keys d). is_key u p r")
  case True
  then obtain r where r: "r \<in> set (user_api_keys d)" "is_key u p r" by blast
  have "is_key u p = (\<lambda>x. (uak_user_id x, uak_provider x) = (uak_user_id r, uak_provider r))"
    using r(2) by (auto simp: is_key_def)
  then show ?thesis using select_distinct_key [of "\<lambda>r. (uak_user_id r, uak_provider r)", OF _ r(1)] assms r(2)
    by (simp add: keys_inv_def)
qed (auto simp: select_empty_iff)

lemma select_is_key_other:
  "(u', p') \<noteq> (u, p) \<Longrightarrow> is_key u p r \<Longrightarrow> select (is_key u' p') (update_where (is_key u p) (\<lambda>_. r) rows) = select (is_key u' p') rows"
  "(u', p') \<noteq> (u, p) \<Longrightarrow> is_key u p r \<Longrightarrow> select (is_key u' p') (rows @ [r]) = select (is_key u' p') rows"
  "(u', p') \<noteq> (u, p) \<Longrightarrow> select (is_key u' p') (delete_where (is_key u p) rows) = select (is_key u' p') rows"
  by (auto simp: is_key_def select_Cons intro!: select_update_other select_delete_other)

lemma stored_key_other:
  "select (is_key u' p') (user_api_keys d') = select (is_key u' p') (user_api_keys d) \<Longrightarrow>
   stored_key c secret d' (u', p') = stored_key c secret d (u', p')"
  by (simp add: stored_key_def get_user_api_key_def)

lemma put_key_law:
  assumes "fernet_ok c" and "secret \<noteq> []" and inv: "keys_inv d" and "salt_ok w"
  shows "\<exists>d'. put_key c secret (u, p) v w d = ok d' \<and> keys_inv d' \<and> stored_key c secret d' = (stored_key c secret d)((u, p) \<mapsto> v)"
proof -
  obtain now fresh salt nonce where w: "w = (now, fresh, salt, nonce)" by (rule prod_cases4)
  obtain e where e: "encrypt_api_key c secret salt nonce v = ok (e, bytes_hex salt)"
    using utf8_ascii [of "enc c (kdf c (utf8 secret) salt) nonce (utf8 v)"] assms(1, 2)
    by (auto simp: encrypt_api_key_def derive_fernet_key_def fernet_ok_def)
  then have dec: "decrypt_api_key c secret e (bytes_hex salt) = ok v"
    using decrypt_encrypt [OF assms(1) _ e] assms(4) by (simp add: salt_ok_def w)
  have fin: "\<exists>d'. put_key c secret (u, p) v w d = ok d' \<and> keys_inv d' \<and> stored_key c secret d' = (stored_key c secret d)((u, p) \<mapsto> v)"
    if run: "put_key c secret (u, p) v w d = ok (d\<lparr>user_api_keys := rows\<rparr>)" and "keys_inv (d\<lparr>user_api_keys := rows\<rparr>)"
      and sel: "select (is_key u p) rows = [r]" "uak_encrypted_key r = e" "uak_salt r = bytes_hex salt"
      and oth: "\<And>u' p'. (u', p') \<noteq> (u, p) \<Longrightarrow> select (is_key u' p') rows = select (is_key u' p') (user_api_keys d)"
    for rows r
  proof -
    have "stored_key c secret (d\<lparr>user_api_keys := rows\<rparr>) (u, p) = Some v"
      using sel dec by (simp add: stored_key_def get_user_api_key_def one_or_none_def)
    moreover have "stored_key c secret (d\<lparr>user_api_keys := rows\<rparr>) k = stored_key c secret d k" if "k \<noteq> (u, p)" for k
    proof -
      have "select (is_key (fst k) (snd k)) (user_api_keys (d\<lparr>user_api_keys := rows\<rparr>)) = select (is_key (fst k) (snd k)) (user_api_keys d)"
        using that oth [of "fst k" "snd k"] by simp
      from stored_key_other [OF this] show ?thesis by simp
    qed
    ultimately show ?thesis using that(1, 2) by (intro exI [of _ "d\<lparr>user_api_keys := rows\<rparr>"]) auto
  qed
  from key_rows [OF inv, of u p] show ?thesis
  proof
    assume none: "select (is_key u p) (user_api_keys d) = []"
    let ?r = "\<lparr>uak_id = fresh, uak_user_id = u, uak_provider = p, uak_encrypted_key = e,
                uak_salt = bytes_hex salt, uak_created_at = now, uak_updated_at = now\<rparr>"
    have k: "is_key u p ?r" by (simp add: is_key_def)
    show ?thesis
    proof (rule fin [of "user_api_keys d @ [?r]" ?r])
      show "keys_inv (d\<lparr>user_api_keys := user_api_keys d @ [?r]\<rparr>)"
        using inv none by (auto simp: keys_inv_def select_empty_iff is_key_def)
      show "\<And>u' p'. (u', p') \<noteq> (u, p) \<Longrightarrow> select (is_key u' p') (user_api_keys d @ [?r]) = select (is_key u' p') (user_api_keys d)"
        by (rule select_is_key_other(2) [OF _ k])
    qed (use none e k in \<open>simp_all add: put_key_def set_user_api_key_def w one_or_none_def select_Cons Let_def\<close>)
  next
    assume "\<exists>r. select (is_key u p) (user_api_keys d) = [r] \<and> is_key u p r"
    then obtain r where r: "select (is_key u p) (user_api_keys d) = [r]" "is_key u p r" by blast
    let ?r = "r\<lparr>uak_encrypted_key := e, uak_salt := bytes_hex salt, uak_updated_at := now\<rparr>"
    have k: "is_key u p ?r" using r(2) by (simp add: is_key_def)
    show ?thesis
    proof (rule fin [of "update_where (is_key u p) (\<lambda>_. ?r) (user_api_keys d)" ?r])
      show "keys_inv (d\<lparr>user_api_keys := update_where (is_key u p) (\<lambda>_. ?r) (user_api_keys d)\<rparr>)"
        using inv k map_update_where [of "is_key u p" "\<lambda>x. (uak_user_id x, uak_provider x)" "\<lambda>_. ?r" "user_api_keys d"]
        by (auto simp: keys_inv_def is_key_def)
      show "select (is_key u p) (update_where (is_key u p) (\<lambda>_. ?r) (user_api_keys d)) = [?r]"
        using select_update_same [of "is_key u p" "\<lambda>_. ?r" "user_api_keys d"] r(1) k by simp
      show "\<And>u' p'. (u', p') \<noteq> (u, p) \<Longrightarrow>
        select (is_key u' p') (update_where (is_key u p) (\<lambda>_. ?r) (user_api_keys d)) = select (is_key u' p') (user_api_keys d)"
        by (rule select_is_key_other(1) [OF _ k])
    qed (use r e k in \<open>simp_all add: put_key_def set_user_api_key_def w one_or_none_def Let_def\<close>)
  qed
qed

lemma del_key_law:
  assumes inv: "keys_inv d"
  shows "\<exists>d'. del_key (u, p) d = ok d' \<and> keys_inv d' \<and> stored_key c secret d' = (stored_key c secret d)((u, p) := None)"
  using key_rows [OF inv, of u p]
proof
  assume none: "select (is_key u p) (user_api_keys d) = []"
  then have "stored_key c secret d (u, p) = None" by (simp add: stored_key_def get_user_api_key_def one_or_none_def)
  with none inv show ?thesis by (auto simp: del_key_def delete_user_api_key_def one_or_none_def)
next
  assume "\<exists>r. select (is_key u p) (user_api_keys d) = [r] \<and> is_key u p r"
  then obtain r where r: "select (is_key u p) (user_api_keys d) = [r]" by blast
  let ?d = "d\<lparr>user_api_keys := delete_where (is_key u p) (user_api_keys d)\<rparr>"
  have "keys_inv ?d" using inv by (auto simp: keys_inv_def delete_where_def distinct_map_filter)
  moreover have "select (is_key u p) (user_api_keys ?d) = []" by (simp add: select_empty_iff)
  then have "stored_key c secret ?d (u, p) = None" by (simp add: stored_key_def get_user_api_key_def one_or_none_def)
  moreover have "stored_key c secret ?d k = stored_key c secret d k" if "k \<noteq> (u, p)" for k
  proof -
    have "select (is_key (fst k) (snd k)) (user_api_keys ?d) = select (is_key (fst k) (snd k)) (user_api_keys d)"
      using that select_is_key_other(3) [of "fst k" "snd k" u p] by simp
    from stored_key_other [OF this] show ?thesis by simp
  qed
  ultimately show ?thesis using r by (intro exI [of _ ?d]) (auto simp: del_key_def delete_user_api_key_def one_or_none_def)
qed

interpretation api_keys: key_store "\<lambda>d. fernet_ok c \<and> secret \<noteq> [] \<and> keys_inv d" salt_ok "put_key c secret" del_key "stored_key c secret"
  for c secret
proof
  show "\<exists>d'. put_key c secret k v w d = ok d' \<and> (fernet_ok c \<and> secret \<noteq> [] \<and> keys_inv d') \<and> stored_key c secret d' = (stored_key c secret d)(k \<mapsto> v)"
    if "fernet_ok c \<and> secret \<noteq> [] \<and> keys_inv d" "salt_ok w" for d w k v
    using put_key_law [of c secret d w "fst k" "snd k" v] that by simp
  show "\<exists>d'. del_key k d = ok d' \<and> (fernet_ok c \<and> secret \<noteq> [] \<and> keys_inv d') \<and> stored_key c secret d' = (stored_key c secret d)(k := None)"
    if "fernet_ok c \<and> secret \<noteq> [] \<and> keys_inv d" for d k
    using del_key_law [of d "fst k" "snd k" c secret] that by simp
qed

fun key_step :: "crypto \<Rightarrow> string \<Rightarrow> db \<Rightarrow> (string \<times> provider, string, key_world) store_op \<Rightarrow> db result" where
  "key_step c secret d (Put k v w) = put_key c secret k v w d"
| "key_step c secret d (Del k) = del_key k d"

text \<open>
  C12. The service implements a map from user and provider to key: with a configured secret, any sequence of
  settings and deletions succeeds, and afterwards decrypting what is stored for every user and
  provider gives exactly what the last operation on that user and provider left, whatever was done for others.
\<close>

theorem api_keys_refine_map:
  assumes "fernet_ok c" and "secret \<noteq> []" and "keys_inv d" and "\<forall>k v w. Put k v w \<in> set ops \<longrightarrow> salt_ok w"
  shows "\<exists>d'. foldl (\<lambda>r x. bindR r (\<lambda>d. key_step c secret d x)) (ok d) ops = ok d' \<and> keys_inv d' \<and>
    stored_key c secret d' = foldl apply_op (stored_key c secret d) ops"
  using api_keys.steps [of c secret d ops "key_step c secret"] assms by auto

section \<open>Witness\<close>

text \<open>A code that satisfies the hypothesis on the cipher: a byte \<open>n\<close> is written as \<open>n\<close> letters and a stop.\<close>

fun unary_dec :: "nat \<Rightarrow> nat list \<Rightarrow> nat list" where
  "unary_dec n [] = []"
| "unary_dec n (b # bs) = (if b = 66 then n # unary_dec 0 bs else unary_dec (n + 1) bs)"

definition unary_crypto :: crypto where
  "unary_crypto = \<lparr>kdf = (\<lambda>secret salt. secret @ salt),
     enc = (\<lambda>k nonce p. concat (map (\<lambda>n. replicate n 65 @ [66]) p)),
     dec = (\<lambda>k t. ok (unary_dec 0 t))\<rparr>"

lemma unary_dec_step: "unary_dec m (replicate n 65 @ 66 # bs) = (m + n) # unary_dec 0 bs"
  by (induction n arbitrary: m) simp_all

lemma unary_crypto_ok: "fernet_ok unary_crypto"
proof -
  have "unary_dec 0 (concat (map (\<lambda>n. replicate n 65 @ [66]) p)) = p" for p
    by (induction p) (simp_all add: unary_dec_step)
  then show ?thesis by (auto simp: fernet_ok_def unary_crypto_def)
qed

definition ex_key_ops :: "(string \<times> provider, string, key_world) store_op list" where
  "ex_key_ops = [Put (''u1'', OPENAI) ''sk-1'' (0, ''k1'', [1, 255], 0), Put (''u2'', OPENAI) ''sk-2'' (0, ''k2'', [2], 0),
     Put (''u1'', OPENAI) ''sk-3'' (1, ''k3'', [3], 1), Del (''u2'', OPENAI)]"

theorem api_keys_refine_map_witness:
  "\<exists>d'. foldl (\<lambda>r x. bindR r (\<lambda>d. key_step unary_crypto ''secret'' d x)) (ok empty_db) ex_key_ops = ok d' \<and>
     stored_key unary_crypto ''secret'' d' (''u1'', OPENAI) = Some ''sk-3'' \<and>
     stored_key unary_crypto ''secret'' d' (''u2'', OPENAI) = None"
proof -
  have "keys_inv empty_db" by (simp add: keys_inv_def empty_db_def)
  moreover have "\<forall>k v w. Put k v w \<in> set ex_key_ops \<longrightarrow> salt_ok w" by (auto simp: ex_key_ops_def salt_ok_def)
  ultimately obtain d' where "foldl (\<lambda>r x. bindR r (\<lambda>d. key_step unary_crypto ''secret'' d x)) (ok empty_db) ex_key_ops = ok d'"
    and "stored_key unary_crypto ''secret'' d' = foldl apply_op (stored_key unary_crypto ''secret'' empty_db) ex_key_ops"
    using api_keys_refine_map [OF unary_crypto_ok, of "''secret''" empty_db ex_key_ops] by blast
  moreover from this(2) have "stored_key unary_crypto ''secret'' d' (''u1'', OPENAI) = Some ''sk-3''"
    "stored_key unary_crypto ''secret'' d' (''u2'', OPENAI) = None" by (simp_all add: ex_key_ops_def)
  ultimately show ?thesis by blast
qed

end
