(* ===== verification/McpAuth.thy ===== *)
theory McpAuth
  imports Domain PyStr Json "HOL-Library.Sublist"
begin

text \<open>
  Authentication: the OAuth 2.1 server for MCP clients (\<^verbatim>\<open>src/src/wikimind/api/routes/mcp_oauth.py\<close>), personal
  access tokens (\<^verbatim>\<open>api/routes/mcp_tokens.py\<close>), the two token validators of \<^verbatim>\<open>mcp/auth.py\<close>, the
  middleware of \<^verbatim>\<open>middleware/auth.py\<close> and the dependencies \<open>get_current_user_id\<close> and \<open>require_admin\<close> of
  \<^verbatim>\<open>api/deps.py\<close>. The state \<open>auth_db\<close> holds the tables of \<^verbatim>\<open>models/tables/auth.py\<close> and the in-memory
  dictionary of pending requests, which an exception does not roll back: handlers return the new state
  beside their result. Parameters: \<open>sha\<close> (SHA-256 hex digest of the UTF-8 text), \<open>challenge_of\<close> (the
  S256 challenge of a verifier), \<open>jwt_decode\<close> (PyJWT). Random codes, tokens and ids are arguments. HTML pages
  are values that name what they show.
\<close>

section \<open>State\<close>

record pending_request =
  pr_client_id :: string
  pr_redirect_uri :: string
  pr_code_challenge :: string
  pr_state :: "string option"
  pr_created_at :: datetime

record oauth_code =
  oc_id :: string
  oc_code :: string
  oc_user_id :: string
  oc_client_id :: string
  oc_redirect_uri :: string
  oc_code_challenge :: string
  oc_state :: "string option"
  oc_created_at :: datetime
  oc_expires_at :: datetime
  oc_used :: bool

record oauth_token =
  ot_id :: string
  ot_token_hash :: string
  ot_user_id :: string
  ot_client_id :: string
  ot_created_at :: datetime
  ot_expires_at :: datetime
  ot_revoked :: bool

record mcp_token =
  mt_id :: string
  mt_user_id :: string
  mt_name :: string
  mt_token_hash :: string
  mt_token_prefix :: string
  mt_created_at :: datetime
  mt_last_used_at :: "datetime option"
  mt_expires_at :: "datetime option"
  mt_revoked :: bool

record auth_db =
  pending_requests :: "string \<rightharpoonup> pending_request"
  oauth_codes :: "oauth_code list"
  oauth_tokens :: "oauth_token list"
  mcp_tokens :: "mcp_token list"

definition AUTH_CODE_TTL :: int where "AUTH_CODE_TTL = 300 * 1000000"
definition ACCESS_TOKEN_TTL :: int where "ACCESS_TOKEN_TTL = 3600 * 1000000"

text \<open>\<^verbatim>\<open>if not s\<close> for an optional string.\<close>

definition falsy :: "string option \<Rightarrow> bool" where
  "falsy s \<longleftrightarrow> s = None \<or> s = Some []"

section \<open>Authorization requests\<close>

datatype page = ConsentPage string string | LoginPage string

definition bad_request :: "string \<Rightarrow> 'a result" where
  "bad_request detail = raise (HTTPException 400 detail)"

definition show_page :: "string option \<Rightarrow> string \<Rightarrow> string \<Rightarrow> page" where
  "show_page user client_id rid = (if \<not> falsy user then ConsentPage client_id rid else LoginPage rid)"

definition authorize ::
  "datetime \<Rightarrow> string \<Rightarrow> string option \<Rightarrow> string option \<Rightarrow> string option \<Rightarrow> string option \<Rightarrow> string option \<Rightarrow> string option \<Rightarrow> string option \<Rightarrow> auth_db \<Rightarrow> auth_db \<times> page result" where
  "authorize now fresh_rid user response_type client_id redirect_uri code_challenge code_challenge_method state s =
     (if response_type \<noteq> Some ''code'' then (s, bad_request (''response_type must be '' @ [CHR 0x27] @ ''code'' @ [CHR 0x27]))
      else if falsy client_id then (s, bad_request ''client_id is required'')
      else if falsy redirect_uri then (s, bad_request ''redirect_uri is required'')
      else if falsy code_challenge then (s, bad_request ''code_challenge is required (PKCE)'')
      else if code_challenge_method \<noteq> Some ''S256'' then (s, bad_request (''code_challenge_method must be '' @ [CHR 0x27] @ ''S256'' @ [CHR 0x27]))
      else
        (s\<lparr>pending_requests := (pending_requests s)(fresh_rid \<mapsto>
             \<lparr>pr_client_id = the client_id, pr_redirect_uri = the redirect_uri, pr_code_challenge = the code_challenge,
              pr_state = state, pr_created_at = now\<rparr>)\<rparr>,
         ok (show_page user (the client_id) fresh_rid)))"

definition authorize_resume :: "datetime \<Rightarrow> string option \<Rightarrow> string \<Rightarrow> auth_db \<Rightarrow> auth_db \<times> page result" where
  "authorize_resume now user rid s =
     (case pending_requests s rid of
        None \<Rightarrow> (s, bad_request ''Authorization request not found or expired'')
      | Some p \<Rightarrow>
          if AUTH_CODE_TTL < now - pr_created_at p
          then (s\<lparr>pending_requests := (pending_requests s)(rid := None)\<rparr>, bad_request ''Authorization request expired'')
          else if falsy user then (s, raise (HTTPException 401 ''Authentication required''))
          else (s, ok (ConsentPage (pr_client_id p) rid)))"

text \<open>The redirect with a query appended, and the state passed through.\<close>

definition redirect_with :: "string \<Rightarrow> string \<Rightarrow> string option \<Rightarrow> string" where
  "redirect_with uri query state =
     uri @ (if CHR ''?'' \<in> set uri then ''&'' else ''?'') @ query @
     (if falsy state then [] else ''&state='' @ the state)"

definition authorize_decide ::
  "datetime \<Rightarrow> string \<Rightarrow> string \<Rightarrow> string option \<Rightarrow> string \<Rightarrow> string \<Rightarrow> auth_db \<Rightarrow> auth_db \<times> string result" where
  "authorize_decide now fresh_id fresh_code user request_id decision s =
     (let s1 = s\<lparr>pending_requests := (pending_requests s)(request_id := None)\<rparr> in
      case pending_requests s request_id of
        None \<Rightarrow> (s1, bad_request ''Authorization request not found or expired'')
      | Some p \<Rightarrow>
          if AUTH_CODE_TTL < now - pr_created_at p then (s1, bad_request ''Authorization request expired'')
          else if decision \<noteq> ''approve''
          then (s1, ok (redirect_with (pr_redirect_uri p) ''error=access_denied'' (pr_state p)))
          else if falsy user then (s1, raise (HTTPException 401 ''Authentication required''))
          else
            (s1\<lparr>oauth_codes := oauth_codes s1 @
                [\<lparr>oc_id = fresh_id, oc_code = fresh_code, oc_user_id = the user, oc_client_id = pr_client_id p,
                  oc_redirect_uri = pr_redirect_uri p, oc_code_challenge = pr_code_challenge p, oc_state = pr_state p,
                  oc_created_at = now, oc_expires_at = now + AUTH_CODE_TTL, oc_used = False\<rparr>]\<rparr>,
             ok (redirect_with (pr_redirect_uri p) (''code='' @ fresh_code) (pr_state p))))"

section \<open>Tokens\<close>

text \<open>\<open>_validate_auth_code\<close>: \<open>ok None\<close> is a valid code. Encoding a verifier that is not ASCII raises.\<close>

definition validate_auth_code ::
  "(string \<Rightarrow> string) \<Rightarrow> datetime \<Rightarrow> oauth_code option \<Rightarrow> string \<Rightarrow> string \<Rightarrow> string \<Rightarrow> string option result" where
  "validate_auth_code challenge_of now auth_code client_id redirect_uri code_verifier =
     (case auth_code of
        None \<Rightarrow> ok (Some ''Invalid authorization code'')
      | Some c \<Rightarrow>
          if oc_expires_at c < now then ok (Some ''Authorization code expired'')
          else if oc_used c then ok (Some ''Authorization code already used'')
          else if oc_client_id c \<noteq> client_id then ok (Some ''client_id mismatch'')
          else if oc_redirect_uri c \<noteq> redirect_uri then ok (Some ''redirect_uri mismatch'')
          else if \<not> list_all (\<lambda>x. cp x < 128) code_verifier then raise (ValueError ''ascii'')
          else if challenge_of code_verifier \<noteq> oc_code_challenge c then ok (Some ''PKCE verification failed'')
          else ok None)"

datatype token_response = UnsupportedGrant | InvalidGrant string | TokenIssued string

text \<open>
  The endpoint reads the code in one statement and writes in another: \<open>exchange_read\<close> is what it
  decides from the row it read, \<open>exchange_commit\<close> the writes of the commit (the row by its primary key).
\<close>

definition exchange_read ::
  "(string \<Rightarrow> string) \<Rightarrow> datetime \<Rightarrow> string \<Rightarrow> string \<Rightarrow> string \<Rightarrow> string \<Rightarrow> auth_db \<Rightarrow> (string + oauth_code) result" where
  "exchange_read challenge_of now code redirect_uri code_verifier client_id s =
     bindR (one_or_none (select (\<lambda>c. oc_code c = code) (oauth_codes s))) (\<lambda>auth_code.
     bindR (validate_auth_code challenge_of now auth_code client_id redirect_uri code_verifier) (\<lambda>error.
       case error of
         Some e \<Rightarrow> ok (Inl e)
       | None \<Rightarrow> ok (Inr (the auth_code))))"

definition issued_token :: "(string \<Rightarrow> string) \<Rightarrow> datetime \<Rightarrow> string \<Rightarrow> string \<Rightarrow> string \<Rightarrow> string \<Rightarrow> oauth_token" where
  "issued_token sha now tid raw_token user_id client_id =
     \<lparr>ot_id = tid, ot_token_hash = sha raw_token, ot_user_id = user_id, ot_client_id = client_id,
      ot_created_at = now, ot_expires_at = now + ACCESS_TOKEN_TTL, ot_revoked = False\<rparr>"

definition exchange_commit ::
  "(string \<Rightarrow> string) \<Rightarrow> datetime \<Rightarrow> string \<Rightarrow> string \<Rightarrow> string \<Rightarrow> oauth_code \<Rightarrow> auth_db \<Rightarrow> auth_db" where
  "exchange_commit sha now tid raw_token client_id auth_code s =
     s\<lparr>oauth_codes := update_where (\<lambda>c. oc_id c = oc_id auth_code) (\<lambda>c. c\<lparr>oc_used := True\<rparr>) (oauth_codes s),
       oauth_tokens := oauth_tokens s @ [issued_token sha now tid raw_token (oc_user_id auth_code) client_id]\<rparr>"

definition token_exchange ::
  "(string \<Rightarrow> string) \<Rightarrow> (string \<Rightarrow> string) \<Rightarrow> datetime \<Rightarrow> string \<Rightarrow> string \<Rightarrow> string \<Rightarrow> string \<Rightarrow> string \<Rightarrow> string \<Rightarrow> string \<Rightarrow> auth_db \<Rightarrow> auth_db \<times> token_response result" where
  "token_exchange sha challenge_of now tid rnd grant_type code redirect_uri code_verifier client_id s =
     (if grant_type \<noteq> ''authorization_code'' then (s, ok UnsupportedGrant)
      else
        (case exchange_read challenge_of now code redirect_uri code_verifier client_id s of
           Inl e \<Rightarrow> (s, raise e)
         | Inr (Inl e) \<Rightarrow> (s, ok (InvalidGrant e))
         | Inr (Inr auth_code) \<Rightarrow>
             (let raw_token = ''wmk_'' @ rnd
              in (exchange_commit sha now tid raw_token client_id auth_code s, ok (TokenIssued raw_token)))))"

definition revoke_token :: "(string \<Rightarrow> string) \<Rightarrow> string \<Rightarrow> auth_db \<Rightarrow> auth_db \<times> unit result" where
  "revoke_token sha token s =
     (case one_or_none (select (\<lambda>t. ot_token_hash t = sha token) (oauth_tokens s)) of
        Inl e \<Rightarrow> (s, raise e)
      | Inr None \<Rightarrow> (s, ok ())
      | Inr (Some t) \<Rightarrow>
          (s\<lparr>oauth_tokens := update_where (\<lambda>x. ot_id x = ot_id t) (\<lambda>x. x\<lparr>ot_revoked := True\<rparr>) (oauth_tokens s)\<rparr>, ok ()))"

definition validate_oauth_token :: "(string \<Rightarrow> string) \<Rightarrow> datetime \<Rightarrow> string \<Rightarrow> auth_db \<Rightarrow> string option result" where
  "validate_oauth_token sha now token s =
     bindR (one_or_none (select (\<lambda>t. ot_token_hash t = sha token) (oauth_tokens s))) (\<lambda>access_token.
       case access_token of
         None \<Rightarrow> ok None
       | Some t \<Rightarrow> if ot_revoked t then ok None else if ot_expires_at t < now then ok None else ok (Some (ot_user_id t)))"

section \<open>Personal access tokens\<close>

definition generate_pat :: "(string \<Rightarrow> string) \<Rightarrow> string \<Rightarrow> string \<times> string \<times> string" where
  "generate_pat sha rnd = (let raw_token = ''wmk_'' @ rnd in (raw_token, sha raw_token, take 12 raw_token))"

text \<open>The response gives the plaintext once, beside the id, name and creation time of the row.\<close>

definition create_mcp_token ::
  "(string \<Rightarrow> string) \<Rightarrow> datetime \<Rightarrow> string \<Rightarrow> string \<Rightarrow> string \<Rightarrow> string \<Rightarrow> auth_db \<Rightarrow> auth_db \<times> string" where
  "create_mcp_token sha now tid rnd user_id name s =
     (let (raw_token, token_hash, token_prefix) = generate_pat sha rnd
      in (s\<lparr>mcp_tokens := mcp_tokens s @
             [\<lparr>mt_id = tid, mt_user_id = user_id, mt_name = name, mt_token_hash = token_hash, mt_token_prefix = token_prefix,
               mt_created_at = now, mt_last_used_at = None, mt_expires_at = None, mt_revoked = False\<rparr>]\<rparr>, raw_token))"

text \<open>The listing never carries the hash.\<close>

record mcp_token_response =
  mr_id :: string
  mr_name :: string
  mr_token_prefix :: string
  mr_created_at :: datetime
  mr_last_used_at :: "datetime option"
  mr_revoked :: bool

definition token_response_of :: "mcp_token \<Rightarrow> mcp_token_response" where
  "token_response_of t = \<lparr>mr_id = mt_id t, mr_name = mt_name t, mr_token_prefix = mt_token_prefix t, mr_created_at = mt_created_at t,
     mr_last_used_at = mt_last_used_at t, mr_revoked = mt_revoked t\<rparr>"

definition list_mcp_tokens :: "string \<Rightarrow> auth_db \<Rightarrow> mcp_token_response list" where
  "list_mcp_tokens user_id s =
     map token_response_of (sort_key (\<lambda>t. - mt_created_at t) (select (\<lambda>t. mt_user_id t = user_id) (mcp_tokens s)))"

definition revoke_mcp_token :: "string \<Rightarrow> string \<Rightarrow> auth_db \<Rightarrow> auth_db result" where
  "revoke_mcp_token token_id user_id s =
     (case get_by mt_id token_id (mcp_tokens s) of
        None \<Rightarrow> raise (HTTPException 404 ''Token not found'')
      | Some t \<Rightarrow>
          if mt_user_id t \<noteq> user_id then raise (HTTPException 404 ''Token not found'')
          else ok (s\<lparr>mcp_tokens := update_where (\<lambda>x. mt_id x = token_id) (\<lambda>x. x\<lparr>mt_revoked := True\<rparr>) (mcp_tokens s)\<rparr>))"

definition touch_pat :: "datetime \<Rightarrow> mcp_token \<Rightarrow> auth_db \<Rightarrow> auth_db" where
  "touch_pat now t s = s\<lparr>mcp_tokens := update_where (\<lambda>x. mt_id x = mt_id t) (\<lambda>x. x\<lparr>mt_last_used_at := Some now\<rparr>) (mcp_tokens s)\<rparr>"

definition pat_expired :: "datetime \<Rightarrow> mcp_token \<Rightarrow> bool" where
  "pat_expired now t \<longleftrightarrow> (case mt_expires_at t of None \<Rightarrow> False | Some e \<Rightarrow> e < now)"

definition verify_pat :: "(string \<Rightarrow> string) \<Rightarrow> datetime \<Rightarrow> string \<Rightarrow> auth_db \<Rightarrow> (auth_db \<times> string) result" where
  "verify_pat sha now token s =
     bindR (one_or_none (select (\<lambda>t. mt_token_hash t = sha token) (mcp_tokens s))) (\<lambda>row.
       case row of
         None \<Rightarrow> raise (ValueError ''Invalid token'')
       | Some t \<Rightarrow>
           if mt_revoked t then raise (ValueError ''Token has been revoked'')
           else if pat_expired now t then raise (ValueError ''Token expired'')
           else ok (touch_pat now t s, mt_user_id t))"

datatype jwt_error = ExpiredSignature | InvalidToken

type_synonym jwt_decoder = "string \<Rightarrow> jwt_error + (string \<times> json) list"

definition claim :: "(string \<times> json) list \<Rightarrow> string \<Rightarrow> json" where
  "claim payload k = (case map_of payload k of Some v \<Rightarrow> v | None \<Rightarrow> JNull)"

definition verify_jwt :: "jwt_decoder \<Rightarrow> string \<Rightarrow> json result" where
  "verify_jwt jwt_decode token =
     (case jwt_decode token of
        Inl ExpiredSignature \<Rightarrow> raise (ValueError ''Token expired'')
      | Inl InvalidToken \<Rightarrow> raise (ValueError ''Invalid token'')
      | Inr payload \<Rightarrow>
          if truthy (claim payload ''sub'') then ok (claim payload ''sub'')
          else raise (ValueError ''Token missing 'sub' claim''))"

text \<open>\<open>WikiMindAuthProvider.verify_token\<close>: the identity of the MCP client.\<close>

definition verify_token :: "(string \<Rightarrow> string) \<Rightarrow> jwt_decoder \<Rightarrow> datetime \<Rightarrow> string \<Rightarrow> auth_db \<Rightarrow> (auth_db \<times> json) result" where
  "verify_token sha jwt_decode now token s =
     (if prefix ''wmk_'' token then bindR (verify_pat sha now token s) (\<lambda>(s', u). ok (s', JStr u))
      else bindR (verify_jwt jwt_decode token) (\<lambda>u. ok (s, u)))"

text \<open>
  \<open>validate_mcp_token\<close>: personal access tokens first, then OAuth tokens; an exception of the second
  lookup is logged and dropped.
\<close>

definition validate_mcp_token :: "(string \<Rightarrow> string) \<Rightarrow> datetime \<Rightarrow> string \<Rightarrow> auth_db \<Rightarrow> (auth_db \<times> string option) result" where
  "validate_mcp_token sha now token s =
     bindR (one_or_none (select (\<lambda>t. mt_token_hash t = sha token \<and> \<not> mt_revoked t) (mcp_tokens s))) (\<lambda>pat.
       case pat of
         Some t \<Rightarrow> if pat_expired now t then ok (s, None) else ok (touch_pat now t s, Some (mt_user_id t))
       | None \<Rightarrow>
           (case one_or_none (select (\<lambda>t. ot_token_hash t = sha token \<and> \<not> ot_revoked t) (oauth_tokens s)) of
              Inr (Some t) \<Rightarrow> ok (s, if ot_expires_at t < now then None else Some (ot_user_id t))
            | _ \<Rightarrow> ok (s, None)))"

section \<open>Middleware\<close>

record request =
  rq_path :: string
  rq_accept :: string
  rq_cookie :: string
  rq_authorization :: string

record auth_settings =
  st_dev_auto_auth :: bool
  st_dev_user_id :: json
  st_dev_user_email :: json

definition EXEMPT_PATHS :: "string list" where
  "EXEMPT_PATHS = [''/health'', ''/health/deep'', ''/metrics'', ''/docs'', ''/openapi.json'', ''/redoc'', ''/.well-known/oauth-authorization-server'']"

definition EXEMPT_PREFIXES :: "string list" where
  "EXEMPT_PREFIXES = [''/auth/login/'', ''/auth/callback'', ''/auth/logout'', ''/auth/magic-link'', ''/assets/'', ''/public/'',
     ''/mcp/token'', ''/mcp/revoke'', ''/mcp/authorize'', ''/api/billing/plans'', ''/api/billing/webhook'']"

definition STATIC_EXTENSIONS :: "string list" where
  "STATIC_EXTENSIONS = [''.html'', ''.js'', ''.css'', ''.ico'', ''.woff'', ''.woff2'', ''.map'']"

definition is_exempt :: "request \<Rightarrow> bool" where
  "is_exempt r \<longleftrightarrow>
     (sublist ''text/html'' (rq_accept r) \<and> \<not> sublist ''application/json'' (rq_accept r)) \<or>
     rq_path r \<in> set EXEMPT_PATHS \<or> list_ex (\<lambda>p. prefix p (rq_path r)) EXEMPT_PREFIXES \<or>
     list_ex (\<lambda>e. suffix e (rq_path r)) STATIC_EXTENSIONS"

definition removeprefix :: "string \<Rightarrow> string \<Rightarrow> string" where
  "removeprefix p s = (if prefix p s then drop (length p) s else s)"

definition request_token :: "request \<Rightarrow> string" where
  "request_token r = (if rq_cookie r \<noteq> [] then rq_cookie r else py_strip (removeprefix ''Bearer '' (rq_authorization r)))"

datatype dispatch_result = Forward json json | Unauthorized string

definition dispatch :: "auth_settings \<Rightarrow> jwt_decoder \<Rightarrow> request \<Rightarrow> dispatch_result result" where
  "dispatch settings jwt_decode r =
     (if st_dev_auto_auth settings then ok (Forward (st_dev_user_id settings) (st_dev_user_email settings))
      else if is_exempt r then ok (Forward JNull JNull)
      else if request_token r = [] then ok (Unauthorized ''UNAUTHORIZED'')
      else
        (case jwt_decode (request_token r) of
           Inl ExpiredSignature \<Rightarrow> ok (Unauthorized ''TOKEN_EXPIRED'')
         | Inl InvalidToken \<Rightarrow> ok (Unauthorized ''INVALID_TOKEN'')
         | Inr payload \<Rightarrow>
             (case map_of payload ''sub'' of
                None \<Rightarrow> raise (KeyError ''sub'')
              | Some user \<Rightarrow>
                  ok (Forward user (case claim payload ''user'' of
                                      JObj kvs \<Rightarrow> claim kvs ''email''
                                    | _ \<Rightarrow> claim payload ''email'')))))"

definition get_current_user_id :: "json \<Rightarrow> json result" where
  "get_current_user_id user = (if truthy user then ok user else raise (HTTPException 401 ''Authentication required''))"

definition require_admin :: "json \<Rightarrow> db \<Rightarrow> json result" where
  "require_admin user d =
     bindR (get_current_user_id user) (\<lambda>u.
     bindR (one_or_none (select (\<lambda>x. JStr (usr_id x) = u) (users d))) (\<lambda>found.
       case found of
         None \<Rightarrow> raise (HTTPException 403 ''FORBIDDEN'')
       | Some x \<Rightarrow> if usr_is_admin x then ok u else raise (HTTPException 403 ''FORBIDDEN'')))"

text \<open>\<open>_extract_user_id\<close> of the consent page: the identity of the middleware, else the session cookie.\<close>

definition extract_user_id :: "jwt_decoder \<Rightarrow> json \<Rightarrow> request \<Rightarrow> json" where
  "extract_user_id jwt_decode state_user r =
     (if truthy state_user then state_user
      else if rq_cookie r = [] then JNull
      else (case jwt_decode (rq_cookie r) of Inl _ \<Rightarrow> JNull | Inr payload \<Rightarrow> claim payload ''sub''))"

section \<open>Runs of the authorization server\<close>

text \<open>
  Events that matter for authorization are labels: an approval (user, code, client, redirect address, challenge) and
  an exchange (code, client, redirect address, verifier, token). Every handler call with any arguments is a step;
  what is assumed of the random generator is that ids, codes and token digests are new.
\<close>

datatype auth_event =
    Approve string string string string string
  | Exchange string string string string string
  | Other

inductive auth_step :: "(string \<Rightarrow> string) \<Rightarrow> (string \<Rightarrow> string) \<Rightarrow> auth_db \<Rightarrow> auth_event \<Rightarrow> auth_db \<Rightarrow> bool"
  for sha challenge_of where
  request: "authorize now rid user rt cid uri ch chm st s = (s', r) \<Longrightarrow> auth_step sha challenge_of s Other s'"
| resume: "authorize_resume now user rid s = (s', r) \<Longrightarrow> auth_step sha challenge_of s Other s'"
| approve: "authorize_decide now fid code (Some u) rid ''approve'' s = (s', ok url) \<Longrightarrow> pending_requests s rid = Some p \<Longrightarrow>
    code \<notin> oc_code ` set (oauth_codes s) \<Longrightarrow> fid \<notin> oc_id ` set (oauth_codes s) \<Longrightarrow>
    auth_step sha challenge_of s (Approve u code (pr_client_id p) (pr_redirect_uri p) (pr_code_challenge p)) s'"
| decline: "authorize_decide now fid code user rid decision s = (s', r) \<Longrightarrow> decision \<noteq> ''approve'' \<or> isl r \<Longrightarrow>
    auth_step sha challenge_of s Other s'"
| exchange: "token_exchange sha challenge_of now tid rnd gt code uri verifier cid s = (s', ok (TokenIssued raw)) \<Longrightarrow>
    sha raw \<notin> ot_token_hash ` set (oauth_tokens s) \<Longrightarrow> tid \<notin> ot_id ` set (oauth_tokens s) \<Longrightarrow>
    auth_step sha challenge_of s (Exchange code cid uri verifier raw) s'"
| refused: "token_exchange sha challenge_of now tid rnd gt code uri verifier cid s = (s', r) \<Longrightarrow> (\<And>raw. r \<noteq> ok (TokenIssued raw)) \<Longrightarrow>
    auth_step sha challenge_of s Other s'"
| revoke: "revoke_token sha token s = (s', r) \<Longrightarrow> auth_step sha challenge_of s Other s'"
| create_pat: "create_mcp_token sha now tid rnd uid name s = (s', raw) \<Longrightarrow> auth_step sha challenge_of s Other s'"
| revoke_pat: "revoke_mcp_token tid uid s = ok s' \<Longrightarrow> auth_step sha challenge_of s Other s'"
| use_pat: "verify_token sha jwt_decode now token s = ok (s', who) \<Longrightarrow> auth_step sha challenge_of s Other s'"

inductive auth_run :: "(string \<Rightarrow> string) \<Rightarrow> (string \<Rightarrow> string) \<Rightarrow> auth_event list \<Rightarrow> auth_db \<Rightarrow> bool"
  for sha challenge_of where
  start: "auth_run sha challenge_of [] \<lparr>pending_requests = Map.empty, oauth_codes = [], oauth_tokens = [], mcp_tokens = []\<rparr>"
| step: "auth_run sha challenge_of es s \<Longrightarrow> auth_step sha challenge_of s e s' \<Longrightarrow> auth_run sha challenge_of (es @ [e]) s'"

text \<open>What a run leaves of the codes and tokens; \<open>granted\<close> is an approval followed by an exchange of its code.\<close>

definition granted :: "(string \<Rightarrow> string) \<Rightarrow> (string \<Rightarrow> string) \<Rightarrow> auth_event list \<Rightarrow> oauth_token \<Rightarrow> bool" where
  "granted sha challenge_of es t \<longleftrightarrow> (\<exists>l1 l2 l3 code uri verifier raw.
     es = l1 @ Approve (ot_user_id t) code (ot_client_id t) uri (challenge_of verifier) # l2 @
          Exchange code (ot_client_id t) uri verifier raw # l3 \<and> ot_token_hash t = sha raw)"

definition is_exchange :: "string \<Rightarrow> auth_event \<Rightarrow> bool" where
  "is_exchange code e \<longleftrightarrow> (\<exists>cid uri v raw. e = Exchange code cid uri v raw)"

definition run_inv :: "(string \<Rightarrow> string) \<Rightarrow> (string \<Rightarrow> string) \<Rightarrow> auth_event list \<Rightarrow> auth_db \<Rightarrow> bool" where
  "run_inv sha challenge_of es s \<longleftrightarrow>
     distinct (map oc_id (oauth_codes s)) \<and> distinct (map oc_code (oauth_codes s)) \<and>
     distinct (map ot_id (oauth_tokens s)) \<and> distinct (map ot_token_hash (oauth_tokens s)) \<and>
     (\<forall>c \<in> set (oauth_codes s).
        Approve (oc_user_id c) (oc_code c) (oc_client_id c) (oc_redirect_uri c) (oc_code_challenge c) \<in> set es) \<and>
     (\<forall>code. length (filter (is_exchange code) es) =
        (if \<exists>c \<in> set (oauth_codes s). oc_code c = code \<and> oc_used c then 1 else 0)) \<and>
     (\<forall>t \<in> set (oauth_tokens s). granted sha challenge_of es t)"

text \<open>Steps that touch neither codes nor tokens.\<close>

definition same_grants :: "auth_db \<Rightarrow> auth_db \<Rightarrow> bool" where
  "same_grants s s' \<longleftrightarrow> oauth_codes s' = oauth_codes s \<and> oauth_tokens s' = oauth_tokens s"

lemma frames:
  "authorize now rid user rt ocid ouri ch chm st s = (s', r1) \<Longrightarrow> same_grants s s'"
  "authorize_resume now user rid s = (s', r1) \<Longrightarrow> same_grants s s'"
  "authorize_decide now fid code user rid decision s = (s', r) \<Longrightarrow> decision \<noteq> ''approve'' \<or> isl r \<Longrightarrow> same_grants s s'"
  "token_exchange sha challenge_of now tid rnd gt code uri verifier cid s = (s', r2) \<Longrightarrow> (\<And>raw. r2 \<noteq> ok (TokenIssued raw)) \<Longrightarrow> same_grants s s'"
  "create_mcp_token sha now tid rnd uid name s = (s', raw) \<Longrightarrow> same_grants s s'"
  "revoke_mcp_token tid uid s = ok s' \<Longrightarrow> same_grants s s'"
  "verify_token sha jwt_decode now token s = ok (s', who) \<Longrightarrow> same_grants s s'"
proof -
  show "authorize now rid user rt ocid ouri ch chm st s = (s', r1) \<Longrightarrow> same_grants s s'"
    by (auto simp: authorize_def same_grants_def split: if_splits)
  show "authorize_resume now user rid s = (s', r1) \<Longrightarrow> same_grants s s'"
    by (auto simp: authorize_resume_def same_grants_def split: option.splits if_splits)
  show "authorize_decide now fid code user rid decision s = (s', r) \<Longrightarrow> decision \<noteq> ''approve'' \<or> isl r \<Longrightarrow> same_grants s s'"
    by (auto simp: authorize_decide_def same_grants_def Let_def bad_request_def split: option.splits if_splits)
  show "token_exchange sha challenge_of now tid rnd gt code uri verifier cid s = (s', r2) \<Longrightarrow> (\<And>raw. r2 \<noteq> ok (TokenIssued raw)) \<Longrightarrow> same_grants s s'"
    by (auto simp: token_exchange_def same_grants_def Let_def split: sum.splits if_splits)
  show "create_mcp_token sha now tid rnd uid name s = (s', raw) \<Longrightarrow> same_grants s s'"
    by (auto simp: create_mcp_token_def same_grants_def split: prod.splits)
  show "revoke_mcp_token tid uid s = ok s' \<Longrightarrow> same_grants s s'"
    by (auto simp: revoke_mcp_token_def same_grants_def split: option.splits if_splits)
  show "verify_token sha jwt_decode now token s = ok (s', who) \<Longrightarrow> same_grants s s'"
    by (auto simp: verify_token_def verify_pat_def touch_pat_def same_grants_def res_simps split: option.splits if_splits prod.splits)
qed

lemma granted_mono: "granted sha challenge_of es t \<Longrightarrow> granted sha challenge_of (es @ fs) t"
  unfolding granted_def by (metis append.assoc append_Cons)

lemma run_inv_same:
  assumes "run_inv sha challenge_of es s" and "same_grants s s'"
  shows "run_inv sha challenge_of (es @ [Other]) s'"
  using assms by (auto simp: run_inv_def same_grants_def is_exchange_def intro: granted_mono)

lemma run_inv_approve:
  assumes inv: "run_inv sha challenge_of es s" and p: "pending_requests s rid = Some p"
    and run: "authorize_decide now fid code (Some u) rid ''approve'' s = (s', ok url)"
    and new: "code \<notin> oc_code ` set (oauth_codes s)" "fid \<notin> oc_id ` set (oauth_codes s)"
  shows "run_inv sha challenge_of (es @ [Approve u code (pr_client_id p) (pr_redirect_uri p) (pr_code_challenge p)]) s'"
proof -
  let ?c = "\<lparr>oc_id = fid, oc_code = code, oc_user_id = u, oc_client_id = pr_client_id p, oc_redirect_uri = pr_redirect_uri p,
    oc_code_challenge = pr_code_challenge p, oc_state = pr_state p, oc_created_at = now, oc_expires_at = now + AUTH_CODE_TTL, oc_used = False\<rparr>"
  have "oauth_codes s' = oauth_codes s @ [?c]" "oauth_tokens s' = oauth_tokens s"
    using run p by (auto simp: authorize_decide_def Let_def bad_request_def split: if_splits)
  with inv new show ?thesis by (auto simp: run_inv_def is_exchange_def intro: granted_mono)
qed

lemma exchange_readD:
  assumes "exchange_read challenge_of now code uri verifier cid s = ok (Inr c)"
  shows "select (\<lambda>c. oc_code c = code) (oauth_codes s) = [c] \<and> \<not> oc_used c \<and> now \<le> oc_expires_at c \<and>
    oc_client_id c = cid \<and> oc_redirect_uri c = uri \<and> oc_code_challenge c = challenge_of verifier"
  using assms by (auto simp: exchange_read_def validate_auth_code_def res_simps query_simps split: option.splits if_splits)

lemma token_exchangeD:
  assumes "token_exchange sha challenge_of now tid rnd gt code uri verifier cid s = (s', ok (TokenIssued raw))"
  shows "\<exists>c. exchange_read challenge_of now code uri verifier cid s = ok (Inr c) \<and> raw = ''wmk_'' @ rnd \<and>
    s' = exchange_commit sha now tid raw cid c s"
  using assms by (auto simp: token_exchange_def Let_def split: sum.splits if_splits)

lemma run_inv_exchange:
  assumes inv: "run_inv sha challenge_of es s"
    and run: "token_exchange sha challenge_of now tid rnd gt code uri verifier cid s = (s', ok (TokenIssued raw))"
    and new: "sha raw \<notin> ot_token_hash ` set (oauth_tokens s)" "tid \<notin> ot_id ` set (oauth_tokens s)"
  shows "run_inv sha challenge_of (es @ [Exchange code cid uri verifier raw]) s'"
proof -
  let ?es = "es @ [Exchange code cid uri verifier raw]"
  from token_exchangeD [OF run] obtain c where rd: "exchange_read challenge_of now code uri verifier cid s = ok (Inr c)"
    and s': "s' = exchange_commit sha now tid raw cid c s" by blast
  note cd = exchange_readD [OF rd]
  have c: "c \<in> set (oauth_codes s)" "oc_code c = code"
    using cd set_select [of "\<lambda>c. oc_code c = code" "oauth_codes s"] by auto
  have codes: "oauth_codes s' = map (\<lambda>x. if x = c then c\<lparr>oc_used := True\<rparr> else x) (oauth_codes s)"
  proof -
    have "(oc_id x = oc_id c) = (x = c)" if "x \<in> set (oauth_codes s)" for x
      using inv that c(1) by (auto simp: run_inv_def distinct_map dest: inj_onD)
    then show ?thesis by (simp add: s' exchange_commit_def update_where_def)
  qed
  have toks: "oauth_tokens s' = oauth_tokens s @ [issued_token sha now tid raw (oc_user_id c) cid]"
    by (simp add: s' exchange_commit_def)
  have keys: "map oc_id (oauth_codes s') = map oc_id (oauth_codes s)" "map oc_code (oauth_codes s') = map oc_code (oauth_codes s)"
    by (simp_all add: codes)
  have app: "Approve (oc_user_id c) code cid uri (challenge_of verifier) \<in> set es"
    using inv c cd unfolding run_inv_def by metis
  then obtain l1 l2 where "es = l1 @ Approve (oc_user_id c) code cid uri (challenge_of verifier) # l2" by (meson split_list)
  then have g: "granted sha challenge_of ?es (issued_token sha now tid raw (oc_user_id c) cid)"
    unfolding granted_def issued_token_def by (intro exI [of _ l1] exI [of _ l2] exI [of _ "[]"] exI) auto
  have one: "x = c" if "x \<in> set (oauth_codes s)" "oc_code x = code" for x
    using inv that c by (auto simp: run_inv_def distinct_map dest: inj_onD)
  have used: "(\<exists>x \<in> set (oauth_codes s'). oc_code x = k \<and> oc_used x) \<longleftrightarrow>
      (k = code \<or> (\<exists>x \<in> set (oauth_codes s). oc_code x = k \<and> oc_used x))" for k
    using c cd by (auto simp: codes image_iff)
  have no: "\<not> (\<exists>x \<in> set (oauth_codes s). oc_code x = code \<and> oc_used x)" using one cd by blast
  have cnt: "length (filter (is_exchange k) ?es) = (if \<exists>x \<in> set (oauth_codes s'). oc_code x = k \<and> oc_used x then 1 else 0)" for k
  proof -
    have "length (filter (is_exchange k) es) = (if \<exists>x \<in> set (oauth_codes s). oc_code x = k \<and> oc_used x then 1 else 0)"
      using inv by (simp add: run_inv_def)
    with no show ?thesis unfolding used by (cases "k = code") (auto simp: is_exchange_def)
  qed
  have appr: "Approve (oc_user_id x) (oc_code x) (oc_client_id x) (oc_redirect_uri x) (oc_code_challenge x) \<in> set ?es"
    if "x \<in> set (oauth_codes s')" for x
  proof -
    have "\<forall>x \<in> set (oauth_codes s). Approve (oc_user_id x) (oc_code x) (oc_client_id x) (oc_redirect_uri x) (oc_code_challenge x) \<in> set es"
      using inv by (simp add: run_inv_def)
    with that c show ?thesis by (auto simp: codes split: if_splits)
  qed
  have "\<forall>t \<in> set (oauth_tokens s'). granted sha challenge_of ?es t"
    using inv g by (auto simp: run_inv_def toks intro: granted_mono)
  with inv new cnt appr show ?thesis
    by (simp add: run_inv_def keys toks issued_token_def)
qed

lemma run_inv_revoke:
  assumes inv: "run_inv sha challenge_of es s" and run: "revoke_token sha token s = (s', r)"
  shows "run_inv sha challenge_of (es @ [Other]) s'"
proof -
  have "\<exists>p. oauth_tokens s' = update_where p (\<lambda>x. x\<lparr>ot_revoked := True\<rparr>) (oauth_tokens s) \<and> oauth_codes s' = oauth_codes s"
    using run by (auto simp: revoke_token_def update_where_def split: sum.splits option.splits intro: exI [of _ "\<lambda>_. False"])
  then obtain p where p: "oauth_tokens s' = update_where p (\<lambda>x. x\<lparr>ot_revoked := True\<rparr>) (oauth_tokens s)" "oauth_codes s' = oauth_codes s"
    by blast
  have rev: "granted sha challenge_of es (t\<lparr>ot_revoked := True\<rparr>) = granted sha challenge_of es t" for t
    by (simp add: granted_def)
  have old: "\<forall>t \<in> set (oauth_tokens s). granted sha challenge_of es t" using inv by (simp add: run_inv_def)
  have "granted sha challenge_of (es @ [Other]) t" if "t \<in> set (oauth_tokens s')" for t
    using old that by (intro granted_mono) (auto simp: p set_update_where rev)
  with inv show ?thesis by (simp add: run_inv_def p is_exchange_def)
qed

lemma auth_run_inv: "auth_run sha challenge_of es s \<Longrightarrow> run_inv sha challenge_of es s"
proof (induction rule: auth_run.induct)
  case start
  show ?case by (simp add: run_inv_def)
next
  case (step es s e s')
  from step(2) show ?case
  proof cases
    case approve
    then show ?thesis using run_inv_approve step.IH by blast
  next
    case exchange
    then show ?thesis using run_inv_exchange step.IH by blast
  next
    case revoke
    then show ?thesis using run_inv_revoke step.IH by blast
  qed (auto intro!: run_inv_same [OF step.IH] intro: frames)
qed


section \<open>Tokens at the MCP server\<close>

lemma select_no_key:
  "k \<notin> key ` set xs \<Longrightarrow> select (\<lambda>x. key x = k) xs = []"
  "k \<notin> key ` set xs \<Longrightarrow> select (\<lambda>x. key x = k \<and> q x) xs = []"
  by (auto simp: select_empty_iff image_iff)

text \<open>
  The verifier that the MCP server installs does not know the tokens of the authorization server: a token it has just
  issued is valid for the next hour by \<open>validate_oauth_token\<close> and by \<open>validate_mcp_token\<close>, yet \<open>verify_token\<close> raises
  "Invalid token" for it, because every token starts with the prefix that is looked up among personal access tokens only.
\<close>

lemma mcp_server_rejects_oauth:
  assumes "token_exchange sha challenge_of t0 tid rnd gt code uri verifier cid s = (s', ok (TokenIssued raw))"
    and "sha raw \<notin> ot_token_hash ` set (oauth_tokens s)" and "sha raw \<notin> mt_token_hash ` set (mcp_tokens s)"
    and "t0 \<le> now" and "now \<le> t0 + ACCESS_TOKEN_TTL"
  shows "\<exists>u. validate_oauth_token sha now raw s' = ok (Some u) \<and> validate_mcp_token sha now raw s' = ok (s', Some u) \<and>
    verify_token sha jwt_decode now raw s' = raise (ValueError ''Invalid token'')"
proof -
  from token_exchangeD [OF assms(1)] obtain c where raw: "raw = ''wmk_'' @ rnd" and s': "s' = exchange_commit sha t0 tid raw cid c s"
    by blast
  let ?t = "issued_token sha t0 tid raw (oc_user_id c) cid"
  have none: "select (\<lambda>t. ot_token_hash t = sha raw) (oauth_tokens s) = []" using assms(2) by (rule select_no_key)
  have sel: "select (\<lambda>t. ot_token_hash t = sha raw) (oauth_tokens s') = [?t]"
    "select (\<lambda>t. ot_token_hash t = sha raw \<and> \<not> ot_revoked t) (oauth_tokens s') = [?t]"
    using none select_no_key(2) [OF assms(2)] by (simp_all add: s' exchange_commit_def select_Cons issued_token_def)
  have pats: "select (\<lambda>t. mt_token_hash t = sha raw) (mcp_tokens s') = []"
    "select (\<lambda>t. mt_token_hash t = sha raw \<and> \<not> mt_revoked t) (mcp_tokens s') = []"
    using select_no_key [OF assms(3)] by (simp_all add: s' exchange_commit_def)
  have live: "\<not> ot_revoked ?t" "\<not> ot_expires_at ?t < now" "ot_user_id ?t = oc_user_id c"
    using assms(5) by (simp_all add: issued_token_def)
  have "prefix ''wmk_'' raw" by (simp add: raw)
  then have "verify_token sha jwt_decode now raw s' = raise (ValueError ''Invalid token'')"
    by (simp add: verify_token_def verify_pat_def pats one_or_none_def)
  moreover have "validate_oauth_token sha now raw s' = ok (Some (oc_user_id c))"
    by (simp add: validate_oauth_token_def sel one_or_none_def live)
  moreover have "validate_mcp_token sha now raw s' = ok (s', Some (oc_user_id c))"
    by (simp add: validate_mcp_token_def sel pats one_or_none_def live)
  ultimately show ?thesis by blast
qed

text \<open>
  The code is marked in a second statement, without a lock or a condition on the flag: two handlers that read the unused
  code before either commits both issue a token.
\<close>

lemma code_redeemed_twice:
  assumes "exchange_read challenge_of now code uri verifier cid s = ok (Inr c)"
    and "sha raw1 \<noteq> sha raw2" and "{sha raw1, sha raw2} \<inter> ot_token_hash ` set (oauth_tokens s) = {}"
    and "s2 = exchange_commit sha now tid2 raw2 cid c (exchange_commit sha now tid1 raw1 cid c s)"
  shows "validate_oauth_token sha now raw1 s2 = ok (Some (oc_user_id c)) \<and> validate_oauth_token sha now raw2 s2 = ok (Some (oc_user_id c))"
proof -
  have "select (\<lambda>t. ot_token_hash t = sha raw1) (oauth_tokens s) = []" "select (\<lambda>t. ot_token_hash t = sha raw2) (oauth_tokens s) = []"
    using assms(3) by (auto intro!: select_no_key)
  then have "select (\<lambda>t. ot_token_hash t = sha raw1) (oauth_tokens s2) = [issued_token sha now tid1 raw1 (oc_user_id c) cid]"
    "select (\<lambda>t. ot_token_hash t = sha raw2) (oauth_tokens s2) = [issued_token sha now tid2 raw2 (oc_user_id c) cid]"
    using assms(2) by (auto simp: assms(4) exchange_commit_def select_Cons issued_token_def)
  then show ?thesis by (simp add: validate_oauth_token_def one_or_none_def issued_token_def ACCESS_TOKEN_TTL_def)
qed

section \<open>Requests\<close>

text \<open>
  C14. No handler runs for a user whose identity was not proved: outside of the development mode, if a request gets past the
  middleware and the dependency \<open>get_current_user_id\<close>, then its cookie or bearer token decodes to a payload whose subject
  is that user, whatever the path and the Accept header; a request the middleware exempts has no user and is answered
  with 401 by the dependency; and an administrator's handler runs only for a user whose row says so.
\<close>

theorem current_user_authentic:
  assumes "\<not> st_dev_auto_auth settings"
  shows "(\<forall>user email u. dispatch settings jwt_decode r = ok (Forward user email) \<and> get_current_user_id user = ok u \<longrightarrow>
      \<not> is_exempt r \<and> request_token r \<noteq> [] \<and> (\<exists>payload. jwt_decode (request_token r) = Inr payload \<and> map_of payload ''sub'' = Some u)) \<and>
    (is_exempt r \<longrightarrow> (\<exists>user email. dispatch settings jwt_decode r = ok (Forward user email) \<and>
      get_current_user_id user = raise (HTTPException 401 ''Authentication required''))) \<and>
    (\<forall>user u d. require_admin user d = ok u \<longrightarrow> user = u \<and> (\<exists>x \<in> set (users d). u = JStr (usr_id x) \<and> usr_is_admin x))"
proof (intro conjI allI impI)
  fix user email u
  assume "dispatch settings jwt_decode r = ok (Forward user email) \<and> get_current_user_id user = ok u"
  with assms show "\<not> is_exempt r" "request_token r \<noteq> []"
    "\<exists>payload. jwt_decode (request_token r) = Inr payload \<and> map_of payload ''sub'' = Some u"
    by (auto simp: dispatch_def get_current_user_id_def split: if_splits sum.splits option.splits jwt_error.splits)
next
  assume "is_exempt r"
  with assms show "\<exists>user email. dispatch settings jwt_decode r = ok (Forward user email) \<and>
      get_current_user_id user = raise (HTTPException 401 ''Authentication required'')"
    by (simp add: dispatch_def get_current_user_id_def)
next
  fix user u d
  assume a: "require_admin user d = ok u"
  then show "user = u" by (auto simp: require_admin_def get_current_user_id_def res_simps split: if_splits option.splits)
  from a obtain x where "select (\<lambda>x. JStr (usr_id x) = u) (users d) = [x]" "usr_is_admin x"
    by (auto simp: require_admin_def get_current_user_id_def res_simps query_simps split: if_splits option.splits)
  then show "\<exists>x \<in> set (users d). u = JStr (usr_id x) \<and> usr_is_admin x"
    using set_select [of "\<lambda>x. JStr (usr_id x) = u" "users d"] by auto
qed

section \<open>Witnesses\<close>

definition ex_auth0 :: auth_db where
  "ex_auth0 = \<lparr>pending_requests = Map.empty, oauth_codes = [], oauth_tokens = [], mcp_tokens = []\<rparr>"

definition ex_auth1 :: auth_db where
  "ex_auth1 = fst (authorize 0 ''r1'' (Some ''u1'') (Some ''code'') (Some ''app'') (Some ''http://app'') (Some ''ch-v'') (Some ''S256'') None ex_auth0)"

definition ex_auth2 :: auth_db where
  "ex_auth2 = fst (authorize_decide 1 ''c1'' ''code1'' (Some ''u1'') ''r1'' ''approve'' ex_auth1)"

definition ex_auth3 :: auth_db where
  "ex_auth3 = fst (token_exchange id (\<lambda>v. ''ch-'' @ v) 2 ''t1'' ''abc'' ''authorization_code'' ''code1'' ''http://app'' ''v'' ''app'' ex_auth2)"

lemmas ex_auth_defs = ex_auth0_def ex_auth1_def ex_auth2_def ex_auth3_def authorize_def authorize_decide_def show_page_def falsy_def
  AUTH_CODE_TTL_def ACCESS_TOKEN_TTL_def

lemma ex_auth2_eq:
  "authorize_decide 1 ''c1'' ''code1'' (Some ''u1'') ''r1'' ''approve'' ex_auth1 = (ex_auth2, ok ''http://app?code=code1'')"
  by (simp add: ex_auth_defs redirect_with_def)

lemma ex_auth3_eq:
  "token_exchange id (\<lambda>v. ''ch-'' @ v) 2 ''t1'' ''abc'' ''authorization_code'' ''code1'' ''http://app'' ''v'' ''app'' ex_auth2 =
     (ex_auth3, ok (TokenIssued ''wmk_abc''))"
  by (simp add: ex_auth_defs token_exchange_def exchange_read_def validate_auth_code_def one_or_none_def select_def cp_def Let_def)

definition ex_events :: "auth_event list" where
  "ex_events = [Other, Approve ''u1'' ''code1'' ''app'' ''http://app'' ''ch-v'', Exchange ''code1'' ''app'' ''http://app'' ''v'' ''wmk_abc'']"

lemma ex_auth_run: "auth_run id (\<lambda>v. ''ch-'' @ v) ex_events ex_auth3"
proof -
  have 0: "auth_run id (\<lambda>v. ''ch-'' @ v) [] ex_auth0" unfolding ex_auth0_def by (rule auth_run.start)
  have "auth_step id (\<lambda>v. ''ch-'' @ v) ex_auth0 Other ex_auth1"
    unfolding ex_auth1_def by (rule auth_step.request [OF prod.collapse [symmetric]])
  from auth_run.step [OF 0 this] have 1: "auth_run id (\<lambda>v. ''ch-'' @ v) [Other] ex_auth1" by simp
  have p: "pending_requests ex_auth1 ''r1'' = Some \<lparr>pr_client_id = ''app'', pr_redirect_uri = ''http://app'', pr_code_challenge = ''ch-v'',
    pr_state = None, pr_created_at = 0\<rparr>" by (simp add: ex_auth_defs)
  have e: "oauth_codes ex_auth1 = []" "oauth_tokens ex_auth2 = []" by (simp_all add: ex_auth_defs)
  from auth_run.step [OF 1 auth_step.approve [OF ex_auth2_eq p]]
  have 2: "auth_run id (\<lambda>v. ''ch-'' @ v) [Other, Approve ''u1'' ''code1'' ''app'' ''http://app'' ''ch-v''] ex_auth2" by (simp add: e)
  from auth_run.step [OF 2 auth_step.exchange [OF ex_auth3_eq]] show ?thesis by (simp add: e ex_events_def)
qed


lemma mcp_server_rejects_oauth_witness:
  "verify_token id (\<lambda>_. Inl InvalidToken) 3 ''wmk_abc'' ex_auth3 = raise (ValueError ''Invalid token'')"
proof -
  have "oauth_tokens ex_auth2 = []" "mcp_tokens ex_auth2 = []" by (simp_all add: ex_auth_defs)
  with mcp_server_rejects_oauth [OF ex_auth3_eq, of 3 "\<lambda>_. Inl InvalidToken"] show ?thesis by (auto simp: ACCESS_TOKEN_TTL_def)
qed

theorem current_user_authentic_witness:
  "is_exempt \<lparr>rq_path = ''/health'', rq_accept = [], rq_cookie = [], rq_authorization = []\<rparr> \<and>
   (\<exists>user email. dispatch \<lparr>st_dev_auto_auth = False, st_dev_user_id = JNull, st_dev_user_email = JNull\<rparr> (\<lambda>_. Inl InvalidToken)
      \<lparr>rq_path = ''/health'', rq_accept = [], rq_cookie = [], rq_authorization = []\<rparr> = ok (Forward user email) \<and>
      get_current_user_id user = raise (HTTPException 401 ''Authentication required''))"
proof -
  have e: "is_exempt \<lparr>rq_path = ''/health'', rq_accept = [], rq_cookie = [], rq_authorization = []\<rparr>"
    by (simp add: is_exempt_def EXEMPT_PATHS_def)
  have n: "\<not> st_dev_auto_auth \<lparr>st_dev_auto_auth = False, st_dev_user_id = JNull, st_dev_user_email = JNull\<rparr>" by simp
  from current_user_authentic [OF n, THEN conjunct2, THEN conjunct1] e show ?thesis by blast
qed

end
