(* ===== verification/Taxonomy.thy ===== *)
theory Taxonomy
  imports Domain PyStr Json
begin

text \<open>
  The concept taxonomy, \<^verbatim>\<open>src/src/wikimind/services/taxonomy.py\<close>: normalised concept rows, article
  counts, and the hierarchy proposed by a language model, which is applied only if it has no cycle and is not
  too deep. \<open>slugify\<close> (a package) and \<open>loads\<close> (\<open>json.loads\<close>) are parameters, and so is the decoded answer
  of the model in \<open>rebuild_taxonomy\<close>. The generation of concept pages calls the concept compiler and is
  not modelled.
\<close>

section \<open>Rows\<close>

definition parse_concept_ids :: "(string \<Rightarrow> json result) \<Rightarrow> string option \<Rightarrow> string list" where
  "parse_concept_ids loads raw =
     (case raw of
        None \<Rightarrow> []
      | Some s \<Rightarrow>
          if s = [] then []
          else (case loads s of
                  Inr (JList items) \<Rightarrow> map py_str (filter truthy items)
                | _ \<Rightarrow> []))"

definition is_concept :: "string \<Rightarrow> string \<Rightarrow> concept \<Rightarrow> bool" where
  "is_concept user_id name c \<longleftrightarrow> con_user_id c = user_id \<and> con_name c = name"

text \<open>\<^verbatim>\<open>INSERT \<dots> ON CONFLICT DO NOTHING\<close> on the pair of user and name; \<open>fresh n\<close> is the id of the \<open>n\<close>-th row.\<close>

definition insert_concept ::
  "(string \<Rightarrow> string) \<Rightarrow> (nat \<Rightarrow> string) \<Rightarrow> datetime \<Rightarrow> string \<Rightarrow> concept list \<Rightarrow> string \<Rightarrow> concept list" where
  "insert_concept slugify fresh now user_id rows raw_name =
     (let normalized = slugify raw_name in
      if normalized = [] \<or> list_ex (is_concept user_id normalized) rows then rows
      else rows @ [\<lparr>con_id = fresh (length rows), con_user_id = user_id, con_name = normalized, con_parent_id = None,
                    con_article_count = 0, con_description = Some raw_name, con_created_at = now, con_concept_kind = ''topic''\<rparr>])"

definition no_description :: "concept \<Rightarrow> bool" where
  "no_description c \<longleftrightarrow> con_description c = None \<or> con_description c = Some []"

definition describe_concept :: "(string \<Rightarrow> string) \<Rightarrow> string \<Rightarrow> concept list result \<Rightarrow> string \<Rightarrow> concept list result" where
  "describe_concept slugify user_id r raw_name =
     bindR r (\<lambda>rows.
       let normalized = slugify raw_name in
       if normalized = [] then ok rows
       else bindR (one_or_none (select (is_concept user_id normalized) rows)) (\<lambda>existing.
         case existing of
           None \<Rightarrow> ok rows
         | Some c \<Rightarrow>
             if no_description c
             then ok (update_where (is_concept user_id normalized) (\<lambda>x. x\<lparr>con_description := Some raw_name\<rparr>) rows)
             else ok rows))"

definition upsert_concepts ::
  "(string \<Rightarrow> string) \<Rightarrow> (nat \<Rightarrow> string) \<Rightarrow> datetime \<Rightarrow> string list \<Rightarrow> string \<Rightarrow> db \<Rightarrow> (db \<times> concept list) result" where
  "upsert_concepts slugify fresh now concept_names user_id d =
     (if concept_names = [] then ok (d, [])
      else
        bindR (foldl (describe_concept slugify user_id)
                 (ok (foldl (insert_concept slugify fresh now user_id) (concepts d) concept_names)) concept_names) (\<lambda>rows.
          let normalized_names = filter (\<lambda>n. n \<noteq> []) (map slugify concept_names) in
          ok (d\<lparr>concepts := rows\<rparr>,
              if normalized_names = [] then []
              else select (\<lambda>c. con_name c \<in> set normalized_names \<and> con_user_id c = user_id) rows)))"

section \<open>Article counts\<close>

definition count_step :: "(string \<Rightarrow> string) \<Rightarrow> (string \<Rightarrow> int) \<Rightarrow> article_concept \<Rightarrow> (string \<Rightarrow> int)" where
  "count_step slugify counts ac =
     (let normalized = slugify (ac_concept_name ac) in
      if normalized = [] then counts else counts(normalized := counts normalized + 1))"

definition source_concept_rows :: "string \<Rightarrow> db \<Rightarrow> article_concept list" where
  "source_concept_rows user_id d =
     concat (map (\<lambda>ac. map (\<lambda>_. ac) (select (\<lambda>a. art_id a = ac_article_id ac \<and> art_page_type a = SOURCE \<and> art_user_id a = user_id) (articles d)))
       (article_concepts d))"

definition update_article_counts :: "(string \<Rightarrow> string) \<Rightarrow> string \<Rightarrow> db \<Rightarrow> db" where
  "update_article_counts slugify user_id d =
     (let counts = foldl (count_step slugify) (\<lambda>_. 0) (source_concept_rows user_id d) in
      d\<lparr>concepts := update_where (\<lambda>c. con_user_id c = user_id) (\<lambda>c. c\<lparr>con_article_count := counts (con_name c)\<rparr>) (concepts d)\<rparr>)"

section \<open>The hierarchy\<close>

text \<open>A dictionary as the list of its items in insertion order; assignment keeps the place of an existing key.\<close>

type_synonym parent_mapping = "(string \<times> string option) list"

fun dict_set :: "'k \<Rightarrow> 'v \<Rightarrow> ('k \<times> 'v) list \<Rightarrow> ('k \<times> 'v) list" where
  "dict_set k v [] = [(k, v)]"
| "dict_set k v ((k', v') # kvs) = (if k = k' then (k, v) # kvs else (k', v') # dict_set k v kvs)"

definition parent_of :: "parent_mapping \<Rightarrow> string \<Rightarrow> string option" where
  "parent_of m c = (case map_of m c of Some (Some p) \<Rightarrow> Some p | _ \<Rightarrow> None)"

text \<open>\<^verbatim>\<open>x in concept_map\<close>: lists and dictionaries are not hashable.\<close>

fun in_concept_map :: "string list \<Rightarrow> json \<Rightarrow> bool result" where
  "in_concept_map names (JStr s) = ok (s \<in> set names)"
| "in_concept_map names (JList _) = raise (TypeError ''unhashable type: 'list' '')"
| "in_concept_map names (JObj _) = raise (TypeError ''unhashable type: 'dict' '')"
| "in_concept_map names _ = ok False"

fun json_string :: "json \<Rightarrow> string" where
  "json_string (JStr s) = s"
| "json_string _ = []"

definition mapping_step :: "string list \<Rightarrow> parent_mapping \<Rightarrow> json \<Rightarrow> parent_mapping result" where
  "mapping_step names m entry =
     (case entry of
        JObj kvs \<Rightarrow>
          (let name = (case map_of kvs ''name'' of Some v \<Rightarrow> v | None \<Rightarrow> JNull);
               parent = (case map_of kvs ''parent'' of Some v \<Rightarrow> v | None \<Rightarrow> JNull)
           in if \<not> truthy name then ok m
              else bindR (in_concept_map names name) (\<lambda>known.
                if \<not> known then ok m
                else if \<not> truthy parent then ok (dict_set (json_string name) None m)
                else bindR (in_concept_map names parent) (\<lambda>known_parent.
                  ok (dict_set (json_string name) (if known_parent then Some (json_string parent) else None) m))))
      | _ \<Rightarrow> ok m)"

definition build_parent_mapping :: "json list \<Rightarrow> string list \<Rightarrow> parent_mapping result" where
  "build_parent_mapping hierarchy names = foldl (\<lambda>r entry. bindR r (\<lambda>m. mapping_step names m entry)) (ok []) hierarchy"

text \<open>The loop of \<open>_has_cycles\<close> from one name, with the visited names, and of \<open>_exceeds_max_depth\<close>.\<close>

function cycle_from :: "parent_mapping \<Rightarrow> string list \<Rightarrow> string option \<Rightarrow> bool" where
  "cycle_from m visited None = False"
| "cycle_from m visited (Some current) =
     (if current \<in> set visited then True else cycle_from m (current # visited) (parent_of m current))"
  by pat_completeness auto
termination
proof (relation "measures [\<lambda>(m, visited, c). card (fst ` set m - set visited), \<lambda>(m, visited, c). if c = None then 0 else 1]")
  fix m :: parent_mapping and visited :: "string list" and current :: string
  assume new: "\<not> current \<in> set visited"
  show "((m, current # visited, parent_of m current), (m, visited, Some current)) \<in>
    measures [\<lambda>(m, visited, c). card (fst ` set m - set visited), \<lambda>(m, visited, c). if c = None then 0 else 1]"
  proof (cases "current \<in> fst ` set m")
    case True
    then have "fst ` set m - set (current # visited) \<subset> fst ` set m - set visited" using new by auto
    then have "card (fst ` set m - set (current # visited)) < card (fst ` set m - set visited)" by (intro psubset_card_mono) auto
    then show ?thesis by simp
  next
    case False
    then have "parent_of m current = None" by (simp add: parent_of_def map_of_eq_None_iff [THEN iffD2])
    moreover have "fst ` set m - set (current # visited) = fst ` set m - set visited" using False by auto
    ultimately show ?thesis by simp
  qed
qed simp

definition has_cycles :: "parent_mapping \<Rightarrow> bool" where
  "has_cycles m = list_ex (\<lambda>(name, _). cycle_from m [] (Some name)) m"

function depth_exceeds :: "parent_mapping \<Rightarrow> nat \<Rightarrow> nat \<Rightarrow> string option \<Rightarrow> bool" where
  "depth_exceeds m max_depth depth None = False"
| "depth_exceeds m max_depth depth (Some current) =
     (if max_depth < depth + 1 then True else depth_exceeds m max_depth (depth + 1) (parent_of m current))"
  by pat_completeness auto
termination by (relation "measure (\<lambda>(m, max_depth, depth, c). max_depth + 1 - depth)") auto

definition exceeds_max_depth :: "parent_mapping \<Rightarrow> nat \<Rightarrow> bool" where
  "exceeds_max_depth m max_depth = list_ex (\<lambda>(name, _). depth_exceeds m max_depth 0 (Some name)) m"

text \<open>\<open>concept_map[name].id\<close>: of rows with one name the last wins in the dictionary.\<close>

definition concept_id_of :: "concept list \<Rightarrow> string \<Rightarrow> string option" where
  "concept_id_of cs name = map_option con_id (find (\<lambda>c. con_name c = name) (rev cs))"

definition apply_parent_mapping :: "string \<Rightarrow> parent_mapping \<Rightarrow> db \<Rightarrow> db" where
  "apply_parent_mapping user_id m d =
     (let all_concepts = select (\<lambda>c. con_user_id c = user_id) (concepts d) in
      d\<lparr>concepts := update_where (\<lambda>c. con_user_id c = user_id)
         (\<lambda>c. c\<lparr>con_parent_id := (case parent_of m (con_name c) of None \<Rightarrow> None | Some p \<Rightarrow> concept_id_of all_concepts p)\<rparr>) (concepts d)\<rparr>)"

text \<open>\<open>rebuild_taxonomy\<close>, from the decoded answer of the model (\<open>None\<close>: no response).\<close>

definition rebuild_taxonomy :: "nat \<Rightarrow> json option result \<Rightarrow> string \<Rightarrow> db \<Rightarrow> db result" where
  "rebuild_taxonomy max_depth answer user_id d =
     (let all_concepts = select (\<lambda>c. con_user_id c = user_id) (concepts d) in
      if all_concepts = [] then ok d
      else bindR answer (\<lambda>response.
        case response of
          Some (JList hierarchy) \<Rightarrow>
            bindR (build_parent_mapping hierarchy (map con_name all_concepts)) (\<lambda>m.
              if has_cycles m then ok d
              else if exceeds_max_depth m max_depth then ok d
              else ok (apply_parent_mapping user_id m d))
        | _ \<Rightarrow> ok d))"

definition maybe_trigger_taxonomy_rebuild :: "nat \<Rightarrow> nat \<Rightarrow> json option result \<Rightarrow> string \<Rightarrow> db \<Rightarrow> (db \<times> bool) result" where
  "maybe_trigger_taxonomy_rebuild threshold max_depth answer user_id d =
     (if threshold \<le> length (select (\<lambda>c. con_parent_id c = None \<and> con_user_id c = user_id) (concepts d))
      then bindR (rebuild_taxonomy max_depth answer user_id d) (\<lambda>d'. ok (d', True))
      else ok (d, False))"

section \<open>Counts and rows\<close>

lemma count_fold:
  assumes "n \<noteq> []"
  shows "foldl (count_step slugify) counts rows n = counts n + int (length (filter (\<lambda>ac. slugify (ac_concept_name ac) = n) rows))"
  using assms by (induction rows arbitrary: counts) (auto simp: count_step_def Let_def)

text \<open>
  After a recount the number stored with a named concept is the number of rows of its name that belong to a source
  article of the user, whatever was stored before; concepts of other users keep their number.
\<close>

lemma update_article_counts_exact:
  assumes "c \<in> set (concepts (update_article_counts slugify user_id d))" and "con_user_id c = user_id" and "con_name c \<noteq> []"
  shows "con_article_count c =
    int (length (filter (\<lambda>ac. slugify (ac_concept_name ac) = con_name c) (source_concept_rows user_id d)))"
proof -
  let ?counts = "foldl (count_step slugify) (\<lambda>_. 0) (source_concept_rows user_id d)"
  have "c \<in> set (update_where (\<lambda>c. con_user_id c = user_id) (\<lambda>c. c\<lparr>con_article_count := ?counts (con_name c)\<rparr>) (concepts d))"
    using assms(1) unfolding update_article_counts_def Let_def by simp
  then obtain x where "c = x\<lparr>con_article_count := ?counts (con_name x)\<rparr>"
    unfolding update_where_def set_map image_iff using assms(2) by (metis (no_types, lifting))
  then have "con_article_count c = ?counts (con_name c)" by simp
  with count_fold [OF assms(3)] show ?thesis by simp
qed

lemma insert_concept_keeps: "c \<in> set rows \<Longrightarrow> c \<in> set (insert_concept slugify fresh now u rows raw)"
  by (simp add: insert_concept_def Let_def)

lemma insert_concept_present:
  "slugify raw \<noteq> [] \<Longrightarrow> \<exists>c \<in> set (insert_concept slugify fresh now u rows raw). is_concept u (slugify raw) c"
  by (auto simp: insert_concept_def Let_def is_concept_def list_ex_iff)

lemma insert_concept_unique:
  "distinct (map (\<lambda>c. (con_user_id c, con_name c)) rows) \<Longrightarrow>
   distinct (map (\<lambda>c. (con_user_id c, con_name c)) (insert_concept slugify fresh now u rows raw))"
  by (auto simp: insert_concept_def Let_def is_concept_def list_ex_iff)

text \<open>The insertions of \<open>upsert_concepts\<close> keep one row per user and name and give every name a row.\<close>

lemma insert_concepts_spec:
  assumes "distinct (map (\<lambda>c. (con_user_id c, con_name c)) rows)"
  shows "distinct (map (\<lambda>c. (con_user_id c, con_name c)) (foldl (insert_concept slugify fresh now u) rows names))"
    and "set rows \<subseteq> set (foldl (insert_concept slugify fresh now u) rows names)"
    and "\<forall>n \<in> set names. slugify n \<noteq> [] \<longrightarrow>
      (\<exists>c \<in> set (foldl (insert_concept slugify fresh now u) rows names). is_concept u (slugify n) c)"
proof (atomize (full), use assms in \<open>induction names arbitrary: rows\<close>)
  case (Cons raw names)
  note IH = Cons.IH [OF insert_concept_unique [OF Cons.prems, of slugify fresh now u raw]]
  have "slugify raw \<noteq> [] \<Longrightarrow>
    \<exists>c \<in> set (foldl (insert_concept slugify fresh now u) (insert_concept slugify fresh now u rows raw) names). is_concept u (slugify raw) c"
    using insert_concept_present IH by (meson subsetD)
  moreover have "set rows \<subseteq> set (insert_concept slugify fresh now u rows raw)" using insert_concept_keeps by blast
  ultimately show ?case using IH by auto
qed simp

section \<open>The cycle check\<close>

definition parents :: "parent_mapping \<Rightarrow> (string \<times> string) set" where
  "parents m = {(c, p). parent_of m c = Some p}"

lemma parents_step: "(c, p) \<in> parents m \<longleftrightarrow> parent_of m c = Some p"
  by (simp add: parents_def)

lemma parents_key: "parent_of m c = Some p \<Longrightarrow> c \<in> fst ` set m"
  by (force simp: parent_of_def split: option.splits dest: map_of_SomeD)

lemma cycle_from_sound:
  "cycle_from m visited current \<Longrightarrow> current = Some c \<Longrightarrow> (\<And>v. v \<in> set visited \<Longrightarrow> (v, c) \<in> (parents m)\<^sup>+) \<Longrightarrow>
   \<exists>x. (c, x) \<in> (parents m)\<^sup>* \<and> (x, x) \<in> (parents m)\<^sup>+"
proof (induction m visited current arbitrary: c rule: cycle_from.induct)
  case (2 m visited current)
  show ?case
  proof (cases "current \<in> set visited")
    case True
    with 2 show ?thesis by blast
  next
    case False
    with 2 obtain n where n: "parent_of m c = Some n" "cycle_from m (c # visited) (Some n)"
      by (cases "parent_of m current") auto
    then have cn: "(c, n) \<in> parents m" by (simp add: parents_step)
    have "(v, n) \<in> (parents m)\<^sup>+" if "v \<in> set (current # visited)" for v
      using that 2(3, 4) cn by (auto intro: trancl_into_trancl)
    from "2.IH" [OF False _ _ this] n 2(3) obtain x where "(n, x) \<in> (parents m)\<^sup>*" "(x, x) \<in> (parents m)\<^sup>+" by auto
    with cn show ?thesis by (blast intro: converse_rtrancl_into_rtrancl)
  qed
qed simp

lemma cycle_from_complete:
  "\<not> cycle_from m visited current \<Longrightarrow> current = Some c \<Longrightarrow> (c, x) \<in> (parents m)\<^sup>* \<Longrightarrow> (x, x) \<notin> (parents m)\<^sup>+"
proof (induction m visited current arbitrary: c x rule: cycle_from.induct)
  case (2 m visited current)
  have cur: "current = c" using 2(3) by simp
  show ?case
  proof (cases "parent_of m c")
    case None
    then have none: "(c, y) \<notin> parents m" for y by (simp add: parents_step)
    have "x = c" using 2(4) by (rule converse_rtranclE) (use none in auto)
    with none show ?thesis by (auto dest: tranclD)
  next
    case (Some n)
    then have cn: "(c, n) \<in> parents m" and only: "(c, y) \<in> parents m \<Longrightarrow> y = n" for y by (simp_all add: parents_step)
    have IH: "(n, y) \<in> (parents m)\<^sup>* \<Longrightarrow> (y, y) \<notin> (parents m)\<^sup>+" for y
    proof -
      have "current \<notin> set visited \<and> \<not> cycle_from m (current # visited) (parent_of m current)"
        using 2(2) unfolding cycle_from.simps(2) [of m visited current] by (metis (full_types))
      then show "(n, y) \<in> (parents m)\<^sup>* \<Longrightarrow> (y, y) \<notin> (parents m)\<^sup>+"
        using "2.IH" [of n y] Some unfolding cur by (simp only: simp_thms)
    qed
    show ?thesis
    proof
      assume cyc: "(x, x) \<in> (parents m)\<^sup>+"
      have "(n, x) \<in> (parents m)\<^sup>*"
      proof (cases "x = c")
        case True
        with cyc show ?thesis by (metis tranclD only)
      next
        case False
        with 2(4) show ?thesis by (metis converse_rtranclE only)
      qed
      with IH cyc show False by blast
    qed
  qed
qed simp

text \<open>
  The cycle check of the taxonomy is exact: the walk from every name, which always ends, reports a cycle
  if and only if the relation from a concept to its parent has one.
\<close>

lemma has_cycles_correct: "has_cycles m \<longleftrightarrow> \<not> acyclic {(c, p). parent_of m c = Some p}"
  unfolding parents_def [symmetric]
proof
  assume "has_cycles m"
  then obtain c where "cycle_from m [] (Some c)" by (auto simp: has_cycles_def list_ex_iff)
  from cycle_from_sound [OF this] show "\<not> acyclic (parents m)" by (auto simp: acyclic_def)
next
  assume "\<not> acyclic (parents m)"
  then obtain x where x: "(x, x) \<in> (parents m)\<^sup>+" by (auto simp: acyclic_def)
  then obtain y where "(x, y) \<in> parents m" by (meson tranclD)
  then obtain v where "(x, v) \<in> set m" using parents_key by (force simp: parents_step)
  moreover have "cycle_from m [] (Some x)" using cycle_from_complete [OF _ refl rtrancl_refl] x by blast
  ultimately show "has_cycles m" by (auto simp: has_cycles_def list_ex_iff intro!: bexI [of _ "(x, v)"])
qed

lemma acyclic_checked: "\<not> has_cycles m \<Longrightarrow> acyclic (parents m)"
proof (rule ccontr)
  assume "\<not> has_cycles m" and "\<not> acyclic (parents m)"
  then obtain x where x: "(x, x) \<in> (parents m)\<^sup>+" by (auto simp: acyclic_def)
  then obtain y where "(x, y) \<in> parents m" by (meson tranclD)
  then obtain v where "(x, v) \<in> set m" using parents_key by (force simp: parents_step)
  moreover have "cycle_from m [] (Some x)" using cycle_from_complete [OF _ refl rtrancl_refl] x by blast
  ultimately have "has_cycles m" by (auto simp: has_cycles_def list_ex_iff intro!: bexI [of _ "(x, v)"])
  with \<open>\<not> has_cycles m\<close> show False by simp
qed

section \<open>The depth check\<close>

lemma depth_exceeds_chain:
  "depth \<le> mx \<Longrightarrow> (c, y) \<in> parents m ^^ (mx - depth) \<Longrightarrow> depth_exceeds m mx depth (Some c)"
proof (induction "mx - depth" arbitrary: depth c)
  case 0
  then show ?case by simp
next
  case (Suc k)
  then have k: "k = mx - (depth + 1)" "depth + 1 \<le> mx" by auto
  from Suc(2, 4) have "(c, y) \<in> parents m ^^ Suc k" by simp
  then obtain n where n: "(c, n) \<in> parents m" "(n, y) \<in> parents m ^^ k" by (meson relpow_Suc_D2)
  have "depth_exceeds m mx (depth + 1) (Some n)" using Suc(1) [OF k(1) k(2)] n(2) unfolding k(1) by blast
  with n(1) k(2) show ?case
    unfolding depth_exceeds.simps(2) [of m mx depth c] parents_step by (simp only: if_cancel split: if_split)
qed

lemma depth_checked:
  assumes "\<not> exceeds_max_depth m mx" and "0 < mx"
  shows "parents m ^^ mx = {}"
proof (rule equals0I)
  fix e assume "e \<in> parents m ^^ mx"
  then obtain c y where e: "(c, y) \<in> parents m ^^ mx" by (cases e) auto
  then have "(c, y) \<in> parents m ^^ Suc (mx - 1)" using assms(2) by simp
  then obtain n where "(c, n) \<in> parents m" by (meson relpow_Suc_D2)
  then obtain v where v: "(c, v) \<in> set m" using parents_key by (force simp: parents_step)
  have "depth_exceeds m mx 0 (Some c)" using depth_exceeds_chain [of 0 mx c y m] e by simp
  with v assms(1) show False by (auto simp: exceeds_max_depth_def list_ex_iff)
qed

section \<open>Rebuilding\<close>

definition concept_tree :: "string \<Rightarrow> db \<Rightarrow> (string \<times> string) set" where
  "concept_tree user_id d =
     {(i, j). \<exists>c \<in> set (concepts d). con_user_id c = user_id \<and> con_id c = i \<and> con_parent_id c = Some j}"

lemma relpow_hom:
  assumes "\<And>x y. (x, y) \<in> R \<Longrightarrow> (g x, g y) \<in> S"
  shows "(x, y) \<in> R ^^ n \<Longrightarrow> (g x, g y) \<in> S ^^ n"
  by (induction n arbitrary: y) (auto intro: assms relcompI)

lemma acyclic_hom:
  assumes "\<And>x y. (x, y) \<in> R \<Longrightarrow> (g x, g y) \<in> S" and "acyclic S"
  shows "acyclic R"
proof (rule acyclicI, rule allI, rule notI)
  fix x assume "(x, x) \<in> R\<^sup>+"
  then obtain n where "0 < n" "(x, x) \<in> R ^^ n" by (auto simp: trancl_power)
  with relpow_hom [of R g S x x n, OF assms(1)] have "(g x, g x) \<in> S\<^sup>+" by (auto simp: trancl_power)
  with assms(2) show False by (simp add: acyclic_def)
qed

lemma concept_id_of_Some:
  "concept_id_of cs p = Some j \<Longrightarrow> \<exists>c \<in> set cs. con_name c = p \<and> con_id c = j"
  by (auto simp: concept_id_of_def dest!: find_Some_in)

lemma apply_parent_mapping_rows:
  "concepts (apply_parent_mapping user_id m d) =
     map (\<lambda>c. if con_user_id c = user_id
       then c\<lparr>con_parent_id := (case parent_of m (con_name c) of None \<Rightarrow> None
                | Some p \<Rightarrow> concept_id_of (select (\<lambda>c. con_user_id c = user_id) (concepts d)) p)\<rparr> else c) (concepts d)"
  by (simp add: apply_parent_mapping_def update_where_def Let_def)

lemma apply_parent_mapping_tree:
  assumes "distinct (map con_id (concepts d))" and "(i, j) \<in> concept_tree user_id (apply_parent_mapping user_id m d)"
  shows "\<exists>c c'. c \<in> set (concepts d) \<and> c' \<in> set (concepts d) \<and> con_user_id c = user_id \<and> con_user_id c' = user_id \<and>
    con_id c = i \<and> con_id c' = j \<and> (con_name c, con_name c') \<in> parents m"
proof -
  let ?f = "\<lambda>c. if con_user_id c = user_id
       then c\<lparr>con_parent_id := (case parent_of m (con_name c) of None \<Rightarrow> None
                | Some p \<Rightarrow> concept_id_of (select (\<lambda>c. con_user_id c = user_id) (concepts d)) p)\<rparr> else c"
  from assms(2) obtain c1 where c1: "c1 \<in> set (concepts (apply_parent_mapping user_id m d))" "con_user_id c1 = user_id" "con_id c1 = i"
    "con_parent_id c1 = Some j" unfolding concept_tree_def by blast
  then obtain c where c0: "c \<in> set (concepts d)" "c1 = ?f c" unfolding apply_parent_mapping_rows set_map by blast
  then have c: "c \<in> set (concepts d)" "con_user_id c = user_id" "con_id c = i"
    "(case parent_of m (con_name c) of None \<Rightarrow> None
       | Some p \<Rightarrow> concept_id_of (select (\<lambda>c. con_user_id c = user_id) (concepts d)) p) = Some j"
    using c1(2, 3, 4) by (simp_all split: if_splits)
  then obtain p where p: "parent_of m (con_name c) = Some p"
    "concept_id_of (select (\<lambda>c. con_user_id c = user_id) (concepts d)) p = Some j" by (auto split: option.splits)
  from concept_id_of_Some [OF p(2)] obtain c' where "c' \<in> set (concepts d)" "con_user_id c' = user_id" "con_name c' = p" "con_id c' = j"
    by auto
  with c p(1) show ?thesis by (intro exI [of _ c] exI [of _ c']) (simp add: parents_step)
qed

lemma rebuild_taxonomyD:
  assumes "rebuild_taxonomy max_depth answer user_id d = ok d'" and "d' \<noteq> d"
  obtains m where "\<not> has_cycles m" and "\<not> exceeds_max_depth m max_depth" and "d' = apply_parent_mapping user_id m d"
proof (cases answer)
  case (Inl e)
  with assms that show ?thesis by (auto simp: rebuild_taxonomy_def Let_def res_simps split: if_splits)
next
  case (Inr r)
  show ?thesis
  proof (cases "\<exists>h. r = Some (JList h)")
    case True
    then obtain h where h: "r = Some (JList h)" by blast
    show ?thesis
    proof (cases "build_parent_mapping h (map con_name (select (\<lambda>c. con_user_id c = user_id) (concepts d)))")
      case (Inr m)
      show ?thesis
        by (rule that [of m])
          (use assms \<open>answer = Inr r\<close> h Inr in \<open>auto simp: rebuild_taxonomy_def Let_def res_simps split: if_splits\<close>)
    qed (use assms Inr h in \<open>auto simp: rebuild_taxonomy_def Let_def res_simps split: if_splits\<close>)
  qed (use assms Inr in \<open>auto simp: rebuild_taxonomy_def Let_def res_simps split: if_splits option.splits json.splits\<close>)
qed

text \<open>
  C15. Whatever the language model answers, a rebuild that changes the taxonomy leaves a forest: the parent relation
  among the concepts of the user has no cycle, no chain has more than the allowed number of levels, and every
  parent is a concept of the same user; nothing else of any concept and no concept of another user changes.
\<close>

theorem rebuild_taxonomy_forest:
  assumes "distinct (map con_id (concepts d))" and "0 < max_depth" and "rebuild_taxonomy max_depth answer user_id d = ok d'"
  shows "d' = d \<or>
    acyclic (concept_tree user_id d') \<and> concept_tree user_id d' ^^ max_depth = {} \<and>
    snd ` concept_tree user_id d' \<subseteq> con_id ` {c \<in> set (concepts d'). con_user_id c = user_id} \<and>
    map (\<lambda>c. c\<lparr>con_parent_id := None\<rparr>) (concepts d') = map (\<lambda>c. c\<lparr>con_parent_id := None\<rparr>) (concepts d) \<and>
    select (\<lambda>c. con_user_id c \<noteq> user_id) (concepts d') = select (\<lambda>c. con_user_id c \<noteq> user_id) (concepts d)"
proof (cases "d' = d")
  case False
  from rebuild_taxonomyD [OF assms(3) False] obtain m where
    m: "\<not> has_cycles m" "\<not> exceeds_max_depth m max_depth" and d': "d' = apply_parent_mapping user_id m d" .
  define g where "g i = con_name (the (get_by con_id i (concepts d)))" for i
  have g: "g (con_id c) = con_name c" if "c \<in> set (concepts d)" for c
    using get_by_distinct [OF assms(1) that] by (simp add: g_def)
  have hom: "(g i, g j) \<in> parents m" if "(i, j) \<in> concept_tree user_id d'" for i j
  proof -
    from apply_parent_mapping_tree [OF assms(1) that [unfolded d']] obtain c c' where
      "c \<in> set (concepts d)" "c' \<in> set (concepts d)" "con_id c = i" "con_id c' = j" "(con_name c, con_name c') \<in> parents m" by blast
    then show ?thesis using g [of c] g [of c'] by simp
  qed
  have "acyclic (concept_tree user_id d')" by (rule acyclic_hom [OF hom acyclic_checked [OF m(1)]])
  moreover have "concept_tree user_id d' ^^ max_depth = {}"
    using relpow_hom [where R = "concept_tree user_id d'" and g = g and S = "parents m" and n = max_depth, OF hom]
      depth_checked [OF m(2) assms(2)] by auto
  moreover have "snd ` concept_tree user_id d' \<subseteq> con_id ` {c \<in> set (concepts d'). con_user_id c = user_id}"
  proof
    fix j assume "j \<in> snd ` concept_tree user_id d'"
    then obtain i where "(i, j) \<in> concept_tree user_id d'" by auto
    from apply_parent_mapping_tree [OF assms(1) this [unfolded d']] obtain c' where
      c': "c' \<in> set (concepts d)" "con_user_id c' = user_id" "con_id c' = j" by blast
    then show "j \<in> con_id ` {c \<in> set (concepts d'). con_user_id c = user_id}"
      unfolding d' apply_parent_mapping_rows set_map by (intro image_eqI [where f = con_id] CollectI conjI, rule_tac [2] imageI [of c']) auto
  qed
  moreover have "map (\<lambda>c. c\<lparr>con_parent_id := None\<rparr>) (concepts d') = map (\<lambda>c. c\<lparr>con_parent_id := None\<rparr>) (concepts d)"
    unfolding d' apply_parent_mapping_rows by simp
  moreover have "select (\<lambda>c. con_user_id c \<noteq> user_id) (concepts d') = select (\<lambda>c. con_user_id c \<noteq> user_id) (concepts d)"
    unfolding d' apply_parent_mapping_def Let_def by (simp add: select_update_other)
  ultimately show ?thesis by blast
qed simp

text \<open>A rebuild of three concepts: the answer chains them, and the rows point to their parents.\<close>

definition example_concept :: "string \<Rightarrow> string \<Rightarrow> concept" where
  "example_concept i n = \<lparr>con_id = i, con_user_id = ''u'', con_name = n, con_parent_id = None,
     con_article_count = 0, con_description = None, con_created_at = 0, con_concept_kind = ''topic''\<rparr>"

definition example_taxonomy :: db where
  "example_taxonomy = empty_db\<lparr>concepts := [example_concept ''1'' ''ml'', example_concept ''2'' ''nlp'', example_concept ''3'' ''bert'']\<rparr>"

definition example_answer :: json where
  "example_answer = JList
     [JObj [(''name'', JStr ''nlp''), (''parent'', JStr ''ml'')],
      JObj [(''name'', JStr ''bert''), (''parent'', JStr ''nlp'')],
      JObj [(''name'', JStr ''unknown''), (''parent'', JStr ''ml'')]]"

lemma example_mapping:
  "build_parent_mapping
     [JObj [(''name'', JStr ''nlp''), (''parent'', JStr ''ml'')], JObj [(''name'', JStr ''bert''), (''parent'', JStr ''nlp'')],
      JObj [(''name'', JStr ''unknown''), (''parent'', JStr ''ml'')]] [''ml'', ''nlp'', ''bert''] =
     ok [(''nlp'', Some ''ml''), (''bert'', Some ''nlp'')]"
  by (simp add: build_parent_mapping_def mapping_step_def res_simps)

lemma example_checks:
  "\<not> has_cycles [(''nlp'', Some ''ml''), (''bert'', Some ''nlp'')]"
  "\<not> exceeds_max_depth [(''nlp'', Some ''ml''), (''bert'', Some ''nlp'')] 4"
  by (simp_all add: has_cycles_def exceeds_max_depth_def parent_of_def)

lemma example_rows:
  "map con_name (select (\<lambda>c. con_user_id c = ''u'') (concepts example_taxonomy)) = [''ml'', ''nlp'', ''bert'']"
  "select (\<lambda>c. con_user_id c = ''u'') (concepts example_taxonomy) \<noteq> []"
  by (simp_all add: example_taxonomy_def example_concept_def select_def)

lemma example_rebuild:
  "rebuild_taxonomy 4 (ok (Some example_answer)) ''u'' example_taxonomy =
     ok (apply_parent_mapping ''u'' [(''nlp'', Some ''ml''), (''bert'', Some ''nlp'')] example_taxonomy)"
  unfolding rebuild_taxonomy_def Let_def example_rows(1) example_answer_def
  using example_rows(2) example_checks by (simp add: res_simps example_mapping)

lemma example_parents:
  "map con_parent_id (concepts (apply_parent_mapping ''u'' [(''nlp'', Some ''ml''), (''bert'', Some ''nlp'')] example_taxonomy)) =
     [None, Some ''1'', Some ''2'']"
  by (simp add: apply_parent_mapping_rows parent_of_def concept_id_of_def select_def example_taxonomy_def example_concept_def)

theorem rebuild_taxonomy_forest_witness:
  "\<exists>d'. rebuild_taxonomy 4 (ok (Some example_answer)) ''u'' example_taxonomy = ok d' \<and>
     map con_parent_id (concepts d') = [None, Some ''1'', Some ''2''] \<and>
     acyclic (concept_tree ''u'' d') \<and> concept_tree ''u'' d' ^^ 4 = {}"
proof -
  let ?d' = "apply_parent_mapping ''u'' [(''nlp'', Some ''ml''), (''bert'', Some ''nlp'')] example_taxonomy"
  have "map con_parent_id (concepts ?d') \<noteq> map con_parent_id (concepts example_taxonomy)"
    unfolding example_parents by (simp add: example_taxonomy_def example_concept_def)
  then have "?d' \<noteq> example_taxonomy" by metis
  moreover have "distinct (map con_id (concepts example_taxonomy))" by (simp add: example_taxonomy_def example_concept_def)
  ultimately have "acyclic (concept_tree ''u'' ?d') \<and> concept_tree ''u'' ?d' ^^ 4 = {}"
    using rebuild_taxonomy_forest [OF _ _ example_rebuild] by (simp only: zero_less_numeral simp_thms)
  then show ?thesis by (intro exI [of _ ?d'] conjI example_rebuild example_parents) (erule conjunct1, erule conjunct2)
qed

end
