(* ===== verification/Search.thy ===== *)
theory Search
  imports Domain PyStr Confidence
begin

unbundle bit_operations_syntax

text \<open>
  Full-text search, \<^verbatim>\<open>src/src/wikimind/services/search.py\<close>: the FTS5 table and its synchronisation, the two
  sanitizers, ranked and paginated search on SQLite and Postgres, facet filters and facet counts. Parameters
  stand for the engines: \<open>md5\<close> (the digest as bytes), \<open>fts_match\<close> (the rows of an FTS5 \<^verbatim>\<open>MATCH\<close>, by rank, with
  snippet and BM25 rank) and \<open>ts_match\<close> (headline and rank of an article that a tsquery matches). A query that
  SQL leaves unordered returns its rows in table order.
\<close>

section \<open>The index\<close>

record fts_row =
  fts_rowid :: int
  fts_title :: string
  fts_content :: string

record fts_state =
  fts_ready :: bool
  fts_table :: "fts_row list"

definition from_bytes_big :: "nat list \<Rightarrow> int" where
  "from_bytes_big bs = foldl (\<lambda>acc b. acc * 256 + int b) 0 bs"

definition article_id_to_rowid :: "(string \<Rightarrow> nat list) \<Rightarrow> string \<Rightarrow> int" where
  "article_id_to_rowid md5 article_id = from_bytes_big (take 8 (md5 article_id)) AND 0x7FFFFFFFFFFFFFFF"

definition create_fts_table :: "fts_state \<Rightarrow> fts_state" where
  "create_fts_table s = s\<lparr>fts_ready := True\<rparr>"

definition read_content :: "db \<Rightarrow> string \<Rightarrow> string \<Rightarrow> string" where
  "read_content d file_path user_id = (case wiki_files d (user_id, file_path) of None \<Rightarrow> [] | Some c \<Rightarrow> c)"

text \<open>\<^verbatim>\<open>INSERT INTO article_fts\<close>: the row id is the key of the table.\<close>

definition insert_fts :: "int \<Rightarrow> string \<Rightarrow> string \<Rightarrow> fts_row list \<Rightarrow> fts_row list result" where
  "insert_fts rowid title content rows =
     (if rowid \<in> fts_rowid ` set rows then raise (IntegrityError ''constraint failed'')
      else ok (rows @ [\<lparr>fts_rowid = rowid, fts_title = title, fts_content = content\<rparr>]))"

definition rebuild_fts_index :: "(string \<Rightarrow> nat list) \<Rightarrow> bool \<Rightarrow> db \<Rightarrow> fts_state \<Rightarrow> (fts_state \<times> nat) result" where
  "rebuild_fts_index md5 postgres d s =
     (if articles d = [] then ok (s, 0)
      else if postgres then ok (s, length (articles d))
      else
        bindR (foldl (\<lambda>r a. bindR r (\<lambda>(rows, count).
                        bindR (insert_fts (article_id_to_rowid md5 (art_id a)) (art_title a)
                                 (read_content d (art_file_path a) (art_user_id a)) rows) (\<lambda>rows'.
                          ok (rows', count + 1)))) (ok ([], 0)) (articles d)) (\<lambda>(rows, count).
          ok (s\<lparr>fts_table := rows\<rparr>, count)))"

definition index_article ::
  "(string \<Rightarrow> nat list) \<Rightarrow> bool \<Rightarrow> string \<Rightarrow> string \<Rightarrow> string \<Rightarrow> fts_state \<Rightarrow> fts_state result" where
  "index_article md5 postgres article_id title content s =
     (if \<not> fts_ready s then ok s
      else if postgres then ok s
      else
        (let rowid = article_id_to_rowid md5 article_id in
         bindR (insert_fts rowid title content (delete_where (\<lambda>r. fts_rowid r = rowid) (fts_table s))) (\<lambda>rows.
           ok (s\<lparr>fts_table := rows\<rparr>))))"

definition remove_article :: "(string \<Rightarrow> nat list) \<Rightarrow> bool \<Rightarrow> string \<Rightarrow> fts_state \<Rightarrow> fts_state" where
  "remove_article md5 postgres article_id s =
     (if \<not> fts_ready s then s
      else if postgres then s
      else s\<lparr>fts_table := delete_where (\<lambda>r. fts_rowid r = article_id_to_rowid md5 article_id) (fts_table s)\<rparr>)"

section \<open>Queries\<close>

definition sanitize_fts5_query :: "string \<Rightarrow> string" where
  "sanitize_fts5_query query =
     (let words = py_split (py_strip query);
          cleaned = map (filter (\<lambda>c. c \<noteq> CHR 0x22)) words
      in py_join '' '' (map (\<lambda>w. [CHR 0x22] @ w @ [CHR 0x22] @ ''*'') (filter (\<lambda>w. w \<noteq> []) cleaned)))"

definition sanitize_postgres_query :: "string \<Rightarrow> string" where
  "sanitize_postgres_query query =
     (let words = py_split (py_strip query);
          cleaned = map (filter (\<lambda>c. is_word c \<or> c = CHR ''-'')) words
      in py_join '' & '' (map (\<lambda>w. w @ '':*'') (filter (\<lambda>w. w \<noteq> []) cleaned)))"

record fts_item =
  fr_article_id :: string
  fr_slug :: string
  fr_title :: string
  fr_snippet :: string
  fr_rank :: rat

record fts_response =
  rs_results :: "fts_item list"
  rs_total :: nat

definition no_results :: fts_response where
  "no_results = \<lparr>rs_results = [], rs_total = 0\<rparr>"

type_synonym fts_engine = "string \<Rightarrow> fts_row list \<Rightarrow> (int \<times> string \<times> rat) list"
type_synonym ts_engine = "string \<Rightarrow> article \<Rightarrow> (string \<times> rat) option"

definition item_of :: "article \<Rightarrow> string \<times> rat \<Rightarrow> fts_item" where
  "item_of a hit = \<lparr>fr_article_id = art_id a, fr_slug = art_slug a, fr_title = art_title a, fr_snippet = fst hit, fr_rank = snd hit\<rparr>"

text \<open>\<open>rowid_map\<close>: the last row of a row id wins.\<close>

definition search_sqlite ::
  "(string \<Rightarrow> nat list) \<Rightarrow> fts_engine \<Rightarrow> string \<Rightarrow> string \<Rightarrow> nat \<Rightarrow> nat \<Rightarrow> db \<Rightarrow> fts_state \<Rightarrow> fts_response" where
  "search_sqlite md5 fts_match query user_id limit offset d s =
     (let fts_query = sanitize_fts5_query query in
      if fts_query = [] then no_results
      else
        (let fts_rows = fts_match fts_query (fts_table s) in
         if fts_rows = [] then no_results
         else
           (let rowid_map = map_of (rev fts_rows);
                user_article_ids = map art_id (select (\<lambda>a. art_user_id a = user_id) (articles d));
                matched_ids = filter (\<lambda>i. rowid_map (article_id_to_rowid md5 i) \<noteq> None) user_article_ids
            in if matched_ids = [] then no_results
               else
                 (let matched_articles = select (\<lambda>a. art_id a \<in> set matched_ids \<and> art_user_id a = user_id) (articles d);
                      results = map (\<lambda>a. item_of a (the (rowid_map (article_id_to_rowid md5 (art_id a))))) matched_articles;
                      sorted_results = sort_key fr_rank results
                  in \<lparr>rs_results = take limit (drop offset sorted_results), rs_total = length sorted_results\<rparr>))))"

definition search_postgres :: "ts_engine \<Rightarrow> string \<Rightarrow> string \<Rightarrow> nat \<Rightarrow> nat \<Rightarrow> db \<Rightarrow> fts_response" where
  "search_postgres ts_match query user_id limit offset d =
     (let tsquery = sanitize_postgres_query query in
      if tsquery = [] then no_results
      else
        (let rows = select (\<lambda>a. ts_match tsquery a \<noteq> None \<and> art_user_id a = user_id) (articles d);
             results = sort_key (\<lambda>r. - fr_rank r) (map (\<lambda>a. item_of a (the (ts_match tsquery a))) rows)
         in \<lparr>rs_results = take limit (drop offset results), rs_total = length rows\<rparr>))"

text \<open>The engines a search runs on, and the configuration it reads.\<close>

record search_env =
  se_md5 :: "string \<Rightarrow> nat list"
  se_fts :: fts_engine
  se_ts :: ts_engine
  se_postgres :: bool
  se_max_candidates :: nat
  se_decay_rate :: rat

definition search_articles :: "search_env \<Rightarrow> string \<Rightarrow> string \<Rightarrow> nat \<Rightarrow> nat \<Rightarrow> db \<Rightarrow> fts_state \<Rightarrow> fts_response" where
  "search_articles e query user_id limit offset d s =
     (if \<not> fts_ready s then no_results
      else if se_postgres e then search_postgres (se_ts e) query user_id limit offset d
      else search_sqlite (se_md5 e) (se_fts e) query user_id limit offset d s)"

section \<open>Facet filters\<close>

text \<open>The filters of a search; \<open>None\<close> and the empty string leave a filter out.\<close>

record facet_filters =
  ff_source_kind :: "string option"
  ff_page_type :: "string option"
  ff_concept :: "string option"
  ff_tag :: "string option"
  ff_date_range :: "string option"
  ff_staleness :: "string option"

definition no_filters :: facet_filters where
  "no_filters = \<lparr>ff_source_kind = None, ff_page_type = None, ff_concept = None, ff_tag = None,
     ff_date_range = None, ff_staleness = None\<rparr>"

definition narrow :: "string option \<Rightarrow> (string \<Rightarrow> string list) \<Rightarrow> string list \<Rightarrow> string list" where
  "narrow filt hits remaining =
     (case filt of
        None \<Rightarrow> remaining
      | Some v \<Rightarrow> if v = [] then remaining else filter (\<lambda>i. i \<in> set (hits v)) remaining)"

definition range_days :: "string \<Rightarrow> int option" where
  "range_days r = (if r = ''7d'' then Some 7 else if r = ''30d'' then Some 30 else if r = ''365d'' then Some 365 else None)"

definition compute_article_staleness :: "datetime \<Rightarrow> rat \<Rightarrow> article \<Rightarrow> rat" where
  "compute_article_staleness now decay_rate a =
     (case art_last_reinforced_at a of
        None \<Rightarrow> 1
      | Some t \<Rightarrow> compute_staleness (fl (fl (of_int (now - t) / 1000000) / 86400)) decay_rate)"

definition matches_staleness_bucket :: "string \<Rightarrow> rat \<Rightarrow> bool" where
  "matches_staleness_bucket bucket score =
     (if bucket = ''low'' then score < fl (3 / 10)
      else if bucket = ''medium'' then fl (3 / 10) \<le> score \<and> score \<le> fl (7 / 10)
      else if bucket = ''high'' then fl (7 / 10) < score
      else False)"

definition user_articles :: "string list \<Rightarrow> string \<Rightarrow> db \<Rightarrow> article list" where
  "user_articles article_ids user_id d = select (\<lambda>a. art_id a \<in> set article_ids \<and> art_user_id a = user_id) (articles d)"

definition ids_where :: "(article \<Rightarrow> bool) \<Rightarrow> article list \<Rightarrow> string list" where
  "ids_where p rows = map art_id (select p rows)"

definition apply_facet_filters :: "datetime \<Rightarrow> rat \<Rightarrow> string list \<Rightarrow> string \<Rightarrow> facet_filters \<Rightarrow> db \<Rightarrow> string list" where
  "apply_facet_filters now decay_rate article_ids user_id f d =
     (let own = user_articles article_ids user_id d;
          r1 = narrow (ff_page_type f) (\<lambda>v. ids_where (\<lambda>a. page_type_value (art_page_type a) = v) own) article_ids;
          r2 = narrow (ff_source_kind f) (\<lambda>v. map as_article_id (select (\<lambda>l. as_article_id l \<in> set article_ids \<and>
                 as_source_id l \<in> src_id ` set (select (\<lambda>x. src_user_id x = user_id \<and> source_type_value (src_source_type x) = v) (sources d)))
                 (article_sources d))) r1;
          r3 = narrow (ff_concept f) (\<lambda>v. map ac_article_id (select (\<lambda>l. ac_article_id l \<in> set article_ids \<and> ac_concept_name l = v)
                 (article_concepts d))) r2;
          r4 = narrow (ff_tag f) (\<lambda>v. map at_article_id (select (\<lambda>l. at_article_id l \<in> set article_ids \<and> at_tag_id l = v)
                 (article_tags d))) r3;
          r5 = narrow (ff_date_range f) (\<lambda>v. case range_days v of None \<Rightarrow> r4
                 | Some days \<Rightarrow> ids_where (\<lambda>a. now - days * day_us \<le> art_updated_at a) own) r4
      in narrow (ff_staleness f) (\<lambda>v. ids_where (\<lambda>a. matches_staleness_bucket v (compute_article_staleness now decay_rate a))
           (user_articles r5 user_id d)) r5)"

definition article_date :: "datetime \<Rightarrow> string list \<Rightarrow> db \<Rightarrow> string \<Rightarrow> datetime" where
  "article_date now article_ids d i =
     (case map_of (rev (map (\<lambda>a. (art_id a, art_updated_at a)) (select (\<lambda>a. art_id a \<in> set article_ids) (articles d)))) i of
        None \<Rightarrow> now | Some t \<Rightarrow> t)"

definition search ::
  "search_env \<Rightarrow> datetime \<Rightarrow> string \<Rightarrow> string \<Rightarrow> nat \<Rightarrow> nat \<Rightarrow> facet_filters \<Rightarrow> string option \<Rightarrow> db \<Rightarrow> fts_state \<Rightarrow> fts_response" where
  "search e now query user_id limit offset f sort_by d s =
     (let fts_response = search_articles e query user_id (se_max_candidates e) 0 d s in
      if rs_results fts_response = [] then no_results
      else
        (let article_ids = map fr_article_id (rs_results fts_response);
             filtered_ids = apply_facet_filters now (se_decay_rate e) article_ids user_id f d;
             filtered_results = filter (\<lambda>r. fr_article_id r \<in> set filtered_ids) (rs_results fts_response);
             ordered = (if sort_by = Some ''recency'' then sort_key (\<lambda>r. - article_date now filtered_ids d (fr_article_id r)) filtered_results
                        else filtered_results)
         in \<lparr>rs_results = take limit (drop offset ordered), rs_total = length ordered\<rparr>))"

section \<open>Facet counts\<close>

record facet_bucket =
  fb_value :: string
  fb_count :: nat

record facet_group =
  fg_name :: string
  fg_buckets :: "facet_bucket list"

text \<open>A \<open>Counter\<close> as its items in order of first occurrence.\<close>

definition counter :: "string list \<Rightarrow> (string \<times> nat) list" where
  "counter xs = map (\<lambda>k. (k, count_list xs k)) (nub xs)"

definition bucket_of :: "string \<times> nat \<Rightarrow> facet_bucket" where
  "bucket_of kv = \<lparr>fb_value = fst kv, fb_count = snd kv\<rparr>"

definition counter_to_group :: "string \<Rightarrow> (string \<times> nat) list \<Rightarrow> facet_group list" where
  "counter_to_group name counts =
     (if counts = [] then []
      else [\<lparr>fg_name = name, fg_buckets = map bucket_of (sort_key (\<lambda>kv. - int (snd kv)) counts)\<rparr>])"

definition facet_page_type :: "string list \<Rightarrow> string \<Rightarrow> db \<Rightarrow> facet_group list" where
  "facet_page_type article_ids user_id d =
     counter_to_group ''page_type'' (counter (map (page_type_value \<circ> art_page_type) (user_articles article_ids user_id d)))"

definition facet_source_kind :: "string list \<Rightarrow> string \<Rightarrow> db \<Rightarrow> facet_group list" where
  "facet_source_kind article_ids user_id d =
     counter_to_group ''source_kind'' (counter (map (source_type_value \<circ> src_source_type)
       (select (\<lambda>x. src_id x \<in> as_source_id ` set (select (\<lambda>l. as_article_id l \<in> set article_ids) (article_sources d)) \<and>
                 src_user_id x = user_id) (sources d))))"

definition facet_concept :: "string list \<Rightarrow> db \<Rightarrow> facet_group list" where
  "facet_concept article_ids d =
     counter_to_group ''concept'' (counter (map ac_concept_name (select (\<lambda>l. ac_article_id l \<in> set article_ids) (article_concepts d))))"

definition facet_tag :: "string list \<Rightarrow> string \<Rightarrow> db \<Rightarrow> facet_group list" where
  "facet_tag article_ids user_id d =
     counter_to_group ''tag'' (counter (concat (map (\<lambda>t.
       map (\<lambda>_. tag_name t) (select (\<lambda>l. at_tag_id l = tag_id t \<and> at_article_id l \<in> set article_ids) (article_tags d)))
       (select (\<lambda>t. tag_user_id t = user_id) (tags d)))))"

definition counted_buckets :: "string \<Rightarrow> (string \<times> nat) list \<Rightarrow> facet_group list" where
  "counted_buckets name kvs = [\<lparr>fg_name = name, fg_buckets = map bucket_of (filter (\<lambda>kv. 0 < snd kv) kvs)\<rparr>]"

definition facet_date :: "datetime \<Rightarrow> string list \<Rightarrow> string \<Rightarrow> db \<Rightarrow> facet_group list" where
  "facet_date now article_ids user_id d =
     (let rows = map art_updated_at (user_articles article_ids user_id d);
          since = (\<lambda>days. length (filter (\<lambda>updated. now - days * day_us \<le> updated) rows))
      in counted_buckets ''date'' [(''7d'', since 7), (''30d'', since 30), (''365d'', since 365)])"

definition facet_staleness :: "datetime \<Rightarrow> rat \<Rightarrow> string list \<Rightarrow> string \<Rightarrow> db \<Rightarrow> facet_group list" where
  "facet_staleness now decay_rate article_ids user_id d =
     (let bucket = (\<lambda>a. let score = compute_article_staleness now decay_rate a
                       in if score < fl (3 / 10) then ''low'' else if score \<le> fl (7 / 10) then ''medium'' else ''high'');
          rows = map bucket (user_articles article_ids user_id d)
      in counted_buckets ''staleness'' (map (\<lambda>k. (k, count_list rows k)) [''low'', ''medium'', ''high'']))"

definition compute_facets :: "datetime \<Rightarrow> rat \<Rightarrow> string list \<Rightarrow> string \<Rightarrow> db \<Rightarrow> facet_group list" where
  "compute_facets now decay_rate article_ids user_id d =
     facet_page_type article_ids user_id d @ facet_source_kind article_ids user_id d @ facet_concept article_ids d @
     facet_tag article_ids user_id d @ facet_date now article_ids user_id d @ facet_staleness now decay_rate article_ids user_id d"

definition get_facets :: "search_env \<Rightarrow> datetime \<Rightarrow> string \<Rightarrow> string \<Rightarrow> db \<Rightarrow> fts_state \<Rightarrow> facet_group list \<times> nat" where
  "get_facets e now query user_id d s =
     (let fts_response = search_articles e query user_id (se_max_candidates e) 0 d s in
      if rs_results fts_response = [] then ([], 0)
      else (let article_ids = map fr_article_id (rs_results fts_response)
            in (compute_facets now (se_decay_rate e) article_ids user_id d, length article_ids)))"

section \<open>The index table\<close>

lemma rowid_range: "0 \<le> article_id_to_rowid md5 i \<and> article_id_to_rowid md5 i < 2 ^ 63"
proof -
  have "article_id_to_rowid md5 i = from_bytes_big (take 8 (md5 i)) AND mask 63" by (simp add: article_id_to_rowid_def mask_eq_exp_minus_1)
  then have "article_id_to_rowid md5 i = take_bit 63 (from_bytes_big (take 8 (md5 i)))" by (simp only: take_bit_eq_mask)
  then show ?thesis using take_bit_int_less_exp [of 63 "from_bytes_big (take 8 (md5 i))"] by simp
qed

definition fts_entry :: "(string \<Rightarrow> nat list) \<Rightarrow> string \<Rightarrow> fts_state \<Rightarrow> (string \<times> string) option" where
  "fts_entry md5 i s = map_option (\<lambda>r. (fts_title r, fts_content r)) (find (\<lambda>r. fts_rowid r = article_id_to_rowid md5 i) (fts_table s))"

lemma find_delete_other: "k \<noteq> k' \<Longrightarrow> find (\<lambda>r. f r = k') (delete_where (\<lambda>r. f r = k) rows) = find (\<lambda>r. f r = k') rows"
  by (induction rows) (auto simp: delete_where_def)

lemma find_delete_same: "find (\<lambda>r. f r = k) (delete_where (\<lambda>r. f r = k) rows) = None"
  by (induction rows) (auto simp: delete_where_def)

lemma find_append: "find p (xs @ ys) = (case find p xs of None \<Rightarrow> find p ys | Some x \<Rightarrow> Some x)"
  by (induction xs) auto

lemma index_article_ok:
  "fts_ready s \<Longrightarrow> index_article md5 False i title content s =
     ok (s\<lparr>fts_table := delete_where (\<lambda>r. fts_rowid r = article_id_to_rowid md5 i) (fts_table s) @
        [\<lparr>fts_rowid = article_id_to_rowid md5 i, fts_title = title, fts_content = content\<rparr>]\<rparr>)"
  by (auto simp: index_article_def insert_fts_def Let_def)

lemma index_article_entry:
  assumes "fts_ready s" and "index_article md5 False i title content s = ok s'"
  shows "fts_ready s'" and "fts_entry md5 i s' = Some (title, content)"
    and "article_id_to_rowid md5 j \<noteq> article_id_to_rowid md5 i \<Longrightarrow> fts_entry md5 j s' = fts_entry md5 j s"
  using assms by (auto simp: index_article_ok fts_entry_def find_append find_delete_other find_delete_same split: option.splits)

lemma remove_article_entry:
  assumes "fts_ready s"
  shows "fts_ready (remove_article md5 False i s)" and "fts_entry md5 i (remove_article md5 False i s) = None"
    and "article_id_to_rowid md5 j \<noteq> article_id_to_rowid md5 i \<Longrightarrow> fts_entry md5 j (remove_article md5 False i s) = fts_entry md5 j s"
  using assms by (auto simp: remove_article_def fts_entry_def find_delete_other find_delete_same)

text \<open>A rebuild on a wiki without articles returns before it clears the table: entries of deleted articles stay.\<close>

lemma rebuild_keeps_stale_rows: "articles d = [] \<Longrightarrow> rebuild_fts_index md5 False d s = ok (s, 0)"
  by (simp add: rebuild_fts_index_def)

section \<open>Sanitized queries\<close>

lemma concat_filter_map: "concat (filter (\<lambda>w. w \<noteq> []) (map (filter p) ws)) = filter p (concat ws)"
  by (simp add: concat_filter_nonempty filter_concat)

lemma cleaned_words:
  assumes "w \<in> set (filter (\<lambda>w. w \<noteq> []) (map (filter p) (py_split q)))"
  shows "w \<noteq> []" and "c \<in> set w \<Longrightarrow> p c \<and> \<not> is_space c"
  using assms py_split_words by auto

lemma join_Nil_iff: "(\<And>w. f w \<noteq> []) \<Longrightarrow> py_join sep (map f ws) = [] \<longleftrightarrow> ws = []"
  by (cases ws; cases "tl ws") auto

text \<open>
  C16. Whatever the user types, the expression handed to FTS5 is a sequence of quoted phrases, each followed by the
  prefix star and separated by blanks, and no phrase contains a quote or white space; the expression for Postgres is a
  conjunction of prefix words of word characters and hyphens. So no operator of either query language comes
  from the input. No other character of the input is lost, and the query is empty exactly if nothing remains.
\<close>

theorem sanitized_queries_safe:
  "\<exists>ws vs.
     sanitize_fts5_query query = py_join '' '' (map (\<lambda>w. [CHR 0x22] @ w @ [CHR 0x22] @ ''*'') ws) \<and>
     list_all (\<lambda>w. w \<noteq> [] \<and> list_all (\<lambda>c. c \<noteq> CHR 0x22 \<and> \<not> is_space c) w) ws \<and>
     concat ws = filter (\<lambda>c. c \<noteq> CHR 0x22) (visible query) \<and> (sanitize_fts5_query query = [] \<longleftrightarrow> ws = []) \<and>
     sanitize_postgres_query query = py_join '' & '' (map (\<lambda>v. v @ '':*'') vs) \<and>
     list_all (\<lambda>v. v \<noteq> [] \<and> list_all (\<lambda>c. is_word c \<or> c = CHR ''-'') v) vs \<and>
     concat vs = filter (\<lambda>c. is_word c \<or> c = CHR ''-'') (visible query) \<and> (sanitize_postgres_query query = [] \<longleftrightarrow> vs = [])"
proof (intro exI conjI)
  let ?ws = "\<lambda>p. filter (\<lambda>w. w \<noteq> []) (map (filter p) (py_split (py_strip query)))"
  show "sanitize_fts5_query query = py_join '' '' (map (\<lambda>w. [CHR 0x22] @ w @ [CHR 0x22] @ ''*'') (?ws (\<lambda>c. c \<noteq> CHR 0x22)))"
    by (simp add: sanitize_fts5_query_def Let_def)
  show "sanitize_postgres_query query = py_join '' & '' (map (\<lambda>v. v @ '':*'') (?ws (\<lambda>c. is_word c \<or> c = CHR ''-'')))"
    by (simp add: sanitize_postgres_query_def Let_def)
  show "concat (?ws (\<lambda>c. c \<noteq> CHR 0x22)) = filter (\<lambda>c. c \<noteq> CHR 0x22) (visible query)"
    and "concat (?ws (\<lambda>c. is_word c \<or> c = CHR ''-'')) = filter (\<lambda>c. is_word c \<or> c = CHR ''-'') (visible query)"
    unfolding concat_filter_map concat_py_split visible_strip by (rule refl)+
  show "list_all (\<lambda>w. w \<noteq> [] \<and> list_all (\<lambda>c. c \<noteq> CHR 0x22 \<and> \<not> is_space c) w) (?ws (\<lambda>c. c \<noteq> CHR 0x22))"
    and "list_all (\<lambda>v. v \<noteq> [] \<and> list_all (\<lambda>c. is_word c \<or> c = CHR ''-'') v) (?ws (\<lambda>c. is_word c \<or> c = CHR ''-''))"
    unfolding list_all_iff using cleaned_words by fast+
  show "(sanitize_fts5_query query = []) = (?ws (\<lambda>c. c \<noteq> CHR 0x22) = [])"
    unfolding sanitize_fts5_query_def Let_def by (rule join_Nil_iff) simp
  show "(sanitize_postgres_query query = []) = (?ws (\<lambda>c. is_word c \<or> c = CHR ''-'') = [])"
    unfolding sanitize_postgres_query_def Let_def by (rule join_Nil_iff) simp
qed

section \<open>Candidates\<close>

lemma distinct_sort_key_map: "distinct (map f (sort_key k xs)) \<longleftrightarrow> distinct (map f xs)"
  by (simp add: distinct_map)

lemma distinct_map_take_drop: "distinct (map f xs) \<Longrightarrow> distinct (map f (take n (drop m xs)))"
  by (simp add: take_map [symmetric] drop_map [symmetric])

definition owned :: "string \<Rightarrow> db \<Rightarrow> fts_item list \<Rightarrow> bool" where
  "owned user_id d items \<longleftrightarrow>
     distinct (map fr_article_id items) \<and>
     (\<forall>r \<in> set items. \<exists>a \<in> set (articles d). art_user_id a = user_id \<and> r = item_of a (fr_snippet r, fr_rank r))"

lemma owned_page:
  assumes "distinct (map art_id (articles d))" and "\<And>a. p a \<Longrightarrow> art_user_id a = user_id"
  shows "owned user_id d (take n (drop m (sort_key k (map (\<lambda>a. item_of a (hit a)) (select p (articles d))))))"
proof -
  let ?items = "map (\<lambda>a. item_of a (hit a)) (select p (articles d))"
  have "map fr_article_id ?items = map art_id (select p (articles d))" by (simp add: item_of_def)
  then have "distinct (map fr_article_id ?items)" using distinct_map_select [OF assms(1)] by metis
  then have "distinct (map fr_article_id (take n (drop m (sort_key k ?items))))"
    by (intro distinct_map_take_drop) (simp only: distinct_sort_key_map)
  moreover have "r \<in> set ?items" if "r \<in> set (take n (drop m (sort_key k ?items)))" for r
    using that by (metis in_set_dropD in_set_takeD set_sort)
  moreover have "\<exists>a \<in> set (articles d). art_user_id a = user_id \<and> r = item_of a (fr_snippet r, fr_rank r)" if items: "r \<in> set ?items" for r
  proof -
    from items obtain a where a: "a \<in> set (articles d)" "p a" "r = item_of a (hit a)" by auto
    moreover from a have "r = item_of a (fr_snippet r, fr_rank r)" by (simp add: item_of_def)
    ultimately show ?thesis using assms(2) by blast
  qed
  ultimately show ?thesis unfolding owned_def by blast
qed

lemma owned_Nil: "owned user_id d []"
  by (simp add: owned_def)

lemma search_articles_owned:
  assumes "distinct (map art_id (articles d))"
  shows "owned user_id d (rs_results (search_articles e query user_id limit offset d s))"
proof -
  note page = owned_page [OF assms, where user_id = user_id]
  have "owned user_id d (rs_results (search_sqlite md5 m query user_id limit offset d s))" for md5 m
    unfolding search_sqlite_def Let_def no_results_def by (simp add: owned_Nil) (intro impI page, blast)
  moreover have "owned user_id d (rs_results (search_postgres m query user_id limit offset d))" for m
    unfolding search_postgres_def Let_def no_results_def by (simp add: owned_Nil) (intro impI page, blast)
  ultimately show ?thesis by (simp add: search_articles_def no_results_def owned_Nil)
qed

section \<open>Filters\<close>

definition active :: "string option \<Rightarrow> (string \<Rightarrow> bool) \<Rightarrow> bool" where
  "active filt p \<longleftrightarrow> (case filt of None \<Rightarrow> True | Some v \<Rightarrow> v = [] \<or> p v)"

text \<open>What an article has to satisfy under the filters of a search.\<close>

definition facet_ok :: "datetime \<Rightarrow> rat \<Rightarrow> string \<Rightarrow> facet_filters \<Rightarrow> db \<Rightarrow> article \<Rightarrow> bool" where
  "facet_ok now decay_rate user_id f d a \<longleftrightarrow>
     active (ff_page_type f) (\<lambda>v. page_type_value (art_page_type a) = v) \<and>
     active (ff_source_kind f) (\<lambda>v. \<exists>l \<in> set (article_sources d). as_article_id l = art_id a \<and>
       (\<exists>x \<in> set (sources d). src_id x = as_source_id l \<and> src_user_id x = user_id \<and> source_type_value (src_source_type x) = v)) \<and>
     active (ff_concept f) (\<lambda>v. \<exists>l \<in> set (article_concepts d). ac_article_id l = art_id a \<and> ac_concept_name l = v) \<and>
     active (ff_tag f) (\<lambda>v. \<exists>l \<in> set (article_tags d). at_article_id l = art_id a \<and> at_tag_id l = v) \<and>
     active (ff_date_range f) (\<lambda>v. case range_days v of None \<Rightarrow> True | Some days \<Rightarrow> now - days * day_us \<le> art_updated_at a) \<and>
     active (ff_staleness f) (\<lambda>v. matches_staleness_bucket v (compute_article_staleness now decay_rate a))"

lemma in_narrow: "i \<in> set (narrow filt hits rem) \<longleftrightarrow> i \<in> set rem \<and> active filt (\<lambda>v. i \<in> set (hits v))"
  by (auto simp: narrow_def active_def split: option.splits)

lemma in_narrow_iff:
  "(i \<in> set rem \<longleftrightarrow> P) \<Longrightarrow> (\<And>v. P \<Longrightarrow> i \<in> set (hits v) \<longleftrightarrow> q v) \<Longrightarrow> i \<in> set (narrow filt hits rem) \<longleftrightarrow> P \<and> active filt q"
  by (auto simp: in_narrow active_def split: option.splits)

lemma in_ids_where:
  assumes "distinct (map art_id (articles d))" and "a \<in> set (articles d)" and "art_user_id a = user_id" and "art_id a \<in> set ids"
  shows "art_id a \<in> set (ids_where p (user_articles ids user_id d)) \<longleftrightarrow> p a"
proof
  assume "art_id a \<in> set (ids_where p (user_articles ids user_id d))"
  then obtain b where "b \<in> set (articles d)" "art_id b = art_id a" "p b" by (auto simp: ids_where_def user_articles_def)
  with assms(1, 2) show "p a" by (metis distinct_map inj_onD)
qed (use assms in \<open>auto simp: ids_where_def user_articles_def\<close>)

lemma apply_facet_filters_iff:
  assumes "distinct (map art_id (articles d))" and "a \<in> set (articles d)" and "art_user_id a = user_id" and "art_id a \<in> set ids"
  shows "art_id a \<in> set (apply_facet_filters now decay_rate ids user_id f d) \<longleftrightarrow> facet_ok now decay_rate user_id f d a"
proof -
  note own = in_ids_where [OF assms(1, 2, 3)]
  define r1 where "r1 = narrow (ff_page_type f) (\<lambda>v. ids_where (\<lambda>a. page_type_value (art_page_type a) = v) (user_articles ids user_id d)) ids"
  define r2 where "r2 = narrow (ff_source_kind f) (\<lambda>v. map as_article_id (select (\<lambda>l. as_article_id l \<in> set ids \<and>
                 as_source_id l \<in> src_id ` set (select (\<lambda>x. src_user_id x = user_id \<and> source_type_value (src_source_type x) = v) (sources d)))
                 (article_sources d))) r1"
  define r3 where "r3 = narrow (ff_concept f) (\<lambda>v. map ac_article_id (select (\<lambda>l. ac_article_id l \<in> set ids \<and> ac_concept_name l = v)
                 (article_concepts d))) r2"
  define r4 where "r4 = narrow (ff_tag f) (\<lambda>v. map at_article_id (select (\<lambda>l. at_article_id l \<in> set ids \<and> at_tag_id l = v)
                 (article_tags d))) r3"
  define r5 where "r5 = narrow (ff_date_range f) (\<lambda>v. case range_days v of None \<Rightarrow> r4
                 | Some days \<Rightarrow> ids_where (\<lambda>a. now - days * day_us \<le> art_updated_at a) (user_articles ids user_id d)) r4"
  have s1: "art_id a \<in> set r1 \<longleftrightarrow> True \<and> active (ff_page_type f) (\<lambda>v. page_type_value (art_page_type a) = v)"
    unfolding r1_def by (rule in_narrow_iff) (simp_all add: assms(4) own)
  have s2: "art_id a \<in> set r2 \<longleftrightarrow> (art_id a \<in> set r1) \<and> active (ff_source_kind f) (\<lambda>v. \<exists>l \<in> set (article_sources d). as_article_id l = art_id a \<and>
       (\<exists>x \<in> set (sources d). src_id x = as_source_id l \<and> src_user_id x = user_id \<and> source_type_value (src_source_type x) = v))"
    unfolding r2_def by (rule in_narrow_iff [OF refl]) (use assms(4) in \<open>auto simp: image_iff\<close>; metis)
  have s3: "art_id a \<in> set r3 \<longleftrightarrow> (art_id a \<in> set r2) \<and>
      active (ff_concept f) (\<lambda>v. \<exists>l \<in> set (article_concepts d). ac_article_id l = art_id a \<and> ac_concept_name l = v)"
    unfolding r3_def by (rule in_narrow_iff [OF refl]) (use assms(4) in \<open>force simp: image_iff\<close>)
  have s4: "art_id a \<in> set r4 \<longleftrightarrow> (art_id a \<in> set r3) \<and>
      active (ff_tag f) (\<lambda>v. \<exists>l \<in> set (article_tags d). at_article_id l = art_id a \<and> at_tag_id l = v)"
    unfolding r4_def by (rule in_narrow_iff [OF refl]) (use assms(4) in \<open>force simp: image_iff\<close>)
  have s5: "art_id a \<in> set r5 \<longleftrightarrow> (art_id a \<in> set r4) \<and>
      active (ff_date_range f) (\<lambda>v. case range_days v of None \<Rightarrow> True | Some days \<Rightarrow> now - days * day_us \<le> art_updated_at a)"
    unfolding r5_def by (rule in_narrow_iff [OF refl]) (simp add: own [OF assms(4)] split: option.split)
  have "art_id a \<in> set (narrow (ff_staleness f) (\<lambda>v. ids_where (\<lambda>a. matches_staleness_bucket v (compute_article_staleness now decay_rate a))
           (user_articles r5 user_id d)) r5) \<longleftrightarrow> (art_id a \<in> set r5) \<and>
      active (ff_staleness f) (\<lambda>v. matches_staleness_bucket v (compute_article_staleness now decay_rate a))"
    by (rule in_narrow_iff [OF refl]) (simp add: own)
  then show ?thesis
    unfolding apply_facet_filters_def Let_def r1_def [symmetric] r2_def [symmetric] r3_def [symmetric] r4_def [symmetric] r5_def [symmetric]
      facet_ok_def s5 s4 s3 s2 s1 by (simp only: simp_thms conj_assoc)
qed

section \<open>Searching\<close>

definition keeps :: "datetime \<Rightarrow> rat \<Rightarrow> string \<Rightarrow> facet_filters \<Rightarrow> db \<Rightarrow> string \<Rightarrow> bool" where
  "keeps now decay_rate user_id f d i \<longleftrightarrow>
     (\<exists>a \<in> set (articles d). art_id a = i \<and> art_user_id a = user_id \<and> facet_ok now decay_rate user_id f d a)"

definition updated :: "db \<Rightarrow> string \<Rightarrow> datetime" where
  "updated d i = art_updated_at (the (get_by art_id i (articles d)))"

lemma owned_article:
  assumes "owned user_id d items" and "r \<in> set items"
  obtains a where "a \<in> set (articles d)" and "art_id a = fr_article_id r" and "art_user_id a = user_id"
  using assms unfolding owned_def by (metis fts_item.select_convs(1) item_of_def)

lemma filtered_ids_iff:
  assumes "distinct (map art_id (articles d))" and "owned user_id d items" and "r \<in> set items"
  shows "fr_article_id r \<in> set (apply_facet_filters now rate (map fr_article_id items) user_id f d) \<longleftrightarrow>
    keeps now rate user_id f d (fr_article_id r)"
proof -
  from owned_article [OF assms(2, 3)] obtain a where a: "a \<in> set (articles d)" "art_id a = fr_article_id r" "art_user_id a = user_id" .
  have "art_id a \<in> set (map fr_article_id items)" using a(2) assms(3) by simp
  from apply_facet_filters_iff [OF assms(1) a(1, 3) this] have
    "fr_article_id r \<in> set (apply_facet_filters now rate (map fr_article_id items) user_id f d) \<longleftrightarrow> facet_ok now rate user_id f d a"
    by (simp add: a(2))
  moreover have "keeps now rate user_id f d (fr_article_id r) \<longleftrightarrow> facet_ok now rate user_id f d a"
  proof
    assume "keeps now rate user_id f d (fr_article_id r)"
    then obtain b where "b \<in> set (articles d)" "art_id b = art_id a" "facet_ok now rate user_id f d b" by (auto simp: keeps_def a(2))
    with assms(1) a(1) show "facet_ok now rate user_id f d a" by (metis distinct_map inj_onD)
  qed (use a in \<open>auto simp: keeps_def\<close>)
  ultimately show ?thesis by simp
qed

lemma article_date_updated:
  assumes "distinct (map art_id (articles d))" and "i \<in> set ids" and "i \<in> art_id ` set (articles d)"
  shows "article_date now ids d i = updated d i"
proof -
  let ?rows = "map (\<lambda>a. (art_id a, art_updated_at a)) (select (\<lambda>a. art_id a \<in> set ids) (articles d))"
  from assms(3) obtain a where a: "a \<in> set (articles d)" "art_id a = i" by auto
  have "map fst ?rows = map art_id (select (\<lambda>a. art_id a \<in> set ids) (articles d))" by simp
  then have "distinct (map fst (rev ?rows))" using distinct_map_select [OF assms(1)] by (simp only: rev_map [symmetric] distinct_rev)
  moreover have "(i, art_updated_at a) \<in> set (rev ?rows)" using a assms(2) by force
  ultimately have "map_of (rev ?rows) i = Some (art_updated_at a)" by (rule map_of_is_SomeI)
  moreover have "updated d i = art_updated_at a" using get_by_distinct [OF assms(1) a(1)] a(2) by (simp add: updated_def)
  ultimately show ?thesis by (simp add: article_date_def)
qed

lemma owned_filter: "owned user_id d items \<Longrightarrow> owned user_id d (filter p items)"
  by (auto simp: owned_def distinct_map_filter)

lemma owned_sort: "owned user_id d items \<Longrightarrow> owned user_id d (sort_key k items)"
  by (simp add: owned_def distinct_sort_key_map)


section \<open>Counts\<close>

lemma count_candidates:
  assumes "distinct (map art_id (articles d))" and "owned user_id d items"
  shows "length (filter (\<lambda>r. keeps now rate user_id f d (fr_article_id r)) items) =
    length (filter (facet_ok now rate user_id f d) (user_articles (map fr_article_id items) user_id d))"
proof -
  let ?rows = "filter (facet_ok now rate user_id f d) (user_articles (map fr_article_id items) user_id d)"
  let ?kept = "filter (\<lambda>r. keeps now rate user_id f d (fr_article_id r)) items"
  have "distinct (map fr_article_id ?kept)" using assms(2) by (simp add: owned_def distinct_map_filter)
  moreover have "distinct (map art_id ?rows)"
    unfolding user_articles_def by (intro distinct_map_filter distinct_map_select assms(1))
  moreover have "set (map fr_article_id ?kept) = set (map art_id ?rows)"
    unfolding keeps_def user_articles_def by (auto intro!: rev_image_eqI)
  ultimately show ?thesis by (rule same_keys_length)
qed

lemma search_total:
  assumes "distinct (map art_id (articles d))"
  shows "rs_total (search e now query user_id limit offset f sort_by d s) =
    length (filter (facet_ok now (se_decay_rate e) user_id f d)
      (user_articles (map fr_article_id (rs_results (search_articles e query user_id (se_max_candidates e) 0 d s))) user_id d))"
proof -
  let ?C = "rs_results (search_articles e query user_id (se_max_candidates e) 0 d s)"
  have owned: "owned user_id d ?C" by (rule search_articles_owned [OF assms])
  have "filter (\<lambda>r. fr_article_id r \<in> set (apply_facet_filters now (se_decay_rate e) (map fr_article_id ?C) user_id f d)) ?C =
    filter (\<lambda>r. keeps now (se_decay_rate e) user_id f d (fr_article_id r)) ?C"
    by (rule filter_cong [OF refl filtered_ids_iff [OF assms owned]])
  then have "rs_total (search e now query user_id limit offset f sort_by d s) =
      length (filter (\<lambda>r. keeps now (se_decay_rate e) user_id f d (fr_article_id r)) ?C)"
    by (simp add: search_def Let_def no_results_def)
  with count_candidates [OF assms owned] show ?thesis by simp
qed

definition filter_for :: "string \<Rightarrow> string \<Rightarrow> facet_filters" where
  "filter_for name v =
     (if name = ''page_type'' then no_filters\<lparr>ff_page_type := Some v\<rparr>
      else if name = ''concept'' then no_filters\<lparr>ff_concept := Some v\<rparr>
      else if name = ''date'' then no_filters\<lparr>ff_date_range := Some v\<rparr>
      else no_filters\<lparr>ff_staleness := Some v\<rparr>)"

lemma active_simps: "active None p" "active (Some v) p \<longleftrightarrow> v = [] \<or> p v"
  by (simp_all add: active_def)

lemmas facet_simps = filter_for_def facet_ok_def [abs_def] no_filters_def active_simps

lemma counter_group:
  assumes "g \<in> set (counter_to_group name (counter xs))" and "b \<in> set (fg_buckets g)"
  shows "fg_name g = name \<and> fb_count b = length (filter (\<lambda>x. x = fb_value b) xs)"
proof -
  have "count_list xs k = length (filter (\<lambda>x. x = k) xs)" for k by (induction xs) auto
  with assms show ?thesis by (auto simp: counter_to_group_def counter_def bucket_of_def split: if_splits)
qed

lemma counted_group:
  assumes "g \<in> set (counted_buckets name kvs)" and "b \<in> set (fg_buckets g)"
  shows "fg_name g = name \<and> (fb_value b, fb_count b) \<in> set kvs"
  using assms by (auto simp: counted_buckets_def bucket_of_def)

lemma page_type_count:
  assumes "g \<in> set (facet_page_type ids u d)" and "b \<in> set (fg_buckets g)" and "fb_value b \<noteq> []"
  shows "fg_name g = ''page_type'' \<and>
    fb_count b = length (filter (facet_ok now rate u (filter_for ''page_type'' (fb_value b)) d) (user_articles ids u d))"
  using counter_group [OF assms(1) [unfolded facet_page_type_def] assms(2)] assms(3) by (simp add: comp_def facet_simps)

lemma concept_count:
  assumes "distinct (map (\<lambda>l. (ac_article_id l, ac_concept_name l)) (article_concepts d))" and "distinct (map art_id (articles d))"
    and own: "\<And>i. i \<in> set ids \<Longrightarrow> \<exists>a \<in> set (articles d). art_id a = i \<and> art_user_id a = u"
    and "g \<in> set (facet_concept ids d)" and "b \<in> set (fg_buckets g)" and "fb_value b \<noteq> []"
  shows "fg_name g = ''concept'' \<and>
    fb_count b = length (filter (facet_ok now rate u (filter_for ''concept'' (fb_value b)) d) (user_articles ids u d))"
proof -
  let ?v = "fb_value b"
  let ?rows = "filter (\<lambda>l. ac_concept_name l = ?v) (select (\<lambda>l. ac_article_id l \<in> set ids) (article_concepts d))"
  let ?arts = "filter (facet_ok now rate u (filter_for ''concept'' ?v) d) (user_articles ids u d)"
  have d1: "distinct (map ac_article_id ?rows)"
    using distinct_map_filter [OF assms(1), of "\<lambda>l. ac_concept_name l = ?v \<and> ac_article_id l \<in> set ids"]
    using assms(1) by (auto simp: select_def distinct_map inj_on_def)
  have d2: "distinct (map art_id ?arts)" unfolding user_articles_def by (intro distinct_map_filter distinct_map_select assms(2))
  have "set (map ac_article_id ?rows) = set (map art_id ?arts)"
  proof (intro set_eqI iffI)
    fix i assume "i \<in> set (map ac_article_id ?rows)"
    then obtain l where l: "l \<in> set (article_concepts d)" "ac_article_id l = i" "ac_concept_name l = ?v" "i \<in> set ids" by auto
    from own [OF l(4)] obtain a where a: "a \<in> set (articles d)" "art_id a = i" "art_user_id a = u" by blast
    have "facet_ok now rate u (filter_for ''concept'' ?v) d a" using l(1, 2, 3) a(2) by (auto simp: facet_simps)
    with a l(4) show "i \<in> set (map art_id ?arts)" by (auto simp: user_articles_def)
  next
    fix i assume "i \<in> set (map art_id ?arts)"
    then obtain a where "art_id a = i" "i \<in> set ids" "facet_ok now rate u (filter_for ''concept'' ?v) d a" by (auto simp: user_articles_def)
    moreover from this obtain l where "l \<in> set (article_concepts d)" "ac_article_id l = art_id a" "ac_concept_name l = ?v"
      using assms(6) by (auto simp: facet_simps)
    ultimately have r: "l \<in> set ?rows" and i: "i = ac_article_id l" by auto
    show "i \<in> set (map ac_article_id ?rows)" unfolding set_map i by (rule imageI [OF r])
  qed
  then have "length ?rows = length ?arts" by (rule same_keys_length [OF d1 d2])
  with counter_group [OF assms(4) [unfolded facet_concept_def] assms(5)] show ?thesis by (simp add: comp_def)
qed

lemma date_count:
  assumes "g \<in> set (facet_date now ids u d)" and "b \<in> set (fg_buckets g)"
  shows "fg_name g = ''date'' \<and>
    fb_count b = length (filter (facet_ok now rate u (filter_for ''date'' (fb_value b)) d) (user_articles ids u d))"
  using counted_group [OF assms(1) [unfolded facet_date_def Let_def] assms(2)]
  by (auto simp: comp_def facet_simps range_days_def)

lemma staleness_count:
  assumes "g \<in> set (facet_staleness now rate ids u d)" and "b \<in> set (fg_buckets g)"
  shows "fg_name g = ''staleness'' \<and>
    fb_count b = length (filter (facet_ok now rate u (filter_for ''staleness'' (fb_value b)) d) (user_articles ids u d))"
proof -
  define bucket where "bucket a = (let score = compute_article_staleness now rate a
     in if score < fl (3 / 10) then ''low'' else if score \<le> fl (7 / 10) then ''medium'' else ''high'')" for a
  have le: "fl (3 / 10) \<le> fl (7 / 10)" by (rule fl_mono) simp
  have matches: "bucket a = k \<longleftrightarrow> matches_staleness_bucket k (compute_article_staleness now rate a)" if "k \<in> {''low'', ''medium'', ''high''}" for a k
    using that le by (auto simp: bucket_def Let_def matches_staleness_bucket_def)
  have count: "count_list xs k = length (filter (\<lambda>x. x = k) xs)" for xs :: "string list" and k by (induction xs) auto
  from counted_group [OF assms(1) [unfolded facet_staleness_def Let_def] assms(2)] have
    b: "fg_name g = ''staleness''" "fb_value b \<in> {''low'', ''medium'', ''high''}"
      "fb_count b = count_list (map bucket (user_articles ids u d)) (fb_value b)"
    by (auto simp: bucket_def [abs_def] Let_def)
  have "facet_ok now rate u (filter_for ''staleness'' (fb_value b)) d a \<longleftrightarrow> bucket a = fb_value b" for a
    using b(2) by (auto simp: facet_simps matches)
  then have "facet_ok now rate u (filter_for ''staleness'' (fb_value b)) d = (\<lambda>a. bucket a = fb_value b)" by (rule ext)
  with b(1, 3) show ?thesis by (simp add: count comp_def)
qed

text \<open>
  The facet counts are the totals of the searches they offer: for every bucket of the page types, concepts,
  dates and staleness levels that \<open>get_facets\<close> reports for a query, the search with that one filter finds that
  many articles, in any order and on any page.
\<close>

lemma facet_counts_match_filters:
  assumes "distinct (map art_id (articles d))"
    and "distinct (map (\<lambda>l. (ac_article_id l, ac_concept_name l)) (article_concepts d))"
    and "g \<in> set (fst (get_facets e now query user_id d s))" and "b \<in> set (fg_buckets g)" and "fb_value b \<noteq> []"
    and "fg_name g \<in> {''page_type'', ''concept'', ''date'', ''staleness''}"
  shows "rs_total (search e now query user_id limit offset (filter_for (fg_name g) (fb_value b)) sort_by d s) = fb_count b"
proof -
  define C where "C = rs_results (search_articles e query user_id (se_max_candidates e) 0 d s)"
  define ids where "ids = map fr_article_id C"
  have owned: "owned user_id d C" unfolding C_def by (rule search_articles_owned [OF assms(1)])
  have own: "\<exists>a \<in> set (articles d). art_id a = i \<and> art_user_id a = user_id" if "i \<in> set ids" for i
    using that owned_article [OF owned] unfolding ids_def by (metis (no_types, opaque_lifting) imageE set_map)
  have "g \<in> set (compute_facets now (se_decay_rate e) ids user_id d)"
    using assms(3) by (simp add: get_facets_def C_def [symmetric] ids_def Let_def split: if_splits)
  then consider "g \<in> set (facet_page_type ids user_id d)" | "g \<in> set (facet_source_kind ids user_id d)" | "g \<in> set (facet_concept ids d)"
    | "g \<in> set (facet_tag ids user_id d)" | "g \<in> set (facet_date now ids user_id d)"
    | "g \<in> set (facet_staleness now (se_decay_rate e) ids user_id d)"
    by (auto simp: compute_facets_def)
  then have "fb_count b = length (filter (facet_ok now (se_decay_rate e) user_id (filter_for (fg_name g) (fb_value b)) d) (user_articles ids user_id d))"
  proof cases
    case 1
    from page_type_count [OF this assms(4, 5)] show ?thesis by simp
  next
    case 2
    with counter_group [OF this [unfolded facet_source_kind_def] assms(4)] assms(6) show ?thesis by simp
  next
    case 3
    from concept_count [OF assms(2, 1) own this assms(4, 5)] show ?thesis by simp
  next
    case 4
    with counter_group [OF this [unfolded facet_tag_def] assms(4)] assms(6) show ?thesis by simp
  next
    case 5
    from date_count [OF this assms(4)] show ?thesis by simp
  next
    case 6
    from staleness_count [OF this assms(4)] show ?thesis by simp
  qed
  with search_total [OF assms(1)] show ?thesis by (simp add: C_def ids_def)
qed

section \<open>Examples\<close>

text \<open>
  Two articles of one user, with concept, tag and sources; the engine finds every row of the table. The digest of
  an id is the codes of its characters.
\<close>

definition ex_env :: search_env where
  "ex_env = \<lparr>se_md5 = map cp, se_fts = (\<lambda>q rows. map (\<lambda>r. (fts_rowid r, fts_title r, of_int (fts_rowid r))) rows), se_ts = (\<lambda>q a. None),
     se_postgres = False, se_max_candidates = 1000, se_decay_rate = 1 / 100\<rparr>"

definition ex_source :: "string \<Rightarrow> source" where
  "ex_source i = \<lparr>src_id = i, src_user_id = ''u'', src_source_type = S_PDF, src_source_url = None, src_title = None,
     src_author = None, src_published_date = None, src_status = COMPILED, src_ingested_at = 0, src_compiled_at = None,
     src_token_count = None, src_error_message = None, src_file_path = None, src_clean_text = None, src_content_hash = None\<rparr>"

definition ex_wiki :: db where
  "ex_wiki = empty_db\<lparr>
     articles := [new_article ''a'' ''u'' ''s-a'' ''A'' ''a.md'' 5, new_article ''b'' ''u'' ''s-b'' ''B'' ''b.md'' 9],
     sources := [ex_source ''1'', ex_source ''2''],
     article_sources := [\<lparr>as_article_id = ''a'', as_source_id = ''1''\<rparr>, \<lparr>as_article_id = ''a'', as_source_id = ''2''\<rparr>],
     article_concepts := [\<lparr>ac_article_id = ''a'', ac_concept_name = ''ml''\<rparr>, \<lparr>ac_article_id = ''b'', ac_concept_name = ''ml''\<rparr>],
     tags := [\<lparr>tag_id = ''t'', tag_user_id = ''u'', tag_name = ''fav'', tag_color = [], tag_created_at = 0\<rparr>],
     article_tags := [\<lparr>at_id = ''x'', at_article_id = ''a'', at_tag_id = ''t'', at_created_at = 0\<rparr>]\<rparr>"

definition ex_index :: fts_state where
  "ex_index = \<lparr>fts_ready = True, fts_table = [\<lparr>fts_rowid = 97, fts_title = ''A'', fts_content = ''alpha''\<rparr>,
     \<lparr>fts_rowid = 98, fts_title = ''B'', fts_content = ''beta''\<rparr>]\<rparr>"

lemma ex_facets:
  "map (\<lambda>g. (fg_name g, map (\<lambda>b. (fb_value b, fb_count b)) (fg_buckets g))) (fst (get_facets ex_env 10 ''al'' ''u'' ex_wiki ex_index)) =
     [(''page_type'', [(''source'', 2)]), (''source_kind'', [(''pdf'', 2)]), (''concept'', [(''ml'', 2)]), (''tag'', [(''fav'', 1)]),
      (''date'', [(''7d'', 2), (''30d'', 2), (''365d'', 2)]), (''staleness'', [(''high'', 2)])]"
  by code_simp

lemma ex_recent:
  "map fr_article_id (rs_results (search ex_env 10 ''al'' ''u'' 5 0 (no_filters\<lparr>ff_concept := Some ''ml''\<rparr>) (Some ''recency'') ex_wiki ex_index)) = [''b'', ''a'']"
  by code_simp

text \<open>
  Two sources of one article count twice in the facet of source kinds, and the buckets of tags carry names
  while the filter compares ids: the searches they offer find one article and none.
\<close>

lemma source_kind_counts_sources:
  "rs_total (search ex_env 10 ''al'' ''u'' 5 0 (no_filters\<lparr>ff_source_kind := Some ''pdf''\<rparr>) None ex_wiki ex_index) = 1"
  by code_simp

lemma tag_bucket_finds_nothing:
  "rs_total (search ex_env 10 ''al'' ''u'' 5 0 (no_filters\<lparr>ff_tag := Some ''fav''\<rparr>) None ex_wiki ex_index) = 0"
  by code_simp

lemma ex_ids: "distinct (map art_id (articles ex_wiki))" "distinct (map (\<lambda>l. (ac_article_id l, ac_concept_name l)) (article_concepts ex_wiki))"
  by (simp_all add: ex_wiki_def new_article_def)


lemma facet_counts_match_filters_witness:
  "rs_total (search ex_env 10 ''al'' ''u'' 1 1 (filter_for ''concept'' ''ml'') None ex_wiki ex_index) = 2"
proof -
  let ?gs = "fst (get_facets ex_env 10 ''al'' ''u'' ex_wiki ex_index)"
  have "length ?gs = 6" using arg_cong [OF ex_facets, of length] by simp
  have g: "fg_name (?gs ! 2) = ''concept''" "map (\<lambda>b. (fb_value b, fb_count b)) (fg_buckets (?gs ! 2)) = [(''ml'', 2)]"
    using arg_cong [OF ex_facets, of "\<lambda>xs. xs ! 2"] \<open>length ?gs = 6\<close> by simp_all
  then obtain b where b: "b \<in> set (fg_buckets (?gs ! 2))" "fb_value b = ''ml''" "fb_count b = 2" by (cases "fg_buckets (?gs ! 2)") auto
  have "?gs ! 2 \<in> set ?gs" using \<open>length ?gs = 6\<close> by simp
  from facet_counts_match_filters [OF ex_ids this b(1), of 1 1 None] show ?thesis using b g(1) by simp
qed

end
