(* ===== verification/Tags.thy ===== *)
theory Tags
  imports Domain PyStr Json "HOL-Library.Sublist"
begin

text \<open>
  User tags (\<^verbatim>\<open>src/src/wikimind/services/tags.py\<close>) and saved searches (\<^verbatim>\<open>services/saved_searches.py\<close>).
  Ids and creation times are arguments of the creating operations; \<open>loads\<close> is \<open>json.loads\<close>. A set of ids is a list
  without order. \<^verbatim>\<open>ILIKE\<close> is modelled as SQLite runs it: \<^verbatim>\<open>%\<close> and \<^verbatim>\<open>_\<close> are wildcards, letters of ASCII compare without case.
\<close>

section \<open>Rows with an owner\<close>

text \<open>The contract of the private \<open>_get\<dots>\<close> methods: a row by its id, for its owner only.\<close>

locale owned_rows =
  fixes rows :: "db \<Rightarrow> 'r list" and rid :: "'r \<Rightarrow> string" and owner :: "'r \<Rightarrow> string" and lookup :: "string \<Rightarrow> string \<Rightarrow> db \<Rightarrow> 'r result"
  assumes lookup_sound: "lookup i u d = ok r \<Longrightarrow> r \<in> set (rows d) \<and> rid r = i \<and> owner r = u"
    and lookup_complete: "distinct (map rid (rows d)) \<Longrightarrow> r \<in> set (rows d) \<Longrightarrow> lookup (rid r) (owner r) d = ok r"
begin

lemma lookup_iff: "distinct (map rid (rows d)) \<Longrightarrow> lookup i u d = ok r \<longleftrightarrow> r \<in> set (rows d) \<and> rid r = i \<and> owner r = u"
  using lookup_sound lookup_complete by metis

lemma lookup_stranger:
  assumes "distinct (map rid (rows d))" and "r \<in> set (rows d)" and "owner r \<noteq> u"
  shows "\<exists>e. lookup (rid r) u d = raise e"
proof (cases "lookup (rid r) u d")
  case (Inr r')
  from lookup_sound [OF this] have "r' = r" using assms(1, 2) by (metis distinct_map inj_onD)
  with lookup_sound [OF Inr] assms(3) show ?thesis by simp
qed simp

end

section \<open>Tags\<close>

record tag_response =
  tgr_id :: string
  tgr_name :: string
  tgr_color :: string
  tgr_created_at :: datetime

definition to_tag_response :: "tag \<Rightarrow> tag_response" where
  "to_tag_response t = \<lparr>tgr_id = tag_id t, tgr_name = tag_name t, tgr_color = tag_color t, tgr_created_at = tag_created_at t\<rparr>"

definition get_tag :: "string \<Rightarrow> string \<Rightarrow> db \<Rightarrow> tag result" where
  "get_tag tid user_id d =
     bindR (one_or_none (select (\<lambda>t. tag_id t = tid \<and> tag_user_id t = user_id) (tags d))) (\<lambda>found.
       case found of None \<Rightarrow> raise (NotFoundError ''Tag not found'') | Some t \<Rightarrow> ok t)"

definition get_article :: "string \<Rightarrow> string \<Rightarrow> db \<Rightarrow> article result" where
  "get_article article_id user_id d =
     bindR (one_or_none (select (\<lambda>a. art_id a = article_id \<and> art_user_id a = user_id) (articles d))) (\<lambda>found.
       case found of None \<Rightarrow> raise (NotFoundError ''Article not found'') | Some a \<Rightarrow> ok a)"

text \<open>The pair of user and name is unique; the flush raises otherwise.\<close>

definition create_tag :: "datetime \<Rightarrow> string \<Rightarrow> string \<Rightarrow> string \<Rightarrow> string \<Rightarrow> db \<Rightarrow> (db \<times> tag_response) result" where
  "create_tag now fresh_id user_id name color d =
     (if list_ex (\<lambda>t. tag_user_id t = user_id \<and> tag_name t = name) (tags d) then raise (IntegrityError ''uq_tag_user_name'')
      else
        (let t = \<lparr>tag_id = fresh_id, tag_user_id = user_id, tag_name = name, tag_color = color, tag_created_at = now\<rparr>
         in ok (d\<lparr>tags := tags d @ [t]\<rparr>, to_tag_response t)))"

definition list_tags :: "string \<Rightarrow> db \<Rightarrow> tag_response list" where
  "list_tags user_id d = map to_tag_response (sort_key tag_created_at (select (\<lambda>t. tag_user_id t = user_id) (tags d)))"

definition delete_tag :: "string \<Rightarrow> string \<Rightarrow> db \<Rightarrow> db result" where
  "delete_tag tid user_id d =
     bindR (get_tag tid user_id d) (\<lambda>t.
       ok (d\<lparr>article_tags := delete_where (\<lambda>l. at_tag_id l = tag_id t) (article_tags d),
             tags := delete_where (\<lambda>x. tag_id x = tag_id t) (tags d)\<rparr>))"

definition association :: "string \<Rightarrow> string \<Rightarrow> article_tag \<Rightarrow> bool" where
  "association article_id tid l \<longleftrightarrow> at_article_id l = article_id \<and> at_tag_id l = tid"

definition tag_article :: "datetime \<Rightarrow> string \<Rightarrow> string \<Rightarrow> string \<Rightarrow> string \<Rightarrow> db \<Rightarrow> db result" where
  "tag_article now fresh_id article_id tid user_id d =
     bindR (get_tag tid user_id d) (\<lambda>_.
     bindR (get_article article_id user_id d) (\<lambda>_.
     bindR (one_or_none (select (association article_id tid) (article_tags d))) (\<lambda>existing.
       if existing \<noteq> None then ok d
       else ok (d\<lparr>article_tags := article_tags d @
         [\<lparr>at_id = fresh_id, at_article_id = article_id, at_tag_id = tid, at_created_at = now\<rparr>]\<rparr>))))"

definition untag_article :: "string \<Rightarrow> string \<Rightarrow> string \<Rightarrow> db \<Rightarrow> db result" where
  "untag_article article_id tid user_id d =
     bindR (get_tag tid user_id d) (\<lambda>_.
     bindR (one_or_none (select (association article_id tid) (article_tags d))) (\<lambda>found.
       case found of
         None \<Rightarrow> raise (NotFoundError ''Article is not tagged with this tag'')
       | Some l \<Rightarrow> ok (d\<lparr>article_tags := delete_where (\<lambda>x. at_id x = at_id l) (article_tags d)\<rparr>)))"

definition get_articles_by_tag :: "string \<Rightarrow> string \<Rightarrow> db \<Rightarrow> string list result" where
  "get_articles_by_tag tid user_id d =
     bindR (get_tag tid user_id d) (\<lambda>_. ok (map at_article_id (select (\<lambda>l. at_tag_id l = tid) (article_tags d))))"

text \<open>The join of tags and associations of an article, one row per matching pair.\<close>

definition tags_joined :: "string \<Rightarrow> db \<Rightarrow> tag list" where
  "tags_joined article_id d =
     concat (map (\<lambda>t. map (\<lambda>_. t) (select (\<lambda>l. at_tag_id l = tag_id t \<and> at_article_id l = article_id) (article_tags d))) (tags d))"

definition get_tags_for_article :: "string \<Rightarrow> string option \<Rightarrow> db \<Rightarrow> tag_response list result" where
  "get_tags_for_article article_id user_id d =
     bindR (case user_id of None \<Rightarrow> ok () | Some u \<Rightarrow> bindR (get_article article_id u d) (\<lambda>_. ok ())) (\<lambda>_.
       ok (map to_tag_response (tags_joined article_id d)))"

definition get_tags_for_articles :: "string list \<Rightarrow> db \<Rightarrow> (string \<rightharpoonup> tag_response list)" where
  "get_tags_for_articles article_ids d =
     (\<lambda>i. if i \<in> set article_ids then Some (map to_tag_response (tags_joined i d)) else None)"

section \<open>Saved searches\<close>

record saved_search_response =
  ssr_id :: string
  ssr_name :: string
  ssr_query :: string
  ssr_filters_json :: string
  ssr_created_at :: datetime

definition to_response :: "saved_search \<Rightarrow> saved_search_response" where
  "to_response x = \<lparr>ssr_id = ss_id x, ssr_name = ss_name x, ssr_query = ss_query x, ssr_filters_json = ss_filters_json x,
     ssr_created_at = ss_created_at x\<rparr>"

definition create_search :: "datetime \<Rightarrow> string \<Rightarrow> string \<Rightarrow> string \<Rightarrow> string \<Rightarrow> string \<Rightarrow> db \<Rightarrow> db \<times> saved_search_response" where
  "create_search now fresh_id user_id name query filters_json d =
     (let x = \<lparr>ss_id = fresh_id, ss_user_id = user_id, ss_name = name, ss_query = query, ss_filters_json = filters_json, ss_created_at = now\<rparr>
      in (d\<lparr>saved_searches := saved_searches d @ [x]\<rparr>, to_response x))"

definition list_searches :: "string \<Rightarrow> db \<Rightarrow> saved_search_response list" where
  "list_searches user_id d = map to_response (sort_key ss_created_at (select (\<lambda>x. ss_user_id x = user_id) (saved_searches d)))"

definition get_search :: "string \<Rightarrow> string \<Rightarrow> db \<Rightarrow> saved_search result" where
  "get_search search_id user_id d =
     bindR (one_or_none (select (\<lambda>x. ss_id x = search_id \<and> ss_user_id x = user_id) (saved_searches d))) (\<lambda>found.
       case found of None \<Rightarrow> raise (NotFoundError ''Saved search not found'') | Some x \<Rightarrow> ok x)"

definition delete_search :: "string \<Rightarrow> string \<Rightarrow> db \<Rightarrow> db result" where
  "delete_search search_id user_id d =
     bindR (get_search search_id user_id d) (\<lambda>x. ok (d\<lparr>saved_searches := delete_where (\<lambda>y. ss_id y = ss_id x) (saved_searches d)\<rparr>))"

definition ascii_lower :: "string \<Rightarrow> string" where
  "ascii_lower s = map (\<lambda>c. if 65 \<le> cp c \<and> cp c \<le> 90 then char_of (cp c + 32) else c) s"

fun like :: "string \<Rightarrow> string \<Rightarrow> bool" where
  "like [] s = (s = [])"
| "like (p # ps) [] = (p = CHR ''%'' \<and> like ps [])"
| "like (p # ps) (c # cs) =
     (if p = CHR ''%'' then like ps (c # cs) \<or> like (p # ps) cs
      else (p = CHR ''_'' \<or> p = c) \<and> like ps cs)"

definition ilike :: "string \<Rightarrow> string \<Rightarrow> bool" where
  "ilike title pattern = like (ascii_lower pattern) (ascii_lower title)"

text \<open>
  The strings of a list in the filters: iterating a dictionary gives its keys, a null matches no row, and a value
  the driver cannot bind to a text column raises.
\<close>

fun text_params :: "json list \<Rightarrow> string option list result" where
  "text_params [] = ok []"
| "text_params (JStr s # js) = bindR (text_params js) (\<lambda>xs. ok (Some s # xs))"
| "text_params (JNull # js) = bindR (text_params js) (\<lambda>xs. ok (None # xs))"
| "text_params (_ # js) = raise (TypeError ''expected str'')"

definition tag_filter :: "json \<Rightarrow> string option list result" where
  "tag_filter v =
     (case v of
        JList js \<Rightarrow> text_params js
      | JObj kvs \<Rightarrow> ok (map (Some \<circ> fst) kvs)
      | _ \<Rightarrow> raise (TypeError ''in_() accepts a list''))"

definition concept_filter :: "json \<Rightarrow> string option list result" where
  "concept_filter v =
     (case v of
        JList js \<Rightarrow> text_params js
      | JObj kvs \<Rightarrow> ok (map (Some \<circ> fst) kvs)
      | JStr s \<Rightarrow> ok (map (\<lambda>c. Some [c]) s)
      | _ \<Rightarrow> raise (TypeError ''not iterable''))"

definition title_candidates :: "string \<Rightarrow> string \<Rightarrow> db \<Rightarrow> string list" where
  "title_candidates query user_id d =
     map art_id (select (\<lambda>a. art_user_id a = user_id \<and>
       (py_strip query = [] \<or> ilike (art_title a) (''%'' @ py_strip query @ ''%''))) (articles d))"

definition keep_tagged :: "db \<Rightarrow> string list \<Rightarrow> string \<Rightarrow> string list" where
  "keep_tagged d ids tid = filter (\<lambda>i. i \<in> at_article_id ` set (select (\<lambda>l. at_tag_id l = tid) (article_tags d))) ids"

definition keep_concept :: "db \<Rightarrow> string list \<Rightarrow> string option \<Rightarrow> string list" where
  "keep_concept d ids name = filter (\<lambda>i. i \<in> ac_article_id ` set (select (\<lambda>l. Some (ac_concept_name l) = name) (article_concepts d))) ids"

definition execute_search :: "(string \<Rightarrow> json result) \<Rightarrow> string \<Rightarrow> string \<Rightarrow> db \<Rightarrow> (saved_search_response \<times> string list) result" where
  "execute_search loads search_id user_id d =
     bindR (get_search search_id user_id d) (\<lambda>saved.
       let filters = (case loads (ss_filters_json saved) of Inl _ \<Rightarrow> JObj [] | Inr j \<Rightarrow> j) in
       bindR (jget filters ''tags'' (JList [])) (\<lambda>tag_names.
       bindR (jget filters ''concepts'' (JList [])) (\<lambda>concept_names.
         let candidates = title_candidates (ss_query saved) user_id d in
         bindR (if truthy tag_names
                then bindR (tag_filter tag_names) (\<lambda>names.
                  ok (foldl (keep_tagged d) candidates
                        (map tag_id (select (\<lambda>t. tag_user_id t = user_id \<and> Some (tag_name t) \<in> set names) (tags d)))))
                else ok candidates) (\<lambda>tagged.
         bindR (concept_filter concept_names) (\<lambda>names.
           ok (to_response saved, foldl (keep_concept d) tagged names))))))"

section \<open>The lookups\<close>

lemma scoped_lookup_sound:
  assumes "bindR (one_or_none (select p rows)) (case_option (raise e) ok) = ok r"
  shows "r \<in> set rows \<and> p r"
proof (cases "one_or_none (select p rows)")
  case (Inr found)
  with assms obtain r' where "found = Some r'" "r' = r" by (cases found) auto
  with Inr have "select p rows = [r]" by (simp add: one_or_none_ok_Some)
  then have "r \<in> set (select p rows)" by simp
  then show ?thesis by simp
qed (use assms in simp)

lemma select_key_owner:
  assumes "distinct (map f rows)" and "r \<in> set rows"
  shows "select (\<lambda>x. f x = f r \<and> g x = g r) rows = [r]"
proof -
  have "select (\<lambda>x. f x = f r \<and> g x = g r) rows = select (\<lambda>x. g x = g r) (select (\<lambda>x. f x = f r) rows)" by (simp add: select_select)
  also have "select (\<lambda>x. f x = f r) rows = [r]" using select_distinct_key [OF assms(1), of r] assms(2) by simp
  finally show ?thesis by (simp add: select_def)
qed

lemmas lookup_defs = get_tag_def get_article_def get_search_def

interpretation tag_rows: owned_rows tags tag_id tag_user_id get_tag
proof unfold_locales
  show "get_tag i u d = ok r \<Longrightarrow> r \<in> set (tags d) \<and> tag_id r = i \<and> tag_user_id r = u" for i u d r
    unfolding lookup_defs by (drule scoped_lookup_sound) simp
qed (simp add: lookup_defs select_key_owner one_or_none_def)

interpretation article_rows: owned_rows articles art_id art_user_id get_article
proof unfold_locales
  show "get_article i u d = ok r \<Longrightarrow> r \<in> set (articles d) \<and> art_id r = i \<and> art_user_id r = u" for i u d r
    unfolding lookup_defs by (drule scoped_lookup_sound) simp
qed (simp add: lookup_defs select_key_owner one_or_none_def)

interpretation search_rows: owned_rows saved_searches ss_id ss_user_id get_search
proof unfold_locales
  show "get_search i u d = ok r \<Longrightarrow> r \<in> set (saved_searches d) \<and> ss_id r = i \<and> ss_user_id r = u" for i u d r
    unfolding lookup_defs by (drule scoped_lookup_sound) simp
qed (simp add: lookup_defs select_key_owner one_or_none_def)

section \<open>Tagging as a relation\<close>

datatype tag_op = New | Drop string | Tag string string | Untag string string

inductive tag_step :: "db \<Rightarrow> tag_op \<Rightarrow> db \<Rightarrow> bool" where
  create: "create_tag now i u name color d = ok (d', r) \<Longrightarrow> i \<notin> tag_id ` set (tags d) \<Longrightarrow> tag_step d New d'"
| delete: "delete_tag t u d = ok d' \<Longrightarrow> tag_step d (Drop t) d'"
| apply_tag: "tag_article now i a t u d = ok d' \<Longrightarrow> i \<notin> at_id ` set (article_tags d) \<Longrightarrow> tag_step d (Tag a t) d'"
| remove_tag: "untag_article a t u d = ok d' \<Longrightarrow> tag_step d (Untag a t) d'"

inductive tag_run :: "db \<Rightarrow> tag_op list \<Rightarrow> db \<Rightarrow> bool" where
  stop: "tag_run d [] d"
| more: "tag_run d ops d1 \<Longrightarrow> tag_step d1 x d2 \<Longrightarrow> tag_run d (ops @ [x]) d2"

text \<open>The abstract tagging: a relation between articles and tags.\<close>

definition tagging :: "db \<Rightarrow> (string \<times> string) set" where
  "tagging d = (\<lambda>l. (at_article_id l, at_tag_id l)) ` set (article_tags d)"

fun abs_op :: "(string \<times> string) set \<Rightarrow> tag_op \<Rightarrow> (string \<times> string) set" where
  "abs_op R New = R"
| "abs_op R (Drop t) = {(a, x) \<in> R. x \<noteq> t}"
| "abs_op R (Tag a t) = insert (a, t) R"
| "abs_op R (Untag a t) = R - {(a, t)}"

definition tags_ok :: "db \<Rightarrow> bool" where
  "tags_ok d \<longleftrightarrow> distinct (map art_id (articles d)) \<and> distinct (map tag_id (tags d)) \<and>
     distinct (map (\<lambda>t. (tag_user_id t, tag_name t)) (tags d)) \<and> distinct (map at_id (article_tags d)) \<and>
     distinct (map (\<lambda>l. (at_article_id l, at_tag_id l)) (article_tags d)) \<and>
     (\<forall>l \<in> set (article_tags d). \<exists>t \<in> set (tags d). \<exists>a \<in> set (articles d).
        tag_id t = at_tag_id l \<and> art_id a = at_article_id l \<and> tag_user_id t = art_user_id a)"

lemma delete_tagD:
  assumes "delete_tag t u d = ok d'"
  shows "d' = d\<lparr>article_tags := delete_where (\<lambda>l. at_tag_id l = t) (article_tags d), tags := delete_where (\<lambda>x. tag_id x = t) (tags d)\<rparr>"
  using assms tag_rows.lookup_sound [of t u d] by (cases "get_tag t u d") (auto simp: delete_tag_def)

lemma tag_articleD:
  assumes "tag_article now i a t u d = ok d'"
  obtains x y where "get_tag t u d = ok x" and "get_article a u d = ok y" and "(a, t) \<in> tagging d" and "d' = d"
  | x y where "get_tag t u d = ok x" and "get_article a u d = ok y" and "(a, t) \<notin> tagging d"
    and "d' = d\<lparr>article_tags := article_tags d @ [\<lparr>at_id = i, at_article_id = a, at_tag_id = t, at_created_at = now\<rparr>]\<rparr>"
proof -
  obtain x where x: "get_tag t u d = ok x" using assms by (cases "get_tag t u d") (auto simp: tag_article_def)
  obtain y where y: "get_article a u d = ok y" using assms x by (cases "get_article a u d") (auto simp: tag_article_def)
  let ?rows = "select (association a t) (article_tags d)"
  have mem: "(a, t) \<in> tagging d \<longleftrightarrow> ?rows \<noteq> []" by (auto simp: tagging_def select_empty_iff association_def)
  obtain e where e: "one_or_none ?rows = ok e" using assms x y by (cases "one_or_none ?rows") (auto simp: tag_article_def)
  show thesis
  proof (cases e)
    case None
    with e have "?rows = []" by (simp add: one_or_none_ok_None)
    with mem that(2) [OF x y] assms x y e None show ?thesis by (simp add: tag_article_def)
  next
    case (Some l)
    with e have "?rows = [l]" by (simp add: one_or_none_ok_Some)
    with mem that(1) [OF x y] assms x y e Some show ?thesis by (simp add: tag_article_def)
  qed
qed

lemma untag_articleD:
  assumes "untag_article a t u d = ok d'"
  obtains l where "l \<in> set (article_tags d)" and "at_article_id l = a" and "at_tag_id l = t"
    and "d' = d\<lparr>article_tags := delete_where (\<lambda>x. at_id x = at_id l) (article_tags d)\<rparr>"
proof -
  let ?rows = "select (association a t) (article_tags d)"
  obtain x where x: "get_tag t u d = ok x" using assms by (cases "get_tag t u d") (auto simp: untag_article_def)
  obtain e where e: "one_or_none ?rows = ok e" using assms x by (cases "one_or_none ?rows") (auto simp: untag_article_def)
  with assms x obtain l where l: "e = Some l" by (cases e) (auto simp: untag_article_def)
  with e have "?rows = [l]" by (simp add: one_or_none_ok_Some)
  then have "l \<in> set ?rows" by simp
  with that [of l] assms x e l show thesis by (simp add: untag_article_def association_def)
qed

lemma tag_step_refines:
  assumes "tag_step d x d'" and ok: "tags_ok d"
  shows "tags_ok d' \<and> tagging d' = abs_op (tagging d) x"
  using assms(1)
proof cases
  case (create now i u name color r)
  then show ?thesis using ok by (auto simp: create_tag_def tags_ok_def tagging_def list_ex_iff Let_def split: if_splits)
next
  case (delete t u)
  note d' = delete_tagD [OF delete(2)]
  have "tags_ok d'"
    unfolding d' tags_ok_def using ok by (auto simp: tags_ok_def distinct_map_delete) (metis (no_types, lifting))
  moreover have "tagging d' = {(a, x) \<in> tagging d. x \<noteq> t}" by (auto simp: d' tagging_def)
  ultimately show ?thesis by (simp add: delete(1))
next
  case (apply_tag now i a t u)
  from apply_tag(2) show ?thesis
  proof (cases rule: tag_articleD)
    case (1 x y)
    with apply_tag(1) ok show ?thesis by auto
  next
    case (2 x y)
    note rows = tag_rows.lookup_sound [OF 2(1)] article_rows.lookup_sound [OF 2(2)]
    have "tagging d' = insert (a, t) (tagging d)" by (simp add: 2(4) tagging_def)
    moreover have "tags_ok d'" using ok 2(3) apply_tag(3) rows by (auto simp: 2(4) tags_ok_def tagging_def intro!: bexI [of _ x] bexI [of _ y])
    ultimately show ?thesis by (simp add: apply_tag(1))
  qed
next
  case (remove_tag a t u)
  from untag_articleD [OF remove_tag(2)] obtain l where l: "l \<in> set (article_tags d)" "at_article_id l = a" "at_tag_id l = t"
    "d' = d\<lparr>article_tags := delete_where (\<lambda>x. at_id x = at_id l) (article_tags d)\<rparr>" .
  have keys: "distinct (map at_id (article_tags d))" "distinct (map (\<lambda>l. (at_article_id l, at_tag_id l)) (article_tags d))"
    using ok by (simp_all add: tags_ok_def)
  have same: "at_id x = at_id l \<longleftrightarrow> (at_article_id x, at_tag_id x) = (a, t)" if "x \<in> set (article_tags d)" for x
    using distinct_map_eq [OF keys(1) that l(1)] distinct_map_eq [OF keys(2) that l(1)] l(2, 3) by simp
  have "{x \<in> set (article_tags d). at_id x \<noteq> at_id l} = {x \<in> set (article_tags d). (at_article_id x, at_tag_id x) \<noteq> (a, t)}"
    using same by blast
  then have "tagging d' = (\<lambda>x. (at_article_id x, at_tag_id x)) ` {x \<in> set (article_tags d). (at_article_id x, at_tag_id x) \<noteq> (a, t)}"
    by (simp add: l(4) tagging_def)
  then have "tagging d' = tagging d - {(a, t)}" by (auto simp: tagging_def)
  moreover have "tags_ok d'" using ok by (auto simp: l(4) tags_ok_def distinct_map_delete)
  ultimately show ?thesis by (simp add: remove_tag(1))
qed

lemma tag_run_refines: "tag_run d ops d' \<Longrightarrow> tags_ok d \<Longrightarrow> tags_ok d' \<and> tagging d' = foldl abs_op (tagging d) ops"
  by (induction rule: tag_run.induct) (auto dest: tag_step_refines)

text \<open>
  C18. Tagging refines a relation between articles and tags: whatever creations, taggings, untaggings and deletions
  of tags any users run, the stored associations are the pairs that these operations leave in the relation, each
  stored once; and a user who asks for the tags of an own article or the articles of an own tag gets those of the
  relation, which are all the user's own.
\<close>

theorem tagging_refines_relation:
  assumes "tags_ok d" and "tag_run d ops d'"
  shows "tagging d' = foldl abs_op (tagging d) ops \<and> distinct (map (\<lambda>l. (at_article_id l, at_tag_id l)) (article_tags d')) \<and>
    (\<forall>a u rs. get_tags_for_article a (Some u) d' = ok rs \<longrightarrow>
       set rs = to_tag_response ` {t \<in> set (tags d'). (a, tag_id t) \<in> tagging d'} \<and>
       (\<forall>t \<in> set (tags d'). (a, tag_id t) \<in> tagging d' \<longrightarrow> tag_user_id t = u)) \<and>
    (\<forall>t u ids. get_articles_by_tag t u d' = ok ids \<longrightarrow>
       distinct ids \<and> set ids = {a. (a, t) \<in> tagging d'} \<and> (\<forall>i \<in> set ids. \<exists>a \<in> set (articles d'). art_id a = i \<and> art_user_id a = u))"
proof (intro conjI allI impI)
  have run: "tags_ok d'" "tagging d' = foldl abs_op (tagging d) ops" using tag_run_refines [OF assms(2, 1)] by simp_all
  show "tagging d' = foldl abs_op (tagging d) ops" by (rule run(2))
  show once: "distinct (map (\<lambda>l. (at_article_id l, at_tag_id l)) (article_tags d'))" using run(1) by (simp add: tags_ok_def)
  have joined: "\<exists>t \<in> set (tags d'). \<exists>a \<in> set (articles d'). tag_id t = x \<and> art_id a = i \<and> tag_user_id t = art_user_id a"
    if "(i, x) \<in> tagging d'" for i x
    using run(1) that by (auto simp: tags_ok_def tagging_def)
  have keys: "distinct (map art_id (articles d'))" "distinct (map tag_id (tags d'))" using run(1) by (simp_all add: tags_ok_def)
  {
    fix a u rs assume rs: "get_tags_for_article a (Some u) d' = ok rs"
    then obtain y where y: "get_article a u d' = ok y" by (cases "get_article a u d'") (auto simp: get_tags_for_article_def)
    have "set (tags_joined a d') = {t \<in> set (tags d'). (a, tag_id t) \<in> tagging d'}"
      by (auto simp: tags_joined_def tagging_def image_iff)
    with rs y show "set rs = to_tag_response ` {t \<in> set (tags d'). (a, tag_id t) \<in> tagging d'}" by (auto simp: get_tags_for_article_def)
    show "\<forall>t \<in> set (tags d'). (a, tag_id t) \<in> tagging d' \<longrightarrow> tag_user_id t = u"
    proof (intro ballI impI)
      fix t assume t: "t \<in> set (tags d')" "(a, tag_id t) \<in> tagging d'"
      from joined [OF t(2)] obtain t' b where b: "t' \<in> set (tags d')" "b \<in> set (articles d')" "tag_id t' = tag_id t" "art_id b = a"
        "tag_user_id t' = art_user_id b" by blast
      have "t' = t" using distinct_map_eq [OF keys(2) b(1) t(1)] b(3) by simp
      moreover have "b = y" using distinct_map_eq [OF keys(1) b(2), of y] b(4) article_rows.lookup_sound [OF y] by simp
      ultimately show "tag_user_id t = u" using b(5) article_rows.lookup_sound [OF y] by simp
    qed
  }
  {
    fix t u ids assume ids: "get_articles_by_tag t u d' = ok ids"
    then obtain x where x: "get_tag t u d' = ok x" by (cases "get_tag t u d'") (auto simp: get_articles_by_tag_def)
    then have eq: "ids = map at_article_id (select (\<lambda>l. at_tag_id l = t) (article_tags d'))" using ids by (simp add: get_articles_by_tag_def)
    show "distinct ids" using once by (auto simp: eq select_def distinct_map inj_on_def)
    show mem: "set ids = {a. (a, t) \<in> tagging d'}" by (auto simp: eq tagging_def image_iff)
    show "\<forall>i \<in> set ids. \<exists>a \<in> set (articles d'). art_id a = i \<and> art_user_id a = u"
    proof
      fix i assume "i \<in> set ids"
      with mem joined [of i t] obtain t' a where a: "t' \<in> set (tags d')" "a \<in> set (articles d')" "tag_id t' = t" "art_id a = i"
        "tag_user_id t' = art_user_id a" by auto
      have "t' = x" using distinct_map_eq [OF keys(2) a(1), of x] a(3) tag_rows.lookup_sound [OF x] by simp
      with a tag_rows.lookup_sound [OF x] show "\<exists>a \<in> set (articles d'). art_id a = i \<and> art_user_id a = u" by auto
    qed
  }
qed

section \<open>Saved searches\<close>

lemma like_Nil: "like ''%'' s"
  by (induction s) auto

lemma like_plain_prefix:
  "CHR ''%'' \<notin> set q \<Longrightarrow> CHR ''_'' \<notin> set q \<Longrightarrow> like (q @ ''%'') s \<longleftrightarrow> prefix q s"
proof (induction q arbitrary: s)
  case Nil
  then show ?case using like_Nil by simp
next
  case (Cons c q)
  then show ?case by (cases s) auto
qed

lemma like_percent: "like (CHR ''%'' # ps) s \<longleftrightarrow> (\<exists>t. suffix t s \<and> like ps t)"
proof (induction s)
  case (Cons c s)
  then show ?case by (auto simp: suffix_Cons)
qed simp

lemma like_contains:
  assumes "CHR ''%'' \<notin> set q" and "CHR ''_'' \<notin> set q"
  shows "like (''%'' @ q @ ''%'') s \<longleftrightarrow> sublist q s"
  using assms by (auto simp: like_percent like_plain_prefix sublist_def suffix_def prefix_def)

lemma ascii_lower_append: "ascii_lower (s @ t) = ascii_lower s @ ascii_lower t"
  by (simp add: ascii_lower_def)

lemma ascii_lower_char:
  assumes "c \<in> set (ascii_lower s)" and "c = CHR ''%'' \<or> c = CHR ''_''"
  shows "c \<in> set s"
proof -
  from assms(1) obtain x where x: "x \<in> set s" "c = (if 65 \<le> cp x \<and> cp x \<le> 90 then char_of (cp x + 32) else x)"
    by (auto simp: ascii_lower_def)
  show ?thesis
  proof (cases "65 \<le> cp x \<and> cp x \<le> 90")
    case True
    with x(2) have "cp c = cp x + 32" by simp
    with True assms(2) show ?thesis by (auto simp: cp_def)
  qed (use x in auto)
qed

lemma text_params_strings: "text_params (map JStr xs) = ok (map Some xs)"
  by (induction xs) auto

lemma foldl_keep:
  assumes "\<And>ids x. set (f ids x) = {i \<in> set ids. p x i}"
  shows "set (foldl f ids xs) = {i \<in> set ids. \<forall>x \<in> set xs. p x i}"
proof (induction xs arbitrary: ids)
  case (Cons x xs)
  show ?case unfolding foldl_Cons Cons by (auto simp: assms)
qed simp

lemma set_keep_tagged: "set (keep_tagged d ids t) = {i \<in> set ids. (i, t) \<in> tagging d}"
  by (auto simp: keep_tagged_def tagging_def image_iff)

lemma set_keep_concept:
  "set (keep_concept d ids name) = {i \<in> set ids. \<exists>l \<in> set (article_concepts d). ac_article_id l = i \<and> Some (ac_concept_name l) = name}"
  by (auto simp: keep_concept_def image_iff)

definition saved_filters :: "string list \<Rightarrow> string list \<Rightarrow> json" where
  "saved_filters ts cs = JObj [(''tags'', JList (map JStr ts)), (''concepts'', JList (map JStr cs))]"

text \<open>
  Executing a saved search whose query has no wildcard character returns exactly the articles of the user
  whose title contains the query, letter case aside, that carry every tag of the user the filters name and every
  concept they name.
\<close>

lemma execute_search_exact:
  assumes "distinct (map ss_id (saved_searches d))" and "saved \<in> set (saved_searches d)"
    and "loads (ss_filters_json saved) = ok (saved_filters ts cs)"
    and "CHR ''%'' \<notin> set (ss_query saved)" and "CHR ''_'' \<notin> set (ss_query saved)"
  shows "\<exists>ids. execute_search loads (ss_id saved) (ss_user_id saved) d = ok (to_response saved, ids) \<and>
    set ids = art_id ` {a \<in> set (articles d). art_user_id a = ss_user_id saved \<and>
       sublist (ascii_lower (py_strip (ss_query saved))) (ascii_lower (art_title a)) \<and>
       (\<forall>t \<in> set (tags d). tag_user_id t = ss_user_id saved \<and> tag_name t \<in> set ts \<longrightarrow> (art_id a, tag_id t) \<in> tagging d) \<and>
       (\<forall>c \<in> set cs. \<exists>l \<in> set (article_concepts d). ac_article_id l = art_id a \<and> ac_concept_name l = c)}"
proof -
  let ?q = "py_strip (ss_query saved)" and ?u = "ss_user_id saved"
  let ?title = "\<lambda>a. sublist (ascii_lower ?q) (ascii_lower (art_title a))"
  let ?tids = "map tag_id (select (\<lambda>t. tag_user_id t = ?u \<and> Some (tag_name t) \<in> set (map Some ts)) (tags d))"
  let ?ids = "foldl (keep_concept d) (foldl (keep_tagged d) (title_candidates (ss_query saved) ?u d) ?tids) (map Some cs)"
  have get: "get_search (ss_id saved) ?u d = ok saved" using search_rows.lookup_complete [OF assms(1, 2)] .
  have q: "CHR ''%'' \<notin> set (ascii_lower ?q)" "CHR ''_'' \<notin> set (ascii_lower ?q)"
    using ascii_lower_char assms(4, 5) set_strip_by [of is_space "ss_query saved"] by (metis py_strip_eq subsetD)+
  have "ilike t (''%'' @ ?q @ ''%'') \<longleftrightarrow> sublist (ascii_lower ?q) (ascii_lower t)" for t
  proof -
    have "ascii_lower ''%'' = ''%''" by (simp add: ascii_lower_def cp_def)
    then show ?thesis using like_contains [OF q] by (simp only: ilike_def ascii_lower_append)
  qed
  moreover have "sublist (ascii_lower []) s" for s by (simp add: ascii_lower_def)
  ultimately have "title_candidates (ss_query saved) ?u d = map art_id (select (\<lambda>a. art_user_id a = ?u \<and> ?title a) (articles d))"
    unfolding title_candidates_def by (cases "?q = []") simp_all
  then have ids: "set ?ids = art_id ` {a \<in> set (articles d). art_user_id a = ?u \<and> ?title a \<and>
       (\<forall>t \<in> set (tags d). tag_user_id t = ?u \<and> tag_name t \<in> set ts \<longrightarrow> (art_id a, tag_id t) \<in> tagging d) \<and>
       (\<forall>c \<in> set cs. \<exists>l \<in> set (article_concepts d). ac_article_id l = art_id a \<and> ac_concept_name l = c)}"
    unfolding foldl_keep [of "keep_concept d", OF set_keep_concept] foldl_keep [of "keep_tagged d", OF set_keep_tagged] by auto
  have "execute_search loads (ss_id saved) ?u d = ok (to_response saved, ?ids)"
    by (simp add: execute_search_def get assms(3) saved_filters_def Let_def tag_filter_def concept_filter_def text_params_strings select_def)
  with ids show ?thesis by blast
qed

section \<open>Examples\<close>

definition ex_tags :: db where
  "ex_tags = empty_db\<lparr>
     articles := [new_article ''a'' ''u'' ''s-a'' ''Prompt Caching'' ''a.md'' 5, new_article ''b'' ''u'' ''s-b'' ''Attention'' ''b.md'' 9],
     tags := [\<lparr>tag_id = ''t'', tag_user_id = ''u'', tag_name = ''fav'', tag_color = [], tag_created_at = 0\<rparr>],
     article_concepts := [\<lparr>ac_article_id = ''a'', ac_concept_name = ''ml''\<rparr>],
     saved_searches := [\<lparr>ss_id = ''1'', ss_user_id = ''u'', ss_name = ''n'', ss_query = ''cach'', ss_filters_json = ''f'', ss_created_at = 0\<rparr>,
       \<lparr>ss_id = ''2'', ss_user_id = ''u'', ss_name = ''n'', ss_query = ''_'', ss_filters_json = ''g'', ss_created_at = 0\<rparr>]\<rparr>"

definition ex_tagged :: db where
  "ex_tagged = ex_tags\<lparr>article_tags := [\<lparr>at_id = ''x'', at_article_id = ''a'', at_tag_id = ''t'', at_created_at = 7\<rparr>]\<rparr>"

lemma ex_tag_run: "tag_run ex_tags [Tag ''a'' ''t''] ex_tagged"
proof -
  have "tag_article 7 ''x'' ''a'' ''t'' ''u'' ex_tags = ok ex_tagged"
    by (simp add: tag_article_def get_tag_def get_article_def ex_tags_def ex_tagged_def select_def one_or_none_def new_article_def empty_db_def)
  then have "tag_step ex_tags (Tag ''a'' ''t'') ex_tagged" by (rule apply_tag) (simp add: ex_tags_def empty_db_def)
  from more [OF stop this] show ?thesis by simp
qed

theorem tagging_refines_relation_witness:
  "tagging ex_tagged = {(''a'', ''t'')} \<and> get_articles_by_tag ''t'' ''u'' ex_tagged = ok [''a'']"
proof -
  have "tags_ok ex_tags" by (simp add: tags_ok_def ex_tags_def empty_db_def new_article_def)
  from tagging_refines_relation [OF this ex_tag_run] have "tagging ex_tagged = foldl abs_op (tagging ex_tags) [Tag ''a'' ''t'']"
    by (rule conjunct1)
  then have "tagging ex_tagged = {(''a'', ''t'')}" by (simp add: ex_tags_def tagging_def empty_db_def)
  moreover have "get_articles_by_tag ''t'' ''u'' ex_tagged = ok [''a'']" by code_simp
  ultimately show ?thesis by blast
qed

definition ex_loads :: "string \<Rightarrow> json result" where
  "ex_loads s = (if s = ''f'' then ok (saved_filters [''fav''] [''ml'']) else if s = ''g'' then ok (saved_filters [''unknown''] []) else ok (JList []))"

lemma execute_search_exact_witness:
  "\<exists>resp ids. execute_search ex_loads ''1'' ''u'' ex_tagged = ok (resp, ids) \<and> set ids = {''a''}"
proof -
  let ?s = "saved_searches ex_tagged ! 0"
  have s: "?s = \<lparr>ss_id = ''1'', ss_user_id = ''u'', ss_name = ''n'', ss_query = ''cach'', ss_filters_json = ''f'', ss_created_at = 0\<rparr>"
    by (simp add: ex_tagged_def ex_tags_def empty_db_def)
  have "distinct (map ss_id (saved_searches ex_tagged))" "?s \<in> set (saved_searches ex_tagged)"
    by (simp_all add: ex_tagged_def ex_tags_def empty_db_def)
  from execute_search_exact [OF this, of ex_loads "[''fav'']" "[''ml'']"] obtain ids where
    ids: "execute_search ex_loads ''1'' ''u'' ex_tagged = ok (to_response ?s, ids)" by (auto simp: s ex_loads_def)
  have "execute_search ex_loads ''1'' ''u'' ex_tagged = ok (to_response ?s, [''a''])" unfolding s by code_simp
  with ids show ?thesis by auto
qed

text \<open>
  The second saved search: a name that is no tag of the user leaves the filter out instead of matching nothing, and
  the underscore of the query matches any character. A filter text that decodes to a list raises.
\<close>

lemma unknown_tag_ignored: "\<exists>resp. execute_search ex_loads ''2'' ''u'' ex_tagged = ok (resp, [''a'', ''b''])"
proof -
  have "map_sum id snd (execute_search ex_loads ''2'' ''u'' ex_tagged) = ok [''a'', ''b'']" by code_simp
  then show ?thesis by (cases "execute_search ex_loads ''2'' ''u'' ex_tagged") auto
qed

lemma list_filters_raise: "execute_search (\<lambda>_. ok (JList [])) ''1'' ''u'' ex_tagged = raise (AttributeError ''get'')"
  by code_simp

end
