(* ===== verification/Effects.thy ===== *)
theory Effects
  imports Prelude
begin

text \<open>
  Code with effects as functions from a state to a state and a result, so that what was done before an exception
  stays; loops over a list; and relations between the states before and after that code preserves whether it
  returns or raises.
\<close>

section \<open>The monad\<close>

type_synonym ('s, 'a) eff = "'s \<Rightarrow> 's \<times> 'a result"

definition returnS :: "'a \<Rightarrow> ('s, 'a) eff" where
  "returnS x s = (s, ok x)"

definition raiseS :: "exc \<Rightarrow> ('s, 'a) eff" where
  "raiseS e s = (s, raise e)"

definition liftS :: "'a result \<Rightarrow> ('s, 'a) eff" where
  "liftS r s = (s, r)"

definition modifyS :: "('s \<Rightarrow> 's) \<Rightarrow> ('s, unit) eff" where
  "modifyS f s = (f s, ok ())"

definition bindS :: "('s, 'a) eff \<Rightarrow> ('a \<Rightarrow> ('s, 'b) eff) \<Rightarrow> ('s, 'b) eff" where
  "bindS m f s = (case m s of (s', Inl e) \<Rightarrow> (s', Inl e) | (s', Inr x) \<Rightarrow> f x s')"

fun foldS :: "('a \<Rightarrow> 'b \<Rightarrow> ('s, 'b) eff) \<Rightarrow> 'a list \<Rightarrow> 'b \<Rightarrow> ('s, 'b) eff" where
  "foldS f [] acc = returnS acc"
| "foldS f (x # xs) acc = bindS (f x acc) (foldS f xs)"

definition readS :: "('s \<Rightarrow> 'a) \<Rightarrow> ('s, 'a) eff" where
  "readS f s = (s, ok (f s))"

definition tryS :: "('s, 'a) eff \<Rightarrow> (exc \<Rightarrow> ('s, 'a) eff) \<Rightarrow> ('s, 'a) eff" where
  "tryS m handler s = (case m s of (s', Inl e) \<Rightarrow> handler e s' | (s', Inr x) \<Rightarrow> (s', Inr x))"

section \<open>Relations that checks preserve\<close>

text \<open>
  A check keeps a relation between the states before and after it, whether it returns or raises; relations that are
  reflexive and transitive compose along the code.
\<close>

locale effect_frame =
  fixes R :: "'s \<Rightarrow> 's \<Rightarrow> bool"
  assumes refl_R: "R s s" and trans_R: "R s t \<Longrightarrow> R t u \<Longrightarrow> R s u"
begin

definition keeps :: "('s, 'a) eff \<Rightarrow> bool" where
  "keeps m \<longleftrightarrow> (\<forall>s. R s (fst (m s)))"

lemma keepsI: "(\<And>s. R s (fst (m s))) \<Longrightarrow> keeps m"
  by (simp add: keeps_def)

lemma keeps_return: "keeps (returnS x)" and keeps_raise: "keeps (raiseS e)" and keeps_lift: "keeps (liftS r)"
  by (simp_all add: keeps_def returnS_def raiseS_def liftS_def refl_R)

lemma keeps_modify: "(\<And>s. R s (f s)) \<Longrightarrow> keeps (modifyS f)"
  by (simp add: keeps_def modifyS_def)

lemma keeps_bind:
  assumes "keeps m" and "\<And>x. keeps (f x)"
  shows "keeps (bindS m f)"
proof (rule keepsI)
  fix s
  have m: "R s (fst (m s))" using assms(1) by (simp add: keeps_def)
  obtain s' r where ms: "m s = (s', r)" by (cases "m s")
  show "R s (fst (bindS m f s))"
  proof (cases r)
    case (Inl e)
    with m ms show ?thesis by (simp add: bindS_def)
  next
    case (Inr x)
    have "R s' (fst (f x s'))" using assms(2) by (simp add: keeps_def)
    with m ms Inr trans_R show ?thesis by (auto simp: bindS_def)
  qed
qed

lemma keeps_read: "keeps (readS f)"
  by (simp add: keeps_def readS_def refl_R)

lemma keeps_try: "keeps m \<Longrightarrow> (\<And>e. keeps (h e)) \<Longrightarrow> keeps (tryS m h)"
proof (rule keepsI)
  fix s assume m: "keeps m" and h: "\<And>e. keeps (h e)"
  obtain s' r where ms: "m s = (s', r)" by (cases "m s")
  have s': "R s s'" using m ms unfolding keeps_def by (metis fst_conv)
  have "R s' (fst (h e s'))" for e using h by (simp add: keeps_def)
  then have "R s (fst (h e s'))" for e by (rule trans_R [OF s'])
  with s' show "R s (fst (tryS m h s))" by (cases r) (simp_all add: tryS_def ms)
qed

lemma keeps_fold: "(\<And>x acc. x \<in> set xs \<Longrightarrow> keeps (f x acc)) \<Longrightarrow> keeps (foldS f xs acc)"
  by (induction xs arbitrary: acc) (auto intro: keeps_return keeps_bind)

lemma keeps_if: "keeps m \<Longrightarrow> keeps n \<Longrightarrow> keeps (if b then m else n)"
  by simp

lemma keeps_state: "(\<And>t. keeps (m t)) \<Longrightarrow> keeps (\<lambda>s. m s s)"
  by (simp add: keeps_def)

lemma keepsD: "keeps m \<Longrightarrow> m s = (s', r) \<Longrightarrow> R s s'"
  unfolding keeps_def by (metis fst_conv)

end

lemma bindS_ok: "bindS m f s = (s', ok y) \<longleftrightarrow> (\<exists>t x. m s = (t, ok x) \<and> f x t = (s', ok y))"
  by (auto simp: bindS_def split: prod.splits sum.splits)

lemmas effect_simps = returnS_def raiseS_def liftS_def modifyS_def

section \<open>Loops that return, and the number of calls\<close>

lemma foldS_inv:
  assumes "foldS f xs acc s = (s', ok acc')" and "I [] s acc"
    and "\<And>ys x acc s s' acc'. x \<in> set xs \<Longrightarrow> I ys s acc \<Longrightarrow> f x acc s = (s', ok acc') \<Longrightarrow> I (ys @ [x]) s' acc'"
  shows "I xs s' acc'"
proof -
  have "I (ys @ xs) s' acc'" if "foldS f xs acc s = (s', ok acc')" "I ys s acc"
    and "\<And>ys x acc s s' acc'. x \<in> set xs \<Longrightarrow> I ys s acc \<Longrightarrow> f x acc s = (s', ok acc') \<Longrightarrow> I (ys @ [x]) s' acc'" for ys
    using that
  proof (induction xs arbitrary: acc s ys)
    case Nil
    then show ?case by (simp add: returnS_def)
  next
    case (Cons x xs)
    from Cons.prems(1) obtain t acc1 where x: "f x acc s = (t, ok acc1)" and rest: "foldS f xs acc1 t = (s', ok acc')"
      by (auto simp: bindS_ok)
    have "I (ys @ [x]) t acc1" by (rule Cons.prems(3) [OF _ Cons.prems(2) x]) simp
    from Cons.IH [OF rest this] Cons.prems(3) show ?case by simp
  qed
  from this [of "[]"] assms show ?thesis by simp
qed

end
