(* ===== verification/LintModel.thy ===== *)
theory LintModel
  imports Domain PyStr Json Effects
begin

text \<open>
  The state of the linter: the tables of \<^verbatim>\<open>src/src/wikimind/models/tables/lint.py\<close> and the compiled claims beside the
  database, and the environment of a run. A check is a function from the state to the state and a result, so that
  what was written before an exception stays, as it does in \<open>run_lint\<close>, which commits after one. The language
  model is the function \<open>le_llm\<close> of the number of the call and the prompt, with the decoded answer, \<open>None\<close> for
  no response; \<open>le_sample\<close> is \<open>random.sample\<close>, \<open>le_sha\<close> the SHA-256 hex digest, \<open>le_loads\<close> and
  \<open>le_dumps\<close> the JSON codec, \<open>le_show_dt\<close> and \<open>le_fmt\<close> the texts of a date and of a float with some decimals.
\<close>

section \<open>Tables\<close>

datatype lint_severity = INFO | WARN | ERROR
datatype finding_kind = K_CONTRADICTION | K_ORPHAN | K_STRUCTURAL
datatype report_status = IN_PROGRESS | REPORT_COMPLETE | REPORT_FAILED

fun finding_kind_value :: "finding_kind \<Rightarrow> string" where
  "finding_kind_value K_CONTRADICTION = ''contradiction''"
| "finding_kind_value K_ORPHAN = ''orphan''"
| "finding_kind_value K_STRUCTURAL = ''structural''"

record lint_report =
  lr_id :: string
  lr_user_id :: string
  lr_generated_at :: datetime
  lr_completed_at :: "datetime option"
  lr_status :: report_status
  lr_article_count :: int
  lr_total_findings :: int
  lr_contradictions_count :: int
  lr_orphans_count :: int
  lr_structural_count :: int
  lr_checked_articles :: "int option"
  lr_missing_pages_count :: int
  lr_dismissed_count :: int
  lr_total_pairs :: int
  lr_checked_pairs :: int
  lr_error_message :: "string option"
  lr_job_id :: "string option"

text \<open>The columns that come out of the language model hold any decoded value until they are written.\<close>

record contradiction_finding =
  cf_id :: string
  cf_user_id :: string
  cf_report_id :: string
  cf_severity :: lint_severity
  cf_description :: json
  cf_created_at :: datetime
  cf_dismissed :: bool
  cf_dismissed_at :: "datetime option"
  cf_content_hash :: string
  cf_article_a_id :: string
  cf_article_b_id :: string
  cf_article_a_claim :: json
  cf_article_b_claim :: json
  cf_llm_confidence :: json
  cf_shared_concept_id :: "string option"
  cf_contradiction_id :: "string option"

record orphan_finding =
  of_id :: string
  of_user_id :: string
  of_report_id :: string
  of_severity :: lint_severity
  of_description :: string
  of_created_at :: datetime
  of_dismissed :: bool
  of_dismissed_at :: "datetime option"
  of_content_hash :: string
  of_article_id :: string
  of_article_title :: string

record structural_finding =
  sf_id :: string
  sf_user_id :: string
  sf_report_id :: string
  sf_severity :: lint_severity
  sf_description :: string
  sf_created_at :: datetime
  sf_dismissed :: bool
  sf_dismissed_at :: "datetime option"
  sf_content_hash :: string
  sf_article_id :: string
  sf_violation_type :: string
  sf_auto_repaired :: bool
  sf_detail :: string

record dismissed_finding =
  df_content_hash :: string
  df_kind :: finding_kind
  df_dismissed_at :: datetime
  df_reason :: "string option"

record pair_cache =
  pc_id :: string
  pc_article_a_id :: string
  pc_article_b_id :: string
  pc_article_a_updated_at :: string
  pc_article_b_updated_at :: string
  pc_result_json :: string
  pc_checked_at :: datetime

section \<open>State and environment\<close>

record lint_state =
  ls_db :: db
  ls_claims :: "compiled_claim list"
  ls_cache :: "pair_cache list"
  ls_reports :: "lint_report list"
  ls_contradictions :: "contradiction_finding list"
  ls_orphans :: "orphan_finding list"
  ls_structurals :: "structural_finding list"
  ls_dismissed :: "dismissed_finding list"
  ls_calls :: nat
  ls_uuids :: nat

datatype lint_prompt =
    PairPrompt string string string string
  | BatchPrompt "(string \<times> string \<times> string \<times> string) list"

record lint_config =
  lc_enable_orphan_detection :: bool
  lc_max_concepts_per_run :: nat
  lc_max_contradiction_pairs_per_concept :: nat
  lc_enable_pair_cache :: bool
  lc_contradiction_batch_enabled :: bool
  lc_contradiction_batch_size :: nat
  lc_auto_recompile_on_contradiction :: bool
  lc_lint_threshold :: rat
  lc_decay_rate :: rat

record lint_env =
  le_cfg :: lint_config
  le_now :: datetime
  le_llm :: "nat \<Rightarrow> lint_prompt \<Rightarrow> json option result"
  le_sample :: "nat \<Rightarrow> (article \<times> article) list \<Rightarrow> (article \<times> article) list"
  le_sha :: "string \<Rightarrow> string"
  le_loads :: "string \<Rightarrow> json result"
  le_dumps :: "json \<Rightarrow> string"
  le_show_dt :: "datetime \<Rightarrow> string"
  le_fmt :: "nat \<Rightarrow> rat \<Rightarrow> string"
  le_uuid :: "nat \<Rightarrow> string"

type_synonym 'a lint = "(lint_state, 'a) eff"

section \<open>The number of calls\<close>

definition calls_within :: "nat \<Rightarrow> 'a lint \<Rightarrow> bool" where
  "calls_within n m \<longleftrightarrow> (\<forall>s. ls_calls (fst (m s)) \<le> ls_calls s + n)"

lemma calls_withinI: "(\<And>s. ls_calls (fst (m s)) \<le> ls_calls s + n) \<Longrightarrow> calls_within n m"
  by (simp add: calls_within_def)

lemma calls_withinD: "calls_within n m \<Longrightarrow> m s = (s', r) \<Longrightarrow> ls_calls s' \<le> ls_calls s + n"
  unfolding calls_within_def by (metis fst_conv)

lemma calls_mono: "calls_within n m \<Longrightarrow> n \<le> k \<Longrightarrow> calls_within k m"
  unfolding calls_within_def by (meson add_left_mono le_trans)

lemma calls_simple: "calls_within 0 (returnS x)" "calls_within 0 (raiseS e)" "calls_within 0 (liftS r)" "calls_within 0 (\<lambda>s. (s, g s))"
  by (simp_all add: calls_within_def effect_simps)

lemma calls_modify: "(\<And>s. ls_calls (f s) = ls_calls s) \<Longrightarrow> calls_within 0 (modifyS f)"
  by (simp add: calls_within_def modifyS_def)

lemma calls_bind:
  assumes "calls_within n m" and "\<And>s s' x. m s = (s', ok x) \<Longrightarrow> calls_within k (f x)"
  shows "calls_within (n + k) (bindS m f)"
proof (rule calls_withinI)
  fix s
  obtain s' r where ms: "m s = (s', r)" by (cases "m s")
  note n = calls_withinD [OF assms(1) ms]
  show "ls_calls (fst (bindS m f s)) \<le> ls_calls s + (n + k)"
  proof (cases r)
    case (Inr x)
    obtain t q where fx: "f x s' = (t, q)" by (cases "f x s'")
    from calls_withinD [OF assms(2) fx] ms Inr n show ?thesis by (fastforce simp: bindS_def fx)
  qed (use n ms in \<open>simp add: bindS_def\<close>)
qed

lemma calls_bind0: "calls_within 0 m \<Longrightarrow> (\<And>x. calls_within k (f x)) \<Longrightarrow> calls_within k (bindS m f)"
  using calls_bind [of 0 m k f] by simp

lemma calls_bind_0: "calls_within n m \<Longrightarrow> (\<And>x. calls_within 0 (f x)) \<Longrightarrow> calls_within n (bindS m f)"
  using calls_bind [of n m 0 f] by simp

lemma calls_fold:
  assumes "\<And>x acc. x \<in> set xs \<Longrightarrow> calls_within (k x) (f x acc)"
  shows "calls_within (sum_list (map k xs)) (foldS f xs acc)"
  using assms
proof (induction xs arbitrary: acc)
  case (Cons x xs)
  have "calls_within (k x + sum_list (map k xs)) (bindS (f x acc) (foldS f xs))"
    by (rule calls_bind) (use Cons in auto)
  then show ?case by simp
qed (simp add: calls_simple)

lemma calls_fold_0: "(\<And>x acc. calls_within 0 (f x acc)) \<Longrightarrow> calls_within 0 (foldS f xs acc)"
  using calls_fold [of xs "\<lambda>_. 0" f acc] by simp

end
