(* ===== verification/LintDetect.thy ===== *)
theory LintDetect
  imports LintModel MarkdownHtml "HOL-Library.List_Lexorder" "HOL-Library.Char_ord"
begin

text \<open>
  The contradiction detector, \<^verbatim>\<open>src/src/wikimind/engine/linter/contradictions.py\<close>: claims, the pair cache, batched
  and single calls of the language model with retry and fallback, and the backlinks it records. The prompt
  templates are static text; a prompt is the data formatted into them. The rows of a join without order come in
  the order of the link table.
\<close>

section \<open>Claims\<close>

definition content_hash :: "lint_env \<Rightarrow> string \<Rightarrow> string \<Rightarrow> string" where
  "content_hash e article_a_id article_b_id =
     (let ids = sort [article_a_id, article_b_id]
      in le_sha e (finding_kind_value K_CONTRADICTION @ ''|'' @ ids ! 0 @ ''|'' @ ids ! 1))"

definition extract_claims_from_db :: "article \<Rightarrow> lint_state \<Rightarrow> string list" where
  "extract_claims_from_db a s = map cc_text (select (\<lambda>c. cc_article_id c = art_id a) (ls_claims s))"

definition claims_heading :: "string \<Rightarrow> bool" where
  "claims_heading stripped \<longleftrightarrow> prefix ''## key claims'' (py_lower stripped) \<or> prefix ''## key_claims'' (py_lower stripped)"

fun section_claims :: "bool \<Rightarrow> string list \<Rightarrow> string list" where
  "section_claims in_section [] = []"
| "section_claims in_section (line # rest) =
     (let stripped = py_strip line in
      if claims_heading stripped then section_claims True rest
      else if in_section then
        (if prefix ''## '' stripped then []
         else if prefix ''- '' stripped \<or> prefix ''* '' stripped then py_strip (drop 2 stripped) # section_claims True rest
         else section_claims True rest)
      else section_claims False rest)"

definition plain_claims :: "string list \<Rightarrow> string list" where
  "plain_claims lines = take 10 (filter (\<lambda>s. s \<noteq> [] \<and> \<not> prefix ''#'' s \<and> \<not> prefix ''---'' s) (map py_strip lines))"

definition extract_claims_from_markdown :: "article \<Rightarrow> lint_state \<Rightarrow> string list" where
  "extract_claims_from_markdown a s =
     (case wiki_files (ls_db s) (art_user_id a, art_file_path a) of
        None \<Rightarrow> []
      | Some content \<Rightarrow>
          (let lines = split_lines [] content; claims = section_claims False lines
           in if claims = [] then plain_claims lines else claims))"

definition extract_claims :: "article \<Rightarrow> lint_state \<Rightarrow> string list" where
  "extract_claims a s =
     (let db_claims = extract_claims_from_db a s
      in if db_claims \<noteq> [] then db_claims else extract_claims_from_markdown a s)"

definition get_articles_for_concept :: "string \<Rightarrow> string \<Rightarrow> db \<Rightarrow> article list" where
  "get_articles_for_concept concept_name user_id d =
     concat (map (\<lambda>ac. select (\<lambda>a. art_id a = ac_article_id ac \<and> art_user_id a = user_id) (articles d))
       (select (\<lambda>ac. ac_concept_name ac = concept_name) (article_concepts d)))"

section \<open>The pair cache\<close>

definition sorted_ids :: "article \<Rightarrow> article \<Rightarrow> string list" where
  "sorted_ids a b = sort [art_id a, art_id b]"

definition cache_key :: "article \<Rightarrow> article \<Rightarrow> pair_cache \<Rightarrow> bool" where
  "cache_key a b p \<longleftrightarrow> pc_article_a_id p = sorted_ids a b ! 0 \<and> pc_article_b_id p = sorted_ids a b ! 1"

definition check_pair_cache :: "lint_env \<Rightarrow> article \<Rightarrow> article \<Rightarrow> lint_state \<Rightarrow> json option result" where
  "check_pair_cache e a b s =
     (case first_of (select (cache_key a b) (ls_cache s)) of
        None \<Rightarrow> ok None
      | Some cached \<Rightarrow>
          (let current_a = le_show_dt e (if sorted_ids a b ! 0 = art_id a then art_updated_at a else art_updated_at b);
               current_b = le_show_dt e (if sorted_ids a b ! 1 = art_id b then art_updated_at b else art_updated_at a)
           in if pc_article_a_updated_at cached = current_a \<and> pc_article_b_updated_at cached = current_b
              then bindR (le_loads e (pc_result_json cached)) (\<lambda>j. ok (Some j))
              else ok None))"

definition cache_entry :: "lint_env \<Rightarrow> article \<Rightarrow> article \<Rightarrow> json \<Rightarrow> pair_cache" where
  "cache_entry e a b result_data =
     (let ids = sorted_ids a b;
          a_art = (if ids ! 0 = art_id a then a else b);
          b_art = (if ids ! 1 = art_id b then b else a)
      in \<lparr>pc_id = take 32 (le_sha e (ids ! 0 @ ''|'' @ ids ! 1)), pc_article_a_id = ids ! 0, pc_article_b_id = ids ! 1,
          pc_article_a_updated_at = le_show_dt e (art_updated_at a_art), pc_article_b_updated_at = le_show_dt e (art_updated_at b_art),
          pc_result_json = le_dumps e result_data, pc_checked_at = le_now e\<rparr>)"

definition save_pair_cache :: "lint_env \<Rightarrow> article \<Rightarrow> article \<Rightarrow> json \<Rightarrow> lint_state \<Rightarrow> lint_state" where
  "save_pair_cache e a b result_data s =
     s\<lparr>ls_cache := delete_where (cache_key a b) (ls_cache s) @ [cache_entry e a b result_data]\<rparr>"

section \<open>Backlinks\<close>

definition contradicts_link :: "string \<Rightarrow> string \<Rightarrow> string \<Rightarrow> string \<Rightarrow> backlink" where
  "contradicts_link src tgt context user_id =
     \<lparr>bl_source_article_id = src, bl_target_article_id = tgt, bl_user_id = user_id, bl_context = Some context,
      bl_relation_type = CONTRADICTS, bl_resolution = None, bl_resolution_note = None, bl_resolved_at = None, bl_resolved_by = None\<rparr>"

definition put_link :: "string \<Rightarrow> string \<Rightarrow> backlink list \<Rightarrow> string \<times> string \<Rightarrow> backlink list" where
  "put_link context user_id links st =
     (if list_ex (\<lambda>l. bl_source_article_id l = fst st \<and> bl_target_article_id l = snd st) links then links
      else links @ [contradicts_link (fst st) (snd st) context user_id])"

definition create_contradiction_backlink :: "string \<Rightarrow> string \<Rightarrow> string \<Rightarrow> string \<Rightarrow> lint_state \<Rightarrow> lint_state" where
  "create_contradiction_backlink article_a_id article_b_id context user_id s =
     s\<lparr>ls_db := (ls_db s)\<lparr>backlinks :=
         foldl (put_link context user_id) (backlinks (ls_db s)) [(article_a_id, article_b_id), (article_b_id, article_a_id)]\<rparr>\<rparr>"

section \<open>Calls of the language model\<close>

type_synonym pair_claims = "article \<times> article \<times> string list \<times> string list"

definition claims_text :: "string list \<Rightarrow> string" where
  "claims_text claims = take 2000 (py_join [CHR 0x0A] (map (\<lambda>c. ''- '' @ take 500 c) claims))"

definition build_batch_prompt :: "pair_claims list \<Rightarrow> lint_prompt" where
  "build_batch_prompt pairs =
     BatchPrompt (map (\<lambda>(a, b, ca, cb). (take 200 (art_title a), claims_text ca, take 200 (art_title b), claims_text cb)) pairs)"

definition pair_prompt :: "article \<Rightarrow> article \<Rightarrow> string list \<Rightarrow> string list \<Rightarrow> lint_prompt" where
  "pair_prompt a b ca cb = PairPrompt (take 200 (art_title a)) (claims_text ca) (take 200 (art_title b)) (claims_text cb)"

text \<open>A call and the parsing of its answer; no response raises \<open>RuntimeError\<close>.\<close>

definition ask :: "lint_env \<Rightarrow> lint_prompt \<Rightarrow> json lint" where
  "ask e prompt s =
     (s\<lparr>ls_calls := ls_calls s + 1\<rparr>,
      bindR (le_llm e (ls_calls s) prompt) (\<lambda>response.
        case response of None \<Rightarrow> raise (RuntimeError ''plan_aware_complete returned None'') | Some j \<Rightarrow> ok j))"

text \<open>\<^verbatim>\<open>idx is not None and 0 <= idx < expected_count\<close>: a boolean is a number, other values raise.\<close>

fun batch_index :: "nat \<Rightarrow> json \<Rightarrow> nat option result" where
  "batch_index n JNull = ok None"
| "batch_index n (JInt i) = ok (if 0 \<le> i \<and> i < int n then Some (nat i) else None)"
| "batch_index n (JBool b) = ok (if (if b then 1 else 0) < n then Some (if b then 1 else 0) else None)"
| "batch_index n _ = raise (TypeError ''not supported between instances'')"

definition parse_item :: "nat \<Rightarrow> json list \<Rightarrow> json \<Rightarrow> json list result" where
  "parse_item n found item =
     bindR (jget item ''pair_index'' JNull) (\<lambda>v.
     bindR (batch_index n v) (\<lambda>idx.
       case idx of
         None \<Rightarrow> ok found
       | Some i \<Rightarrow> bindR (jget item ''contradictions'' (JList [])) (\<lambda>cs. ok (found[i := cs]))))"

definition parse_batch_response :: "json list \<Rightarrow> nat \<Rightarrow> json list result" where
  "parse_batch_response items n = foldl (\<lambda>r item. bindR r (\<lambda>found. parse_item n found item)) (ok (replicate n (JList []))) items"

text \<open>The finding of one entry of an answer, and the link it records; an entry that is no dictionary raises.\<close>

definition finding_of ::
  "lint_env \<Rightarrow> string \<Rightarrow> article \<Rightarrow> article \<Rightarrow> string option \<Rightarrow> string \<Rightarrow> json \<Rightarrow> contradiction_finding lint" where
  "finding_of e report_id a b concept_id user_id c s =
     (case bindR (jget c ''description'' (JStr ''Contradiction detected'')) (\<lambda>descr.
           bindR (jget c ''article_a_claim'' (JStr [])) (\<lambda>claim_a.
           bindR (jget c ''article_b_claim'' (JStr [])) (\<lambda>claim_b.
           bindR (jget c ''confidence'' (JStr ''medium'')) (\<lambda>conf. ok (descr, claim_a, claim_b, conf))))) of
        Inl x \<Rightarrow> (s, Inl x)
      | Inr (descr, claim_a, claim_b, conf) \<Rightarrow>
          (s\<lparr>ls_uuids := ls_uuids s + 1\<rparr>,
           ok \<lparr>cf_id = le_uuid e (ls_uuids s), cf_user_id = user_id, cf_report_id = report_id, cf_severity = WARN,
               cf_description = descr, cf_created_at = le_now e, cf_dismissed = False, cf_dismissed_at = None,
               cf_content_hash = content_hash e (art_id a) (art_id b), cf_article_a_id = art_id a, cf_article_b_id = art_id b,
               cf_article_a_claim = claim_a, cf_article_b_claim = claim_b, cf_llm_confidence = conf,
               cf_shared_concept_id = concept_id, cf_contradiction_id = None\<rparr>))"

definition link_finding :: "string \<Rightarrow> contradiction_finding \<Rightarrow> unit lint" where
  "link_finding user_id f = modifyS (create_contradiction_backlink (cf_article_a_id f) (cf_article_b_id f)
     (py_str (cf_article_a_claim f) @ '' vs '' @ py_str (cf_article_b_claim f)) user_id)"

definition record_findings ::
  "lint_env \<Rightarrow> string \<Rightarrow> string option \<Rightarrow> string \<Rightarrow> article \<Rightarrow> article \<Rightarrow> json \<Rightarrow> contradiction_finding list \<Rightarrow> contradiction_finding list lint" where
  "record_findings e report_id concept_id user_id a b found acc =
     bindS (liftS (json_items found)) (\<lambda>cs.
       foldS (\<lambda>c fs. bindS (finding_of e report_id a b concept_id user_id c) (\<lambda>f.
                bindS (link_finding user_id f) (\<lambda>_. returnS (fs @ [f])))) cs acc)"

definition batch_results :: "json \<Rightarrow> json list result" where
  "batch_results data =
     (case data of
        JList xs \<Rightarrow> ok xs
      | JObj kvs \<Rightarrow> (case map_of kvs ''results'' of Some v \<Rightarrow> json_items v | None \<Rightarrow> raise (ValueError ''Unexpected batch response shape''))
      | _ \<Rightarrow> raise (ValueError ''Unexpected batch response shape''))"

definition batch_attempt ::
  "lint_env \<Rightarrow> pair_claims list \<Rightarrow> string option \<Rightarrow> string \<Rightarrow> string \<Rightarrow> contradiction_finding list lint" where
  "batch_attempt e pairs concept_id report_id user_id =
     bindS (ask e (build_batch_prompt pairs)) (\<lambda>data.
     bindS (liftS (bindR (batch_results data) (\<lambda>items. parse_batch_response items (length pairs)))) (\<lambda>parsed.
       foldS (\<lambda>(i, (a, b, _, _)) acc. record_findings e report_id concept_id user_id a b (parsed ! i) acc) (enumerate 0 pairs) []))"

fun caught :: "exc \<Rightarrow> bool" where
  "caught (RuntimeError _) = True"
| "caught (ValueError _) = True"
| "caught (KeyError _) = True"
| "caught _ = False"

definition compare_article_pair ::
  "lint_env \<Rightarrow> article \<Rightarrow> article \<Rightarrow> string option \<Rightarrow> string \<Rightarrow> string \<Rightarrow> contradiction_finding list lint" where
  "compare_article_pair e a b concept_id report_id user_id s =
     (let claims_a = extract_claims a s; claims_b = extract_claims b s in
      if claims_a = [] \<or> claims_b = [] then (s, ok [])
      else
        (case ask e (pair_prompt a b claims_a claims_b) s of
           (s1, Inl x) \<Rightarrow> if caught x then (s1, ok []) else (s1, raise x)
         | (s1, Inr data) \<Rightarrow>
             bindS (liftS (jget data ''contradictions'' (JList []))) (\<lambda>found.
               record_findings e report_id concept_id user_id a b found []) s1))"

definition batch_fallback ::
  "lint_env \<Rightarrow> pair_claims list \<Rightarrow> string option \<Rightarrow> string \<Rightarrow> string \<Rightarrow> contradiction_finding list lint" where
  "batch_fallback e pairs concept_id report_id user_id =
     foldS (\<lambda>(a, b, _, _) acc. bindS (compare_article_pair e a b concept_id report_id user_id) (\<lambda>fs. returnS (acc @ fs))) pairs []"

definition run_batch ::
  "lint_env \<Rightarrow> pair_claims list \<Rightarrow> string option \<Rightarrow> string \<Rightarrow> string \<Rightarrow> contradiction_finding list lint" where
  "run_batch e pairs concept_id report_id user_id s =
     (case batch_attempt e pairs concept_id report_id user_id s of
        (s1, Inr fs) \<Rightarrow> (s1, Inr fs)
      | (s1, Inl x) \<Rightarrow>
          if \<not> caught x then (s1, Inl x)
          else
            (case batch_attempt e pairs concept_id report_id user_id s1 of
               (s2, Inr fs) \<Rightarrow> (s2, Inr fs)
             | (s2, Inl y) \<Rightarrow> if \<not> caught y then (s2, Inl y) else batch_fallback e pairs concept_id report_id user_id s2))"

section \<open>The run\<close>

fun combinations :: "'a list \<Rightarrow> ('a \<times> 'a) list" where
  "combinations [] = []"
| "combinations (x # xs) = map (Pair x) xs @ combinations xs"

type_synonym work = "string option \<times> string \<times> (article \<times> article) list"

definition sampled_pairs :: "lint_env \<Rightarrow> article list \<Rightarrow> (article \<times> article) list" where
  "sampled_pairs e arts =
     (let pairs = combinations arts; m = lc_max_contradiction_pairs_per_concept (le_cfg e)
      in if m < length pairs then le_sample e m pairs else pairs)"

definition collect_work :: "lint_env \<Rightarrow> string \<Rightarrow> db \<Rightarrow> work list" where
  "collect_work e user_id d =
     (let cs = take (lc_max_concepts_per_run (le_cfg e)) (sort_key (\<lambda>c. - con_article_count c) (select (\<lambda>c. con_user_id c = user_id) (concepts d)))
      in if cs = [] then
           (let arts = take (lc_max_contradiction_pairs_per_concept (le_cfg e) * 2)
                  (sort_key (\<lambda>a. - art_updated_at a) (select (\<lambda>a. art_user_id a = user_id) (articles d)))
            in [(None, ''all-articles'', sampled_pairs e arts)])
         else
           map (\<lambda>c. (Some (con_id c), con_name c, sampled_pairs e (get_articles_for_concept (con_name c) user_id d)))
             (filter (\<lambda>c. 2 \<le> length (get_articles_for_concept (con_name c) user_id d)) cs))"

definition findings_from_cached ::
  "lint_env \<Rightarrow> json \<Rightarrow> string \<Rightarrow> article \<Rightarrow> article \<Rightarrow> string option \<Rightarrow> string \<Rightarrow> contradiction_finding list lint" where
  "findings_from_cached e cached report_id a b concept_id user_id =
     bindS (liftS (json_items cached)) (\<lambda>cs.
       foldS (\<lambda>c fs. bindS (finding_of e report_id a b concept_id user_id c) (\<lambda>f. returnS (fs @ [f]))) cs [])"

definition cache_data_from_findings :: "contradiction_finding list \<Rightarrow> json" where
  "cache_data_from_findings fs =
     JList (map (\<lambda>f. JObj [(''description'', cf_description f), (''article_a_claim'', cf_article_a_claim f),
                           (''article_b_claim'', cf_article_b_claim f), (''confidence'', cf_llm_confidence f)]) fs)"

text \<open>\<open>checked += 1\<close> and the report row with it.\<close>

definition set_checked :: "string \<Rightarrow> int \<Rightarrow> lint_state \<Rightarrow> lint_state" where
  "set_checked report_id n s =
     s\<lparr>ls_reports := update_where (\<lambda>r. lr_id r = report_id) (\<lambda>r. r\<lparr>lr_checked_pairs := n\<rparr>) (ls_reports s)\<rparr>"

definition count_checked :: "string \<Rightarrow> int \<Rightarrow> int lint" where
  "count_checked report_id checked = bindS (modifyS (set_checked report_id (checked + 1))) (\<lambda>_. returnS (checked + 1))"

definition save_if_enabled :: "lint_env \<Rightarrow> article \<Rightarrow> article \<Rightarrow> contradiction_finding list \<Rightarrow> unit lint" where
  "save_if_enabled e a b fs =
     modifyS (if lc_enable_pair_cache (le_cfg e) then save_pair_cache e a b (cache_data_from_findings fs) else (\<lambda>s. s))"

function batches :: "nat \<Rightarrow> 'a list \<Rightarrow> 'a list list" where
  "batches n xs = (if n = 0 \<or> xs = [] then [] else take n xs # batches n (drop n xs))"
  by pat_completeness auto
termination by (relation "measure (\<lambda>(n, xs). length xs)") auto

declare batches.simps [simp del]

definition process_batch ::
  "lint_env \<Rightarrow> string option \<Rightarrow> string \<Rightarrow> string \<Rightarrow> pair_claims list \<Rightarrow> contradiction_finding list \<times> int \<Rightarrow> (contradiction_finding list \<times> int) lint" where
  "process_batch e concept_id report_id user_id batch acc =
     bindS (run_batch e batch concept_id report_id user_id) (\<lambda>fs.
     bindS (foldS (\<lambda>(a, b, _, _) checked.
              bindS (save_if_enabled e a b (filter (\<lambda>f. cf_article_a_id f = art_id a \<and> cf_article_b_id f = art_id b) fs)) (\<lambda>_.
                count_checked report_id checked)) batch (snd acc)) (\<lambda>checked.
       returnS (fst acc @ fs, checked)))"

definition process_pair ::
  "lint_env \<Rightarrow> string option \<Rightarrow> string \<Rightarrow> string \<Rightarrow> pair_claims \<Rightarrow> contradiction_finding list \<times> int \<Rightarrow> (contradiction_finding list \<times> int) lint" where
  "process_pair e concept_id report_id user_id pair acc =
     (case pair of (a, b, _, _) \<Rightarrow>
       bindS (compare_article_pair e a b concept_id report_id user_id) (\<lambda>fs.
       bindS (save_if_enabled e a b fs) (\<lambda>_.
       bindS (count_checked report_id (snd acc)) (\<lambda>checked.
         returnS (fst acc @ fs, checked)))))"

definition process_uncached_pairs ::
  "lint_env \<Rightarrow> pair_claims list \<Rightarrow> string option \<Rightarrow> string \<Rightarrow> int \<Rightarrow> string \<Rightarrow> (contradiction_finding list \<times> int) lint" where
  "process_uncached_pairs e uncached concept_id report_id checked user_id =
     (if lc_contradiction_batch_enabled (le_cfg e) \<and> 1 < length uncached
      then (if lc_contradiction_batch_size (le_cfg e) = 0 then raiseS (ValueError ''range() arg 3 must not be zero'')
            else foldS (process_batch e concept_id report_id user_id) (batches (lc_contradiction_batch_size (le_cfg e)) uncached) ([], checked))
      else foldS (process_pair e concept_id report_id user_id) uncached ([], checked))"

text \<open>The loop over the pairs of one concept: findings of cache hits, pairs left, and the count.\<close>

definition sort_out_pair ::
  "lint_env \<Rightarrow> string option \<Rightarrow> string \<Rightarrow> string \<Rightarrow> article \<times> article \<Rightarrow> contradiction_finding list \<times> pair_claims list \<times> int \<Rightarrow>
   (contradiction_finding list \<times> pair_claims list \<times> int) lint" where
  "sort_out_pair e concept_id report_id user_id ab acc =
     (case ab of (a, b) \<Rightarrow> case acc of (findings, uncached, checked) \<Rightarrow>
       bindS (\<lambda>s. (s, if lc_enable_pair_cache (le_cfg e) then check_pair_cache e a b s else ok None)) (\<lambda>cached.
         case cached of
           Some data \<Rightarrow>
             bindS (findings_from_cached e data report_id a b concept_id user_id) (\<lambda>fs.
             bindS (foldS (\<lambda>f _. link_finding user_id f) fs ()) (\<lambda>_.
             bindS (count_checked report_id checked) (\<lambda>checked'.
               returnS (findings @ fs, uncached, checked'))))
         | None \<Rightarrow>
             bindS (\<lambda>s. (s, ok (extract_claims a s, extract_claims b s))) (\<lambda>(ca, cb).
               if ca \<noteq> [] \<and> cb \<noteq> [] then returnS (findings, uncached @ [(a, b, ca, cb)], checked)
               else bindS (count_checked report_id checked) (\<lambda>checked'. returnS (findings, uncached, checked')))))"

definition detect_concept ::
  "lint_env \<Rightarrow> string \<Rightarrow> string \<Rightarrow> work \<Rightarrow> contradiction_finding list \<times> int \<Rightarrow> (contradiction_finding list \<times> int) lint" where
  "detect_concept e report_id user_id w acc =
     (case w of (concept_id, _, pairs) \<Rightarrow>
       bindS (foldS (sort_out_pair e concept_id report_id user_id) pairs (fst acc, [], snd acc)) (\<lambda>(findings, uncached, checked).
       bindS (process_uncached_pairs e uncached concept_id report_id checked user_id) (\<lambda>(new_findings, checked').
         returnS (findings @ new_findings, checked'))))"

definition start_pairs :: "string \<Rightarrow> int \<Rightarrow> lint_state \<Rightarrow> lint_state" where
  "start_pairs report_id n s =
     s\<lparr>ls_reports := update_where (\<lambda>r. lr_id r = report_id) (\<lambda>r. r\<lparr>lr_total_pairs := n, lr_checked_pairs := 0\<rparr>) (ls_reports s)\<rparr>"

definition total_pairs :: "work list \<Rightarrow> nat" where
  "total_pairs ws = sum_list (map (\<lambda>(_, _, pairs). length pairs) ws)"

definition detect_contradictions :: "lint_env \<Rightarrow> string \<Rightarrow> string \<Rightarrow> contradiction_finding list lint" where
  "detect_contradictions e report_id user_id s =
     (let all_work = collect_work e user_id (ls_db s) in
      bindS (modifyS (start_pairs report_id (int (total_pairs all_work)))) (\<lambda>_.
      bindS (foldS (detect_concept e report_id user_id) all_work ([], 0)) (\<lambda>(findings, _).
        returnS findings)) s)"

section \<open>The pair cache is a map\<close>

lemma sorted_ids_cases:
  "(art_id a \<le> art_id b \<and> sorted_ids a b = [art_id a, art_id b]) \<or> (art_id b \<le> art_id a \<and> sorted_ids a b = [art_id b, art_id a])"
  using linear [of "art_id a" "art_id b"] by (auto simp: sorted_ids_def)

lemma sorted_ids_swap: "sorted_ids b a = sorted_ids a b"
  using linear [of "art_id a" "art_id b"] by (auto simp: sorted_ids_def)

lemma cache_key_swap: "cache_key b a = cache_key a b"
  by (simp add: cache_key_def [abs_def] sorted_ids_swap)

lemma select_saved:
  "select p (delete_where p rows @ [r]) = (if p r then [r] else [])" "(\<And>x. p x \<Longrightarrow> \<not> q x) \<Longrightarrow> \<not> q r \<Longrightarrow> select q (delete_where p rows @ [r]) = select q rows"
  by (auto simp: select_def delete_where_def intro: filter_cong)

lemma pair_set: "cache_key a b p \<Longrightarrow> {pc_article_a_id p, pc_article_b_id p} = {art_id a, art_id b}"
  using sorted_ids_cases [of a b] by (auto simp: cache_key_def)

lemma cache_entry_key: "cache_key a b (cache_entry e a b data)"
  by (simp add: cache_key_def cache_entry_def Let_def)

text \<open>
  C22. The pair cache gives back what was saved for a pair, whichever article comes first, as long as neither article
  was updated; after an update of one of them the entry does not count, and entries of other pairs are untouched.
\<close>

theorem pair_cache_roundtrip:
  assumes "le_loads e (le_dumps e data) = ok data" and "inj (le_show_dt e)" and "art_id a \<noteq> art_id b"
  shows "check_pair_cache e a b (save_pair_cache e a b data s) = ok (Some data) \<and>
    check_pair_cache e b a (save_pair_cache e a b data s) = ok (Some data) \<and>
    (\<forall>a' b'. art_id a' = art_id a \<and> art_id b' = art_id b \<and> (art_updated_at a' \<noteq> art_updated_at a \<or> art_updated_at b' \<noteq> art_updated_at b) \<longrightarrow>
       check_pair_cache e a' b' (save_pair_cache e a b data s) = ok None) \<and>
    (\<forall>c d. {art_id c, art_id d} \<noteq> {art_id a, art_id b} \<longrightarrow>
       check_pair_cache e c d (save_pair_cache e a b data s) = check_pair_cache e c d s)"
proof (intro conjI allI impI)
  let ?entry = "cache_entry e a b data"
  note cache = save_pair_cache_def [of e a b data s]
  note entry = cache_entry_def [of e a b data, unfolded Let_def]
  have hit: "select (cache_key a b) (ls_cache (save_pair_cache e a b data s)) = [?entry]"
    using cache_entry_key [of a b e data] by (simp add: cache select_saved(1) del: select_append)
  show "check_pair_cache e a b (save_pair_cache e a b data s) = ok (Some data)"
    using sorted_ids_cases [of a b] assms(3) by (auto simp: check_pair_cache_def hit first_of_def entry assms(1))
  show "check_pair_cache e b a (save_pair_cache e a b data s) = ok (Some data)"
    using sorted_ids_cases [of a b] assms(3)
    by (auto simp: check_pair_cache_def hit cache_key_swap [of b a] sorted_ids_swap [of b a] first_of_def entry assms(1))
  fix a' b' :: article assume u: "art_id a' = art_id a \<and> art_id b' = art_id b \<and> (art_updated_at a' \<noteq> art_updated_at a \<or> art_updated_at b' \<noteq> art_updated_at b)"
  then have "sorted_ids a' b' = sorted_ids a b" "cache_key a' b' = cache_key a b" by (simp_all add: sorted_ids_def cache_key_def [abs_def])
  then show "check_pair_cache e a' b' (save_pair_cache e a b data s) = ok None"
    using u sorted_ids_cases [of a b] assms(3)
    by (auto simp: check_pair_cache_def hit first_of_def entry inj_eq [OF assms(2)])
next
  fix c d :: article assume other: "{art_id c, art_id d} \<noteq> {art_id a, art_id b}"
  then have "\<not> cache_key c d p" if "cache_key a b p" for p using pair_set [OF that] pair_set [of c d p] by auto
  with cache_entry_key have "select (cache_key c d) (ls_cache (save_pair_cache e a b data s)) = select (cache_key c d) (ls_cache s)"
    by (simp add: save_pair_cache_def select_saved(2) del: select_append)
  then show "check_pair_cache e c d (save_pair_cache e a b data s) = check_pair_cache e c d s" by (simp add: check_pair_cache_def)
qed

text \<open>
  The data of an entry is oriented, the key is not: a hit for the pair in the other order attributes the claim of the
  first article to the second.
\<close>

lemma cache_hit_swaps_claims:
  "\<exists>f'. findings_from_cached e (cache_data_from_findings [f]) report_id b a concept_id user_id s = (s\<lparr>ls_uuids := ls_uuids s + 1\<rparr>, ok [f']) \<and>
     cf_article_a_id f' = art_id b \<and> cf_article_a_claim f' = cf_article_a_claim f \<and>
     cf_article_b_id f' = art_id a \<and> cf_article_b_claim f' = cf_article_b_claim f"
  by (simp add: findings_from_cached_def cache_data_from_findings_def finding_of_def bindS_def effect_simps)


section \<open>A concrete run\<close>

definition ex_answer :: json where
  "ex_answer = JObj [(''contradictions'', JList [JObj [(''description'', JStr ''d''), (''article_a_claim'', JStr ''up''), (''article_b_claim'', JStr ''down'')]])]"

definition ex_show :: "datetime \<Rightarrow> string" where
  "ex_show t = (if t < 0 then CHR ''-'' # replicate (nat (- t)) (CHR ''1'') else replicate (nat t) (CHR ''1''))"

definition ex_lint_env :: lint_env where
  "ex_lint_env = \<lparr>le_cfg = \<lparr>lc_enable_orphan_detection = True, lc_max_concepts_per_run = 2, lc_max_contradiction_pairs_per_concept = 3,
        lc_enable_pair_cache = True, lc_contradiction_batch_enabled = True, lc_contradiction_batch_size = 5,
        lc_auto_recompile_on_contradiction = False, lc_lint_threshold = 1 / 2, lc_decay_rate = 1\<rparr>,
     le_now = 9, le_llm = (\<lambda>_ _. ok (Some ex_answer)), le_sample = take, le_sha = (\<lambda>s. s), le_loads = (\<lambda>_. ok (JList [])),
     le_dumps = (\<lambda>_. []), le_show_dt = ex_show, le_fmt = (\<lambda>_ _. []), le_uuid = (\<lambda>n. replicate n (CHR ''1''))\<rparr>"

definition ex_lint_state :: lint_state where
  "ex_lint_state = \<lparr>ls_db = empty_db\<lparr>articles := [new_article ''a'' ''u'' ''s'' ''A'' ''f'' 1, new_article ''b'' ''u'' ''t'' ''B'' ''g'' 2],
       wiki_files := (\<lambda>p. if p = (''u'', ''f'') then Some ''up'' else if p = (''u'', ''g'') then Some ''down'' else None)\<rparr>,
     ls_claims = [], ls_cache = [], ls_reports = [], ls_contradictions = [], ls_orphans = [], ls_structurals = [], ls_dismissed = [],
     ls_calls = 0, ls_uuids = 0\<rparr>"

lemma inj_ex_show: "inj ex_show"
proof (rule injI)
  fix s t assume st: "ex_show s = ex_show t"
  have neg: "(hd (ex_show x) = CHR ''-'' \<and> ex_show x \<noteq> []) = (x < 0)" for x
    by (cases "nat x") (auto simp: ex_show_def)
  have "nat (abs x) = length (ex_show x) - (if x < 0 then 1 else 0)" for x by (simp add: ex_show_def)
  then have "nat (abs s) = nat (abs t)" using st neg [of s] neg [of t] by simp
  then show "s = t" using neg [of s] neg [of t] st by (auto simp: abs_if split: if_splits)
qed

theorem pair_cache_roundtrip_witness:
  "check_pair_cache ex_lint_env (articles (ls_db ex_lint_state) ! 1) (articles (ls_db ex_lint_state) ! 0)
     (save_pair_cache ex_lint_env (articles (ls_db ex_lint_state) ! 0) (articles (ls_db ex_lint_state) ! 1) (JList []) ex_lint_state) = ok (Some (JList []))"
proof -
  have "le_loads ex_lint_env (le_dumps ex_lint_env (JList [])) = ok (JList [])" "inj (le_show_dt ex_lint_env)"
    by (simp_all add: ex_lint_env_def inj_ex_show)
  moreover have "art_id (articles (ls_db ex_lint_state) ! 0) \<noteq> art_id (articles (ls_db ex_lint_state) ! 1)"
    by (simp add: ex_lint_state_def new_article_def)
  ultimately show ?thesis by (rule conjunct1 [OF conjunct2 [OF pair_cache_roundtrip]])
qed

end
