(* ===== verification/LintSound.thy ===== *)
theory LintSound
  imports LintDetect
begin

text \<open>
  What a run of the contradiction detector leaves behind: which tables it touches, whose articles its findings
  name, that every finding is linked in both directions, the progress counters, and the number of calls of the
  language model.
\<close>

section \<open>Calls\<close>

lemma calls_ask: "calls_within 1 (ask e p)"
  by (simp add: calls_within_def ask_def)

lemma calls_finding: "calls_within 0 (finding_of e r a b c u j)"
  by (rule calls_withinI) (auto simp: finding_of_def split: sum.split prod.split)

lemma calls_link: "calls_within 0 (link_finding u f)"
  unfolding link_finding_def by (rule calls_modify) (simp add: create_contradiction_backlink_def)

lemma calls_record: "calls_within 0 (record_findings e r c u a b found acc)"
  unfolding record_findings_def
  by (intro calls_bind0 calls_simple calls_fold_0 calls_finding calls_link)

lemma calls_attempt: "calls_within 1 (batch_attempt e ps c r u)"
  unfolding batch_attempt_def
  by (intro calls_bind_0 calls_ask calls_bind0 calls_simple calls_fold_0) (auto simp: calls_record split: prod.split)

lemma calls_compare: "calls_within 1 (compare_article_pair e a b c r u)"
proof (rule calls_withinI)
  fix s
  let ?rest = "\<lambda>data. bindS (liftS (jget data ''contradictions'' (JList []))) (\<lambda>found. record_findings e r c u a b found [])"
  obtain t q where ask: "ask e (pair_prompt a b (extract_claims a s) (extract_claims b s)) s = (t, q)" by fastforce
  have t: "ls_calls t \<le> ls_calls s + 1" using calls_withinD [OF calls_ask ask] by simp
  have "calls_within 0 (?rest data)" for data by (intro calls_bind0 calls_simple calls_record)
  then have "ls_calls (fst (?rest data t)) \<le> ls_calls t" for data by (simp add: calls_within_def)
  with ask t show "ls_calls (fst (compare_article_pair e a b c r u s)) \<le> ls_calls s + 1"
    by (auto simp: compare_article_pair_def Let_def split: sum.split intro: le_trans)
qed

lemma calls_fallback: "calls_within (length ps) (batch_fallback e ps c r u)"
proof -
  have "calls_within (sum_list (map (\<lambda>_. 1) ps)) (batch_fallback e ps c r u)"
    unfolding batch_fallback_def
  proof (rule calls_fold)
    fix x :: pair_claims and acc
    obtain a b ca cb where "x = (a, b, ca, cb)" by (cases x)
    then show "calls_within 1 ((\<lambda>(a, b, _, _) acc. bindS (compare_article_pair e a b c r u) (\<lambda>fs. returnS (acc @ fs))) x acc)"
      unfolding prod.case by (simp only: prod.case) (intro calls_bind_0 calls_compare calls_simple)
  qed
  then show ?thesis by (simp add: sum_list_triv)
qed

lemma calls_batch: "calls_within (2 + length ps) (run_batch e ps c r u)"
proof (rule calls_withinI)
  fix s
  obtain s1 q1 where 1: "batch_attempt e ps c r u s = (s1, q1)" by fastforce
  obtain s2 q2 where 2: "batch_attempt e ps c r u s1 = (s2, q2)" by fastforce
  obtain s3 q3 where 3: "batch_fallback e ps c r u s2 = (s3, q3)" by fastforce
  note bounds = calls_withinD [OF calls_attempt 1] calls_withinD [OF calls_attempt 2] calls_withinD [OF calls_fallback 3]
  show "ls_calls (fst (run_batch e ps c r u s)) \<le> ls_calls s + (2 + length ps)"
    using bounds by (auto simp: run_batch_def 1 2 3 split: sum.split)
qed

lemma calls_count: "calls_within 0 (count_checked r n)"
  unfolding count_checked_def by (intro calls_bind0 calls_modify calls_simple) (simp add: set_checked_def)

lemma calls_save: "calls_within 0 (save_if_enabled e a b fs)"
  unfolding save_if_enabled_def by (rule calls_modify) (simp add: save_pair_cache_def)

lemma calls_process_batch: "calls_within (2 + length batch) (process_batch e c r u batch acc)"
  unfolding process_batch_def
  by (intro calls_bind_0 calls_batch calls_bind0 calls_simple calls_fold_0) (auto intro!: calls_bind0 calls_save calls_count split: prod.split)

lemma calls_process_pair: "calls_within 1 (process_pair e c r u p acc)"
proof -
  obtain a b ca cb where "p = (a, b, ca, cb)" by (cases p)
  then show ?thesis unfolding process_pair_def
    by (simp only: prod.case) (intro calls_bind_0 calls_compare calls_bind0 calls_save calls_count calls_simple)
qed

lemma batches_concat: "0 < n \<Longrightarrow> concat (batches n xs) = xs"
  by (induction n xs rule: batches.induct) (subst batches.simps, auto)

lemma batches_nonempty: "b \<in> set (batches n xs) \<Longrightarrow> b \<noteq> []"
proof (induction n xs rule: batches.induct)
  case (1 n xs)
  then show ?case by (subst (asm) (2) batches.simps) (auto split: if_splits)
qed

lemma calls_uncached: "calls_within (3 * length uncached) (process_uncached_pairs e uncached c r n u)"
proof -
  let ?size = "lc_contradiction_batch_size (le_cfg e)"
  have "calls_within (sum_list (map (\<lambda>_. 1) uncached)) (foldS (process_pair e c r u) uncached ([], n))"
    by (rule calls_fold) (rule calls_process_pair)
  then have single: "calls_within (3 * length uncached) (foldS (process_pair e c r u) uncached ([], n))"
    by (rule calls_mono) (simp add: sum_list_triv)
  have "calls_within (sum_list (map (\<lambda>b. 3 * length b) (batches ?size uncached))) (foldS (process_batch e c r u) (batches ?size uncached) ([], n))"
  proof (rule calls_fold)
    fix b acc assume "b \<in> set (batches ?size uncached)"
    from batches_nonempty [OF this] have "1 \<le> length b" by (cases b) auto
    then show "calls_within (3 * length b) (process_batch e c r u b acc)"
      by (intro calls_mono [OF calls_process_batch]) simp
  qed
  moreover have "sum_list (map (\<lambda>b. 3 * length b) bs) = 3 * length (concat bs)" for bs :: "pair_claims list list"
    by (induction bs) auto
  ultimately have "calls_within (3 * length uncached) (foldS (process_batch e c r u) (batches ?size uncached) ([], n))" if "0 < ?size"
    by (simp add: batches_concat that)
  moreover have "calls_within (3 * length uncached) (raiseS x :: (contradiction_finding list \<times> int) lint)" for x by (rule calls_mono [OF calls_simple(2)]) simp
  ultimately show ?thesis using single by (simp add: process_uncached_pairs_def)
qed

lemma calls_cached: "calls_within 0 (findings_from_cached e data r a b c u)"
  unfolding findings_from_cached_def by (intro calls_bind0 calls_simple calls_fold_0 calls_finding)

lemma calls_sort_out: "calls_within 0 (sort_out_pair e c r u ab acc)"
  unfolding sort_out_pair_def
  by (auto intro!: calls_bind0 calls_simple calls_cached calls_fold_0 calls_link calls_count split: prod.split option.split)

lemma sort_out_length:
  assumes "sort_out_pair e c r u ab (fs, uncached, n) s = (s', ok (fs', uncached', n'))"
  shows "length uncached' \<le> length uncached + 1"
  using assms unfolding sort_out_pair_def
  by (auto simp: bindS_ok effect_simps count_checked_def split: prod.splits option.splits if_splits)

lemma calls_concept: "calls_within (3 * length pairs) (detect_concept e r u (c, nm, pairs) acc)"
proof -
  have "calls_within (0 + 3 * length pairs) (bindS (foldS (sort_out_pair e c r u) pairs (fst acc, [], snd acc)) (\<lambda>(findings, uncached, checked).
       bindS (process_uncached_pairs e uncached c r checked u) (\<lambda>(new_findings, checked').
         returnS (findings @ new_findings, checked'))))"
  proof (rule calls_bind)
    show "calls_within 0 (foldS (sort_out_pair e c r u) pairs (fst acc, [], snd acc))" by (intro calls_fold_0 calls_sort_out)
    fix s s' x assume run: "foldS (sort_out_pair e c r u) pairs (fst acc, [], snd acc) s = (s', ok x)"
    obtain fs uncached n where x: "x = (fs, uncached, n)" by (cases x)
    have "length (fst (snd x)) \<le> length pairs"
    proof (rule foldS_inv [OF run, where I = "\<lambda>ys _ x. length (fst (snd x)) \<le> length ys"])
      fix ys :: "(article \<times> article) list" and p acc s s' acc' assume "length (fst (snd acc)) \<le> length ys" "sort_out_pair e c r u p acc s = (s', ok acc')"
      then show "length (fst (snd acc')) \<le> length (ys @ [p])"
        using sort_out_length [of e c r u p "fst acc" "fst (snd acc)" "snd (snd acc)" s s' "fst acc'" "fst (snd acc')" "snd (snd acc')"] by simp
    qed simp
    then have "length uncached \<le> length pairs" by (simp add: x)
    then have "calls_within (3 * length pairs) (process_uncached_pairs e uncached c r n u)"
      by (intro calls_mono [OF calls_uncached]) simp
    then show "calls_within (3 * length pairs) (case x of (findings, uncached, checked) \<Rightarrow>
       bindS (process_uncached_pairs e uncached c r checked u) (\<lambda>(new_findings, checked'). returnS (findings @ new_findings, checked')))"
      unfolding x prod.case by (rule calls_bind_0) (auto intro: calls_simple split: prod.split)
  qed
  then show ?thesis by (simp add: detect_concept_def)
qed

lemma calls_detect: "ls_calls (fst (detect_contradictions e r u s)) \<le> ls_calls s + 3 * total_pairs (collect_work e u (ls_db s))"
proof -
  let ?ws = "collect_work e u (ls_db s)"
  have "calls_within (sum_list (map (\<lambda>w. 3 * length (snd (snd w))) ?ws)) (foldS (detect_concept e r u) ?ws ([], 0))"
  proof (rule calls_fold)
    fix w acc show "calls_within (3 * length (snd (snd w))) (detect_concept e r u w acc)"
      using calls_concept [of "snd (snd w)" e r u "fst w" "fst (snd w)" acc] by simp
  qed
  moreover have "sum_list (map (\<lambda>w. 3 * length (snd (snd w))) ws) = 3 * total_pairs ws" for ws :: "work list"
    by (induction ws) (auto simp: total_pairs_def)
  ultimately have fold: "calls_within (3 * total_pairs ?ws) (foldS (detect_concept e r u) ?ws ([], 0))" by simp
  have "calls_within (3 * total_pairs ?ws) (bindS (modifyS (start_pairs r (int (total_pairs ?ws)))) (\<lambda>_.
      bindS (foldS (detect_concept e r u) ?ws ([], 0)) (\<lambda>(findings, _). returnS findings)))"
    by (intro calls_bind0 calls_modify calls_bind_0 fold) (auto simp: start_pairs_def intro: calls_simple split: prod.split)
  then show ?thesis by (simp add: calls_within_def detect_contradictions_def Let_def)
qed

lemma length_sampled:
  assumes "\<And>m ps. m \<le> length ps \<Longrightarrow> length (le_sample e m ps) = m"
  shows "length (sampled_pairs e arts) \<le> lc_max_contradiction_pairs_per_concept (le_cfg e)"
  using assms by (auto simp: sampled_pairs_def Let_def)

lemma total_pairs_bound:
  assumes "\<And>m ps. m \<le> length ps \<Longrightarrow> length (le_sample e m ps) = m"
  shows "total_pairs (collect_work e u d) \<le> max 1 (lc_max_concepts_per_run (le_cfg e)) * lc_max_contradiction_pairs_per_concept (le_cfg e)"
proof -
  let ?n = "lc_max_contradiction_pairs_per_concept (le_cfg e)" and ?ws = "collect_work e u d"
  have "\<And>w. w \<in> set ?ws \<Longrightarrow> length (snd (snd w)) \<le> ?n"
    by (auto simp: collect_work_def Let_def length_sampled [OF assms] split: if_splits)
  moreover have "total_pairs ws \<le> length ws * k" if "\<And>w. w \<in> set ws \<Longrightarrow> length (snd (snd w)) \<le> k" for ws :: "work list" and k
    using that by (induction ws) (auto simp: total_pairs_def case_prod_beta intro!: add_mono)
  ultimately have "total_pairs ?ws \<le> length ?ws * ?n" by blast
  moreover have "length ?ws \<le> max 1 (lc_max_concepts_per_run (le_cfg e))"
    by (auto simp: collect_work_def Let_def intro: le_trans [OF length_filter_le])
  ultimately show ?thesis by (meson le_trans mult_le_mono1)
qed

text \<open>
  C21. However the language model behaves, on success and on every exception, a run of the detector calls it at most
  three times for each pair of articles it compares, and so at most three times the product of the two configured
  limits: a failing batch costs two calls and one more for each of its pairs, and the cache only saves calls.
\<close>

theorem detect_calls_bounded:
  assumes "\<And>m ps. m \<le> length ps \<Longrightarrow> length (le_sample e m ps) = m" and "detect_contradictions e report_id user_id s = (s', r)"
  shows "ls_calls s' - ls_calls s \<le> 3 * total_pairs (collect_work e user_id (ls_db s)) \<and>
    3 * total_pairs (collect_work e user_id (ls_db s)) \<le>
      3 * (max 1 (lc_max_concepts_per_run (le_cfg e)) * lc_max_contradiction_pairs_per_concept (le_cfg e))"
  using calls_detect [of e report_id user_id s] total_pairs_bound [OF assms(1), of user_id "ls_db s"] assms(2) by simp

section \<open>The frame\<close>

text \<open>What the detector may change: new backlinks, the cache, the counters of its report, calls and ids.\<close>

definition without_progress :: "string \<Rightarrow> lint_report \<Rightarrow> lint_report" where
  "without_progress rid r = (if lr_id r = rid then r\<lparr>lr_total_pairs := 0, lr_checked_pairs := 0\<rparr> else r)"

definition detect_frame :: "string \<Rightarrow> lint_state \<Rightarrow> lint_state \<Rightarrow> bool" where
  "detect_frame rid s t \<longleftrightarrow>
     (\<exists>bs. ls_db t = (ls_db s)\<lparr>backlinks := backlinks (ls_db s) @ bs\<rparr> \<and> (\<forall>l \<in> set bs. bl_relation_type l = CONTRADICTS)) \<and>
     ls_claims t = ls_claims s \<and> ls_contradictions t = ls_contradictions s \<and> ls_orphans t = ls_orphans s \<and>
     ls_structurals t = ls_structurals s \<and> ls_dismissed t = ls_dismissed s \<and>
     map (without_progress rid) (ls_reports t) = map (without_progress rid) (ls_reports s)"

interpretation detect: effect_frame "detect_frame rid" for rid
proof unfold_locales
  show "detect_frame rid s s" for s
    unfolding detect_frame_def by (intro conjI exI [of _ "[]"]) simp_all
  show "detect_frame rid s u" if st: "detect_frame rid s t" and tu: "detect_frame rid t u" for s t u
  proof -
    from st obtain bs where bs: "ls_db t = (ls_db s)\<lparr>backlinks := backlinks (ls_db s) @ bs\<rparr>" "\<forall>l \<in> set bs. bl_relation_type l = CONTRADICTS"
      unfolding detect_frame_def by blast
    from tu obtain cs where cs: "ls_db u = (ls_db t)\<lparr>backlinks := backlinks (ls_db t) @ cs\<rparr>" "\<forall>l \<in> set cs. bl_relation_type l = CONTRADICTS"
      unfolding detect_frame_def by blast
    have "ls_db u = (ls_db s)\<lparr>backlinks := backlinks (ls_db s) @ (bs @ cs)\<rparr>" by (simp add: bs(1) cs(1))
    moreover have "\<forall>l \<in> set (bs @ cs). bl_relation_type l = CONTRADICTS" using bs(2) cs(2) by auto
    ultimately show ?thesis using st tu unfolding detect_frame_def by (intro conjI exI [of _ "bs @ cs"]) simp_all
  qed
qed

lemma detect_frame_same: "ls_db t = ls_db s \<Longrightarrow> ls_claims t = ls_claims s \<Longrightarrow> ls_contradictions t = ls_contradictions s \<Longrightarrow>
    ls_orphans t = ls_orphans s \<Longrightarrow> ls_structurals t = ls_structurals s \<Longrightarrow> ls_dismissed t = ls_dismissed s \<Longrightarrow>
    ls_reports t = ls_reports s \<Longrightarrow> detect_frame rid s t"
  unfolding detect_frame_def by (intro conjI exI [of _ "[]"]) simp_all

lemma put_link_one: "\<exists>bs. put_link ctx u ls st = ls @ bs \<and> (\<forall>l \<in> set bs. bl_relation_type l = CONTRADICTS)"
proof (cases "put_link ctx u ls st = ls")
  case True
  then show ?thesis by (intro exI [of _ "[]"]) simp
next
  case False
  then have "put_link ctx u ls st = ls @ [contradicts_link (fst st) (snd st) ctx u]" unfolding put_link_def by presburger
  then show ?thesis by (intro exI conjI) (assumption, simp add: contradicts_link_def)
qed

lemma put_link_new: "\<exists>bs. foldl (put_link ctx u) ls sts = ls @ bs \<and> (\<forall>l \<in> set bs. bl_relation_type l = CONTRADICTS)"
proof (induction sts arbitrary: ls)
  case (Cons st sts)
  from Cons [of "put_link ctx u ls st"] obtain bs where
    bs: "foldl (put_link ctx u) (put_link ctx u ls st) sts = put_link ctx u ls st @ bs" "\<forall>l \<in> set bs. bl_relation_type l = CONTRADICTS" by blast
  moreover obtain b1 where "put_link ctx u ls st = ls @ b1" "\<forall>l \<in> set b1. bl_relation_type l = CONTRADICTS" using put_link_one by blast
  ultimately show ?case by (intro exI [of _ "b1 @ bs"]) auto
qed simp

lemma frame_link: "detect.keeps rid (link_finding u f)"
proof (rule detect.keepsI)
  fix s :: lint_state
  let ?ctx = "py_str (cf_article_a_claim f) @ '' vs '' @ py_str (cf_article_b_claim f)"
    and ?sts = "[(cf_article_a_id f, cf_article_b_id f), (cf_article_b_id f, cf_article_a_id f)]"
  obtain bs where "foldl (put_link ?ctx u) (backlinks (ls_db s)) ?sts = backlinks (ls_db s) @ bs" "\<forall>l \<in> set bs. bl_relation_type l = CONTRADICTS"
    using put_link_new by blast
  then show "detect_frame rid s (fst (link_finding u f s))"
    unfolding detect_frame_def link_finding_def create_contradiction_backlink_def modifyS_def
    by (intro conjI exI [of _ bs]) (simp_all del: foldl.simps)
qed

lemma frame_ask: "detect.keeps rid (ask e p)" and frame_finding: "detect.keeps rid (finding_of e r a b c u j)"
  by (rule detect.keepsI, rule detect_frame_same, auto simp: ask_def finding_of_def split: sum.split prod.split)+

lemma frame_save: "detect.keeps rid (save_if_enabled e a b fs)"
  unfolding save_if_enabled_def by (intro detect.keeps_modify detect_frame_same) (simp_all add: save_pair_cache_def)

lemma frame_progress:
  assumes "\<And>r. p r \<Longrightarrow> without_progress rid (f r) = without_progress rid r"
  shows "detect_frame rid s (s\<lparr>ls_reports := update_where p f (ls_reports s)\<rparr>)"
  unfolding detect_frame_def using assms by (intro conjI exI [of _ "[]"]) (simp_all add: update_where_def)

lemma frame_record: "detect.keeps rid (record_findings e r c u a b found acc)"
  unfolding record_findings_def
  by (intro detect.keeps_bind detect.keeps_fold detect.keeps_lift detect.keeps_return frame_finding frame_link)

lemma frame_attempt: "detect.keeps rid (batch_attempt e ps c r u)"
proof -
  have "detect.keeps rid ((\<lambda>(i, (a, b, _, _)) acc. record_findings e r c u a b (parsed ! i) acc) x acc)" for parsed x acc
    by (simp add: frame_record split: prod.split)
  then show ?thesis unfolding batch_attempt_def by (intro detect.keeps_bind detect.keeps_fold detect.keeps_lift frame_ask)
qed

lemma frame_compare: "detect.keeps rid (compare_article_pair e a b c r u)"
proof (rule detect.keepsI)
  fix s
  let ?rest = "\<lambda>data. bindS (liftS (jget data ''contradictions'' (JList []))) (\<lambda>found. record_findings e r c u a b found [])"
  obtain t q where ask: "ask e (pair_prompt a b (extract_claims a s) (extract_claims b s)) s = (t, q)" by fastforce
  have t: "detect_frame rid s t" by (rule detect.keepsD [OF frame_ask ask])
  have "detect.keeps rid (?rest data)" for data by (intro detect.keeps_bind detect.keeps_lift frame_record)
  then have "detect_frame rid t (fst (?rest data t))" for data by (simp add: detect.keeps_def)
  with t have "detect_frame rid s (fst (?rest data t))" for data using detect.trans_R by blast
  with ask t show "detect_frame rid s (fst (compare_article_pair e a b c r u s))"
    by (auto simp: compare_article_pair_def Let_def detect.refl_R split: sum.split)
qed

lemma frame_fallback: "detect.keeps rid (batch_fallback e ps c r u)"
proof -
  have "detect.keeps rid ((\<lambda>(a, b, _, _) acc. bindS (compare_article_pair e a b c r u) (\<lambda>fs. returnS (acc @ fs))) x acc)" for x :: pair_claims and acc
    by (auto intro: detect.keeps_bind frame_compare detect.keeps_return split: prod.split)
  then show ?thesis unfolding batch_fallback_def by (rule detect.keeps_fold)
qed

lemma frame_batch: "detect.keeps rid (run_batch e ps c r u)"
proof (rule detect.keepsI)
  fix s
  obtain s1 q1 where 1: "batch_attempt e ps c r u s = (s1, q1)" by fastforce
  obtain s2 q2 where 2: "batch_attempt e ps c r u s1 = (s2, q2)" by fastforce
  obtain s3 q3 where 3: "batch_fallback e ps c r u s2 = (s3, q3)" by fastforce
  note f1 = detect.keepsD [OF frame_attempt 1] and f2 = detect.keepsD [OF frame_attempt 2] and f3 = detect.keepsD [OF frame_fallback 3]
  note f12 = detect.trans_R [OF f1 f2] note f123 = detect.trans_R [OF f12 f3]
  show "detect_frame rid s (fst (run_batch e ps c r u s))"
    using f1 f12 f123 by (auto simp: run_batch_def 1 2 3 split: sum.split)
qed

lemma frame_count: "detect.keeps rid (count_checked rid n)"
proof -
  have "detect.keeps rid (modifyS (set_checked rid k))" for k
    unfolding set_checked_def by (intro detect.keeps_modify frame_progress) (simp add: without_progress_def)
  then show ?thesis unfolding count_checked_def by (intro detect.keeps_bind detect.keeps_return)
qed

lemma frame_process_batch: "detect.keeps rid (process_batch e c rid u batch acc)"
proof -
  have "detect.keeps rid ((\<lambda>(a, b, _, _) checked.
      bindS (save_if_enabled e a b (filter (\<lambda>f. cf_article_a_id f = art_id a \<and> cf_article_b_id f = art_id b) fs)) (\<lambda>_. count_checked rid checked)) x n)"
    for x :: pair_claims and n fs
    by (auto intro: detect.keeps_bind frame_save frame_count split: prod.split)
  then show ?thesis unfolding process_batch_def
    by (intro detect.keeps_bind detect.keeps_fold detect.keeps_return frame_batch)
qed

lemma frame_process_pair: "detect.keeps rid (process_pair e c rid u p acc)"
  by (cases p) (auto simp: process_pair_def intro!: detect.keeps_bind frame_compare frame_save frame_count detect.keeps_return)

lemma frame_uncached: "detect.keeps rid (process_uncached_pairs e uncached c rid n u)"
  unfolding process_uncached_pairs_def
  by (intro detect.keeps_if detect.keeps_fold detect.keeps_raise frame_process_batch frame_process_pair)

lemma frame_cached: "detect.keeps rid (findings_from_cached e data r a b c u)"
  unfolding findings_from_cached_def by (intro detect.keeps_bind detect.keeps_fold detect.keeps_lift detect.keeps_return frame_finding)

lemma frame_read: "detect.keeps rid (\<lambda>s. (s, g s))"
  by (simp add: detect.keeps_def detect.refl_R)

lemma frame_sort_out: "detect.keeps rid (sort_out_pair e c rid u ab acc)"
  by (cases ab; cases acc)
    (auto simp: sort_out_pair_def intro!: detect.keeps_bind frame_read frame_cached detect.keeps_fold frame_link frame_count detect.keeps_return
      split: option.split prod.split)

lemma frame_concept: "detect.keeps rid (detect_concept e rid u w acc)"
  by (cases w) (auto simp: detect_concept_def intro!: detect.keeps_bind detect.keeps_fold frame_sort_out frame_uncached detect.keeps_return split: prod.split)

lemma frame_detect: "detect_frame rid s (fst (detect_contradictions e rid u s))"
proof -
  have "detect.keeps rid (modifyS (start_pairs rid n))" for n
    unfolding start_pairs_def by (intro detect.keeps_modify frame_progress) (simp add: without_progress_def)
  then have "detect.keeps rid (bindS (modifyS (start_pairs rid (int (total_pairs ws)))) (\<lambda>_.
      bindS (foldS (detect_concept e rid u) ws ([], 0)) (\<lambda>(findings, _). returnS findings)))" for ws
    by (auto intro!: detect.keeps_bind detect.keeps_fold frame_concept detect.keeps_return split: prod.split)
  then show ?thesis by (simp add: detect.keeps_def detect_contradictions_def Let_def)
qed

section \<open>Findings\<close>

definition is_finding :: "lint_env \<Rightarrow> string \<Rightarrow> string option \<Rightarrow> string \<Rightarrow> article \<Rightarrow> article \<Rightarrow> contradiction_finding \<Rightarrow> bool" where
  "is_finding e rid c u a b f \<longleftrightarrow> cf_report_id f = rid \<and> cf_shared_concept_id f = c \<and> cf_user_id f = u \<and>
     cf_article_a_id f = art_id a \<and> cf_article_b_id f = art_id b \<and> cf_content_hash f = content_hash e (art_id a) (art_id b) \<and>
     \<not> cf_dismissed f"

definition linked :: "lint_state \<Rightarrow> contradiction_finding \<Rightarrow> bool" where
  "linked s f \<longleftrightarrow>
     (\<exists>l \<in> set (backlinks (ls_db s)). bl_source_article_id l = cf_article_a_id f \<and> bl_target_article_id l = cf_article_b_id f) \<and>
     (\<exists>l \<in> set (backlinks (ls_db s)). bl_source_article_id l = cf_article_b_id f \<and> bl_target_article_id l = cf_article_a_id f)"

definition sound :: "lint_env \<Rightarrow> string \<Rightarrow> string option \<Rightarrow> string \<Rightarrow> (article \<times> article) set \<Rightarrow> lint_state \<Rightarrow> contradiction_finding list \<Rightarrow> bool" where
  "sound e rid c u ps s fs \<longleftrightarrow> (\<forall>f \<in> set fs. linked s f \<and> (\<exists>(a, b) \<in> ps. is_finding e rid c u a b f))"

lemma linked_mono: "detect_frame rid s t \<Longrightarrow> linked s f \<Longrightarrow> linked t f"
  unfolding detect_frame_def linked_def by (elim conjE exE) (simp, blast)

lemma sound_mono: "sound e rid c u ps s fs \<Longrightarrow> ps \<subseteq> qs \<Longrightarrow> detect_frame k s t \<Longrightarrow> sound e rid c u qs t fs"
  unfolding sound_def using linked_mono by blast

lemma sound_append: "sound e rid c u ps s (fs @ gs) \<longleftrightarrow> sound e rid c u ps s fs \<and> sound e rid c u ps s gs"
  by (auto simp: sound_def)

lemma sound_Nil: "sound e rid c u ps s []"
  by (simp add: sound_def)

lemma put_link_has: "\<exists>l \<in> set (put_link ctx u ls st). bl_source_article_id l = fst st \<and> bl_target_article_id l = snd st"
  by (auto simp: put_link_def contradicts_link_def list_ex_iff)

lemma put_link_keeps: "l \<in> set ls \<Longrightarrow> l \<in> set (put_link ctx u ls st)"
  by (simp add: put_link_def)

lemma link_finding_linked:
  assumes "link_finding u f s = (t, ok x)"
  shows "linked t f"
proof -
  let ?ctx = "py_str (cf_article_a_claim f) @ '' vs '' @ py_str (cf_article_b_claim f)"
  let ?ls = "put_link ?ctx u (backlinks (ls_db s)) (cf_article_a_id f, cf_article_b_id f)"
  have "backlinks (ls_db t) = put_link ?ctx u ?ls (cf_article_b_id f, cf_article_a_id f)"
    using assms by (auto simp: link_finding_def modifyS_def create_contradiction_backlink_def)
  moreover obtain l where "l \<in> set ?ls" "bl_source_article_id l = cf_article_a_id f" "bl_target_article_id l = cf_article_b_id f"
    using put_link_has [of ?ctx u "backlinks (ls_db s)" "(cf_article_a_id f, cf_article_b_id f)"] by auto
  ultimately show ?thesis
    unfolding linked_def using put_link_has [of ?ctx u ?ls "(cf_article_b_id f, cf_article_a_id f)"] put_link_keeps [of l ?ls ?ctx u]
    by (metis fst_conv snd_conv)
qed

lemma finding_ofD: "finding_of e rid a b c u j s = (t, ok f) \<Longrightarrow> is_finding e rid c u a b f"
  by (auto simp: finding_of_def is_finding_def split: sum.splits prod.splits)

lemma record_findings_sound:
  assumes "record_findings e rid c u a b found acc s = (t, ok fs)" and "sound e rid c u ps s acc" and "(a, b) \<in> ps"
  shows "sound e rid c u ps t fs"
proof -
  let ?step = "\<lambda>j fs. bindS (finding_of e rid a b c u j) (\<lambda>f. bindS (link_finding u f) (\<lambda>_. returnS (fs @ [f])))"
  from assms(1) obtain cs where run: "foldS ?step cs acc s = (t, ok fs)" by (auto simp: record_findings_def bindS_ok liftS_def)
  show ?thesis
  proof (rule foldS_inv [OF run, where I = "\<lambda>_ s fs. sound e rid c u ps s fs"])
    fix j fs s s' fs' assume fs: "sound e rid c u ps s fs" and step: "?step j fs s = (s', ok fs')"
    from step obtain t1 f t2 y where f: "finding_of e rid a b c u j s = (t1, ok f)" and l: "link_finding u f t1 = (t2, ok y)" and r: "s' = t2" "fs' = fs @ [f]"
      by (auto simp: bindS_ok returnS_def)
    have "detect_frame rid s t2" by (rule detect.trans_R [OF detect.keepsD [OF frame_finding f] detect.keepsD [OF frame_link l]])
    then have "sound e rid c u ps t2 fs" using sound_mono [OF fs subset_refl] by blast
    moreover have "sound e rid c u ps t2 [f]"
      using link_finding_linked [OF l] finding_ofD [OF f] assms(3) by (auto simp: sound_def)
    ultimately show "sound e rid c u ps s' fs'" by (simp add: r sound_append)
  qed (rule assms(2))
qed

lemma batch_attempt_sound:
  assumes "batch_attempt e pairs c rid u s = (t, ok fs)"
  shows "sound e rid c u ((\<lambda>(a, b, _, _). (a, b)) ` set pairs) t fs"
proof -
  let ?ps = "(\<lambda>(a, b, _, _). (a, b)) ` set pairs"
  from assms obtain s1 parsed where run:
    "foldS (\<lambda>(i, (a, b, _, _)) acc. record_findings e rid c u a b (parsed ! i) acc) (enumerate 0 pairs) [] s1 = (t, ok fs)"
    by (auto simp: batch_attempt_def bindS_ok liftS_def)
  show ?thesis
  proof (rule foldS_inv [OF run, where I = "\<lambda>_ s fs. sound e rid c u ?ps s fs"])
    fix x acc s s' acc'
    assume x: "x \<in> set (enumerate 0 pairs)" and acc: "sound e rid c u ?ps s acc"
      and step: "(case x of (i, (a, b, _, _)) \<Rightarrow> \<lambda>acc. record_findings e rid c u a b (parsed ! i) acc) acc s = (s', ok acc')"
    obtain i a b ca cb where xs: "x = (i, (a, b, ca, cb))" by (cases x)
    have "snd x \<in> set pairs" using x nth_mem [of "fst x" pairs] by (simp add: in_set_enumerate_eq)
    then have "(a, b, ca, cb) \<in> set pairs" by (simp add: xs)
    then have "(a, b) \<in> ?ps" by force
    with step acc show "sound e rid c u ?ps s' acc'" unfolding xs prod.case by (rule_tac record_findings_sound)
  qed (rule sound_Nil)
qed

lemma compare_sound:
  assumes "compare_article_pair e a b c rid u s = (t, ok fs)" and "(a, b) \<in> ps"
  shows "sound e rid c u ps t fs"
proof (cases "ask e (pair_prompt a b (extract_claims a s) (extract_claims b s)) s")
  case (Pair s1 q)
  with assms(1) consider "fs = []" | data found where "record_findings e rid c u a b found [] s1 = (t, ok fs)"
    by (auto simp: compare_article_pair_def Let_def bindS_ok liftS_def split: if_splits sum.splits)
  then show ?thesis by cases (auto intro: sound_Nil record_findings_sound [OF _ sound_Nil assms(2)])
qed

lemma fallback_sound:
  assumes "batch_fallback e pairs c rid u s = (t, ok fs)"
  shows "sound e rid c u ((\<lambda>(a, b, _, _). (a, b)) ` set pairs) t fs"
proof -
  let ?ps = "(\<lambda>(a, b, _, _). (a, b)) ` set pairs"
  show ?thesis
  proof (rule foldS_inv [OF assms [unfolded batch_fallback_def], where I = "\<lambda>_ s fs. sound e rid c u ?ps s fs"])
    fix x :: pair_claims and acc s s' acc'
    assume x: "x \<in> set pairs" and acc: "sound e rid c u ?ps s acc"
      and step: "(case x of (a, b, _, _) \<Rightarrow> \<lambda>acc. bindS (compare_article_pair e a b c rid u) (\<lambda>fs. returnS (acc @ fs))) acc s = (s', ok acc')"
    obtain a b ca cb where xs: "x = (a, b, ca, cb)" by (cases x)
    from step obtain fs where fs: "compare_article_pair e a b c rid u s = (s', ok fs)" and acc': "acc' = acc @ fs"
      unfolding xs prod.case by (auto simp: bindS_ok returnS_def)
    have "(a, b) \<in> ?ps" using x unfolding xs by force
    from compare_sound [OF fs this] sound_mono [OF acc subset_refl detect.keepsD [OF frame_compare fs]]
    show "sound e rid c u ?ps s' acc'" by (simp add: acc' sound_append)
  qed (rule sound_Nil)
qed

lemma run_batch_sound:
  assumes "run_batch e pairs c rid u s = (t, ok fs)"
  shows "sound e rid c u ((\<lambda>(a, b, _, _). (a, b)) ` set pairs) t fs"
proof -
  obtain s1 q1 where 1: "batch_attempt e pairs c rid u s = (s1, q1)" by fastforce
  obtain s2 q2 where 2: "batch_attempt e pairs c rid u s1 = (s2, q2)" by fastforce
  from assms consider "q1 = ok fs" "t = s1" | "q2 = ok fs" "t = s2" | "batch_fallback e pairs c rid u s2 = (t, ok fs)"
    by (auto simp: run_batch_def 1 2 split: sum.splits if_splits)
  then show ?thesis by cases (use 1 2 batch_attempt_sound fallback_sound in blast)+
qed

section \<open>Progress\<close>

definition progress :: "string \<Rightarrow> int \<Rightarrow> lint_state \<Rightarrow> bool" where
  "progress rid n s \<longleftrightarrow> (\<forall>r \<in> set (ls_reports s). lr_id r = rid \<longrightarrow> lr_checked_pairs r = n)"

definition same_reports :: "lint_state \<Rightarrow> lint_state \<Rightarrow> bool" where
  "same_reports s t \<longleftrightarrow> ls_reports t = ls_reports s"

interpretation reports: effect_frame same_reports
  by unfold_locales (simp_all add: same_reports_def)

lemma same_finding: "reports.keeps (finding_of e r a b c u j)" and same_link: "reports.keeps (link_finding u f)" and same_ask: "reports.keeps (ask e p)"
  by (rule reports.keepsI, auto simp: same_reports_def finding_of_def link_finding_def modifyS_def create_contradiction_backlink_def ask_def
      split: sum.split prod.split)+

lemma same_record: "reports.keeps (record_findings e r c u a b found acc)"
  unfolding record_findings_def
  by (intro reports.keeps_bind reports.keeps_fold reports.keeps_lift reports.keeps_return same_finding same_link)

lemma same_attempt: "reports.keeps (batch_attempt e ps c r u)"
proof -
  have "reports.keeps ((\<lambda>(i, (a, b, _, _)) acc. record_findings e r c u a b (parsed ! i) acc) x acc)" for parsed x acc
    by (simp add: same_record split: prod.split)
  then show ?thesis unfolding batch_attempt_def by (intro reports.keeps_bind reports.keeps_fold reports.keeps_lift same_ask)
qed

lemma same_compare: "reports.keeps (compare_article_pair e a b c r u)"
proof (rule reports.keepsI)
  fix s
  let ?rest = "\<lambda>data. bindS (liftS (jget data ''contradictions'' (JList []))) (\<lambda>found. record_findings e r c u a b found [])"
  obtain t q where ask: "ask e (pair_prompt a b (extract_claims a s) (extract_claims b s)) s = (t, q)" by fastforce
  have t: "same_reports s t" by (rule reports.keepsD [OF same_ask ask])
  have "reports.keeps (?rest data)" for data by (intro reports.keeps_bind reports.keeps_lift same_record)
  then have "same_reports t (fst (?rest data t))" for data by (simp add: reports.keeps_def)
  with t have "same_reports s (fst (?rest data t))" for data using reports.trans_R by blast
  with ask t show "same_reports s (fst (compare_article_pair e a b c r u s))"
    by (auto simp: compare_article_pair_def Let_def reports.refl_R split: sum.split)
qed

lemma same_fallback: "reports.keeps (batch_fallback e ps c r u)"
proof -
  have "reports.keeps ((\<lambda>(a, b, _, _) acc. bindS (compare_article_pair e a b c r u) (\<lambda>fs. returnS (acc @ fs))) x acc)" for x :: pair_claims and acc
    by (auto intro: reports.keeps_bind same_compare reports.keeps_return split: prod.split)
  then show ?thesis unfolding batch_fallback_def by (rule reports.keeps_fold)
qed

lemma same_batch: "reports.keeps (run_batch e ps c r u)"
proof (rule reports.keepsI)
  fix s
  obtain s1 q1 where 1: "batch_attempt e ps c r u s = (s1, q1)" by fastforce
  obtain s2 q2 where 2: "batch_attempt e ps c r u s1 = (s2, q2)" by fastforce
  obtain s3 q3 where 3: "batch_fallback e ps c r u s2 = (s3, q3)" by fastforce
  note f1 = reports.keepsD [OF same_attempt 1] and f2 = reports.keepsD [OF same_attempt 2] and f3 = reports.keepsD [OF same_fallback 3]
  note f12 = reports.trans_R [OF f1 f2] note f123 = reports.trans_R [OF f12 f3]
  show "same_reports s (fst (run_batch e ps c r u s))" using f1 f12 f123 by (auto simp: run_batch_def 1 2 3 split: sum.split)
qed

lemma same_cached: "reports.keeps (findings_from_cached e data r a b c u)"
  unfolding findings_from_cached_def by (intro reports.keeps_bind reports.keeps_fold reports.keeps_lift reports.keeps_return same_finding)

lemma same_links: "reports.keeps (foldS (\<lambda>f _. link_finding u f) fs ())"
  by (intro reports.keeps_fold same_link)

lemma same_save: "reports.keeps (save_if_enabled e a b fs)"
  unfolding save_if_enabled_def by (rule reports.keeps_modify) (simp add: same_reports_def save_pair_cache_def)

lemma progress_same: "same_reports s t \<Longrightarrow> progress rid n s \<Longrightarrow> progress rid n t"
  by (simp add: same_reports_def progress_def)

lemma count_checkedD:
  assumes "count_checked rid n s = (t, ok m)"
  shows "m = n + 1 \<and> progress rid m t"
proof -
  have "progress rid k (set_checked rid k s)" for k
  proof -
    have "ls_reports (set_checked rid k s) = map (\<lambda>r. if lr_id r = rid then r\<lparr>lr_checked_pairs := k\<rparr> else r) (ls_reports s)"
      by (simp add: set_checked_def update_where_def)
    moreover have "lr_id (if lr_id r = rid then r\<lparr>lr_checked_pairs := k\<rparr> else r) = rid \<longrightarrow>
        lr_checked_pairs (if lr_id r = rid then r\<lparr>lr_checked_pairs := k\<rparr> else r) = k" for r by simp
    ultimately show ?thesis by (simp only: progress_def set_map ball_simps) blast
  qed
  moreover have "m = n + 1" "t = set_checked rid (n + 1) s" using assms by (auto simp: count_checked_def bindS_def effect_simps)
  ultimately show ?thesis by simp
qed

abbreviation pair_set :: "pair_claims list \<Rightarrow> (article \<times> article) set" where
  "pair_set pcs \<equiv> (\<lambda>(a, b, _, _). (a, b)) ` set pcs"

lemma process_batch_sound:
  assumes "process_batch e c rid u batch (fs0, n) s = (t, ok acc)" and "sound e rid c u ps s fs0" and "pair_set batch \<subseteq> ps" and "progress rid n s"
  shows "sound e rid c u ps t (fst acc) \<and> snd acc = n + int (length batch) \<and> progress rid (snd acc) t"
proof -
  let ?step = "\<lambda>fs. \<lambda>(a, b, _, _) checked.
    bindS (save_if_enabled e a b (filter (\<lambda>f. cf_article_a_id f = art_id a \<and> cf_article_b_id f = art_id b) fs)) (\<lambda>_. count_checked rid checked)"
  from assms(1) obtain s1 fs m where rb: "run_batch e batch c rid u s = (s1, ok fs)"
    and loop: "foldS (?step fs) batch n s1 = (t, ok m)" and acc: "acc = (fs0 @ fs, m)"
    unfolding process_batch_def by (auto simp: bindS_ok returnS_def)
  have step: "k' = k + 1 \<and> progress rid k' s'" if "?step fs x k s = (s', ok k')" for x k k' s s'
  proof -
    obtain a b ca cb where x: "x = (a, b, ca, cb)" by (cases x)
    from that show ?thesis unfolding x prod.case by (auto simp: bindS_ok dest: count_checkedD)
  qed
  have "m = n + int (length batch) \<and> progress rid m t"
  proof (rule foldS_inv [OF loop, where I = "\<lambda>ys s k. k = n + int (length ys) \<and> progress rid k s"])
    show "n = n + int (length []) \<and> progress rid n s1"
      using progress_same [OF reports.keepsD [OF same_batch rb] assms(4)] by simp
  qed (use step in fastforce)
  moreover have keep: "detect.keeps rid (foldS (?step fs) batch n)"
    by (intro detect.keeps_fold) (auto intro: detect.keeps_bind frame_save frame_count split: prod.split)
  have "sound e rid c u ps t (fs0 @ fs)"
    unfolding sound_append
    using sound_mono [OF sound_mono [OF assms(2) subset_refl detect.keepsD [OF frame_batch rb]] subset_refl detect.keepsD [OF keep loop]]
      sound_mono [OF run_batch_sound [OF rb] assms(3) detect.keepsD [OF keep loop]] by (rule conjI)
  ultimately show ?thesis by (auto simp: acc)
qed

lemma process_pair_sound:
  assumes "process_pair e c rid u p (fs0, n) s = (t, ok acc)" and "sound e rid c u ps s fs0" and "pair_set [p] \<subseteq> ps"
  shows "sound e rid c u ps t (fst acc) \<and> snd acc = n + 1 \<and> progress rid (snd acc) t"
proof -
  obtain a b ca cb where p: "p = (a, b, ca, cb)" by (cases p)
  from assms(1) obtain s1 fs s2 m where 1: "compare_article_pair e a b c rid u s = (s1, ok fs)" and 2: "save_if_enabled e a b fs s1 = (s2, ok ())"
    and 3: "count_checked rid n s2 = (t, ok m)" and acc: "acc = (fs0 @ fs, m)"
    unfolding process_pair_def p by (auto simp: bindS_ok returnS_def)
  note tail = detect.trans_R [OF detect.keepsD [OF frame_save 2] detect.keepsD [OF frame_count 3]]
  have "sound e rid c u ps t (fs0 @ fs)"
    unfolding sound_append
  proof
    show "sound e rid c u ps t fs0"
      by (rule sound_mono [OF assms(2) subset_refl detect.trans_R [OF detect.keepsD [OF frame_compare 1] tail]])
    have "(a, b) \<in> ps" using assms(3) by (simp add: p)
    from sound_mono [OF compare_sound [OF 1 this] subset_refl tail] show "sound e rid c u ps t fs" .
  qed
  with count_checkedD [OF 3] show ?thesis by (auto simp: acc)
qed

lemma process_uncached_sound:
  assumes "process_uncached_pairs e uncached c rid n u s = (t, ok acc)" and "pair_set uncached \<subseteq> ps" and "progress rid n s"
  shows "sound e rid c u ps t (fst acc) \<and> snd acc = n + int (length uncached) \<and> progress rid (snd acc) t"
proof -
  let ?size = "lc_contradiction_batch_size (le_cfg e)"
  from assms(1) consider "0 < ?size" "foldS (process_batch e c rid u) (batches ?size uncached) ([], n) s = (t, ok acc)"
    | "foldS (process_pair e c rid u) uncached ([], n) s = (t, ok acc)"
    by (auto simp: process_uncached_pairs_def raiseS_def split: if_splits)
  then show ?thesis
  proof cases
    case 1
    have "sound e rid c u ps t (fst acc) \<and> snd acc = n + int (length (concat (batches ?size uncached))) \<and> progress rid (snd acc) t"
    proof (rule foldS_inv [OF 1(2), where I = "\<lambda>ys s acc. sound e rid c u ps s (fst acc) \<and> snd acc = n + int (length (concat ys)) \<and> progress rid (snd acc) s"])
      fix ys :: "pair_claims list list" and b acc s s' acc' assume b: "b \<in> set (batches ?size uncached)"
        and I: "sound e rid c u ps s (fst acc) \<and> snd acc = n + int (length (concat ys)) \<and> progress rid (snd acc) s"
        and step: "process_batch e c rid u b acc s = (s', ok acc')"
      have "set b \<subseteq> set (concat (batches ?size uncached))" using b by auto
      then have ps: "pair_set b \<subseteq> ps" using assms(2) unfolding batches_concat [OF 1(1)] by blast
      from I step obtain fs where acc: "acc = (fs, n + int (length (concat ys)))" and fs: "sound e rid c u ps s fs" by (cases acc) auto
      from process_batch_sound [OF step [unfolded acc] fs ps] I
      show "sound e rid c u ps s' (fst acc') \<and> snd acc' = n + int (length (concat (ys @ [b]))) \<and> progress rid (snd acc') s'" by (auto simp: acc)
    qed (simp add: sound_Nil assms(3))
    then show ?thesis unfolding batches_concat [OF 1(1)] .
  next
    case 2
    show ?thesis
    proof (rule foldS_inv [OF 2, where I = "\<lambda>ys s acc. sound e rid c u ps s (fst acc) \<and> snd acc = n + int (length ys) \<and> progress rid (snd acc) s"])
      fix ys :: "pair_claims list" and p acc s s' acc' assume p: "p \<in> set uncached"
        and I: "sound e rid c u ps s (fst acc) \<and> snd acc = n + int (length ys) \<and> progress rid (snd acc) s"
        and step: "process_pair e c rid u p acc s = (s', ok acc')"
      from p assms(2) have ps: "pair_set [p] \<subseteq> ps" by auto
      from I obtain fs where acc: "acc = (fs, n + int (length ys))" and fs: "sound e rid c u ps s fs" by (cases acc) auto
      from process_pair_sound [OF step [unfolded acc] fs ps]
      show "sound e rid c u ps s' (fst acc') \<and> snd acc' = n + int (length (ys @ [p])) \<and> progress rid (snd acc') s'" by auto
    qed (simp add: sound_Nil assms(3))
  qed
qed

lemma cached_sound:
  assumes "findings_from_cached e data rid a b c u s = (t, ok fs)"
  shows "\<forall>f \<in> set fs. is_finding e rid c u a b f"
proof -
  let ?step = "\<lambda>j fs. bindS (finding_of e rid a b c u j) (\<lambda>f. returnS (fs @ [f]))"
  from assms obtain cs where run: "foldS ?step cs [] s = (t, ok fs)" by (auto simp: findings_from_cached_def bindS_ok liftS_def)
  show ?thesis
    by (rule foldS_inv [OF run, where I = "\<lambda>_ _ fs. \<forall>f \<in> set fs. is_finding e rid c u a b f"])
      (auto simp: bindS_ok returnS_def dest: finding_ofD)
qed

lemma links_linked:
  assumes "foldS (\<lambda>f _. link_finding u f) fs () s = (t, ok x)"
  shows "\<forall>f \<in> set fs. linked t f"
proof (rule foldS_inv [OF assms, where I = "\<lambda>ys s _. \<forall>f \<in> set ys. linked s f"])
  fix ys f s s' and acc acc' :: unit assume I: "\<forall>f \<in> set ys. linked s f" and step: "link_finding u f s = (s', ok acc')"
  have "\<forall>f \<in> set ys. linked s' f" using linked_mono [OF detect.keepsD [OF frame_link step]] I by blast
  with link_finding_linked [OF step] show "\<forall>f \<in> set (ys @ [f]). linked s' f" by simp
qed simp

lemma sort_out_sound:
  assumes "sort_out_pair e c rid u ab (fs0, unc, n) s = (t, ok (fs, unc', m))" and "ab \<in> ps"
    and "sound e rid c u ps s fs0" and "pair_set unc \<subseteq> ps" and "progress rid n s"
  shows "sound e rid c u ps t fs \<and> pair_set unc' \<subseteq> ps \<and> m + int (length unc') = n + int (length unc) + 1 \<and> progress rid m t"
proof -
  obtain a b where ab: "ab = (a, b)" by (cases ab)
  from assms(1) consider
      data s1 gs s2 x where "findings_from_cached e data rid a b c u s = (s1, ok gs)" "foldS (\<lambda>f _. link_finding u f) gs () s1 = (s2, ok x)"
        "count_checked rid n s2 = (t, ok m)" "fs = fs0 @ gs" "unc' = unc"
    | "t = s" "fs = fs0" "unc' = unc @ [(a, b, extract_claims a s, extract_claims b s)]" "m = n"
    | "count_checked rid n s = (t, ok m)" "fs = fs0" "unc' = unc"
    unfolding sort_out_pair_def ab by (auto simp: bindS_ok returnS_def split: option.splits if_splits)
  then show ?thesis
  proof cases
    case 1
    note f1 = detect.keepsD [OF frame_cached 1(1)] and f3 = detect.keepsD [OF frame_count 1(3)]
    have keep: "detect.keeps rid (foldS (\<lambda>f _. link_finding u f) gs ())" by (intro detect.keeps_fold frame_link)
    note f2 = detect.keepsD [OF keep 1(2)]
    have "sound e rid c u ps t fs0"
      by (rule sound_mono [OF assms(3) subset_refl detect.trans_R [OF detect.trans_R [OF f1 f2] f3]])
    moreover have "sound e rid c u ps t gs"
      unfolding sound_def using cached_sound [OF 1(1)] links_linked [OF 1(2)] linked_mono [OF f3] assms(2) ab by blast
    ultimately show ?thesis using count_checkedD [OF 1(3)] assms(4) by (auto simp: 1(4, 5) sound_append)
  next
    case 2
    then show ?thesis using assms(2, 3, 4, 5) ab by simp
  next
    case 3
    from sound_mono [OF assms(3) subset_refl detect.keepsD [OF frame_count 3(1)]] count_checkedD [OF 3(1)] assms(4)
    show ?thesis by (auto simp: 3(2, 3))
  qed
qed

lemma sort_out_prefix:
  assumes "sort_out_pair e c rid u ab (fs0 @ new, unc, n) s = (t, ok (fs, unc', m))"
  shows "\<exists>more. fs = fs0 @ new @ more \<and> sort_out_pair e c rid u ab (new, unc, n) s = (t, ok (new @ more, unc', m))"
proof -
  obtain a b where ab: "ab = (a, b)" by (cases ab)
  let ?hit = "if lc_enable_pair_cache (le_cfg e) then check_pair_cache e a b s else ok None"
  show ?thesis
  proof (cases ?hit)
    case (Inl x)
    with assms show ?thesis by (simp add: sort_out_pair_def ab bindS_def)
  next
    case (Inr hit)
    show ?thesis
    proof (cases hit)
      case None
      have "fs = fs0 @ new" using assms by (auto simp: sort_out_pair_def ab bindS_ok returnS_def Inr None split: if_splits)
      with assms show ?thesis by (auto simp: sort_out_pair_def ab bindS_ok returnS_def Inr None split: if_splits)
    next
      case (Some data)
      with assms show ?thesis by (auto simp: sort_out_pair_def ab bindS_ok returnS_def Inr)
    qed
  qed
qed

lemma concept_sound:
  assumes "detect_concept e rid u (c, nm, pairs) (fs0, n) s = (t, ok (fs, m))" and "progress rid n s"
  shows "\<exists>new. fs = fs0 @ new \<and> sound e rid c u (set pairs) t new \<and> m = n + int (length pairs) \<and> progress rid m t"
proof -
  let ?I = "\<lambda>(ys :: (article \<times> article) list) s (fs, unc, k). \<exists>new. fs = fs0 @ new \<and> sound e rid c u (set pairs) s new \<and> pair_set unc \<subseteq> set pairs \<and>
    k + int (length unc) = n + int (length ys) \<and> progress rid k s"
  from assms(1) obtain s1 gs unc k hs where sorted: "foldS (sort_out_pair e c rid u) pairs (fs0, [], n) s = (s1, ok (gs, unc, k))"
    and rest: "process_uncached_pairs e unc c rid k u s1 = (t, ok (hs, m))" and fs: "fs = gs @ hs"
    by (auto simp: detect_concept_def bindS_ok returnS_def)
  have "?I pairs s1 (gs, unc, k)"
  proof (rule foldS_inv [OF sorted, where I = ?I])
    show "?I [] s (fs0, [], n)" using assms(2) by (simp add: sound_Nil)
    fix ys ab acc s s' acc' assume ab: "ab \<in> set pairs" and I: "?I ys s acc" and step: "sort_out_pair e c rid u ab acc s = (s', ok acc')"
    from I obtain new unc k where acc: "acc = (fs0 @ new, unc, k)" and so: "sound e rid c u (set pairs) s new" and ps: "pair_set unc \<subseteq> set pairs"
      and k: "k + int (length unc) = n + int (length ys)" and pr: "progress rid k s" by (cases acc) auto
    obtain fs' unc' k' where acc': "acc' = (fs', unc', k')" by (cases acc')
    from sort_out_prefix [OF step [unfolded acc acc']] obtain more where fs': "fs' = fs0 @ new @ more"
      and run: "sort_out_pair e c rid u ab (new, unc, k) s = (s', ok (new @ more, unc', k'))" by blast
    from sort_out_sound [OF run ab so ps pr] k show "?I (ys @ [ab]) s' acc'" by (auto simp: acc' fs')
  qed
  then obtain new where gs: "gs = fs0 @ new" and so: "sound e rid c u (set pairs) s1 new" and ps: "pair_set unc \<subseteq> set pairs"
    and k: "k + int (length unc) = n + int (length pairs)" and pr: "progress rid k s1" by auto
  from process_uncached_sound [OF rest ps pr] k sound_mono [OF so subset_refl detect.keepsD [OF frame_uncached rest]]
  show ?thesis by (auto simp: fs gs sound_append)
qed


definition work_sound :: "lint_env \<Rightarrow> string \<Rightarrow> string \<Rightarrow> work list \<Rightarrow> lint_state \<Rightarrow> contradiction_finding \<Rightarrow> bool" where
  "work_sound e rid u ws s f \<longleftrightarrow> linked s f \<and> (\<exists>(c, _, ps) \<in> set ws. \<exists>(a, b) \<in> set ps. is_finding e rid c u a b f)"

lemma works_sound:
  assumes "foldS (detect_concept e rid u) ws ([], 0) s = (t, ok (fs, n))" and "progress rid 0 s"
  shows "(\<forall>f \<in> set fs. work_sound e rid u ws t f) \<and> progress rid (int (total_pairs ws)) t"
proof -
  let ?I = "\<lambda>(ys :: work list) s (fs, n). (\<forall>f \<in> set fs. work_sound e rid u ys s f) \<and> n = int (total_pairs ys) \<and> progress rid n s"
  have "?I ws t (fs, n)"
  proof (rule foldS_inv [OF assms(1), where I = ?I])
    show "?I [] s ([], 0)" using assms(2) by (simp add: total_pairs_def)
    fix ys :: "work list" and w acc s s' acc' assume I: "?I ys s acc" and step: "detect_concept e rid u w acc s = (s', ok acc')"
    obtain c nm ps where w: "w = (c, nm, ps)" by (cases w)
    obtain gs m where acc': "acc' = (gs, m)" by (cases acc')
    from I obtain fs where acc: "acc = (fs, int (total_pairs ys))" and fs: "\<forall>f \<in> set fs. work_sound e rid u ys s f"
      and pr: "progress rid (int (total_pairs ys)) s" by (cases acc) auto
    from concept_sound [OF step [unfolded w acc acc'] pr] obtain new where gs: "gs = fs @ new"
      and new: "sound e rid c u (set ps) s' new" and m: "m = int (total_pairs ys) + int (length ps)" and pr': "progress rid m s'" by blast
    have "work_sound e rid u (ys @ [w]) s' f" if "f \<in> set fs" for f
      using bspec [OF fs that] linked_mono [OF detect.keepsD [OF frame_concept step]] by (auto simp: work_sound_def)
    moreover have "work_sound e rid u (ys @ [w]) s' f" if "f \<in> set new" for f
      using new that by (auto simp: work_sound_def sound_def w)
    ultimately show "?I (ys @ [w]) s' acc'" using m pr' by (auto simp: acc' gs total_pairs_def w)
  qed
  then show ?thesis by auto
qed

lemma progress_start: "progress rid 0 (start_pairs rid n s)"
proof -
  have "lr_id (if lr_id r = rid then r\<lparr>lr_total_pairs := n, lr_checked_pairs := 0\<rparr> else r) = rid \<longrightarrow>
      lr_checked_pairs (if lr_id r = rid then r\<lparr>lr_total_pairs := n, lr_checked_pairs := 0\<rparr> else r) = 0" for r by simp
  moreover have "ls_reports (start_pairs rid n s) = map (\<lambda>r. if lr_id r = rid then r\<lparr>lr_total_pairs := n, lr_checked_pairs := 0\<rparr> else r) (ls_reports s)"
    by (simp add: start_pairs_def update_where_def)
  ultimately show ?thesis by (simp only: progress_def set_map ball_simps) blast
qed

lemma sound_run:
  assumes "detect_contradictions e report_id user_id s = (t, ok fs)"
  shows "(\<forall>f \<in> set fs. work_sound e report_id user_id (collect_work e user_id (ls_db s)) t f) \<and>
    progress report_id (int (total_pairs (collect_work e user_id (ls_db s)))) t \<and> detect_frame report_id s t"
proof -
  let ?ws = "collect_work e user_id (ls_db s)"
  from assms obtain n where "foldS (detect_concept e report_id user_id) ?ws ([], 0) (start_pairs report_id (int (total_pairs ?ws)) s) = (t, ok (fs, n))"
    by (auto simp: detect_contradictions_def Let_def bindS_ok effect_simps)
  from works_sound [OF this progress_start] frame_detect [of report_id s e user_id] assms show ?thesis by simp
qed


lemma ex_detect:
  "detect_contradictions ex_lint_env ''r'' ''u'' ex_lint_state = (fst (detect_contradictions ex_lint_env ''r'' ''u'' ex_lint_state),
     ok (projr (snd (detect_contradictions ex_lint_env ''r'' ''u'' ex_lint_state))))"
  "map cf_article_a_id (projr (snd (detect_contradictions ex_lint_env ''r'' ''u'' ex_lint_state))) = [''b'']"
proof -
  have run: "(case snd (detect_contradictions ex_lint_env ''r'' ''u'' ex_lint_state) of Inl _ \<Rightarrow> [] | Inr fs \<Rightarrow> map cf_article_a_id fs) = [''b'']"
    by code_simp
  then show "map cf_article_a_id (projr (snd (detect_contradictions ex_lint_env ''r'' ''u'' ex_lint_state))) = [''b'']"
    by (auto split: sum.splits)
  from run show "detect_contradictions ex_lint_env ''r'' ''u'' ex_lint_state = (fst (detect_contradictions ex_lint_env ''r'' ''u'' ex_lint_state),
     ok (projr (snd (detect_contradictions ex_lint_env ''r'' ''u'' ex_lint_state))))" by (auto simp: prod_eq_iff split: sum.splits)
qed


theorem detect_calls_bounded_witness:
  "ls_calls (fst (detect_contradictions ex_lint_env ''r'' ''u'' ex_lint_state)) - ls_calls ex_lint_state
     \<le> 3 * total_pairs (collect_work ex_lint_env ''u'' (ls_db ex_lint_state))"
proof -
  have "length (le_sample ex_lint_env m ps) = m" if "m \<le> length ps" for m ps
    using that by (simp add: ex_lint_env_def)
  from detect_calls_bounded [of ex_lint_env, OF this ex_detect(1)] show ?thesis by blast
qed

text \<open>
  The exception the router raises when every provider fails is not among those the detector catches: the run fails
  with it, without the retry and the pair-by-pair fallback.
\<close>

lemma router_failure_aborts:
  assumes "le_llm e (ls_calls s) (pair_prompt a b (extract_claims a s) (extract_claims b s)) = raise (UpstreamError m)"
    and "extract_claims a s \<noteq> []" and "extract_claims b s \<noteq> []"
  shows "snd (compare_article_pair e a b c rid u s) = raise (UpstreamError m)"
  using assms by (simp add: compare_article_pair_def ask_def Let_def)

lemma router_failure_no_retry:
  assumes "le_llm e (ls_calls s) (build_batch_prompt pairs) = raise (UpstreamError m)"
  shows "run_batch e pairs c rid u s = (s\<lparr>ls_calls := ls_calls s + 1\<rparr>, raise (UpstreamError m))"
  using assms by (simp add: run_batch_def batch_attempt_def ask_def bindS_def)

end
