(* ===== verification/Contradictions.thy ===== *)
theory Contradictions
  imports Domain PyStr "HOL-Library.List_Lexorder" "HOL-Library.Char_ord"
begin

text \<open>
  The persisted contradictions, \<^verbatim>\<open>src/src/wikimind/services/contradiction.py\<close>: creation from a linter finding with
  a fingerprint of the two articles and claims, listing, resolution and dismissal. \<open>sha\<close> is the SHA-256 hex
  digest of a text. Ids and times are arguments. Strings are ordered by code points.
\<close>

section \<open>Operations\<close>

record contradiction_response =
  cr_id :: string
  cr_claim_a :: string
  cr_claim_b :: string
  cr_article_a_id :: string
  cr_article_b_id :: string
  cr_article_a_title :: "string option"
  cr_article_b_title :: "string option"
  cr_detected_at :: datetime
  cr_status :: contradiction_status
  cr_resolution :: "string option"
  cr_resolved_at :: "datetime option"
  cr_resolved_by :: "string option"

definition to_response :: "db \<Rightarrow> contradiction \<Rightarrow> contradiction_response" where
  "to_response d c =
     \<lparr>cr_id = ctr_id c, cr_claim_a = ctr_claim_a c, cr_claim_b = ctr_claim_b c,
      cr_article_a_id = ctr_article_a_id c, cr_article_b_id = ctr_article_b_id c,
      cr_article_a_title = map_option art_title (get_by art_id (ctr_article_a_id c) (articles d)),
      cr_article_b_title = map_option art_title (get_by art_id (ctr_article_b_id c) (articles d)),
      cr_detected_at = ctr_detected_at c, cr_status = ctr_status c, cr_resolution = ctr_resolution c,
      cr_resolved_at = ctr_resolved_at c, cr_resolved_by = ctr_resolved_by c\<rparr>"

definition list_contradictions :: "string \<Rightarrow> contradiction_status option \<Rightarrow> nat \<Rightarrow> nat \<Rightarrow> db \<Rightarrow> contradiction_response list" where
  "list_contradictions user_id status limit offset d =
     map (to_response d) (take limit (drop offset (sort_key (\<lambda>c. - ctr_detected_at c)
       (select (\<lambda>c. ctr_user_id c = user_id \<and> (status = None \<or> status = Some (ctr_status c))) (contradictions d)))))"

definition get_contradiction :: "string \<Rightarrow> string \<Rightarrow> db \<Rightarrow> contradiction_response result" where
  "get_contradiction cid user_id d =
     (case get_by ctr_id cid (contradictions d) of
        None \<Rightarrow> raise (NotFoundError ''Contradiction not found'')
      | Some c \<Rightarrow> if ctr_user_id c \<noteq> user_id then raise (NotFoundError ''Contradiction not found'') else ok (to_response d c))"

definition set_status :: "datetime \<Rightarrow> string \<Rightarrow> contradiction_status \<Rightarrow> string option \<Rightarrow> contradiction \<Rightarrow> contradiction" where
  "set_status now user_id new_status resolution c =
     c\<lparr>ctr_status := new_status, ctr_resolution := resolution,
       ctr_resolved_at := (if new_status \<noteq> ACTIVE then Some now else None),
       ctr_resolved_by := (if new_status \<noteq> ACTIVE then Some user_id else None)\<rparr>"

definition resolve_contradiction ::
  "datetime \<Rightarrow> string \<Rightarrow> string \<Rightarrow> contradiction_status \<Rightarrow> string option \<Rightarrow> db \<Rightarrow> (db \<times> contradiction_response) result" where
  "resolve_contradiction now cid user_id new_status resolution d =
     (case get_by ctr_id cid (contradictions d) of
        None \<Rightarrow> raise (NotFoundError ''Contradiction not found'')
      | Some c \<Rightarrow>
          if ctr_user_id c \<noteq> user_id then raise (NotFoundError ''Contradiction not found'')
          else
            (let c' = set_status now user_id new_status resolution c;
                 d' = d\<lparr>contradictions := update_where (\<lambda>x. ctr_id x = cid) (\<lambda>_. c') (contradictions d)\<rparr>
             in ok (d', to_response d' c')))"

definition claim_fingerprint :: "(string \<Rightarrow> string) \<Rightarrow> string \<Rightarrow> string \<Rightarrow> string \<Rightarrow> string \<Rightarrow> string" where
  "claim_fingerprint sha article_a_id article_b_id claim_a claim_b =
     (let ids = sort [article_a_id, article_b_id];
          claims = sort [py_lower (py_strip claim_a), py_lower (py_strip claim_b)]
      in sha (ids ! 0 @ ''|'' @ ids ! 1 @ ''|'' @ claims ! 0 @ ''|'' @ claims ! 1))"

definition create_from_finding ::
  "(string \<Rightarrow> string) \<Rightarrow> datetime \<Rightarrow> string \<Rightarrow> string \<Rightarrow> string \<Rightarrow> string \<Rightarrow> string \<Rightarrow> string option \<Rightarrow> string \<Rightarrow> db \<Rightarrow> db \<times> contradiction" where
  "create_from_finding sha now fresh_id claim_a claim_b article_a_id article_b_id source_finding_id user_id d =
     (let fingerprint = claim_fingerprint sha article_a_id article_b_id claim_a claim_b in
      case first_of (select (\<lambda>c. ctr_user_id c = user_id \<and> ctr_status c = ACTIVE \<and> ctr_claim_fingerprint c = fingerprint) (contradictions d)) of
        Some existing \<Rightarrow> (d, existing)
      | None \<Rightarrow>
          (let c = \<lparr>ctr_id = fresh_id, ctr_claim_a = claim_a, ctr_claim_b = claim_b, ctr_article_a_id = article_a_id,
                    ctr_article_b_id = article_b_id, ctr_source_finding_id = source_finding_id, ctr_claim_fingerprint = fingerprint,
                    ctr_detected_at = now, ctr_status = ACTIVE, ctr_resolution = None, ctr_resolved_at = None,
                    ctr_resolved_by = None, ctr_user_id = user_id\<rparr>
           in (d\<lparr>contradictions := contradictions d @ [c]\<rparr>, c)))"

section \<open>One active row per contradiction\<close>

lemma sort_pair_commute: "sort [x, y] = sort [y, x]" for x :: "'a :: linorder"
  using linear [of x y] by auto

lemma claim_fingerprint_symmetric:
  "claim_fingerprint sha b a x y = claim_fingerprint sha a b x y" "claim_fingerprint sha a b y x = claim_fingerprint sha a b x y"
  unfolding claim_fingerprint_def
  by (simp_all only: sort_pair_commute [of b a] sort_pair_commute [of "py_lower (py_strip y)"])

definition active_key :: "string \<Rightarrow> string \<Rightarrow> contradiction \<Rightarrow> bool" where
  "active_key user_id fp c \<longleftrightarrow> ctr_user_id c = user_id \<and> ctr_status c = ACTIVE \<and> ctr_claim_fingerprint c = fp"

definition ctrs_ok :: "db \<Rightarrow> bool" where
  "ctrs_ok d \<longleftrightarrow> distinct (map ctr_id (contradictions d)) \<and>
     (\<forall>u fp. length (select (active_key u fp) (contradictions d)) \<le> 1)"

text \<open>What linter runs and users do: findings, and resolutions and dismissals, of any user.\<close>

inductive ctr_step :: "(string \<Rightarrow> string) \<Rightarrow> db \<Rightarrow> db \<Rightarrow> bool" for sha where
  found: "create_from_finding sha now i x y a b src u d = (d', c) \<Longrightarrow> i \<notin> ctr_id ` set (contradictions d) \<Longrightarrow> ctr_step sha d d'"
| closed: "resolve_contradiction now cid u st res d = ok (d', r) \<Longrightarrow> st \<noteq> ACTIVE \<Longrightarrow> ctr_step sha d d'"

lemma create_from_finding_cases:
  assumes "create_from_finding sha now i x y a b src u d = (d', c)"
  obtains "select (active_key u (claim_fingerprint sha a b x y)) (contradictions d) \<noteq> []" "d' = d"
      "c \<in> set (select (active_key u (claim_fingerprint sha a b x y)) (contradictions d))"
  | "select (active_key u (claim_fingerprint sha a b x y)) (contradictions d) = []" "d' = d\<lparr>contradictions := contradictions d @ [c]\<rparr>"
      "ctr_id c = i" "active_key u (claim_fingerprint sha a b x y) c"
proof (cases "first_of (select (active_key u (claim_fingerprint sha a b x y)) (contradictions d))")
  case None
  then have "select (active_key u (claim_fingerprint sha a b x y)) (contradictions d) = []" by simp
  with assms that(2) show ?thesis by (simp add: create_from_finding_def Let_def active_key_def [abs_def] first_of_def) auto
next
  case (Some e)
  then have e: "e \<in> set (select (active_key u (claim_fingerprint sha a b x y)) (contradictions d))" by (rule first_of_Some)
  from Some assms have "d' = d" "c = e" by (simp_all add: create_from_finding_def Let_def active_key_def [abs_def])
  then show ?thesis using that(1) e by (metis empty_iff empty_set)
qed

lemma create_from_finding_ok:
  assumes "ctrs_ok d" and "create_from_finding sha now i x y a b src u d = (d', c)" and "i \<notin> ctr_id ` set (contradictions d)"
  shows "ctrs_ok d'" and "select (active_key u (claim_fingerprint sha a b x y)) (contradictions d') = [c]"
proof -
  let ?fp = "claim_fingerprint sha a b x y"
  have "ctrs_ok d' \<and> select (active_key u ?fp) (contradictions d') = [c]"
    using assms(2)
  proof (cases rule: create_from_finding_cases)
    case 1
    have "length (select (active_key u ?fp) (contradictions d)) \<le> 1" using assms(1) by (simp add: ctrs_ok_def)
    with 1(1, 3) have "select (active_key u ?fp) (contradictions d) = [c]"
      by (cases "select (active_key u ?fp) (contradictions d)") auto
    with 1(2) assms(1) show ?thesis by simp
  next
    case 2
    have "length (select (active_key v fp) (contradictions d')) \<le> 1" for v fp
    proof (cases "v = u \<and> fp = ?fp")
      case True
      with 2 show ?thesis by (simp add: select_def)
    next
      case False
      then have "\<not> active_key v fp c" using 2(4) by (auto simp: active_key_def)
      with 2(2) assms(1) show ?thesis by (simp add: ctrs_ok_def select_def)
    qed
    with 2 assms(1, 3) show ?thesis by (simp add: ctrs_ok_def select_def)
  qed
  then show "ctrs_ok d'" and "select (active_key u ?fp) (contradictions d') = [c]" by simp_all
qed

lemma length_select_update:
  "(\<And>r. p r \<Longrightarrow> \<not> q (f r)) \<Longrightarrow> length (select q (update_where p f rows)) \<le> length (select q rows)"
  by (induction rows) (auto simp: select_def update_where_def)

lemma ctr_step_ok: "ctr_step sha d d' \<Longrightarrow> ctrs_ok d \<Longrightarrow> ctrs_ok d'"
proof (induction rule: ctr_step.induct)
  case (found now i x y a b src u d d' c)
  then show ?case by (blast intro: create_from_finding_ok(1))
next
  case (closed now cid u st res d d' r)
  obtain c where c: "get_by ctr_id cid (contradictions d) = Some c" using closed(1)
    by (cases "get_by ctr_id cid (contradictions d)") (auto simp: resolve_contradiction_def)
  let ?c = "set_status now u st res c"
  have d': "d' = d\<lparr>contradictions := update_where (\<lambda>x. ctr_id x = cid) (\<lambda>_. ?c) (contradictions d)\<rparr>"
    using closed(1) c by (auto simp: resolve_contradiction_def Let_def split: if_splits)
  have "\<not> active_key v fp ?c" for v fp using closed(2) by (simp add: active_key_def set_status_def)
  then have "length (select (active_key v fp) (contradictions d')) \<le> length (select (active_key v fp) (contradictions d))" for v fp
    unfolding d' by (simp add: length_select_update)
  moreover have "map ctr_id (contradictions d') = map ctr_id (contradictions d)"
    using get_by_Some [OF c] unfolding d' by (simp add: set_status_def)
  ultimately show ?case using closed(3) unfolding ctrs_ok_def by (metis le_trans)
qed


section \<open>Examples\<close>

definition ex_run :: "db \<times> contradiction" where
  "ex_run = create_from_finding id 1 ''1'' '' Up'' ''down'' ''b'' ''a'' None ''u'' empty_db"


text \<open>
  A dismissed contradiction that a later run finds again becomes a new active row; and setting the dismissed row
  active again, which the service accepts, leaves two active rows of one fingerprint.
\<close>

definition ex_dismissed :: db where
  "ex_dismissed = (case resolve_contradiction 2 ''1'' ''u'' DISMISSED None (fst ex_run) of Inr (d, _) \<Rightarrow> d | Inl _ \<Rightarrow> empty_db)"

definition ex_again :: db where
  "ex_again = fst (create_from_finding id 3 ''2'' '' Up'' ''down'' ''b'' ''a'' None ''u'' ex_dismissed)"

definition ex_reactivated :: db where
  "ex_reactivated = (case resolve_contradiction 4 ''1'' ''u'' ACTIVE None ex_again of Inr (d, _) \<Rightarrow> d | Inl _ \<Rightarrow> empty_db)"

lemma dismissed_contradiction_returns:
  "map (\<lambda>c. (ctr_id c, ctr_status c)) (contradictions ex_again) = [(''1'', DISMISSED), (''2'', ACTIVE)]"
  by code_simp

lemma reactivation_duplicates:
  "map (\<lambda>c. (ctr_status c, ctr_claim_fingerprint c)) (contradictions ex_reactivated) = [(ACTIVE, ''a|b|down|up''), (ACTIVE, ''a|b|down|up'')]"
  by code_simp

end
