(* ===== verification/LintRunner.thy ===== *)
theory LintRunner
  imports LintSound BacklinkEnforcer Contradictions Confidence
begin

text \<open>
  The lint pipeline: \<^verbatim>\<open>src/src/wikimind/engine/linter/runner.py\<close>, \<^verbatim>\<open>orphans.py\<close>, \<^verbatim>\<open>staleness.py\<close> and
  \<^verbatim>\<open>stale_spans.py\<close>, and the report service \<^verbatim>\<open>src/src/wikimind/services/linter.py\<close>. The state is the one of the
  detector. A commit is not visible in the model, a rollback restores the state at the start of the run. The alert
  on the WebSocket and the job rows are outside; what is modelled of the recompilation is which articles it is
  queued for. \<open>le_fmt e 0\<close> is \<open>str\<close> of a float.
\<close>

section \<open>Orphans\<close>

definition orphan_hash :: "lint_env \<Rightarrow> string \<Rightarrow> string" where
  "orphan_hash e article_id = le_sha e (finding_kind_value K_ORPHAN @ ''|'' @ article_id)"

definition is_orphan :: "string \<Rightarrow> db \<Rightarrow> article \<Rightarrow> bool" where
  "is_orphan user_id d a \<longleftrightarrow>
     select (\<lambda>b. bl_target_article_id b = art_id a \<and> bl_user_id b = user_id) (backlinks d) = [] \<and>
     select (\<lambda>b. bl_source_article_id b = art_id a \<and> bl_user_id b = user_id) (backlinks d) = [] \<and> art_user_id a = user_id"

definition quoted :: "string \<Rightarrow> string" where
  "quoted s = CHR 0x27 # s @ [CHR 0x27]"

definition orphan_of :: "lint_env \<Rightarrow> string \<Rightarrow> string \<Rightarrow> article \<Rightarrow> lint_state \<Rightarrow> lint_state \<times> orphan_finding" where
  "orphan_of e report_id user_id a s =
     (s\<lparr>ls_uuids := ls_uuids s + 1\<rparr>,
      \<lparr>of_id = le_uuid e (ls_uuids s), of_user_id = user_id, of_report_id = report_id, of_severity = INFO,
       of_description = ''Article '' @ quoted (art_title a) @ '' has no inbound or outbound links'', of_created_at = le_now e,
       of_dismissed = False, of_dismissed_at = None, of_content_hash = orphan_hash e (art_id a), of_article_id = art_id a,
       of_article_title = art_title a\<rparr>)"

text \<open>A loop that makes one row, with a fresh id, for each element.\<close>

fun make_rows :: "('a \<Rightarrow> lint_state \<Rightarrow> lint_state \<times> 'r) \<Rightarrow> 'a list \<Rightarrow> lint_state \<Rightarrow> lint_state \<times> 'r list" where
  "make_rows f [] s = (s, [])"
| "make_rows f (x # xs) s =
     (let (t, r) = f x s; (u, rs) = make_rows f xs t in (u, r # rs))"

definition detect_orphans :: "lint_env \<Rightarrow> string \<Rightarrow> string \<Rightarrow> lint_state \<Rightarrow> lint_state \<times> orphan_finding list" where
  "detect_orphans e report_id user_id s =
     (if \<not> lc_enable_orphan_detection (le_cfg e) then (s, [])
      else make_rows (orphan_of e report_id user_id) (select (is_orphan user_id (ls_db s)) (articles (ls_db s))) s)"

section \<open>Structural findings\<close>

definition structural_content_hash :: "lint_env \<Rightarrow> string \<Rightarrow> string \<Rightarrow> string" where
  "structural_content_hash e article_id violation_type =
     le_sha e (finding_kind_value K_STRUCTURAL @ ''|'' @ article_id @ ''|'' @ violation_type)"

definition structural_of ::
  "lint_env \<Rightarrow> string \<Rightarrow> string \<Rightarrow> string \<times> string \<times> string \<times> bool \<times> string \<Rightarrow> lint_state \<Rightarrow> lint_state \<times> structural_finding" where
  "structural_of e report_id user_id v s =
     (case v of (article_id, violation_type, description, auto_repaired, detail) \<Rightarrow>
       (s\<lparr>ls_uuids := ls_uuids s + 1\<rparr>,
        \<lparr>sf_id = le_uuid e (ls_uuids s), sf_user_id = user_id, sf_report_id = report_id, sf_severity = WARN, sf_description = description,
         sf_created_at = le_now e, sf_dismissed = False, sf_dismissed_at = None,
         sf_content_hash = structural_content_hash e article_id violation_type, sf_article_id = article_id,
         sf_violation_type = violation_type, sf_auto_repaired = auto_repaired, sf_detail = detail\<rparr>))"

fun enforce_all :: "lint_env \<Rightarrow> string \<Rightarrow> string \<Rightarrow> article list \<Rightarrow> lint_state \<Rightarrow> lint_state \<times> structural_finding list" where
  "enforce_all e report_id user_id [] s = (s, [])"
| "enforce_all e report_id user_id (a # as) s =
     (let (d, res) = enforce_backlinks (le_loads e) (art_id a) (ls_db s);
          (t, fs) = make_rows (structural_of e report_id user_id)
             (map (\<lambda>v. (ev_article_id v, ev_violation_type v, ev_detail v, ev_auto_repaired v, ev_detail v)) (er_violations res)) (s\<lparr>ls_db := d\<rparr>);
          (u, gs) = enforce_all e report_id user_id as t
      in (u, fs @ gs))"

definition on_report :: "string \<Rightarrow> (lint_report \<Rightarrow> lint_report) \<Rightarrow> lint_state \<Rightarrow> lint_state" where
  "on_report report_id f s = s\<lparr>ls_reports := update_where (\<lambda>r. lr_id r = report_id) f (ls_reports s)\<rparr>"

definition run_enforcer_checks :: "lint_env \<Rightarrow> string \<Rightarrow> string \<Rightarrow> lint_state \<Rightarrow> lint_state \<times> structural_finding list" where
  "run_enforcer_checks e report_id user_id s =
     (let arts = select (\<lambda>a. art_user_id a = user_id) (articles (ls_db s));
          (t, findings) = enforce_all e report_id user_id arts s
      in (on_report report_id (\<lambda>r. r\<lparr>lr_checked_articles := Some (int (length arts))\<rparr>) t, findings))"

section \<open>Staleness\<close>

definition staleness_score :: "lint_env \<Rightarrow> article \<Rightarrow> rat" where
  "staleness_score e a =
     (case art_last_reinforced_at a of
        None \<Rightarrow> 1
      | Some t \<Rightarrow> compute_staleness (fl (fl (of_int (le_now e - t) / 1000000) / 86400)) (lc_decay_rate (le_cfg e)))"

definition stale_violation :: "lint_env \<Rightarrow> article \<Rightarrow> string \<times> string \<times> string \<times> bool \<times> string" where
  "stale_violation e a =
     (let score = staleness_score e a in
      (art_id a, ''stale_article'',
       ''Article '' @ quoted (art_title a) @ '' is stale (staleness='' @ le_fmt e 2 score @ '', threshold='' @ le_fmt e 0 (lc_lint_threshold (le_cfg e)) @ '')'',
       False,
       ''staleness_score='' @ le_fmt e 4 score @ '', last_reinforced_at='' @
         (case art_last_reinforced_at a of None \<Rightarrow> ''None'' | Some t \<Rightarrow> le_show_dt e t)))"

definition detect_stale_articles :: "lint_env \<Rightarrow> string \<Rightarrow> string \<Rightarrow> lint_state \<Rightarrow> lint_state \<times> structural_finding list" where
  "detect_stale_articles e report_id user_id s =
     make_rows (structural_of e report_id user_id)
       (map (stale_violation e) (filter (\<lambda>a. lc_lint_threshold (le_cfg e) < staleness_score e a)
          (select (\<lambda>a. art_user_id a = user_id) (articles (ls_db s))))) s"

section \<open>Stale spans\<close>

text \<open>\<open>sid in stale_span_ids\<close>: an unhashable element raises, any other that is no string is not in the set.\<close>

fun in_span_ids :: "string list \<Rightarrow> json \<Rightarrow> bool result" where
  "in_span_ids ids (JStr sid) = ok (sid \<in> set ids)"
| "in_span_ids ids (JList _) = raise (TypeError ''unhashable type'')"
| "in_span_ids ids (JObj _) = raise (TypeError ''unhashable type'')"
| "in_span_ids ids _ = ok False"

fun count_stale :: "string list \<Rightarrow> json list \<Rightarrow> nat result" where
  "count_stale ids [] = ok 0"
| "count_stale ids (j # js) = bindR (in_span_ids ids j) (\<lambda>b. bindR (count_stale ids js) (\<lambda>n. ok ((if b then 1 else 0) + n)))"

fun decode_caught :: "exc \<Rightarrow> bool" where
  "decode_caught (ValueError _) = True"
| "decode_caught (TypeError _) = True"
| "decode_caught _ = False"

text \<open>The counts by article, in the order in which the articles are first counted.\<close>

definition add_count :: "string \<Rightarrow> nat \<Rightarrow> (string \<times> nat) list \<Rightarrow> (string \<times> nat) list" where
  "add_count k n counts =
     (case map_of counts k of None \<Rightarrow> counts @ [(k, n)] | Some m \<Rightarrow> map (\<lambda>(i, v). if i = k then (i, m + n) else (i, v)) counts)"

fun count_claims :: "lint_env \<Rightarrow> string list \<Rightarrow> compiled_claim list \<Rightarrow> (string \<times> nat) list \<Rightarrow> (string \<times> nat) list result" where
  "count_claims e ids [] counts = ok counts"
| "count_claims e ids (c # cs) counts =
     (case le_loads e (cc_source_span_ids c) of
        Inl x \<Rightarrow> if decode_caught x then count_claims e ids cs counts else raise x
      | Inr span_ids \<Rightarrow>
          bindR (json_items span_ids) (\<lambda>js.
          bindR (count_stale ids js) (\<lambda>n.
            count_claims e ids cs (if 0 < n then add_count (cc_article_id c) n counts else counts))))"

definition detect_stale_spans :: "lint_env \<Rightarrow> string \<Rightarrow> string \<Rightarrow> structural_finding list lint" where
  "detect_stale_spans e report_id user_id s =
     (let ids = map sp_id (select (\<lambda>p. sp_user_id p = user_id \<and> sp_stale p) (source_spans (ls_db s))) in
      if ids = [] then (s, ok [])
      else
        (case count_claims e ids (select (\<lambda>c. cc_user_id c = user_id \<and> cc_source_span_ids c \<noteq> ''[]'') (ls_claims s)) [] of
           Inl x \<Rightarrow> (s, Inl x)
         | Inr counts \<Rightarrow>
             (let title = (\<lambda>i. case get_by art_id i (articles (ls_db s)) of None \<Rightarrow> i | Some a \<Rightarrow> art_title a);
                  (t, fs) = make_rows (structural_of e report_id user_id)
                    (map (\<lambda>(i, n). (i, ''stale_source_spans'',
                       ''Article '' @ quoted (title i) @ '' has '' @ show_nat n @ '' claim(s) referencing stale source spans'',
                       False, ''stale_span_references='' @ show_nat n)) counts) s
              in (t, ok fs))))"

section \<open>Dismissals\<close>

definition suppress_contradiction :: "string list \<Rightarrow> datetime \<Rightarrow> contradiction_finding \<Rightarrow> contradiction_finding" where
  "suppress_contradiction hashes now f =
     (if cf_content_hash f \<in> set hashes then f\<lparr>cf_dismissed := True, cf_dismissed_at := Some now\<rparr> else f)"

definition suppress_orphan :: "string list \<Rightarrow> datetime \<Rightarrow> orphan_finding \<Rightarrow> orphan_finding" where
  "suppress_orphan hashes now f =
     (if of_content_hash f \<in> set hashes then f\<lparr>of_dismissed := True, of_dismissed_at := Some now\<rparr> else f)"

definition suppress_structural :: "string list \<Rightarrow> datetime \<Rightarrow> structural_finding \<Rightarrow> structural_finding" where
  "suppress_structural hashes now f =
     (if sf_content_hash f \<in> set hashes then f\<lparr>sf_dismissed := True, sf_dismissed_at := Some now\<rparr> else f)"

type_synonym findings = "contradiction_finding list \<times> orphan_finding list \<times> structural_finding list"

definition apply_dismiss_suppression :: "lint_env \<Rightarrow> lint_state \<Rightarrow> findings \<Rightarrow> findings" where
  "apply_dismiss_suppression e s fs =
     (case fs of (cs, os, ss) \<Rightarrow>
       let all_hashes = map cf_content_hash cs @ map of_content_hash os @ map sf_content_hash ss;
           hashes = map df_content_hash (select (\<lambda>r. df_content_hash r \<in> set all_hashes) (ls_dismissed s))
       in (map (suppress_contradiction hashes (le_now e)) cs, map (suppress_orphan hashes (le_now e)) os,
           map (suppress_structural hashes (le_now e)) ss))"

section \<open>The end of a run\<close>

fun json_text :: "json \<Rightarrow> string" where
  "json_text (JStr s) = s"
| "json_text _ = []"

text \<open>The columns that come from the language model can be written only if they are strings.\<close>

definition writable :: "contradiction_finding \<Rightarrow> bool" where
  "writable f \<longleftrightarrow> list_all (\<lambda>j. j = JStr (json_text j)) [cf_description f, cf_article_a_claim f, cf_article_b_claim f, cf_llm_confidence f]"

fun link_contradictions :: "lint_env \<Rightarrow> string \<Rightarrow> contradiction_finding list \<Rightarrow> lint_state \<Rightarrow> lint_state \<times> contradiction_finding list" where
  "link_contradictions e user_id [] s = (s, [])"
| "link_contradictions e user_id (f # fs) s =
     (if cf_dismissed f then (let (t, gs) = link_contradictions e user_id fs s in (t, f # gs))
      else
        (let (d, c) = create_from_finding (le_sha e) (le_now e) (le_uuid e (ls_uuids s)) (json_text (cf_article_a_claim f)) (json_text (cf_article_b_claim f))
               (cf_article_a_id f) (cf_article_b_id f) (Some (cf_id f)) user_id (ls_db s);
             (t, gs) = link_contradictions e user_id fs (s\<lparr>ls_db := d, ls_uuids := ls_uuids s + 1\<rparr>)
         in (t, f\<lparr>cf_contradiction_id := Some (ctr_id c)\<rparr> # gs)))"

definition recompile_targets :: "contradiction_finding list \<Rightarrow> string list \<Rightarrow> string list" where
  "recompile_targets new_findings existing_hashes =
     nub (concat (map (\<lambda>f. [cf_article_a_id f, cf_article_b_id f]) (filter (\<lambda>f. cf_content_hash f \<notin> set existing_hashes) new_findings)))"

definition complete_report :: "lint_env \<Rightarrow> nat \<Rightarrow> nat \<Rightarrow> nat \<Rightarrow> nat \<Rightarrow> lint_report \<Rightarrow> lint_report" where
  "complete_report e c orph st dismissed r =
     r\<lparr>lr_status := REPORT_COMPLETE, lr_completed_at := Some (le_now e), lr_contradictions_count := int c, lr_orphans_count := int orph,
       lr_structural_count := int st, lr_total_findings := int (c + orph + st), lr_dismissed_count := int dismissed\<rparr>"

text \<open>The new state and the articles to recompile.\<close>

definition persist_and_finalize :: "lint_env \<Rightarrow> string \<Rightarrow> string \<Rightarrow> string list \<Rightarrow> findings \<Rightarrow> lint_state \<Rightarrow> lint_state \<times> string list" where
  "persist_and_finalize e report_id user_id existing_hashes fs s =
     (case fs of (cs, os, ss) \<Rightarrow>
       let active_cs = filter (\<lambda>f. \<not> cf_dismissed f) cs; active_os = filter (\<lambda>f. \<not> of_dismissed f) os; active_ss = filter (\<lambda>f. \<not> sf_dismissed f) ss;
           (t, cs') = link_contradictions e user_id cs s;
           dismissed = (length cs - length active_cs) + (length os - length active_os) + (length ss - length active_ss);
           u = on_report report_id (complete_report e (length active_cs) (length active_os) (length active_ss) dismissed)
             (t\<lparr>ls_contradictions := ls_contradictions t @ cs', ls_orphans := ls_orphans t @ os, ls_structurals := ls_structurals t @ ss\<rparr>)
       in (u, if active_cs \<noteq> [] \<and> lc_auto_recompile_on_contradiction (le_cfg e) then recompile_targets active_cs existing_hashes else []))"

section \<open>The run\<close>

definition check_in_progress :: "string \<Rightarrow> lint_state \<Rightarrow> lint_report option" where
  "check_in_progress user_id s = first_of (select (\<lambda>r. lr_status r = IN_PROGRESS \<and> lr_user_id r = user_id) (ls_reports s))"

definition snapshot_hashes :: "string \<Rightarrow> lint_state \<Rightarrow> string list" where
  "snapshot_hashes user_id s = map cf_content_hash (select (\<lambda>f. cf_user_id f = user_id) (ls_contradictions s))"

definition new_report :: "lint_env \<Rightarrow> string \<Rightarrow> string option \<Rightarrow> lint_state \<Rightarrow> lint_report" where
  "new_report e user_id jid s =
     \<lparr>lr_id = le_uuid e (ls_uuids s), lr_user_id = user_id, lr_generated_at = le_now e, lr_completed_at = None, lr_status = IN_PROGRESS,
      lr_article_count = int (length (select (\<lambda>a. art_user_id a = user_id) (articles (ls_db s)))), lr_total_findings = 0,
      lr_contradictions_count = 0, lr_orphans_count = 0, lr_structural_count = 0, lr_checked_articles = None,
      lr_missing_pages_count = 0, lr_dismissed_count = 0, lr_total_pairs = 0, lr_checked_pairs = 0, lr_error_message = None, lr_job_id = jid\<rparr>"

definition plainL :: "(lint_state \<Rightarrow> lint_state \<times> 'a) \<Rightarrow> 'a lint" where
  "plainL f s = (case f s of (t, x) \<Rightarrow> (t, ok x))"

definition lint_checks :: "lint_env \<Rightarrow> string \<Rightarrow> string \<Rightarrow> findings lint" where
  "lint_checks e report_id user_id =
     bindS (detect_contradictions e report_id user_id) (\<lambda>cs.
     bindS (plainL (detect_orphans e report_id user_id)) (\<lambda>os.
     bindS (plainL (run_enforcer_checks e report_id user_id)) (\<lambda>ss.
     bindS (plainL (detect_stale_articles e report_id user_id)) (\<lambda>stale.
     bindS (detect_stale_spans e report_id user_id) (\<lambda>spans.
       returnS (cs, os, ss @ stale @ spans))))))"

text \<open>\<open>str\<close> of an exception with a message.\<close>

fun exc_text :: "exc \<Rightarrow> string" where
  "exc_text (UpstreamError m) = m"
| "exc_text (ValueError m) = m"
| "exc_text (TypeError m) = m"
| "exc_text (AttributeError m) = m"
| "exc_text (RuntimeError m) = m"
| "exc_text (KeyError m) = CHR 0x27 # m @ [CHR 0x27]"
| "exc_text (QuotaExceededError m _ _) = m"
| "exc_text _ = ''error''"

definition fail_report :: "lint_env \<Rightarrow> string \<Rightarrow> exc \<Rightarrow> lint_state \<Rightarrow> lint_state" where
  "fail_report e report_id x s =
     on_report report_id (\<lambda>r. r\<lparr>lr_status := REPORT_FAILED, lr_error_message := Some (exc_text x), lr_completed_at := Some (le_now e)\<rparr>) s"

text \<open>
  The id of the report and the articles to recompile. When a finding cannot be written, the flush fails, the commit
  of the handler that should mark the report as failed raises again, and the transaction of the run is rolled back.
\<close>

definition run_lint :: "lint_env \<Rightarrow> string \<Rightarrow> string option \<Rightarrow> (string \<times> string list) lint" where
  "run_lint e user_id jid s =
     (case check_in_progress user_id s of
        Some r \<Rightarrow> (s, ok (lr_id r, []))
      | None \<Rightarrow>
          (let existing = snapshot_hashes user_id s; r = new_report e user_id jid s; rid = lr_id r;
               s1 = s\<lparr>ls_reports := ls_reports s @ [r], ls_uuids := ls_uuids s + 1\<rparr>
           in case lint_checks e rid user_id s1 of
                (t, Inl x) \<Rightarrow> (fail_report e rid x t, ok (rid, []))
              | (t, Inr fs) \<Rightarrow>
                  (let fs' = apply_dismiss_suppression e t fs in
                   if list_all writable (fst fs')
                   then (case persist_and_finalize e rid user_id existing fs' t of (u, targets) \<Rightarrow> (u, ok (rid, targets)))
                   else (s\<lparr>ls_calls := ls_calls t, ls_uuids := ls_uuids t\<rparr>, raise (TypeError ''transaction has been rolled back'')))))"

section \<open>Reports\<close>

record lint_report_detail =
  ld_report :: lint_report
  ld_contradictions :: "contradiction_finding list"
  ld_orphans :: "orphan_finding list"
  ld_resolutions :: "string \<rightharpoonup> string"
  ld_structurals :: "structural_finding list"

definition list_reports :: "string \<Rightarrow> nat \<Rightarrow> lint_state \<Rightarrow> lint_report list" where
  "list_reports user_id limit s =
     take limit (sort_key (\<lambda>r. - lr_generated_at r) (select (\<lambda>r. lr_user_id r = user_id) (ls_reports s)))"

definition stored_resolution :: "contradiction option \<Rightarrow> string option" where
  "stored_resolution c =
     (case c of None \<Rightarrow> None | Some c \<Rightarrow> (case ctr_resolution c of None \<Rightarrow> None | Some r \<Rightarrow> if r = [] then None else Some r))"

definition finding_resolution :: "db \<Rightarrow> contradiction_finding \<Rightarrow> string option" where
  "finding_resolution d f =
     (let closed = (\<lambda>c. ctr_status c \<noteq> ACTIVE); ids = [cf_article_a_id f, cf_article_b_id f];
          own = (case cf_contradiction_id f of
                   None \<Rightarrow> None
                 | Some i \<Rightarrow> if i = [] then None else
                     (case get_by ctr_id i (contradictions d) of None \<Rightarrow> None | Some c \<Rightarrow> if closed c then stored_resolution (Some c) else None))
      in case own of
           Some r \<Rightarrow> Some r
         | None \<Rightarrow> stored_resolution (first_of (select (\<lambda>c. ctr_article_a_id c \<in> set ids \<and> ctr_article_b_id c \<in> set ids \<and> closed c) (contradictions d))))"

definition get_resolutions :: "db \<Rightarrow> contradiction_finding list \<Rightarrow> (string \<rightharpoonup> string)" where
  "get_resolutions d fs =
     foldl (\<lambda>m f. case finding_resolution d f of None \<Rightarrow> m | Some r \<Rightarrow> m(cf_article_a_id f @ ''|'' @ cf_article_b_id f \<mapsto> r)) Map.empty fs"

definition get_report :: "string \<Rightarrow> bool \<Rightarrow> string \<Rightarrow> lint_state \<Rightarrow> lint_report_detail result" where
  "get_report report_id include_dismissed user_id s =
     (case get_by lr_id report_id (ls_reports s) of
        None \<Rightarrow> raise (NotFoundError ''Lint report not found'')
      | Some r \<Rightarrow>
          if user_id \<noteq> [] \<and> lr_user_id r \<noteq> user_id then raise (NotFoundError ''Lint report not found'')
          else
            (let cs = select (\<lambda>f. cf_report_id f = report_id \<and> (include_dismissed \<or> \<not> cf_dismissed f)) (ls_contradictions s) in
             ok \<lparr>ld_report = r, ld_contradictions = cs,
                 ld_orphans = select (\<lambda>f. of_report_id f = report_id \<and> (include_dismissed \<or> \<not> of_dismissed f)) (ls_orphans s),
                 ld_resolutions = get_resolutions (ls_db s) cs,
                 ld_structurals = select (\<lambda>f. sf_report_id f = report_id \<and> (include_dismissed \<or> \<not> sf_dismissed f)) (ls_structurals s)\<rparr>))"

definition get_latest :: "string \<Rightarrow> lint_state \<Rightarrow> lint_report_detail result" where
  "get_latest user_id s =
     (case list_reports user_id 1 s of
        [] \<Rightarrow> raise (NotFoundError ''No lint reports exist yet'')
      | r # _ \<Rightarrow> get_report (lr_id r) False user_id s)"

definition dec_count :: "finding_kind \<Rightarrow> lint_report \<Rightarrow> lint_report" where
  "dec_count kind r =
     (let r1 = (case kind of
                  K_CONTRADICTION \<Rightarrow> r\<lparr>lr_contradictions_count := max 0 (lr_contradictions_count r - 1)\<rparr>
                | K_ORPHAN \<Rightarrow> r\<lparr>lr_orphans_count := max 0 (lr_orphans_count r - 1)\<rparr>
                | K_STRUCTURAL \<Rightarrow> r\<lparr>lr_structural_count := max 0 (lr_structural_count r - 1)\<rparr>)
      in r1\<lparr>lr_total_findings := max 0 (lr_total_findings r1 - 1), lr_dismissed_count := lr_dismissed_count r1 + 1\<rparr>)"

definition record_dismissal :: "lint_env \<Rightarrow> finding_kind \<Rightarrow> string \<Rightarrow> string \<Rightarrow> lint_state \<Rightarrow> lint_state" where
  "record_dismissal e kind report_id hash s =
     (let t = on_report report_id (dec_count kind) s in
      case get_by df_content_hash hash (ls_dismissed t) of
        Some _ \<Rightarrow> t
      | None \<Rightarrow> t\<lparr>ls_dismissed := ls_dismissed t @ [\<lparr>df_content_hash = hash, df_kind = kind, df_dismissed_at = le_now e, df_reason = None\<rparr>]\<rparr>)"

definition dismiss_finding :: "lint_env \<Rightarrow> finding_kind \<Rightarrow> string \<Rightarrow> string \<Rightarrow> lint_state \<Rightarrow> lint_state result" where
  "dismiss_finding e kind finding_id user_id s =
     (let missing = raise (NotFoundError ''Finding not found'') in
      case kind of
        K_CONTRADICTION \<Rightarrow>
          (case get_by cf_id finding_id (ls_contradictions s) of
             None \<Rightarrow> missing
           | Some f \<Rightarrow> if cf_user_id f \<noteq> user_id then missing else
               ok (record_dismissal e kind (cf_report_id f) (cf_content_hash f)
                 (s\<lparr>ls_contradictions := update_where (\<lambda>x. cf_id x = finding_id) (\<lambda>x. x\<lparr>cf_dismissed := True, cf_dismissed_at := Some (le_now e)\<rparr>) (ls_contradictions s)\<rparr>)))
      | K_ORPHAN \<Rightarrow>
          (case get_by of_id finding_id (ls_orphans s) of
             None \<Rightarrow> missing
           | Some f \<Rightarrow> if of_user_id f \<noteq> user_id then missing else
               ok (record_dismissal e kind (of_report_id f) (of_content_hash f)
                 (s\<lparr>ls_orphans := update_where (\<lambda>x. of_id x = finding_id) (\<lambda>x. x\<lparr>of_dismissed := True, of_dismissed_at := Some (le_now e)\<rparr>) (ls_orphans s)\<rparr>)))
      | K_STRUCTURAL \<Rightarrow>
          (case get_by sf_id finding_id (ls_structurals s) of
             None \<Rightarrow> missing
           | Some f \<Rightarrow> if sf_user_id f \<noteq> user_id then missing else
               ok (record_dismissal e kind (sf_report_id f) (sf_content_hash f)
                 (s\<lparr>ls_structurals := update_where (\<lambda>x. sf_id x = finding_id) (\<lambda>x. x\<lparr>sf_dismissed := True, sf_dismissed_at := Some (le_now e)\<rparr>) (ls_structurals s)\<rparr>))))"


section \<open>What the checks leave alone\<close>

definition findings_frame :: "string \<Rightarrow> lint_state \<Rightarrow> lint_state \<Rightarrow> bool" where
  "findings_frame rid s t \<longleftrightarrow>
     ls_contradictions t = ls_contradictions s \<and> ls_orphans t = ls_orphans s \<and> ls_structurals t = ls_structurals s \<and>
     ls_dismissed t = ls_dismissed s \<and> map (\<lambda>r. (lr_id r, lr_user_id r)) (ls_reports t) = map (\<lambda>r. (lr_id r, lr_user_id r)) (ls_reports s) \<and>
     select (\<lambda>r. lr_id r \<noteq> rid) (ls_reports t) = select (\<lambda>r. lr_id r \<noteq> rid) (ls_reports s)"

interpretation checks: effect_frame "findings_frame rid" for rid
  by unfold_locales (simp_all add: findings_frame_def)

lemma detect_frame_checks:
  assumes "detect_frame rid s t" shows "findings_frame rid s t"
proof -
  let ?key = "\<lambda>r. (lr_id r, lr_user_id r)"
  have key: "map ?key (map (without_progress rid) rs) = map ?key rs" for rs by (simp add: without_progress_def)
  have other: "select (\<lambda>r. lr_id r \<noteq> rid) (map (without_progress rid) rs) = select (\<lambda>r. lr_id r \<noteq> rid) rs" for rs
    by (induction rs) (auto simp: select_def without_progress_def)
  have same: "map (without_progress rid) (ls_reports t) = map (without_progress rid) (ls_reports s)"
    using assms by (simp add: detect_frame_def)
  from assms key [of "ls_reports t", unfolded same, unfolded key] other [of "ls_reports t", unfolded same, unfolded other]
  show ?thesis by (simp add: findings_frame_def detect_frame_def)
qed

lemma make_rows_frame:
  assumes "\<And>x s. findings_frame rid s (fst (f x s))"
  shows "findings_frame rid s (fst (make_rows f xs s))"
proof (induction xs arbitrary: s)
  case (Cons x xs)
  obtain t r where 1: "f x s = (t, r)" by fastforce
  obtain u rs where 2: "make_rows f xs t = (u, rs)" by fastforce
  from checks.trans_R [of rid s t u] assms [of s x] Cons [of t] show ?case by (simp add: 1 2)
qed (simp add: checks.refl_R)

lemma make_rows_all:
  assumes "\<And>x s. P (snd (f x s))"
  shows "\<forall>r \<in> set (snd (make_rows f xs s)). P r"
proof (induction xs arbitrary: s)
  case (Cons x xs)
  obtain t r where 1: "f x s = (t, r)" by fastforce
  obtain u rs where 2: "make_rows f xs t = (u, rs)" by fastforce
  from assms [of x s] Cons [of t] show ?case by (simp add: 1 2)
qed simp

lemma orphans_frame: "findings_frame rid s (fst (detect_orphans e rid u s))"
proof -
  have "findings_frame rid s (fst (orphan_of e rid u a s))" for a s by (simp add: orphan_of_def findings_frame_def)
  then show ?thesis by (auto simp: detect_orphans_def checks.refl_R intro: make_rows_frame)
qed

lemma structural_rows:
  assumes "make_rows (structural_of e rid u) vs s = (t, fs)"
  shows "findings_frame k s t \<and> (\<forall>f \<in> set fs. sf_report_id f = rid \<and> \<not> sf_dismissed f)"
proof -
  have "findings_frame k s (fst (structural_of e rid u v s))" for v s by (cases v) (simp add: structural_of_def findings_frame_def)
  from make_rows_frame [of k "structural_of e rid u", OF this, of s vs] have "findings_frame k s t" by (simp add: assms)
  moreover have "sf_report_id (snd (structural_of e rid u v s)) = rid \<and> \<not> sf_dismissed (snd (structural_of e rid u v s))" for v s
    by (cases v) (simp add: structural_of_def)
  from make_rows_all [where P = "\<lambda>f. sf_report_id f = rid \<and> \<not> sf_dismissed f" and f = "structural_of e rid u", OF this, of vs s]
  have "\<forall>f \<in> set fs. sf_report_id f = rid \<and> \<not> sf_dismissed f" by (simp add: assms)
  ultimately show ?thesis by blast
qed

lemma enforce_frame:
  "findings_frame k s (fst (enforce_all e rid u as s)) \<and>
    (\<forall>f \<in> set (snd (enforce_all e rid u as s)). sf_report_id f = rid \<and> \<not> sf_dismissed f)"
proof (induction as arbitrary: s)
  case (Cons a as)
  obtain d res where 1: "enforce_backlinks (le_loads e) (art_id a) (ls_db s) = (d, res)" by fastforce
  let ?vs = "map (\<lambda>v. (ev_article_id v, ev_violation_type v, ev_detail v, ev_auto_repaired v, ev_detail v)) (er_violations res)"
  obtain t fs where 2: "make_rows (structural_of e rid u) ?vs (s\<lparr>ls_db := d\<rparr>) = (t, fs)" by fastforce
  obtain w gs where 3: "enforce_all e rid u as t = (w, gs)" by fastforce
  note rows = structural_rows [OF 2, of k]
  then have "findings_frame k s t" by (simp add: findings_frame_def)
  moreover have "\<forall>f \<in> set fs. sf_report_id f = rid \<and> \<not> sf_dismissed f" using rows by blast
  ultimately show ?case using Cons [of t] checks.trans_R [of k s t w] by (auto simp: 1 2 3)
qed (simp add: checks.refl_R)

lemma on_report_frame:
  assumes "\<And>r. lr_id (f r) = lr_id r \<and> lr_user_id (f r) = lr_user_id r"
  shows "findings_frame rid s (on_report rid f s)"
proof -
  have "select (\<lambda>r. lr_id r \<noteq> rid) (update_where (\<lambda>r. lr_id r = rid) f (ls_reports s)) = select (\<lambda>r. lr_id r \<noteq> rid) (ls_reports s)"
    by (rule select_update_other) (simp_all add: assms)
  moreover have "map (\<lambda>r. (lr_id r, lr_user_id r)) (update_where (\<lambda>r. lr_id r = rid) f (ls_reports s)) = map (\<lambda>r. (lr_id r, lr_user_id r)) (ls_reports s)"
    by (rule map_update_where) (simp add: assms)
  ultimately show ?thesis by (simp add: findings_frame_def on_report_def)
qed


definition found_by :: "string \<Rightarrow> findings \<Rightarrow> bool" where
  "found_by rid fs \<longleftrightarrow> (\<forall>f \<in> set (fst fs). cf_report_id f = rid \<and> \<not> cf_dismissed f) \<and>
     (\<forall>f \<in> set (fst (snd fs)). of_report_id f = rid \<and> \<not> of_dismissed f) \<and> (\<forall>f \<in> set (snd (snd fs)). sf_report_id f = rid \<and> \<not> sf_dismissed f)"

lemma orphans_found: "\<forall>f \<in> set (snd (detect_orphans e rid u s)). of_report_id f = rid \<and> \<not> of_dismissed f"
proof -
  have "of_report_id (snd (orphan_of e rid u a s)) = rid \<and> \<not> of_dismissed (snd (orphan_of e rid u a s))" for a s by (simp add: orphan_of_def)
  from make_rows_all [of "\<lambda>f. of_report_id f = rid \<and> \<not> of_dismissed f" "orphan_of e rid u", OF this]
  show ?thesis by (simp add: detect_orphans_def)
qed

lemma spans_rows:
  assumes "detect_stale_spans e rid u s = (t, r)"
  shows "findings_frame k s t \<and> (\<forall>fs. r = ok fs \<longrightarrow> (\<forall>f \<in> set fs. sf_report_id f = rid \<and> \<not> sf_dismissed f))"
  using assms structural_rows [of e rid u _ s t _ k] by (auto simp: detect_stale_spans_def Let_def checks.refl_R split: if_splits sum.splits prod.splits)

lemma contradictions_found:
  assumes "detect_contradictions e rid u s = (t, ok fs)"
  shows "\<forall>f \<in> set fs. cf_report_id f = rid \<and> \<not> cf_dismissed f"
  using sound_run [OF assms] by (auto simp: work_sound_def is_finding_def)

lemma lint_checks_found:
  assumes "lint_checks e rid u s = (t, r)"
  shows "findings_frame rid s t \<and> (\<forall>fs. r = ok fs \<longrightarrow> found_by rid fs)"
proof -
  obtain t1 r1 where 1: "detect_contradictions e rid u s = (t1, r1)" by fastforce
  obtain t2 os where 2: "detect_orphans e rid u t1 = (t2, os)" by fastforce
  obtain t3 es where 3: "run_enforcer_checks e rid u t2 = (t3, es)" by fastforce
  obtain t4 st where 4: "detect_stale_articles e rid u t3 = (t4, st)" by fastforce
  obtain t5 r5 where 5: "detect_stale_spans e rid u t4 = (t5, r5)" by fastforce
  note f1 = detect_frame_checks [OF frame_detect [of rid s e u, unfolded 1 fst_conv]]
  note f2 = checks.trans_R [OF f1 orphans_frame [of rid t1 e u, unfolded 2 fst_conv]]
  obtain w where w: "enforce_all e rid u (select (\<lambda>a. art_user_id a = u) (articles (ls_db t2))) t2 = (w, es)"
    and t3: "t3 = on_report rid (\<lambda>r. r\<lparr>lr_checked_articles := Some (int (length (select (\<lambda>a. art_user_id a = u) (articles (ls_db t2)))))\<rparr>) w"
    using 3 by (auto simp: run_enforcer_checks_def Let_def split: prod.splits)
  note enf = enforce_frame [of rid t2 e rid u "select (\<lambda>a. art_user_id a = u) (articles (ls_db t2))", unfolded w fst_conv snd_conv]
  have "findings_frame rid w t3" unfolding t3 by (rule on_report_frame) simp
  then have f3: "findings_frame rid s t3" using enf f2 checks.trans_R by blast
  have st: "findings_frame rid t3 t4 \<and> (\<forall>f \<in> set st. sf_report_id f = rid \<and> \<not> sf_dismissed f)"
    using 4 structural_rows unfolding detect_stale_articles_def by blast
  then have f4: "findings_frame rid s t4" using f3 checks.trans_R by blast
  note sp = spans_rows [OF 5, of rid]
  then have f5: "findings_frame rid s t5" using f4 checks.trans_R by blast
  have cs: "\<forall>f \<in> set cs. cf_report_id f = rid \<and> \<not> cf_dismissed f" if "r1 = ok cs" for cs
    using contradictions_found 1 that by blast
  show ?thesis
  proof (cases r1)
    case (Inl x)
    with assms f1 show ?thesis by (auto simp: lint_checks_def bindS_def 1)
  next
    case (Inr fs1)
    show ?thesis
    proof (cases r5)
      case (Inl x)
      with assms Inr f5 show ?thesis by (auto simp: lint_checks_def bindS_def 1 2 3 4 5 plainL_def)
    next
      case (Inr spans)
      with assms \<open>r1 = Inr fs1\<close> f5 cs sp st enf orphans_found [of e rid u t1, unfolded 2 snd_conv]
      show ?thesis by (auto simp: lint_checks_def bindS_def 1 2 3 4 5 plainL_def returnS_def found_by_def)
    qed
  qed
qed


section \<open>The report of a run\<close>

lemma link_contradictions_same:
  assumes "link_contradictions e u cs s = (t, gs)"
  shows "ls_contradictions t = ls_contradictions s \<and> ls_orphans t = ls_orphans s \<and> ls_structurals t = ls_structurals s \<and>
    ls_dismissed t = ls_dismissed s \<and> ls_reports t = ls_reports s \<and>
    map (\<lambda>f. (cf_report_id f, cf_dismissed f, cf_content_hash f)) gs = map (\<lambda>f. (cf_report_id f, cf_dismissed f, cf_content_hash f)) cs"
  using assms
proof (induction cs arbitrary: s t gs)
  case (Cons f fs)
  show ?case
  proof (cases "cf_dismissed f")
    case True
    with Cons.prems obtain hs where "link_contradictions e u fs s = (t, hs)" "gs = f # hs" by (auto split: prod.splits)
    with Cons.IH show ?thesis by auto
  next
    case False
    obtain d c where c: "create_from_finding (le_sha e) (le_now e) (le_uuid e (ls_uuids s)) (json_text (cf_article_a_claim f))
        (json_text (cf_article_b_claim f)) (cf_article_a_id f) (cf_article_b_id f) (Some (cf_id f)) u (ls_db s) = (d, c)" by fastforce
    obtain t' hs where hs: "link_contradictions e u fs (s\<lparr>ls_db := d, ls_uuids := ls_uuids s + 1\<rparr>) = (t', hs)" by fastforce
    from Cons.prems Cons.IH [OF hs] False show ?thesis by (auto simp: c hs [simplified])
  qed
qed simp

lemma select_by_key:
  assumes "map g xs = map g ys" and "\<And>x. p x = q (g x)"
  shows "length (select p xs) = length (select p ys)"
proof -
  have "length (select p zs) = length (filter q (map g zs))" for zs by (induction zs) (auto simp: select_def assms(2))
  then show ?thesis by (simp only: assms(1))
qed

lemma select_by_list_all:
  assumes "map g xs = map g ys" and "\<And>x. p x = q (g x)"
  shows "list_all p xs = list_all p ys"
proof -
  have "list_all p zs = list_all q (map g zs)" for zs by (induction zs) (auto simp: assms(2))
  then show ?thesis by (simp only: assms(1))
qed

definition counts_match :: "string \<Rightarrow> lint_state \<Rightarrow> lint_report \<Rightarrow> bool" where
  "counts_match rid s r \<longleftrightarrow>
     lr_contradictions_count r = int (length (select (\<lambda>f. cf_report_id f = rid \<and> \<not> cf_dismissed f) (ls_contradictions s))) \<and>
     lr_orphans_count r = int (length (select (\<lambda>f. of_report_id f = rid \<and> \<not> of_dismissed f) (ls_orphans s))) \<and>
     lr_structural_count r = int (length (select (\<lambda>f. sf_report_id f = rid \<and> \<not> sf_dismissed f) (ls_structurals s))) \<and>
     lr_total_findings r = lr_contradictions_count r + lr_orphans_count r + lr_structural_count r \<and>
     lr_dismissed_count r =
       int (length (select (\<lambda>f. cf_report_id f = rid \<and> cf_dismissed f) (ls_contradictions s)) +
            length (select (\<lambda>f. of_report_id f = rid \<and> of_dismissed f) (ls_orphans s)) +
            length (select (\<lambda>f. sf_report_id f = rid \<and> sf_dismissed f) (ls_structurals s)))"

definition report_unused :: "string \<Rightarrow> lint_state \<Rightarrow> bool" where
  "report_unused rid s \<longleftrightarrow> rid \<notin> lr_id ` set (ls_reports s) \<and> rid \<notin> cf_report_id ` set (ls_contradictions s) \<and>
     rid \<notin> of_report_id ` set (ls_orphans s) \<and> rid \<notin> sf_report_id ` set (ls_structurals s)"

lemma get_by_update:
  "(\<And>r. lr_id (f r) = lr_id r) \<Longrightarrow> get_by lr_id rid (update_where (\<lambda>r. lr_id r = rid) f rs) = map_option f (get_by lr_id rid rs)"
  by (induction rs) (auto simp: get_by_def update_where_def)

lemma get_by_keys:
  assumes "map (\<lambda>r. (lr_id r, lr_user_id r)) rs = map (\<lambda>r. (lr_id r, lr_user_id r)) qs" and "get_by lr_id rid qs = Some q"
  shows "\<exists>r. get_by lr_id rid rs = Some r \<and> lr_user_id r = lr_user_id q"
  using assms
proof (induction rs arbitrary: qs)
  case (Cons r rs)
  then show ?case by (cases qs) (auto simp: get_by_def split: if_splits)
qed (simp add: get_by_def)

lemma dismissed_count: "length xs - length (filter (\<lambda>x. \<not> q x) xs) = length (filter q xs)"
  using sum_length_filter_compl [of q xs] by simp

text \<open>The rows of a report when none of the older rows is its own.\<close>

lemma report_rows:
  assumes "rid \<notin> key ` set old" and "\<forall>f \<in> set new. key f = rid"
  shows "select (\<lambda>f. key f = rid \<and> p f) (old @ new) = filter p new"
proof -
  have "filter (\<lambda>f. key f = rid \<and> p f) new = filter p new" using assms(2) by (auto intro: filter_cong)
  moreover have "filter (\<lambda>f. key f = rid \<and> p f) old = []" using assms(1) by (auto simp: filter_empty_conv)
  ultimately show ?thesis by (simp add: select_def)
qed

definition own_rows :: "string \<Rightarrow> findings \<Rightarrow> bool" where
  "own_rows rid fs \<longleftrightarrow> (\<forall>f \<in> set (fst fs). cf_report_id f = rid) \<and> (\<forall>f \<in> set (fst (snd fs)). of_report_id f = rid) \<and>
     (\<forall>f \<in> set (snd (snd fs)). sf_report_id f = rid)"

definition no_rows :: "string \<Rightarrow> lint_state \<Rightarrow> bool" where
  "no_rows rid s \<longleftrightarrow> rid \<notin> cf_report_id ` set (ls_contradictions s) \<and> rid \<notin> of_report_id ` set (ls_orphans s) \<and>
     rid \<notin> sf_report_id ` set (ls_structurals s)"

lemma persist_counts:
  assumes "persist_and_finalize e rid u hs (cs, os, ss) s = (t, targets)" and own: "own_rows rid (cs, os, ss)" and none: "no_rows rid s"
    and r0: "get_by lr_id rid (ls_reports s) = Some r0"
  shows "\<exists>r. get_by lr_id rid (ls_reports t) = Some r \<and> lr_user_id r = lr_user_id r0 \<and> lr_status r = REPORT_COMPLETE \<and> counts_match rid t r"
proof -
  obtain w cs' where w: "link_contradictions e u cs s = (w, cs')" by fastforce
  let ?key = "\<lambda>f. (cf_report_id f, cf_dismissed f, cf_content_hash f)"
  note same = link_contradictions_same [OF w]
  then have keys: "map ?key cs' = map ?key cs" by blast
  have own': "\<forall>f \<in> set cs'. cf_report_id f = rid"
    using own select_by_list_all [OF keys, of "\<lambda>f. cf_report_id f = rid" "\<lambda>k. fst k = rid"] by (simp add: own_rows_def list_all_iff)
  have act: "length (filter (\<lambda>f. \<not> cf_dismissed f) cs') = length (filter (\<lambda>f. \<not> cf_dismissed f) cs)"
    "length (filter cf_dismissed cs') = length (filter cf_dismissed cs)"
    using select_by_key [OF keys, of "\<lambda>f. \<not> cf_dismissed f" "\<lambda>k. \<not> fst (snd k)"] select_by_key [OF keys, of cf_dismissed "\<lambda>k. fst (snd k)"]
    by (simp_all add: select_def)
  let ?n = "length (filter (\<lambda>f. \<not> cf_dismissed f) cs)" and ?o = "length (filter (\<lambda>f. \<not> of_dismissed f) os)"
    and ?s = "length (filter (\<lambda>f. \<not> sf_dismissed f) ss)" and ?d = "length (filter cf_dismissed cs) + length (filter of_dismissed os) + length (filter sf_dismissed ss)"
  have t: "t = on_report rid (complete_report e ?n ?o ?s ?d)
      (w\<lparr>ls_contradictions := ls_contradictions s @ cs', ls_orphans := ls_orphans s @ os, ls_structurals := ls_structurals s @ ss\<rparr>)"
    using assms(1) same by (simp add: persist_and_finalize_def w Let_def dismissed_count)
  have tabs: "ls_contradictions t = ls_contradictions s @ cs'" "ls_orphans t = ls_orphans s @ os" "ls_structurals t = ls_structurals s @ ss"
    by (simp_all add: t on_report_def)
  have rows: "select (\<lambda>f. cf_report_id f = rid \<and> p f) (ls_contradictions t) = filter p cs'"
    "select (\<lambda>f. of_report_id f = rid \<and> q f) (ls_orphans t) = filter q os"
    "select (\<lambda>f. sf_report_id f = rid \<and> r f) (ls_structurals t) = filter r ss" for p q r
    unfolding tabs using own own' none by (auto intro!: report_rows simp: own_rows_def no_rows_def simp del: select_append)
  have "get_by lr_id rid (ls_reports t) = Some (complete_report e ?n ?o ?s ?d r0)"
    using same r0 get_by_update [of "complete_report e ?n ?o ?s ?d" rid "ls_reports s"] by (simp add: t on_report_def complete_report_def)
  then show ?thesis by (simp add: counts_match_def rows act complete_report_def)
qed

lemma selected_keys: "h \<in> A \<Longrightarrow> h \<in> set (map k (select (\<lambda>r. k r \<in> A) rows)) \<longleftrightarrow> h \<in> k ` set rows"
  by auto

lemma suppress_keeps:
  assumes "apply_dismiss_suppression e s (cs, os, ss) = (cs', os', ss')" and "found_by rid (cs, os, ss)"
  shows "own_rows rid (cs', os', ss') \<and>
    (\<forall>f \<in> set cs'. cf_dismissed f = (cf_content_hash f \<in> df_content_hash ` set (ls_dismissed s))) \<and>
    (\<forall>f \<in> set os'. of_dismissed f = (of_content_hash f \<in> df_content_hash ` set (ls_dismissed s))) \<and>
    (\<forall>f \<in> set ss'. sf_dismissed f = (sf_content_hash f \<in> df_content_hash ` set (ls_dismissed s)))"
proof -
  let ?all = "map cf_content_hash cs @ map of_content_hash os @ map sf_content_hash ss"
  define hs where "hs = map df_content_hash (select (\<lambda>r. df_content_hash r \<in> set ?all) (ls_dismissed s))"
  have hs: "h \<in> set hs \<longleftrightarrow> h \<in> df_content_hash ` set (ls_dismissed s)" if "h \<in> set ?all" for h
    unfolding hs_def by (rule selected_keys [OF that])
  have new: "cs' = map (suppress_contradiction hs (le_now e)) cs" "os' = map (suppress_orphan hs (le_now e)) os"
    "ss' = map (suppress_structural hs (le_now e)) ss"
    using assms(1) by (simp_all add: apply_dismiss_suppression_def hs_def Let_def)
  have found: "\<And>f. f \<in> set cs \<Longrightarrow> cf_report_id f = rid \<and> \<not> cf_dismissed f" "\<And>f. f \<in> set os \<Longrightarrow> of_report_id f = rid \<and> \<not> of_dismissed f"
    "\<And>f. f \<in> set ss \<Longrightarrow> sf_report_id f = rid \<and> \<not> sf_dismissed f"
    using assms(2) by (auto simp: found_by_def)
  have mem: "f \<in> set cs \<Longrightarrow> cf_content_hash f \<in> set ?all" "g \<in> set os \<Longrightarrow> of_content_hash g \<in> set ?all" "h \<in> set ss \<Longrightarrow> sf_content_hash h \<in> set ?all"
    for f g h by simp_all
  let ?D = "df_content_hash ` set (ls_dismissed s)"
  have "cf_report_id g = rid \<and> cf_dismissed g = (cf_content_hash g \<in> ?D)" if "f \<in> set cs" "g = suppress_contradiction hs (le_now e) f" for f g
    using found(1) [OF that(1)] hs [OF mem(1) [OF that(1)]] by (simp add: that(2) suppress_contradiction_def)
  moreover have "of_report_id g = rid \<and> of_dismissed g = (of_content_hash g \<in> ?D)" if "f \<in> set os" "g = suppress_orphan hs (le_now e) f" for f g
    using found(2) [OF that(1)] hs [OF mem(2) [OF that(1)]] by (simp add: that(2) suppress_orphan_def)
  moreover have "sf_report_id g = rid \<and> sf_dismissed g = (sf_content_hash g \<in> ?D)" if "f \<in> set ss" "g = suppress_structural hs (le_now e) f" for f g
    using found(3) [OF that(1)] hs [OF mem(3) [OF that(1)]] by (simp add: that(2) suppress_structural_def)
  ultimately show ?thesis unfolding new own_rows_def fst_conv snd_conv set_map ball_simps by blast
qed

text \<open>The cases of a run that makes a report.\<close>

lemma run_lint_cases:
  assumes "run_lint e u job s = (t, ok (rid, targets))" and "check_in_progress u s = None" and "report_unused (le_uuid e (ls_uuids s)) s"
  obtains x w r0 where "rid = le_uuid e (ls_uuids s)" "t = fail_report e rid x w" "targets = []" "ls_contradictions w = ls_contradictions s"
      "ls_orphans w = ls_orphans s" "ls_structurals w = ls_structurals s" "get_by lr_id rid (ls_reports w) = Some r0" "lr_user_id r0 = u"
  | w cs os ss r0 where "rid = le_uuid e (ls_uuids s)" "persist_and_finalize e rid u (snapshot_hashes u s) (cs, os, ss) w = (t, targets)"
      "own_rows rid (cs, os, ss)" "no_rows rid w" "get_by lr_id rid (ls_reports w) = Some r0" "lr_user_id r0 = u"
      "\<forall>f \<in> set cs. cf_dismissed f = (cf_content_hash f \<in> df_content_hash ` set (ls_dismissed s))"
      "\<forall>f \<in> set os. of_dismissed f = (of_content_hash f \<in> df_content_hash ` set (ls_dismissed s))"
      "\<forall>f \<in> set ss. sf_dismissed f = (sf_content_hash f \<in> df_content_hash ` set (ls_dismissed s))"
proof -
  let ?r = "new_report e u job s"
  let ?s1 = "s\<lparr>ls_reports := ls_reports s @ [?r], ls_uuids := ls_uuids s + 1\<rparr>"
  have id: "lr_id ?r = le_uuid e (ls_uuids s)" "lr_user_id ?r = u" by (simp_all add: new_report_def)
  obtain w q where w: "lint_checks e (le_uuid e (ls_uuids s)) u ?s1 = (w, q)" by fastforce
  let ?rid = "le_uuid e (ls_uuids s)"
  have eq: "run_lint e u job s = (case q of Inl x \<Rightarrow> (fail_report e ?rid x w, ok (?rid, []))
    | Inr fs \<Rightarrow> if list_all writable (fst (apply_dismiss_suppression e w fs))
        then (case persist_and_finalize e ?rid u (snapshot_hashes u s) (apply_dismiss_suppression e w fs) w of (t, targets) \<Rightarrow> (t, ok (?rid, targets)))
        else (s\<lparr>ls_calls := ls_calls w, ls_uuids := ls_uuids w\<rparr>, raise (TypeError ''transaction has been rolled back'')))"
    by (simp only: run_lint_def Let_def id assms(2) w option.case prod.case split: sum.split)
  have rid: "rid = ?rid"
    using assms(1) unfolding eq by (cases q) (simp_all split: if_splits prod.splits)
  note w = w [folded rid] and eq = eq [folded rid]
  note found = lint_checks_found [OF w]
  then have frame: "findings_frame rid ?s1 w" by blast
  have "get_by lr_id rid (ls_reports ?s1) = Some ?r"
    using get_by_append_new [of rid lr_id "ls_reports s" ?r] assms(3) id rid by (simp add: report_unused_def)
  with get_by_keys [of "ls_reports w" "ls_reports ?s1"] frame id
  obtain r0 where r0: "get_by lr_id rid (ls_reports w) = Some r0" "lr_user_id r0 = u" unfolding findings_frame_def by metis
  have tabs: "ls_contradictions w = ls_contradictions s" "ls_orphans w = ls_orphans s" "ls_structurals w = ls_structurals s" "ls_dismissed w = ls_dismissed s"
    using frame by (simp_all add: findings_frame_def)
  have none: "no_rows rid w" using assms(3) rid by (simp add: no_rows_def report_unused_def tabs)
  show ?thesis
  proof (cases q)
    case (Inl x)
    with assms(1) have "t = fail_report e rid x w" "targets = []" by (simp_all add: eq)
    with that(1) rid tabs r0 show ?thesis by blast
  next
    case (Inr fs)
    obtain cs os ss where sup: "apply_dismiss_suppression e w fs = (cs, os, ss)" by (cases "apply_dismiss_suppression e w fs")
    from assms(1) have run: "persist_and_finalize e rid u (snapshot_hashes u s) (cs, os, ss) w = (t, targets)"
      by (simp add: eq Inr sup split: if_splits prod.splits)
    obtain cs0 os0 ss0 where fs: "fs = (cs0, os0, ss0)" by (cases fs)
    from suppress_keeps [OF sup [unfolded fs], of rid] found Inr fs
    show ?thesis using that(2) [OF rid run _ none r0] by (simp add: tabs)
  qed
qed

text \<open>
  C23. A lint run that makes a report ends it, with nothing half done: either the run has failed, the report has the
  error and no finding of the run is stored, or it is complete, and then the counts of the report agree with what
  the report service returns: each count is the number of findings that are not dismissed, the total is their sum, and the
  dismissed count is the number of the findings the service hides.
\<close>

theorem run_lint_report_consistent:
  assumes "run_lint e user_id jid s = (t, ok (rid, targets))" and "check_in_progress user_id s = None"
    and "report_unused (le_uuid e (ls_uuids s)) s"
  shows "\<exists>d. get_report rid False user_id t = ok d \<and>
    (lr_status (ld_report d) = REPORT_FAILED \<and> lr_error_message (ld_report d) \<noteq> None \<and> targets = [] \<and>
       ld_contradictions d = [] \<and> ld_orphans d = [] \<and> ld_structurals d = []
     \<or> lr_status (ld_report d) = REPORT_COMPLETE \<and> counts_match rid t (ld_report d) \<and>
       lr_total_findings (ld_report d) = int (length (ld_contradictions d) + length (ld_orphans d) + length (ld_structurals d)))"
  using assms
proof (cases rule: run_lint_cases)
  case (1 x w r0)
  have "get_by lr_id rid (ls_reports t) = Some (r0\<lparr>lr_status := REPORT_FAILED, lr_error_message := Some (exc_text x), lr_completed_at := Some (le_now e)\<rparr>)"
    using get_by_update [of "\<lambda>r. r\<lparr>lr_status := REPORT_FAILED, lr_error_message := Some (exc_text x), lr_completed_at := Some (le_now e)\<rparr>" rid "ls_reports w"]
    by (simp add: 1(2, 7) fail_report_def on_report_def)
  moreover have "ls_contradictions t = ls_contradictions s" "ls_orphans t = ls_orphans s" "ls_structurals t = ls_structurals s"
    by (simp_all add: 1 fail_report_def on_report_def)
  ultimately show ?thesis
    using assms(3) 1(1, 3, 8) by (auto simp: get_report_def Let_def select_empty_iff report_unused_def image_iff)
next
  case (2 w cs os ss r0)
  from persist_counts [OF 2(2) 2(3) 2(4) 2(5)] 2(6) show ?thesis by (auto simp: get_report_def Let_def counts_match_def)
qed


lemma ex_lint_run:
  "run_lint ex_lint_env ''u'' None ex_lint_state = (fst (run_lint ex_lint_env ''u'' None ex_lint_state), ok ([], []))"
  "(case get_report [] False ''u'' (fst (run_lint ex_lint_env ''u'' None ex_lint_state)) of Inl _ \<Rightarrow> 0
    | Inr d \<Rightarrow> length (ld_contradictions d)) = 1"
proof -
  have run: "(case run_lint ex_lint_env ''u'' None ex_lint_state of (s, r) \<Rightarrow>
      (r, case get_report [] False ''u'' s of Inl _ \<Rightarrow> 0 | Inr d \<Rightarrow> length (ld_contradictions d))) = (ok ([], []), 1)" by code_simp
  then show "run_lint ex_lint_env ''u'' None ex_lint_state = (fst (run_lint ex_lint_env ''u'' None ex_lint_state), ok ([], []))"
    by (cases "run_lint ex_lint_env ''u'' None ex_lint_state") simp
  from run show "(case get_report [] False ''u'' (fst (run_lint ex_lint_env ''u'' None ex_lint_state)) of Inl _ \<Rightarrow> 0
    | Inr d \<Rightarrow> length (ld_contradictions d)) = 1" by (cases "run_lint ex_lint_env ''u'' None ex_lint_state") simp
qed

theorem run_lint_report_consistent_witness:
  "\<exists>d. get_report [] False ''u'' (fst (run_lint ex_lint_env ''u'' None ex_lint_state)) = ok d \<and> length (ld_contradictions d) = 1 \<and>
    lr_status (ld_report d) = REPORT_COMPLETE \<and> counts_match [] (fst (run_lint ex_lint_env ''u'' None ex_lint_state)) (ld_report d)"
proof -
  have "check_in_progress ''u'' ex_lint_state = None" by (simp add: check_in_progress_def ex_lint_state_def)
  moreover have "report_unused (le_uuid ex_lint_env (ls_uuids ex_lint_state)) ex_lint_state" by (simp add: report_unused_def ex_lint_state_def)
  ultimately show ?thesis using run_lint_report_consistent [OF ex_lint_run(1)] ex_lint_run(2) by fastforce
qed

section \<open>Dismissals last\<close>

fun finding_hash :: "finding_kind \<Rightarrow> string \<Rightarrow> lint_state \<Rightarrow> string option" where
  "finding_hash K_CONTRADICTION i s = map_option cf_content_hash (get_by cf_id i (ls_contradictions s))"
| "finding_hash K_ORPHAN i s = map_option of_content_hash (get_by of_id i (ls_orphans s))"
| "finding_hash K_STRUCTURAL i s = map_option sf_content_hash (get_by sf_id i (ls_structurals s))"

lemma record_dismissal_has: "h \<in> df_content_hash ` set (ls_dismissed (record_dismissal e kind rid h s))"
  by (auto simp: record_dismissal_def Let_def split: option.split dest: get_by_Some)

lemma dismiss_finding_has:
  assumes "dismiss_finding e kind i u s = ok t"
  shows "\<exists>h. finding_hash kind i s = Some h \<and> h \<in> df_content_hash ` set (ls_dismissed t)"
  using assms by (cases kind) (auto simp: dismiss_finding_def Let_def record_dismissal_has split: option.splits if_splits)

text \<open>
  C24. Once a finding has been dismissed, a later run for any user may find the same thing again, but stores it as
  dismissed: every row of that run with the same content hash, of any kind, is a dismissed one, so the counts of
  its report and the service leave it out.
\<close>

theorem dismissed_findings_stay_dismissed:
  assumes "dismiss_finding e kind finding_id user_id s = ok t" and "run_lint e' u' jid t = (v, ok (rid, targets))"
    and "check_in_progress u' t = None" and "report_unused (le_uuid e' (ls_uuids t)) t"
  shows "\<exists>h. finding_hash kind finding_id s = Some h \<and>
    (\<forall>f \<in> set (ls_contradictions v). cf_report_id f = rid \<and> cf_content_hash f = h \<longrightarrow> cf_dismissed f) \<and>
    (\<forall>f \<in> set (ls_orphans v). of_report_id f = rid \<and> of_content_hash f = h \<longrightarrow> of_dismissed f) \<and>
    (\<forall>f \<in> set (ls_structurals v). sf_report_id f = rid \<and> sf_content_hash f = h \<longrightarrow> sf_dismissed f)"
proof -
  from dismiss_finding_has [OF assms(1)] obtain h where h: "finding_hash kind finding_id s = Some h" and dis: "h \<in> df_content_hash ` set (ls_dismissed t)" by blast
  have "(\<forall>f \<in> set (ls_contradictions v). cf_report_id f = rid \<and> cf_content_hash f = h \<longrightarrow> cf_dismissed f) \<and>
    (\<forall>f \<in> set (ls_orphans v). of_report_id f = rid \<and> of_content_hash f = h \<longrightarrow> of_dismissed f) \<and>
    (\<forall>f \<in> set (ls_structurals v). sf_report_id f = rid \<and> sf_content_hash f = h \<longrightarrow> sf_dismissed f)"
    using assms(2, 3, 4)
  proof (cases rule: run_lint_cases)
    case (1 x w r0)
    have "ls_contradictions v = ls_contradictions t" "ls_orphans v = ls_orphans t" "ls_structurals v = ls_structurals t"
      by (simp_all add: 1 fail_report_def on_report_def)
    with assms(4) 1(1) show ?thesis by (auto simp: report_unused_def image_iff)
  next
    case (2 w cs os ss r0)
    obtain w' cs' where link: "link_contradictions e' u' cs w = (w', cs')" by fastforce
    note same = link_contradictions_same [OF link]
    have v: "ls_contradictions v = ls_contradictions w @ cs'" "ls_orphans v = ls_orphans w @ os" "ls_structurals v = ls_structurals w @ ss"
      using 2(2) same by (auto simp: persist_and_finalize_def link Let_def on_report_def)
    have "list_all (\<lambda>f. cf_content_hash f = h \<longrightarrow> cf_dismissed f) cs' = list_all (\<lambda>f. cf_content_hash f = h \<longrightarrow> cf_dismissed f) cs"
      using same by (intro select_by_list_all [of "\<lambda>f. (cf_report_id f, cf_dismissed f, cf_content_hash f)" _ _ _ "\<lambda>(_, d, k). k = h \<longrightarrow> d"]) auto
    moreover have "list_all (\<lambda>f. cf_content_hash f = h \<longrightarrow> cf_dismissed f) cs" using 2(7) dis by (auto simp: list_all_iff)
    ultimately have "\<forall>f \<in> set cs'. cf_content_hash f = h \<longrightarrow> cf_dismissed f" by (simp add: list_all_iff)
    with 2(4, 8, 9) dis show ?thesis unfolding v no_rows_def by auto
  qed
  with h show ?thesis by blast
qed


definition ex_noted :: lint_state where
  "ex_noted = ex_lint_state\<lparr>ls_structurals := [\<lparr>sf_id = ''1'', sf_user_id = ''u'', sf_report_id = ''r'', sf_severity = WARN,
     sf_description = [], sf_created_at = 0, sf_dismissed = False, sf_dismissed_at = None,
     sf_content_hash = structural_content_hash ex_lint_env ''a'' ''source_no_concepts'', sf_article_id = ''a'',
     sf_violation_type = ''source_no_concepts'', sf_auto_repaired = False, sf_detail = []\<rparr>]\<rparr>"

definition ex_hidden :: lint_state where
  "ex_hidden = (case dismiss_finding ex_lint_env K_STRUCTURAL ''1'' ''u'' ex_noted of Inl _ \<Rightarrow> ex_noted | Inr t \<Rightarrow> t)"

theorem dismissed_findings_stay_dismissed_witness:
  "select (\<lambda>f. sf_report_id f = [] \<and> Some (sf_content_hash f) = finding_hash K_STRUCTURAL ''1'' ex_noted \<and> \<not> sf_dismissed f)
     (ls_structurals (fst (run_lint ex_lint_env ''u'' None ex_hidden))) = [] \<and>
   length (select (\<lambda>f. sf_report_id f = [] \<and> sf_dismissed f) (ls_structurals (fst (run_lint ex_lint_env ''u'' None ex_hidden)))) = 1"
proof
  have dis: "dismiss_finding ex_lint_env K_STRUCTURAL ''1'' ''u'' ex_noted = ok ex_hidden"
    by (simp add: ex_hidden_def dismiss_finding_def ex_noted_def get_by_def)
  have run: "(case run_lint ex_lint_env ''u'' None ex_hidden of (s, r) \<Rightarrow>
      (r, length (select (\<lambda>f. sf_report_id f = [] \<and> sf_dismissed f) (ls_structurals s)))) = (ok ([], []), 1)" by code_simp
  then show "length (select (\<lambda>f. sf_report_id f = [] \<and> sf_dismissed f) (ls_structurals (fst (run_lint ex_lint_env ''u'' None ex_hidden)))) = 1"
    by (cases "run_lint ex_lint_env ''u'' None ex_hidden") simp
  from run have ok: "run_lint ex_lint_env ''u'' None ex_hidden = (fst (run_lint ex_lint_env ''u'' None ex_hidden), ok ([], []))"
    by (cases "run_lint ex_lint_env ''u'' None ex_hidden") simp
  have "ls_reports ex_hidden = []" "ls_contradictions ex_hidden = []" "ls_orphans ex_hidden = []" "map sf_report_id (ls_structurals ex_hidden) = [''r'']"
    "le_uuid ex_lint_env (ls_uuids ex_hidden) = []"
    by code_simp+
  then have "check_in_progress ''u'' ex_hidden = None" "report_unused (le_uuid ex_lint_env (ls_uuids ex_hidden)) ex_hidden"
    by (auto simp: check_in_progress_def report_unused_def)
  from dismissed_findings_stay_dismissed [OF dis ok this]
  show "select (\<lambda>f. sf_report_id f = [] \<and> Some (sf_content_hash f) = finding_hash K_STRUCTURAL ''1'' ex_noted \<and> \<not> sf_dismissed f)
     (ls_structurals (fst (run_lint ex_lint_env ''u'' None ex_hidden))) = []"
    by (auto simp: select_empty_iff)
qed

section \<open>What the code does beyond that\<close>

text \<open>
  Dismissing a finding a second time counts it a second time: with two findings, both dismissals of the same one leave
  a report that says nothing is left, while the other finding is still returned.
\<close>

definition ex_orphan :: "string \<Rightarrow> orphan_finding" where
  "ex_orphan i = \<lparr>of_id = i, of_user_id = ''u'', of_report_id = ''r'', of_severity = INFO, of_description = [], of_created_at = 0,
     of_dismissed = False, of_dismissed_at = None, of_content_hash = i, of_article_id = i, of_article_title = []\<rparr>"

definition ex_two_orphans :: lint_state where
  "ex_two_orphans = ex_lint_state\<lparr>ls_orphans := [ex_orphan ''1'', ex_orphan ''2''],
     ls_reports := [(new_report ex_lint_env ''u'' None ex_lint_state)\<lparr>lr_id := ''r'', lr_status := REPORT_COMPLETE,
       lr_orphans_count := 2, lr_total_findings := 2\<rparr>]\<rparr>"

lemma dismissing_twice_counts_twice:
  "(case bindR (dismiss_finding ex_lint_env K_ORPHAN ''1'' ''u'' ex_two_orphans) (dismiss_finding ex_lint_env K_ORPHAN ''1'' ''u'') of
      Inl _ \<Rightarrow> None
    | Inr s \<Rightarrow> (case get_report ''r'' False ''u'' s of
        Inl _ \<Rightarrow> None
      | Inr d \<Rightarrow> Some (lr_total_findings (ld_report d), lr_dismissed_count (ld_report d), map of_id (ld_orphans d)))) = Some (0, 2, [''2''])"
  by code_simp

text \<open>
  The hash of a contradiction is that of the two articles: a new contradiction between two articles of which any
  contradiction was found before queues no recompilation.
\<close>

lemma known_pair_not_recompiled:
  assumes "g \<in> set old" and "{cf_article_a_id f, cf_article_b_id f} = {cf_article_a_id g, cf_article_b_id g}"
    and "cf_content_hash f = content_hash e (cf_article_a_id f) (cf_article_b_id f)"
    and "cf_content_hash g = content_hash e (cf_article_a_id g) (cf_article_b_id g)"
  shows "recompile_targets [f] (map cf_content_hash old) = []"
proof -
  have "content_hash e b a = content_hash e a b" for a b
    using linear [of a b] by (auto simp: content_hash_def)
  with assms(2, 3, 4) have "cf_content_hash f = cf_content_hash g" by (auto simp: doubleton_eq_iff)
  with assms(1) show ?thesis by (simp add: recompile_targets_def nub_def)
qed

text \<open>A finding the language model gave no text for makes the whole run vanish, its report included.\<close>

lemma unwritable_finding_loses_run:
  assumes "check_in_progress u s = None"
    and "lint_checks e (le_uuid e (ls_uuids s)) u (s\<lparr>ls_reports := ls_reports s @ [new_report e u jid s], ls_uuids := ls_uuids s + 1\<rparr>) = (t, ok fs)"
    and "f \<in> set (fst (apply_dismiss_suppression e t fs))" and "cf_article_a_claim f = JNull"
  shows "ls_reports (fst (run_lint e u jid s)) = ls_reports s \<and> (\<exists>x. snd (run_lint e u jid s) = raise x)"
proof -
  have "\<not> writable f" by (simp add: writable_def assms(4))
  with assms(3) have "\<not> list_all writable (fst (apply_dismiss_suppression e t fs))" by (auto simp: list_all_iff)
  moreover have "lr_id (new_report e u jid s) = le_uuid e (ls_uuids s)" by (simp add: new_report_def)
  ultimately show ?thesis by (simp only: run_lint_def Let_def assms(1, 2) option.case prod.case sum.case) simp
qed

end
