(* ===== verification/Prompts.thy ===== *)
theory Prompts
  imports Domain Json Float64
begin

text \<open>
  What the compiler of sources (\<^verbatim>\<open>src/src/wikimind/engine/compiler.py\<close>) tells the language model and how it reads
  the answer: the prompt of a document, the rules of the user, the sanitisation of the user's guidance, the decoding of
  the JSON of an answer (\<open>parse_json_response\<close> of \<^verbatim>\<open>engine/llm_router.py\<close>), and the validation of the data
  classes of \<^verbatim>\<open>models/dto/compilation.py\<close> by pydantic. \<open>loads\<close> is \<open>json.loads\<close>, which raises a
  \<open>ValueError\<close> on text that is not JSON; \<open>parse_datetime\<close> is pydantic's reading of a datetime.
\<close>

section \<open>Data classes\<close>

record normalized_document =
  nd_raw_source_id :: string
  nd_clean_text :: string
  nd_title :: string
  nd_author :: "string option"
  nd_published_date :: "int option"
  nd_estimated_tokens :: int
  nd_chunks :: "(string \<times> int) list"

record claim_dto =
  cm_claim :: string
  cm_confidence :: confidence_level
  cm_subjects :: "string list"
  cm_predicate :: "string option"
  cm_quote :: "string option"
  cm_source_ids :: "string list"
  cm_source_span_ids :: "string list"

record compilation_result =
  cr_title :: string
  cr_summary :: string
  cr_key_claims :: "claim_dto list"
  cr_concepts :: "string list"
  cr_backlink_suggestions :: "string list"
  cr_open_questions :: "string list"
  cr_article_body :: string
  cr_page_type :: page_type
  cr_compiled :: "datetime option"
  cr_provider :: "provider option"

record concept_result =
  kr_title :: string
  kr_overview :: string
  kr_key_themes :: "string list"
  kr_consensus_conflicts :: string
  kr_open_questions :: "string list"
  kr_timeline :: string
  kr_sources_summary :: string
  kr_article_body :: string
  kr_related_concepts :: "string list"
  kr_page_type :: page_type

section \<open>Validation\<close>

type_synonym fields = "(string \<times> json) list"

definition invalid :: "string \<Rightarrow> 'a result" where
  "invalid name = raise (ValueError (''validation error: '' @ name))"

fun parse_str :: "string \<Rightarrow> json \<Rightarrow> string result" where
  "parse_str name (JStr s) = ok s"
| "parse_str name _ = invalid name"

fun parse_items :: "(json \<Rightarrow> 'a result) \<Rightarrow> json list \<Rightarrow> 'a list result" where
  "parse_items f [] = ok []"
| "parse_items f (x # xs) = bindR (f x) (\<lambda>y. bindR (parse_items f xs) (\<lambda>ys. ok (y # ys)))"

fun parse_list :: "string \<Rightarrow> (json \<Rightarrow> 'a result) \<Rightarrow> json \<Rightarrow> 'a list result" where
  "parse_list name f (JList xs) = parse_items f xs"
| "parse_list name f _ = invalid name"

definition parse_strs :: "string \<Rightarrow> json \<Rightarrow> string list result" where
  "parse_strs name = parse_list name (parse_str name)"

fun parse_opt :: "(json \<Rightarrow> 'a result) \<Rightarrow> json \<Rightarrow> 'a option result" where
  "parse_opt f JNull = ok None"
| "parse_opt f j = bindR (f j) (\<lambda>x. ok (Some x))"

definition parse_enum :: "string \<Rightarrow> 'a list \<Rightarrow> ('a \<Rightarrow> string) \<Rightarrow> json \<Rightarrow> 'a result" where
  "parse_enum name members val j =
     (case j of
        JStr s \<Rightarrow> (case find (\<lambda>m. val m = s) members of Some m \<Rightarrow> ok m | None \<Rightarrow> invalid name)
      | _ \<Rightarrow> invalid name)"

definition required :: "fields \<Rightarrow> string \<Rightarrow> (string \<Rightarrow> json \<Rightarrow> 'a result) \<Rightarrow> 'a result" where
  "required kvs name f = (case map_of kvs name of Some j \<Rightarrow> f name j | None \<Rightarrow> invalid name)"

definition optional :: "fields \<Rightarrow> string \<Rightarrow> 'a \<Rightarrow> (string \<Rightarrow> json \<Rightarrow> 'a result) \<Rightarrow> 'a result" where
  "optional kvs name dflt f = (case map_of kvs name of Some j \<Rightarrow> f name j | None \<Rightarrow> ok dflt)"

definition all_confidence_levels :: "confidence_level list" where
  "all_confidence_levels = [SOURCED, MIXED, INFERRED, OPINION]"

definition all_page_types :: "page_type list" where
  "all_page_types = [SOURCE, CONCEPT, ANSWER, INDEX, META, SYNTHESIS]"

definition all_relation_types :: "relation_type list" where
  "all_relation_types = [REFERENCES, CONTRADICTS, EXTENDS, SUPERSEDES, SYNTHESIZES, RELATED_TO]"

definition parse_confidence :: "string \<Rightarrow> json \<Rightarrow> confidence_level result" where
  "parse_confidence name = parse_enum name all_confidence_levels confidence_level_value"

definition parse_page_type :: "string \<Rightarrow> json \<Rightarrow> page_type result" where
  "parse_page_type name = parse_enum name all_page_types page_type_value"

definition parse_provider :: "string \<Rightarrow> json \<Rightarrow> provider result" where
  "parse_provider name = parse_enum name all_providers provider_value"

definition parse_claim :: "json \<Rightarrow> claim_dto result" where
  "parse_claim j =
     (case j of
        JObj kvs \<Rightarrow>
          bindR (required kvs ''claim'' parse_str) (\<lambda>claim.
          bindR (required kvs ''confidence'' parse_confidence) (\<lambda>confidence.
          bindR (optional kvs ''subjects'' [] parse_strs) (\<lambda>subjects.
          bindR (optional kvs ''predicate'' None (\<lambda>n. parse_opt (parse_str n))) (\<lambda>predicate.
          bindR (optional kvs ''quote'' None (\<lambda>n. parse_opt (parse_str n))) (\<lambda>quote.
          bindR (optional kvs ''source_ids'' [] parse_strs) (\<lambda>source_ids.
          bindR (optional kvs ''source_span_ids'' [] parse_strs) (\<lambda>source_span_ids.
            ok \<lparr>cm_claim = claim, cm_confidence = confidence, cm_subjects = subjects, cm_predicate = predicate,
                cm_quote = quote, cm_source_ids = source_ids, cm_source_span_ids = source_span_ids\<rparr>)))))))
      | _ \<Rightarrow> invalid ''key_claims'')"

definition parse_datetime_with :: "(json \<Rightarrow> datetime option) \<Rightarrow> string \<Rightarrow> json \<Rightarrow> datetime result" where
  "parse_datetime_with parse_datetime name j = (case parse_datetime j of Some t \<Rightarrow> ok t | None \<Rightarrow> invalid name)"

definition parse_compilation_result :: "(json \<Rightarrow> datetime option) \<Rightarrow> fields \<Rightarrow> compilation_result result" where
  "parse_compilation_result parse_datetime kvs =
     bindR (required kvs ''title'' parse_str) (\<lambda>title.
     bindR (required kvs ''summary'' parse_str) (\<lambda>summary.
     bindR (required kvs ''key_claims'' (\<lambda>n. parse_list n parse_claim)) (\<lambda>key_claims.
     bindR (required kvs ''concepts'' parse_strs) (\<lambda>concepts.
     bindR (required kvs ''backlink_suggestions'' parse_strs) (\<lambda>backlink_suggestions.
     bindR (required kvs ''open_questions'' parse_strs) (\<lambda>open_questions.
     bindR (required kvs ''article_body'' parse_str) (\<lambda>article_body.
     bindR (optional kvs ''page_type'' SOURCE parse_page_type) (\<lambda>page_type.
     bindR (optional kvs ''compiled'' None (\<lambda>n. parse_opt (parse_datetime_with parse_datetime n))) (\<lambda>compiled.
     bindR (optional kvs ''provider'' None (\<lambda>n. parse_opt (parse_provider n))) (\<lambda>provider.
       ok \<lparr>cr_title = title, cr_summary = summary, cr_key_claims = key_claims, cr_concepts = concepts,
           cr_backlink_suggestions = backlink_suggestions, cr_open_questions = open_questions,
           cr_article_body = article_body, cr_page_type = page_type, cr_compiled = compiled, cr_provider = provider\<rparr>))))))))))"

definition parse_concept_result :: "fields \<Rightarrow> concept_result result" where
  "parse_concept_result kvs =
     bindR (required kvs ''title'' parse_str) (\<lambda>title.
     bindR (required kvs ''overview'' parse_str) (\<lambda>overview.
     bindR (required kvs ''key_themes'' parse_strs) (\<lambda>key_themes.
     bindR (required kvs ''consensus_conflicts'' parse_str) (\<lambda>consensus_conflicts.
     bindR (required kvs ''open_questions'' parse_strs) (\<lambda>open_questions.
     bindR (required kvs ''timeline'' parse_str) (\<lambda>timeline.
     bindR (required kvs ''sources_summary'' parse_str) (\<lambda>sources_summary.
     bindR (required kvs ''article_body'' parse_str) (\<lambda>article_body.
     bindR (optional kvs ''related_concepts'' [] parse_strs) (\<lambda>related_concepts.
     bindR (optional kvs ''page_type'' CONCEPT parse_page_type) (\<lambda>page_type.
       ok \<lparr>kr_title = title, kr_overview = overview, kr_key_themes = key_themes,
           kr_consensus_conflicts = consensus_conflicts, kr_open_questions = open_questions, kr_timeline = timeline,
           kr_sources_summary = sources_summary, kr_article_body = article_body,
           kr_related_concepts = related_concepts, kr_page_type = page_type\<rparr>))))))))))"

section \<open>Decoding an answer\<close>

fun join_lines :: "string list \<Rightarrow> string" where
  "join_lines ls = py_join [CHR 0x0A] ls"

text \<open>\<open>s.split(sep)\<close> for a separator of one character.\<close>

fun split_char :: "char \<Rightarrow> string \<Rightarrow> string \<Rightarrow> string list" where
  "split_char c acc [] = [rev acc]"
| "split_char c acc (x # xs) = (if x = c then rev acc # split_char c [] xs else split_char c (x # acc) xs)"

definition split_lines :: "string \<Rightarrow> string list" where
  "split_lines s = split_char (CHR 0x0A) [] s"

definition strip_fences :: "string \<Rightarrow> string" where
  "strip_fences content =
     (if take 3 content = ''```'' then
        (let body_lines = tl (split_lines content) in
         if list_ex (\<lambda>l. py_strip l = ''```'') body_lines
         then join_lines (takeWhile (\<lambda>l. py_strip l \<noteq> ''```'') body_lines)
         else content)
      else content)"

text \<open>A double-quoted string from its opening quote on, and the rest: no bare backslash before a line break.\<close>

fun quoted_rest :: "string \<Rightarrow> string \<Rightarrow> (string \<times> string) option" where
  "quoted_rest acc [] = None"
| "quoted_rest acc [c] = (if c = CHR 0x22 then Some (rev (c # acc), []) else None)"
| "quoted_rest acc (c # d # cs) =
     (if c = CHR 0x22 then Some (rev (c # acc), d # cs)
      else if c = CHR 0x5C then (if d = CHR 0x0A then None else quoted_rest (d # c # acc) cs)
      else quoted_rest (c # acc) (d # cs))"

definition escape_control :: "char \<Rightarrow> string" where
  "escape_control c =
     (if c = CHR 0x0A then [CHR 0x5C, CHR ''n'']
      else if c = CHR 0x0D then [CHR 0x5C, CHR ''r'']
      else if c = CHR 0x09 then [CHR 0x5C, CHR ''t'']
      else if cp c < 32 then '' '' else [c])"

lemma quoted_rest_shorter: "quoted_rest acc s = Some (q, rest) \<Longrightarrow> length rest < length s"
  by (induction acc s rule: quoted_rest.induct) (auto split: if_splits dest: less_SucI)

function sanitize_json :: "string \<Rightarrow> string" where
  "sanitize_json [] = []"
| "sanitize_json (c # cs) =
     (if c = CHR 0x22 then
        (case quoted_rest [c] cs of
           Some (q, rest) \<Rightarrow> concat (map escape_control q) @ sanitize_json rest
         | None \<Rightarrow> c # sanitize_json cs)
      else c # sanitize_json cs)"
  by pat_completeness auto
termination by (relation "measure length") (auto dest: quoted_rest_shorter)

text \<open>The text between the first opening and the last closing brace.\<close>

definition braced :: "string \<Rightarrow> string option" where
  "braced content =
     (let inner = dropWhile (\<lambda>c. c \<noteq> CHR ''{'') content;
          cut = rev (dropWhile (\<lambda>c. c \<noteq> CHR ''}'') (rev inner))
      in if inner = [] \<or> cut = [] then None else Some cut)"

definition parse_json_response :: "(string \<Rightarrow> json result) \<Rightarrow> string \<Rightarrow> json result" where
  "parse_json_response loads text0 =
     (let content = strip_fences (py_strip text0) in
      case loads content of
        Inl (ValueError m) \<Rightarrow>
          (case braced content of
             Some extracted \<Rightarrow>
               (case loads extracted of Inl (ValueError m) \<Rightarrow> loads (sanitize_json extracted) | r \<Rightarrow> r)
           | None \<Rightarrow> loads content)
      | r \<Rightarrow> r)"

section \<open>Suggested links\<close>

definition target_of :: "fields \<Rightarrow> json" where
  "target_of kvs = (case map_of kvs ''target'' of Some v \<Rightarrow> v | None \<Rightarrow> JStr [])"

fun normalize_suggestion :: "json \<Rightarrow> string list" where
  "normalize_suggestion (JObj kvs) = (if truthy (target_of kvs) then [py_str (target_of kvs)] else [])"
| "normalize_suggestion (JStr s) = [s]"
| "normalize_suggestion _ = []"

definition normalize_backlink_suggestions :: "json list \<Rightarrow> string list" where
  "normalize_backlink_suggestions raw = concat (map normalize_suggestion raw)"

fun relation_type_of :: "json \<Rightarrow> relation_type option" where
  "relation_type_of (JStr s) = find (\<lambda>r. relation_type_value r = s) all_relation_types"
| "relation_type_of _ = None"

fun typed_suggestion :: "json \<Rightarrow> (string \<times> relation_type) list" where
  "typed_suggestion (JObj kvs) =
     (if truthy (target_of kvs)
      then [(py_str (target_of kvs),
             case relation_type_of (case map_of kvs ''relation_type'' of Some v \<Rightarrow> v | None \<Rightarrow> JStr ''references'') of
               Some r \<Rightarrow> r | None \<Rightarrow> REFERENCES)]
      else [])"
| "typed_suggestion (JStr s) = (if py_strip s \<noteq> [] then [(s, REFERENCES)] else [])"
| "typed_suggestion _ = []"

definition extract_typed_suggestions :: "json list \<Rightarrow> (string \<times> relation_type) list" where
  "extract_typed_suggestions raw = concat (map typed_suggestion raw)"

definition typed_map :: "(string \<times> relation_type) list \<Rightarrow> (string \<rightharpoonup> string)" where
  "typed_map typed = foldl (\<lambda>m (t, r). m(py_lower t \<mapsto> relation_type_value r)) Map.empty typed"

section \<open>Guidance and rules of the user\<close>

definition tag_at :: "string \<Rightarrow> string \<Rightarrow> bool" where
  "tag_at t s \<longleftrightarrow> map lower_char (take (length t) s) = t"

function strip_tags :: "string \<Rightarrow> string" where
  "strip_tags [] = []"
| "strip_tags (c # cs) =
     (if tag_at ''</guidance>'' (c # cs) then strip_tags (drop 10 cs)
      else if tag_at ''<guidance>'' (c # cs) then strip_tags (drop 9 cs)
      else c # strip_tags cs)"
  by pat_completeness auto
termination by (relation "measure length") auto

definition sanitize_guidance :: "nat \<Rightarrow> string \<Rightarrow> string" where
  "sanitize_guidance max_length raw = take max_length (sub_runs 3 (\<lambda>c. c = CHR ''-'') [] (strip_tags raw))"

definition safe_json_list :: "(string \<Rightarrow> json result) \<Rightarrow> string option \<Rightarrow> json list option result" where
  "safe_json_list loads value =
     (case value of
        None \<Rightarrow> ok None
      | Some s \<Rightarrow>
          if s = [] then ok None
          else (case loads s of
                  Inr (JList xs) \<Rightarrow> ok (if xs = [] then None else Some xs)
                | Inr _ \<Rightarrow> ok None
                | Inl (ValueError _) \<Rightarrow> ok None
                | Inl (TypeError _) \<Rightarrow> ok None
                | Inl e \<Rightarrow> raise e))"

text \<open>\<open>", ".join(items)\<close> raises when an item is not a string.\<close>

definition join_items :: "json list \<Rightarrow> string result" where
  "join_items items =
     (if list_all (\<lambda>j. case j of JStr _ \<Rightarrow> True | _ \<Rightarrow> False) items then ok (py_join '', '' (map py_str items))
      else raise (TypeError ''expected str instance''))"

definition scalar_directive :: "string \<Rightarrow> string \<Rightarrow> string option \<Rightarrow> string list" where
  "scalar_directive pre post v = (case v of Some s \<Rightarrow> if s = [] then [] else [pre @ s @ post] | None \<Rightarrow> [])"

definition int_directive :: "string \<Rightarrow> string \<Rightarrow> int option \<Rightarrow> string list" where
  "int_directive pre post v = (case v of Some i \<Rightarrow> if i = 0 then [] else [pre @ show_int i @ post] | None \<Rightarrow> [])"

definition list_directive :: "(string \<Rightarrow> json result) \<Rightarrow> string \<Rightarrow> string option \<Rightarrow> string list result" where
  "list_directive loads pre v =
     bindR (safe_json_list loads v) (\<lambda>items.
       case items of None \<Rightarrow> ok [] | Some xs \<Rightarrow> bindR (join_items xs) (\<lambda>s. ok [pre @ s @ ''.'']))"

definition build_schema_directives :: "(string \<Rightarrow> json result) \<Rightarrow> compilation_schema \<Rightarrow> string result" where
  "build_schema_directives loads schema =
     (let scalars =
          int_directive ''- Article body must not exceed '' '' words.'' (cs_article_max_length schema) @
          scalar_directive ''- Writing style: '' [] (cs_style schema) @
          scalar_directive ''- Focus: '' [] (cs_focus schema) @
          int_directive ''- Concept taxonomy max depth: '' '' levels.'' (cs_concept_max_depth schema) @
          scalar_directive ''- Concept naming convention: '' [] (cs_concept_naming schema) @
          scalar_directive ''- Additional directives: '' [] (cs_custom_directives schema)
      in bindR (list_directive loads ''- Article MUST include these sections: '' (cs_required_sections schema)) (\<lambda>sections.
         bindR (list_directive loads ''- Always note these when present in the source: '' (cs_extraction_always_note schema)) (\<lambda>notes.
         bindR (list_directive loads ''- Ignore these during extraction: '' (cs_extraction_ignore schema)) (\<lambda>ignored.
           let ls = scalars @ sections @ notes @ ignored
           in ok (if ls = [] then []
                  else [CHR 0x0A, CHR 0x0A] @ ''User-defined compilation rules (FOLLOW THESE):'' @ [CHR 0x0A] @ join_lines ls)))))"

section \<open>The prompt of a document\<close>

definition nonempty_text :: "string option \<Rightarrow> bool" where
  "nonempty_text v \<longleftrightarrow> v \<noteq> None \<and> v \<noteq> Some []"

definition span_line :: "source_span \<Rightarrow> string" where
  "span_line sp = ''- '' @ sp_id sp @ '': '' @ [CHR 0x22] @ take 120 (sp_text sp) @ [CHR 0x22, CHR 0x0A]"

fun span_lines :: "nat \<Rightarrow> nat \<Rightarrow> source_span list \<Rightarrow> string list" where
  "span_lines max_span_chars used [] = []"
| "span_lines max_span_chars used (sp # sps) =
     (if used + length (span_line sp) > max_span_chars then []
      else span_line sp # span_lines max_span_chars (used + length (span_line sp)) sps)"

definition build_user_prompt :: "nat \<Rightarrow> (int \<Rightarrow> string) \<Rightarrow> normalized_document \<Rightarrow> source_span list \<Rightarrow> string" where
  "build_user_prompt max_chars date_str doc spans =
     (let nl = [CHR 0x0A];
          meta = ''Title: '' @ nd_title doc
            @ (case nd_author doc of Some a \<Rightarrow> if a = [] then [] else nl @ ''Author: '' @ a | None \<Rightarrow> [])
            @ (case nd_published_date doc of Some t \<Rightarrow> nl @ ''Published: '' @ date_str t | None \<Rightarrow> [])
            @ (if nd_raw_source_id doc = [] then [] else nl @ ''Source ID: '' @ nd_raw_source_id doc);
          prompt = meta @ nl @ nl @ ''---'' @ nl @ nl @ take max_chars (nd_clean_text doc) @ nl @ nl @ ''---'';
          section = (if spans = [] then []
            else nl @ nl @ ''## Source Spans'' @ nl @ nl @ ''Cite these span IDs in key_claims.source_span_ids:'' @ nl
              @ concat (span_lines (max_chars div 4) 0 spans))
      in prompt @ section @ nl @ nl @ ''Compile this into a wiki article following the JSON schema exactly.'')"

section \<open>Results\<close>

definition overall_confidence :: "compilation_result \<Rightarrow> confidence_level" where
  "overall_confidence r =
     (if cr_key_claims r = [] then INFERRED
      else
        (let sourced = length (filter (\<lambda>c. cm_confidence c = SOURCED) (cr_key_claims r));
             ratio = fl (of_nat sourced / of_nat (length (cr_key_claims r)))
         in if ratio \<ge> fl (8 / 10) then SOURCED
            else if ratio \<ge> fl (4 / 10) then MIXED
            else INFERRED))"

text \<open>\<open>as_list xs\<close> is \<open>list(set(xs))\<close>, in the order the set is iterated in.\<close>

definition merge_chunk_results :: "(string list \<Rightarrow> string list) \<Rightarrow> string \<Rightarrow> compilation_result \<Rightarrow> compilation_result list \<Rightarrow> compilation_result" where
  "merge_chunk_results as_list title r rs =
     (let results = r # rs in
      \<lparr>cr_title = title, cr_summary = cr_summary r, cr_key_claims = take 20 (concat (map cr_key_claims results)),
       cr_concepts = take 10 (as_list (concat (map cr_concepts results))),
       cr_backlink_suggestions = take 10 (as_list (concat (map cr_backlink_suggestions results))),
       cr_open_questions = take 5 (as_list (concat (map cr_open_questions results))),
       cr_article_body = py_join ([CHR 0x0A, CHR 0x0A] @ ''---'' @ [CHR 0x0A, CHR 0x0A]) (map cr_article_body results),
       cr_page_type = SOURCE, cr_compiled = None, cr_provider = None\<rparr>)"

section \<open>What sanitised guidance can hold\<close>

abbreviation is_dash :: "char \<Rightarrow> bool" where
  "is_dash c \<equiv> c = CHR ''-''"

lemma no_dashes_Cons: "\<not> is_dash c \<Longrightarrow> find_sub ''---'' cs = None \<Longrightarrow> find_sub ''---'' (c # cs) = None"
  by simp

lemma no_dashes_run:
  "length run \<le> 2 \<Longrightarrow> find_sub ''---'' zs = None \<Longrightarrow> zs = [] \<or> \<not> is_dash (hd zs) \<Longrightarrow> list_all is_dash run \<Longrightarrow>
   find_sub ''---'' (run @ zs) = None"
proof (induction run)
  case (Cons c run)
  then have "find_sub ''---'' (run @ zs) = None" by simp
  moreover have "take (length ''---'') (c # run @ zs) \<noteq> ''---''"
    using Cons.prems by (cases run; cases "tl run"; cases zs) auto
  ultimately show ?case unfolding append_Cons find_sub.simps(2) by (simp del: find_sub.simps take_Suc_Cons)
qed simp

lemma sub_runs_hd: "xs \<noteq> [] \<Longrightarrow> \<not> is_dash (hd xs) \<Longrightarrow> sub_runs 3 is_dash [] xs \<noteq> [] \<and> hd (sub_runs 3 is_dash [] xs) = hd xs"
  by (cases xs) simp_all

lemma sub_runs_no_dashes: "find_sub ''---'' (sub_runs 3 is_dash [] s) = None"
proof (induction s rule: length_induct)
  case (1 s)
  show ?case
  proof (cases s)
    case (Cons x xs)
    show ?thesis
    proof (cases "is_dash x")
      case False
      have "find_sub ''---'' (sub_runs 3 is_dash [] xs) = None" using 1 [rule_format, of xs] Cons by simp
      from no_dashes_Cons [OF False this] show ?thesis using False by (simp add: Cons)
    next
      case True
      let ?rest = "sub_runs 3 is_dash [] (dropWhile is_dash xs)"
      have ih: "find_sub ''---'' ?rest = None"
        using 1 [rule_format, of "dropWhile is_dash xs"] Cons by (simp add: length_dropWhile_le le_imp_less_Suc)
      have "?rest = [] \<or> \<not> is_dash (hd ?rest)"
      proof (cases "dropWhile is_dash xs = []")
        case False
        then have "\<not> is_dash (hd (dropWhile is_dash xs))" by (rule hd_dropWhile)
        with False sub_runs_hd [of "dropWhile is_dash xs"] show ?thesis by simp
      next
        case True
        show ?thesis unfolding True by simp
      qed
      moreover have "list_all is_dash (x # takeWhile is_dash xs)" using True by (auto simp: list_all_iff dest: set_takeWhileD)
      ultimately have "length (x # takeWhile is_dash xs) \<le> 2 \<Longrightarrow> find_sub ''---'' ((x # takeWhile is_dash xs) @ ?rest) = None"
        using ih by (intro no_dashes_run) auto
      with True Cons ih show ?thesis by (auto simp: Let_def)
    qed
  qed simp
qed

lemma find_sub_take: "find_sub pat xs = None \<Longrightarrow> find_sub pat (take n xs) = None"
proof (rule ccontr)
  assume none: "find_sub pat xs = None" and "find_sub pat (take n xs) \<noteq> None"
  then obtain i where i: "take (length pat) (drop i (take n xs)) = pat" "i + length pat \<le> length (take n xs)"
    by (auto dest: find_sub_Some)
  then have "take (length pat) (drop i xs) = pat" by (simp add: drop_take min_def split: if_splits)
  with find_sub_le [of pat i xs] none i(2) show False by simp
qed

text \<open>
  Sanitised guidance is no longer than the limit and holds no run of three dashes, the mark that closes a section
  of the prompt. The tags that enclose it in the prompt are not kept out, though: removing the dashes after the tags
  puts a tag together again that was written with dashes inside.
\<close>

lemma guidance_limits:
  "length (sanitize_guidance n raw) \<le> n \<and> find_sub ''---'' (sanitize_guidance n raw) = None \<and>
   sanitize_guidance 20 ''<gui---dance>'' = ''<guidance>''"
proof -
  have "sanitize_guidance 20 ''<gui---dance>'' = ''<guidance>''" by code_simp
  moreover have "length (sanitize_guidance n raw) \<le> n \<and> find_sub ''---'' (sanitize_guidance n raw) = None"
    by (simp add: sanitize_guidance_def find_sub_take sub_runs_no_dashes)
  ultimately show ?thesis by blast
qed

end
