(* ===== verification/Storage.thy ===== *)
theory Storage
  imports Prelude PyStr "HOL-Library.Sublist"
begin

text \<open>
  File storage, \<^verbatim>\<open>src/src/wikimind/storage.py\<close>: paths, the check against path traversal, and the operations on text
  files. A resolved path is the list of its components; there are no symbolic links. The file system is a map from
  resolved paths to contents, in which directories are implicit.
\<close>

section \<open>Paths\<close>

type_synonym path = "string list"

fun split_slash :: "string \<Rightarrow> string \<Rightarrow> string list" where
  "split_slash acc [] = [rev acc]"
| "split_slash acc (c # cs) = (if c = CHR ''/'' then rev acc # split_slash [] cs else split_slash (c # acc) cs)"

definition path_parts :: "string \<Rightarrow> string list" where
  "path_parts p = filter (\<lambda>c. c \<noteq> [] \<and> c \<noteq> ''.'') (split_slash [] p)"

text \<open>\<open>(base / p).resolve()\<close>: an absolute \<open>p\<close> replaces the base; the parent of the root is the root.\<close>

fun climb :: "path \<Rightarrow> string list \<Rightarrow> path" where
  "climb acc [] = acc"
| "climb acc (c # cs) = climb (if c = ''..'' then butlast acc else acc @ [c]) cs"

definition joined :: "path \<Rightarrow> string \<Rightarrow> path" where
  "joined base p = climb (if prefix ''/'' p then [] else base) (path_parts p)"

definition storage_resolve :: "path \<Rightarrow> string \<Rightarrow> path result" where
  "storage_resolve root relative_path =
     (let resolved = joined root relative_path
      in if prefix root resolved then ok resolved else raise (ValueError ''Path traversal detected''))"

definition get_wiki_storage :: "path \<Rightarrow> string \<Rightarrow> path" where
  "get_wiki_storage data_dir user_id = (if user_id = [] then data_dir @ [''wiki''] else joined (data_dir @ [''wiki'']) user_id)"

definition get_raw_storage :: "path \<Rightarrow> string \<Rightarrow> path" where
  "get_raw_storage data_dir user_id = (if user_id = [] then data_dir @ [''raw''] else joined (data_dir @ [''raw'']) user_id)"

section \<open>Operations\<close>

type_synonym files = "path \<rightharpoonup> string"

definition storage_read :: "path \<Rightarrow> string \<Rightarrow> files \<Rightarrow> string result" where
  "storage_read root relative_path fs =
     bindR (storage_resolve root relative_path) (\<lambda>p.
       case fs p of None \<Rightarrow> raise (OSError ''No such file or directory'') | Some content \<Rightarrow> ok content)"

definition storage_write :: "path \<Rightarrow> string \<Rightarrow> string \<Rightarrow> files \<Rightarrow> files result" where
  "storage_write root relative_path content fs =
     bindR (storage_resolve root relative_path) (\<lambda>p. ok (fs(p \<mapsto> content)))"

definition storage_append :: "path \<Rightarrow> string \<Rightarrow> string \<Rightarrow> files \<Rightarrow> files result" where
  "storage_append root relative_path content fs =
     bindR (storage_resolve root relative_path) (\<lambda>p. ok (fs(p \<mapsto> (case fs p of None \<Rightarrow> [] | Some old \<Rightarrow> old) @ content)))"

definition storage_delete :: "path \<Rightarrow> string \<Rightarrow> files \<Rightarrow> files result" where
  "storage_delete root relative_path fs = bindR (storage_resolve root relative_path) (\<lambda>p. ok (fs(p := None)))"

definition storage_exists :: "path \<Rightarrow> string \<Rightarrow> files \<Rightarrow> bool result" where
  "storage_exists root relative_path fs = bindR (storage_resolve root relative_path) (\<lambda>p. ok (fs p \<noteq> None))"

definition read_article_content :: "path \<Rightarrow> string \<Rightarrow> string \<Rightarrow> files \<Rightarrow> string" where
  "read_article_content data_dir file_path user_id fs =
     (case storage_read (get_wiki_storage data_dir user_id) file_path fs of
        Inr content \<Rightarrow> content
      | Inl (OSError _) \<Rightarrow> []
      | Inl (ValueError _) \<Rightarrow> []
      | Inl e \<Rightarrow> [])"

section \<open>Isolation\<close>

text \<open>What code can do with the storage of a user: any operation, with any path.\<close>

datatype file_op = Write string string | Append string string | Delete string

fun file_step :: "path \<Rightarrow> file_op \<Rightarrow> files \<Rightarrow> files result" where
  "file_step root (Write p c) fs = storage_write root p c fs"
| "file_step root (Append p c) fs = storage_append root p c fs"
| "file_step root (Delete p) fs = storage_delete root p fs"

fun file_steps :: "path \<Rightarrow> file_op list \<Rightarrow> files \<Rightarrow> files" where
  "file_steps root [] fs = fs"
| "file_steps root (x # xs) fs = file_steps root xs (case file_step root x fs of Inr gs \<Rightarrow> gs | Inl _ \<Rightarrow> fs)"

text \<open>A name that is one component of a path, as the ids of users are.\<close>

definition plain_name :: "string \<Rightarrow> bool" where
  "plain_name s \<longleftrightarrow> s \<noteq> [] \<and> s \<noteq> ''.'' \<and> s \<noteq> ''..'' \<and> CHR ''/'' \<notin> set s"

lemma resolve_prefix: "storage_resolve root p = ok q \<Longrightarrow> prefix root q"
  by (auto simp: storage_resolve_def Let_def split: if_splits)

lemma split_slash_plain: "CHR ''/'' \<notin> set s \<Longrightarrow> split_slash acc s = [rev acc @ s]"
  by (induction s arbitrary: acc) auto

lemma joined_plain: "plain_name s \<Longrightarrow> joined base s = base @ [s]"
  by (auto simp: joined_def path_parts_def split_slash_plain plain_name_def dest: set_mono_prefix)

lemma file_step_outside: "file_step root x fs = ok gs \<Longrightarrow> \<not> prefix root p \<Longrightarrow> gs p = fs p"
  by (cases x) (auto simp: storage_write_def storage_append_def storage_delete_def res_simps dest: resolve_prefix)

lemma file_steps_outside: "\<not> prefix root p \<Longrightarrow> file_steps root xs fs p = fs p"
proof (induction xs arbitrary: fs)
  case (Cons x xs)
  then show ?case by (cases "file_step root x fs") (auto dest: file_step_outside)
qed simp

lemma roots_apart: "plain_name u \<Longrightarrow> plain_name v \<Longrightarrow> u \<noteq> v \<Longrightarrow> prefix (base @ [v]) p \<Longrightarrow> \<not> prefix (base @ [u]) p"
  by (auto simp: prefix_def)

text \<open>
  C25. Whatever paths code passes to the storage of one user, with parent references, absolute paths or any other
  text, what another user reads from the wiki does not change, and nor does any raw file: every path that would leave
  the directory of the user is refused.
\<close>

theorem storage_isolates_users:
  assumes "plain_name u" and "plain_name v" and "u \<noteq> v"
  shows "read_article_content data_dir file_path v (file_steps (get_wiki_storage data_dir u) ops fs) =
      read_article_content data_dir file_path v fs \<and>
    storage_read (get_raw_storage data_dir v) raw_path (file_steps (get_wiki_storage data_dir u) ops fs) =
      storage_read (get_raw_storage data_dir v) raw_path fs"
proof -
  have wiki: "get_wiki_storage data_dir w = (data_dir @ [''wiki'']) @ [w]" and raw: "get_raw_storage data_dir w = (data_dir @ [''raw'']) @ [w]"
    if "plain_name w" for w
    using that by (auto simp: get_wiki_storage_def get_raw_storage_def joined_plain plain_name_def)
  have read: "storage_read r q (file_steps (get_wiki_storage data_dir u) ops fs) = storage_read r q fs"
    if "\<And>p. prefix r p \<Longrightarrow> \<not> prefix (get_wiki_storage data_dir u) p" for r q
    using that resolve_prefix [of r q] by (cases "storage_resolve r q") (auto simp: storage_read_def file_steps_outside)
  have "storage_read (get_wiki_storage data_dir v) q (file_steps (get_wiki_storage data_dir u) ops fs) = storage_read (get_wiki_storage data_dir v) q fs" for q
    by (rule read) (use roots_apart [of u v "data_dir @ [''wiki'']"] assms in \<open>simp add: wiki\<close>)
  moreover have "storage_read (get_raw_storage data_dir v) raw_path (file_steps (get_wiki_storage data_dir u) ops fs) = storage_read (get_raw_storage data_dir v) raw_path fs"
    by (rule read) (use assms in \<open>auto simp: wiki raw prefix_def\<close>)
  ultimately show ?thesis by (simp add: read_article_content_def)
qed

theorem storage_isolates_users_witness:
  "let before = [[''data'', ''wiki'', ''bob'', ''a.md''] \<mapsto> ''# A''];
       after = file_steps (get_wiki_storage [''data''] ''eve'') [Write ''../bob/a.md'' ''x'', Write ''/data/wiki/bob/a.md'' ''y'', Append ''b.md'' ''z''] before
   in read_article_content [''data''] ''a.md'' ''bob'' after = ''# A''"
proof -
  have names: "plain_name ''eve''" "plain_name ''bob''" "''eve'' \<noteq> ''bob''" by (simp_all add: plain_name_def)
  have "read_article_content [''data''] ''a.md'' ''bob'' [[''data'', ''wiki'', ''bob'', ''a.md''] \<mapsto> ''# A''] = ''# A''"
    by code_simp
  then show ?thesis
    unfolding Let_def conjunct1 [OF storage_isolates_users [OF names]] .
qed

end
