(* ===== verification/World.thy ===== *)
theory World
  imports Effects Domain Json Storage Search LlmRouter
begin

text \<open>
  What the compilers and the job worker change, and what they are given. The state \<open>world\<close> is the database with the
  article files, the compiled claims, reinforcement events, compilation schemas, conversations and queries, the
  search index, and the state of the process: the LLM router and the stream of fresh ids. A database session
  (\<^verbatim>\<open>src/src/wikimind/database.py\<close>) sees its own changes; a commit checks the constraints of the schema
  and makes the changes last; after a failed commit the session refuses everything until it is closed, as SQLAlchemy
  sessions do; leaving it forgets what was not committed. Files and the process state are not part of the transaction.
  The record \<open>env\<close> holds the settings, and the functions of other packages as parameters.
\<close>

section \<open>State\<close>

record world =
  w_postgres :: bool
  w_db :: db
  w_claims :: "compiled_claim list"
  w_events :: "reinforcement_event list"
  w_schemas :: "compilation_schema list"
  w_conversations :: "conversation list"
  w_queries :: "qa_query list"
  w_fts :: fts_state
  w_router :: router
  w_uuids :: nat

record sess =
  se_saved :: world
  se_cur :: world
  se_broken :: bool

type_synonym 'a act = "(sess, 'a) eff"

text \<open>
  Constraints of \<^verbatim>\<open>models/tables/\<close>: primary keys and unique columns, and the foreign keys, which only
  Postgres enforces.
\<close>

definition unique_ok :: "world \<Rightarrow> bool" where
  "unique_ok w \<longleftrightarrow>
     distinct (map art_id (articles (w_db w))) \<and>
     distinct (map (\<lambda>a. (art_user_id a, art_slug a)) (articles (w_db w))) \<and>
     distinct (map (\<lambda>x. (ac_article_id x, ac_concept_name x)) (article_concepts (w_db w))) \<and>
     distinct (map (\<lambda>x. (as_article_id x, as_source_id x)) (article_sources (w_db w))) \<and>
     distinct (map (\<lambda>b. (bl_source_article_id b, bl_target_article_id b)) (backlinks (w_db w))) \<and>
     distinct (map (\<lambda>c. (con_user_id c, con_name c)) (concepts (w_db w))) \<and>
     distinct (map cs_id (w_schemas w)) \<and> distinct (map (\<lambda>s. (cs_user_id s, cs_name s)) (w_schemas w)) \<and>
     distinct (map cd_id (compilation_drafts (w_db w)))"

definition foreign_ok :: "world \<Rightarrow> bool" where
  "foreign_ok w \<longleftrightarrow>
     (let arts = map art_id (articles (w_db w)); srcs = map src_id (sources (w_db w))
      in list_all (\<lambda>x. ac_article_id x \<in> set arts) (article_concepts (w_db w)) \<and>
         list_all (\<lambda>x. as_article_id x \<in> set arts \<and> as_source_id x \<in> set srcs) (article_sources (w_db w)) \<and>
         list_all (\<lambda>b. bl_source_article_id b \<in> set arts \<and> bl_target_article_id b \<in> set arts) (backlinks (w_db w)) \<and>
         list_all (\<lambda>c. cc_article_id c \<in> set arts) (w_claims w))"

definition constraints_ok :: "world \<Rightarrow> bool" where
  "constraints_ok w \<longleftrightarrow> unique_ok w \<and> (w_postgres w \<longrightarrow> foreign_ok w)"

section \<open>Sessions\<close>

definition checkedS :: "'a act \<Rightarrow> 'a act" where
  "checkedS m s = (if se_broken s then (s, raise PendingRollbackError) else m s)"

definition getS :: "(world \<Rightarrow> 'a) \<Rightarrow> 'a act" where
  "getS f = checkedS (readS (\<lambda>s. f (se_cur s)))"

definition putS :: "(world \<Rightarrow> world) \<Rightarrow> unit act" where
  "putS f = checkedS (modifyS (\<lambda>s. s\<lparr>se_cur := f (se_cur s)\<rparr>))"

definition on_db :: "(db \<Rightarrow> db) \<Rightarrow> world \<Rightarrow> world" where
  "on_db f w = w\<lparr>w_db := f (w_db w)\<rparr>"

text \<open>What is left when a session is closed: what was committed, the files and the state of the process.\<close>

definition closed :: "sess \<Rightarrow> world" where
  "closed s = (se_saved s)\<lparr>w_db := (w_db (se_saved s))\<lparr>wiki_files := wiki_files (w_db (se_cur s))\<rparr>,
     w_router := w_router (se_cur s), w_uuids := w_uuids (se_cur s)\<rparr>"

definition commitS :: "unit act" where
  "commitS s =
     (if se_broken s then (s, raise PendingRollbackError)
      else if constraints_ok (se_cur s) then (s\<lparr>se_saved := se_cur s\<rparr>, ok ())
      else (\<lparr>se_saved = closed s, se_cur = closed s, se_broken = True\<rparr>, raise (IntegrityError ''constraint'')))"

text \<open>A change of the files, and reading one.\<close>

definition fileS :: "(db \<Rightarrow> db result) \<Rightarrow> unit act" where
  "fileS f s = (case f (w_db (se_cur s)) of
      Inl e \<Rightarrow> (s, raise e)
    | Inr d' \<Rightarrow> (s\<lparr>se_cur := on_db (\<lambda>d. d\<lparr>wiki_files := wiki_files d'\<rparr>) (se_cur s)\<rparr>, ok ()))"

definition read_fileS :: "(db \<Rightarrow> string result) \<Rightarrow> string act" where
  "read_fileS f s = (s, f (w_db (se_cur s)))"

definition freshS :: "(nat \<Rightarrow> string) \<Rightarrow> string act" where
  "freshS uuid s = (s\<lparr>se_cur := (se_cur s)\<lparr>w_uuids := w_uuids (se_cur s) + 1\<rparr>\<rparr>, ok (uuid (w_uuids (se_cur s))))"

text \<open>
  \<^verbatim>\<open>async with session_factory() as session\<close>, and the session of a request, which commits when the handler
  returns. A session opened inside another one, right after a commit of the outer one, works on what is committed;
  later queries of the outer one see what the inner one committed.
\<close>

definition open_session :: "world \<Rightarrow> sess" where
  "open_session w = \<lparr>se_saved = w, se_cur = w, se_broken = False\<rparr>"

definition in_session :: "'a act \<Rightarrow> (world, 'a) eff" where
  "in_session m w = (case m (open_session w) of (s, r) \<Rightarrow> (closed s, r))"

definition in_request :: "'a act \<Rightarrow> (world, 'a) eff" where
  "in_request m = in_session (bindS m (\<lambda>x. bindS commitS (\<lambda>_. returnS x)))"

definition nestedS :: "'a act \<Rightarrow> 'a act" where
  "nestedS m s = (case in_session m (closed s) of (w, r) \<Rightarrow> (s\<lparr>se_saved := w, se_cur := w\<rparr>, r))"

section \<open>Files\<close>

definition wiki_write :: "path \<Rightarrow> string \<Rightarrow> string \<Rightarrow> string \<Rightarrow> db \<Rightarrow> db result" where
  "wiki_write data_dir user_id file_path content d =
     bindR (storage_resolve (Storage.get_wiki_storage data_dir user_id) file_path) (\<lambda>_.
       ok (d\<lparr>wiki_files := (wiki_files d)((user_id, file_path) \<mapsto> content)\<rparr>))"

definition wiki_delete :: "path \<Rightarrow> string \<Rightarrow> string \<Rightarrow> db \<Rightarrow> db result" where
  "wiki_delete data_dir user_id file_path d =
     bindR (storage_resolve (Storage.get_wiki_storage data_dir user_id) file_path) (\<lambda>_.
       ok (d\<lparr>wiki_files := (wiki_files d)((user_id, file_path) := None)\<rparr>))"

definition wiki_read :: "path \<Rightarrow> string \<Rightarrow> string \<Rightarrow> db \<Rightarrow> string result" where
  "wiki_read data_dir user_id file_path d =
     bindR (storage_resolve (Storage.get_wiki_storage data_dir user_id) file_path) (\<lambda>_.
       case wiki_files d (user_id, file_path) of None \<Rightarrow> raise (OSError ''No such file or directory'') | Some c \<Rightarrow> ok c)"

section \<open>The environment\<close>

record env =
  en_data_dir :: path
  en_now :: datetime
  en_uuid :: "nat \<Rightarrow> string"
  en_loads :: "string \<Rightarrow> json result"
  en_dumps :: "json \<Rightarrow> string"
  en_slugify :: "string \<Rightarrow> nat option \<Rightarrow> string"
  en_iso :: "datetime \<Rightarrow> string"
  en_day :: "datetime \<Rightarrow> string"
  en_date :: "int \<Rightarrow> string"
  en_parse_datetime :: "json \<Rightarrow> datetime option"
  en_set :: "string list \<Rightarrow> string list"
  en_md5 :: "string \<Rightarrow> nat list"
  en_dash :: string
  en_ellipsis :: string
  en_billing :: bool
  en_llm :: llm_config
  en_user_key :: "string \<Rightarrow> provider \<Rightarrow> string option"
  en_call :: "nat \<Rightarrow> llm_instance \<Rightarrow> completion_request \<Rightarrow> string \<Rightarrow> completion_response result"
  en_clock :: rat
  en_elapsed :: "nat \<Rightarrow> int"
  en_prompt :: "string \<Rightarrow> string"
  en_concept_prompt :: "string \<Rightarrow> (string \<times> string \<times> nat \<times> string \<times> string \<Rightarrow> string) option"
  en_taxonomy_prompt :: "nat \<times> string \<Rightarrow> string"
  en_max_tokens :: int
  en_slug_max_attempts :: nat
  en_source_text_max_chars :: nat
  en_guidance_max_length :: nat
  en_concept_source_max_chars :: nat
  en_concept_page_min_sources :: int
  en_rebuild_threshold :: nat
  en_max_hierarchy_depth :: nat

definition dump_strings :: "env \<Rightarrow> string list \<Rightarrow> string" where
  "dump_strings env xs = en_dumps env (JList (map JStr xs))"

section \<open>Calls of the language model\<close>

text \<open>
  \<open>plan_aware_complete\<close>. The log of the costs and the trace are written in sessions of their own, so that they last
  whatever becomes of the caller's session. Without a session the plan of the user is not looked at.
\<close>

definition llmS :: "env \<Rightarrow> bool \<Rightarrow> completion_request \<Rightarrow> string \<Rightarrow> completion_response act" where
  "llmS env with_session req user_id s =
     (let w = se_cur s; n = w_uuids w;
          call_env = \<lparr>ce_now = en_now env, ce_clock = en_clock env, ce_fresh_cost = en_uuid env n, ce_fresh_trace = en_uuid env (n + 1)\<rparr>;
          (ro, d, atts, evs, r) = plan_aware_complete (en_billing env \<and> with_session) (en_llm env) (en_user_key env user_id)
             (en_call env n) call_env req user_id (w_router w) (w_db w);
          logged = (\<lambda>v. v\<lparr>w_router := ro, w_uuids := n + 2,
             w_db := (w_db v)\<lparr>cost_logs := cost_logs d, llm_traces := llm_traces d\<rparr>\<rparr>)
      in (s\<lparr>se_saved := logged (se_saved s), se_cur := logged w\<rparr>, r))"

section \<open>Laws\<close>

named_theorems leaves_intro "code that leaves a part of the session's view alone when it returns"

lemma closed_simps [simp]:
  "w_postgres (closed s) = w_postgres (se_saved s)" "w_claims (closed s) = w_claims (se_saved s)"
  "w_events (closed s) = w_events (se_saved s)" "w_schemas (closed s) = w_schemas (se_saved s)"
  "articles (w_db (closed s)) = articles (w_db (se_saved s))" "sources (w_db (closed s)) = sources (w_db (se_saved s))"
  "article_sources (w_db (closed s)) = article_sources (w_db (se_saved s))"
  "article_concepts (w_db (closed s)) = article_concepts (w_db (se_saved s))"
  "wiki_files (w_db (closed s)) = wiki_files (w_db (se_cur s))" "jobs (w_db (closed s)) = jobs (w_db (se_saved s))"
  by (simp_all add: closed_def)

lemma constraints_closed [simp]: "constraints_ok (closed s) = constraints_ok (se_saved s)"
  by (simp add: constraints_ok_def unique_ok_def foreign_ok_def closed_def)

lemma returnS_app [simp]: "returnS x s = (s, ok x)" and raiseS_app [simp]: "raiseS e s = (s, raise e)" and liftS_app [simp]: "liftS r s = (s, r)"
  by (simp_all add: effect_simps)

lemma getS_ok: "getS f s = (t, ok x) \<longleftrightarrow> \<not> se_broken s \<and> t = s \<and> x = f (se_cur s)"
  by (auto simp: getS_def checkedS_def readS_def)

lemma putS_ok: "putS f s = (t, ok x) \<longleftrightarrow> \<not> se_broken s \<and> t = s\<lparr>se_cur := f (se_cur s)\<rparr>"
  by (auto simp: putS_def checkedS_def modifyS_def)

lemma commitS_ok: "commitS s = (t, ok x) \<longleftrightarrow> \<not> se_broken s \<and> constraints_ok (se_cur s) \<and> t = s\<lparr>se_saved := se_cur s\<rparr>"
  by (auto simp: commitS_def)

lemma freshS_ok: "freshS uuid s = (t, ok x) \<longleftrightarrow> t = s\<lparr>se_cur := (se_cur s)\<lparr>w_uuids := w_uuids (se_cur s) + 1\<rparr>\<rparr> \<and> x = uuid (w_uuids (se_cur s))"
  by (auto simp: freshS_def)

lemma fileS_ok: "fileS f s = (t, ok x) \<longleftrightarrow>
  (\<exists>d. f (w_db (se_cur s)) = ok d \<and> t = s\<lparr>se_cur := on_db (\<lambda>d0. d0\<lparr>wiki_files := wiki_files d\<rparr>) (se_cur s)\<rparr>)"
  by (auto simp: fileS_def split: sum.splits)

lemmas act_ok = bindS_ok getS_ok putS_ok commitS_ok freshS_ok fileS_ok

text \<open>A view of the world that code does not change if it returns.\<close>

definition leaves :: "(world \<Rightarrow> 'x) \<Rightarrow> 'a act \<Rightarrow> bool" where
  "leaves f m \<longleftrightarrow> (\<forall>s t x. m s = (t, ok x) \<longrightarrow> f (se_cur t) = f (se_cur s))"

lemma leavesD: "leaves f m \<Longrightarrow> m s = (t, ok x) \<Longrightarrow> f (se_cur t) = f (se_cur s)"
  by (simp add: leaves_def)

lemma leaves_return [leaves_intro]: "leaves f (returnS x)" and leaves_raise [leaves_intro]: "leaves f (raiseS e)"
  and leaves_lift [leaves_intro]: "leaves f (liftS r)" and leaves_get [leaves_intro]: "leaves f (getS g)"
  and leaves_commit [leaves_intro]: "leaves f commitS" and leaves_read [leaves_intro]: "leaves f (read_fileS g')"
  by (auto simp: leaves_def getS_ok commitS_ok read_fileS_def)

lemma leaves_bind [leaves_intro]: "leaves f m \<Longrightarrow> (\<And>x. leaves f (k x)) \<Longrightarrow> leaves f (bindS m k)"
  unfolding leaves_def bindS_ok by metis

lemma leaves_put [leaves_intro]: "(\<And>w. f (g w) = f w) \<Longrightarrow> leaves f (putS g)"
  by (auto simp: leaves_def putS_ok)

lemma leaves_fresh [leaves_intro]: "(\<And>w n. f (w\<lparr>w_uuids := n\<rparr>) = f w) \<Longrightarrow> leaves f (freshS g)"
  by (auto simp: leaves_def freshS_ok)

lemma leaves_file [leaves_intro]: "(\<And>w d. f (w\<lparr>w_db := (w_db w)\<lparr>wiki_files := d\<rparr>\<rparr>) = f w) \<Longrightarrow> leaves f (fileS g)"
  by (auto simp: leaves_def fileS_ok on_db_def)

lemma leaves_if [leaves_intro]: "(b \<Longrightarrow> leaves f m) \<Longrightarrow> (\<not> b \<Longrightarrow> leaves f n) \<Longrightarrow> leaves f (if b then m else n)"
  by simp

lemma leaves_option [leaves_intro]:
  "(v = None \<Longrightarrow> leaves f m) \<Longrightarrow> (\<And>x. v = Some x \<Longrightarrow> leaves f (k x)) \<Longrightarrow> leaves f (case v of None \<Rightarrow> m | Some x \<Rightarrow> k x)"
  by (cases v) simp_all

lemma leaves_fold [leaves_intro]: "(\<And>x acc. x \<in> set xs \<Longrightarrow> leaves f (k x acc)) \<Longrightarrow> leaves f (foldS k xs acc)"
  by (induction xs arbitrary: acc) (auto intro!: leaves_return leaves_bind)

lemma leaves_llm [leaves_intro]:
  assumes "\<And>w ro n c l. f (w\<lparr>w_router := ro, w_uuids := n, w_db := (w_db w)\<lparr>cost_logs := c, llm_traces := l\<rparr>\<rparr>) = f w"
  shows "leaves f (llmS env b req uid)"
  using assms by (auto simp: leaves_def llmS_def Let_def split: prod.splits)

text \<open>\<open>try\<close> whose body leaves the view alone however it ends.\<close>

definition untouched :: "(world \<Rightarrow> 'x) \<Rightarrow> 'a act \<Rightarrow> bool" where
  "untouched f m \<longleftrightarrow> (\<forall>s. f (se_cur (fst (m s))) = f (se_cur s))"

lemma leaves_try [leaves_intro]: "untouched f m \<Longrightarrow> (\<And>e. leaves f (h e)) \<Longrightarrow> leaves f (tryS m h)"
  unfolding leaves_def untouched_def tryS_def
  by (auto split: prod.splits sum.splits) (metis fst_conv)+

section \<open>Views that survive exceptions\<close>

text \<open>
  A view of the committed state that code leaves alone however it ends, as long as the session had no change of it
  pending: closing the session after an exception then gives the same view. The views that matter are those of the
  tables that the upkeep of articles, concepts, links, search index, files and logs does not touch: what remains of a
  world when all that is erased.
\<close>

definition rest :: "world \<Rightarrow> world" where
  "rest w = w\<lparr>w_db := (w_db w)\<lparr>articles := [], article_concepts := [], article_sources := [], concepts := [], backlinks := [],
       wiki_files := Map.empty, cost_logs := [], llm_traces := []\<rparr>,
     w_fts := \<lparr>fts_ready = False, fts_table = []\<rparr>, w_router := ex_router, w_uuids := 0\<rparr>"

definition holds_view :: "(world \<Rightarrow> 'x) \<Rightarrow> sess \<Rightarrow> sess \<Rightarrow> bool" where
  "holds_view f s t \<longleftrightarrow>
     (f (se_saved s) = f (se_cur s) \<longrightarrow> f (se_saved t) = f (se_saved s) \<and> f (se_cur t) = f (se_saved s))"

locale durable =
  fixes view :: "world \<Rightarrow> 'x"
  assumes view_rest: "view (rest w) = view w"

sublocale durable \<subseteq> fr: effect_frame "holds_view view"
  by unfold_locales (auto simp: holds_view_def)

context durable
begin

lemma same_rest: "rest v = rest w \<Longrightarrow> view v = view w"
  by (metis view_rest)

lemma view_closed: "view (closed s) = view (se_saved s)"
  by (rule same_rest) (simp add: rest_def closed_def)

lemma keeps_checked: "fr.keeps m \<Longrightarrow> fr.keeps (checkedS m)"
  by (auto simp: fr.keeps_def checkedS_def fr.refl_R)

lemma keeps_get: "fr.keeps (getS g)"
  unfolding getS_def by (intro keeps_checked fr.keeps_read)

lemma keeps_put: "(\<And>w. rest (g w) = rest w) \<Longrightarrow> fr.keeps (putS g)"
proof -
  assume "\<And>w. rest (g w) = rest w"
  then have "view (g w) = view w" for w by (rule same_rest)
  then show ?thesis unfolding putS_def by (intro keeps_checked fr.keeps_modify) (simp add: holds_view_def)
qed

lemma keeps_commit: "fr.keeps commitS"
  by (auto simp: fr.keeps_def commitS_def holds_view_def view_closed)

lemma keeps_file: "fr.keeps (fileS g)"
proof -
  have "view (on_db (\<lambda>d. d\<lparr>wiki_files := f\<rparr>) w) = view w" for f w by (rule same_rest) (simp add: rest_def on_db_def)
  then show ?thesis by (auto simp: fr.keeps_def fileS_def holds_view_def split: sum.splits)
qed

lemma keeps_read_file: "fr.keeps (read_fileS g)"
  by (auto simp: fr.keeps_def read_fileS_def holds_view_def)

lemma keeps_fresh: "fr.keeps (freshS g)"
proof -
  have "view (w\<lparr>w_uuids := n\<rparr>) = view w" for w n by (rule same_rest) (simp add: rest_def)
  then show ?thesis by (auto simp: fr.keeps_def freshS_def holds_view_def)
qed

lemma keeps_llm: "fr.keeps (llmS env b req uid)"
proof -
  have "view (w\<lparr>w_router := ro, w_uuids := n, w_db := (w_db w)\<lparr>cost_logs := c, llm_traces := l\<rparr>\<rparr>) = view w" for w ro n c l
    by (rule same_rest) (simp add: rest_def)
  then show ?thesis
    by (auto simp: fr.keeps_def llmS_def Let_def holds_view_def split: prod.splits)
qed

lemma keeps_in_session: "fr.keeps m \<Longrightarrow> view (fst (in_session m w)) = view w"
proof -
  assume m: "fr.keeps m"
  obtain s r where s: "m (open_session w) = (s, r)" by (cases "m (open_session w)")
  with fr.keepsD [OF m s] show ?thesis by (simp add: in_session_def open_session_def holds_view_def view_closed)
qed

lemma keeps_nested: "fr.keeps m \<Longrightarrow> fr.keeps (nestedS m)"
proof (rule fr.keepsI)
  fix s assume m: "fr.keeps m"
  show "holds_view view s (fst (nestedS m s))"
    using keeps_in_session [OF m, of "closed s"] by (auto simp: nestedS_def holds_view_def view_closed split: prod.splits)
qed

lemma keeps_option:
  "(v = None \<Longrightarrow> fr.keeps m) \<Longrightarrow> (\<And>x. v = Some x \<Longrightarrow> fr.keeps (k x)) \<Longrightarrow> fr.keeps (case v of None \<Rightarrow> m | Some x \<Rightarrow> k x)"
  by (cases v) simp_all

lemma keeps_cond: "(b \<Longrightarrow> fr.keeps m) \<Longrightarrow> (\<not> b \<Longrightarrow> fr.keeps n) \<Longrightarrow> fr.keeps (if b then m else n)"
  by simp

lemma keeps_pair: "(\<And>x y. p = (x, y) \<Longrightarrow> fr.keeps (k x y)) \<Longrightarrow> fr.keeps (case p of (x, y) \<Rightarrow> k x y)"
  by (cases p) simp

lemmas rules = fr.keeps_return fr.keeps_raise fr.keeps_lift fr.keeps_bind fr.keeps_fold fr.keeps_try keeps_cond keeps_pair
  keeps_get keeps_put keeps_commit keeps_file keeps_read_file keeps_fresh keeps_llm keeps_nested keeps_option

end

end
