(* ===== verification/Samples.thy ===== *)
theory Samples
  imports World Prompts
begin

text \<open>
  A concrete environment and a small wiki, on which the witnesses of the compilers and of the job worker run: one
  user, a mock language model that answers with an article or a concept page, and a JSON reader that knows those
  answers.
\<close>

definition ex_str :: "string \<Rightarrow> string \<Rightarrow> string \<times> json" where
  "ex_str k v = (k, JStr v)"

definition ex_claim_json :: json where
  "ex_claim_json = JObj [ex_str ''claim'' ''X is fast'', ex_str ''confidence'' ''sourced'',
     (''source_span_ids'', JList [JStr ''sp1'', JStr ''made-up''])]"

definition ex_article_json :: json where
  "ex_article_json = JObj [ex_str ''title'' ''On X'', ex_str ''summary'' ''About X.'', (''key_claims'', JList [ex_claim_json]),
     (''concepts'', JList [JStr ''topic-x'']), (''backlink_suggestions'', JList [JObj [ex_str ''target'' ''Y'', ex_str ''relation_type'' ''extends'']]),
     (''open_questions'', JList []), ex_str ''article_body'' ''Body.'', ex_str ''page_type'' ''meta'']"

definition ex_concept_json :: json where
  "ex_concept_json = JObj [ex_str ''title'' ''Topic X'', ex_str ''overview'' ''O.'', (''key_themes'', JList []),
     ex_str ''consensus_conflicts'' ''C.'', (''open_questions'', JList []), ex_str ''timeline'' ''T.'',
     ex_str ''sources_summary'' ''S.'', ex_str ''article_body'' ''B.'']"

definition ex_loads :: "string \<Rightarrow> json result" where
  "ex_loads s =
     (if s = ''article'' then ok ex_article_json
      else if s = ''concept'' then ok ex_concept_json
      else if s = ''taxonomy'' then ok (JList [])
      else if s = ''[]'' then ok (JList [])
      else raise (ValueError ''Expecting value''))"

definition ex_slugify :: "string \<Rightarrow> nat option \<Rightarrow> string" where
  "ex_slugify s n = map (\<lambda>c. if c = CHR '' '' then CHR ''-'' else lower_char c) (case n of Some k \<Rightarrow> take k s | None \<Rightarrow> s)"

definition ex_answer :: "nat \<Rightarrow> llm_instance \<Rightarrow> completion_request \<Rightarrow> string \<Rightarrow> completion_response result" where
  "ex_answer n inst req model =
     ok \<lparr>rs_content = (if rq_system req = ''concept'' then ''concept'' else if rq_task_type req = T_INDEX then ''taxonomy'' else ''article''),
        rs_provider_used = in_provider inst, rs_model_used = model, rs_input_tokens = 3, rs_output_tokens = 4,
        rs_cost_usd = 0, rs_latency_ms = 1\<rparr>"

definition ex_mock :: llm_config where
  "ex_mock = \<lparr>lc_default_provider = ''mock'', lc_fallback_enabled = False, lc_monthly_budget_usd = 0,
     lc_budget_warning_pct = 1, lc_budget_check_cache_seconds = 60, lc_trace_enabled = False,
     lc_trace_store_content = False, lc_enabled = (\<lambda>p. p = MOCK), lc_model = (\<lambda>p. ''m''),
     lc_api_key = (\<lambda>p. None), lc_oc_enabled = False, lc_oc_model = [], lc_oc_base_url = []\<rparr>"

definition ex_env0 :: env where
  "ex_env0 = \<lparr>en_data_dir = [''data''], en_now = 1000, en_uuid = (\<lambda>n. ''id'' @ show_nat n), en_loads = ex_loads,
     en_dumps = (\<lambda>j. ''[]''), en_slugify = ex_slugify, en_iso = (\<lambda>t. ''now''), en_day = (\<lambda>t. ''today''),
     en_date = (\<lambda>t. ''date''), en_parse_datetime = (\<lambda>j. None), en_set = nub, en_md5 = (\<lambda>s. map cp s), en_dash = ''-'',
     en_ellipsis = ''..'', en_billing = False, en_llm = ex_mock, en_user_key = (\<lambda>u p. None), en_call = ex_answer,
     en_clock = 0, en_elapsed = (\<lambda>n. 5), en_prompt = (\<lambda>k. k), en_concept_prompt = (\<lambda>k. Some (\<lambda>x. ''concept'')),
     en_taxonomy_prompt = (\<lambda>x. ''taxonomy''), en_max_tokens = 100, en_slug_max_attempts = 10, en_source_text_max_chars = 500, en_guidance_max_length = 50, en_concept_source_max_chars = 100,
     en_concept_page_min_sources = 1, en_rebuild_threshold = 5, en_max_hierarchy_depth = 3\<rparr>"

definition ex_router0 :: router where
  "ex_router0 = \<lparr>ro_budget_warning_sent = Map.empty, ro_budget_exceeded_sent = Map.empty, ro_cached_spend = Map.empty,
     ro_cache_expires_at = Map.empty, ro_provider_cache = Map.empty, ro_redis = None\<rparr>"

definition ex_source0 :: source where
  "ex_source0 = \<lparr>src_id = ''s1'', src_user_id = ''u1'', src_source_type = S_TEXT, src_source_url = None,
     src_title = Some ''Notes on X'', src_author = None, src_published_date = None, src_status = PENDING,
     src_ingested_at = 10, src_compiled_at = None, src_token_count = None, src_error_message = None,
     src_file_path = Some ''s1.txt'', src_clean_text = Some ''X is fast.'', src_content_hash = None\<rparr>"

definition ex_span0 :: source_span where
  "ex_span0 = \<lparr>sp_id = ''sp1'', sp_source_id = ''s1'', sp_user_id = ''u1'', sp_locator_kind = TEXT_BYTE_RANGE, sp_locator = [],
     sp_text = ''X is fast.'', sp_fingerprint = ''f'', sp_stale = False, sp_created_at = 10\<rparr>"

definition ex_concept0 :: "string \<Rightarrow> concept" where
  "ex_concept0 name = \<lparr>con_id = ''c1'', con_user_id = ''u1'', con_name = name, con_parent_id = None, con_article_count = 1,
     con_description = Some name, con_created_at = 0, con_concept_kind = ''topic''\<rparr>"

definition ex_kind0 :: concept_kind_def where
  "ex_kind0 = \<lparr>ckd_name = ''topic'', ckd_prompt_template_key = ''concept_synthesis_topic'', ckd_required_sections = [],
     ckd_linter_rules = [], ckd_description = None\<rparr>"

text \<open>A wiki with one source, not yet compiled, and an article about \<open>Y\<close> under the tag given.\<close>

definition ex_wiki_db :: "string \<Rightarrow> db" where
  "ex_wiki_db label = empty_db\<lparr>sources := [ex_source0], source_spans := [ex_span0],
     articles := [new_article ''a1'' ''u1'' ''y'' ''Y'' ''general/y.md'' 0],
     article_concepts := [\<lparr>ac_article_id = ''a1'', ac_concept_name = label\<rparr>],
     concepts := [ex_concept0 ''topic-y''], concept_kind_defs := [ex_kind0],
     wiki_files := [(''u1'', ''general/y.md'') \<mapsto> ''About Y.'']\<rparr>"

definition ex_world0 :: "bool \<Rightarrow> string \<Rightarrow> world" where
  "ex_world0 postgres label = \<lparr>w_postgres = postgres, w_db = ex_wiki_db label, w_claims = [], w_events = [], w_schemas = [],
     w_conversations = [], w_queries = [], w_fts = \<lparr>fts_ready = True, fts_table = []\<rparr>, w_router = ex_router0, w_uuids = 0\<rparr>"

end
