(* ===== verification/Schemas.thy ===== *)
theory Schemas
  imports Prompts World Samples
begin

text \<open>
  The compilation rules of a user, \<^verbatim>\<open>src/src/wikimind/services/compilation_schema.py\<close>: creation, listing, lookup,
  update and deletion of schemas, of which one per user may be active. A request runs in its own session; \<open>flush\<close>
  checks the constraints of the schema as a commit does. The bounds of the request models are checked before.
\<close>

section \<open>Requests and responses\<close>

record schema_fields =
  sf_name :: "string option"
  sf_description :: "string option"
  sf_is_active :: "bool option"
  sf_article_max_length :: "int option"
  sf_required_sections :: "string list option"
  sf_style :: "string option"
  sf_focus :: "string option"
  sf_concept_max_depth :: "int option"
  sf_concept_naming :: "string option"
  sf_extraction_always_note :: "string list option"
  sf_extraction_ignore :: "string list option"
  sf_custom_directives :: "string option"

record schema_response =
  sr_id :: string
  sr_name :: string
  sr_description :: "string option"
  sr_is_active :: bool
  sr_article_max_length :: "int option"
  sr_required_sections :: "string list option"
  sr_style :: "string option"
  sr_focus :: "string option"
  sr_concept_max_depth :: "int option"
  sr_concept_naming :: "string option"
  sr_extraction_always_note :: "string list option"
  sr_extraction_ignore :: "string list option"
  sr_custom_directives :: "string option"
  sr_created_at :: datetime
  sr_updated_at :: datetime

definition in_bounds :: "int \<Rightarrow> int \<Rightarrow> int option \<Rightarrow> bool" where
  "in_bounds lo hi v = (case v of None \<Rightarrow> True | Some i \<Rightarrow> lo \<le> i \<and> i \<le> hi)"

definition at_most :: "nat \<Rightarrow> string option \<Rightarrow> bool" where
  "at_most n v = (case v of None \<Rightarrow> True | Some s \<Rightarrow> length s \<le> n)"

text \<open>The bounds of \<open>CreateCompilationSchemaRequest\<close> and \<open>UpdateCompilationSchemaRequest\<close>.\<close>

definition valid_fields :: "schema_fields \<Rightarrow> bool" where
  "valid_fields f \<longleftrightarrow> sf_name f \<noteq> Some [] \<and> at_most 200 (sf_name f) \<and> in_bounds 100 50000 (sf_article_max_length f) \<and>
     at_most 500 (sf_style f) \<and> at_most 500 (sf_focus f) \<and> in_bounds 1 10 (sf_concept_max_depth f) \<and>
     at_most 200 (sf_concept_naming f) \<and> at_most 2000 (sf_custom_directives f)"

text \<open>A decoded value that is not a list of strings fails the validation of the response.\<close>

definition json_loads_or_none :: "env \<Rightarrow> string option \<Rightarrow> string list option result" where
  "json_loads_or_none env value =
     (case value of
        None \<Rightarrow> ok None
      | Some s \<Rightarrow>
          if s = [] then ok None
          else (case en_loads env s of
                  Inl (ValueError _) \<Rightarrow> ok None
                | Inl (TypeError _) \<Rightarrow> ok None
                | Inl e \<Rightarrow> raise e
                | Inr j \<Rightarrow> parse_opt (parse_strs ''list'') j))"

definition to_response :: "env \<Rightarrow> compilation_schema \<Rightarrow> schema_response result" where
  "to_response env s =
     bindR (json_loads_or_none env (cs_required_sections s)) (\<lambda>sections.
     bindR (json_loads_or_none env (cs_extraction_always_note s)) (\<lambda>notes.
     bindR (json_loads_or_none env (cs_extraction_ignore s)) (\<lambda>ignored.
       ok \<lparr>sr_id = cs_id s, sr_name = cs_name s, sr_description = cs_description s, sr_is_active = cs_is_active s,
           sr_article_max_length = cs_article_max_length s, sr_required_sections = sections, sr_style = cs_style s,
           sr_focus = cs_focus s, sr_concept_max_depth = cs_concept_max_depth s, sr_concept_naming = cs_concept_naming s,
           sr_extraction_always_note = notes, sr_extraction_ignore = ignored, sr_custom_directives = cs_custom_directives s,
           sr_created_at = cs_created_at s, sr_updated_at = cs_updated_at s\<rparr>)))"

section \<open>Operations\<close>

definition flushS :: "unit act" where
  "flushS s =
     (if se_broken s then (s, raise PendingRollbackError)
      else if constraints_ok (se_cur s) then (s, ok ())
      else (\<lparr>se_saved = closed s, se_cur = closed s, se_broken = True\<rparr>, raise (IntegrityError ''constraint'')))"

definition put_schemas :: "(compilation_schema list \<Rightarrow> compilation_schema list) \<Rightarrow> unit act" where
  "put_schemas f = putS (\<lambda>w. w\<lparr>w_schemas := f (w_schemas w)\<rparr>)"

definition deactivate_all :: "string \<Rightarrow> compilation_schema list \<Rightarrow> compilation_schema list" where
  "deactivate_all user_id = update_where (\<lambda>s. cs_user_id s = user_id \<and> cs_is_active s) (\<lambda>s. s\<lparr>cs_is_active := False\<rparr>)"

definition dumped_list :: "env \<Rightarrow> string list option \<Rightarrow> string option" where
  "dumped_list env v = (case v of None \<Rightarrow> None | Some xs \<Rightarrow> if xs = [] then None else Some (dump_strings env xs))"

definition new_schema :: "env \<Rightarrow> string \<Rightarrow> string \<Rightarrow> schema_fields \<Rightarrow> compilation_schema" where
  "new_schema env sid user_id f =
     \<lparr>cs_id = sid, cs_user_id = user_id, cs_name = (case sf_name f of Some n \<Rightarrow> n | None \<Rightarrow> []), cs_description = sf_description f,
      cs_is_active = (sf_is_active f = Some True), cs_article_max_length = sf_article_max_length f,
      cs_required_sections = dumped_list env (sf_required_sections f), cs_style = sf_style f, cs_focus = sf_focus f,
      cs_concept_max_depth = sf_concept_max_depth f, cs_concept_naming = sf_concept_naming f,
      cs_extraction_always_note = dumped_list env (sf_extraction_always_note f),
      cs_extraction_ignore = dumped_list env (sf_extraction_ignore f), cs_custom_directives = sf_custom_directives f,
      cs_created_at = en_now env, cs_updated_at = en_now env\<rparr>"

definition create_schema :: "env \<Rightarrow> string \<Rightarrow> schema_fields \<Rightarrow> schema_response act" where
  "create_schema env user_id f =
     bindS (if sf_is_active f = Some True then put_schemas (deactivate_all user_id) else returnS ()) (\<lambda>_.
     bindS (freshS (en_uuid env)) (\<lambda>sid.
     bindS (put_schemas (\<lambda>rows. rows @ [new_schema env sid user_id f])) (\<lambda>_.
     bindS flushS (\<lambda>_. liftS (to_response env (new_schema env sid user_id f))))))"

fun responses :: "env \<Rightarrow> compilation_schema list \<Rightarrow> schema_response list result" where
  "responses env [] = ok []"
| "responses env (s # ss) = bindR (to_response env s) (\<lambda>r. bindR (responses env ss) (\<lambda>rs. ok (r # rs)))"

definition list_schemas :: "env \<Rightarrow> string \<Rightarrow> schema_response list act" where
  "list_schemas env user_id =
     bindS (getS w_schemas) (\<lambda>rows. liftS (responses env (sort_key cs_created_at (select (\<lambda>s. cs_user_id s = user_id) rows))))"

definition find_schema :: "string \<Rightarrow> string \<Rightarrow> compilation_schema list \<Rightarrow> compilation_schema result" where
  "find_schema schema_id user_id rows =
     bindR (one_or_none (select (\<lambda>s. cs_id s = schema_id \<and> cs_user_id s = user_id) rows)) (\<lambda>s.
       case s of None \<Rightarrow> raise (NotFoundError ''Compilation schema not found'') | Some x \<Rightarrow> ok x)"

definition get_schema :: "env \<Rightarrow> string \<Rightarrow> string \<Rightarrow> schema_response act" where
  "get_schema env schema_id user_id =
     bindS (getS w_schemas) (\<lambda>rows. bindS (liftS (find_schema schema_id user_id rows)) (\<lambda>s. liftS (to_response env s)))"

definition set_if :: "'a option \<Rightarrow> 'a \<Rightarrow> 'a" where
  "set_if v old = (case v of Some x \<Rightarrow> x | None \<Rightarrow> old)"

definition apply_updates :: "env \<Rightarrow> schema_fields \<Rightarrow> compilation_schema \<Rightarrow> compilation_schema" where
  "apply_updates env f s =
     s\<lparr>cs_name := set_if (sf_name f) (cs_name s),
       cs_description := set_if (map_option Some (sf_description f)) (cs_description s),
       cs_is_active := set_if (sf_is_active f) (cs_is_active s),
       cs_article_max_length := set_if (map_option Some (sf_article_max_length f)) (cs_article_max_length s),
       cs_style := set_if (map_option Some (sf_style f)) (cs_style s),
       cs_focus := set_if (map_option Some (sf_focus f)) (cs_focus s),
       cs_concept_max_depth := set_if (map_option Some (sf_concept_max_depth f)) (cs_concept_max_depth s),
       cs_concept_naming := set_if (map_option Some (sf_concept_naming f)) (cs_concept_naming s),
       cs_custom_directives := set_if (map_option Some (sf_custom_directives f)) (cs_custom_directives s),
       cs_required_sections := set_if (map_option (Some \<circ> dump_strings env) (sf_required_sections f)) (cs_required_sections s),
       cs_extraction_always_note := set_if (map_option (Some \<circ> dump_strings env) (sf_extraction_always_note f)) (cs_extraction_always_note s),
       cs_extraction_ignore := set_if (map_option (Some \<circ> dump_strings env) (sf_extraction_ignore f)) (cs_extraction_ignore s),
       cs_updated_at := en_now env\<rparr>"

definition update_schema :: "env \<Rightarrow> string \<Rightarrow> string \<Rightarrow> schema_fields \<Rightarrow> schema_response act" where
  "update_schema env schema_id user_id f =
     bindS (getS w_schemas) (\<lambda>rows.
     bindS (liftS (find_schema schema_id user_id rows)) (\<lambda>s.
     bindS (if sf_is_active f = Some True then put_schemas (deactivate_all user_id) else returnS ()) (\<lambda>_.
     bindS (put_schemas (update_where (\<lambda>x. cs_id x = cs_id s) (apply_updates env f))) (\<lambda>_.
     bindS flushS (\<lambda>_.
     bindS (getS w_schemas) (\<lambda>rows'.
     bindS (liftS (find_schema schema_id user_id rows')) (\<lambda>s'. liftS (to_response env s'))))))))"

definition delete_schema :: "string \<Rightarrow> string \<Rightarrow> unit act" where
  "delete_schema schema_id user_id =
     bindS (getS w_schemas) (\<lambda>rows.
     bindS (liftS (find_schema schema_id user_id rows)) (\<lambda>s.
       put_schemas (delete_where (\<lambda>x. cs_id x = cs_id s))))"

definition get_active_schema :: "string \<Rightarrow> compilation_schema list \<Rightarrow> compilation_schema option result" where
  "get_active_schema user_id rows = one_or_none (select (\<lambda>s. cs_user_id s = user_id \<and> cs_is_active s) rows)"

section \<open>Requests one after another\<close>

datatype schema_request =
    Create string schema_fields
  | Update string string schema_fields
  | Remove string string

fun serve :: "env \<Rightarrow> schema_request \<Rightarrow> world \<Rightarrow> world" where
  "serve env (Create uid f) w = fst (in_request (create_schema env uid f) w)"
| "serve env (Update uid sid f) w = fst (in_request (update_schema env sid uid f) w)"
| "serve env (Remove uid sid) w = fst (in_request (delete_schema sid uid) w)"

definition one_active :: "world \<Rightarrow> bool" where
  "one_active w \<longleftrightarrow> (\<forall>uid. length (select (\<lambda>s. cs_user_id s = uid \<and> cs_is_active s) (w_schemas w)) \<le> 1)"

section \<open>At most one active schema\<close>

text \<open>Until the request commits, the committed schemas stay.\<close>

interpretation kept: effect_frame "\<lambda>s t. w_schemas (se_saved t) = w_schemas (se_saved s)"
  by unfold_locales simp_all

lemma kept_steps:
  "kept.keeps (getS g)" "kept.keeps (putS h)" "kept.keeps (freshS u)" "kept.keeps flushS"
  by (auto simp: kept.keeps_def getS_def putS_def checkedS_def readS_def modifyS_def freshS_def flushS_def)

lemmas kept_rules = kept.keeps_return kept.keeps_raise kept.keeps_lift kept.keeps_bind kept.keeps_if kept_steps

lemma kept_requests:
  "kept.keeps (create_schema env uid f)" "kept.keeps (update_schema env sid uid f)" "kept.keeps (delete_schema sid uid)"
  unfolding create_schema_def update_schema_def delete_schema_def put_schemas_def by (intro kept_rules)+

lemma request_schemas:
  assumes "kept.keeps m"
  shows "w_schemas (fst (in_request m w)) = w_schemas w \<or>
    (\<exists>t x. m (open_session w) = (t, ok x) \<and> constraints_ok (se_cur t) \<and> w_schemas (fst (in_request m w)) = w_schemas (se_cur t))"
proof -
  obtain t r where m: "m (open_session w) = (t, r)" by (rule prod.exhaust)
  have saved: "w_schemas (se_saved t) = w_schemas w" using kept.keepsD [OF assms m] by (simp add: open_session_def)
  show ?thesis
    using m saved by (cases r) (auto simp: in_request_def in_session_def bindS_def commitS_def split: prod.splits)
qed

definition single_active :: "compilation_schema list \<Rightarrow> bool" where
  "single_active rows \<longleftrightarrow> distinct (map cs_id rows) \<and>
     (\<forall>s\<in>set rows. \<forall>t\<in>set rows. cs_user_id s = cs_user_id t \<and> cs_is_active s \<and> cs_is_active t \<longrightarrow> s = t)"

lemma single_active_ok: "single_active rows \<Longrightarrow> \<exists>x. get_active_schema uid rows = ok x"
proof -
  assume single: "single_active rows"
  let ?sel = "select (\<lambda>s. cs_user_id s = uid \<and> cs_is_active s) rows"
  have "distinct rows" using single by (simp add: single_active_def distinct_map)
  then have "distinct ?sel" by (simp add: select_def)
  moreover have "s = t" if "s \<in> set ?sel" "t \<in> set ?sel" for s t
    using that single by (auto simp: single_active_def)
  ultimately have "length ?sel \<le> Suc 0"
    using card_le_Suc0_iff_eq [of "set ?sel"] by (metis List.finite_set distinct_card)
  then show ?thesis unfolding get_active_schema_def one_or_none_def by (cases ?sel; cases "tl ?sel") simp_all
qed

lemma deactivated: "s \<in> set (deactivate_all uid rows) \<Longrightarrow> cs_is_active s \<Longrightarrow> s \<in> set rows \<and> cs_user_id s \<noteq> uid"
  by (auto simp: deactivate_all_def update_where_def split: if_splits)

lemma ids_deactivate [simp]: "map cs_id (deactivate_all uid rows) = map cs_id rows"
  by (simp add: deactivate_all_def)

lemma single_deactivate: "single_active rows \<Longrightarrow> single_active (deactivate_all uid rows)"
  by (auto simp: single_active_def dest!: deactivated)

lemma single_append:
  assumes "single_active rows" and "distinct (map cs_id (rows @ [x]))"
    and "cs_is_active x \<Longrightarrow> \<forall>s\<in>set rows. cs_user_id s = cs_user_id x \<longrightarrow> \<not> cs_is_active s"
  shows "single_active (rows @ [x])"
  using assms unfolding single_active_def by auto

lemma single_update:
  assumes "single_active rows" and "x \<in> set rows" and "\<And>s. cs_id (f s) = cs_id s \<and> cs_user_id (f s) = cs_user_id s"
    and "cs_is_active (f x) \<Longrightarrow> cs_is_active x \<or> (\<forall>s\<in>set rows. cs_user_id s = cs_user_id x \<longrightarrow> \<not> cs_is_active s)"
  shows "single_active (update_where (\<lambda>s. cs_id s = cs_id x) f rows)"
proof -
  have only: "s = x" if "s \<in> set rows" "cs_id s = cs_id x" for s
    using that assms(1,2) by (auto simp: single_active_def distinct_map dest: inj_onD)
  have row: "t = f x \<or> (t \<in> set rows \<and> t \<noteq> x)" if "t \<in> set (update_where (\<lambda>s. cs_id s = cs_id x) f rows)" for t
  proof -
    obtain y where y: "y \<in> set rows" "t = (if cs_id y = cs_id x then f y else y)"
      using \<open>t \<in> _\<close> by (auto simp: set_update_where)
    show ?thesis
    proof (cases "cs_id y = cs_id x")
      case True
      with only y(1) have "y = x" by blast
      with y(2) show ?thesis by simp
    next
      case False
      with y show ?thesis by auto
    qed
  qed
  have "s = t" if s: "s \<in> set (update_where (\<lambda>s. cs_id s = cs_id x) f rows)" and t: "t \<in> set (update_where (\<lambda>s. cs_id s = cs_id x) f rows)"
    and act: "cs_user_id s = cs_user_id t" "cs_is_active s" "cs_is_active t" for s t
    using row [OF s] row [OF t] act assms unfolding single_active_def by metis
  with assms(1,3) show ?thesis by (simp add: single_active_def)
qed

lemma single_delete: "single_active rows \<Longrightarrow> single_active (delete_where p rows)"
  by (auto simp: single_active_def delete_where_def distinct_map_filter)

lemma flushS_ok: "flushS s = (t, ok x) \<longleftrightarrow> \<not> se_broken s \<and> constraints_ok (se_cur s) \<and> t = s"
  by (auto simp: flushS_def)

lemma find_schema_ok: "find_schema sid uid rows = ok s \<Longrightarrow> s \<in> set rows \<and> cs_user_id s = uid \<and> cs_id s = sid"
proof -
  assume "find_schema sid uid rows = ok s"
  then have "select (\<lambda>s. cs_id s = sid \<and> cs_user_id s = uid) rows = [s]"
    by (auto simp: find_schema_def bindR_eq_Inr query_simps split: option.splits)
  then have "s \<in> set (select (\<lambda>s. cs_id s = sid \<and> cs_user_id s = uid) rows)" by simp
  then show ?thesis by simp
qed

lemma create_single:
  assumes "create_schema env uid f s = (t, ok r)" and "single_active (w_schemas (se_cur s))" and "constraints_ok (se_cur t)"
  shows "single_active (w_schemas (se_cur t))"
proof -
  let ?old = "w_schemas (se_cur s)"
  let ?rows = "if sf_is_active f = Some True then deactivate_all uid ?old else ?old"
  obtain sid where t: "w_schemas (se_cur t) = ?rows @ [new_schema env sid uid f]"
    using assms(1) by (auto simp: create_schema_def put_schemas_def act_ok flushS_ok split: if_splits)
  have "single_active ?rows" using assms(2) single_deactivate by simp
  moreover have "distinct (map cs_id (?rows @ [new_schema env sid uid f]))"
    using assms(3) unfolding t [symmetric] by (simp add: constraints_ok_def unique_ok_def)
  moreover have "cs_is_active (new_schema env sid uid f) \<Longrightarrow> \<forall>s\<in>set ?rows. cs_user_id s = cs_user_id (new_schema env sid uid f) \<longrightarrow> \<not> cs_is_active s"
    by (auto simp: new_schema_def dest: deactivated)
  ultimately show ?thesis unfolding t by (rule single_append)
qed

lemma update_single:
  assumes "update_schema env sid uid f s = (t, ok r)" and "single_active (w_schemas (se_cur s))"
  shows "single_active (w_schemas (se_cur t))"
proof -
  let ?old = "w_schemas (se_cur s)"
  let ?rows = "if sf_is_active f = Some True then deactivate_all uid ?old else ?old"
  obtain x where x: "find_schema sid uid ?old = ok x"
    and t: "w_schemas (se_cur t) = update_where (\<lambda>y. cs_id y = cs_id x) (apply_updates env f) ?rows"
    using assms(1) by (auto simp: update_schema_def put_schemas_def act_ok flushS_ok split: if_splits)
  note x' = find_schema_ok [OF x]
  let ?x = "if sf_is_active f = Some True \<and> cs_is_active x then x\<lparr>cs_is_active := False\<rparr> else x"
  have rows: "single_active ?rows" using assms(2) single_deactivate by simp
  have in_rows: "?x \<in> set ?rows" using x' by (auto simp: deactivate_all_def update_where_def image_iff)
  have "single_active (update_where (\<lambda>y. cs_id y = cs_id ?x) (apply_updates env f) ?rows)"
  proof (rule single_update [OF rows in_rows])
    show "cs_id (apply_updates env f y) = cs_id y \<and> cs_user_id (apply_updates env f y) = cs_user_id y" for y
      by (simp add: apply_updates_def)
    show "cs_is_active (apply_updates env f ?x) \<Longrightarrow> cs_is_active ?x \<or> (\<forall>s\<in>set ?rows. cs_user_id s = cs_user_id ?x \<longrightarrow> \<not> cs_is_active s)"
      using x' by (auto simp: apply_updates_def set_if_def split: option.splits if_splits dest: deactivated)
  qed
  moreover have "cs_id ?x = cs_id x" by simp
  ultimately show ?thesis by (simp only: t)
qed

text \<open>
  C30. However users create, update and delete their compilation schemas, one request after the other and whether the
  requests succeed or fail, every user has at most one active schema, so that the compiler always finds the active
  schema or none, and never the error of several rows.
\<close>

theorem active_schema_unique:
  assumes "w_schemas w = []"
  shows "\<exists>x. get_active_schema uid (w_schemas (foldl (\<lambda>v r. serve env r v) w reqs)) = ok x"
proof -
  have step: "single_active (w_schemas (serve env req v))" if "single_active (w_schemas v)" for req v
  proof (cases req)
    case (Create u f)
    from request_schemas [OF kept_requests(1), of env u f v] that show ?thesis
      by (auto simp: Create open_session_def dest!: create_single)
  next
    case (Update u sid f)
    from request_schemas [OF kept_requests(2), of env sid u f v] that show ?thesis
      by (auto simp: Update open_session_def dest!: update_single)
  next
    case (Remove u sid)
    from request_schemas [OF kept_requests(3), of sid u v] that show ?thesis
      by (auto simp: Remove open_session_def delete_schema_def put_schemas_def act_ok single_delete)
  qed
  have "single_active (w_schemas (foldl (\<lambda>v r. serve env r v) w reqs))" if "single_active (w_schemas w)" for w
    using that by (induction reqs arbitrary: w) (simp_all add: step)
  moreover have "single_active (w_schemas w)" by (simp add: assms single_active_def)
  ultimately show ?thesis by (intro single_active_ok) blast
qed

text \<open>The JSON columns hold lists that are read back as they were given, as long as \<open>loads\<close> inverts \<open>dumps\<close>.\<close>

lemma parse_items_strs: "parse_items (parse_str n) (map JStr xs) = ok xs"
  by (induction xs) simp_all

lemma loads_dumped:
  assumes "\<And>xs. en_loads env (dump_strings env xs) = ok (JList (map JStr xs))" and "\<And>xs. dump_strings env xs \<noteq> []"
  shows "json_loads_or_none env (dumped_list env v) = ok (case v of Some [] \<Rightarrow> None | _ \<Rightarrow> v)"
  using assms by (cases v rule: option.exhaust; cases "the v")
    (auto simp: json_loads_or_none_def dumped_list_def parse_strs_def parse_items_strs split: list.splits)

text \<open>
  A schema that has just been created is read back with every field as it was given, an empty list as no list, when
  \<open>json.loads\<close> inverts \<open>json.dumps\<close>.
\<close>

lemma create_schema_roundtrip:
  assumes "create_schema env uid f s = (t, ok r)"
    and "\<And>xs. en_loads env (dump_strings env xs) = ok (JList (map JStr xs))" and "\<And>xs. dump_strings env xs \<noteq> []"
  shows "snd (get_schema env (sr_id r) uid t) = ok r \<and> Some (sr_name r) = (case sf_name f of Some n \<Rightarrow> Some n | None \<Rightarrow> Some []) \<and>
    sr_required_sections r = (case sf_required_sections f of Some [] \<Rightarrow> None | v \<Rightarrow> v) \<and>
    sr_extraction_always_note r = (case sf_extraction_always_note f of Some [] \<Rightarrow> None | v \<Rightarrow> v) \<and>
    sr_extraction_ignore r = (case sf_extraction_ignore f of Some [] \<Rightarrow> None | v \<Rightarrow> v) \<and>
    sr_style r = sf_style f \<and> sr_focus r = sf_focus f \<and> sr_article_max_length r = sf_article_max_length f \<and>
    sr_concept_max_depth r = sf_concept_max_depth f \<and> sr_custom_directives r = sf_custom_directives f"
proof -
  let ?old = "w_schemas (se_cur s)"
  obtain sid where t: "w_schemas (se_cur t) = (if sf_is_active f = Some True then deactivate_all uid ?old else ?old) @ [new_schema env sid uid f]"
    and ok: "constraints_ok (se_cur t)" "\<not> se_broken t" and r: "to_response env (new_schema env sid uid f) = ok r"
    using assms(1) by (auto simp: create_schema_def put_schemas_def act_ok flushS_ok split: if_splits)
  have "distinct (map cs_id (w_schemas (se_cur t)))" using ok(1) by (simp add: constraints_ok_def unique_ok_def)
  then have "select (\<lambda>x. cs_id x = cs_id (new_schema env sid uid f)) (w_schemas (se_cur t)) = [new_schema env sid uid f]"
    by (rule select_distinct_key) (simp add: t)
  then have "select (\<lambda>x. cs_id x = sid \<and> cs_user_id x = uid) (w_schemas (se_cur t)) = [new_schema env sid uid f]"
    unfolding select_def by (simp add: filter_filter [symmetric] new_schema_def)
  then have "find_schema sid uid (w_schemas (se_cur t)) = ok (new_schema env sid uid f)"
    by (simp add: find_schema_def one_or_none_def)
  moreover have "sr_id r = sid" using r by (auto simp: to_response_def bindR_eq_Inr new_schema_def)
  ultimately have "snd (get_schema env (sr_id r) uid t) = ok r"
    using r ok(2) by (simp add: get_schema_def bindS_def getS_def checkedS_def readS_def)
  moreover have "json_loads_or_none env (cs_required_sections (new_schema env sid uid f)) = ok (case sf_required_sections f of Some [] \<Rightarrow> None | v \<Rightarrow> v)"
    "json_loads_or_none env (cs_extraction_always_note (new_schema env sid uid f)) = ok (case sf_extraction_always_note f of Some [] \<Rightarrow> None | v \<Rightarrow> v)"
    "json_loads_or_none env (cs_extraction_ignore (new_schema env sid uid f)) = ok (case sf_extraction_ignore f of Some [] \<Rightarrow> None | v \<Rightarrow> v)"
    using loads_dumped [OF assms(2,3)] by (simp_all add: new_schema_def split: option.splits list.splits)
  ultimately show ?thesis using r by (auto simp: to_response_def new_schema_def split: option.splits)
qed

text \<open>A toy encoding of lists of strings, every character behind a plus sign and every string ended by a semicolon.\<close>

definition ex_dump :: "json \<Rightarrow> string" where
  "ex_dump j = (case j of
       JList js \<Rightarrow> ''['' @ concat (map (\<lambda>x. case x of JStr s \<Rightarrow> concat (map (\<lambda>c. [CHR ''+'', c]) s) @ '';'' | _ \<Rightarrow> []) js)
     | _ \<Rightarrow> ''null'')"

fun ex_undump :: "string \<Rightarrow> string \<Rightarrow> string list" where
  "ex_undump w (p # c # r) = (if p = CHR '';'' then w # ex_undump [] (c # r) else ex_undump (w @ [c]) r)"
| "ex_undump w [p] = (if p = CHR '';'' then [w] else [])"
| "ex_undump w [] = []"

lemma ex_undump_end [simp]: "ex_undump w (CHR '';'' # r) = w # ex_undump [] r"
  by (cases r) simp_all

lemma ex_undump_word [simp]: "ex_undump w (concat (map (\<lambda>c. [CHR ''+'', c]) s) @ r) = ex_undump (w @ s) r"
  by (induction s arbitrary: w) simp_all

definition ex_codec :: env where
  "ex_codec = ex_env0\<lparr>en_dumps := ex_dump, en_loads := (\<lambda>s. ok (JList (map JStr (ex_undump [] (tl s)))))\<rparr>"

lemma ex_codec_inverts: "en_loads ex_codec (dump_strings ex_codec xs) = ok (JList (map JStr xs))"
proof -
  have "ex_undump [] (concat (map ((\<lambda>x. case x of JStr s \<Rightarrow> concat (map (\<lambda>c. [CHR ''+'', c]) s) @ '';'' | _ \<Rightarrow> []) \<circ> JStr) xs)) = xs"
    by (induction xs) simp_all
  then show ?thesis by (simp add: ex_codec_def dump_strings_def ex_dump_def)
qed

lemma ex_codec_nonempty: "dump_strings ex_codec xs \<noteq> []"
  by (simp add: ex_codec_def dump_strings_def ex_dump_def)

definition ex_fields :: schema_fields where
  "ex_fields = \<lparr>sf_name = Some ''Papers'', sf_description = None, sf_is_active = Some True, sf_article_max_length = Some 800,
     sf_required_sections = Some [''Methods'', ''Results''], sf_style = Some ''terse'', sf_focus = None,
     sf_concept_max_depth = None, sf_concept_naming = None, sf_extraction_always_note = Some [], sf_extraction_ignore = None,
     sf_custom_directives = None\<rparr>"

lemma active_schema_unique_witness:
  "w_schemas (ex_world0 False ''y'') = [] \<and>
   (\<exists>x. get_active_schema ''u1'' (w_schemas (foldl (\<lambda>v r. serve ex_codec r v) (ex_world0 False ''y'')
      [Create ''u1'' ex_fields, Create ''u1'' ex_fields])) = ok x)"
proof -
  have empty: "w_schemas (ex_world0 False ''y'') = []" by (simp add: ex_world0_def)
  from empty active_schema_unique [OF empty] show ?thesis by blast
qed

definition ex_created :: "sess \<times> schema_response result" where
  "ex_created = create_schema ex_codec ''u1'' ex_fields (open_session (ex_world0 False ''y''))"

lemma ex_created_ok:
  "case snd ex_created of Inl e \<Rightarrow> False | Inr r \<Rightarrow> sr_required_sections r = Some [''Methods'', ''Results'']"
  unfolding ex_created_def by code_simp

lemma create_schema_roundtrip_witness:
  "\<exists>r. snd ex_created = ok r \<and> sr_required_sections r = Some [''Methods'', ''Results''] \<and>
     snd (get_schema ex_codec (sr_id r) ''u1'' (fst ex_created)) = ok r"
proof -
  obtain r where r: "snd ex_created = ok r" "sr_required_sections r = Some [''Methods'', ''Results'']" using ex_created_ok by (cases "snd ex_created") simp_all
  then have "create_schema ex_codec ''u1'' ex_fields (open_session (ex_world0 False ''y'')) = (fst ex_created, ok r)"
    by (simp add: ex_created_def prod_eq_iff)
  from create_schema_roundtrip [OF this ex_codec_inverts ex_codec_nonempty] r show ?thesis by blast
qed

end
