(* ===== verification/WikiIndex.thy ===== *)
theory WikiIndex
  imports World Taxonomy "HOL-Library.List_Lexorder" "HOL-Library.Char_ord"
begin

text \<open>
  The files the program derives from the database, \<^verbatim>\<open>src/src/wikimind/services/wiki_index.py\<close>: the catalogue
  \<^verbatim>\<open>index.md\<close> of a user grouped by concept, and the page of health statistics; and the activity log
  \<^verbatim>\<open>log.md\<close> of \<^verbatim>\<open>services/activity_log.py\<close>. The dash and the ellipsis of the text, which are outside the
  characters of the model, come with the environment. The user id of the log is one component of a path, or refused.
\<close>

section \<open>Entries\<close>

definition first_sentence :: "string \<Rightarrow> string \<Rightarrow> string" where
  "first_sentence ellipsis text0 =
     (let sentence = (case find_sub ''. '' text0 of Some dot_pos \<Rightarrow> take (dot_pos + 1) text0 | None \<Rightarrow> text0)
      in if length sentence > 120 then take 119 sentence @ ellipsis else sentence)"

fun page_type_label :: "page_type \<Rightarrow> string" where
  "page_type_label SOURCE = ''Source''"
| "page_type_label CONCEPT = ''Concept''"
| "page_type_label ANSWER = ''Answer''"
| "page_type_label INDEX = ''Index''"
| "page_type_label META = ''Meta''"
| "page_type_label SYNTHESIS = ''synthesis''"

definition article_entry :: "env \<Rightarrow> article \<Rightarrow> string" where
  "article_entry env a =
     (let summary_part = (case art_summary a of
            Some s \<Rightarrow> if s = [] then [] else '' '' @ en_dash env @ '' '' @ first_sentence (en_ellipsis env) s
          | None \<Rightarrow> []);
          type_badge = (if art_page_type a \<noteq> SOURCE then '' `['' @ page_type_label (art_page_type a) @ '']`'' else [])
      in ''- [['' @ art_slug a @ '']]'' @ type_badge @ summary_part @ [CHR 0x0A])"

section \<open>Groups\<close>

definition concept_label :: "db \<Rightarrow> string \<Rightarrow> string" where
  "concept_label d raw_id = (case get_by con_id raw_id (concepts d) of Some c \<Rightarrow> con_name c | None \<Rightarrow> raw_id)"

definition labels_of :: "env \<Rightarrow> db \<Rightarrow> article \<Rightarrow> string list" where
  "labels_of env d a =
     (let rows = map ac_concept_name (select (\<lambda>ac. ac_article_id ac = art_id a) (article_concepts d));
          raw_ids = (if rows = [] then parse_concept_ids (en_loads env) (art_concept_ids a) else rows)
      in map (concept_label d) raw_ids)"

definition group_add :: "article \<Rightarrow> (string \<times> article list) list \<Rightarrow> string \<Rightarrow> (string \<times> article list) list" where
  "group_add a groups name =
     dict_set name ((case map_of groups name of Some as \<Rightarrow> as | None \<Rightarrow> []) @ [a]) groups"

definition group_step ::
  "env \<Rightarrow> db \<Rightarrow> (string \<times> article list) list \<times> article list \<Rightarrow> article \<Rightarrow> (string \<times> article list) list \<times> article list" where
  "group_step env d st a =
     (let (groups, uncategorized) = st; names = labels_of env d a
      in if names = [] then (groups, uncategorized @ [a])
         else (foldl (group_add a) groups names, uncategorized))"

definition group_articles_by_concept :: "env \<Rightarrow> article list \<Rightarrow> db \<Rightarrow> (string \<times> article list) list \<times> article list" where
  "group_articles_by_concept env arts d = foldl (group_step env d) ([], []) arts"

section \<open>The catalogue\<close>

definition counted_types :: "page_type list" where
  "counted_types = [SOURCE, CONCEPT, ANSWER, INDEX, META]"

definition count_type :: "article list \<Rightarrow> page_type \<Rightarrow> nat" where
  "count_type arts pt = length (filter (\<lambda>a. art_page_type a = pt) arts)"

definition section_lines :: "env \<Rightarrow> string \<Rightarrow> article list \<Rightarrow> string list" where
  "section_lines env title arts =
     [''## '' @ title @ [CHR 0x0A, CHR 0x0A]] @ map (article_entry env) (sort_key art_slug arts) @ [[CHR 0x0A]]"

definition build_index_lines :: "env \<Rightarrow> article list \<Rightarrow> (string \<times> article list) list \<Rightarrow> article list \<Rightarrow> string list" where
  "build_index_lines env arts groups uncategorized =
     (let nl = [CHR 0x0A];
          frontmatter = ''---'' @ nl @ ''page_type: index'' @ nl @ ''title: Wiki Index'' @ nl @ ''slug: index'' @ nl
            @ ''scope: global'' @ nl @ ''generated: '' @ en_iso env (en_now env) @ nl @ ''---'' @ nl @ nl;
          counts = (if arts = [] then []
            else [''**'' @ show_nat (length arts) @ '' articles** '' @ en_dash env @ '' '',
                  py_join '', '' (map (\<lambda>pt. show_nat (count_type arts pt) @ '' '' @ py_lower (page_type_label pt))
                    (filter (\<lambda>pt. count_type arts pt > 0) counted_types)) @ nl @ nl]);
          pages = filter (\<lambda>a. art_page_type a = CONCEPT) arts
      in [frontmatter, ''# Wiki Index'' @ nl @ nl] @ counts
         @ (if pages = [] then [] else section_lines env ''Concept Pages'' pages)
         @ concat (map (\<lambda>name. section_lines env name (case map_of groups name of Some as \<Rightarrow> as | None \<Rightarrow> [])) (sort (map fst groups)))
         @ (if uncategorized = [] then [] else section_lines env ''Uncategorized'' uncategorized))"

definition regenerate_index_md :: "env \<Rightarrow> string \<Rightarrow> db \<Rightarrow> db result" where
  "regenerate_index_md env user_id d =
     (let arts = select (\<lambda>a. art_user_id a = user_id) (articles d);
          (groups, uncategorized) = group_articles_by_concept env arts d
      in wiki_write (en_data_dir env) user_id ''index.md'' (concat (build_index_lines env arts groups uncategorized)) d)"

section \<open>The health page\<close>

definition health_backlinks :: "string \<Rightarrow> db \<Rightarrow> backlink list" where
  "health_backlinks user_id d =
     (let ids = map art_id (select (\<lambda>a. art_user_id a = user_id) (articles d))
      in select (\<lambda>b. bl_source_article_id b \<in> set ids \<and> bl_target_article_id b \<in> set ids) (backlinks d))"

definition orphan_count :: "article list \<Rightarrow> backlink list \<Rightarrow> nat" where
  "orphan_count arts bls =
     (let linked = concat (map (\<lambda>b. [bl_source_article_id b, bl_target_article_id b]) bls)
      in length (filter (\<lambda>a. art_id a \<notin> set linked) arts))"

definition table_row :: "string \<Rightarrow> nat \<Rightarrow> string" where
  "table_row label n = ''| '' @ label @ '' | '' @ show_nat n @ '' |'' @ [CHR 0x0A]"

definition link_rows :: "backlink list \<Rightarrow> (string \<times> nat) list" where
  "link_rows bls =
     (let names = map (relation_type_value \<circ> bl_relation_type) bls
      in map (\<lambda>rt. (rt, count_list names rt)) (sort (nub names)))"

definition health_lines :: "env \<Rightarrow> string \<Rightarrow> article list \<Rightarrow> backlink list \<Rightarrow> string list" where
  "health_lines env stamp arts bls =
     (let nl = [CHR 0x0A];
          total = sum_list (map (count_type arts) counted_types);
          link_total = sum_list (map snd (link_rows bls))
      in [''---'' @ nl @ ''page_type: meta'' @ nl @ ''title: Wiki Health'' @ nl @ ''slug: wiki-health'' @ nl
            @ ''generated: '' @ en_iso env (en_now env) @ nl @ ''---'' @ nl @ nl,
          ''# Wiki Health'' @ nl @ nl, ''Generated: '' @ stamp @ nl @ nl,
          ''## Articles by Type'' @ nl @ nl, ''| Type | Count |'' @ nl, ''|------|-------|'' @ nl]
         @ map (\<lambda>pt. table_row (page_type_label pt) (count_type arts pt)) counted_types
         @ [table_row ''**Total**'' total, nl]
         @ [''## Links by Relation Type'' @ nl @ nl, ''| Relation | Count |'' @ nl, ''|----------|-------|'' @ nl]
         @ map (\<lambda>(rt, n). table_row rt n) (link_rows bls)
         @ [if link_total > 0 then table_row ''**Total**'' link_total else ''| (none) | 0 |'' @ nl, nl]
         @ [''## Orphan Articles'' @ nl @ nl,
            ''**'' @ show_nat (orphan_count arts bls) @ ''** articles with no inbound or outbound links.'' @ nl])"

definition generate_meta_health_page :: "env \<Rightarrow> string \<Rightarrow> string \<Rightarrow> db \<Rightarrow> db result" where
  "generate_meta_health_page env stamp user_id d =
     wiki_write (en_data_dir env) user_id ''meta/wiki-health.md''
       (concat (health_lines env stamp (select (\<lambda>a. art_user_id a = user_id) (articles d)) (health_backlinks user_id d))) d"

section \<open>The activity log\<close>

definition append_log_entry :: "env \<Rightarrow> string \<Rightarrow> string \<Rightarrow> string \<Rightarrow> (string \<times> string) list \<Rightarrow> db \<Rightarrow> db result" where
  "append_log_entry env operation title user_id extra d =
     (if CHR ''/'' \<in> set user_id \<or> user_id = ''..'' then raise (ValueError ''Path traversal blocked'')
      else
        (let nl = [CHR 0x0A];
             old = (case wiki_files d (user_id, ''log.md'') of Some c \<Rightarrow> c | None \<Rightarrow> []);
             header = (if old = [] then ''# Activity Log'' @ nl @ nl else []);
             entry = ''## ['' @ en_day env (en_now env) @ ''] '' @ operation @ '' | '' @ title @ nl
               @ concat (map (\<lambda>(k, v). ''- '' @ k @ '': '' @ v @ nl) extra) @ nl
         in ok (d\<lparr>wiki_files := (wiki_files d)((user_id, ''log.md'') \<mapsto> old @ header @ entry)\<rparr>)))"

end
