(* ===== verification/ConceptCompiler.thy ===== *)
theory ConceptCompiler
  imports Prompts WikiIndex Samples
begin

text \<open>
  The helpers shared by the compilers, \<^verbatim>\<open>src/src/wikimind/engine/base_compiler.py\<close>, and the compiler of
  concept pages, \<^verbatim>\<open>engine/concept_compiler.py\<close> with the trigger of \<^verbatim>\<open>services/taxonomy.py\<close>: the
  source articles tagged with a concept, the prompt, the answer, the page with its file, index entry, join rows and
  links, and the test whether the sources of a page have changed since it was compiled. An article is identified by
  its id; the attributes the code sets on a row object are updates of that row.
\<close>

section \<open>Shared by the compilers\<close>

definition compile_request :: "env \<Rightarrow> string \<Rightarrow> string \<Rightarrow> int \<Rightarrow> rat \<Rightarrow> task_type \<Rightarrow> completion_request" where
  "compile_request env system user_content max_tokens temperature task =
     \<lparr>rq_system = system, rq_messages = [(''user'', user_content)], rq_max_tokens = max_tokens,
      rq_temperature = temperature, rq_response_format = ''json'', rq_task_type = task, rq_preferred_provider = None,
      rq_reasoning_effort = None, rq_model_override = None, rq_disable_fallback = False\<rparr>"

fun is_parse_error :: "exc \<Rightarrow> bool" where
  "is_parse_error (ValueError _) = True"
| "is_parse_error (KeyError _) = True"
| "is_parse_error (TypeError _) = True"
| "is_parse_error _ = False"

text \<open>\<open>try: \<dots> except (\<dots>): return None\<close>.\<close>

definition none_on :: "(exc \<Rightarrow> bool) \<Rightarrow> 'a result \<Rightarrow> 'a option result" where
  "none_on p r = (case r of Inr x \<Rightarrow> ok (Some x) | Inl e \<Rightarrow> if p e then ok None else raise e)"

definition noneS :: "(exc \<Rightarrow> bool) \<Rightarrow> 'a act \<Rightarrow> 'a option act" where
  "noneS p m = tryS (bindS m (\<lambda>x. returnS (Some x))) (\<lambda>e. if p e then returnS None else raiseS e)"

fun is_call_error :: "exc \<Rightarrow> bool" where
  "is_call_error (RuntimeError _) = True"
| "is_call_error (ValueError _) = True"
| "is_call_error _ = False"

definition call_llm :: "env \<Rightarrow> string \<Rightarrow> string \<Rightarrow> rat \<Rightarrow> string \<Rightarrow> completion_response option act" where
  "call_llm env system user_content temperature user_id =
     noneS is_call_error (llmS env True (compile_request env system user_content (en_max_tokens env) temperature T_COMPILE) user_id)"

definition parse_response :: "env \<Rightarrow> completion_response \<Rightarrow> json option result" where
  "parse_response env response = none_on is_parse_error (parse_json_response (en_loads env) (rs_content response))"

text \<open>What the search index stores for an article: its title and the text of its file.\<close>

definition file_or_empty :: "env \<Rightarrow> string \<Rightarrow> string \<Rightarrow> string act" where
  "file_or_empty env user_id file_path =
     tryS (read_fileS (wiki_read (en_data_dir env) user_id file_path))
       (\<lambda>e. case e of OSError _ \<Rightarrow> returnS [] | _ \<Rightarrow> raiseS e)"

definition index_rows :: "env \<Rightarrow> string \<Rightarrow> string \<Rightarrow> string \<Rightarrow> unit act" where
  "index_rows env article_id title content =
     bindS (getS (\<lambda>w. index_article (en_md5 env) (w_postgres w) article_id title content (w_fts w))) (\<lambda>r.
     bindS (liftS r) (\<lambda>fts. putS (\<lambda>w. w\<lparr>w_fts := fts\<rparr>)))"

definition index_article_file :: "env \<Rightarrow> string \<Rightarrow> string \<Rightarrow> string \<Rightarrow> string \<Rightarrow> unit act" where
  "index_article_file env user_id article_id title file_path =
     bindS (file_or_empty env user_id file_path) (\<lambda>content.
     bindS (index_rows env article_id title content) (\<lambda>_. commitS))"

definition new_backlink :: "string \<Rightarrow> string \<Rightarrow> string \<Rightarrow> string \<Rightarrow> relation_type \<Rightarrow> backlink" where
  "new_backlink src tgt uid context rel =
     \<lparr>bl_source_article_id = src, bl_target_article_id = tgt, bl_user_id = uid, bl_context = Some context,
      bl_relation_type = rel, bl_resolution = None, bl_resolution_note = None, bl_resolved_at = None, bl_resolved_by = None\<rparr>"

text \<open>\<^verbatim>\<open>INSERT \<dots> ON CONFLICT DO NOTHING\<close>.\<close>

definition insert_backlink :: "backlink list \<Rightarrow> backlink \<Rightarrow> backlink list" where
  "insert_backlink bls b =
     (if list_ex (\<lambda>x. bl_source_article_id x = bl_source_article_id b \<and> bl_target_article_id x = bl_target_article_id b) bls
      then bls else bls @ [b])"

definition put_backlinks :: "backlink list \<Rightarrow> unit act" where
  "put_backlinks bs = putS (on_db (\<lambda>d. d\<lparr>backlinks := foldl insert_backlink (backlinks d) bs\<rparr>))"

definition create_synthesizes_links :: "string \<Rightarrow> string list \<Rightarrow> string \<Rightarrow> string \<Rightarrow> unit act" where
  "create_synthesizes_links source_article_id target_article_ids user_id context =
     bindS (put_backlinks (map (\<lambda>t. new_backlink source_article_id t user_id context SYNTHESIZES) target_article_ids)) (\<lambda>_. commitS)"

section \<open>Source material\<close>

definition collect_source_articles :: "env \<Rightarrow> string \<Rightarrow> string \<Rightarrow> db \<Rightarrow> article list" where
  "collect_source_articles env concept_name user_id d =
     (let normalized = en_slugify env concept_name None
      in select (\<lambda>a. list_ex (\<lambda>ac. ac_article_id ac = art_id a \<and> ac_concept_name ac = normalized) (article_concepts d)
                    \<and> art_page_type a = SOURCE \<and> (user_id = [] \<or> art_user_id a = user_id)) (articles d))"

definition material_section :: "env \<Rightarrow> string \<Rightarrow> db \<Rightarrow> nat \<times> article \<Rightarrow> string result" where
  "material_section env user_id d ia =
     (let nl = [CHR 0x0A]; (i, a) = ia;
          head = ''### Source '' @ show_nat i @ '': '' @ art_title a @ nl
            @ (case art_summary a of Some s \<Rightarrow> if s = [] then [] else ''Summary: '' @ s @ nl | None \<Rightarrow> [])
      in case wiki_read (en_data_dir env) user_id (art_file_path a) d of
           Inr fc \<Rightarrow>
             (let text0 = (if length fc > en_concept_source_max_chars env
                 then take (en_concept_source_max_chars env) fc @ nl @ ''[...truncated...]'' else fc)
              in ok (head @ nl @ ''Content:'' @ nl @ text0 @ nl))
         | Inl (OSError _) \<Rightarrow> ok head
         | Inl (ValueError _) \<Rightarrow> ok head
         | Inl e \<Rightarrow> raise e)"

fun material_sections :: "env \<Rightarrow> string \<Rightarrow> db \<Rightarrow> nat \<Rightarrow> article list \<Rightarrow> string list result" where
  "material_sections env user_id d i [] = ok []"
| "material_sections env user_id d i (a # as) =
     bindR (material_section env user_id d (i, a)) (\<lambda>s. bindR (material_sections env user_id d (i + 1) as) (\<lambda>ss. ok (s # ss)))"

definition build_source_material :: "env \<Rightarrow> article list \<Rightarrow> string \<Rightarrow> db \<Rightarrow> string result" where
  "build_source_material env arts user_id d =
     bindR (material_sections env user_id d 1 arts) (\<lambda>parts. ok (py_join ([CHR 0x0A] @ ''---'' @ [CHR 0x0A]) parts))"

definition contradiction_line :: "backlink \<Rightarrow> string" where
  "contradiction_line b =
     ''- Article '' @ bl_source_article_id b @ '' vs '' @ bl_target_article_id b
     @ (case bl_context b of Some c \<Rightarrow> if c = [] then [] else '': '' @ c | None \<Rightarrow> [])
     @ (if nonempty_text (bl_resolution b)
        then '' [RESOLVED: '' @ the (bl_resolution b) @ '']''
          @ (if nonempty_text (bl_resolution_note b) then '' -- '' @ the (bl_resolution_note b) else [])
        else '' [UNRESOLVED]'')"

definition collect_contradictions :: "string list \<Rightarrow> db \<Rightarrow> string" where
  "collect_contradictions source_article_ids d =
     (if source_article_ids = [] then []
      else
        (let found = select (\<lambda>b. bl_relation_type b = CONTRADICTS \<and> bl_source_article_id b \<in> set source_article_ids
                                 \<and> bl_target_article_id b \<in> set source_article_ids) (backlinks d)
         in if found = [] then []
            else join_lines (''Known contradictions between sources:'' # map contradiction_line found)))"

section \<open>Saving a page\<close>

definition concept_slug :: "env \<Rightarrow> string \<Rightarrow> string" where
  "concept_slug env concept_name = en_slugify env concept_name None"

definition concept_path :: "env \<Rightarrow> string \<Rightarrow> string" where
  "concept_path env concept_name = concept_slug env concept_name @ ''/'' @ concept_slug env concept_name @ ''.md''"

definition concept_pages :: "string \<Rightarrow> string \<Rightarrow> db \<Rightarrow> article list" where
  "concept_pages slug user_id d =
     select (\<lambda>a. art_slug a = slug \<and> art_page_type a = CONCEPT \<and> art_user_id a = user_id) (articles d)"

definition find_existing_concept_article :: "env \<Rightarrow> string \<Rightarrow> string \<Rightarrow> db \<Rightarrow> article option result" where
  "find_existing_concept_article env concept_name user_id d =
     one_or_none (concept_pages (''concept-'' @ concept_slug env concept_name) user_id d)"

definition write_concept_file :: "env \<Rightarrow> concept_result \<Rightarrow> concept \<Rightarrow> article list \<Rightarrow> provider option \<Rightarrow> unit act" where
  "write_concept_file env r c source_articles p =
     (let nl = [CHR 0x0A]; slug = concept_slug env (con_name c);
          para = (\<lambda>title body. ''## '' @ title @ nl @ nl @ body @ nl);
          bullets = (\<lambda>xs. join_lines (map (\<lambda>x. ''- '' @ x) xs));
          content = ''---'' @ nl @ ''page_type: concept'' @ nl
            @ ''title: '' @ [CHR 0x22] @ kr_title r @ [CHR 0x22] @ nl @ ''slug: concept-'' @ slug @ nl
            @ ''concept_id: '' @ con_id c @ nl @ ''concept_kind: '' @ con_concept_kind c @ nl
            @ ''synthesized_from: '' @ dump_strings env (map art_id source_articles) @ nl
            @ ''source_count: '' @ show_nat (length source_articles) @ nl
            @ ''last_synthesized: '' @ en_iso env (en_now env) @ nl
            @ ''provider: '' @ (case p of Some q \<Rightarrow> provider_value q | None \<Rightarrow> ''unknown'') @ nl @ ''---'' @ nl @ nl
            @ para ''Overview'' (kr_overview r) @ nl
            @ para ''Key Themes'' (bullets (kr_key_themes r)) @ nl
            @ para ''Consensus & Conflicts'' (kr_consensus_conflicts r) @ nl
            @ para ''Open Questions'' (bullets (kr_open_questions r)) @ nl
            @ para ''Timeline'' (kr_timeline r) @ nl
            @ para ''Analysis'' (kr_article_body r) @ nl
            @ para ''Related Concepts'' (bullets (map (\<lambda>x. ''[['' @ x @ '']]'') (kr_related_concepts r))) @ nl
            @ para ''Sources'' (bullets (map (\<lambda>a. ''['' @ art_title a @ ''](/wiki/'' @ art_id a @ '')'') source_articles)) @ nl
            @ para ''Sources Summary'' (kr_sources_summary r)
      in fileS (wiki_write (en_data_dir env) (con_user_id c) (concept_path env (con_name c)) content))"

definition related_links :: "env \<Rightarrow> string \<Rightarrow> string \<Rightarrow> string \<Rightarrow> string \<Rightarrow> unit act" where
  "related_links env article_id title user_id related_name =
     (let normalized = en_slugify env related_name None
      in if normalized = [] then returnS ()
         else
           bindS (getS (\<lambda>w. one_or_none (concept_pages (''concept-'' @ normalized) user_id (w_db w)))) (\<lambda>r.
           bindS (liftS r) (\<lambda>target.
             case target of
               None \<Rightarrow> returnS ()
             | Some t \<Rightarrow>
                 (let context = ''Related: '' @ title @ '' <-> '' @ art_title t
                  in put_backlinks [new_backlink article_id (art_id t) user_id context RELATED_TO,
                                    new_backlink (art_id t) article_id user_id context RELATED_TO]))))"

definition create_related_to_links :: "env \<Rightarrow> string \<Rightarrow> string \<Rightarrow> string list \<Rightarrow> string \<Rightarrow> unit act" where
  "create_related_to_links env article_id title related_concepts user_id =
     (if related_concepts = [] then returnS ()
      else bindS (foldS (\<lambda>name _. related_links env article_id title user_id name) related_concepts ()) (\<lambda>_. commitS))"

definition apply_concept_fields :: "env \<Rightarrow> concept_result \<Rightarrow> concept \<Rightarrow> string list \<Rightarrow> provider option \<Rightarrow> article \<Rightarrow> article" where
  "apply_concept_fields env r c source_ids p a =
     a\<lparr>art_title := kr_title r, art_summary := Some (kr_overview r), art_file_path := concept_path env (con_name c),
       art_concept_ids := Some (dump_strings env [con_name c]), art_source_ids := Some (dump_strings env source_ids),
       art_provider := p, art_updated_at := en_now env, art_page_type := CONCEPT, art_user_id := con_user_id c\<rparr>"

definition clear_concept_page :: "string \<Rightarrow> db \<Rightarrow> db" where
  "clear_concept_page aid d =
     d\<lparr>backlinks := delete_where (\<lambda>b. bl_source_article_id b = aid \<and> bl_relation_type b = SYNTHESIZES) (backlinks d),
       article_concepts := delete_where (\<lambda>x. ac_article_id x = aid) (article_concepts d),
       article_sources := delete_where (\<lambda>x. as_article_id x = aid) (article_sources d)\<rparr>"

definition new_concept_page :: "env \<Rightarrow> string \<Rightarrow> concept_result \<Rightarrow> concept \<Rightarrow> string list \<Rightarrow> provider option \<Rightarrow> article" where
  "new_concept_page env aid r c source_ids p =
     (new_article aid (con_user_id c) (''concept-'' @ concept_slug env (con_name c)) (kr_title r)
        (concept_path env (con_name c)) (en_now env))
       \<lparr>art_summary := Some (kr_overview r), art_concept_ids := Some (dump_strings env [con_name c]),
        art_source_ids := Some (dump_strings env source_ids), art_provider := p, art_page_type := CONCEPT\<rparr>"

text \<open>The row of the page: an update of the existing one, or a new one; committed before the file is written.\<close>

definition put_concept_row :: "env \<Rightarrow> string \<Rightarrow> concept_result \<Rightarrow> concept \<Rightarrow> string list \<Rightarrow> provider option \<Rightarrow> string act" where
  "put_concept_row env user_id r c source_ids p =
     bindS (getS (\<lambda>w. find_existing_concept_article env (con_name c) user_id (w_db w))) (\<lambda>fr.
     bindS (liftS fr) (\<lambda>existing.
       case existing of
         Some ex \<Rightarrow>
           bindS (putS (on_db (\<lambda>d. clear_concept_page (art_id ex)
              (d\<lparr>articles := update_where (\<lambda>a. art_id a = art_id ex) (apply_concept_fields env r c source_ids p) (articles d)\<rparr>)))) (\<lambda>_.
           bindS commitS (\<lambda>_. returnS (art_id ex)))
       | None \<Rightarrow>
           bindS (freshS (en_uuid env)) (\<lambda>aid.
           bindS (putS (on_db (\<lambda>d. d\<lparr>articles := articles d @ [new_concept_page env aid r c source_ids p]\<rparr>))) (\<lambda>_.
           bindS commitS (\<lambda>_. returnS aid)))))"

text \<open>Rows of the two join tables: one for the concept, and one for every source article, with the id of the article.\<close>

definition concept_join_rows :: "string \<Rightarrow> string \<Rightarrow> string list \<Rightarrow> db \<Rightarrow> db" where
  "concept_join_rows aid concept_name source_ids d =
     d\<lparr>article_concepts := article_concepts d @ [\<lparr>ac_article_id = aid, ac_concept_name = concept_name\<rparr>],
       article_sources := article_sources d @ map (\<lambda>sid. \<lparr>as_article_id = aid, as_source_id = sid\<rparr>) source_ids\<rparr>"

definition save_concept_page :: "env \<Rightarrow> string \<Rightarrow> concept_result \<Rightarrow> concept \<Rightarrow> article list \<Rightarrow> provider option \<Rightarrow> string act" where
  "save_concept_page env user_id r c source_articles p =
     (let source_ids = map art_id source_articles
      in bindS (put_concept_row env user_id r c source_ids p) (\<lambda>aid.
         bindS (write_concept_file env r c source_articles p) (\<lambda>_.
         bindS (putS (on_db (concept_join_rows aid (con_name c) source_ids))) (\<lambda>_.
         bindS commitS (\<lambda>_.
         bindS (index_article_file env user_id aid (kr_title r) (concept_path env (con_name c))) (\<lambda>_.
         bindS (create_synthesizes_links aid source_ids user_id ''Concept page synthesizes from source article'') (\<lambda>_.
         bindS (create_related_to_links env aid (kr_title r) (kr_related_concepts r) user_id) (\<lambda>_.
           returnS aid))))))))"

section \<open>Compiling a page\<close>

definition load_kind_def :: "string \<Rightarrow> db \<Rightarrow> concept_kind_def option result" where
  "load_kind_def kind_name d = one_or_none (select (\<lambda>k. ckd_name k = kind_name) (concept_kind_defs d))"

definition template_of :: "env \<Rightarrow> string \<Rightarrow> db \<Rightarrow> (string \<times> string \<times> nat \<times> string \<times> string \<Rightarrow> string) option result" where
  "template_of env kind_name d =
     bindR (load_kind_def kind_name d) (\<lambda>kd.
     bindR (case kd of None \<Rightarrow> load_kind_def ''topic'' d | Some k \<Rightarrow> ok (Some k)) (\<lambda>kd'.
       ok (case kd' of None \<Rightarrow> None | Some k \<Rightarrow> en_concept_prompt env (ckd_prompt_template_key k))))"

definition parse_concept_response :: "env \<Rightarrow> completion_response \<Rightarrow> concept_result option result" where
  "parse_concept_response env response =
     bindR (parse_response env response) (\<lambda>data.
       case data of
         None \<Rightarrow> ok None
       | Some (JObj kvs) \<Rightarrow> none_on is_parse_error (parse_concept_result kvs)
       | Some _ \<Rightarrow> ok None)"

definition concept_system_prompt ::
  "env \<Rightarrow> (string \<times> string \<times> nat \<times> string \<times> string \<Rightarrow> string) \<Rightarrow> concept \<Rightarrow> article list \<Rightarrow> string \<Rightarrow> db \<Rightarrow> string" where
  "concept_system_prompt env template c source_articles material d =
     (let label = (if nonempty_text (con_description c) then the (con_description c) else con_name c);
          ct = collect_contradictions (map art_id source_articles) d
      in template (label, label, length source_articles, material, if ct = [] then ''No known contradictions.'' else ct))"

definition synthesize_page :: "env \<Rightarrow> string \<Rightarrow> concept \<Rightarrow> string \<Rightarrow> article list \<Rightarrow> string option act" where
  "synthesize_page env user_id c prompt source_articles =
     bindS commitS (\<lambda>_.
     bindS (call_llm env prompt ''Synthesize a concept page from these sources.'' (fl (3 / 10)) user_id) (\<lambda>response.
       case response of
         None \<Rightarrow> returnS None
       | Some resp \<Rightarrow>
           bindS (liftS (parse_concept_response env resp)) (\<lambda>compilation.
             case compilation of
               None \<Rightarrow> returnS None
             | Some r \<Rightarrow>
                 bindS (save_concept_page env user_id r c source_articles (Some (rs_provider_used resp))) (\<lambda>aid. returnS (Some aid)))))"

definition compile_concept_page :: "env \<Rightarrow> string \<Rightarrow> concept \<Rightarrow> string option act" where
  "compile_concept_page env user_id c =
     bindS (getS w_db) (\<lambda>d.
     bindS (liftS (template_of env (con_concept_kind c) d)) (\<lambda>template.
       case template of
         None \<Rightarrow> returnS None
       | Some t \<Rightarrow>
           (let source_articles = collect_source_articles env (con_name c) user_id d
            in if int (length source_articles) < en_concept_page_min_sources env then returnS None
               else
                 bindS (liftS (build_source_material env source_articles user_id d)) (\<lambda>material.
                   synthesize_page env user_id c (concept_system_prompt env t c source_articles material d) source_articles))))"

section \<open>The trigger\<close>

fun is_str :: "json \<Rightarrow> bool" where
  "is_str (JStr _) = True"
| "is_str _ = False"

text \<open>
  \<open>sorted(json.loads(raw))\<close> compared with a sorted list of strings; values that cannot be iterated or compared raise a
  \<open>TypeError\<close>, and a list of other values than strings is never equal to a list of strings unless both are empty.
\<close>

definition json_ids_differ :: "env \<Rightarrow> string list \<Rightarrow> string option \<Rightarrow> bool" where
  "json_ids_differ env current_ids raw =
     (case en_loads env (case raw of Some s \<Rightarrow> if s = [] then ''[]'' else s | None \<Rightarrow> ''[]'') of
        Inl _ \<Rightarrow> True
      | Inr j \<Rightarrow>
          (case json_items j of
             Inl _ \<Rightarrow> True
           | Inr items \<Rightarrow> if list_all is_str items then current_ids \<noteq> sort (map py_str items) else True))"

definition concept_source_set_changed :: "env \<Rightarrow> string \<Rightarrow> string \<Rightarrow> db \<Rightarrow> bool result" where
  "concept_source_set_changed env concept_name user_id d =
     (let current_ids = sort (map art_id (collect_source_articles env concept_name user_id d))
      in bindR (find_existing_concept_article env concept_name user_id d) (\<lambda>existing.
           case existing of
             None \<Rightarrow> ok True
           | Some ex \<Rightarrow>
               (let previous_ids = sort (map as_source_id (select (\<lambda>x. as_article_id x = art_id ex) (article_sources d)))
                in if previous_ids = [] then ok (json_ids_differ env current_ids (art_source_ids ex))
                   else ok (current_ids \<noteq> previous_ids))))"

fun is_page_error :: "exc \<Rightarrow> bool" where
  "is_page_error (RuntimeError _) = True"
| "is_page_error (ValueError _) = True"
| "is_page_error e = is_sqlalchemy_error e"

definition concept_page_turn :: "env \<Rightarrow> string \<Rightarrow> concept \<Rightarrow> string list \<Rightarrow> string list act" where
  "concept_page_turn env user_id c compiled =
     tryS
       (bindS (getS (\<lambda>w. concept_source_set_changed env (con_name c) user_id (w_db w))) (\<lambda>r.
        bindS (liftS r) (\<lambda>changed.
          if \<not> changed then returnS compiled
          else bindS (compile_concept_page env user_id c) (\<lambda>article.
            returnS (if article \<noteq> None then compiled @ [con_name c] else compiled)))))
       (\<lambda>e. if is_page_error e then returnS compiled else raiseS e)"

definition eligible_concepts :: "env \<Rightarrow> string \<Rightarrow> db \<Rightarrow> concept list" where
  "eligible_concepts env user_id d =
     select (\<lambda>c. con_article_count c \<ge> en_concept_page_min_sources env \<and> con_user_id c = user_id) (concepts d)"

definition maybe_trigger_concept_pages :: "env \<Rightarrow> string \<Rightarrow> string list act" where
  "maybe_trigger_concept_pages env user_id =
     bindS (getS (\<lambda>w. eligible_concepts env user_id (w_db w))) (\<lambda>eligible.
       foldS (concept_page_turn env user_id) eligible [])"

section \<open>What concept pages leave alone\<close>

context durable
begin

lemma keeps_backlinks: "fr.keeps (put_backlinks bs)"
  unfolding put_backlinks_def by (intro rules) (simp add: rest_def on_db_def)

lemma keeps_index_file: "fr.keeps (index_article_file env uid aid title path)"
  unfolding index_article_file_def index_rows_def file_or_empty_def
  by (intro rules) (auto intro!: rules simp: rest_def split: exc.split)

lemma keeps_page_row: "fr.keeps (put_concept_row env uid r c ids p)"
  unfolding put_concept_row_def by (intro rules) (simp_all add: rest_def on_db_def clear_concept_page_def)

lemma keeps_save_page: "fr.keeps (save_concept_page env uid r c arts p)"
  unfolding save_concept_page_def write_concept_file_def create_synthesizes_links_def create_related_to_links_def related_links_def Let_def
  by (intro rules keeps_page_row keeps_index_file keeps_backlinks) (simp add: rest_def on_db_def concept_join_rows_def)

lemma keeps_call: "fr.keeps (call_llm env system content temp uid)"
  unfolding call_llm_def noneS_def by (intro rules)

lemma keeps_compile_page: "fr.keeps (compile_concept_page env uid c)"
  unfolding compile_concept_page_def synthesize_page_def Let_def by (intro rules keeps_call keeps_save_page)

lemma keeps_concept_pages: "fr.keeps (maybe_trigger_concept_pages env uid)"
  unfolding maybe_trigger_concept_pages_def concept_page_turn_def by (intro rules keeps_compile_page)

end

section \<open>What saving a page does to the tables\<close>

definition page_tables :: "world \<Rightarrow> article list \<times> article_concept list \<times> article_source list" where
  "page_tables w = (articles (w_db w), article_concepts (w_db w), article_sources (w_db w))"

lemma page_tables_upd [simp]:
  "page_tables (w\<lparr>w_uuids := n\<rparr>) = page_tables w" "page_tables (w\<lparr>w_fts := x\<rparr>) = page_tables w"
  "page_tables (w\<lparr>w_db := (w_db w)\<lparr>wiki_files := f\<rparr>\<rparr>) = page_tables w"
  "page_tables (on_db (\<lambda>d. d\<lparr>backlinks := b d\<rparr>) w) = page_tables w"
  "page_tables (w\<lparr>w_router := ro, w_uuids := n, w_db := (w_db w)\<lparr>cost_logs := c, llm_traces := l\<rparr>\<rparr>) = page_tables w"
  by (simp_all add: page_tables_def on_db_def)

lemma untouched_read: "untouched f (read_fileS g)"
  by (simp add: untouched_def read_fileS_def)

lemma leaves_file_or_empty: "leaves f (file_or_empty env uid path)"
  unfolding file_or_empty_def by (intro leaves_try untouched_read) (auto intro: leaves_return leaves_raise split: exc.split)

lemma leaves_index_file: "leaves page_tables (index_article_file env uid aid title path)"
  unfolding index_article_file_def index_rows_def by (intro leaves_intro leaves_file_or_empty) simp_all

lemma leaves_backlinks: "leaves page_tables (put_backlinks bs)"
  unfolding put_backlinks_def by (intro leaves_intro) simp

lemma leaves_links: "leaves page_tables (create_synthesizes_links aid ids uid ctx)"
  unfolding create_synthesizes_links_def by (intro leaves_intro leaves_backlinks)

lemma leaves_related: "leaves page_tables (create_related_to_links env aid title names uid)"
  unfolding create_related_to_links_def related_links_def Let_def by (intro leaves_intro leaves_backlinks)

lemma leaves_concept_file: "leaves page_tables (write_concept_file env r c arts p)"
  unfolding write_concept_file_def Let_def by (intro leaves_intro) simp

lemma leaves_call_llm: "leaves page_tables (call_llm env sys content temp uid)"
  unfolding call_llm_def noneS_def leaves_def
  by (auto simp: tryS_def bindS_def llmS_def Let_def split: prod.splits sum.splits if_splits)

lemma new_concept_page_fields [simp]:
  "art_id (new_concept_page env aid r c ids p) = aid" "art_page_type (new_concept_page env aid r c ids p) = CONCEPT"
  "art_slug (new_concept_page env aid r c ids p) = ''concept-'' @ concept_slug env (con_name c)"
  "art_user_id (new_concept_page env aid r c ids p) = con_user_id c"
  by (simp_all add: new_concept_page_def new_article_def)

lemma select_update_in:
  "(\<And>r. r \<in> set rows \<Longrightarrow> p r \<Longrightarrow> \<not> q r \<and> \<not> q (f r)) \<Longrightarrow> select q (update_where p f rows) = select q rows"
  by (induction rows) (auto simp: select_def update_where_def)

lemma select_update_one:
  assumes "select q rows = [x]" and "\<And>r. r \<in> set rows \<Longrightarrow> key r = key x \<Longrightarrow> r = x" and "q (f x)"
  shows "select q (update_where (\<lambda>r. key r = key x) f rows) = [f x]"
proof -
  have "x \<in> set (select q rows)" by (simp only: assms(1)) simp
  then have "q x" by simp
  then have "select q (update_where (\<lambda>r. key r = key x) f rows) = map f (select q rows)"
    if "\<And>r. r \<in> set rows \<Longrightarrow> q r \<Longrightarrow> r = x" "\<And>r. r \<in> set rows \<Longrightarrow> key r = key x \<Longrightarrow> r = x" for rows
    using that assms(3) by (induction rows) (auto simp: select_def update_where_def)
  moreover have "r = x" if "r \<in> set rows" "q r" for r
    using that assms(1) set_select [of q rows] by auto
  ultimately show ?thesis using assms by simp
qed

text \<open>Where the page is, after its row is committed.\<close>

lemma put_concept_row_tables:
  assumes "put_concept_row env uid r c ids p s = (t, ok aid)" and "con_user_id c = uid"
    and "list_all (\<lambda>x. as_article_id x \<in> set (map art_id (articles (w_db (se_cur s))))) (article_sources (w_db (se_cur s)))"
  shows "\<not> se_broken t"
    and "\<exists>page. concept_pages (''concept-'' @ concept_slug env (con_name c)) uid (w_db (se_cur t)) = [page] \<and> art_id page = aid"
    and "select (\<lambda>x. as_article_id x = aid) (article_sources (w_db (se_cur t))) = []"
    and "\<And>q. select (\<lambda>a. art_page_type a = SOURCE \<and> q a) (articles (w_db (se_cur t))) =
             select (\<lambda>a. art_page_type a = SOURCE \<and> q a) (articles (w_db (se_cur s)))"
    and "\<And>a n. a \<in> set (articles (w_db (se_cur t))) \<Longrightarrow> art_page_type a = SOURCE \<Longrightarrow>
           art_id a \<noteq> aid \<and>
           (list_ex (\<lambda>ac. ac_article_id ac = art_id a \<and> ac_concept_name ac = n) (article_concepts (w_db (se_cur t))) \<longleftrightarrow>
            list_ex (\<lambda>ac. ac_article_id ac = art_id a \<and> ac_concept_name ac = n) (article_concepts (w_db (se_cur s))))"
proof -
  let ?slug = "''concept-'' @ concept_slug env (con_name c)" and ?d = "w_db (se_cur s)" and ?e = "w_db (se_cur t)"
  let ?goal = "\<not> se_broken t \<and> (\<exists>page. concept_pages ?slug uid ?e = [page] \<and> art_id page = aid) \<and>
    select (\<lambda>x. as_article_id x = aid) (article_sources ?e) = [] \<and>
    (\<forall>q. select (\<lambda>a. art_page_type a = SOURCE \<and> q a) (articles ?e) = select (\<lambda>a. art_page_type a = SOURCE \<and> q a) (articles ?d)) \<and>
    (\<forall>a\<in>set (articles ?e). art_page_type a = SOURCE \<longrightarrow> art_id a \<noteq> aid) \<and>
    (\<forall>k n. k \<noteq> aid \<longrightarrow> list_ex (\<lambda>ac. ac_article_id ac = k \<and> ac_concept_name ac = n) (article_concepts ?e) =
       list_ex (\<lambda>ac. ac_article_id ac = k \<and> ac_concept_name ac = n) (article_concepts ?d))"
  have ?goal
  proof (cases "find_existing_concept_article env (con_name c) uid ?d")
    case (Inl e)
    with assms(1) show ?thesis by (auto simp: put_concept_row_def act_ok)
  next
    case (Inr existing)
    show ?thesis
    proof (cases existing)
      case None
      with Inr have none: "concept_pages ?slug uid ?d = []"
        by (simp add: find_existing_concept_article_def one_or_none_ok_None)
      from assms(1) Inr None have e: "\<not> se_broken t" "constraints_ok (se_cur t)" "aid = en_uuid env (w_uuids (se_cur s))"
        "?e = ?d\<lparr>articles := articles ?d @ [new_concept_page env aid r c ids p]\<rparr>"
        by (auto simp: put_concept_row_def act_ok on_db_def)
      let ?page = "new_concept_page env aid r c ids p"
      have fresh: "aid \<notin> art_id ` set (articles ?d)"
        using e(2) by (simp add: constraints_ok_def unique_ok_def e(4))
      have "concept_pages ?slug uid ?e = [?page]"
        using none assms(2) by (simp add: e(4) concept_pages_def select_def)
      moreover have "select (\<lambda>x. as_article_id x = aid) (article_sources ?e) = []"
        using fresh assms(3) by (auto simp: e(4) select_empty_iff list_all_iff)
      moreover have "select (\<lambda>a. art_page_type a = SOURCE \<and> q a) (articles ?e) = select (\<lambda>a. art_page_type a = SOURCE \<and> q a) (articles ?d)" for q
        by (simp add: e(4) select_def)
      moreover have "art_id a \<noteq> aid" if "a \<in> set (articles ?e)" "art_page_type a = SOURCE" for a
        using that fresh by (cases "a = ?page") (simp, auto simp: e(4))
      ultimately show ?thesis using e(1) by (simp add: e(4))
    next
      case (Some ex)
      with Inr have found: "concept_pages ?slug uid ?d = [ex]"
        by (simp add: find_existing_concept_article_def one_or_none_ok_Some)
      from assms(1) Inr Some have e: "\<not> se_broken t" "constraints_ok (se_cur t)" "aid = art_id ex"
        "?e = clear_concept_page (art_id ex)
           (?d\<lparr>articles := update_where (\<lambda>a. art_id a = art_id ex) (apply_concept_fields env r c ids p) (articles ?d)\<rparr>)"
        by (auto simp: put_concept_row_def act_ok on_db_def)
      have "map art_id (articles ?e) = map art_id (articles ?d)"
        by (simp add: e clear_concept_page_def apply_concept_fields_def)
      then have dist: "distinct (map art_id (articles ?d))"
        using e(2) by (simp add: constraints_ok_def unique_ok_def)
      have ex: "ex \<in> set (articles ?d)" "art_page_type ex = CONCEPT" "art_slug ex = ?slug"
        using found set_select [of "\<lambda>a. art_slug a = ?slug \<and> art_page_type a = CONCEPT \<and> art_user_id a = uid" "articles ?d"]
        by (auto simp: concept_pages_def)
      have only: "a = ex" if "a \<in> set (articles ?d)" "art_id a = art_id ex" for a
        using that dist ex(1) by (auto simp: distinct_map dest: inj_onD)
      have "concept_pages ?slug uid ?e = [apply_concept_fields env r c ids p ex]"
        using select_update_one [where key = art_id, OF found [unfolded concept_pages_def]] only ex assms(2)
        by (simp add: e concept_pages_def clear_concept_page_def apply_concept_fields_def)
      moreover have "select (\<lambda>a. art_page_type a = SOURCE \<and> q a) (articles ?e) = select (\<lambda>a. art_page_type a = SOURCE \<and> q a) (articles ?d)" for q
        by (simp add: e clear_concept_page_def) (rule select_update_in, use only ex in \<open>force simp: apply_concept_fields_def\<close>)
      moreover have "art_id a \<noteq> aid" if "a \<in> set (articles ?e)" "art_page_type a = SOURCE" for a
        using that only ex by (auto simp: e clear_concept_page_def apply_concept_fields_def set_update_where)
      ultimately show ?thesis
        by (auto simp: e clear_concept_page_def apply_concept_fields_def select_def delete_where_def list_ex_iff)
    qed
  qed
  then show "\<not> se_broken t"
    and "\<exists>page. concept_pages ?slug uid ?e = [page] \<and> art_id page = aid"
    and "select (\<lambda>x. as_article_id x = aid) (article_sources ?e) = []"
    and "\<And>q. select (\<lambda>a. art_page_type a = SOURCE \<and> q a) (articles ?e) = select (\<lambda>a. art_page_type a = SOURCE \<and> q a) (articles ?d)"
    and "\<And>a n. a \<in> set (articles ?e) \<Longrightarrow> art_page_type a = SOURCE \<Longrightarrow>
           art_id a \<noteq> aid \<and>
           (list_ex (\<lambda>ac. ac_article_id ac = art_id a \<and> ac_concept_name ac = n) (article_concepts ?e) \<longleftrightarrow>
            list_ex (\<lambda>ac. ac_article_id ac = art_id a \<and> ac_concept_name ac = n) (article_concepts ?d))"
    by blast+
qed

text \<open>The tables after the whole save, from those after the row of the page.\<close>

lemma save_concept_page_tables:
  assumes "save_concept_page env uid r c arts p s = (t, ok aid)"
  obtains u where "put_concept_row env uid r c (map art_id arts) p s = (u, ok aid)"
    and "articles (w_db (se_cur t)) = articles (w_db (se_cur u))"
    and "article_concepts (w_db (se_cur t)) = article_concepts (w_db (se_cur u)) @ [\<lparr>ac_article_id = aid, ac_concept_name = con_name c\<rparr>]"
    and "article_sources (w_db (se_cur t)) = article_sources (w_db (se_cur u)) @ map (\<lambda>i. \<lparr>as_article_id = aid, as_source_id = i\<rparr>) (map art_id arts)"
proof -
  have frame: "page_tables (se_cur y) = page_tables (se_cur x)" if "m x = (y, ok v)" "leaves page_tables m" for m :: "'c act" and x y v
    using that by (rule leavesD [rotated])
  from assms obtain u u1 u2 u3 u4 where steps: "put_concept_row env uid r c (map art_id arts) p s = (u, ok aid)"
    "write_concept_file env r c arts p u = (u1, ok ())"
    "u2 = u1\<lparr>se_cur := on_db (concept_join_rows aid (con_name c) (map art_id arts)) (se_cur u1)\<rparr>"
    "index_article_file env uid aid (kr_title r) (concept_path env (con_name c)) (u2\<lparr>se_saved := se_cur u2\<rparr>) = (u3, ok ())"
    "create_synthesizes_links aid (map art_id arts) uid ''Concept page synthesizes from source article'' u3 = (u4, ok ())"
    "create_related_to_links env aid (kr_title r) (kr_related_concepts r) uid u4 = (t, ok ())"
    by (auto simp: save_concept_page_def Let_def act_ok)
  have "page_tables (se_cur t) = page_tables (se_cur u2)"
    using frame [OF steps(4) leaves_index_file] frame [OF steps(5) leaves_links] frame [OF steps(6) leaves_related] by simp
  moreover have "page_tables (se_cur u1) = page_tables (se_cur u)" by (rule frame [OF steps(2) leaves_concept_file])
  ultimately show thesis
    using steps(1,3) by (intro that [of u]) (auto simp: page_tables_def on_db_def concept_join_rows_def)
qed

lemma collect_after_page:
  assumes "save_concept_page env uid r c arts p s = (t, ok aid)" and "con_user_id c = uid"
    and "list_all (\<lambda>x. as_article_id x \<in> set (map art_id (articles (w_db (se_cur s))))) (article_sources (w_db (se_cur s)))"
  shows "collect_source_articles env n uid (w_db (se_cur t)) = collect_source_articles env n uid (w_db (se_cur s))"
proof -
  let ?src = "\<lambda>d a. list_ex (\<lambda>ac. ac_article_id ac = art_id a \<and> ac_concept_name ac = en_slugify env n None) (article_concepts d)"
  let ?mine = "\<lambda>a. uid = [] \<or> art_user_id a = uid"
  from save_concept_page_tables [OF assms(1)] obtain u where u: "put_concept_row env uid r c (map art_id arts) p s = (u, ok aid)"
    "articles (w_db (se_cur t)) = articles (w_db (se_cur u))"
    "article_concepts (w_db (se_cur t)) = article_concepts (w_db (se_cur u)) @ [\<lparr>ac_article_id = aid, ac_concept_name = con_name c\<rparr>]"
    by blast
  note row = put_concept_row_tables [OF u(1) assms(2,3)]
  have "collect_source_articles env n uid (w_db (se_cur t)) =
      select (\<lambda>a. art_page_type a = SOURCE \<and> ?src (w_db (se_cur s)) a \<and> ?mine a) (articles (w_db (se_cur u)))"
    using row(5) by (auto simp: collect_source_articles_def Let_def select_def u(2,3) intro!: filter_cong)
  also have "\<dots> = select (\<lambda>a. art_page_type a = SOURCE \<and> ?src (w_db (se_cur s)) a \<and> ?mine a) (articles (w_db (se_cur s)))"
    by (rule row(4))
  finally show ?thesis by (simp add: collect_source_articles_def Let_def select_def conj_commute conj_left_commute)
qed

section \<open>Pages settle\<close>


section \<open>Pages that are never made\<close>

text \<open>
  On Postgres no concept page with a source can be saved: the join rows of the page name the ids of its source
  articles in a column that refers to the table of sources, so that the commit fails, after the row of the page and
  its file have been written.
\<close>

lemma concept_page_fails_on_postgres:
  assumes "w_postgres (se_cur s)" and "a \<in> set arts" and "art_id a \<notin> set (map src_id (sources (w_db (se_cur s))))"
  shows "snd (save_concept_page env uid r c arts p s) \<noteq> ok aid"
proof
  let ?fixed = "\<lambda>w. (w_postgres w, sources (w_db w))"
  assume "snd (save_concept_page env uid r c arts p s) = ok aid"
  then obtain t where "save_concept_page env uid r c arts p s = (t, ok aid)" by (metis prod.collapse)
  then obtain u u1 where steps: "put_concept_row env uid r c (map art_id arts) p s = (u, ok aid)"
    "write_concept_file env r c arts p u = (u1, ok ())"
    "constraints_ok (on_db (concept_join_rows aid (con_name c) (map art_id arts)) (se_cur u1))"
    by (auto simp: save_concept_page_def Let_def act_ok)
  have "leaves ?fixed (put_concept_row env uid r c (map art_id arts) p)"
    unfolding put_concept_row_def by (intro leaves_intro) (simp_all add: on_db_def clear_concept_page_def)
  moreover have "leaves ?fixed (write_concept_file env r c arts p)"
    unfolding write_concept_file_def Let_def by (intro leaves_intro) simp
  ultimately have "?fixed (se_cur u1) = ?fixed (se_cur s)"
    using steps(1,2) by (auto dest!: leavesD)
  moreover define v where "v = on_db (concept_join_rows aid (con_name c) (map art_id arts)) (se_cur u1)"
  moreover have "w_postgres v = w_postgres (se_cur u1)" "sources (w_db v) = sources (w_db (se_cur u1))"
    by (simp_all add: v_def on_db_def concept_join_rows_def)
  moreover have row: "\<lparr>as_article_id = aid, as_source_id = art_id a\<rparr> \<in> set (article_sources (w_db v))"
    using assms(2) by (simp add: v_def on_db_def concept_join_rows_def)
  ultimately have "foreign_ok v" "set (map src_id (sources (w_db v))) = set (map src_id (sources (w_db (se_cur s))))"
    using steps(3) assms(1) by (simp_all add: constraints_ok_def)
  then have "art_id a \<in> set (map src_id (sources (w_db (se_cur s))))"
    using row by (auto simp: foreign_ok_def Let_def list_all_iff)
  with assms(3) show False ..
qed

text \<open>
  A concept whose articles are tagged with its name as the language model wrote it, and not in slug form, never
  gets a page, however many articles there are: the compiler of the page looks for rows with the slug, finds no source
  and gives up before it asks the language model.
\<close>

lemma concept_page_needs_slug_rows:
  assumes "list_all (\<lambda>ac. ac_concept_name ac \<noteq> concept_slug env (con_name c)) (article_concepts (w_db (se_cur s)))"
    and "1 \<le> en_concept_page_min_sources env"
  shows "fst (compile_concept_page env uid c s) = s \<and> (\<forall>aid. snd (compile_concept_page env uid c s) \<noteq> ok (Some aid))"
proof -
  have none: "collect_source_articles env (con_name c) uid (w_db (se_cur s)) = []"
    using assms(1) by (auto simp: collect_source_articles_def Let_def select_empty_iff list_all_iff list_ex_iff concept_slug_def)
  have [simp]: "getS w_db s = (if se_broken s then (s, raise PendingRollbackError) else (s, ok (w_db (se_cur s))))"
    by (simp add: getS_def checkedS_def readS_def)
  show ?thesis
    using assms(2) none
    by (cases "template_of env (con_concept_kind c) (w_db (se_cur s))")
       (auto simp: compile_concept_page_def bindS_def Let_def split: option.splits)
qed

section \<open>Witnesses\<close>

definition ex_page :: concept_result where
  "ex_page = \<lparr>kr_title = ''Topic Y'', kr_overview = ''O.'', kr_key_themes = [], kr_consensus_conflicts = ''C.'', kr_open_questions = [],
     kr_timeline = ''T.'', kr_sources_summary = ''S.'', kr_article_body = ''B.'', kr_related_concepts = [], kr_page_type = CONCEPT\<rparr>"


lemma concept_page_fails_on_postgres_witness:
  "snd (save_concept_page ex_env0 ''u1'' ex_page (ex_concept0 ''topic-y'')
     (collect_source_articles ex_env0 ''topic-y'' ''u1'' (ex_wiki_db ''topic-y'')) None (open_session (ex_world0 True ''topic-y''))) \<noteq> ok ''id0''"
proof -
  let ?a = "new_article ''a1'' ''u1'' ''y'' ''Y'' ''general/y.md'' 0"
  have "?a \<in> set (collect_source_articles ex_env0 ''topic-y'' ''u1'' (ex_wiki_db ''topic-y''))" by code_simp
  then show ?thesis
    by (rule concept_page_fails_on_postgres [rotated])
       (simp_all add: open_session_def ex_world0_def ex_wiki_db_def ex_source0_def new_article_def)
qed

lemma concept_page_needs_slug_rows_witness:
  "snd (compile_concept_page ex_env0 ''u1'' (ex_concept0 ''topic-y'') (open_session (ex_world0 False ''Topic Y''))) \<noteq> ok (Some ''id2'')"
proof -
  have "list_all (\<lambda>ac. ac_concept_name ac \<noteq> concept_slug ex_env0 (con_name (ex_concept0 ''topic-y'')))
      (article_concepts (w_db (se_cur (open_session (ex_world0 False ''Topic Y'')))))"
    and "1 \<le> en_concept_page_min_sources ex_env0"
    by code_simp+
  from concept_page_needs_slug_rows [OF this] show ?thesis by blast
qed

end
