(* ===== verification/Compiler.thy ===== *)
theory Compiler
  imports ConceptCompiler Slug WikilinkResolver Confidence Spans
begin

text \<open>
  The compiler of sources, \<^verbatim>\<open>src/src/wikimind/engine/compiler.py\<close>: a document, in chunks when it is large, becomes
  an article with its file, join rows, search entry, links, claims, confidence score and reinforcement event, and then
  the taxonomy, the concept pages, the activity log and the catalogue are brought up to date. The attributes of a
  \<open>Compiler\<close> object are the record \<open>compiler\<close>. The clock does not move during one operation; the durations of the
  calls come with the environment. The check of the front matter after the file is written only logs.
\<close>

section \<open>State of a compiler\<close>

record compiler =
  co_provider :: "provider option"
  co_typed :: "string \<rightharpoonup> string"
  co_duration :: "int option"
  co_tokens :: "int option"
  co_spans :: "source_span list"

definition new_compiler :: compiler where
  "new_compiler = \<lparr>co_provider = None, co_typed = Map.empty, co_duration = None, co_tokens = None, co_spans = []\<rparr>"

definition slugify :: "env \<Rightarrow> string \<Rightarrow> string" where
  "slugify env s = en_slugify env s None"

section \<open>Asking the language model\<close>

definition load_source_spans :: "string \<Rightarrow> string \<Rightarrow> db \<Rightarrow> source_span list" where
  "load_source_spans user_id source_id d =
     sort_key sp_created_at (select (\<lambda>sp. sp_source_id sp = source_id \<and> sp_user_id sp = user_id) (source_spans d))"

definition doc_prompt :: "env \<Rightarrow> normalized_document \<Rightarrow> source_span list \<Rightarrow> string" where
  "doc_prompt env doc spans = build_user_prompt (en_source_text_max_chars env) (en_date env) doc spans"

definition extract_takeaways :: "env \<Rightarrow> string \<Rightarrow> normalized_document \<Rightarrow> string list act" where
  "extract_takeaways env user_id doc =
     bindS (llmS env False (compile_request env (en_prompt env ''takeaway'') (doc_prompt env doc []) (en_max_tokens env div 2) (fl (3 / 10)) T_COMPILE) user_id) (\<lambda>response.
     bindS (liftS (none_on is_parse_error
        (bindR (parse_json_response (en_loads env) (rs_content response)) (\<lambda>data.
         bindR (jget data ''takeaways'' (JList [])) (\<lambda>takeaways.
         bindR (json_items takeaways) (\<lambda>items. ok (take 10 (map py_str (filter truthy items))))))))) (\<lambda>r.
       returnS (case r of Some ts \<Rightarrow> ts | None \<Rightarrow> [])))"

definition existing_concepts_section :: "db \<Rightarrow> string" where
  "existing_concepts_section d =
     (let names = sort (map con_name (concepts d))
      in if names = [] then []
         else [CHR 0x0A, CHR 0x0A] @ ''Existing concepts in this wiki (REUSE these before inventing new ones):'' @ [CHR 0x0A]
           @ py_join '', '' names)"

text \<open>The suggestions of an answer with their types, and the result, each \<open>None\<close> when the answer cannot be read.\<close>

definition raw_suggestions :: "env \<Rightarrow> completion_response \<Rightarrow> (fields \<times> json list) option result" where
  "raw_suggestions env response =
     none_on is_parse_error
       (bindR (parse_json_response (en_loads env) (rs_content response)) (\<lambda>data.
         case data of
           JObj kvs \<Rightarrow>
             bindR (json_items (case map_of kvs ''backlink_suggestions'' of Some v \<Rightarrow> v | None \<Rightarrow> JList [])) (\<lambda>raw. ok (kvs, raw))
         | _ \<Rightarrow> raise (AttributeError ''get'')))"

definition read_result :: "env \<Rightarrow> provider \<Rightarrow> fields \<Rightarrow> json list \<Rightarrow> compilation_result option result" where
  "read_result env p kvs raw =
     none_on is_parse_error
       (bindR (parse_compilation_result (en_parse_datetime env)
          (dict_set ''backlink_suggestions'' (JList (map JStr (normalize_backlink_suggestions raw))) kvs)) (\<lambda>r.
         ok (r\<lparr>cr_compiled := Some (en_now env), cr_provider := Some p, cr_page_type := SOURCE\<rparr>)))"

definition ask :: "env \<Rightarrow> string \<Rightarrow> string \<Rightarrow> string \<Rightarrow> compiler \<Rightarrow> (compilation_result option \<times> compiler) act" where
  "ask env user_id system user_prompt co =
     bindS commitS (\<lambda>_.
     bindS (getS w_uuids) (\<lambda>n.
     bindS (llmS env True (compile_request env system user_prompt (en_max_tokens env) (fl (2 / 10)) T_COMPILE) user_id) (\<lambda>response.
       let co1 = co\<lparr>co_duration := Some (en_elapsed env n), co_tokens := Some (rs_input_tokens response + rs_output_tokens response),
                   co_provider := Some (rs_provider_used response)\<rparr>
       in bindS (liftS (raw_suggestions env response)) (\<lambda>read.
            case read of
              None \<Rightarrow> returnS (None, co1)
            | Some (kvs, raw) \<Rightarrow>
                bindS (liftS (read_result env (rs_provider_used response) kvs raw)) (\<lambda>result.
                  returnS (result, co1\<lparr>co_typed := typed_map (extract_typed_suggestions raw)\<rparr>))))))"

section \<open>Compiling\<close>

definition spans_for :: "string \<Rightarrow> normalized_document \<Rightarrow> db \<Rightarrow> source_span list" where
  "spans_for user_id doc d = (if nd_raw_source_id doc = [] then [] else load_source_spans user_id (nd_raw_source_id doc) d)"

definition active_schema :: "string \<Rightarrow> world \<Rightarrow> compilation_schema option result" where
  "active_schema user_id w = one_or_none (select (\<lambda>s. cs_user_id s = user_id \<and> cs_is_active s) (w_schemas w))"

definition compile_small :: "env \<Rightarrow> string \<Rightarrow> normalized_document \<Rightarrow> compiler \<Rightarrow> (compilation_result option \<times> compiler) act" where
  "compile_small env user_id doc co =
     bindS (getS id) (\<lambda>w.
       let spans = spans_for user_id doc (w_db w);
           user_prompt = doc_prompt env doc spans @ existing_concepts_section (w_db w)
       in bindS (liftS (active_schema user_id w)) (\<lambda>schema.
          bindS (liftS (case schema of None \<Rightarrow> ok [] | Some s \<Rightarrow> build_schema_directives (en_loads env) s)) (\<lambda>directives.
            ask env user_id (en_prompt env ''compiler'' @ directives) user_prompt (co\<lparr>co_spans := spans\<rparr>))))"

definition chunk_doc :: "normalized_document \<Rightarrow> nat \<Rightarrow> string \<times> int \<Rightarrow> normalized_document" where
  "chunk_doc doc i chunk =
     \<lparr>nd_raw_source_id = nd_raw_source_id doc, nd_clean_text = fst chunk,
      nd_title = nd_title doc @ '' (Part '' @ show_nat (i + 1) @ '')'', nd_author = nd_author doc,
      nd_published_date = nd_published_date doc, nd_estimated_tokens = snd chunk, nd_chunks = []\<rparr>"

text \<open>A chunk that is itself too large has no chunks, and gives nothing.\<close>

definition compile_chunk ::
  "env \<Rightarrow> string \<Rightarrow> normalized_document \<Rightarrow> nat \<times> string \<times> int \<Rightarrow> compilation_result list \<times> compiler \<Rightarrow>
   (compilation_result list \<times> compiler) act" where
  "compile_chunk env user_id doc ic acc =
     (let (i, chunk) = ic; (results, co) = acc; cdoc = chunk_doc doc i chunk
      in if nd_estimated_tokens cdoc > 80000 then returnS (results, co)
         else bindS (compile_small env user_id cdoc co) (\<lambda>(r, co').
                returnS (case r of None \<Rightarrow> (results, co') | Some x \<Rightarrow> (results @ [x], co'))))"

definition compile_chunked :: "env \<Rightarrow> string \<Rightarrow> normalized_document \<Rightarrow> compiler \<Rightarrow> (compilation_result option \<times> compiler) act" where
  "compile_chunked env user_id doc co =
     bindS (foldS (compile_chunk env user_id doc) (take 10 (enumerate_list (nd_chunks doc))) ([], co)) (\<lambda>(results, co').
       returnS (case results of
          [] \<Rightarrow> (None, co')
        | r # rs \<Rightarrow> (Some (merge_chunk_results (en_set env) (nd_title doc) r rs), co')))"

definition compile :: "env \<Rightarrow> string \<Rightarrow> normalized_document \<Rightarrow> compiler \<Rightarrow> (compilation_result option \<times> compiler) act" where
  "compile env user_id doc co =
     (if nd_estimated_tokens doc > 80000 then compile_chunked env user_id doc co
      else compile_small env user_id doc co)"

definition compile_with_guidance ::
  "env \<Rightarrow> string \<Rightarrow> normalized_document \<Rightarrow> string \<Rightarrow> compiler \<Rightarrow> (compilation_result option \<times> compiler) act" where
  "compile_with_guidance env user_id doc guidance co =
     (if nd_estimated_tokens doc > 80000 then bindS commitS (\<lambda>_. compile_chunked env user_id doc co)
      else
        bindS (getS w_db) (\<lambda>d.
          let spans = spans_for user_id doc d;
              user_prompt = doc_prompt env doc spans @ [CHR 0x0A, CHR 0x0A]
                @ ''USER GUIDANCE '' @ en_dash env @ '' weight the article toward these priorities:'' @ [CHR 0x0A]
                @ ''<guidance>'' @ sanitize_guidance (en_guidance_max_length env) guidance @ ''</guidance>''
                @ existing_concepts_section d
          in ask env user_id (en_prompt env ''compiler'') user_prompt (co\<lparr>co_spans := spans\<rparr>)))"

section \<open>The file of an article\<close>

definition claim_line :: "claim_dto \<Rightarrow> string" where
  "claim_line c =
     ''- **'' @ cm_claim c @ ''** *('' @ confidence_level_value (cm_confidence c) @ '')*''
     @ (if nonempty_text (cm_quote c) then '' -- '' @ [CHR 0x22] @ the (cm_quote c) @ [CHR 0x22] else [])"

definition source_label :: "source \<Rightarrow> string" where
  "source_label src =
     (if nonempty_text (src_title src) then the (src_title src)
      else if nonempty_text (src_source_url src) then the (src_source_url src)
      else ''Uploaded document'')"

definition article_content ::
  "env \<Rightarrow> compilation_result \<Rightarrow> source \<Rightarrow> string \<Rightarrow> resolved_backlink list \<Rightarrow> string list \<Rightarrow> compiler \<Rightarrow> string" where
  "article_content env r src slug resolved unresolved co =
     (let nl = [CHR 0x0A];
          para = (\<lambda>title body. ''## '' @ title @ nl @ nl @ body @ nl @ nl);
          related = map (\<lambda>rb. ''- ['' @ rb_candidate_text rb @ ''](/wiki/'' @ rb_target_id rb @ '')'') resolved
            @ map (\<lambda>t. ''- [['' @ t @ '']]'') unresolved;
          p = (case cr_provider r of Some q \<Rightarrow> Some q | None \<Rightarrow> co_provider co)
      in ''---'' @ nl @ ''title: '' @ [CHR 0x22] @ cr_title r @ [CHR 0x22] @ nl @ ''slug: '' @ slug @ nl
         @ ''page_type: source'' @ nl @ ''source_id: '' @ src_id src @ nl
         @ ''source_url: '' @ (case src_source_url src of Some u \<Rightarrow> u | None \<Rightarrow> []) @ nl
         @ ''source_type: '' @ source_type_value (src_source_type src) @ nl
         @ ''compiled: '' @ en_iso env (en_now env) @ nl
         @ ''concepts: ['' @ py_join '', '' (cr_concepts r) @ '']'' @ nl
         @ ''confidence: '' @ confidence_level_value (overall_confidence r) @ nl
         @ ''provider: '' @ (case p of Some q \<Rightarrow> provider_value q | None \<Rightarrow> []) @ nl @ ''---'' @ nl @ nl
         @ para ''Summary'' (cr_summary r)
         @ para ''Key Claims'' (join_lines (map claim_line (cr_key_claims r)))
         @ para ''Analysis'' (cr_article_body r)
         @ para ''Open Questions'' (join_lines (map (\<lambda>q. ''- '' @ q) (cr_open_questions r)))
         @ para ''Related'' (join_lines related)
         @ ''## Sources'' @ nl @ nl @ ''- '' @ source_label src @ '' (ingested '' @ en_day env (src_ingested_at src) @ '')'' @ nl)"

definition article_path :: "env \<Rightarrow> compilation_result \<Rightarrow> string \<Rightarrow> string" where
  "article_path env r slug =
     slugify env (case cr_concepts r of [] \<Rightarrow> ''general'' | c # _ \<Rightarrow> c) @ ''/'' @ slug @ ''.md''"

definition write_article_file ::
  "env \<Rightarrow> compilation_result \<Rightarrow> source \<Rightarrow> string \<Rightarrow> resolved_backlink list \<Rightarrow> string list \<Rightarrow> compiler \<Rightarrow> unit act" where
  "write_article_file env r src slug resolved unresolved co =
     fileS (wiki_write (en_data_dir env) (src_user_id src) (article_path env r slug) (article_content env r src slug resolved unresolved co))"

section \<open>Rows of an article\<close>

definition find_article_for_source_and_provider :: "string \<Rightarrow> provider option \<Rightarrow> db \<Rightarrow> article option" where
  "find_article_for_source_and_provider source_id p d =
     (if p = None then None
      else find (\<lambda>a. art_provider a = p)
             (select (\<lambda>a. list_ex (\<lambda>x. as_article_id x = art_id a \<and> as_source_id x = source_id) (article_sources d)) (articles d)))"

definition apply_article_fields :: "env \<Rightarrow> compilation_result \<Rightarrow> string \<Rightarrow> source \<Rightarrow> compiler \<Rightarrow> article \<Rightarrow> article" where
  "apply_article_fields env r relative_path src co a =
     a\<lparr>art_title := cr_title r, art_summary := Some (cr_summary r), art_confidence := Some (overall_confidence r),
       art_file_path := relative_path, art_concept_ids := Some (dump_strings env (cr_concepts r)), art_page_type := SOURCE,
       art_updated_at := en_now env, art_user_id := src_user_id src, art_compiled_at := Some (en_now env),
       art_compilation_duration_ms := co_duration co, art_compilation_tokens := co_tokens co\<rparr>"

definition new_source_article ::
  "env \<Rightarrow> string \<Rightarrow> string \<Rightarrow> string \<Rightarrow> compilation_result \<Rightarrow> string \<Rightarrow> source \<Rightarrow> provider option \<Rightarrow> compiler \<Rightarrow> article" where
  "new_source_article env aid user_id slug r relative_path src p co =
     (new_article aid user_id slug (cr_title r) relative_path (en_now env))
       \<lparr>art_confidence := Some (overall_confidence r), art_summary := Some (cr_summary r),
        art_source_ids := Some (dump_strings env [src_id src]), art_concept_ids := Some (dump_strings env (cr_concepts r)),
        art_provider := p, art_page_type := SOURCE, art_compiled_at := Some (en_now env),
        art_compilation_duration_ms := co_duration co, art_compilation_tokens := co_tokens co\<rparr>"

definition clear_article_relations :: "string \<Rightarrow> world \<Rightarrow> world" where
  "clear_article_relations aid w =
     w\<lparr>w_claims := delete_where (\<lambda>c. cc_article_id c = aid) (w_claims w),
       w_db := (w_db w)\<lparr>backlinks := delete_where (\<lambda>b. bl_source_article_id b = aid) (backlinks (w_db w)),
         article_concepts := delete_where (\<lambda>x. ac_article_id x = aid) (article_concepts (w_db w)),
         article_sources := delete_where (\<lambda>x. as_article_id x = aid) (article_sources (w_db w))\<rparr>\<rparr>"

definition mark_compiled :: "env \<Rightarrow> string \<Rightarrow> db \<Rightarrow> db" where
  "mark_compiled env sid d =
     d\<lparr>sources := update_where (\<lambda>x. src_id x = sid) (\<lambda>x. x\<lparr>src_status := COMPILED, src_compiled_at := Some (en_now env)\<rparr>) (sources d)\<rparr>"

definition join_rows :: "string \<Rightarrow> string \<Rightarrow> string list \<Rightarrow> db \<Rightarrow> db" where
  "join_rows aid sid concept_names d =
     d\<lparr>article_sources := article_sources d @ [\<lparr>as_article_id = aid, as_source_id = sid\<rparr>],
       article_concepts := article_concepts d @ map (\<lambda>n. \<lparr>ac_article_id = aid, ac_concept_name = n\<rparr>) concept_names\<rparr>"

section \<open>Links, claims and confidence\<close>

definition relation_or_references :: "string \<Rightarrow> relation_type" where
  "relation_or_references s = (case relation_type_of (JStr s) of Some r \<Rightarrow> r | None \<Rightarrow> REFERENCES)"

definition persist_resolved_backlinks :: "string \<Rightarrow> resolved_backlink list \<Rightarrow> string \<Rightarrow> unit act" where
  "persist_resolved_backlinks source_article_id resolved user_id =
     bindS (put_backlinks (map (\<lambda>rb. new_backlink source_article_id (rb_target_id rb) user_id (rb_candidate_text rb)
                                  (relation_or_references (rb_relation_type rb))) resolved)) (\<lambda>_. commitS)"

definition valid_spans :: "source_span list \<Rightarrow> string list \<Rightarrow> string list" where
  "valid_spans spans ids = filter (\<lambda>i. i \<in> set (map sp_id spans)) ids"

definition claim_row :: "env \<Rightarrow> string \<Rightarrow> string \<Rightarrow> source \<Rightarrow> source_span list \<Rightarrow> string \<Rightarrow> claim_dto \<Rightarrow> compiled_claim" where
  "claim_row env article_id user_id src spans cid dto =
     (let claim_source_ids = (if cm_source_ids dto = [] then [src_id src] else cm_source_ids dto);
          level = confidence_level_value (cm_confidence dto)
      in \<lparr>cc_id = cid, cc_article_id = article_id, cc_user_id = user_id, cc_text = cm_claim dto,
          cc_subjects = dump_strings env (cm_subjects dto), cc_predicate = cm_predicate dto, cc_confidence_level = level,
          cc_confidence_score = compute_claim_confidence level (int (length claim_source_ids)),
          cc_source_ids = dump_strings env claim_source_ids, cc_last_reinforced_at = en_now env, cc_quote = cm_quote dto,
          cc_embedding = None, cc_embedding_version = None,
          cc_source_span_ids = dump_strings env (valid_spans spans (cm_source_span_ids dto)),
          cc_cluster_assignment_reconciled = False, cc_created_at = en_now env, cc_updated_at = en_now env\<rparr>)"

definition add_claim :: "env \<Rightarrow> string \<Rightarrow> string \<Rightarrow> source \<Rightarrow> source_span list \<Rightarrow> claim_dto \<Rightarrow> unit \<Rightarrow> unit act" where
  "add_claim env article_id user_id src spans dto u =
     bindS (freshS (en_uuid env)) (\<lambda>cid.
       putS (\<lambda>w. w\<lparr>w_claims := w_claims w @ [claim_row env article_id user_id src spans cid dto]\<rparr>))"

definition persist_claims :: "env \<Rightarrow> string \<Rightarrow> string \<Rightarrow> compilation_result \<Rightarrow> source \<Rightarrow> source_span list \<Rightarrow> unit act" where
  "persist_claims env article_id user_id r src spans =
     bindS (foldS (add_claim env article_id user_id src spans) (cr_key_claims r) ()) (\<lambda>_. commitS)"

definition sources_of :: "string \<Rightarrow> db \<Rightarrow> source list" where
  "sources_of aid d =
     select (\<lambda>x. list_ex (\<lambda>j. as_source_id j = src_id x \<and> as_article_id j = aid) (article_sources d)) (sources d)"

definition article_confidence :: "env \<Rightarrow> string \<Rightarrow> world \<Rightarrow> rat" where
  "article_confidence env aid w =
     (let srcs = sources_of aid (w_db w);
          newest_age_days = (if srcs = [] then 0 else max 0 ((en_now env - Max (set (map src_ingested_at srcs))) div day_us));
          contradiction_count = length (select (\<lambda>b. bl_target_article_id b = aid \<and> bl_relation_type b = CONTRADICTS) (backlinks (w_db w)));
          scores = map cc_confidence_score (select (\<lambda>c. cc_article_id c = aid) (w_claims w))
      in if scores \<noteq> [] then aggregate_claim_confidence scores
         else compute_confidence (int (length srcs)) newest_age_days (int contradiction_count))"

definition refresh_article :: "env \<Rightarrow> string \<Rightarrow> world \<Rightarrow> article \<Rightarrow> article" where
  "refresh_article env aid w a =
     a\<lparr>art_source_newest_at := (case sources_of aid (w_db w) of [] \<Rightarrow> art_source_newest_at a
          | srcs \<Rightarrow> Some (Max (set (map src_ingested_at srcs)))),
       art_confidence_score := article_confidence env aid w, art_last_reinforced_at := Some (en_now env)\<rparr>"

definition refresh_confidence_score :: "env \<Rightarrow> string \<Rightarrow> string \<Rightarrow> unit act" where
  "refresh_confidence_score env aid user_id =
     bindS (getS id) (\<lambda>w.
     bindS (freshS (en_uuid env)) (\<lambda>eid.
     bindS (putS (\<lambda>w. w\<lparr>w_db := (w_db w)\<lparr>articles := update_where (\<lambda>a. art_id a = aid) (refresh_article env aid w) (articles (w_db w))\<rparr>,
        w_events := w_events w @ [\<lparr>re_id = eid, re_article_id = aid, re_event_type = ''recompile'', re_occurred_at = en_now env,
          re_source_id = None, re_user_id = user_id\<rparr>]\<rparr>)) (\<lambda>_. commitS)))"

section \<open>After the save\<close>

definition upsert_conceptsS :: "env \<Rightarrow> string list \<Rightarrow> string \<Rightarrow> unit act" where
  "upsert_conceptsS env names user_id =
     bindS (getS id) (\<lambda>w.
     bindS (liftS (upsert_concepts (slugify env) (\<lambda>k. en_uuid env (w_uuids w + k)) (en_now env) names user_id (w_db w))) (\<lambda>(d, cs).
     bindS (putS (\<lambda>w. w\<lparr>w_db := (w_db w)\<lparr>concepts := concepts d\<rparr>, w_uuids := w_uuids w + length (concepts d)\<rparr>)) (\<lambda>_.
       if names = [] then returnS () else commitS)))"

definition taxonomy_request :: "env \<Rightarrow> string list \<Rightarrow> completion_request" where
  "taxonomy_request env names =
     compile_request env (en_taxonomy_prompt env (en_max_hierarchy_depth env, join_lines (map (\<lambda>n. ''- '' @ n) names)))
       ''Organize these concepts.'' 4096 (fl (2 / 10)) T_INDEX"

definition rebuild_taxonomyS :: "env \<Rightarrow> string \<Rightarrow> unit act" where
  "rebuild_taxonomyS env user_id =
     bindS (getS (\<lambda>w. map con_name (select (\<lambda>c. con_user_id c = user_id) (concepts (w_db w))))) (\<lambda>names.
       if names = [] then returnS ()
       else
         bindS (llmS env True (taxonomy_request env names) user_id) (\<lambda>response.
         bindS (liftS (parse_json_response (en_loads env) (rs_content response))) (\<lambda>hierarchy.
         bindS (getS (\<lambda>w. rebuild_taxonomy (en_max_hierarchy_depth env) (ok (Some hierarchy)) user_id (w_db w))) (\<lambda>rebuilt.
         bindS (liftS rebuilt) (\<lambda>d.
         bindS (putS (on_db (\<lambda>d'. d'\<lparr>concepts := concepts d\<rparr>))) (\<lambda>_. commitS))))))"

definition maybe_trigger_rebuildS :: "env \<Rightarrow> string \<Rightarrow> unit act" where
  "maybe_trigger_rebuildS env user_id =
     bindS (getS (\<lambda>w. length (select (\<lambda>c. con_parent_id c = None \<and> con_user_id c = user_id) (concepts (w_db w))))) (\<lambda>unparented.
       if unparented \<ge> en_rebuild_threshold env then rebuild_taxonomyS env user_id else returnS ())"

definition update_taxonomy :: "env \<Rightarrow> string list \<Rightarrow> string \<Rightarrow> unit act" where
  "update_taxonomy env names user_id =
     bindS (upsert_conceptsS env names user_id) (\<lambda>_.
     bindS (putS (on_db (update_article_counts (slugify env) user_id))) (\<lambda>_.
     bindS commitS (\<lambda>_.
     bindS (maybe_trigger_rebuildS env user_id) (\<lambda>_.
     bindS (nestedS (maybe_trigger_concept_pages env user_id)) (\<lambda>_. returnS ())))))"

fun is_os_error :: "exc \<Rightarrow> bool" where
  "is_os_error (OSError _) = True"
| "is_os_error _ = False"

text \<open>\<open>try: m except p: log\<close>.\<close>

definition logS :: "(exc \<Rightarrow> bool) \<Rightarrow> unit act \<Rightarrow> unit act" where
  "logS p m = tryS m (\<lambda>e. if p e then returnS () else raiseS e)"

definition regenerate_indexS :: "env \<Rightarrow> string \<Rightarrow> unit act" where
  "regenerate_indexS env user_id = bindS (getS w_db) (\<lambda>d. fileS (\<lambda>_. regenerate_index_md env user_id d))"

definition post_save_side_effects :: "env \<Rightarrow> string \<Rightarrow> compilation_result \<Rightarrow> string \<Rightarrow> string \<Rightarrow> unit act" where
  "post_save_side_effects env slug r source_id user_id =
     bindS (logS is_page_error (update_taxonomy env (cr_concepts r) user_id)) (\<lambda>_.
     bindS (logS is_os_error (fileS (append_log_entry env ''compile'' (cr_title r) user_id
        [(''source_id'', source_id), (''article_slug'', slug)]))) (\<lambda>_.
       logS (\<lambda>e. is_os_error e \<or> is_sqlalchemy_error e) (regenerate_indexS env user_id)))"

section \<open>Saving an article\<close>

text \<open>\<open>str(root) + "/"\<close>, and the legacy file path without it.\<close>

definition root_prefix :: "env \<Rightarrow> string \<Rightarrow> string" where
  "root_prefix env user_id = concat (map (\<lambda>c. ''/'' @ c) (Storage.get_wiki_storage (en_data_dir env) user_id)) @ ''/''"

definition removeprefix :: "string \<Rightarrow> string \<Rightarrow> string" where
  "removeprefix p s = (if take (length p) s = p then drop (length p) s else s)"

definition choose_slug :: "env \<Rightarrow> string \<Rightarrow> string \<Rightarrow> article option \<Rightarrow> db \<Rightarrow> string result" where
  "choose_slug env user_id title existing d =
     (case existing of
        Some ex \<Rightarrow> ok (art_slug ex)
      | None \<Rightarrow> generate_unique_slug (\<lambda>t n. en_slugify env t (Some n)) title d user_id [] 80 (en_slug_max_attempts env))"

text \<open>The file and the row of the article, the source marked as compiled, and the commit of both.\<close>

definition put_article ::
  "env \<Rightarrow> string \<Rightarrow> compiler \<Rightarrow> compilation_result \<Rightarrow> source \<Rightarrow> provider option \<Rightarrow> article option \<Rightarrow> string \<Rightarrow> string act" where
  "put_article env user_id co r src p existing slug =
     (let path = article_path env r slug
      in case existing of
           Some ex \<Rightarrow>
             (let old = removeprefix (root_prefix env user_id) (art_file_path ex)
              in bindS (if old \<noteq> path then fileS (wiki_delete (en_data_dir env) user_id old) else returnS ()) (\<lambda>_.
                 bindS (putS (\<lambda>w. clear_article_relations (art_id ex)
                    (on_db (\<lambda>d. d\<lparr>articles := update_where (\<lambda>a. art_id a = art_id ex) (apply_article_fields env r path src co) (articles d)\<rparr>) w))) (\<lambda>_.
                 bindS (putS (on_db (mark_compiled env (src_id src)))) (\<lambda>_.
                 bindS commitS (\<lambda>_. returnS (art_id ex))))))
         | None \<Rightarrow>
             bindS (freshS (en_uuid env)) (\<lambda>aid.
             bindS (putS (on_db (\<lambda>d. d\<lparr>articles := articles d @ [new_source_article env aid user_id slug r path src p co]\<rparr>))) (\<lambda>_.
             bindS (putS (on_db (mark_compiled env (src_id src)))) (\<lambda>_.
             bindS commitS (\<lambda>_. returnS aid)))))"

text \<open>Everything the save does to the article itself.\<close>

definition save_core ::
  "env \<Rightarrow> string \<Rightarrow> compiler \<Rightarrow> compilation_result \<Rightarrow> source \<Rightarrow> provider option \<Rightarrow> article option \<Rightarrow> (string \<times> string) act" where
  "save_core env user_id co r src p existing =
     bindS (getS w_db) (\<lambda>d.
     bindS (liftS (choose_slug env user_id (cr_title r) existing d)) (\<lambda>slug.
       let (resolved, unresolved) =
             resolve_backlink_candidates (cr_backlink_suggestions r) d user_id (map_option art_id existing) (co_typed co)
       in bindS (write_article_file env r src slug resolved unresolved co) (\<lambda>_.
          bindS (put_article env user_id co r src p existing slug) (\<lambda>aid.
          bindS (putS (on_db (join_rows aid (src_id src) (cr_concepts r)))) (\<lambda>_.
          bindS commitS (\<lambda>_.
          bindS (index_article_file env user_id aid (cr_title r) (article_path env r slug)) (\<lambda>_.
          bindS (persist_resolved_backlinks aid resolved user_id) (\<lambda>_.
          bindS (persist_claims env aid user_id r src (co_spans co)) (\<lambda>_.
          bindS (refresh_confidence_score env aid user_id) (\<lambda>_.
            returnS (aid, slug)))))))))))"

definition upsert_article ::
  "env \<Rightarrow> string \<Rightarrow> compiler \<Rightarrow> compilation_result \<Rightarrow> source \<Rightarrow> provider option \<Rightarrow> article option \<Rightarrow> string act" where
  "upsert_article env user_id co r src p existing =
     bindS (save_core env user_id co r src p existing) (\<lambda>(aid, slug).
     bindS (post_save_side_effects env slug r (src_id src) user_id) (\<lambda>_. returnS aid))"

definition save_article :: "env \<Rightarrow> string \<Rightarrow> compiler \<Rightarrow> compilation_result \<Rightarrow> source \<Rightarrow> string act" where
  "save_article env user_id co r src =
     bindS (getS (\<lambda>w. find_article_for_source_and_provider (src_id src) (co_provider co) (w_db w))) (\<lambda>existing.
       upsert_article env user_id co r src (co_provider co) existing)"

definition save_article_in_place :: "env \<Rightarrow> string \<Rightarrow> compiler \<Rightarrow> article \<Rightarrow> compilation_result \<Rightarrow> source \<Rightarrow> string act" where
  "save_article_in_place env user_id co existing r src =
     upsert_article env user_id co r src (art_provider existing) (Some existing)"

section \<open>What a save leaves alone\<close>

context durable
begin

lemma keeps_upsert_concepts: "fr.keeps (upsert_conceptsS env names uid)"
  unfolding upsert_conceptsS_def by (intro rules) (simp add: rest_def)

lemma keeps_rebuild: "fr.keeps (maybe_trigger_rebuildS env uid)"
  unfolding maybe_trigger_rebuildS_def rebuild_taxonomyS_def by (intro rules) (simp add: rest_def on_db_def)

lemma keeps_side_effects: "fr.keeps (post_save_side_effects env slug r sid uid)"
  unfolding post_save_side_effects_def logS_def update_taxonomy_def regenerate_indexS_def
  by (intro rules keeps_upsert_concepts keeps_rebuild keeps_concept_pages)
    (simp add: rest_def on_db_def update_article_counts_def Let_def)

end

interpretation claims: durable w_claims
  by unfold_locales (simp add: rest_def)

interpretation events: durable w_events
  by unfold_locales (simp add: rest_def)

interpretation sources: durable "\<lambda>w. sources (w_db w)"
  by unfold_locales (simp add: rest_def)

interpretation jobs: durable "\<lambda>w. jobs (w_db w)"
  by unfold_locales (simp add: rest_def)

interpretation drafts: durable "\<lambda>w. compilation_drafts (w_db w)"
  by unfold_locales (simp add: rest_def)

section \<open>The claims of a saved article\<close>

lemma leaves_claims_steps:
  "leaves w_claims (write_article_file env r src slug resolved unresolved co)"
  "leaves w_claims (index_article_file env uid aid title path)"
  "leaves w_claims (persist_resolved_backlinks aid resolved uid)"
  "leaves w_claims (refresh_confidence_score env aid uid)"
  unfolding write_article_file_def index_article_file_def index_rows_def persist_resolved_backlinks_def
    put_backlinks_def refresh_confidence_score_def
  by (intro leaves_intro leaves_file_or_empty; simp add: on_db_def)+

lemma add_claims_rows:
  "foldS (add_claim env aid uid src spans) dtos () s = (t, ok ()) \<Longrightarrow>
   \<exists>rows. w_claims (se_cur t) = w_claims (se_cur s) @ rows \<and>
     list_all2 (\<lambda>c dto. c = claim_row env aid uid src spans (cc_id c) dto) rows dtos"
proof (induction dtos arbitrary: s)
  case (Cons dto dtos)
  then obtain s1 where s1: "add_claim env aid uid src spans dto () s = (s1, ok ())"
    and rest: "foldS (add_claim env aid uid src spans) dtos () s1 = (t, ok ())"
    by (auto simp: bindS_ok)
  from s1 obtain cid where one: "w_claims (se_cur s1) = w_claims (se_cur s) @ [claim_row env aid uid src spans cid dto]"
    by (auto simp: add_claim_def act_ok)
  from Cons.IH [OF rest] obtain rows where "w_claims (se_cur t) = w_claims (se_cur s1) @ rows"
    "list_all2 (\<lambda>c dto. c = claim_row env aid uid src spans (cc_id c) dto) rows dtos" by blast
  with one show ?case
    by (intro exI [of _ "claim_row env aid uid src spans cid dto # rows"]) (simp add: claim_row_def Let_def)
qed (simp add: returnS_def)

lemma claim_row_article [simp]: "cc_article_id (claim_row env aid uid src spans cid dto) = aid"
  by (simp add: claim_row_def Let_def)

lemma claim_rows_article:
  "list_all2 (\<lambda>c dto. c = claim_row env aid uid src spans (cc_id c) dto) rows dtos \<Longrightarrow> c \<in> set rows \<Longrightarrow> cc_article_id c = aid"
  by (auto simp: list_all2_conv_all_nth in_set_conv_nth) (metis claim_row_article)

text \<open>The claims after the row of the article is in place.\<close>

lemma put_article_claims:
  assumes "put_article env uid co r src p existing slug s = (t, ok aid)"
    and "list_all (\<lambda>c. cc_article_id c \<in> set (map art_id (articles (w_db (se_cur s))))) (w_claims (se_cur s))"
  shows "w_claims (se_cur t) = select (\<lambda>c. cc_article_id c \<noteq> aid) (w_claims (se_cur s))"
proof (cases existing)
  case (Some ex)
  have deleted: "w_claims (se_cur u) = w_claims (se_cur s)"
    if "(if b then fileS (wiki_delete dd uid old) else returnS ()) s = (u, ok ())" for b dd old u
    using that by (auto simp: fileS_ok on_db_def split: if_splits)
  from assms(1) Some show ?thesis
    by (auto simp: put_article_def Let_def act_ok clear_article_relations_def on_db_def select_def delete_where_def dest!: deleted split: if_splits)
next
  case None
  with assms(1) have e: "constraints_ok (se_cur t)" "w_claims (se_cur t) = w_claims (se_cur s)"
    "articles (w_db (se_cur t)) = articles (w_db (se_cur s)) @ [new_source_article env aid uid slug r (article_path env r slug) src p co]"
    by (auto simp: put_article_def Let_def act_ok on_db_def mark_compiled_def)
  then have "aid \<notin> art_id ` set (articles (w_db (se_cur s)))"
    by (simp add: constraints_ok_def unique_ok_def new_source_article_def new_article_def)
  with assms(2) e(2) show ?thesis
    by (auto simp: select_def list_all_iff intro!: filter_id_all [symmetric])
qed

lemma save_core_steps:
  assumes "save_core env uid co r src p existing s = (t, ok (aid, slug))"
  obtains resolved unresolved s1 s2 s4 s5 s6 where "\<not> se_broken s"
    and "choose_slug env uid (cr_title r) existing (w_db (se_cur s)) = ok slug"
    and "resolve_backlink_candidates (cr_backlink_suggestions r) (w_db (se_cur s)) uid (map_option art_id existing) (co_typed co) = (resolved, unresolved)"
    and "write_article_file env r src slug resolved unresolved co s = (s1, ok ())"
    and "put_article env uid co r src p existing slug s1 = (s2, ok aid)"
    and "constraints_ok (on_db (join_rows aid (src_id src) (cr_concepts r)) (se_cur s2))"
    and "index_article_file env uid aid (cr_title r) (article_path env r slug)
      (s2\<lparr>se_cur := on_db (join_rows aid (src_id src) (cr_concepts r)) (se_cur s2),
          se_saved := on_db (join_rows aid (src_id src) (cr_concepts r)) (se_cur s2)\<rparr>) = (s4, ok ())"
    and "persist_resolved_backlinks aid resolved uid s4 = (s5, ok ())"
    and "persist_claims env aid uid r src (co_spans co) s5 = (s6, ok ())"
    and "refresh_confidence_score env aid uid s6 = (t, ok ())"
proof -
  obtain resolved unresolved where rb: "resolve_backlink_candidates (cr_backlink_suggestions r) (w_db (se_cur s)) uid
      (map_option art_id existing) (co_typed co) = (resolved, unresolved)" by (rule prod.exhaust)
  with assms show thesis
    by (simp add: save_core_def Let_def act_ok) (elim exE conjE, rule that, (assumption | simp)+)
qed

lemma refresh_saved: "refresh_confidence_score env aid uid s = (t, ok ()) \<Longrightarrow> se_saved t = se_cur t"
  by (auto simp: refresh_confidence_score_def act_ok)

lemma save_core_claims:
  assumes "save_core env uid co r src p existing s = (t, ok (aid, slug))"
    and "list_all (\<lambda>c. cc_article_id c \<in> set (map art_id (articles (w_db (se_cur s))))) (w_claims (se_cur s))"
  shows "se_saved t = se_cur t" and "select (\<lambda>c. cc_article_id c \<noteq> aid) (w_claims (se_cur t)) = select (\<lambda>c. cc_article_id c \<noteq> aid) (w_claims (se_cur s))"
    and "list_all2 (\<lambda>c dto. c = claim_row env aid uid src (co_spans co) (cc_id c) dto)
           (select (\<lambda>c. cc_article_id c = aid) (w_claims (se_cur t))) (cr_key_claims r)"
proof -
  from save_core_steps [OF assms(1)] obtain resolved unresolved s1 s2 s4 s5 s6 where steps:
    "write_article_file env r src slug resolved unresolved co s = (s1, ok ())"
    "put_article env uid co r src p existing slug s1 = (s2, ok aid)"
    "index_article_file env uid aid (cr_title r) (article_path env r slug)
      (s2\<lparr>se_cur := on_db (join_rows aid (src_id src) (cr_concepts r)) (se_cur s2),
          se_saved := on_db (join_rows aid (src_id src) (cr_concepts r)) (se_cur s2)\<rparr>) = (s4, ok ())"
    "persist_resolved_backlinks aid resolved uid s4 = (s5, ok ())"
    "persist_claims env aid uid r src (co_spans co) s5 = (s6, ok ())"
    "refresh_confidence_score env aid uid s6 = (t, ok ())"
    by metis
  show "se_saved t = se_cur t" by (rule refresh_saved [OF steps(6)])
  have arts: "articles (w_db (se_cur s1)) = articles (w_db (se_cur s))"
    using steps(1) by (auto simp: write_article_file_def fileS_ok on_db_def)
  have c1: "w_claims (se_cur s1) = w_claims (se_cur s)" by (rule leavesD [OF leaves_claims_steps(1) steps(1)])
  have c2: "w_claims (se_cur s2) = select (\<lambda>c. cc_article_id c \<noteq> aid) (w_claims (se_cur s))"
    using put_article_claims [OF steps(2)] assms(2) by (simp add: arts c1)
  have c5: "w_claims (se_cur s5) = w_claims (se_cur s2)"
    using leavesD [OF leaves_claims_steps(2) steps(3)] leavesD [OF leaves_claims_steps(3) steps(4)] by (simp add: on_db_def join_rows_def)
  from steps(5) obtain rows where rows: "w_claims (se_cur s6) = w_claims (se_cur s5) @ rows"
    "list_all2 (\<lambda>c dto. c = claim_row env aid uid src (co_spans co) (cc_id c) dto) rows (cr_key_claims r)"
    by (auto simp: persist_claims_def act_ok dest!: add_claims_rows)
  have ct: "w_claims (se_cur t) = select (\<lambda>c. cc_article_id c \<noteq> aid) (w_claims (se_cur s)) @ rows"
    using leavesD [OF leaves_claims_steps(4) steps(6)] by (simp add: rows(1) c5 c2)
  have mine: "select (\<lambda>c. cc_article_id c = aid) rows = rows" "select (\<lambda>c. cc_article_id c \<noteq> aid) rows = []"
    using claim_rows_article [OF rows(2)] by (auto simp: select_def filter_empty_conv intro!: filter_id_all)
  show "select (\<lambda>c. cc_article_id c \<noteq> aid) (w_claims (se_cur t)) = select (\<lambda>c. cc_article_id c \<noteq> aid) (w_claims (se_cur s))"
    by (simp add: ct mine select_select)
  have "select (\<lambda>c. cc_article_id c = aid) (w_claims (se_cur t)) = rows"
    by (simp add: ct mine select_select select_empty_iff)
  with rows(2) show "list_all2 (\<lambda>c dto. c = claim_row env aid uid src (co_spans co) (cc_id c) dto)
      (select (\<lambda>c. cc_article_id c = aid) (w_claims (se_cur t))) (cr_key_claims r)" by simp
qed

section \<open>What compiling reads and sets\<close>

lemma none_on_ok: "none_on p r = ok (Some x) \<longleftrightarrow> r = ok x"
  by (auto simp: none_on_def split: sum.splits)

lemma leaves_ask: "leaves (\<lambda>w. source_spans (w_db w)) (ask env uid system prompt co)"
  unfolding ask_def Let_def by (intro leaves_intro) (auto intro!: leaves_intro split: option.split)

lemma ask_ok:
  assumes "ask env uid system prompt co s = (t, ok (res, co'))"
  shows "co_spans co' = co_spans co" and "\<exists>p. co_provider co' = Some p"
    and "res = Some r \<Longrightarrow> cr_page_type r = SOURCE \<and> cr_provider r = co_provider co' \<and> cr_compiled r = Some (en_now env)"
  using assms
  by (auto simp: ask_def Let_def act_ok read_result_def none_on_ok bindR_eq_Inr split: option.splits prod.splits)

lemma compile_small_ok:
  assumes "compile_small env uid doc co s = (t, ok (res, co'))"
  shows "co_spans co' = spans_for uid doc (w_db (se_cur s))" and "source_spans (w_db (se_cur t)) = source_spans (w_db (se_cur s))"
    and "\<exists>p. co_provider co' = Some p"
    and "res = Some r \<Longrightarrow> cr_page_type r = SOURCE \<and> cr_provider r = co_provider co' \<and> cr_compiled r = Some (en_now env)"
  using assms ask_ok leavesD [OF leaves_ask]
  by (fastforce simp: compile_small_def Let_def act_ok)+

lemma spans_for_same: "source_spans d = source_spans d' \<Longrightarrow> nd_raw_source_id doc = nd_raw_source_id doc' \<Longrightarrow> spans_for uid doc d = spans_for uid doc' d'"
  by (simp add: spans_for_def load_source_spans_def)

lemma compile_chunks_ok:
  assumes "foldS (compile_chunk env uid doc) cs ([], co) s = (t, ok (results, co'))"
  shows "source_spans (w_db (se_cur t)) = source_spans (w_db (se_cur s)) \<and>
    (results \<noteq> [] \<longrightarrow> co_spans co' = spans_for uid doc (w_db (se_cur s)) \<and> (\<exists>p. co_provider co' = Some p))"
proof -
  have "(\<lambda>ys u acc. source_spans (w_db (se_cur u)) = source_spans (w_db (se_cur s)) \<and>
      (fst acc \<noteq> [] \<longrightarrow> co_spans (snd acc) = spans_for uid doc (w_db (se_cur s)) \<and> (\<exists>p. co_provider (snd acc) = Some p))) cs t (results, co')"
  proof (rule foldS_inv [OF assms])
    fix ys x acc u u' acc'
    assume inv: "source_spans (w_db (se_cur u)) = source_spans (w_db (se_cur s)) \<and>
      (fst acc \<noteq> [] \<longrightarrow> co_spans (snd acc) = spans_for uid doc (w_db (se_cur s)) \<and> (\<exists>p. co_provider (snd acc) = Some p))"
      and turn: "compile_chunk env uid doc x acc u = (u', ok acc')"
    obtain i chunk results co where x: "x = (i, chunk)" "acc = (results, co)" by (metis prod.exhaust)
    let ?doc = "chunk_doc doc i chunk"
    show "source_spans (w_db (se_cur u')) = source_spans (w_db (se_cur s)) \<and>
      (fst acc' \<noteq> [] \<longrightarrow> co_spans (snd acc') = spans_for uid doc (w_db (se_cur s)) \<and> (\<exists>p. co_provider (snd acc') = Some p))"
    proof (cases "nd_estimated_tokens ?doc > 80000")
      case True
      with turn inv x show ?thesis by (auto simp: compile_chunk_def Let_def)
    next
      case False
      with turn x obtain r co' where small: "compile_small env uid ?doc co u = (u', ok (r, co'))" and acc': "snd acc' = co'"
        by (auto simp: compile_chunk_def Let_def bindS_ok split: option.splits)
      have "spans_for uid ?doc (w_db (se_cur u)) = spans_for uid doc (w_db (se_cur s))"
        using inv by (intro spans_for_same) (auto simp: chunk_doc_def)
      with compile_small_ok(1,2,3) [OF small] inv acc' show ?thesis by simp
    qed
  qed simp
  then show ?thesis by simp
qed

lemma compile_ok:
  assumes "compile env uid doc co s = (t, ok (Some r, co'))"
  shows "co_spans co' = spans_for uid doc (w_db (se_cur s))" and "\<exists>p. co_provider co' = Some p" and "cr_page_type r = SOURCE"
    and "nd_estimated_tokens doc \<le> 80000 \<Longrightarrow> cr_provider r = co_provider co' \<and> cr_compiled r = Some (en_now env)"
proof -
  have chunked: "co_spans co' = spans_for uid doc (w_db (se_cur s)) \<and> (\<exists>p. co_provider co' = Some p) \<and> cr_page_type r = SOURCE"
    if big: "nd_estimated_tokens doc > 80000"
  proof -
    from assms big obtain results where fold: "foldS (compile_chunk env uid doc) (take 10 (enumerate_list (nd_chunks doc))) ([], co) s = (t, ok (results, co'))"
      and r: "\<exists>x xs. results = x # xs \<and> r = merge_chunk_results (en_set env) (nd_title doc) x xs"
      by (auto simp: compile_def compile_chunked_def bindS_ok neq_Nil_conv split: list.splits)
    with compile_chunks_ok [OF fold] show ?thesis by (auto simp: merge_chunk_results_def Let_def)
  qed
  show "co_spans co' = spans_for uid doc (w_db (se_cur s))" "\<exists>p. co_provider co' = Some p" "cr_page_type r = SOURCE"
    using chunked assms compile_small_ok [of env uid doc co s t "Some r" co']
    by (cases "nd_estimated_tokens doc > 80000"; simp add: compile_def)+
  show "nd_estimated_tokens doc \<le> 80000 \<Longrightarrow> cr_provider r = co_provider co' \<and> cr_compiled r = Some (en_now env)"
    using assms compile_small_ok(4) [of env uid doc co s t "Some r" co'] by (simp add: compile_def)
qed


section \<open>Claims cite spans that exist\<close>

definition known_spans :: "string \<Rightarrow> string \<Rightarrow> db \<Rightarrow> string set" where
  "known_spans uid sid d = sp_id ` {sp \<in> set (source_spans d). sp_source_id sp = sid \<and> sp_user_id sp = uid}"

lemma known_spans_list: "known_spans uid sid d = set (map sp_id (filter (\<lambda>sp. sp_source_id sp = sid \<and> sp_user_id sp = uid) (source_spans d)))"
  by (auto simp: known_spans_def)

lemma valid_spans_load: "valid_spans (load_source_spans uid sid d) ids = filter (\<lambda>i. i \<in> known_spans uid sid d) ids"
proof -
  have "set (map sp_id (load_source_spans uid sid d)) = known_spans uid sid d"
    by (auto simp: known_spans_def load_source_spans_def)
  then show ?thesis by (simp only: valid_spans_def)
qed

lemma save_claims:
  assumes "upsert_article env uid co r src p existing s = (t, ok aid)"
    and "list_all (\<lambda>c. cc_article_id c \<in> set (map art_id (articles (w_db (se_cur s))))) (w_claims (se_cur s))"
  shows "select (\<lambda>c. cc_article_id c \<noteq> aid) (w_claims (se_saved t)) = select (\<lambda>c. cc_article_id c \<noteq> aid) (w_claims (se_cur s))"
    and "list_all2 (\<lambda>c dto. c = claim_row env aid uid src (co_spans co) (cc_id c) dto)
           (select (\<lambda>c. cc_article_id c = aid) (w_claims (se_saved t))) (cr_key_claims r)"
proof -
  from assms(1) obtain u slug where core: "save_core env uid co r src p existing s = (u, ok (aid, slug))"
    and side: "post_save_side_effects env slug r (src_id src) uid u = (t, ok ())"
    by (auto simp: upsert_article_def bindS_ok)
  note c = save_core_claims [OF core assms(2)]
  have "holds_view w_claims u t" by (rule claims.fr.keepsD [OF claims.keeps_side_effects side])
  then have "w_claims (se_saved t) = w_claims (se_cur u)" using c(1) by (simp add: holds_view_def)
  then show "select (\<lambda>c. cc_article_id c \<noteq> aid) (w_claims (se_saved t)) = select (\<lambda>c. cc_article_id c \<noteq> aid) (w_claims (se_cur s))"
    and "list_all2 (\<lambda>c dto. c = claim_row env aid uid src (co_spans co) (cc_id c) dto)
           (select (\<lambda>c. cc_article_id c = aid) (w_claims (se_saved t))) (cr_key_claims r)"
    using c(2,3) by simp_all
qed

text \<open>
  C28. When a source has been compiled and its article saved, the claims of the article are exactly those of the result,
  in their order, each with its text, and each cites exactly those spans of its list that are spans of this source and
  user: a span id the language model invented is never stored. The claims of all other articles are as before. The
  upkeep after the save, whatever it does and however it fails, changes none of this.
\<close>

theorem claims_cite_known_spans:
  assumes "compile env uid doc co0 s = (s1, ok (Some r, co))" and "save_article env uid co r src s1 = (t, ok aid)"
    and "nd_raw_source_id doc = src_id src" and "src_id src \<noteq> []"
    and "list_all (\<lambda>c. cc_article_id c \<in> set (map art_id (articles (w_db (se_cur s1))))) (w_claims (se_cur s1))"
  shows "list_all2 (\<lambda>c dto. cc_text c = cm_claim dto \<and>
      cc_source_span_ids c = dump_strings env (filter (\<lambda>i. i \<in> known_spans uid (src_id src) (w_db (se_cur s))) (cm_source_span_ids dto)))
      (select (\<lambda>c. cc_article_id c = aid) (w_claims (se_saved t))) (cr_key_claims r) \<and>
    select (\<lambda>c. cc_article_id c \<noteq> aid) (w_claims (se_saved t)) = select (\<lambda>c. cc_article_id c \<noteq> aid) (w_claims (se_cur s1))"
proof -
  from assms(2) obtain existing where save: "upsert_article env uid co r src (co_provider co) existing s1 = (t, ok aid)"
    by (auto simp: save_article_def act_ok)
  have "co_spans co = load_source_spans uid (src_id src) (w_db (se_cur s))"
    using compile_ok(1) [OF assms(1)] assms(3,4) by (simp add: spans_for_def)
  with save_claims(2) [OF save assms(5)]
  have "list_all2 (\<lambda>c dto. cc_text c = cm_claim dto \<and>
      cc_source_span_ids c = dump_strings env (filter (\<lambda>i. i \<in> known_spans uid (src_id src) (w_db (se_cur s))) (cm_source_span_ids dto)))
      (select (\<lambda>c. cc_article_id c = aid) (w_claims (se_saved t))) (cr_key_claims r)"
    by (elim list_all2_mono) (simp add: claim_row_def Let_def valid_spans_load, metis (no_types, lifting) compiled_claim.select_convs)
  with save_claims(1) [OF save assms(5)] show ?thesis by blast
qed

section \<open>One article per source and provider\<close>

text \<open>What the lookup of an earlier article depends on.\<close>

definition article_keys :: "world \<Rightarrow> (string \<times> provider option) list \<times> article_source list" where
  "article_keys w = (map (\<lambda>a. (art_id a, art_provider a)) (articles (w_db w)), article_sources (w_db w))"

definition keyed :: "string \<Rightarrow> provider option \<Rightarrow> article_source list \<Rightarrow> string \<times> provider option \<Rightarrow> bool" where
  "keyed sid p rows k \<longleftrightarrow> snd k = p \<and> list_ex (\<lambda>x. as_article_id x = fst k \<and> as_source_id x = sid) rows"

lemma find_keys:
  assumes "p \<noteq> None"
  shows "map_option art_id (find_article_for_source_and_provider sid p d) =
    map_option fst (find (keyed sid p (article_sources d)) (map (\<lambda>a. (art_id a, art_provider a)) (articles d)))"
proof -
  have "map_option art_id (find (\<lambda>a. art_provider a = p) (select (\<lambda>a. list_ex (\<lambda>x. as_article_id x = art_id a \<and> as_source_id x = sid) rows) arts)) =
      map_option fst (find (keyed sid p rows) (map (\<lambda>a. (art_id a, art_provider a)) arts))" for rows arts
    by (induction arts) (auto simp: select_def keyed_def)
  with assms show ?thesis by (cases p) (simp_all add: find_article_for_source_and_provider_def)
qed

lemma leaves_keys_steps:
  "leaves article_keys (write_article_file env r src slug resolved unresolved co)"
  "leaves article_keys (index_article_file env uid aid title path)"
  "leaves article_keys (persist_resolved_backlinks aid resolved uid)"
  "leaves article_keys (persist_claims env aid uid r src spans)"
  "leaves article_keys (refresh_confidence_score env aid uid)"
  unfolding write_article_file_def index_article_file_def index_rows_def persist_resolved_backlinks_def
    put_backlinks_def persist_claims_def add_claim_def refresh_confidence_score_def
  by (intro leaves_intro leaves_file_or_empty; simp add: on_db_def article_keys_def refresh_article_def update_where_def; fail)+

lemma put_article_keys:
  assumes "put_article env uid co r src p existing slug s = (t, ok aid)"
  shows "case existing of
      Some ex \<Rightarrow> aid = art_id ex \<and> article_keys (se_cur t) =
        (fst (article_keys (se_cur s)), delete_where (\<lambda>x. as_article_id x = aid) (snd (article_keys (se_cur s))))
    | None \<Rightarrow> article_keys (se_cur t) = (fst (article_keys (se_cur s)) @ [(aid, p)], snd (article_keys (se_cur s)))"
    and "distinct (map fst (fst (article_keys (se_cur t))))"
proof -
  have deleted: "articles (w_db (se_cur u)) = articles (w_db (se_cur s)) \<and> article_sources (w_db (se_cur u)) = article_sources (w_db (se_cur s))"
    if "(if b then fileS (wiki_delete dd uid old) else returnS ()) s = (u, ok ())" for b dd old u
    using that by (auto simp: fileS_ok on_db_def split: if_splits)
  show "case existing of
      Some ex \<Rightarrow> aid = art_id ex \<and> article_keys (se_cur t) =
        (fst (article_keys (se_cur s)), delete_where (\<lambda>x. as_article_id x = aid) (snd (article_keys (se_cur s))))
    | None \<Rightarrow> article_keys (se_cur t) = (fst (article_keys (se_cur s)) @ [(aid, p)], snd (article_keys (se_cur s)))"
  proof (cases existing)
    case (Some ex)
    with assms show ?thesis
      by (auto simp: put_article_def Let_def act_ok clear_article_relations_def on_db_def article_keys_def mark_compiled_def
            apply_article_fields_def update_where_def dest!: deleted simp del: if_split)
  next
    case None
    with assms show ?thesis
      by (auto simp: put_article_def Let_def act_ok on_db_def article_keys_def mark_compiled_def new_source_article_def new_article_def)
  qed
  have "constraints_ok (se_cur t)" using assms by (auto simp: put_article_def Let_def act_ok split: option.splits)
  then show "distinct (map fst (fst (article_keys (se_cur t))))" by (simp add: constraints_ok_def unique_ok_def article_keys_def comp_def)
qed


section \<open>Concepts named twice\<close>

text \<open>
  A result that names a concept twice cannot be saved: the join table holds a concept once per article, so that the
  commit of the join rows fails, whatever else the result holds.
\<close>

lemma repeated_concept_fails:
  assumes "\<not> distinct (cr_concepts r)"
  shows "snd (save_article env uid co r src s) \<noteq> ok aid"
proof
  assume "snd (save_article env uid co r src s) = ok aid"
  then obtain t where "save_article env uid co r src s = (t, ok aid)" by (metis prod.collapse)
  then obtain existing u slug where core: "save_core env uid co r src (co_provider co) existing s = (u, ok (aid, slug))"
    by (auto simp: save_article_def upsert_article_def act_ok)
  obtain s2 where "constraints_ok (on_db (join_rows aid (src_id src) (cr_concepts r)) (se_cur (s2 :: sess)))"
    by (rule save_core_steps [OF core], blast)
  then have "distinct (map (\<lambda>x. (ac_article_id x, ac_concept_name x)) (map (\<lambda>n. \<lparr>ac_article_id = aid, ac_concept_name = n\<rparr>) (cr_concepts r)))"
    by (simp add: constraints_ok_def unique_ok_def on_db_def join_rows_def)
  then have "distinct (cr_concepts r)" by (simp add: comp_def distinct_map inj_on_def)
  with assms show False by blast
qed

section \<open>Witnesses\<close>

definition ex_doc :: normalized_document where
  "ex_doc = \<lparr>nd_raw_source_id = ''s1'', nd_clean_text = ''X is fast.'', nd_title = ''Notes on X'', nd_author = None,
     nd_published_date = None, nd_estimated_tokens = 3, nd_chunks = []\<rparr>"

text \<open>No concept pages, to keep the run short.\<close>

definition ex_env1 :: env where
  "ex_env1 = ex_env0\<lparr>en_concept_page_min_sources := 9\<rparr>"

definition ex_compiled :: "sess \<times> (compilation_result option \<times> compiler) result" where
  "ex_compiled = compile ex_env1 ''u1'' ex_doc new_compiler (open_session (ex_world0 False ''topic-y''))"

definition ex_saved :: "(sess \<times> string result) option" where
  "ex_saved = (case ex_compiled of
     (s1, Inr (Some r, co)) \<Rightarrow> Some (save_article ex_env1 ''u1'' co r ex_source0 s1) | _ \<Rightarrow> None)"

lemma ex_compiled_ok: "case ex_compiled of (s1, Inr (Some r, co)) \<Rightarrow> w_claims (se_cur s1) = [] | _ \<Rightarrow> False"
  by code_simp

lemma ex_saved_ok: "map_option snd ex_saved = Some (ok ''id2'')"
  by code_simp

lemma ex_run:
  obtains s1 r co t where "compile ex_env1 ''u1'' ex_doc new_compiler (open_session (ex_world0 False ''topic-y'')) = (s1, ok (Some r, co))"
    and "w_claims (se_cur s1) = []" and "save_article ex_env1 ''u1'' co r ex_source0 s1 = (t, ok ''id2'')"
    and "ex_compiled = (s1, ok (Some r, co))" and "ex_saved = Some (t, ok ''id2'')"
proof -
  obtain s1 r co where c: "ex_compiled = (s1, ok (Some r, co))" and w: "w_claims (se_cur s1) = []"
  proof -
    obtain s1 x where x: "ex_compiled = (s1, x)" by (rule prod.exhaust)
    show thesis
    proof (cases x)
      case (Inr y)
      obtain q co where y: "y = (q, co)" by (rule prod.exhaust)
      show thesis using ex_compiled_ok that [of s1 _ co] unfolding x Inr y by (cases q) auto
    qed (use ex_compiled_ok in \<open>unfold x, simp\<close>)
  qed
  obtain t where "save_article ex_env1 ''u1'' co r ex_source0 s1 = (t, ok ''id2'')"
    using ex_saved_ok unfolding ex_saved_def c by (cases "save_article ex_env1 ''u1'' co r ex_source0 s1") simp
  with c w show thesis by (intro that) (simp_all add: ex_compiled_def [symmetric], unfold ex_saved_def c, simp)
qed


theorem claims_cite_known_spans_witness:
  "case ex_saved of
     Some (t, x) \<Rightarrow> map (\<lambda>c. (cc_text c, cc_source_span_ids c)) (select (\<lambda>c. cc_article_id c = ''id2'') (w_claims (se_saved t))) =
       [(''X is fast'', dump_strings ex_env1 [''sp1''])]
   | None \<Rightarrow> False"
proof -
  from ex_run obtain s1 r co t where run: "compile ex_env1 ''u1'' ex_doc new_compiler (open_session (ex_world0 False ''topic-y'')) = (s1, ok (Some r, co))"
    "w_claims (se_cur s1) = []" "save_article ex_env1 ''u1'' co r ex_source0 s1 = (t, ok ''id2'')"
    "ex_compiled = (s1, ok (Some r, co))" "ex_saved = Some (t, ok ''id2'')"
    by metis
  have "case ex_compiled of (s1, Inr (Some r, co)) \<Rightarrow> map (\<lambda>d. (cm_claim d, cm_source_span_ids d)) (cr_key_claims r) = [(''X is fast'', [''sp1'', ''made-up''])] | _ \<Rightarrow> False"
    by code_simp
  then have claims: "map (\<lambda>d. (cm_claim d, cm_source_span_ids d)) (cr_key_claims r) = [(''X is fast'', [''sp1'', ''made-up''])]"
    unfolding run(4) by simp
  have "known_spans ''u1'' (src_id ex_source0) (w_db (se_cur (open_session (ex_world0 False ''topic-y'')))) = {''sp1''}"
    unfolding known_spans_list by code_simp
  moreover have "nd_raw_source_id ex_doc = src_id ex_source0" "src_id ex_source0 \<noteq> []" by (simp_all add: ex_doc_def ex_source0_def)
  ultimately have cited: "list_all2 (\<lambda>c dto. cc_text c = cm_claim dto \<and>
      cc_source_span_ids c = dump_strings ex_env1 (filter (\<lambda>i. i \<in> {''sp1''}) (cm_source_span_ids dto)))
      (select (\<lambda>c. cc_article_id c = ''id2'') (w_claims (se_saved t))) (cr_key_claims r)"
    using claims_cite_known_spans [OF run(1,3)] run(2) by simp
  from claims obtain d where d: "cr_key_claims r = [d]" "cm_claim d = ''X is fast''" "cm_source_span_ids d = [''sp1'', ''made-up'']"
    by (cases "cr_key_claims r") simp_all
  from cited [unfolded d(1)] obtain c where "select (\<lambda>c. cc_article_id c = ''id2'') (w_claims (se_saved t)) = [c]"
    "cc_text c = cm_claim d" "cc_source_span_ids c = dump_strings ex_env1 (filter (\<lambda>i. i \<in> {''sp1''}) (cm_source_span_ids d))"
    unfolding list_all2_Cons2 by blast
  with d show ?thesis unfolding run(5) by simp
qed


lemma repeated_concept_fails_witness:
  "case ex_compiled of
     (s1, Inr (Some r, co)) \<Rightarrow>
       snd (save_article ex_env1 ''u1'' co (r\<lparr>cr_concepts := [''topic-x'', ''topic-x'']\<rparr>) ex_source0 s1) \<noteq> ok ''id2''
   | _ \<Rightarrow> False"
proof -
  from ex_run obtain s1 r co where e: "ex_compiled = (s1, ok (Some r, co))" by metis
  have "\<not> distinct (cr_concepts (r\<lparr>cr_concepts := [''topic-x'', ''topic-x'']\<rparr>))" by simp
  from repeated_concept_fails [OF this] show ?thesis unfolding e by simp
qed

end
