(* ===== verification/Drafts.thy ===== *)
theory Drafts
  imports Compiler Chunking Samples
begin

text \<open>
  Drafts of compiled articles that a user reviews, \<^verbatim>\<open>src/src/wikimind/services/draft.py\<close>: a draft keeps the result
  of a compilation as JSON, and is approved, with or without guidance for another compilation, or rejected. The files
  of the raw sources are read only, and given as an argument. \<open>json.dumps\<close> and \<open>model_dump_json\<close> are both the
  parameter \<open>en_dumps\<close>, and \<open>json.loads\<close> and the parser of \<open>model_validate_json\<close> both \<open>en_loads\<close>.
\<close>

section \<open>The result of a compilation as JSON\<close>

definition opt_json :: "('a \<Rightarrow> json) \<Rightarrow> 'a option \<Rightarrow> json" where
  "opt_json f v = (case v of None \<Rightarrow> JNull | Some x \<Rightarrow> f x)"

definition strs_json :: "string list \<Rightarrow> json" where
  "strs_json xs = JList (map JStr xs)"

definition claim_json :: "claim_dto \<Rightarrow> json" where
  "claim_json c = JObj [(''claim'', JStr (cm_claim c)), (''confidence'', JStr (confidence_level_value (cm_confidence c))),
     (''subjects'', strs_json (cm_subjects c)), (''predicate'', opt_json JStr (cm_predicate c)), (''quote'', opt_json JStr (cm_quote c)),
     (''source_ids'', strs_json (cm_source_ids c)), (''source_span_ids'', strs_json (cm_source_span_ids c))]"

definition result_json :: "env \<Rightarrow> compilation_result \<Rightarrow> json" where
  "result_json env r = JObj [(''title'', JStr (cr_title r)), (''summary'', JStr (cr_summary r)),
     (''key_claims'', JList (map claim_json (cr_key_claims r))), (''concepts'', strs_json (cr_concepts r)),
     (''backlink_suggestions'', strs_json (cr_backlink_suggestions r)), (''open_questions'', strs_json (cr_open_questions r)),
     (''article_body'', JStr (cr_article_body r)), (''page_type'', JStr (page_type_value (cr_page_type r))),
     (''compiled'', opt_json (JStr \<circ> en_iso env) (cr_compiled r)), (''provider'', opt_json (JStr \<circ> provider_value) (cr_provider r))]"

definition model_dump_json :: "env \<Rightarrow> compilation_result \<Rightarrow> string" where
  "model_dump_json env r = en_dumps env (result_json env r)"

definition model_validate_json :: "env \<Rightarrow> string \<Rightarrow> compilation_result result" where
  "model_validate_json env s =
     bindR (en_loads env s) (\<lambda>j. case j of
       JObj kvs \<Rightarrow> parse_compilation_result (en_parse_datetime env) kvs
     | _ \<Rightarrow> invalid ''CompilationResult'')"

section \<open>The document of a source\<close>

text \<open>The chunks of a text; \<open>chunk_text\<close> always returns (theorem \<open>chunk_text_bounded\<close>).\<close>

definition chunks_of :: "string \<Rightarrow> string \<Rightarrow> (string \<times> int) list" where
  "chunks_of content source_id =
     (case chunk_text content source_id 4000 of
        Some cs \<Rightarrow> map (\<lambda>c. (dc_content c, int (dc_token_count c))) cs
      | None \<Rightarrow> [])"

definition source_content :: "path \<Rightarrow> files \<Rightarrow> string \<Rightarrow> source \<Rightarrow> string option result" where
  "source_content data_dir raw user_id src =
     (case src_clean_text src of
        Some c \<Rightarrow> ok (Some c)
      | None \<Rightarrow>
          (case src_file_path src of
             Some (x # p) \<Rightarrow> bindR (storage_read (Storage.get_raw_storage data_dir user_id) (x # p) raw) (\<lambda>c. ok (Some c))
           | _ \<Rightarrow> ok None))"

definition document_of :: "source \<Rightarrow> string \<Rightarrow> normalized_document" where
  "document_of src content =
     \<lparr>nd_raw_source_id = src_id src, nd_clean_text = content,
      nd_title = (case src_title src of Some (x # t) \<Rightarrow> x # t | _ \<Rightarrow> ''Untitled''),
      nd_author = src_author src, nd_published_date = src_published_date src,
      nd_estimated_tokens = int (estimate_tokens content), nd_chunks = chunks_of content (src_id src)\<rparr>"

section \<open>Operations\<close>

definition put_drafts :: "(compilation_draft list \<Rightarrow> compilation_draft list) \<Rightarrow> unit act" where
  "put_drafts f = putS (on_db (\<lambda>d. d\<lparr>compilation_drafts := f (compilation_drafts d)\<rparr>))"

definition put_sources :: "(source list \<Rightarrow> source list) \<Rightarrow> unit act" where
  "put_sources f = putS (on_db (\<lambda>d. d\<lparr>sources := f (sources d)\<rparr>))"

definition new_draft :: "env \<Rightarrow> string \<Rightarrow> source \<Rightarrow> compilation_result \<Rightarrow> string list \<Rightarrow> compilation_draft" where
  "new_draft env did src r takeaways =
     \<lparr>cd_id = did, cd_user_id = src_user_id src, cd_source_id = src_id src, cd_title = cr_title r, cd_summary = cr_summary r,
      cd_key_takeaways = dump_strings env takeaways, cd_draft_result_json = model_dump_json env r, cd_user_guidance = None,
      cd_status = ''pending'', cd_created_at = en_now env, cd_reviewed_at = None\<rparr>"

definition create_draft :: "env \<Rightarrow> source \<Rightarrow> compilation_result \<Rightarrow> string list \<Rightarrow> string act" where
  "create_draft env src r takeaways =
     bindS (freshS (en_uuid env)) (\<lambda>did.
     bindS (put_drafts (\<lambda>rows. rows @ [new_draft env did src r takeaways])) (\<lambda>_.
     bindS (put_sources (update_where (\<lambda>x. src_id x = src_id src) (\<lambda>x. x\<lparr>src_status := REVIEW_PENDING\<rparr>))) (\<lambda>_.
     bindS commitS (\<lambda>_. returnS did))))"

definition find_draft :: "string \<Rightarrow> string \<Rightarrow> compilation_draft list \<Rightarrow> compilation_draft option" where
  "find_draft source_id user_id rows =
     first_of (select (\<lambda>d. cd_source_id d = source_id \<and> cd_user_id d = user_id \<and> cd_status d = ''pending'') rows)"

definition get_draft_for_source :: "string \<Rightarrow> string \<Rightarrow> compilation_draft act" where
  "get_draft_for_source source_id user_id =
     bindS (getS (\<lambda>w. find_draft source_id user_id (compilation_drafts (w_db w)))) (\<lambda>d.
       case d of None \<Rightarrow> raiseS (NotFoundError ''No pending draft for this source'') | Some x \<Rightarrow> returnS x)"

record draft_response =
  dr_id :: string
  dr_source_id :: string
  dr_title :: string
  dr_summary :: string
  dr_key_takeaways :: "string list"
  dr_draft_body :: string
  dr_status :: string
  dr_created_at :: datetime
  dr_reviewed_at :: "datetime option"

text \<open>A stored result that is not an object has no \<open>get\<close>.\<close>

definition to_response :: "env \<Rightarrow> compilation_draft \<Rightarrow> draft_response result" where
  "to_response env d =
     bindR (en_loads env (cd_key_takeaways d)) (\<lambda>takeaways.
     bindR (en_loads env (cd_draft_result_json d)) (\<lambda>result_data.
     bindR (case result_data of
              JObj kvs \<Rightarrow> ok (case map_of kvs ''article_body'' of Some j \<Rightarrow> j | None \<Rightarrow> JStr [])
            | _ \<Rightarrow> raise (AttributeError ''get'')) (\<lambda>body.
     bindR (parse_strs ''key_takeaways'' takeaways) (\<lambda>ts.
     bindR (parse_str ''draft_body'' body) (\<lambda>b.
       ok \<lparr>dr_id = cd_id d, dr_source_id = cd_source_id d, dr_title = cd_title d, dr_summary = cd_summary d,
           dr_key_takeaways = ts, dr_draft_body = b, dr_status = cd_status d, dr_created_at = cd_created_at d,
           dr_reviewed_at = cd_reviewed_at d\<rparr>)))))"

definition get_source :: "string \<Rightarrow> source act" where
  "get_source source_id =
     bindS (getS (\<lambda>w. get_by src_id source_id (sources (w_db w)))) (\<lambda>src.
       case src of None \<Rightarrow> raiseS (NotFoundError ''Source not found'') | Some x \<Rightarrow> returnS x)"

definition on_draft :: "compilation_draft \<Rightarrow> (compilation_draft \<Rightarrow> compilation_draft) \<Rightarrow> unit act" where
  "on_draft d f = put_drafts (update_where (\<lambda>x. cd_id x = cd_id d) f)"

text \<open>The result to save and the compiler that made it; without guidance a new compiler that has compiled nothing.\<close>

definition guided_result ::
  "env \<Rightarrow> files \<Rightarrow> string \<Rightarrow> compilation_draft \<Rightarrow> source \<Rightarrow> string \<Rightarrow> (compilation_result \<times> compiler) act" where
  "guided_result env raw user_id draft src guidance =
     bindS (on_draft draft (\<lambda>x. x\<lparr>cd_user_guidance := Some guidance\<rparr>)) (\<lambda>_.
     bindS (liftS (source_content (en_data_dir env) raw user_id src)) (\<lambda>content.
       case content of
         None \<Rightarrow> raiseS (NotFoundError ''Source has no content file'')
       | Some c \<Rightarrow>
           bindS (compile_with_guidance env user_id (document_of src c) guidance new_compiler) (\<lambda>(r, co).
             case r of None \<Rightarrow> raiseS (NotFoundError ''Guided compilation failed'') | Some x \<Rightarrow> returnS (x, co))))"

definition draft_result ::
  "env \<Rightarrow> files \<Rightarrow> string \<Rightarrow> compilation_draft \<Rightarrow> source \<Rightarrow> string option \<Rightarrow> (compilation_result \<times> compiler) act" where
  "draft_result env raw user_id draft src guidance =
     (case guidance of
        Some (x # g) \<Rightarrow> guided_result env raw user_id draft src (x # g)
      | _ \<Rightarrow> bindS (liftS (model_validate_json env (cd_draft_result_json draft))) (\<lambda>r. returnS (r, new_compiler)))"

definition review :: "env \<Rightarrow> string \<Rightarrow> compilation_draft \<Rightarrow> compilation_draft" where
  "review env status d = d\<lparr>cd_status := status, cd_reviewed_at := Some (en_now env)\<rparr>"

text \<open>The response names the slug and the title of the article.\<close>

definition approve_draft :: "env \<Rightarrow> files \<Rightarrow> string \<Rightarrow> string \<Rightarrow> string option \<Rightarrow> string act" where
  "approve_draft env raw source_id user_id guidance =
     bindS (get_draft_for_source source_id user_id) (\<lambda>draft.
     bindS (get_source source_id) (\<lambda>src.
     bindS (draft_result env raw user_id draft src guidance) (\<lambda>(r, co).
     bindS (save_article env user_id co r src) (\<lambda>aid.
     bindS (on_draft draft (review env ''approved'')) (\<lambda>_.
     bindS commitS (\<lambda>_. returnS aid))))))"

definition reject_draft :: "env \<Rightarrow> string \<Rightarrow> string \<Rightarrow> string act" where
  "reject_draft env source_id user_id =
     bindS (get_draft_for_source source_id user_id) (\<lambda>draft.
     bindS (get_source source_id) (\<lambda>src.
     bindS (on_draft draft (review env ''rejected'')) (\<lambda>_.
     bindS (put_sources (update_where (\<lambda>x. src_id x = source_id) (\<lambda>x. x\<lparr>src_status := PENDING\<rparr>))) (\<lambda>_.
     bindS commitS (\<lambda>_. returnS source_id)))))"

section \<open>Drafts one event after another\<close>

text \<open>The worker proposes drafts, in sessions of its own; users approve and reject them in requests.\<close>

datatype draft_event =
    Propose source compilation_result "string list"
  | Approve string string "string option"
  | Reject string string

fun draft_step :: "files \<Rightarrow> env \<times> draft_event \<Rightarrow> world \<Rightarrow> world" where
  "draft_step raw (env, Propose src r takeaways) w = fst (in_session (create_draft env src r takeaways) w)"
| "draft_step raw (env, Approve uid sid guidance) w = fst (in_request (approve_draft env raw sid uid guidance) w)"
| "draft_step raw (env, Reject uid sid) w = fst (in_request (reject_draft env sid uid) w)"

definition draft_run :: "files \<Rightarrow> (env \<times> draft_event) list \<Rightarrow> world \<Rightarrow> world" where
  "draft_run raw evs w = foldl (\<lambda>w e. draft_step raw e w) w evs"

abbreviation drafts_of :: "world \<Rightarrow> compilation_draft list" where
  "drafts_of w \<equiv> compilation_drafts (w_db w)"

text \<open>The drafts other than a given one, and the keys of all.\<close>

interpretation others: durable "\<lambda>w. select (\<lambda>d. cd_id d \<noteq> did) (drafts_of w)" for did
  by unfold_locales (simp add: rest_def)

interpretation draft_keys: durable "\<lambda>w. map cd_id (drafts_of w)"
  by unfold_locales (simp add: rest_def)

context durable
begin

lemma keeps_compile: "fr.keeps (compile env uid doc co)"
  and keeps_guided: "fr.keeps (compile_with_guidance env uid doc g co)"
  unfolding compile_def compile_small_def compile_chunked_def compile_chunk_def compile_with_guidance_def ask_def Let_def
  by (intro rules conjI impI allI; auto intro!: rules split: prod.split option.split)+

end

text \<open>Views that a save of an article leaves alone too: those that see neither claims, nor events, nor the state of sources.\<close>

definition blank_source :: "source \<Rightarrow> source" where
  "blank_source x = x\<lparr>src_status := PENDING, src_compiled_at := None\<rparr>"

definition unsaved :: "world \<Rightarrow> world" where
  "unsaved w = on_db (\<lambda>d. d\<lparr>sources := map blank_source (sources d)\<rparr>) (w\<lparr>w_claims := [], w_events := []\<rparr>)"

lemma blank_update: "(\<And>x. blank_source (f x) = blank_source x) \<Longrightarrow> map blank_source (update_where p f xs) = map blank_source xs"
  by (induction xs) (simp_all add: update_where_def)

locale steady = durable +
  assumes view_unsaved: "view (unsaved w) = view w"
begin

lemma same_unsaved: "rest (unsaved v) = rest (unsaved w) \<Longrightarrow> view v = view w"
  using same_rest [of "unsaved v" "unsaved w"] by (simp add: view_unsaved)

lemma keeps_write: "(\<And>w. rest (unsaved (g w)) = rest (unsaved w)) \<Longrightarrow> fr.keeps (putS g)"
proof -
  assume "\<And>w. rest (unsaved (g w)) = rest (unsaved w)"
  then have "view (g w) = view w" for w by (rule same_unsaved)
  then show ?thesis unfolding putS_def by (intro keeps_checked fr.keeps_modify) (simp add: holds_view_def)
qed

lemma keeps_write_file: "fr.keeps (write_article_file env r src slug resolved unresolved co)"
  unfolding write_article_file_def by (intro rules)

lemma keeps_put_article: "fr.keeps (put_article env uid co r src p existing slug)"
  unfolding put_article_def Let_def
  by (intro keeps_write rules; simp add: rest_def unsaved_def on_db_def clear_article_relations_def mark_compiled_def blank_update blank_source_def)

lemma keeps_links: "fr.keeps (persist_resolved_backlinks aid resolved uid)"
  unfolding persist_resolved_backlinks_def by (intro keeps_backlinks rules)

lemma keeps_claims: "fr.keeps (persist_claims env aid uid r src spans)"
  unfolding persist_claims_def add_claim_def by (intro keeps_write rules) (simp add: rest_def unsaved_def on_db_def)

lemma keeps_refresh: "fr.keeps (refresh_confidence_score env aid uid)"
  unfolding refresh_confidence_score_def by (intro keeps_write rules) (simp_all add: rest_def unsaved_def on_db_def)

lemma keeps_save_core: "fr.keeps (save_core env uid co r src p existing)"
  unfolding save_core_def Let_def
  by (intro keeps_write_file keeps_put_article keeps_index_file keeps_links keeps_claims keeps_refresh keeps_write rules)
    (simp add: rest_def unsaved_def on_db_def join_rows_def)

lemma keeps_save: "fr.keeps (save_article env uid co r src)"
  unfolding save_article_def upsert_article_def by (intro rules keeps_save_core keeps_side_effects)

lemma keeps_source_status:
  assumes "\<And>x. blank_source (f x) = blank_source x"
  shows "fr.keeps (put_sources (update_where p f))"
  unfolding put_sources_def using assms by (intro keeps_write) (simp add: rest_def unsaved_def on_db_def blank_update)

end

interpretation others: steady "\<lambda>w. select (\<lambda>d. cd_id d \<noteq> did) (drafts_of w)" for did
  by unfold_locales (simp add: unsaved_def on_db_def)

interpretation draft_keys: steady "\<lambda>w. map cd_id (drafts_of w)"
  by unfold_locales (simp add: unsaved_def on_db_def)

lemma keeps_on_draft:
  assumes "\<And>x. cd_id (f x) = cd_id x"
  shows "others.fr.keeps (cd_id d) (on_draft d f)" and "draft_keys.fr.keeps (on_draft d f)"
proof -
  have "select (\<lambda>x. cd_id x \<noteq> cd_id d) (update_where (\<lambda>x. cd_id x = cd_id d) f rows) = select (\<lambda>x. cd_id x \<noteq> cd_id d) rows" for rows
    using assms by (intro select_update_other) auto
  then show "others.fr.keeps (cd_id d) (on_draft d f)"
    unfolding on_draft_def put_drafts_def putS_def
    by (intro others.keeps_checked others.fr.keeps_modify) (simp add: holds_view_def on_db_def)
  have "map cd_id (update_where (\<lambda>x. cd_id x = cd_id d) f rows) = map cd_id rows" for rows
    using assms by (simp add: map_update_where)
  then show "draft_keys.fr.keeps (on_draft d f)"
    unfolding on_draft_def put_drafts_def putS_def
    by (intro draft_keys.keeps_checked draft_keys.fr.keeps_modify) (simp add: holds_view_def on_db_def)
qed

section \<open>A reviewed draft stays as it is\<close>

lemma find_draft_Some:
  assumes "find_draft sid uid rows = Some d"
  shows "d \<in> set rows" and "cd_status d = ''pending''" and "cd_source_id d = sid" and "cd_user_id d = uid"
  using first_of_Some [OF assms [unfolded find_draft_def]] by auto

lemma closed_open [simp]: "closed (open_session w) = w"
  by (simp add: closed_def open_session_def)

lemma get_draft_app:
  "bindS (get_draft_for_source sid uid) k (open_session w) =
     (case find_draft sid uid (drafts_of w) of
        None \<Rightarrow> (open_session w, raise (NotFoundError ''No pending draft for this source''))
      | Some d \<Rightarrow> k d (open_session w))"
  by (simp add: get_draft_for_source_def bindS_def getS_def checkedS_def readS_def open_session_def raiseS_def returnS_def split: option.split)

definition final_kept :: "world \<Rightarrow> world \<Rightarrow> bool" where
  "final_kept w v \<longleftrightarrow> distinct (map cd_id (drafts_of v)) \<and>
     list_all (\<lambda>d. cd_status d \<noteq> ''pending'' \<longrightarrow> d \<in> set (drafts_of v)) (drafts_of w)"

lemma final_kept_refl: "distinct (map cd_id (drafts_of w)) \<Longrightarrow> final_kept w w"
  by (simp add: final_kept_def list_all_iff)

lemma reviewed:
  assumes "\<And>d. others.fr.keeps (cd_id d) (k d)" and "\<And>d. draft_keys.fr.keeps (k d)"
    and "distinct (map cd_id (drafts_of w))"
  shows "final_kept w (fst (in_request (bindS (get_draft_for_source sid uid) k) w))"
proof (cases "find_draft sid uid (drafts_of w)")
  case None
  then have "drafts_of (fst (in_request (bindS (get_draft_for_source sid uid) k) w)) = drafts_of w"
    by (simp add: in_request_def in_session_def bindS_def [of _ "\<lambda>x. bindS commitS (\<lambda>_. returnS x)"] get_draft_app)
  with assms(3) final_kept_refl show ?thesis by (simp add: final_kept_def)
next
  case (Some d)
  let ?w = "fst (in_request (bindS (get_draft_for_source sid uid) k) w)"
  have eq: "?w = fst (in_request (k d) w)"
    using Some by (simp add: in_request_def in_session_def bindS_def [of _ "\<lambda>x. bindS commitS (\<lambda>_. returnS x)"] get_draft_app)
  have sel: "select (\<lambda>x. cd_id x \<noteq> cd_id d) (drafts_of ?w) = select (\<lambda>x. cd_id x \<noteq> cd_id d) (drafts_of w)"
    unfolding eq unfolding in_request_def by (intro others.keeps_in_session others.rules assms(1))
  have keys: "map cd_id (drafts_of ?w) = map cd_id (drafts_of w)"
    unfolding eq unfolding in_request_def by (intro draft_keys.keeps_in_session draft_keys.rules assms(2))
  have "x \<in> set (drafts_of ?w)" if "x \<in> set (drafts_of w)" "cd_status x \<noteq> ''pending''" for x
  proof -
    have "cd_id x \<noteq> cd_id d"
      using distinct_map_eq [OF assms(3) that(1) find_draft_Some(1) [OF Some]] find_draft_Some(2) [OF Some] that(2) by auto
    with that(1) have "x \<in> set (select (\<lambda>x. cd_id x \<noteq> cd_id d) (drafts_of w))" by simp
    then have "x \<in> set (select (\<lambda>x. cd_id x \<noteq> cd_id d) (drafts_of ?w))" by (simp only: sel)
    then show ?thesis by simp
  qed
  moreover have "distinct (map cd_id (drafts_of ?w))" unfolding keys by (rule assms(3))
  ultimately show ?thesis by (simp add: final_kept_def list_all_iff)
qed

lemma proposed:
  assumes "distinct (map cd_id (drafts_of w))"
  shows "final_kept w (fst (in_session (create_draft env src r takeaways) w))"
proof -
  obtain t x where run: "create_draft env src r takeaways (open_session w) = (t, x)" by (rule prod.exhaust)
  then have "drafts_of (se_saved t) = drafts_of w \<or>
      (\<exists>d. drafts_of (se_saved t) = drafts_of w @ [d] \<and> distinct (map cd_id (drafts_of (se_saved t))))"
    by (auto simp: create_draft_def put_drafts_def put_sources_def bindS_def freshS_def putS_def checkedS_def modifyS_def commitS_def
        returnS_def open_session_def on_db_def closed_def constraints_ok_def unique_ok_def split: if_splits)
  then show ?thesis
    using assms by (auto simp: in_session_def run closed_def final_kept_def list_all_iff)
qed

lemma keeps_review_actions:
  "others.fr.keeps (cd_id d) (draft_result env raw uid d src g)" "draft_keys.fr.keeps (draft_result env raw uid d src g)"
  "others.fr.keeps (cd_id d) (on_draft d (review env st))" "draft_keys.fr.keeps (on_draft d (review env st))"
  unfolding draft_result_def guided_result_def
  by (intro others.rules draft_keys.rules others.keeps_guided draft_keys.keeps_guided keeps_on_draft
      | simp add: review_def split: option.split list.split prod.split | safe)+

lemma step_final:
  assumes "distinct (map cd_id (drafts_of w))"
  shows "final_kept w (draft_step raw e w)"
proof -
  obtain env ev where e: "e = (env, ev)" by (rule prod.exhaust)
  show ?thesis
  proof (cases ev)
    case (Propose src r takeaways)
    with proposed [OF assms] show ?thesis by (simp add: e)
  next
    case (Approve uid sid guidance)
    show ?thesis unfolding e Approve draft_step.simps approve_draft_def get_source_def
      by (intro reviewed assms; intro others.rules draft_keys.rules keeps_review_actions others.keeps_save draft_keys.keeps_save)
  next
    case (Reject uid sid)
    show ?thesis unfolding e Reject draft_step.simps reject_draft_def get_source_def
      by (intro reviewed assms; intro others.rules draft_keys.rules keeps_review_actions others.keeps_source_status draft_keys.keeps_source_status;
          simp add: blank_source_def)
  qed
qed

text \<open>
  C31. A draft that was approved or rejected is final: whatever drafts are proposed, approved with or without guidance,
  or rejected afterwards, by whom and with what answers of the language model, and whether the requests succeed or
  fail, its row stays exactly as it is.
\<close>

theorem reviewed_draft_is_final:
  assumes "distinct (map cd_id (drafts_of w))" and "d \<in> set (drafts_of w)" and "cd_status d \<noteq> ''pending''"
  shows "d \<in> set (drafts_of (draft_run raw evs w))"
proof -
  have "final_kept w (draft_run raw evs w)" if "distinct (map cd_id (drafts_of w))" for w
    using that
  proof (induction evs arbitrary: w)
    case Nil
    then show ?case by (simp add: draft_run_def final_kept_refl)
  next
    case (Cons e evs)
    from step_final [OF Cons.prems] have step: "final_kept w (draft_step raw e w)" .
    with Cons.IH have "final_kept (draft_step raw e w) (draft_run raw evs (draft_step raw e w))" by (simp add: final_kept_def)
    with step show ?case by (auto simp: final_kept_def list_all_iff draft_run_def)
  qed
  with assms show ?thesis by (simp add: final_kept_def list_all_iff)
qed

section \<open>What an approval saves\<close>

lemma parse_enum_value:
  "parse_confidence n (JStr (confidence_level_value x)) = ok x" "parse_page_type n (JStr (page_type_value y)) = ok y"
  "parse_provider n (JStr (provider_value z)) = ok z"
proof -
  show "parse_confidence n (JStr (confidence_level_value x)) = ok x"
    by (cases x) (simp_all add: parse_confidence_def parse_enum_def all_confidence_levels_def)
  show "parse_page_type n (JStr (page_type_value y)) = ok y"
    by (cases y) (simp_all add: parse_page_type_def parse_enum_def all_page_types_def)
  show "parse_provider n (JStr (provider_value z)) = ok z"
    by (cases z) (simp_all add: parse_provider_def parse_enum_def all_providers_def)
qed

lemma parse_strs_json: "parse_strs n (strs_json xs) = ok xs"
proof -
  have "parse_items (parse_str n) (map JStr xs) = ok xs" by (induction xs) simp_all
  then show ?thesis by (simp add: parse_strs_def strs_json_def)
qed

lemma parse_opt_json: "(\<And>x. v = Some x \<Longrightarrow> f (g x) = ok x \<and> g x \<noteq> JNull) \<Longrightarrow> parse_opt f (opt_json g v) = ok v"
proof (cases v)
  case (Some x)
  assume "\<And>x. v = Some x \<Longrightarrow> f (g x) = ok x \<and> g x \<noteq> JNull"
  with Some have "f (g x) = ok x" "g x \<noteq> JNull" by blast+
  with Some show ?thesis by (cases "g x") (simp_all add: opt_json_def)
qed (simp add: opt_json_def)

lemma parse_claim_json: "parse_claim (claim_json c) = ok c"
  by (simp add: parse_claim_def claim_json_def required_def optional_def parse_enum_value parse_strs_json parse_opt_json)

lemma parse_result_json:
  assumes "\<And>t. cr_compiled r = Some t \<Longrightarrow> en_parse_datetime env (JStr (en_iso env t)) = Some t"
    and "result_json env r = JObj kvs"
  shows "parse_compilation_result (en_parse_datetime env) kvs = ok r"
proof -
  have claims: "parse_items parse_claim (map claim_json xs) = ok xs" for xs
    by (induction xs) (simp_all add: parse_claim_json)
  have compiled: "parse_opt (parse_datetime_with (en_parse_datetime env) n) (opt_json (JStr \<circ> en_iso env) (cr_compiled r)) = ok (cr_compiled r)" for n
    by (rule parse_opt_json) (simp add: parse_datetime_with_def assms(1))
  have provider: "parse_opt (parse_provider n) (opt_json (JStr \<circ> provider_value) v) = ok v" for n v
    by (rule parse_opt_json) (simp add: parse_enum_value)
  show ?thesis using assms(2)
    by (auto simp: result_json_def parse_compilation_result_def required_def optional_def parse_strs_json parse_enum_value
        claims compiled provider)
qed

lemma find_without_provider: "find_article_for_source_and_provider sid None d = None"
  by (simp add: find_article_for_source_and_provider_def)

lemma leaves_pair: "(\<And>x y. p = (x, y) \<Longrightarrow> leaves f (k x y)) \<Longrightarrow> leaves f (case p of (x, y) \<Rightarrow> k x y)"
  by (cases p) simp

lemma upsert_saved:
  assumes "upsert_article env uid co r src p existing s = (t, ok aid)"
    and "list_all (\<lambda>c. cc_article_id c \<in> set (map art_id (articles (w_db (se_cur s))))) (w_claims (se_cur s))"
  shows "list_all2 (\<lambda>c dto. c = claim_row env aid uid src (co_spans co) (cc_id c) dto)
      (select (\<lambda>c. cc_article_id c = aid) (w_claims (se_cur t))) (cr_key_claims r)"
    and "drafts_of (se_cur t) = drafts_of (se_cur s)"
proof -
  from assms(1) obtain u slug where core: "save_core env uid co r src p existing s = (u, ok (aid, slug))"
    and side: "post_save_side_effects env slug r (src_id src) uid u = (t, ok ())"
    by (auto simp: upsert_article_def bindS_ok)
  have same: "se_saved u = se_cur u" by (rule save_core_claims(1) [OF core assms(2)])
  have "holds_view w_claims u t" by (rule claims.fr.keepsD [OF claims.keeps_side_effects side])
  with same have "w_claims (se_cur t) = w_claims (se_cur u)" by (simp add: holds_view_def)
  with save_core_claims(3) [OF core assms(2)]
  show "list_all2 (\<lambda>c dto. c = claim_row env aid uid src (co_spans co) (cc_id c) dto)
      (select (\<lambda>c. cc_article_id c = aid) (w_claims (se_cur t))) (cr_key_claims r)" by simp
  have "leaves drafts_of (save_core env uid co r src p existing)"
    unfolding save_core_def put_article_def Let_def write_article_file_def persist_resolved_backlinks_def put_backlinks_def
      persist_claims_def add_claim_def refresh_confidence_score_def index_article_file_def index_rows_def
    by (intro leaves_pair leaves_intro leaves_file_or_empty; simp add: on_db_def clear_article_relations_def mark_compiled_def join_rows_def)
  from leavesD [OF this core] have "drafts_of (se_cur u) = drafts_of (se_cur s)" .
  moreover have "holds_view drafts_of u t" by (rule drafts.fr.keepsD [OF drafts.keeps_side_effects side])
  ultimately show "drafts_of (se_cur t) = drafts_of (se_cur s)" using same by (simp add: holds_view_def)
qed

text \<open>
  Approving a draft without guidance saves the very result that was drafted, claim by claim, and marks the draft
  approved, but the claims of the article cite no span at all, whatever spans the drafted claims cite: the compiler
  that saves the result is a new one that has loaded no spans. (\<open>json.loads\<close> gives back what was dumped.)
\<close>

lemma approval_saves_draft_without_citations:
  assumes "approve_draft env raw sid uid None s = (t, ok aid)"
    and "find_draft sid uid (drafts_of (se_cur s)) = Some d" and "cd_draft_result_json d = model_dump_json env r"
    and "en_loads env (model_dump_json env r) = ok (result_json env r)"
    and "\<And>t. cr_compiled r = Some t \<Longrightarrow> en_parse_datetime env (JStr (en_iso env t)) = Some t"
    and "list_all (\<lambda>c. cc_article_id c \<in> set (map art_id (articles (w_db (se_cur s))))) (w_claims (se_cur s))"
  shows "list_all2 (\<lambda>c dto. cc_text c = cm_claim dto \<and> cc_source_span_ids c = dump_strings env [])
      (select (\<lambda>c. cc_article_id c = aid) (w_claims (se_saved t))) (cr_key_claims r) \<and>
    review env ''approved'' d \<in> set (drafts_of (se_saved t))"
proof -
  obtain kvs where kvs: "result_json env r = JObj kvs" by (simp add: result_json_def)
  have "model_validate_json env (cd_draft_result_json d) = ok r"
    using parse_result_json [OF assms(5) kvs] assms(4) by (simp add: assms(3) model_validate_json_def kvs)
  with assms(1,2) obtain src u where src: "get_by src_id sid (sources (w_db (se_cur s))) = Some src"
    and up: "upsert_article env uid new_compiler r src None None s = (u, ok aid)"
    and t: "se_saved t = on_db (\<lambda>db. db\<lparr>compilation_drafts := update_where (\<lambda>x. cd_id x = cd_id d) (review env ''approved'') (compilation_drafts db)\<rparr>) (se_cur u)"
    by (auto simp: approve_draft_def get_draft_for_source_def get_source_def draft_result_def act_ok save_article_def
        find_without_provider new_compiler_def on_draft_def put_drafts_def raiseS_def split: option.splits)
  note saved = upsert_saved [OF up assms(6)]
  have "list_all2 (\<lambda>c dto. cc_text c = cm_claim dto \<and> cc_source_span_ids c = dump_strings env [])
      (select (\<lambda>c. cc_article_id c = aid) (w_claims (se_saved t))) (cr_key_claims r)"
    using saved(1) unfolding t on_db_def
    by (simp, elim list_all2_mono) (simp add: claim_row_def Let_def valid_spans_def new_compiler_def, metis (no_types, lifting) compiled_claim.select_convs)
  moreover have "review env ''approved'' d \<in> set (drafts_of (se_saved t))"
    unfolding t on_db_def using saved(2) find_draft_Some(1) [OF assms(2)] by (auto simp: update_where_def image_iff)
  ultimately show ?thesis by blast
qed

section \<open>Witnesses\<close>

definition ex_drafted :: compilation_result where
  "ex_drafted = \<lparr>cr_title = ''On X'', cr_summary = ''About X.'',
     cr_key_claims = [\<lparr>cm_claim = ''X is fast'', cm_confidence = SOURCED, cm_subjects = [], cm_predicate = None, cm_quote = None,
       cm_source_ids = [], cm_source_span_ids = [''sp1'']\<rparr>],
     cr_concepts = [], cr_backlink_suggestions = [], cr_open_questions = [], cr_article_body = ''Body.'',
     cr_page_type = SOURCE, cr_compiled = None, cr_provider = Some MOCK\<rparr>"

definition ex_draft_loads :: "string \<Rightarrow> json result" where
  "ex_draft_loads s = (if s = ''draft'' then ok (result_json ex_env0 ex_drafted) else ex_loads s)"

definition ex_draft_env :: env where
  "ex_draft_env = ex_env1\<lparr>en_dumps := (\<lambda>j. ''draft''), en_loads := ex_draft_loads\<rparr>"

definition ex_draft_world :: "string \<Rightarrow> world" where
  "ex_draft_world status = on_db (\<lambda>d. d\<lparr>compilation_drafts := [(new_draft ex_draft_env ''d1'' ex_source0 ex_drafted [])\<lparr>cd_status := status\<rparr>]\<rparr>)
     (ex_world0 False ''topic-y'')"

lemma reviewed_draft_is_final_witness:
  "(new_draft ex_draft_env ''d1'' ex_source0 ex_drafted [])\<lparr>cd_status := ''rejected''\<rparr> \<in> set (drafts_of (draft_run Map.empty
     [(ex_draft_env, Approve ''u1'' ''s1'' None), (ex_draft_env, Propose ex_source0 ex_drafted []), (ex_draft_env, Reject ''u1'' ''s1'')]
     (ex_draft_world ''rejected'')))"
  by (rule reviewed_draft_is_final) (simp_all add: ex_draft_world_def on_db_def)

definition ex_approved :: "sess \<times> string result" where
  "ex_approved = approve_draft ex_draft_env Map.empty ''s1'' ''u1'' None (open_session (ex_draft_world ''pending''))"

lemma ex_approved_ok: "snd ex_approved = ok ''id0''"
  unfolding ex_approved_def by code_simp

lemma approval_saves_draft_without_citations_witness:
  "\<exists>c. select (\<lambda>c. cc_article_id c = ''id0'') (w_claims (se_saved (fst ex_approved))) = [c] \<and> cc_text c = ''X is fast'' \<and>
     cc_source_span_ids c = dump_strings ex_draft_env []"
proof -
  have run: "approve_draft ex_draft_env Map.empty ''s1'' ''u1'' None (open_session (ex_draft_world ''pending'')) = (fst ex_approved, ok ''id0'')"
    using ex_approved_ok by (simp add: ex_approved_def prod_eq_iff)
  let ?d = "new_draft ex_draft_env ''d1'' ex_source0 ex_drafted []"
  have d: "find_draft ''s1'' ''u1'' (drafts_of (se_cur (open_session (ex_draft_world ''pending'')))) = Some ?d"
    by (simp add: find_draft_def ex_draft_world_def on_db_def open_session_def new_draft_def ex_source0_def select_def first_of_def)
  have codec: "en_loads ex_draft_env (model_dump_json ex_draft_env ex_drafted) = ok (result_json ex_draft_env ex_drafted)"
    by (simp add: ex_draft_env_def ex_draft_loads_def model_dump_json_def result_json_def ex_drafted_def opt_json_def)
  have "list_all2 (\<lambda>c dto. cc_text c = cm_claim dto \<and> cc_source_span_ids c = dump_strings ex_draft_env [])
      (select (\<lambda>c. cc_article_id c = ''id0'') (w_claims (se_saved (fst ex_approved)))) (cr_key_claims ex_drafted)"
    using approval_saves_draft_without_citations [OF run d _ codec]
    by (simp add: new_draft_def ex_drafted_def open_session_def ex_draft_world_def on_db_def ex_world0_def)
  then show ?thesis by (auto simp: ex_drafted_def list_all2_Cons2)
qed

end
