(* ===== verification/Queries.thy ===== *)
theory Queries
  imports Domain Json
begin

text \<open>
  The shared lookups of \<^verbatim>\<open>src/src/wikimind/queries/articles.py\<close>: sources and concepts of an article from the join
  tables, with the JSON columns of older rows as a fallback, and source rows by a list of ids. \<open>loads\<close> is
  \<open>json.loads\<close>.
\<close>

definition parse_json_column :: "(string \<Rightarrow> json result) \<Rightarrow> string option \<Rightarrow> string list" where
  "parse_json_column loads raw =
     (case raw of
        Some (x # s) \<Rightarrow> (case loads (x # s) of Inr (JList items) \<Rightarrow> map py_str (filter truthy items) | _ \<Rightarrow> [])
      | _ \<Rightarrow> [])"

definition fetch_source_ids_for_article :: "(string \<Rightarrow> json result) \<Rightarrow> string \<Rightarrow> db \<Rightarrow> string list" where
  "fetch_source_ids_for_article loads article_id d =
     (let ids = map as_source_id (select (\<lambda>x. as_article_id x = article_id) (article_sources d))
      in if ids \<noteq> [] then ids
         else parse_json_column loads (case first_of (select (\<lambda>a. art_id a = article_id) (articles d)) of
                Some a \<Rightarrow> art_source_ids a | None \<Rightarrow> None))"

definition fetch_concept_names_for_article :: "(string \<Rightarrow> json result) \<Rightarrow> string \<Rightarrow> db \<Rightarrow> string list" where
  "fetch_concept_names_for_article loads article_id d =
     (let names = map ac_concept_name (select (\<lambda>x. ac_article_id x = article_id) (article_concepts d))
      in if names \<noteq> [] then names
         else parse_json_column loads (case first_of (select (\<lambda>a. art_id a = article_id) (articles d)) of
                Some a \<Rightarrow> art_concept_ids a | None \<Rightarrow> None))"

text \<open>The batch lookup, as an association list with a key for every id asked for.\<close>

definition add_name :: "article_concept \<Rightarrow> (string \<times> string list) list \<Rightarrow> (string \<times> string list) list" where
  "add_name x kvs = map (\<lambda>(k, ns). if k = ac_article_id x then (k, ns @ [ac_concept_name x]) else (k, ns)) kvs"

definition fetch_concepts_for_articles :: "string list \<Rightarrow> db \<Rightarrow> (string \<times> string list) list" where
  "fetch_concepts_for_articles article_ids d =
     fold add_name (select (\<lambda>x. ac_article_id x \<in> set article_ids) (article_concepts d)) (map (\<lambda>i. (i, [])) (nub article_ids))"

definition fetch_sources :: "string list \<Rightarrow> db \<Rightarrow> source list" where
  "fetch_sources source_ids d = List.map_filter (\<lambda>sid. find (\<lambda>s. src_id s = sid) (sources d)) source_ids"

lemma map_of_add_name:
  "map_of (add_name x kvs) i = map_option (\<lambda>ns. if i = ac_article_id x then ns @ [ac_concept_name x] else ns) (map_of kvs i)"
  by (induction kvs) (auto simp: add_name_def)

text \<open>The batch gives every article the names of its own rows.\<close>

lemma fetch_concepts_exact:
  assumes "i \<in> set article_ids"
  shows "map_of (fetch_concepts_for_articles article_ids d) i =
    Some (map ac_concept_name (select (\<lambda>x. ac_article_id x = i) (article_concepts d)))"
proof -
  have fold: "map_of (fold add_name rows kvs) i =
      map_option (\<lambda>ns. ns @ map ac_concept_name (select (\<lambda>x. ac_article_id x = i) rows)) (map_of kvs i)" for rows kvs
    by (induction rows arbitrary: kvs) (auto simp: map_of_add_name select_Cons option.map_comp comp_def option.map_ident)
  have "map_of (map (\<lambda>i. (i, [])) (nub article_ids)) i = Some ([] :: string list)"
    using assms by (auto simp: map_of_map_restrict restrict_map_def map_of_eq_Some_iff)
  with fold assms show ?thesis
    by (simp add: fetch_concepts_for_articles_def select_select conj_commute cong: conj_cong)
qed

end
