(* ===== verification/Worker.thy ===== *)
theory Worker
  imports Drafts Queries Sweep LintRunner Billing
begin

text \<open>
  The jobs of \<^verbatim>\<open>src/src/wikimind/jobs/worker.py\<close>, which the queue runs one after the other: compiling a source,
  directly or into a draft, recompiling an article, the lint job, and the jobs of the scheduler; the lookups of
  \<^verbatim>\<open>services/compiler.py\<close> and what \<^verbatim>\<open>jobs/background.py\<close> hands to the queue. Every step runs in a session
  of its own on the committed world. The messages on the WebSocket, which never raise, are left out. The embedding of
  articles is a parameter, and so is the text of an exception, which for those of other packages is theirs.
\<close>

section \<open>Settings and rows\<close>

record worker_env =
  we_env :: env
  we_raw :: files
  we_interactive :: bool
  we_embed :: "(string \<Rightarrow> string \<Rightarrow> string \<Rightarrow> unit result) option"
  we_text :: "exc \<Rightarrow> string"

type_synonym 'a job_act = "(world, 'a) eff"

definition new_job :: "datetime \<Rightarrow> string \<Rightarrow> job_type \<Rightarrow> string option \<Rightarrow> string \<Rightarrow> job" where
  "new_job now jid typ source_id user_id =
     \<lparr>job_id = jid, job_user_id = user_id, job_job_type = typ, job_status = RUNNING, job_source_id = source_id,
      job_article_id = None, job_priority = 5, job_queued_at = now, job_started_at = Some now,
      job_completed_at = None, job_error = None, job_result_summary = None\<rparr>"

definition completed :: "datetime \<Rightarrow> string \<Rightarrow> job \<Rightarrow> job" where
  "completed now summary j = j\<lparr>job_status := COMPLETE, job_completed_at := Some now, job_result_summary := Some summary\<rparr>"

definition failed :: "datetime \<Rightarrow> string \<Rightarrow> job \<Rightarrow> job" where
  "failed now error j = j\<lparr>job_status := JOB_FAILED, job_completed_at := Some now, job_error := Some error\<rparr>"

definition put_jobs :: "(job list \<Rightarrow> job list) \<Rightarrow> unit act" where
  "put_jobs f = putS (on_db (\<lambda>d. d\<lparr>jobs := f (jobs d)\<rparr>))"

definition on_job :: "string \<Rightarrow> (job \<Rightarrow> job) \<Rightarrow> unit act" where
  "on_job jid f = put_jobs (update_where (\<lambda>j. job_id j = jid) f)"

text \<open>\<open>session.get(Job, id)\<close>, and the update if there is such a job.\<close>

definition finish_job :: "string \<Rightarrow> (job \<Rightarrow> job) \<Rightarrow> unit act" where
  "finish_job jid f =
     bindS (getS (\<lambda>w. get_by job_id jid (jobs (w_db w)))) (\<lambda>j.
       case j of None \<Rightarrow> returnS () | Some _ \<Rightarrow> bindS (on_job jid f) (\<lambda>_. commitS))"

definition on_source :: "string \<Rightarrow> (source \<Rightarrow> source) \<Rightarrow> unit act" where
  "on_source sid f = put_sources (update_where (\<lambda>x. src_id x = sid) f)"

section \<open>Compiling a source\<close>

definition build_normalized_doc :: "worker_env \<Rightarrow> source \<Rightarrow> normalized_document result" where
  "build_normalized_doc we src =
     bindR (source_content (en_data_dir (we_env we)) (we_raw we) (src_user_id src) src) (\<lambda>content.
       case content of
         None \<Rightarrow> raise (ValueError (''No content available for source '' @ src_id src))
       | Some c \<Rightarrow> ok (document_of src c))"

definition start_compile :: "env \<Rightarrow> string \<Rightarrow> string \<Rightarrow> (string \<times> source) option act" where
  "start_compile env source_id user_id =
     bindS (getS (\<lambda>w. get_by src_id source_id (sources (w_db w)))) (\<lambda>src.
       case src of
         None \<Rightarrow> returnS None
       | Some x \<Rightarrow>
           bindS (on_source source_id (\<lambda>x. x\<lparr>src_status := PROCESSING, src_error_message := None\<rparr>)) (\<lambda>_.
           bindS (freshS (en_uuid env)) (\<lambda>jid.
           bindS (put_jobs (\<lambda>js. js @ [new_job (en_now env) jid COMPILE_SOURCE (Some source_id) user_id])) (\<lambda>_.
           bindS commitS (\<lambda>_. returnS (Some (jid, x)))))))"

definition read_document :: "worker_env \<Rightarrow> string \<Rightarrow> normalized_document option act" where
  "read_document we source_id =
     bindS (getS (\<lambda>w. get_by src_id source_id (sources (w_db w)))) (\<lambda>src.
       case src of None \<Rightarrow> returnS None | Some x \<Rightarrow> bindS (liftS (build_normalized_doc we x)) (\<lambda>doc. returnS (Some doc)))"

definition no_result :: exc where
  "no_result = ValueError ''Compiler returned no result''"

definition compiled_result :: "env \<Rightarrow> string \<Rightarrow> normalized_document \<Rightarrow> (compilation_result \<times> compiler) job_act" where
  "compiled_result env user_id doc =
     bindS (in_session (compile env user_id doc new_compiler)) (\<lambda>(r, co).
       case r of None \<Rightarrow> raiseS no_result | Some x \<Rightarrow> returnS (x, co))"

definition compile_interactive :: "worker_env \<Rightarrow> source \<Rightarrow> normalized_document \<Rightarrow> string \<Rightarrow> string \<Rightarrow> unit job_act" where
  "compile_interactive we src doc jid user_id =
     (let env = we_env we
      in bindS (in_session (extract_takeaways env user_id doc)) (\<lambda>takeaways.
         bindS (compiled_result env user_id doc) (\<lambda>(r, co).
         in_session
           (bindS (create_draft env src r takeaways) (\<lambda>did.
            bindS (getS (\<lambda>w. get_by job_id jid (jobs (w_db w)))) (\<lambda>j.
            bindS (case j of None \<Rightarrow> returnS () | Some _ \<Rightarrow> on_job jid (completed (en_now env) (''Draft created for review: '' @ cr_title r))) (\<lambda>_.
              commitS)))))))"

fun is_embed_error :: "exc \<Rightarrow> bool" where
  "is_embed_error (RuntimeError _) = True"
| "is_embed_error (ValueError _) = True"
| "is_embed_error (OSError _) = True"
| "is_embed_error _ = False"

definition try_embed_article :: "worker_env \<Rightarrow> article \<Rightarrow> unit job_act" where
  "try_embed_article we a =
     (case we_embed we of
        None \<Rightarrow> returnS ()
      | Some emb \<Rightarrow>
          tryS (\<lambda>w. (w, bindR (wiki_read (en_data_dir (we_env we)) (art_user_id a) (art_file_path a) (w_db w)) (\<lambda>content.
                          emb (art_id a) (art_title a) content)))
               (\<lambda>e. if is_embed_error e then returnS () else raiseS e))"

text \<open>
  The sweep, in sessions of its own. The removal of pages whose file is missing is refused where foreign keys are
  enforced and rows still name such a page; the job then fails and nothing is swept.
\<close>

definition sweep_wikilinks_job :: "worker_env \<Rightarrow> string \<Rightarrow> unit job_act" where
  "sweep_wikilinks_job we user_id w =
     (let env = we_env we; jid = en_uuid env (w_uuids w); v = w\<lparr>w_uuids := w_uuids w + 1\<rparr>
      in if constraints_ok (on_db (\<lambda>d. fst (cleanup_orphaned_concept_pages user_id d)) w)
         then (on_db (sweep_wikilinks jid (en_now env) (en_now env) (en_now env) user_id) v, ok ())
         else (on_db (\<lambda>d. d\<lparr>jobs := jobs d @ [failed (en_now env) (we_text we (IntegrityError ''constraint''))
                 (new_job (en_now env) jid SWEEP_WIKILINKS None user_id)]\<rparr>) v, ok ()))"

text \<open>The article that was saved, as the session still holds it.\<close>

definition save_compiled :: "env \<Rightarrow> string \<Rightarrow> string \<Rightarrow> compilation_result \<Rightarrow> compiler \<Rightarrow> article act" where
  "save_compiled env source_id user_id r co =
     bindS (getS (\<lambda>w. get_by src_id source_id (sources (w_db w)))) (\<lambda>src.
       case src of
         None \<Rightarrow> raiseS (ValueError ''Source disappeared during compile'')
       | Some x \<Rightarrow>
           bindS (save_article env user_id co r x) (\<lambda>aid.
           bindS (getS (\<lambda>w. get_by art_id aid (articles (w_db w)))) (\<lambda>a.
             case a of None \<Rightarrow> raiseS NoResultFound | Some y \<Rightarrow> returnS y)))"

definition compile_direct :: "worker_env \<Rightarrow> string \<Rightarrow> normalized_document \<Rightarrow> string \<Rightarrow> string \<Rightarrow> unit job_act" where
  "compile_direct we source_id doc jid user_id =
     (let env = we_env we
      in bindS (compiled_result env user_id doc) (\<lambda>(r, co).
         bindS (in_session (save_compiled env source_id user_id r co)) (\<lambda>a.
         bindS (in_session (finish_job jid (completed (en_now env) (''Created article: '' @ art_slug a)))) (\<lambda>_.
         bindS (try_embed_article we a) (\<lambda>_.
           sweep_wikilinks_job we user_id)))))"

text \<open>A source that is gone when its document is read ends the job without a trace: it stays running.\<close>

definition compile_body :: "worker_env \<Rightarrow> source \<Rightarrow> string \<Rightarrow> normalized_document option \<Rightarrow> string \<Rightarrow> unit job_act" where
  "compile_body we src user_id doc jid =
     bindS (case doc of Some d \<Rightarrow> returnS (Some d) | None \<Rightarrow> in_session (read_document we (src_id src))) (\<lambda>d.
       case d of
         None \<Rightarrow> returnS ()
       | Some x \<Rightarrow>
           if we_interactive we then compile_interactive we src x jid user_id
           else compile_direct we (src_id src) x jid user_id)"

definition running_jobs :: "string \<Rightarrow> db \<Rightarrow> job list" where
  "running_jobs source_id d = select (\<lambda>j. job_source_id j = Some source_id \<and> job_status j = RUNNING) (jobs d)"

definition record_failure :: "worker_env \<Rightarrow> string \<Rightarrow> exc \<Rightarrow> unit act" where
  "record_failure we source_id e =
     bindS (getS (\<lambda>w. get_by src_id source_id (sources (w_db w)))) (\<lambda>src.
     bindS (case src of None \<Rightarrow> returnS ()
            | Some _ \<Rightarrow> on_source source_id (\<lambda>x. x\<lparr>src_status := INGEST_FAILED, src_error_message := Some (we_text we e)\<rparr>)) (\<lambda>_.
     bindS (getS (\<lambda>w. running_jobs source_id (w_db w))) (\<lambda>js.
     bindS (liftS (one_or_none js)) (\<lambda>j.
     bindS (case j of None \<Rightarrow> returnS () | Some x \<Rightarrow> on_job (job_id x) (failed (en_now (we_env we)) (we_text we e))) (\<lambda>_.
       commitS)))))"

definition compile_source :: "worker_env \<Rightarrow> string \<Rightarrow> string \<Rightarrow> normalized_document option \<Rightarrow> unit job_act" where
  "compile_source we source_id user_id doc =
     bindS (in_session (start_compile (we_env we) source_id user_id)) (\<lambda>started.
       case started of
         None \<Rightarrow> returnS ()
       | Some (jid, src) \<Rightarrow>
           tryS (compile_body we src user_id doc jid) (\<lambda>e.
             tryS (in_session (record_failure we source_id e)) (\<lambda>_. returnS ())))"

section \<open>Recompiling an article\<close>

definition get_or_raise :: "exc \<Rightarrow> (world \<Rightarrow> 'a option) \<Rightarrow> 'a act" where
  "get_or_raise e f = bindS (getS f) (\<lambda>x. case x of None \<Rightarrow> raiseS e | Some y \<Rightarrow> returnS y)"

definition article_by_id :: "string \<Rightarrow> world \<Rightarrow> article option" where
  "article_by_id article_id w = get_by art_id article_id (articles (w_db w))"

definition primary_source :: "worker_env \<Rightarrow> string \<Rightarrow> (string \<times> normalized_document) act" where
  "primary_source we article_id =
     bindS (get_or_raise (ValueError ''Article not found'') (article_by_id article_id)) (\<lambda>a.
     bindS (getS (\<lambda>w. fetch_source_ids_for_article (en_loads (we_env we)) (art_id a) (w_db w))) (\<lambda>ids.
       case ids of
         [] \<Rightarrow> raiseS (ValueError ''Article has no linked sources'')
       | sid # _ \<Rightarrow>
           bindS (getS (\<lambda>w. get_by src_id sid (sources (w_db w)))) (\<lambda>src.
             case src of
               None \<Rightarrow> raiseS (ValueError ''Source or source file_path not found'')
             | Some x \<Rightarrow>
                 if src_file_path x = None \<or> src_file_path x = Some [] then raiseS (ValueError ''Source or source file_path not found'')
                 else bindS (liftS (build_normalized_doc we x)) (\<lambda>doc. returnS (sid, doc)))))"

definition recompile_from_source :: "worker_env \<Rightarrow> string \<Rightarrow> string \<Rightarrow> unit job_act" where
  "recompile_from_source we article_id user_id =
     bindS (in_session (primary_source we article_id)) (\<lambda>(sid, doc).
     bindS (compiled_result (we_env we) user_id doc) (\<lambda>(r, co).
       in_session
         (bindS (getS (article_by_id article_id)) (\<lambda>a.
          bindS (getS (\<lambda>w. get_by src_id sid (sources (w_db w)))) (\<lambda>src.
            case (a, src) of
              (Some x, Some y) \<Rightarrow> bindS (save_article_in_place (we_env we) user_id co x r y) (\<lambda>_. returnS ())
            | _ \<Rightarrow> raiseS (ValueError ''Article or source disappeared during recompile''))))))"

text \<open>Concepts have no id of their own in the lookup: the first one of that name, whoever owns it.\<close>

definition linked_concept :: "env \<Rightarrow> string \<Rightarrow> string act" where
  "linked_concept env article_id =
     bindS (get_or_raise (ValueError ''Article not found'') (article_by_id article_id)) (\<lambda>a.
     bindS (getS (\<lambda>w. fetch_concept_names_for_article (en_loads env) (art_id a) (w_db w))) (\<lambda>names.
       case names of
         [] \<Rightarrow> raiseS (ValueError ''Article has no linked concepts'')
       | name # _ \<Rightarrow>
           bindS (get_or_raise (ValueError ''Concept not found'')
             (\<lambda>w. first_of (select (\<lambda>c. con_name c = name) (concepts (w_db w))))) (\<lambda>c. returnS (con_id c))))"

definition recompile_from_concept :: "env \<Rightarrow> string \<Rightarrow> string \<Rightarrow> unit job_act" where
  "recompile_from_concept env article_id user_id =
     bindS (in_session (linked_concept env article_id)) (\<lambda>cid.
     bindS (in_session
       (bindS (get_or_raise (ValueError ''Concept disappeared during recompile'') (\<lambda>w. get_by con_id cid (concepts (w_db w)))) (\<lambda>c.
          compile_concept_page env user_id c))) (\<lambda>page.
       case page of None \<Rightarrow> raiseS (ValueError ''ConceptCompiler returned no result'') | Some _ \<Rightarrow> returnS ()))"

definition start_recompile :: "env \<Rightarrow> string \<Rightarrow> string \<Rightarrow> bool act" where
  "start_recompile env article_id jid =
     bindS (getS (\<lambda>w. get_by job_id jid (jobs (w_db w)))) (\<lambda>j.
       case j of
         None \<Rightarrow> returnS False
       | Some _ \<Rightarrow>
           bindS (on_job jid (\<lambda>j. j\<lparr>job_status := RUNNING, job_started_at := Some (en_now env)\<rparr>)) (\<lambda>_.
           bindS commitS (\<lambda>_.
           bindS (getS (article_by_id article_id)) (\<lambda>a.
             case a of
               Some _ \<Rightarrow> returnS True
             | None \<Rightarrow> bindS (on_job jid (failed (en_now env) ''Article not found'')) (\<lambda>_. bindS commitS (\<lambda>_. returnS False))))))"

definition recompile_body :: "worker_env \<Rightarrow> string \<Rightarrow> string \<Rightarrow> string \<Rightarrow> string \<Rightarrow> unit job_act" where
  "recompile_body we article_id mode jid user_id =
     bindS (if mode = ''source'' then recompile_from_source we article_id user_id
            else if mode = ''concept'' then recompile_from_concept (we_env we) article_id user_id
            else returnS ()) (\<lambda>_.
       in_session (finish_job jid (completed (en_now (we_env we)) (''Recompiled article '' @ article_id @ '' via '' @ mode))))"

definition recompile_article :: "worker_env \<Rightarrow> string \<Rightarrow> string \<Rightarrow> string \<Rightarrow> string \<Rightarrow> unit job_act" where
  "recompile_article we article_id mode jid user_id =
     bindS (in_session (start_recompile (we_env we) article_id jid)) (\<lambda>go.
       if go
       then tryS (recompile_body we article_id mode jid user_id) (\<lambda>e.
              in_session (finish_job jid (failed (en_now (we_env we)) (we_text we e))))
       else returnS ())"

section \<open>The lint job and the scheduler\<close>

definition on_lint_jobs :: "(job list \<Rightarrow> job list) \<Rightarrow> lint_state \<Rightarrow> lint_state" where
  "on_lint_jobs f s = s\<lparr>ls_db := (ls_db s)\<lparr>jobs := f (jobs (ls_db s))\<rparr>\<rparr>"

definition lint_summary :: "lint_report option \<Rightarrow> string" where
  "lint_summary r =
     (case r of
        None \<Rightarrow> []
      | Some x \<Rightarrow> ''Found '' @ show_int (lr_contradictions_count x) @ '' contradictions, '' @ show_int (lr_orphans_count x) @ '' orphans'')"

text \<open>The report that the run returns is a row of the state it leaves.\<close>

definition lint_wiki :: "lint_env \<Rightarrow> (exc \<Rightarrow> string) \<Rightarrow> string \<Rightarrow> lint_state \<Rightarrow> lint_state" where
  "lint_wiki e err_text user_id s =
     (let jid = le_uuid e (ls_uuids s);
          s1 = on_lint_jobs (\<lambda>js. js @ [new_job (le_now e) jid LINT_WIKI None user_id]) (s\<lparr>ls_uuids := ls_uuids s + 1\<rparr>);
          finish = (\<lambda>f. on_lint_jobs (update_where (\<lambda>j. job_id j = jid) f))
      in case run_lint e user_id (Some jid) s1 of
           (t, Inr (rid, _)) \<Rightarrow> finish (completed (le_now e) (lint_summary (get_by lr_id rid (ls_reports t)))) t
         | (t, Inl x) \<Rightarrow> finish (failed (le_now e) (err_text x)) t)"

definition user_ids_of :: "article list \<Rightarrow> string list" where
  "user_ids_of arts = nub (map art_user_id arts)"

definition lint_all_users :: "lint_env \<Rightarrow> (exc \<Rightarrow> string) \<Rightarrow> lint_state \<Rightarrow> lint_state" where
  "lint_all_users e err_text s = foldl (\<lambda>t uid. lint_wiki e err_text uid t) s (user_ids_of (articles (ls_db s)))"

definition sweep_all_users :: "worker_env \<Rightarrow> unit job_act" where
  "sweep_all_users we w = foldS (\<lambda>uid _. sweep_wikilinks_job we uid) (user_ids_of (articles (w_db w))) () w"

definition run_reconciliation ::
  "bool \<Rightarrow> (string \<Rightarrow> json result) \<Rightarrow> (string \<Rightarrow> datetime result) \<Rightarrow> datetime \<Rightarrow> db \<Rightarrow> db \<times> nat" where
  "run_reconciliation billing_enabled fetch parse_iso now d =
     (if \<not> billing_enabled then (d, 0) else reconcile_subscriptions billing_enabled fetch parse_iso now d)"

definition run_price_reconciliation :: "bool \<Rightarrow> (string \<Rightarrow> json result) \<Rightarrow> datetime \<Rightarrow> db \<Rightarrow> (db \<times> nat) result" where
  "run_price_reconciliation billing_enabled get_variant now d =
     (if \<not> billing_enabled then ok (d, 0) else reconcile_prices billing_enabled get_variant now d)"

section \<open>Looking up and dispatching jobs\<close>

fun job_status_value :: "job_status \<Rightarrow> string" where
  "job_status_value QUEUED = ''queued''"
| "job_status_value RUNNING = ''running''"
| "job_status_value COMPLETE = ''complete''"
| "job_status_value JOB_FAILED = ''failed''"

definition list_jobs :: "string \<Rightarrow> string option \<Rightarrow> nat \<Rightarrow> db \<Rightarrow> job list" where
  "list_jobs user_id status limit d =
     take limit (sort_key (\<lambda>j. - job_queued_at j)
       (select (\<lambda>j. job_user_id j = user_id \<and>
          (case status of None \<Rightarrow> True | Some st \<Rightarrow> st = [] \<or> job_status_value (job_status j) = st)) (jobs d)))"

definition get_job :: "string \<Rightarrow> string \<Rightarrow> db \<Rightarrow> job option result" where
  "get_job jid user_id d = one_or_none (select (\<lambda>j. job_id j = jid \<and> job_user_id j = user_id) (jobs d))"

text \<open>What is put into the queue, or run in the process; the document only in the process.\<close>

datatype task =
    CompileTask string string "normalized_document option"
  | RecompileTask string string string string
  | SweepTask string

definition schedule_compile :: "env \<Rightarrow> bool \<Rightarrow> string \<Rightarrow> string \<Rightarrow> normalized_document option \<Rightarrow> (string \<times> task) job_act" where
  "schedule_compile env is_prod source_id user_id doc w =
     (w\<lparr>w_uuids := w_uuids w + 1\<rparr>,
      ok (en_uuid env (w_uuids w), CompileTask source_id user_id (if is_prod then None else doc)))"

definition schedule_recompile :: "string \<Rightarrow> string \<Rightarrow> string \<Rightarrow> string \<Rightarrow> string \<times> task" where
  "schedule_recompile article_id mode jid user_id = (jid, RecompileTask article_id mode jid user_id)"

definition schedule_sweep :: "env \<Rightarrow> string \<Rightarrow> (string \<times> task) job_act" where
  "schedule_sweep env user_id w = (w\<lparr>w_uuids := w_uuids w + 1\<rparr>, ok (en_uuid env (w_uuids w), SweepTask user_id))"

text \<open>A task run in the process never raises; the queue reports an exception of a task.\<close>

fun task_act :: "worker_env \<Rightarrow> task \<Rightarrow> unit job_act" where
  "task_act we (CompileTask sid uid doc) = compile_source we sid uid doc"
| "task_act we (RecompileTask aid mode jid uid) = recompile_article we aid mode jid uid"
| "task_act we (SweepTask uid) = sweep_wikilinks_job we uid"

definition run_in_process :: "worker_env \<Rightarrow> task \<Rightarrow> world \<Rightarrow> world" where
  "run_in_process we t w = fst (tryS (task_act we t) (\<lambda>_. returnS ()) w)"

text \<open>The route that triggers a compilation.\<close>

definition trigger_compile :: "env \<Rightarrow> bool \<Rightarrow> string \<Rightarrow> string \<Rightarrow> (string \<times> task) job_act" where
  "trigger_compile env is_prod source_id user_id =
     bindS (\<lambda>w. (w, one_or_none (select (\<lambda>x. src_id x = source_id \<and> src_user_id x = user_id) (sources (w_db w))))) (\<lambda>src.
       case src of
         None \<Rightarrow> raiseS (HTTPException 404 ''Source not found'')
       | Some x \<Rightarrow>
           if src_file_path x = None \<or> src_file_path x = Some [] then raiseS (HTTPException 422 ''Source has no content file'')
           else schedule_compile env is_prod source_id user_id None)"

section \<open>Commits keep the constraints\<close>

text \<open>Whatever code does, and however it ends, what is committed satisfies the constraints of the schema.\<close>

interpretation lawful: effect_frame "\<lambda>s t. constraints_ok (se_saved s) \<longrightarrow> constraints_ok (se_saved t)"
  by unfold_locales simp_all

lemma constraints_logged [simp]:
  "constraints_ok (w\<lparr>w_router := ro, w_uuids := n, w_db := (w_db w)\<lparr>cost_logs := c, llm_traces := l\<rparr>\<rparr>) = constraints_ok w"
  by (simp add: constraints_ok_def unique_ok_def foreign_ok_def)

lemma lawful_session: "lawful.keeps m \<Longrightarrow> constraints_ok w \<Longrightarrow> constraints_ok (fst (in_session m w))"
  by (auto simp: lawful.keeps_def in_session_def open_session_def split: prod.splits) (metis fst_conv sess.select_convs(1))

lemma lawful_steps:
  "lawful.keeps (getS g)" "lawful.keeps (putS h)" "lawful.keeps (freshS u)" "lawful.keeps commitS" "lawful.keeps (fileS f)"
  "lawful.keeps (read_fileS f')" "lawful.keeps (llmS env b req uid)"
  by (auto simp: lawful.keeps_def getS_def putS_def checkedS_def readS_def modifyS_def freshS_def commitS_def fileS_def
      read_fileS_def llmS_def Let_def split: prod.splits sum.splits)

lemma lawful_nested: "lawful.keeps m \<Longrightarrow> lawful.keeps (nestedS m)"
proof (rule lawful.keepsI)
  fix s assume "lawful.keeps m"
  from lawful_session [OF this, of "closed s"]
  show "constraints_ok (se_saved s) \<longrightarrow> constraints_ok (se_saved (fst (nestedS m s)))"
    by (auto simp: nestedS_def split: prod.splits)
qed

lemma lawful_cases:
  "(b \<Longrightarrow> lawful.keeps m) \<Longrightarrow> (\<not> b \<Longrightarrow> lawful.keeps n) \<Longrightarrow> lawful.keeps (if b then m else n)"
  "(v = None \<Longrightarrow> lawful.keeps m) \<Longrightarrow> (\<And>x. v = Some x \<Longrightarrow> lawful.keeps (k x)) \<Longrightarrow> lawful.keeps (case v of None \<Rightarrow> m | Some x \<Rightarrow> k x)"
  "(\<And>x y. p = (x, y) \<Longrightarrow> lawful.keeps (h x y)) \<Longrightarrow> lawful.keeps (case p of (x, y) \<Rightarrow> h x y)"
  by (simp, cases v, simp_all, cases p, simp)

lemmas lawful_rules = lawful.keeps_return lawful.keeps_raise lawful.keeps_lift lawful.keeps_bind lawful.keeps_fold lawful.keeps_try
  lawful_cases lawful_steps lawful_nested

lemma lawful_compile: "lawful.keeps (compile env uid doc co)"
  unfolding compile_def compile_small_def compile_chunked_def compile_chunk_def Compiler.ask_def Let_def
  by (intro lawful_rules conjI impI allI; auto intro!: lawful_rules split: prod.split option.split)+

lemma lawful_index: "lawful.keeps (index_article_file env uid aid title path)"
  unfolding index_article_file_def index_rows_def file_or_empty_def
  by (intro lawful_rules) (auto intro!: lawful_rules split: exc.split)

lemma lawful_concept_pages: "lawful.keeps (compile_concept_page env uid c)" "lawful.keeps (maybe_trigger_concept_pages env uid)"
proof -
  show page: "lawful.keeps (compile_concept_page env uid c)" for c
    unfolding compile_concept_page_def synthesize_page_def save_concept_page_def put_concept_row_def write_concept_file_def
      create_synthesizes_links_def create_related_to_links_def related_links_def put_backlinks_def call_llm_def noneS_def Let_def
    by (intro lawful_rules lawful_index)
  show "lawful.keeps (maybe_trigger_concept_pages env uid)"
    unfolding maybe_trigger_concept_pages_def concept_page_turn_def by (intro lawful_rules page)
qed

lemma lawful_save: "lawful.keeps (upsert_article env uid co r src p existing)"
proof -
  have "lawful.keeps (save_core env uid co r src p existing)"
    unfolding save_core_def put_article_def write_article_file_def persist_resolved_backlinks_def put_backlinks_def
      persist_claims_def add_claim_def refresh_confidence_score_def Let_def
    by (intro lawful_rules lawful_index)
  moreover have "lawful.keeps (post_save_side_effects env slug r sid uid)" for slug sid
    unfolding post_save_side_effects_def logS_def update_taxonomy_def regenerate_indexS_def upsert_conceptsS_def
      maybe_trigger_rebuildS_def rebuild_taxonomyS_def
    by (intro lawful_rules lawful_concept_pages)
  ultimately show ?thesis unfolding upsert_article_def by (intro lawful_rules)
qed

section \<open>What the steps of a job leave alone\<close>

interpretation job_rows: steady "\<lambda>w. jobs (w_db w)"
  by unfold_locales (simp add: unsaved_def on_db_def)

interpretation src_keys: steady "\<lambda>w. map src_id (sources (w_db w))"
  by unfold_locales (simp_all add: rest_def unsaved_def on_db_def blank_source_def comp_def)

lemma foldl_fst_same: "(\<And>st x. g (fst (f st x)) = g (fst st)) \<Longrightarrow> g (fst (foldl f st xs)) = g (fst st)"
  by (induction xs arbitrary: st) simp_all

lemma sweep_single_same:
  "jobs (fst (sweep_single_article aid d)) = jobs d" "sources (fst (sweep_single_article aid d)) = sources d"
  by (simp_all add: sweep_single_article_def Let_def split: option.split prod.split)

lemma cleanup_same:
  "jobs (fst (cleanup_orphaned_concept_pages uid d)) = jobs d" "sources (fst (cleanup_orphaned_concept_pages uid d)) = sources d"
  unfolding cleanup_orphaned_concept_pages_def
  by (subst foldl_fst_same [where g = jobs], simp_all add: cleanup_step_def split: prod.split,
      subst foldl_fst_same [where g = sources], simp_all add: cleanup_step_def split: prod.split)

lemma sweep_same:
  "\<exists>k. jobs (sweep_wikilinks jid t0 t1 t2 uid d) = jobs d @ [k] \<and> job_source_id k = None" "sources (sweep_wikilinks jid t0 t1 t2 uid d) = sources d"
proof -
  have one: "jobs (fst (sweep_step st x)) = jobs (fst st)" "sources (fst (sweep_step st x)) = sources (fst st)" for st x
    using sweep_single_same [of x "fst st"] by (auto simp: sweep_step_def split: prod.splits)
  have jobs: "jobs (fst (foldl sweep_step st ids)) = jobs (fst st)" for st ids
    by (rule foldl_fst_same [where g = jobs]) (rule one)
  have srcs: "sources (fst (foldl sweep_step st ids)) = sources (fst st)" for st ids
    by (rule foldl_fst_same [where g = sources]) (rule one)
  let ?d = "fst (cleanup_orphaned_concept_pages uid d)"
  have "jobs (fst (foldl sweep_step (?d, 0) ids)) = jobs d" "sources (fst (foldl sweep_step (?d, 0) ids)) = sources d" for ids
    by (simp_all add: jobs srcs cleanup_same)
  then show "\<exists>k. jobs (sweep_wikilinks jid t0 t1 t2 uid d) = jobs d @ [k] \<and> job_source_id k = None" "sources (sweep_wikilinks jid t0 t1 t2 uid d) = sources d"
    by (auto simp: sweep_wikilinks_def sweep_job_def Let_def cleanup_same split: prod.split) (metis fst_conv)+
qed

lemma sweep_job_same:
  "\<exists>v k. sweep_wikilinks_job we uid w = (v, ok ()) \<and> jobs (w_db v) = jobs (w_db w) @ [k] \<and> job_source_id k = None \<and>
     sources (w_db v) = sources (w_db w)"
  using sweep_same by (auto simp: sweep_wikilinks_job_def Let_def on_db_def failed_def new_job_def)

section \<open>A compilation job ends\<close>

text \<open>The job that runs, last of the jobs: still running, or complete; and the states in which the work is done.\<close>

definition at_work :: "job list \<Rightarrow> job \<Rightarrow> string \<Rightarrow> world \<Rightarrow> bool" where
  "at_work js j sid w \<longleftrightarrow> constraints_ok w \<and> sid \<in> set (map src_id (sources (w_db w))) \<and> jobs (w_db w) = js @ [j]"

definition job_over :: "string \<Rightarrow> job list \<Rightarrow> bool" where
  "job_over jid js \<longleftrightarrow> list_ex (\<lambda>j. job_id j = jid \<and> (job_status j = COMPLETE \<or> job_status j = JOB_FAILED)) js"

definition idle :: "string \<Rightarrow> db \<Rightarrow> bool" where
  "idle sid d \<longleftrightarrow> running_jobs sid d = [] \<and> list_ex (\<lambda>x. src_id x = sid) (sources d) \<and>
     list_all (\<lambda>x. src_id x = sid \<longrightarrow> src_status x \<noteq> PROCESSING) (sources d)"

text \<open>Steps after which the job is as it was.\<close>

definition quiet :: "(world, 'a) eff \<Rightarrow> bool" where
  "quiet m \<longleftrightarrow> (\<forall>w js j sid. at_work js j sid w \<longrightarrow> at_work js j sid (fst (m w)))"

lemma quiet_session:
  assumes "jobs.fr.keeps m" and "src_keys.fr.keeps m" and "lawful.keeps m"
  shows "quiet (in_session m)"
  using lawful_session [OF assms(3)] jobs.keeps_in_session [OF assms(1)] src_keys.keeps_in_session [OF assms(2)]
  by (simp add: quiet_def at_work_def)

lemma quiet_compile: "quiet (in_session (compile env uid doc co))"
  by (intro quiet_session jobs.keeps_compile src_keys.keeps_compile lawful_compile)

lemma quiet_save: "quiet (in_session (save_compiled env src uid r co))"
  unfolding save_compiled_def save_article_def
  by (intro quiet_session jobs.rules src_keys.rules lawful_rules lawful_save job_rows.keeps_save [unfolded save_article_def]
      src_keys.keeps_save [unfolded save_article_def])

lemma constraints_status:
  "(\<And>x. src_id (f x) = src_id x) \<Longrightarrow> constraints_ok (on_db (\<lambda>d. d\<lparr>sources := update_where p f (sources d)\<rparr>) w) = constraints_ok w"
  by (simp add: constraints_ok_def unique_ok_def foreign_ok_def on_db_def map_update_where)

lemma constraints_jobs: "constraints_ok (on_db (\<lambda>d. d\<lparr>jobs := f d\<rparr>) w) = constraints_ok w"
  by (simp add: constraints_ok_def unique_ok_def foreign_ok_def on_db_def)

lemma get_by_there: "k \<in> set (map f xs) \<Longrightarrow> \<exists>x. get_by f k xs = Some x"
  using get_by_None [of f k xs] by (cases "get_by f k xs") simp_all

lemma open_acts:
  "getS f \<lparr>se_saved = a, se_cur = b, se_broken = False\<rparr> = (\<lparr>se_saved = a, se_cur = b, se_broken = False\<rparr>, ok (f b))"
  "putS h \<lparr>se_saved = a, se_cur = b, se_broken = False\<rparr> = (\<lparr>se_saved = a, se_cur = h b, se_broken = False\<rparr>, ok ())"
  "constraints_ok b \<Longrightarrow> commitS \<lparr>se_saved = a, se_cur = b, se_broken = False\<rparr> = (\<lparr>se_saved = b, se_cur = b, se_broken = False\<rparr>, ok ())"
  "closed \<lparr>se_saved = b, se_cur = b, se_broken = False\<rparr> = b"
  by (simp_all add: getS_def putS_def checkedS_def readS_def modifyS_def commitS_def closed_def)

lemma update_unrelated: "k \<notin> set (map f xs) \<Longrightarrow> update_where (\<lambda>x. f x = k) g xs = xs"
  by (induction xs) (auto simp: update_where_def)

text \<open>The job of a run, with no other running job of its source and no other job of its identifier.\<close>

definition own_job :: "job list \<Rightarrow> job \<Rightarrow> string \<Rightarrow> bool" where
  "own_job js j sid \<longleftrightarrow> job_source_id j = Some sid \<and> job_id j \<notin> set (map job_id js) \<and>
     select (\<lambda>x. job_source_id x = Some sid \<and> job_status x = RUNNING) js = [] \<and> job_status j \<in> {RUNNING, COMPLETE}"

lemma update_own: "own_job js j sid \<Longrightarrow> update_where (\<lambda>x. job_id x = job_id j) f (js @ [j]) = js @ [f j]"
  using update_unrelated [of "job_id j" job_id js f] by (simp add: own_job_def update_where_def)

lemma idle_updated:
  assumes "sid \<in> set (map src_id xs)" and "\<And>x. src_id (f x) = src_id x" and "\<And>x. src_status (f x) \<noteq> PROCESSING"
  shows "list_ex (\<lambda>x. src_id x = sid) (update_where (\<lambda>x. src_id x = sid) f xs) \<and>
    list_all (\<lambda>x. src_id x = sid \<longrightarrow> src_status x \<noteq> PROCESSING) (update_where (\<lambda>x. src_id x = sid) f xs)"
  using assms by (auto simp: update_where_def list_ex_iff list_all_iff)

lemma failure_recorded:
  assumes "at_work js j sid w" and "own_job js j sid"
  shows "\<exists>v. in_session (record_failure we sid e) w = (v, ok ()) \<and> job_over (job_id j) (jobs (w_db v)) \<and> idle sid (w_db v)"
proof -
  let ?e = "we_text we e" and ?now = "en_now (we_env we)"
  let ?f = "\<lambda>x. x\<lparr>src_status := INGEST_FAILED, src_error_message := Some ?e\<rparr>"
  let ?js = "js @ [if job_status j = RUNNING then failed ?now ?e j else j]"
  let ?u = "on_db (\<lambda>d. d\<lparr>sources := update_where (\<lambda>x. src_id x = sid) ?f (sources d)\<rparr>) w"
  let ?v = "if job_status j = RUNNING then on_db (\<lambda>d. d\<lparr>jobs := ?js\<rparr>) ?u else ?u"
  have j: "jobs (w_db w) = js @ [j]" "update_where (\<lambda>x. job_id x = job_id j) (failed ?now ?e) (js @ [j]) = js @ [failed ?now ?e j]"
    "running_jobs sid (w_db w) = (if job_status j = RUNNING then [j] else [])"
    using assms update_own [OF assms(2)] by (auto simp: at_work_def own_job_def running_jobs_def select_def [of _ "[j]"])
  obtain x where x: "get_by src_id sid (sources (w_db w)) = Some x"
    using assms(1) get_by_there [of sid src_id "sources (w_db w)"] by (auto simp: at_work_def)
  have "constraints_ok ?u" using assms(1) by (subst constraints_status) (simp_all add: at_work_def)
  then have ok: "constraints_ok ?v" by (simp add: constraints_jobs)
  have js: "jobs (w_db ?v) = ?js" "sources (w_db ?v) = update_where (\<lambda>x. src_id x = sid) ?f (sources (w_db w))"
    using j(1) by (simp_all add: on_db_def)
  have "in_session (record_failure we sid e) w = (?v, ok ())"
    using x ok j
    by (cases "job_status j = RUNNING")
      (simp_all add: in_session_def open_session_def record_failure_def bindS_def open_acts on_source_def put_sources_def on_job_def
        put_jobs_def on_db_def running_jobs_def one_or_none_def)
  moreover have "job_over (job_id j) (jobs (w_db ?v))" "running_jobs sid (w_db ?v) = []"
    using assms(2) unfolding running_jobs_def js by (auto simp: job_over_def own_job_def select_def failed_def)
  moreover have "idle sid (w_db ?v)"
    using calculation(3) idle_updated [of sid "sources (w_db w)" ?f] assms(1) unfolding idle_def js by (simp add: at_work_def)
  ultimately show ?thesis by (intro exI [of _ ?v]) blast
qed

lemma job_completed:
  assumes "at_work js j sid w" and "own_job js j sid"
  shows "in_session (finish_job (job_id j) f) w = (on_db (\<lambda>d. d\<lparr>jobs := js @ [f j]\<rparr>) w, ok ())"
proof -
  have "get_by job_id (job_id j) (js @ [j]) = Some j"
    using assms(2) by (auto simp: get_by_append_new own_job_def)
  moreover have "constraints_ok (on_db (\<lambda>d. d\<lparr>jobs := js @ [f j]\<rparr>) w)"
    using assms(1) by (subst constraints_jobs) (simp add: at_work_def)
  ultimately show ?thesis using assms
    by (simp add: in_session_def open_session_def finish_job_def bindS_def open_acts on_job_def put_jobs_def
        on_db_def at_work_def update_own)
qed

lemma leaves_sources_steps:
  "leaves (\<lambda>w. sources (w_db w)) (index_article_file env uid aid title path)"
  "leaves (\<lambda>w. sources (w_db w)) (persist_resolved_backlinks aid resolved uid)"
  "leaves (\<lambda>w. sources (w_db w)) (persist_claims env aid uid r src spans)"
  "leaves (\<lambda>w. sources (w_db w)) (refresh_confidence_score env aid uid)"
  unfolding index_article_file_def index_rows_def persist_resolved_backlinks_def put_backlinks_def persist_claims_def add_claim_def
    refresh_confidence_score_def
  by (intro leaves_pair leaves_intro leaves_file_or_empty; simp add: on_db_def)+

lemma saved_source_compiled:
  assumes "save_article env uid co r src s = (t, ok aid)"
  shows "list_all (\<lambda>x. src_id x = src_id src \<longrightarrow> src_status x = COMPILED) (sources (w_db (se_saved t)))"
proof -
  from assms obtain existing u slug where core: "save_core env uid co r src (co_provider co) existing s = (u, ok (aid, slug))"
    and side: "post_save_side_effects env slug r (src_id src) uid u = (t, ok ())"
    by (auto simp: save_article_def upsert_article_def act_ok)
  from save_core_steps [OF core] obtain resolved s1 s2 s4 s5 s6 where steps:
    "put_article env uid co r src (co_provider co) existing slug s1 = (s2, ok aid)"
    "index_article_file env uid aid (cr_title r) (article_path env r slug)
      (s2\<lparr>se_cur := on_db (join_rows aid (src_id src) (cr_concepts r)) (se_cur s2),
          se_saved := on_db (join_rows aid (src_id src) (cr_concepts r)) (se_cur s2)\<rparr>) = (s4, ok ())"
    "persist_resolved_backlinks aid resolved uid s4 = (s5, ok ())"
    "persist_claims env aid uid r src (co_spans co) s5 = (s6, ok ())"
    "refresh_confidence_score env aid uid s6 = (u, ok ())"
    by metis
  have "sources (w_db (se_cur u)) = sources (w_db (se_cur s2))"
    using leavesD [OF leaves_sources_steps(1) steps(2)] leavesD [OF leaves_sources_steps(2) steps(3)]
      leavesD [OF leaves_sources_steps(3) steps(4)] leavesD [OF leaves_sources_steps(4) steps(5)] by (simp add: on_db_def join_rows_def)
  moreover have "holds_view (\<lambda>w. sources (w_db w)) u t" by (rule sources.fr.keepsD [OF sources.keeps_side_effects side])
  moreover have "se_saved u = se_cur u" by (rule refresh_saved [OF steps(5)])
  ultimately have "sources (w_db (se_saved t)) = sources (w_db (se_cur s2))" by (simp add: holds_view_def)
  moreover have "list_all (\<lambda>x. src_id x = src_id src \<longrightarrow> src_status x = COMPILED) (sources (w_db (se_cur s2)))"
    using steps(1) by (auto simp: put_article_def Let_def act_ok mark_compiled_def on_db_def list_all_iff set_update_where split: option.splits)
  ultimately show ?thesis by simp
qed

lemma compiled_source:
  assumes "in_session (save_compiled env sid uid r co) w = (v, ok a)"
  shows "list_all (\<lambda>x. src_id x = sid \<longrightarrow> src_status x = COMPILED) (sources (w_db v))"
proof -
  from assms obtain t where t: "save_compiled env sid uid r co (open_session w) = (t, ok a)" and v: "v = closed t"
    by (auto simp: in_session_def split: prod.splits)
  from t obtain x aid u where x: "get_by src_id sid (sources (w_db w)) = Some x"
    and save: "save_article env uid co r x (open_session w) = (u, ok aid)" and u: "t = u"
    by (auto simp: save_compiled_def act_ok open_session_def raiseS_def split: option.splits)
  from saved_source_compiled [OF save] get_by_Some [OF x] show ?thesis by (simp add: v u)
qed

text \<open>How a part of a run ends: with its job over, or with an exception while the job is still its own.\<close>

definition ends :: "job list \<Rightarrow> string \<Rightarrow> string \<Rightarrow> world \<times> unit result \<Rightarrow> bool" where
  "ends js jid sid x \<longleftrightarrow>
     (case snd x of
        Inr _ \<Rightarrow> job_over jid (jobs (w_db (fst x))) \<and> idle sid (w_db (fst x))
      | Inl _ \<Rightarrow> \<exists>j. at_work js j sid (fst x) \<and> own_job js j sid \<and> job_id j = jid)"

lemma ends_bind:
  assumes "ends js jid sid (f x w)" and "m w = (w, ok x)"
  shows "ends js jid sid (bindS m f w)"
  using assms by (simp add: bindS_def)

lemma ends_raised: "at_work js j sid w \<Longrightarrow> own_job js j sid \<Longrightarrow> ends js (job_id j) sid (w, Inl e)"
  by (auto simp: ends_def)

lemma ends_step:
  assumes "quiet m" and "at_work js j sid w" and "own_job js j sid" and "\<And>x v. m w = (v, ok x) \<Longrightarrow> at_work js j sid v \<Longrightarrow> ends js (job_id j) sid (f x v)"
  shows "ends js (job_id j) sid (bindS m f w)"
proof -
  obtain v r where m: "m w = (v, r)" by (rule prod.exhaust)
  with assms(1,2) have "at_work js j sid v" unfolding quiet_def by (metis fst_conv)
  with m assms(4) ends_raised [OF _ assms(3)] show ?thesis by (cases r) (auto simp: bindS_def)
qed

lemma quiet_result: "quiet (compiled_result env uid doc)"
  using quiet_compile [of env uid doc new_compiler]
  by (fastforce simp: quiet_def compiled_result_def bindS_def raiseS_def returnS_def split: prod.splits sum.splits option.splits)

lemma quiet_takeaways: "quiet (in_session (extract_takeaways env uid doc))"
  unfolding extract_takeaways_def by (intro quiet_session jobs.rules src_keys.rules lawful_rules)

lemma completed_over:
  assumes "own_job js j sid"
  shows "job_over (job_id j) (js @ completed now t j # ks)" and "own_job js (completed now t j) sid"
    and "list_all (\<lambda>k. job_source_id k = None) ks \<Longrightarrow>
      select (\<lambda>j. job_source_id j = Some sid \<and> job_status j = RUNNING) (js @ completed now t j # ks) = []"
  using assms by (auto simp: job_over_def own_job_def completed_def select_def list_all_iff filter_empty_conv)

lemma compile_direct_ends:
  assumes "at_work js j sid w" and "own_job js j sid"
  shows "ends js (job_id j) sid (compile_direct we sid doc (job_id j) uid w)"
  unfolding compile_direct_def Let_def
proof (rule ends_step [OF quiet_result assms], clarify)
  fix r co v assume v: "at_work js j sid v"
  show "ends js (job_id j) sid (bindS (in_session (save_compiled (we_env we) sid uid r co)) (\<lambda>a.
      bindS (in_session (finish_job (job_id j) (completed (en_now (we_env we)) (''Created article: '' @ art_slug a)))) (\<lambda>_.
      bindS (try_embed_article we a) (\<lambda>_. sweep_wikilinks_job we uid))) v)"
  proof (rule ends_step [OF quiet_save v assms(2)])
    fix a u assume save: "in_session (save_compiled (we_env we) sid uid r co) v = (u, ok a)" and u: "at_work js j sid u"
    obtain msg where msg: "''Created article: '' @ art_slug a = msg" by simp
    let ?j = "completed (en_now (we_env we)) msg j"
    let ?u = "on_db (\<lambda>d. d\<lparr>jobs := js @ [?j]\<rparr>) u"
    have done1: "at_work js ?j sid ?u" using u by (simp add: at_work_def constraints_jobs) (simp add: on_db_def)
    note own = completed_over(2) [OF assms(2)]
    have id: "job_id ?j = job_id j" by (simp add: completed_def)
    obtain k s where sweep: "sweep_wikilinks_job we uid ?u = (s, ok ())" "jobs (w_db s) = (js @ [?j]) @ [k]" "job_source_id k = None"
      "sources (w_db s) = sources (w_db u)"
      using sweep_job_same [of we uid ?u] by (auto simp: on_db_def)
    have "list_ex (\<lambda>x. src_id x = sid) (sources (w_db u))" using u by (auto simp: at_work_def list_ex_iff)
    then have "idle sid (w_db s)"
      using compiled_source [OF save] completed_over(3) [OF assms(2), of "[k]"] sweep(2,3,4)
      by (auto simp: idle_def running_jobs_def list_all_iff)
    then have final: "ends js (job_id j) sid (s, ok ())"
      using completed_over(1) [OF assms(2), of _ _ "[k]"] by (simp add: ends_def sweep(2))
    have "\<exists>x. try_embed_article we a ?u = (?u, x)"
      by (auto simp: try_embed_article_def tryS_def returnS_def raiseS_def split: option.split sum.split)
    then obtain x where embed: "try_embed_article we a ?u = (?u, x)" ..
    have "ends js (job_id j) sid (bindS (try_embed_article we a) (\<lambda>_. sweep_wikilinks_job we uid) ?u)"
      using ends_raised [OF done1 own] final embed id by (cases x) (auto simp: bindS_def sweep(1))
    then show "ends js (job_id j) sid (bindS (in_session (finish_job (job_id j) (completed (en_now (we_env we)) (''Created article: '' @ art_slug a)))) (\<lambda>_.
        bindS (try_embed_article we a) (\<lambda>_. sweep_wikilinks_job we uid)) u)"
      using job_completed [OF u assms(2)] unfolding msg by (simp add: bindS_def [of "in_session _"])
  qed
qed

lemma draft_step_ends:
  assumes "at_work js j sid w" and "own_job js j sid" and "src_id src = sid"
  shows "ends js (job_id j) sid (in_session
    (bindS (create_draft env src r ts) (\<lambda>did.
     bindS (getS (\<lambda>w. get_by job_id (job_id j) (jobs (w_db w)))) (\<lambda>k.
     bindS (case k of None \<Rightarrow> returnS () | Some _ \<Rightarrow> on_job (job_id j) (completed now msg)) (\<lambda>_. commitS)))) w)" (is "ends _ _ _ (in_session ?m w)")
proof -
  let ?f = "\<lambda>x. x\<lparr>src_status := REVIEW_PENDING\<rparr>"
  let ?u = "on_db (\<lambda>d. d\<lparr>compilation_drafts := compilation_drafts d @ [new_draft env (en_uuid env (w_uuids w)) src r ts],
      sources := update_where (\<lambda>x. src_id x = sid) ?f (sources d)\<rparr>) (w\<lparr>w_uuids := w_uuids w + 1\<rparr>)"
  let ?v = "on_db (\<lambda>d. d\<lparr>jobs := js @ [completed now msg j]\<rparr>) ?u"
  have get: "get_by job_id (job_id j) (js @ [j]) = Some j"
    using assms(2) by (auto simp: get_by_append_new own_job_def)
  have js: "jobs (w_db w) = js @ [j]" using assms(1) by (simp add: at_work_def)
  show ?thesis
  proof (cases "constraints_ok ?u")
    case True
    then have "constraints_ok ?v" by (simp add: constraints_jobs)
    with True have "in_session ?m w = (?v, ok ())"
      using get update_own [OF assms(2), of "completed now msg"] assms(3) js
      by (simp add: in_session_def open_session_def create_draft_def bindS_def freshS_def open_acts put_drafts_def put_sources_def
          on_job_def put_jobs_def on_db_def)
    moreover have "idle sid (w_db ?v)"
      using idle_updated [of sid "sources (w_db w)" ?f] completed_over(3) [OF assms(2), of "[]"] assms(1)
      by (simp add: idle_def running_jobs_def on_db_def at_work_def)
    ultimately show ?thesis
      using completed_over(1) [OF assms(2), of now msg "[]"] by (simp add: ends_def on_db_def)
  next
    case False
    then obtain v e where "in_session ?m w = (v, Inl e)" and "v = w\<lparr>w_uuids := w_uuids w + 1\<rparr>"
      using assms(3)
      by (simp add: in_session_def open_session_def create_draft_def bindS_def freshS_def open_acts put_drafts_def put_sources_def
          on_db_def commitS_def closed_def)
    with assms(1) ends_raised [OF _ assms(2)] show ?thesis
      by (simp add: at_work_def constraints_ok_def unique_ok_def foreign_ok_def)
  qed
qed

lemma compile_interactive_ends:
  assumes "at_work js j sid w" and "own_job js j sid" and "src_id src = sid"
  shows "ends js (job_id j) sid (compile_interactive we src doc (job_id j) uid w)"
  unfolding compile_interactive_def Let_def
proof (rule ends_step [OF quiet_takeaways assms(1,2)])
  fix ts v assume v: "at_work js j sid v"
  show "ends js (job_id j) sid (bindS (compiled_result (we_env we) uid doc) (\<lambda>(r, co).
      in_session (bindS (create_draft (we_env we) src r ts) (\<lambda>did.
        bindS (getS (\<lambda>w. get_by job_id (job_id j) (jobs (w_db w)))) (\<lambda>k.
        bindS (case k of None \<Rightarrow> returnS () | Some _ \<Rightarrow> on_job (job_id j) (completed (en_now (we_env we)) (''Draft created for review: '' @ cr_title r))) (\<lambda>_.
          commitS))))) v)"
    by (rule ends_step [OF quiet_result v assms(2)], clarify, rule draft_step_ends [OF _ assms(2,3)])
qed

lemma body_ends:
  assumes "at_work js j sid w" and "own_job js j sid" and "src_id src = sid"
  shows "ends js (job_id j) sid (compile_body we src uid doc (job_id j) w)"
proof -
  let ?k = "\<lambda>d. case d of None \<Rightarrow> returnS () | Some x \<Rightarrow> if we_interactive we then compile_interactive we src x (job_id j) uid
      else compile_direct we (src_id src) x (job_id j) uid"
  have go: "ends js (job_id j) sid (?k (Some x) w)" for x
    using compile_direct_ends [OF assms(1,2)] compile_interactive_ends [OF assms] assms(3) by simp
  show ?thesis
  proof (cases doc)
    case (Some d)
    with go show ?thesis by (simp add: compile_body_def bindS_def)
  next
    case None
    obtain y where "get_by src_id sid (sources (w_db w)) = Some y"
      using assms(1) get_by_there [of sid src_id "sources (w_db w)"] by (auto simp: at_work_def)
    then have "in_session (read_document we sid) w = (w, map_sum id Some (build_normalized_doc we y))"
      by (cases "build_normalized_doc we y")
        (simp_all add: in_session_def open_session_def read_document_def bindS_def open_acts)
    then have "compile_body we src uid doc (job_id j) w =
        (case build_normalized_doc we y of Inl e \<Rightarrow> (w, Inl e) | Inr d \<Rightarrow> ?k (Some d) w)"
      using None assms(3) by (simp add: compile_body_def bindS_def split: sum.split)
    with go ends_raised [OF assms(1,2)] show ?thesis by (auto split: sum.splits)
  qed
qed


section \<open>A page that blocks the sweep\<close>

text \<open>
  Where foreign keys are enforced, a concept page whose file is missing and that still has a concept of its own in
  the join table makes every sweep of its owner fail: the page is not removed, no article changes, and the job, which
  is the only thing written, says failed. A later sweep meets the same rows.
\<close>

lemma orphan_page_blocks_sweep:
  assumes "w_postgres w" and "a \<in> set (articles (w_db w))" and "art_page_type a = CONCEPT" and "art_user_id a = uid"
    and "wiki_files (w_db w) (uid, art_file_path a) = None"
    and "x \<in> set (article_concepts (w_db w))" and "ac_article_id x = art_id a"
  shows "\<exists>v k. sweep_wikilinks_job we uid w = (v, ok ()) \<and> v = on_db (\<lambda>d. d\<lparr>jobs := jobs d @ [k]\<rparr>) (w\<lparr>w_uuids := w_uuids w + 1\<rparr>) \<and>
    job_status k = JOB_FAILED"
proof -
  let ?d = "fst (cleanup_orphaned_concept_pages uid (w_db w))"
  have "art_id a \<notin> set (map art_id (articles ?d))"
    using assms(2-5) by (fastforce simp: cleanup_orphaned_concept_pages_def foldl_cleanup_step image_iff)
  moreover have "article_concepts ?d = article_concepts (w_db w)"
    by (simp add: cleanup_orphaned_concept_pages_def foldl_cleanup_step)
  ultimately have "\<not> list_all (\<lambda>x. ac_article_id x \<in> set (map art_id (articles ?d))) (article_concepts ?d)"
    using assms(6,7) unfolding list_all_iff by metis
  then have "\<not> foreign_ok (on_db (\<lambda>d. fst (cleanup_orphaned_concept_pages uid d)) w)"
    by (simp add: foreign_ok_def on_db_def)
  with assms(1) have "\<not> constraints_ok (on_db (\<lambda>d. fst (cleanup_orphaned_concept_pages uid d)) w)"
    by (simp add: constraints_ok_def) (simp add: on_db_def)
  then show ?thesis
    by (auto simp: sweep_wikilinks_job_def Let_def failed_def
        intro!: exI [of _ "failed (en_now (we_env we)) (we_text we (IntegrityError ''constraint'')) (new_job (en_now (we_env we))
          (en_uuid (we_env we) (w_uuids w)) SWEEP_WIKILINKS None uid)"])
qed

section \<open>Witnesses\<close>

text \<open>The source has neither text nor file, so that the job fails.\<close>

definition ex_job_env :: worker_env where
  "ex_job_env = \<lparr>we_env = ex_env0, we_raw = Map.empty, we_interactive = False, we_embed = None, we_text = (\<lambda>e. ''error'')\<rparr>"

definition ex_job_world :: world where
  "ex_job_world = on_db (\<lambda>d. d\<lparr>sources := map (\<lambda>x. x\<lparr>src_clean_text := None, src_file_path := None\<rparr>) (sources d)\<rparr>) (ex_world0 True ''topic-y'')"


definition ex_orphan_world :: world where
  "ex_orphan_world = on_db (\<lambda>d. d\<lparr>articles := [(new_article ''a1'' ''u1'' ''y'' ''Y'' ''general/y.md'' 0)\<lparr>art_page_type := CONCEPT\<rparr>],
     wiki_files := Map.empty\<rparr>) (ex_world0 True ''topic-y'')"

lemma orphan_page_blocks_sweep_witness:
  "case sweep_wikilinks_job ex_job_env ''u1'' ex_orphan_world of
     (v, r) \<Rightarrow> r = ok () \<and> map job_status (jobs (w_db v)) = [JOB_FAILED] \<and> map art_id (articles (w_db v)) = [''a1'']"
proof -
  let ?a = "(new_article ''a1'' ''u1'' ''y'' ''Y'' ''general/y.md'' 0)\<lparr>art_page_type := CONCEPT\<rparr>"
  have w: "w_postgres ex_orphan_world" "articles (w_db ex_orphan_world) = [?a]" "jobs (w_db ex_orphan_world) = []"
    "wiki_files (w_db ex_orphan_world) = Map.empty"
    "article_concepts (w_db ex_orphan_world) = [\<lparr>ac_article_id = ''a1'', ac_concept_name = ''topic-y''\<rparr>]"
    by (simp_all add: ex_orphan_world_def on_db_def ex_world0_def ex_wiki_db_def empty_db_def)
  have a: "art_id ?a = ''a1''" "art_user_id ?a = ''u1''" by (simp_all add: new_article_def)
  from orphan_page_blocks_sweep [of ex_orphan_world ?a "''u1''" "\<lparr>ac_article_id = ''a1'', ac_concept_name = ''topic-y''\<rparr>" ex_job_env]
  show ?thesis by (auto simp: w a on_db_def)
qed

end
