(* ===== verification/Wiki.thy ===== *)
theory Wiki
  imports Worker Tags Search
begin

text \<open>
  The wiki as users see and edit it, \<^verbatim>\<open>src/src/wikimind/services/wiki.py\<close>: lists, articles with their links
  and sources, the graph, the search that merges words with vectors, edits, stubs, wikilinks, the recompilation of an
  article and suggestions of articles to synthesize. Reads are functions of the database; what writes and commits is
  an action of the request's session. The vector search, the random choice and the \<open>lower\<close> of the database are
  parameters, and so is the order in which a Python set is iterated (\<open>en_set\<close>). Pages without an order come in the
  order of the rows.
\<close>

section \<open>Responses\<close>

record wiki_env =
  wk_env :: env
  wk_decay_rate :: rat
  wk_semantic :: "(string \<Rightarrow> nat \<Rightarrow> string \<Rightarrow> (string \<times> rat) list result) option"
  wk_lower :: "string \<Rightarrow> string"
  wk_pick :: "nat \<Rightarrow> nat"

fun mapR :: "('a \<Rightarrow> 'b result) \<Rightarrow> 'a list \<Rightarrow> 'b list result" where
  "mapR f [] = ok []"
| "mapR f (x # xs) = bindR (f x) (\<lambda>y. bindR (mapR f xs) (\<lambda>ys. ok (y # ys)))"

definition effective_confidence :: "env \<Rightarrow> article \<Rightarrow> rat" where
  "effective_confidence env a =
     (case art_last_reinforced_at a of
        None \<Rightarrow> art_confidence_score a
      | Some t \<Rightarrow> apply_decay (art_confidence_score a) (max 0 ((en_now env - t) div day_us)))"

definition staleness_score :: "wiki_env \<Rightarrow> article \<Rightarrow> rat" where
  "staleness_score we a =
     (case art_last_reinforced_at a of
        None \<Rightarrow> 1
      | Some t \<Rightarrow> compute_staleness (fl (fl (of_int (en_now (wk_env we) - t) / 1000000) / 86400)) (wk_decay_rate we))"

definition first_concept :: "env \<Rightarrow> string option \<Rightarrow> string option" where
  "first_concept env concept_ids_json = first_of (parse_json_column (en_loads env) concept_ids_json)"

record source_response =
  sr_id :: string
  sr_source_type :: source_type
  sr_title :: "string option"
  sr_source_url :: "string option"
  sr_ingested_at :: datetime

definition to_source_response :: "source \<Rightarrow> source_response" where
  "to_source_response s = \<lparr>sr_id = src_id s, sr_source_type = src_source_type s, sr_title = src_title s,
     sr_source_url = src_source_url s, sr_ingested_at = src_ingested_at s\<rparr>"

record source_summary =
  su_id :: string
  su_source_type :: source_type
  su_title :: "string option"

definition to_source_summary :: "source \<Rightarrow> source_summary" where
  "to_source_summary s = \<lparr>su_id = src_id s, su_source_type = src_source_type s, su_title = src_title s\<rparr>"

record article_summary =
  sm_id :: string
  sm_slug :: string
  sm_title :: string
  sm_summary :: "string option"
  sm_confidence :: "confidence_level option"
  sm_linter_score :: "rat option"
  sm_confidence_score :: rat
  sm_effective_confidence :: rat
  sm_staleness_score :: rat
  sm_sources :: "source_summary list"
  sm_source_count :: nat
  sm_backlink_count :: nat
  sm_created_at :: datetime
  sm_updated_at :: datetime
  sm_page_type :: page_type
  sm_concepts :: "string list"
  sm_tags :: "tag_response list"
  sm_source_ids :: "string list"
  sm_user_id :: string
  sm_manually_edited :: bool
  sm_is_stub :: bool

definition build_article_summary :: "wiki_env \<Rightarrow> db \<Rightarrow> article \<Rightarrow> article_summary result" where
  "build_article_summary we d a =
     (let env = wk_env we;
          source_ids = fetch_source_ids_for_article (en_loads env) (art_id a) d;
          concepts = fetch_concept_names_for_article (en_loads env) (art_id a) d;
          srcs = fetch_sources source_ids d;
          backlink_count = length (select (\<lambda>b. bl_target_article_id b = art_id a) (backlinks d))
            + length (select (\<lambda>b. bl_source_article_id b = art_id a) (backlinks d))
      in bindR (get_tags_for_article (art_id a) None d) (\<lambda>tags.
           ok \<lparr>sm_id = art_id a, sm_slug = art_slug a, sm_title = art_title a, sm_summary = art_summary a,
               sm_confidence = art_confidence a, sm_linter_score = art_linter_score a,
               sm_confidence_score = art_confidence_score a, sm_effective_confidence = effective_confidence env a,
               sm_staleness_score = staleness_score we a, sm_sources = map to_source_summary srcs,
               sm_source_count = length srcs, sm_backlink_count = backlink_count, sm_created_at = art_created_at a,
               sm_updated_at = art_updated_at a, sm_page_type = art_page_type a, sm_concepts = concepts, sm_tags = tags,
               sm_source_ids = source_ids, sm_user_id = art_user_id a, sm_manually_edited = art_manually_edited a,
               sm_is_stub = art_is_stub a\<rparr>))"

section \<open>Lists of articles\<close>

definition wanted :: "string option \<Rightarrow> bool" where
  "wanted v = (v \<noteq> None \<and> v \<noteq> Some [])"

definition listed :: "string \<Rightarrow> string option \<Rightarrow> string option \<Rightarrow> string option \<Rightarrow> string list option \<Rightarrow> db \<Rightarrow> article list" where
  "listed user_id concept confidence page_type article_ids d =
     select (\<lambda>a. art_user_id a = user_id \<and>
       (case article_ids of None \<Rightarrow> True | Some ids \<Rightarrow> art_id a \<in> set ids) \<and>
       (wanted concept \<longrightarrow> list_ex (\<lambda>x. ac_article_id x = art_id a \<and> Some (ac_concept_name x) = concept) (article_concepts d)) \<and>
       (wanted confidence \<longrightarrow> map_option confidence_level_value (art_confidence a) = confidence) \<and>
       (wanted page_type \<longrightarrow> Some (page_type_value (art_page_type a)) = page_type)) (articles d)"

definition list_articles ::
  "wiki_env \<Rightarrow> string \<Rightarrow> string option \<Rightarrow> string option \<Rightarrow> string option \<Rightarrow> nat \<Rightarrow> nat \<Rightarrow> string list option \<Rightarrow> db \<Rightarrow>
   article_summary list result" where
  "list_articles we user_id concept confidence page_type limit offset article_ids d =
     (if article_ids = Some [] then ok []
      else mapR (build_article_summary we d) (take limit (drop offset (listed user_id concept confidence page_type article_ids d))))"

definition get_random_article :: "wiki_env \<Rightarrow> string \<Rightarrow> db \<Rightarrow> article_summary result" where
  "get_random_article we user_id d =
     (let own = select (\<lambda>a. art_user_id a = user_id) (articles d)
      in if own = [] then raise (NotFoundError ''No articles found'')
         else build_article_summary we d (own ! (wk_pick we (length own) mod length own)))"

section \<open>One article\<close>

record backlink_entry =
  be_id :: string
  be_title :: string
  be_slug :: string
  be_relation_type :: relation_type
  be_resolution :: "string option"

record article_response =
  arp_id :: string
  arp_slug :: string
  arp_title :: string
  arp_summary :: "string option"
  arp_confidence :: "confidence_level option"
  arp_linter_score :: "rat option"
  arp_confidence_score :: rat
  arp_effective_confidence :: rat
  arp_staleness_score :: rat
  arp_concepts :: "string list"
  arp_tags :: "tag_response list"
  arp_backlinks_in :: "backlink_entry list"
  arp_backlinks_out :: "backlink_entry list"
  arp_content :: string
  arp_sources :: "source_response list"
  arp_created_at :: datetime
  arp_updated_at :: datetime
  arp_page_type :: page_type
  arp_manually_edited :: bool
  arp_edited_at :: "datetime option"
  arp_is_stub :: bool

definition owned_article :: "string \<Rightarrow> string \<Rightarrow> db \<Rightarrow> article result" where
  "owned_article id_or_slug user_id d =
     bindR (one_or_none (select (\<lambda>a. art_id a = id_or_slug \<and> art_user_id a = user_id) (articles d))) (\<lambda>by_id.
     bindR (case by_id of Some a \<Rightarrow> ok (Some a)
            | None \<Rightarrow> one_or_none (select (\<lambda>a. art_slug a = id_or_slug \<and> art_user_id a = user_id) (articles d))) (\<lambda>found.
       case found of None \<Rightarrow> raise (NotFoundError ''Article not found'') | Some a \<Rightarrow> ok a))"

definition entry_of :: "backlink \<Rightarrow> article \<Rightarrow> backlink_entry" where
  "entry_of b a = \<lparr>be_id = art_id a, be_title = art_title a, be_slug = art_slug a, be_relation_type = bl_relation_type b,
     be_resolution = bl_resolution b\<rparr>"

definition joined_articles :: "(backlink \<Rightarrow> string) \<Rightarrow> backlink list \<Rightarrow> db \<Rightarrow> (backlink \<times> article) list" where
  "joined_articles key bls d = concat (map (\<lambda>b. map (Pair b) (select (\<lambda>a. art_id a = key b) (articles d))) bls)"

definition entries_in :: "string \<Rightarrow> db \<Rightarrow> backlink_entry list" where
  "entries_in aid d =
     map (\<lambda>(b, a). entry_of b a) (joined_articles bl_source_article_id (select (\<lambda>b. bl_target_article_id b = aid) (backlinks d)) d)"

definition entries_out :: "string \<Rightarrow> db \<Rightarrow> backlink_entry list" where
  "entries_out aid d =
     map (\<lambda>(b, a). entry_of b a) (joined_articles bl_target_article_id (select (\<lambda>b. bl_source_article_id b = aid) (backlinks d)) d)"

definition get_article_response :: "wiki_env \<Rightarrow> string \<Rightarrow> string \<Rightarrow> db \<Rightarrow> article_response result" where
  "get_article_response we id_or_slug user_id d =
     bindR (owned_article id_or_slug user_id d) (\<lambda>a.
       let env = wk_env we; aid = art_id a
       in bindR (get_tags_for_article aid None d) (\<lambda>tags.
            ok \<lparr>arp_id = aid, arp_slug = art_slug a, arp_title = art_title a, arp_summary = art_summary a,
                arp_confidence = art_confidence a, arp_linter_score = art_linter_score a,
                arp_confidence_score = art_confidence_score a, arp_effective_confidence = effective_confidence env a,
                arp_staleness_score = staleness_score we a, arp_concepts = fetch_concept_names_for_article (en_loads env) aid d,
                arp_tags = tags, arp_backlinks_in = entries_in aid d, arp_backlinks_out = entries_out aid d,
                arp_content = read_content d (art_file_path a) (art_user_id a),
                arp_sources = map to_source_response (fetch_sources (fetch_source_ids_for_article (en_loads env) aid d) d),
                arp_created_at = art_created_at a, arp_updated_at = art_updated_at a, arp_page_type = art_page_type a,
                arp_manually_edited = art_manually_edited a, arp_edited_at = art_edited_at a, arp_is_stub = art_is_stub a\<rparr>))"

text \<open>A hand edit. The object of the row is updated and flushed with the commit.\<close>

definition on_article :: "string \<Rightarrow> (article \<Rightarrow> article) \<Rightarrow> unit act" where
  "on_article aid f = putS (on_db (\<lambda>d. d\<lparr>articles := update_where (\<lambda>a. art_id a = aid) f (articles d)\<rparr>))"

definition edited :: "datetime \<Rightarrow> string option \<Rightarrow> article \<Rightarrow> article" where
  "edited now title a =
     a\<lparr>art_title := (case title of Some t \<Rightarrow> t | None \<Rightarrow> art_title a), art_manually_edited := True,
       art_edited_at := Some now, art_updated_at := now\<rparr>"

definition liftG :: "(db \<Rightarrow> 'a result) \<Rightarrow> 'a act" where
  "liftG f = bindS (getS w_db) (\<lambda>d. liftS (f d))"

definition edit_article :: "wiki_env \<Rightarrow> string \<Rightarrow> string \<Rightarrow> string option \<Rightarrow> string option \<Rightarrow> article_response act" where
  "edit_article we id_or_slug user_id content title =
     (let env = wk_env we
      in if content = None \<and> title = None then liftG (get_article_response we id_or_slug user_id)
         else
           bindS (liftG (owned_article id_or_slug user_id)) (\<lambda>a.
           bindS (case content of None \<Rightarrow> returnS ()
                  | Some c \<Rightarrow> fileS (wiki_write (en_data_dir env) user_id (art_file_path a) c)) (\<lambda>_.
           bindS (on_article (art_id a) (edited (en_now env) title)) (\<lambda>_.
           bindS commitS (\<lambda>_.
             liftG (get_article_response we id_or_slug user_id))))))"

definition resolve_article_id :: "string \<Rightarrow> string \<Rightarrow> db \<Rightarrow> string option" where
  "resolve_article_id id_or_slug user_id d =
     (if id_or_slug = [] then None
      else case first_of (select (\<lambda>a. art_id a = id_or_slug \<and> art_user_id a = user_id) (articles d)) of
             Some a \<Rightarrow> Some (art_id a)
           | None \<Rightarrow> map_option art_id (first_of (select (\<lambda>a. art_slug a = id_or_slug \<and> art_user_id a = user_id) (articles d))))"

definition refresh_article :: "env \<Rightarrow> string \<Rightarrow> string \<Rightarrow> article act" where
  "refresh_article env id_or_slug user_id =
     bindS (getS (\<lambda>w. resolve_article_id id_or_slug user_id (w_db w))) (\<lambda>aid.
       case aid of
         None \<Rightarrow> raiseS (NotFoundError ''Article not found'')
       | Some i \<Rightarrow>
           bindS (get_or_raise (NotFoundError ''Article not found'') (article_by_id i)) (\<lambda>a.
           bindS (on_article i (\<lambda>a. a\<lparr>art_last_reinforced_at := Some (en_now env)\<rparr>)) (\<lambda>_.
           bindS (freshS (en_uuid env)) (\<lambda>eid.
           bindS (putS (\<lambda>w. w\<lparr>w_events := w_events w @ [\<lparr>re_id = eid, re_article_id = i, re_event_type = ''manual_refresh'',
             re_occurred_at = en_now env, re_source_id = None, re_user_id = user_id\<rparr>]\<rparr>)) (\<lambda>_.
           bindS commitS (\<lambda>_.
             get_or_raise NoResultFound (article_by_id i)))))))"

section \<open>The graph\<close>

record graph_node =
  gn_id :: string
  gn_label :: string
  gn_concept_cluster :: "string option"
  gn_concepts :: "string list"
  gn_connection_count :: nat
  gn_confidence :: "confidence_level option"
  gn_confidence_score :: rat
  gn_effective_confidence :: rat

record graph_edge =
  ge_source :: string
  ge_target :: string
  ge_context :: "string option"
  ge_relation_type :: relation_type
  ge_resolution :: "string option"

definition resolved_end :: "string option \<Rightarrow> string \<Rightarrow> db \<Rightarrow> string option option" where
  "resolved_end v user_id d =
     (case v of
        Some (x # s) \<Rightarrow> (case resolve_article_id (x # s) user_id d of None \<Rightarrow> None | Some i \<Rightarrow> Some (Some i))
      | _ \<Rightarrow> Some None)"

definition graph_links :: "string \<Rightarrow> relation_type option \<Rightarrow> string option \<Rightarrow> string option \<Rightarrow> db \<Rightarrow> backlink list" where
  "graph_links user_id rel from_id to_id d =
     select (\<lambda>b. bl_user_id b = user_id \<and> (rel = None \<or> Some (bl_relation_type b) = rel) \<and>
       (from_id = None \<or> Some (bl_source_article_id b) = from_id) \<and>
       (to_id = None \<or> Some (bl_target_article_id b) = to_id)) (backlinks d)"

definition connection_step :: "(string \<rightharpoonup> nat) \<Rightarrow> backlink \<Rightarrow> (string \<rightharpoonup> nat)" where
  "connection_step m b =
     (let inc = (\<lambda>m k. m(k \<mapsto> (case m k of None \<Rightarrow> 0 | Some n \<Rightarrow> n) + 1))
      in inc (inc m (bl_source_article_id b)) (bl_target_article_id b))"

definition connection_counts :: "backlink list \<Rightarrow> (string \<rightharpoonup> nat)" where
  "connection_counts bls = foldl connection_step Map.empty bls"

definition node_of :: "env \<Rightarrow> (string \<times> string list) list \<Rightarrow> (string \<rightharpoonup> nat) \<Rightarrow> article \<Rightarrow> graph_node" where
  "node_of env concepts_by counts a =
     \<lparr>gn_id = art_id a, gn_label = art_title a, gn_concept_cluster = first_concept env (art_concept_ids a),
      gn_concepts = (case map_of concepts_by (art_id a) of None \<Rightarrow> [] | Some ns \<Rightarrow> ns),
      gn_connection_count = (case counts (art_id a) of None \<Rightarrow> 0 | Some n \<Rightarrow> n), gn_confidence = art_confidence a,
      gn_confidence_score = art_confidence_score a, gn_effective_confidence = effective_confidence env a\<rparr>"

definition edge_of :: "backlink \<Rightarrow> graph_edge" where
  "edge_of b = \<lparr>ge_source = bl_source_article_id b, ge_target = bl_target_article_id b, ge_context = bl_context b,
     ge_relation_type = bl_relation_type b,
     ge_resolution = (if bl_relation_type b = CONTRADICTS then bl_resolution b else None)\<rparr>"

definition get_graph ::
  "env \<Rightarrow> string \<Rightarrow> relation_type option \<Rightarrow> string option \<Rightarrow> string option \<Rightarrow> db \<Rightarrow> graph_node list \<times> graph_edge list" where
  "get_graph env user_id rel from_article to_article d =
     (case (resolved_end from_article user_id d, resolved_end to_article user_id d) of
        (Some from_id, Some to_id) \<Rightarrow>
          (let bls = graph_links user_id rel from_id to_id d;
               arts = select (\<lambda>a. art_user_id a = user_id) (articles d);
               concepts_by = fetch_concepts_for_articles (map art_id arts) d
           in (map (node_of env concepts_by (connection_counts bls)) arts, map edge_of bls))
      | _ \<Rightarrow> ([], []))"

record relationship_edge =
  rle_article_id :: string
  rle_slug :: string
  rle_title :: string
  rle_relation_type :: relation_type
  rle_context :: "string option"
  rle_resolution :: "string option"

definition rel_edge :: "backlink \<Rightarrow> article \<Rightarrow> relationship_edge" where
  "rel_edge b a = \<lparr>rle_article_id = art_id a, rle_slug = art_slug a, rle_title = art_title a,
     rle_relation_type = bl_relation_type b, rle_context = bl_context b, rle_resolution = bl_resolution b\<rparr>"

text \<open>\<open>setdefault(rel, []).append(edge)\<close>: the groups in the order of their first edge.\<close>

definition group_edges :: "string \<Rightarrow> (backlink \<times> article) list \<Rightarrow> (relation_type \<times> relationship_edge list) list" where
  "group_edges user_id rows =
     (let own = filter (\<lambda>(b, a). art_user_id a = user_id) rows
      in map (\<lambda>rel. (rel, map (\<lambda>(b, a). rel_edge b a) (filter (\<lambda>(b, a). bl_relation_type b = rel) own)))
           (nub (map (\<lambda>(b, a). bl_relation_type b) own)))"

definition get_relationships ::
  "string \<Rightarrow> string \<Rightarrow> db \<Rightarrow>
   ((relation_type \<times> relationship_edge list) list \<times> (relation_type \<times> relationship_edge list) list) result" where
  "get_relationships id_or_slug user_id d =
     (case resolve_article_id id_or_slug user_id d of
        None \<Rightarrow> raise (NotFoundError ''Article not found'')
      | Some aid \<Rightarrow>
          ok (group_edges user_id (joined_articles bl_source_article_id (select (\<lambda>b. bl_target_article_id b = aid) (backlinks d)) d),
              group_edges user_id (joined_articles bl_target_article_id (select (\<lambda>b. bl_source_article_id b = aid) (backlinks d)) d)))"

section \<open>Search\<close>

definition KEYWORD_WEIGHT :: rat where "KEYWORD_WEIGHT = fl (4 / 10)"
definition SEMANTIC_WEIGHT :: rat where "SEMANTIC_WEIGHT = fl (6 / 10)"

definition best_semantic :: "(string \<times> rat) list \<Rightarrow> (string \<times> rat) list" where
  "best_semantic rows =
     foldl (\<lambda>m (aid, score). if score > (case map_of m aid of None \<Rightarrow> 0 | Some c \<Rightarrow> c) then dict_set aid score m else m) [] rows"

definition lookup_score :: "(string \<times> rat) list \<Rightarrow> string \<Rightarrow> rat" where
  "lookup_score m k = (case map_of m k of None \<Rightarrow> 0 | Some v \<Rightarrow> v)"

definition merge_hybrid_scores :: "env \<Rightarrow> (string \<times> rat) list \<Rightarrow> (string \<times> rat) list \<Rightarrow> (string \<times> rat) list" where
  "merge_hybrid_scores env keyword_scores semantic_results =
     (let sem = best_semantic semantic_results
      in map (\<lambda>aid. (aid, fl (fl (KEYWORD_WEIGHT * lookup_score keyword_scores aid) + fl (SEMANTIC_WEIGHT * lookup_score sem aid))))
           (en_set env (map fst keyword_scores @ map fst sem)))"

text \<open>\<open>str.count\<close>: occurrences that do not overlap, and one at every position for the empty string.\<close>

function count_sub :: "string \<Rightarrow> string \<Rightarrow> nat" where
  "count_sub q s =
     (if q = [] then length s + 1
      else case find_sub q s of None \<Rightarrow> 0 | Some i \<Rightarrow> 1 + count_sub q (drop (i + length q) s))"
  by pat_completeness auto
termination
proof (relation "measure (length \<circ> snd)")
  fix q s :: string and i :: nat
  assume "q \<noteq> []" "find_sub q s = Some i"
  then show "((q, drop (i + length q) s), q, s) \<in> measure (length \<circ> snd)"
    using find_sub_Some [of q s i] by (cases q) auto
qed simp

declare count_sub.simps [simp del]

definition contains :: "string \<Rightarrow> string \<Rightarrow> bool" where
  "contains q s = (find_sub q s \<noteq> None)"

definition raw_score :: "string \<Rightarrow> db \<Rightarrow> article \<Rightarrow> nat option" where
  "raw_score q_lower d a =
     (let content = py_lower (read_content d (art_file_path a) (art_user_id a)); in_title = contains q_lower (py_lower (art_title a))
      in if in_title \<or> contains q_lower content then Some ((if in_title then 10 else 0) + count_sub q_lower content) else None)"

definition keyword_search :: "string \<Rightarrow> string \<Rightarrow> db \<Rightarrow> (string \<times> rat) list" where
  "keyword_search q user_id d =
     (let raw = List.map_filter (\<lambda>a. map_option (Pair (art_id a)) (raw_score (py_lower q) d a))
            (select (\<lambda>a. art_user_id a = user_id) (articles d));
          m = foldl max 0 (map snd raw)
      in if raw = [] then [] else if m = 0 then map (\<lambda>(i, s). (i, 0)) raw
         else map (\<lambda>(i, s). (i, fl (of_nat s / of_nat m))) raw)"

definition combined_scores :: "wiki_env \<Rightarrow> string \<Rightarrow> nat \<Rightarrow> string \<Rightarrow> (string \<times> rat) list \<Rightarrow> (string \<times> rat) list result" where
  "combined_scores we q limit user_id keyword_scores =
     (case wk_semantic we of
        None \<Rightarrow> ok keyword_scores
      | Some f \<Rightarrow>
          (case f q limit user_id of
             Inr rows \<Rightarrow> ok (merge_hybrid_scores (wk_env we) keyword_scores rows)
           | Inl e \<Rightarrow> if is_embed_error e then ok keyword_scores else raise e))"

definition ranked_ids :: "nat \<Rightarrow> (string \<times> rat) list \<Rightarrow> string list" where
  "ranked_ids limit m = map fst (take limit (sort_key (\<lambda>(i, v). - v) m))"

definition wiki_search :: "wiki_env \<Rightarrow> string \<Rightarrow> string \<Rightarrow> nat \<Rightarrow> db \<Rightarrow> article_summary list result" where
  "wiki_search we q user_id limit d =
     bindR (combined_scores we q limit user_id (keyword_search q user_id d)) (\<lambda>m.
       mapR (build_article_summary we d) (List.map_filter (\<lambda>i. get_by art_id i (articles d)) (ranked_ids limit m)))"

section \<open>Concepts\<close>

definition get_concepts :: "string \<Rightarrow> bool \<Rightarrow> db \<Rightarrow> concept list" where
  "get_concepts user_id include_empty d =
     select (\<lambda>c. con_user_id c = user_id \<and> (include_empty \<or> con_article_count c > 0)) (concepts d)"

definition get_concept_articles :: "wiki_env \<Rightarrow> string \<Rightarrow> string \<Rightarrow> nat \<Rightarrow> nat \<Rightarrow> db \<Rightarrow> article_summary list result" where
  "get_concept_articles we name user_id limit offset d = list_articles we user_id (Some name) None None limit offset None d"

definition get_concept :: "wiki_env \<Rightarrow> string \<Rightarrow> string \<Rightarrow> db \<Rightarrow> (concept \<times> article_summary list) result" where
  "get_concept we name user_id d =
     bindR (one_or_none (select (\<lambda>c. con_name c = name \<and> con_user_id c = user_id) (concepts d))) (\<lambda>c.
       case c of
         None \<Rightarrow> raise (NotFoundError (''Concept not found: '' @ name))
       | Some x \<Rightarrow> bindR (list_articles we user_id (Some name) None None 50 0 None d) (\<lambda>arts. ok (x, arts)))"

section \<open>Stubs and wikilinks\<close>

definition stub_content :: "string \<Rightarrow> string \<Rightarrow> string \<Rightarrow> string" where
  "stub_content title slug body_markdown =
     (let nl = [CHR 0x0A]
      in ''---'' @ nl @ ''title: '' @ [CHR 0x22] @ title @ [CHR 0x22] @ nl @ ''slug: '' @ slug @ nl @ ''page_type: source'' @ nl
         @ ''is_stub: true'' @ nl @ ''---'' @ nl @ nl @ body_markdown)"

definition create_stub_article :: "env \<Rightarrow> string \<Rightarrow> string \<Rightarrow> string \<Rightarrow> (string \<times> string) act" where
  "create_stub_article env title body_markdown user_id =
     bindS (liftG (choose_slug env user_id title None)) (\<lambda>slug.
       let path = ''stubs/'' @ slug @ ''.md''
       in bindS (fileS (wiki_write (en_data_dir env) user_id path (stub_content title slug body_markdown))) (\<lambda>_.
          bindS (freshS (en_uuid env)) (\<lambda>aid.
          bindS (putS (on_db (\<lambda>d. d\<lparr>articles := articles d @ [(new_article aid user_id slug title path (en_now env))\<lparr>art_is_stub := True\<rparr>]\<rparr>))) (\<lambda>_.
          bindS commitS (\<lambda>_. returnS (aid, slug))))))"

definition wikilink_query :: "string \<Rightarrow> string" where
  "wikilink_query query = py_strip (strip_by (\<lambda>c. c = CHR '']'') (strip_by (\<lambda>c. c = CHR ''['') (py_strip query)))"

text \<open>\<open>contains\<close> of a column is \<open>LIKE\<close> with the text between percent signs; its wildcards are not escaped.\<close>

definition resolve_wikilinks :: "(string \<Rightarrow> string) \<Rightarrow> string \<Rightarrow> string \<Rightarrow> nat \<Rightarrow> db \<Rightarrow> article list" where
  "resolve_wikilinks lower query user_id limit d =
     (let q = wikilink_query query
      in if q = [] then []
         else take limit (sort_key art_title (select (\<lambda>a. art_user_id a = user_id \<and>
                like (''%'' @ py_lower q @ ''%'') (lower (art_title a))) (articles d))))"

definition title_index :: "string \<Rightarrow> db \<Rightarrow> (string \<rightharpoonup> article)" where
  "title_index user_id d = index_first (\<lambda>a. Some (py_lower (art_title a))) (select (\<lambda>a. art_user_id a = user_id) (articles d))"

definition replace_wikilink :: "(string \<rightharpoonup> article) \<Rightarrow> string \<Rightarrow> string" where
  "replace_wikilink by_lower g =
     (let title = py_strip g
      in case by_lower (py_lower title) of
           Some target \<Rightarrow> ''['' @ title @ ''](/wiki/articles/'' @ art_slug target @ '')''
         | None \<Rightarrow> bracketed g)"

definition process_wikilinks :: "string \<Rightarrow> string \<Rightarrow> db \<Rightarrow> string" where
  "process_wikilinks markdown user_id d =
     (if findall markdown = [] then markdown else sub_links (replace_wikilink (title_index user_id d)) markdown)"

section \<open>Health\<close>

record health_summary =
  hs_generated_at :: "datetime option"
  hs_total_articles :: int
  hs_total_findings :: "int option"
  hs_contradictions_count :: "int option"
  hs_orphans_count :: "int option"
  hs_status :: "report_status option"
  hs_message :: "string option"

fun is_http_exception :: "exc \<Rightarrow> bool" where
  "is_http_exception (HTTPException c s) = True"
| "is_http_exception _ = False"

definition get_health_summary :: "string \<Rightarrow> lint_state \<Rightarrow> health_summary result" where
  "get_health_summary user_id s =
     (case get_latest user_id s of
        Inr detail \<Rightarrow>
          (let r = ld_report detail
           in ok \<lparr>hs_generated_at = Some (lr_generated_at r), hs_total_articles = lr_article_count r,
                  hs_total_findings = Some (lr_total_findings r), hs_contradictions_count = Some (lr_contradictions_count r),
                  hs_orphans_count = Some (lr_orphans_count r), hs_status = Some (lr_status r), hs_message = None\<rparr>)
      | Inl e \<Rightarrow>
          if is_http_exception e \<or> is_sqlalchemy_error e
          then ok \<lparr>hs_generated_at = None, hs_total_articles = int (length (articles (ls_db s))), hs_total_findings = None,
                   hs_contradictions_count = None, hs_orphans_count = None, hs_status = None,
                   hs_message = Some ''Run the linter to generate a health report''\<rparr>
          else raise e)"

section \<open>Contradictions between two articles\<close>

definition all_resolutions :: "string list" where
  "all_resolutions = [''both_valid'', ''source_a_wins'', ''source_b_wins'', ''superseded'']"

definition link_between :: "string \<Rightarrow> string \<Rightarrow> backlink \<Rightarrow> bool" where
  "link_between src tgt b \<longleftrightarrow> bl_source_article_id b = src \<and> bl_target_article_id b = tgt \<and> bl_relation_type b = CONTRADICTS"

definition close_link :: "datetime \<Rightarrow> string \<Rightarrow> string option \<Rightarrow> backlink \<Rightarrow> backlink" where
  "close_link now resolution note b =
     b\<lparr>bl_resolution := Some resolution, bl_resolution_note := note, bl_resolved_at := Some now, bl_resolved_by := Some ''user''\<rparr>"

definition close_contradiction :: "datetime \<Rightarrow> string \<Rightarrow> string \<Rightarrow> contradiction \<Rightarrow> contradiction" where
  "close_contradiction now resolution user_id c =
     c\<lparr>ctr_status := RESOLVED, ctr_resolution := Some resolution, ctr_resolved_at := Some now, ctr_resolved_by := Some user_id\<rparr>"

definition resolve_legacy_contradiction :: "datetime \<Rightarrow> string \<Rightarrow> string \<Rightarrow> string \<Rightarrow> string option \<Rightarrow> string \<Rightarrow> unit act" where
  "resolve_legacy_contradiction now source_id target_id resolution note user_id =
     (if resolution \<notin> set all_resolutions then raiseS (HTTPException 422
       (''resolution must be one of ['' @ py_join '', '' (map (\<lambda>r. [CHR 0x27] @ r @ [CHR 0x27]) all_resolutions) @ '']''))
      else
        bindS (getS (\<lambda>w. select (\<lambda>b. link_between source_id target_id b \<or> link_between target_id source_id b) (backlinks (w_db w)))) (\<lambda>links.
          if links = [] then raiseS (HTTPException 404 ''Contradiction backlink not found'')
          else
            bindS (putS (on_db (\<lambda>d. d\<lparr>backlinks := update_where (\<lambda>b. link_between source_id target_id b \<or> link_between target_id source_id b)
                (close_link now resolution note) (backlinks d)\<rparr>))) (\<lambda>_.
            bindS (putS (on_db (\<lambda>d. d\<lparr>contradictions := update_where (\<lambda>c. ctr_user_id c = user_id \<and> ctr_status c = ACTIVE \<and>
                  ctr_article_a_id c \<in> {source_id, target_id} \<and> ctr_article_b_id c \<in> {source_id, target_id})
                (close_contradiction now resolution user_id) (contradictions d)\<rparr>))) (\<lambda>_.
              commitS))))"

section \<open>Recompiling on request\<close>

fun mode_of :: "page_type \<Rightarrow> string" where
  "mode_of CONCEPT = ''concept''"
| "mode_of _ = ''source''"

definition queued_job :: "datetime \<Rightarrow> string \<Rightarrow> string \<Rightarrow> string \<Rightarrow> job" where
  "queued_job now jid article_id user_id =
     (new_job now jid RECOMPILE_ARTICLE (Some article_id) user_id)\<lparr>job_status := QUEUED, job_started_at := None\<rparr>"

definition request_recompile :: "env \<Rightarrow> string \<Rightarrow> string \<Rightarrow> string option \<Rightarrow> bool \<Rightarrow> (string \<times> task) act" where
  "request_recompile env article_id user_id mode force =
     (if mode \<noteq> None \<and> mode \<noteq> Some ''source'' \<and> mode \<noteq> Some ''concept''
      then raiseS (HTTPException 422 ''mode must be one of ['concept', 'source'] or null'')
      else
        bindS (liftG (\<lambda>d. one_or_none (select (\<lambda>a. art_id a = article_id \<and> art_user_id a = user_id) (articles d)))) (\<lambda>found.
          case found of
            None \<Rightarrow> raiseS (HTTPException 404 ''Article not found'')
          | Some a \<Rightarrow>
              if art_manually_edited a \<and> \<not> force
              then raiseS (HTTPException 409 ''Article has manual edits. Use force=true to overwrite.'')
              else
                bindS (if art_manually_edited a
                       then bindS (on_article article_id (\<lambda>a. a\<lparr>art_manually_edited := False, art_edited_at := None\<rparr>)) (\<lambda>_. commitS)
                       else returnS ()) (\<lambda>_.
                bindS (freshS (en_uuid env)) (\<lambda>jid.
                bindS (put_jobs (\<lambda>js. js @ [queued_job (en_now env) jid article_id user_id])) (\<lambda>_.
                bindS commitS (\<lambda>_.
                  returnS (schedule_recompile article_id (case mode of Some m \<Rightarrow> m | None \<Rightarrow> mode_of (art_page_type a)) jid user_id)))))))"

section \<open>Suggestions of articles to synthesize\<close>

record suggestion =
  sg_article_ids :: "string list"
  sg_reason :: string
  sg_type :: string

text \<open>A \<open>frozenset\<close> of ids as the sorted list of its members; the ids seen together.\<close>

definition frozen :: "string list \<Rightarrow> string list" where
  "frozen ids = sort (nub ids)"

type_synonym suggesting = "suggestion list \<times> string list list"

definition propose :: "string list \<Rightarrow> string \<Rightarrow> string \<Rightarrow> suggesting \<Rightarrow> suggesting" where
  "propose ids reason typ st =
     (let (suggestions, seen) = st; key = frozen ids
      in if key \<in> set seen then st
         else (suggestions @ [\<lparr>sg_article_ids = ids, sg_reason = reason, sg_type = typ\<rparr>], seen @ [key]))"

fun pairs_of :: "'a list \<Rightarrow> ('a \<times> 'a) list" where
  "pairs_of [] = []"
| "pairs_of (x # xs) = map (Pair x) xs @ pairs_of xs"

definition concept_rows :: "string \<Rightarrow> db \<Rightarrow> (string \<times> string) list" where
  "concept_rows user_id d =
     concat (map (\<lambda>x. map (\<lambda>a. (art_id a, ac_concept_name x))
       (select (\<lambda>a. art_id a = ac_article_id x \<and> art_user_id a = user_id \<and> art_page_type a \<noteq> SYNTHESIS) (articles d))) (article_concepts d))"

definition concepts_of :: "string \<Rightarrow> (string \<times> string) list \<Rightarrow> string list" where
  "concepts_of aid rows = nub (map snd (filter (\<lambda>(i, n). i = aid) rows))"

definition articles_with :: "string \<Rightarrow> (string \<times> string) list \<Rightarrow> string list" where
  "articles_with name rows = nub (map fst (filter (\<lambda>(i, n). n = name) rows))"

definition suggest_shared :: "(string \<times> string) list \<Rightarrow> suggesting \<Rightarrow> suggesting" where
  "suggest_shared rows st =
     foldl (\<lambda>st (a, b).
         let shared = filter (\<lambda>n. n \<in> set (concepts_of b rows)) (concepts_of a rows)
         in if length shared \<ge> 3
            then propose [a, b] (''Share '' @ show_nat (length shared) @ '' concepts: '' @ py_join '', '' (take 5 (sort shared))) ''shared_concepts'' st
            else st)
       st (pairs_of (nub (map fst rows)))"

definition suggest_contradictions :: "env \<Rightarrow> string \<Rightarrow> db \<Rightarrow> suggesting \<Rightarrow> suggesting" where
  "suggest_contradictions env user_id d st =
     (let keys = map (\<lambda>c. frozen [ctr_article_a_id c, ctr_article_b_id c])
            (select (\<lambda>c. ctr_user_id c = user_id \<and> ctr_status c = ACTIVE) (contradictions d))
      in foldl (\<lambda>st key. propose (en_set env key) (show_nat (count_list keys key) @ '' active contradiction(s) between these articles'')
             ''contradiction'' st)
           st (nub keys))"

definition source_set :: "string \<Rightarrow> db \<Rightarrow> string list" where
  "source_set aid d = map as_source_id (select (\<lambda>x. as_article_id x = aid) (article_sources d))"

definition has_different_sources :: "string \<Rightarrow> string \<Rightarrow> db \<Rightarrow> bool" where
  "has_different_sources a b d =
     (source_set a d \<noteq> [] \<and> source_set b d \<noteq> [] \<and> list_all (\<lambda>s. s \<notin> set (source_set b d)) (source_set a d))"

definition suggest_sources :: "env \<Rightarrow> (string \<times> string) list \<Rightarrow> db \<Rightarrow> suggesting \<Rightarrow> suggesting" where
  "suggest_sources env rows d st =
     foldl (\<lambda>st name.
         foldl (\<lambda>st (a, b).
             if has_different_sources a b d
             then propose [a, b] (''Same topic ('' @ name @ '') from different sources'') ''same_topic_different_sources'' st
             else st)
           st (pairs_of (en_set env (articles_with name rows))))
       st (nub (map snd rows))"

definition title_or_unknown :: "db \<Rightarrow> string \<Rightarrow> string" where
  "title_or_unknown d aid = (case get_by art_id aid (articles d) of None \<Rightarrow> ''Unknown'' | Some a \<Rightarrow> art_title a)"

definition get_synthesis_suggestions :: "env \<Rightarrow> string \<Rightarrow> nat \<Rightarrow> db \<Rightarrow> (suggestion \<times> string list) list" where
  "get_synthesis_suggestions env user_id limit d =
     (let rows = concept_rows user_id d;
          (suggestions, seen) = suggest_sources env rows d (suggest_contradictions env user_id d (suggest_shared rows ([], [])))
      in take limit (map (\<lambda>s. (s, map (title_or_unknown d) (sg_article_ids s))) suggestions))"

section \<open>The graph counts its edges\<close>

lemma count_step: "(case connection_step m b k of None \<Rightarrow> 0 | Some n \<Rightarrow> n) =
  (case m k of None \<Rightarrow> 0 | Some n \<Rightarrow> n) + (if bl_source_article_id b = k then 1 else 0) + (if bl_target_article_id b = k then 1 else 0)"
  by (simp add: connection_step_def)

lemma connection_counts_exact:
  "(case connection_counts bls k of None \<Rightarrow> 0 | Some n \<Rightarrow> n) =
    length (filter (\<lambda>b. bl_source_article_id b = k) bls) + length (filter (\<lambda>b. bl_target_article_id b = k) bls)"
proof -
  have "(case foldl connection_step m bls k of None \<Rightarrow> 0 | Some n \<Rightarrow> n) = (case m k of None \<Rightarrow> 0 | Some n \<Rightarrow> n) +
      length (filter (\<lambda>b. bl_source_article_id b = k) bls) + length (filter (\<lambda>b. bl_target_article_id b = k) bls)" for m
    by (induction bls arbitrary: m) (simp_all add: count_step)
  then show ?thesis by (simp add: connection_counts_def)
qed

lemma sum_fibres:
  assumes "distinct ks" and "list_all (\<lambda>x. f x \<in> set ks) xs"
  shows "sum_list (map (\<lambda>k. length (filter (\<lambda>x. f x = k) xs)) ks) = length xs"
  using assms(2)
proof (induction xs)
  case (Cons x xs)
  have "sum_list (map (\<lambda>k. length (filter (\<lambda>y. f y = k) (x # xs))) ks) =
      sum_list (map (\<lambda>k. (if f x = k then 1 else 0) + length (filter (\<lambda>y. f y = k) xs)) ks)"
    by (intro arg_cong [where f = sum_list] map_cong) simp_all
  also have "\<dots> = sum_list (map (\<lambda>k. if f x = k then 1 else 0) ks) + length xs"
    using Cons by (simp add: sum_list_addf)
  also have "sum_list (map (\<lambda>k. if f x = k then 1 else 0) ks) = (1 :: nat)"
    using assms(1) Cons.prems by (simp add: sum_list_distinct_conv_sum_set)
  finally show ?case by simp
qed simp

text \<open>The edges of a graph whose two ends are nodes of it.\<close>

definition closed_graph :: "graph_node list \<Rightarrow> graph_edge list \<Rightarrow> bool" where
  "closed_graph ns es \<longleftrightarrow> distinct (map gn_id ns) \<and>
     list_all (\<lambda>e. ge_source e \<in> set (map gn_id ns) \<and> ge_target e \<in> set (map gn_id ns)) es"

text \<open>
  C34. A filtered graph has every article of the user as a node and, of the edges of the whole graph, exactly those
  that pass all filters; it is empty if an end that is asked for does not exist. The connection count of a node is the
  number of shown edges that leave it plus those that enter it, so that the counts add up to twice the edges when
  both ends of every edge are shown.
\<close>

theorem graph_filters_exact:
  assumes "get_graph env uid rel from_article to_article d = (ns, es)"
  shows "(case (resolved_end from_article uid d, resolved_end to_article uid d) of
      (Some f, Some t) \<Rightarrow> map gn_id ns = map art_id (select (\<lambda>a. art_user_id a = uid) (articles d)) \<and>
        es = filter (\<lambda>e. (rel = None \<or> Some (ge_relation_type e) = rel) \<and> (f = None \<or> Some (ge_source e) = f) \<and>
          (t = None \<or> Some (ge_target e) = t)) (snd (get_graph env uid None None None d))
    | _ \<Rightarrow> ns = [] \<and> es = []) \<and>
    list_all (\<lambda>n. gn_connection_count n = length (filter (\<lambda>e. ge_source e = gn_id n) es) + length (filter (\<lambda>e. ge_target e = gn_id n) es)) ns \<and>
    (closed_graph ns es \<longrightarrow> sum_list (map gn_connection_count ns) = 2 * length es)"
proof (cases "resolved_end from_article uid d = None \<or> resolved_end to_article uid d = None")
  case True
  then show ?thesis using assms by (auto simp: get_graph_def split: option.splits)
next
  case False
  then obtain f t where ft: "resolved_end from_article uid d = Some f" "resolved_end to_article uid d = Some t" by auto
  let ?bls = "graph_links uid rel f t d" and ?own = "select (\<lambda>a. art_user_id a = uid) (articles d)"
  let ?by = "fetch_concepts_for_articles (map art_id ?own) d"
  have ns: "ns = map (node_of env ?by (connection_counts ?bls)) ?own" and es: "es = map edge_of ?bls"
    using assms ft by (simp_all add: get_graph_def Let_def)
  have ids: "map gn_id ns = map art_id ?own" by (simp add: ns node_of_def comp_def)
  have all: "snd (get_graph env uid None None None d) = map edge_of (select (\<lambda>b. bl_user_id b = uid) (backlinks d))"
    by (simp add: get_graph_def resolved_end_def graph_links_def Let_def)
  have edges: "es = filter (\<lambda>e. (rel = None \<or> Some (ge_relation_type e) = rel) \<and> (f = None \<or> Some (ge_source e) = f) \<and>
      (t = None \<or> Some (ge_target e) = t)) (snd (get_graph env uid None None None d))"
    unfolding es all graph_links_def by (simp add: filter_map comp_def edge_of_def select_def conj_commute)
  have count: "gn_connection_count n = length (filter (\<lambda>e. ge_source e = gn_id n) es) + length (filter (\<lambda>e. ge_target e = gn_id n) es)"
    if "n \<in> set ns" for n
    using that by (auto simp: ns es node_of_def connection_counts_exact filter_map comp_def edge_of_def)
  have "sum_list (map gn_connection_count ns) = 2 * length es" if "closed_graph ns es"
  proof -
    have "sum_list (map gn_connection_count ns) = sum_list (map (\<lambda>k. length (filter (\<lambda>e. ge_source e = k) es)) (map gn_id ns)) +
        sum_list (map (\<lambda>k. length (filter (\<lambda>e. ge_target e = k) es)) (map gn_id ns))"
      using count by (simp add: comp_def cong: map_cong) (simp add: sum_list_addf)
    also have "\<dots> = length es + length es"
      using that sum_fibres [of "map gn_id ns" ge_source es] sum_fibres [of "map gn_id ns" ge_target es]
      by (simp add: closed_graph_def list_all_iff)
    finally show ?thesis by simp
  qed
  with ft ids edges count show ?thesis by (simp add: list_all_iff)
qed

section \<open>Suggestions are justified\<close>

lemma frozen_eq: "frozen xs = frozen ys \<longleftrightarrow> set xs = set ys"
proof
  assume "frozen xs = frozen ys"
  then have "set (frozen xs) = set (frozen ys)" by simp
  then show "set xs = set ys" by (simp add: frozen_def)
next
  assume "set xs = set ys"
  then show "frozen xs = frozen ys"
    by (intro sorted_distinct_set_unique) (simp_all add: frozen_def)
qed

text \<open>What is suggested is what was seen, once each, and satisfies a condition.\<close>

definition st_ok :: "(suggestion \<Rightarrow> bool) \<Rightarrow> suggesting \<Rightarrow> bool" where
  "st_ok P st \<longleftrightarrow> map (frozen \<circ> sg_article_ids) (fst st) = snd st \<and> distinct (snd st) \<and> list_all P (fst st)"

lemma propose_ok: "st_ok P st \<Longrightarrow> P \<lparr>sg_article_ids = ids, sg_reason = r, sg_type = t\<rparr> \<Longrightarrow> st_ok P (propose ids r t st)"
  by (auto simp: st_ok_def propose_def Let_def split: prod.splits)

lemma propose_seen: "set (snd st) \<subseteq> set (snd (propose ids r t st))" "frozen ids \<in> set (snd (propose ids r t st))"
  by (auto simp: propose_def Let_def split: prod.splits)

lemma propose_keeps: "k \<in> set b \<Longrightarrow> k \<in> set (snd (propose ids r t (a, b)))"
  using propose_seen(1) [of "(a, b)" ids r t] by auto

lemma foldl_ok: "(\<And>st x. x \<in> set xs \<Longrightarrow> st_ok P st \<Longrightarrow> st_ok P (f st x)) \<Longrightarrow> st_ok P st \<Longrightarrow> st_ok P (foldl f st xs)"
  by (induction xs arbitrary: st) simp_all

lemma foldl_seen: "(\<And>st x. set (snd st) \<subseteq> set (snd (f st x))) \<Longrightarrow> set (snd st) \<subseteq> set (snd (foldl f st xs))"
  by (induction xs arbitrary: st) (simp, fastforce)

lemma foldl_seen_all:
  assumes "\<And>st x. set (snd st) \<subseteq> set (snd (f st x))" and "\<And>st x. x \<in> set xs \<Longrightarrow> k x \<in> set (snd (f st x))"
  shows "k ` set xs \<subseteq> set (snd (foldl f st xs))"
  using assms(2)
proof (induction xs arbitrary: st)
  case (Cons x xs)
  have "k x \<in> set (snd (foldl f (f st x) xs))" using Cons.prems [of x st] foldl_seen [where f = f and st = "f st x" and xs = xs, OF assms(1)] by auto
  with Cons show ?case by simp
qed simp

lemma pairs_of_in: "(a, b) \<in> set (pairs_of xs) \<Longrightarrow> a \<in> set xs \<and> b \<in> set xs" and
  pairs_of_distinct: "distinct xs \<Longrightarrow> (a, b) \<in> set (pairs_of xs) \<Longrightarrow> a \<noteq> b"
proof -
  show mem: "(a, b) \<in> set (pairs_of xs) \<Longrightarrow> a \<in> set xs \<and> b \<in> set xs" for xs by (induction xs) auto
  show "distinct xs \<Longrightarrow> (a, b) \<in> set (pairs_of xs) \<Longrightarrow> a \<noteq> b" by (induction xs) (auto dest: mem)
qed

definition names_of :: "db \<Rightarrow> string \<Rightarrow> string set" where
  "names_of d aid = ac_concept_name ` {x \<in> set (article_concepts d). ac_article_id x = aid}"

definition compilable :: "string \<Rightarrow> db \<Rightarrow> string \<Rightarrow> bool" where
  "compilable uid d aid \<longleftrightarrow> list_ex (\<lambda>a. art_id a = aid \<and> art_user_id a = uid \<and> art_page_type a \<noteq> SYNTHESIS) (articles d)"

lemma concept_rows_in: "(i, n) \<in> set (concept_rows uid d) \<Longrightarrow> compilable uid d i \<and> n \<in> names_of d i"
  by (auto simp: concept_rows_def compilable_def names_of_def list_ex_iff)

definition shares_concepts :: "string \<Rightarrow> db \<Rightarrow> string list \<Rightarrow> bool" where
  "shares_concepts uid d ids \<longleftrightarrow> (\<exists>a b. ids = [a, b] \<and> a \<noteq> b \<and> compilable uid d a \<and> compilable uid d b \<and> card (names_of d a \<inter> names_of d b) \<ge> 3)"

definition contradicts_actively :: "string \<Rightarrow> db \<Rightarrow> string list \<Rightarrow> bool" where
  "contradicts_actively uid d ids \<longleftrightarrow> list_ex (\<lambda>c. ctr_user_id c = uid \<and> ctr_status c = ACTIVE \<and> set ids = {ctr_article_a_id c, ctr_article_b_id c}) (contradictions d)"

definition same_topic_apart :: "string \<Rightarrow> db \<Rightarrow> string list \<Rightarrow> bool" where
  "same_topic_apart uid d ids \<longleftrightarrow> (\<exists>a b. ids = [a, b] \<and> a \<noteq> b \<and> compilable uid d a \<and> compilable uid d b \<and> names_of d a \<inter> names_of d b \<noteq> {} \<and>
     has_different_sources a b d)"

definition justified :: "string \<Rightarrow> db \<Rightarrow> suggestion \<Rightarrow> bool" where
  "justified uid d s \<longleftrightarrow>
     (sg_type s = ''shared_concepts'' \<and> shares_concepts uid d (sg_article_ids s)) \<or>
     (sg_type s = ''contradiction'' \<and> contradicts_actively uid d (sg_article_ids s)) \<or>
     (sg_type s = ''same_topic_different_sources'' \<and> same_topic_apart uid d (sg_article_ids s))"

lemma shared_ok:
  assumes "st_ok (justified uid d) st"
  shows "st_ok (justified uid d) (suggest_shared (concept_rows uid d) st)"
  unfolding suggest_shared_def
proof (rule foldl_ok [OF _ assms], clarify)
  let ?rows = "concept_rows uid d"
  fix st0 st1 a b assume ab: "(a, b) \<in> set (pairs_of (nub (map fst ?rows)))" and st: "st_ok (justified uid d) (st0, st1)"
  let ?shared = "filter (\<lambda>n. n \<in> set (concepts_of b ?rows)) (concepts_of a ?rows)"
  have own: "compilable uid d a" "compilable uid d b" "a \<noteq> b"
    using pairs_of_in [OF ab] pairs_of_distinct [OF distinct_nub ab] concept_rows_in [of _ _ uid d] by force+
  have "set ?shared \<subseteq> names_of d a \<inter> names_of d b"
    using concept_rows_in [of _ _ uid d] by (auto simp: concepts_of_def)
  moreover have "finite (names_of d a \<inter> names_of d b)" by (simp add: names_of_def)
  moreover have "distinct ?shared" by (simp add: concepts_of_def)
  ultimately have "length ?shared \<le> card (names_of d a \<inter> names_of d b)"
    by (metis card_mono distinct_card)
  with own have "shares_concepts uid d [a, b]" if "3 \<le> length ?shared" using that by (auto simp: shares_concepts_def)
  with st show "st_ok (justified uid d)
      (let shared = ?shared in if 3 \<le> length shared then propose [a, b] (''Share '' @ show_nat (length shared) @ '' concepts: '' @ py_join '', '' (take 5 (sort shared))) ''shared_concepts'' (st0, st1) else (st0, st1))"
    by (auto simp: Let_def justified_def intro!: propose_ok)
qed

lemma contradictions_ok:
  assumes "st_ok (justified uid d) st" and "\<And>xs. set (en_set env xs) = set xs"
  shows "st_ok (justified uid d) (suggest_contradictions env uid d st)"
  unfolding suggest_contradictions_def Let_def
  using assms(2) by (intro foldl_ok [OF _ assms(1)] propose_ok) (auto simp: justified_def contradicts_actively_def list_ex_iff frozen_def)

lemma sources_ok:
  assumes "st_ok (justified uid d) st" and "\<And>xs. set (en_set env xs) = set xs" and "\<And>xs. distinct (en_set env xs)"
  shows "st_ok (justified uid d) (suggest_sources env (concept_rows uid d) d st)"
  unfolding suggest_sources_def
proof (intro foldl_ok [OF _ assms(1)], rule foldl_ok, clarify)
  fix name st' st0 st1 a b
  assume ab: "(a, b) \<in> set (pairs_of (en_set env (articles_with name (concept_rows uid d))))" and st: "st_ok (justified uid d) (st0, st1)"
  have "compilable uid d i \<and> name \<in> names_of d i" if "i \<in> set (articles_with name (concept_rows uid d))" for i
    using that concept_rows_in [of i name uid d] by (auto simp: articles_with_def)
  then have "same_topic_apart uid d [a, b]" if "has_different_sources a b d"
    using that pairs_of_in [OF ab] pairs_of_distinct [OF assms(3) ab] by (auto simp: assms(2) same_topic_apart_def)
  with st show "st_ok (justified uid d) (if has_different_sources a b d
      then propose [a, b] (''Same topic ('' @ name @ '') from different sources'') ''same_topic_different_sources'' (st0, st1) else (st0, st1))"
    by (auto simp: justified_def intro!: propose_ok)
qed simp

text \<open>
  C35. Every suggestion is justified: two articles of the user that are not syntheses and share three concepts, or two
  articles in an active contradiction, or two with a concept in common and sources that do not overlap; no set of
  articles is suggested twice, and there are at most as many as asked for. If there is room, every active
  contradiction of the user is in some suggestion. (The iteration of a set yields its members once each.)
\<close>

theorem suggestions_justified:
  assumes "\<And>xs. set (en_set env xs) = set xs" and "\<And>xs. distinct (en_set env xs)"
    and "get_synthesis_suggestions env uid limit d = S"
  shows "list_all (justified uid d) (map fst S) \<and> distinct (map (frozen \<circ> sg_article_ids \<circ> fst) S) \<and> length S \<le> limit \<and>
    (length S < limit \<longrightarrow> list_all (\<lambda>c. ctr_user_id c = uid \<and> ctr_status c = ACTIVE \<longrightarrow>
       list_ex (\<lambda>s. set (sg_article_ids s) = {ctr_article_a_id c, ctr_article_b_id c}) (map fst S)) (contradictions d))"
proof -
  let ?rows = "concept_rows uid d"
  let ?st1 = "suggest_shared ?rows ([], [])"
  let ?st2 = "suggest_contradictions env uid d ?st1"
  let ?st3 = "suggest_sources env ?rows d ?st2"
  have start: "st_ok (justified uid d) ([], [])" by (simp add: st_ok_def)
  have ok: "st_ok (justified uid d) ?st3"
    by (intro sources_ok contradictions_ok shared_ok start assms)
  let ?all = "map (\<lambda>s. (s, map (title_or_unknown d) (sg_article_ids s))) (fst ?st3)"
  have S: "S = take limit ?all"
    using assms(3) by (simp add: get_synthesis_suggestions_def Let_def case_prod_beta)
  have keys: "map (frozen \<circ> sg_article_ids \<circ> fst) ?all = snd ?st3"
    using ok by (simp add: st_ok_def comp_def)
  have complete: "list_ex (\<lambda>s. set (sg_article_ids s) = {ctr_article_a_id c, ctr_article_b_id c}) (map fst S)"
    if room: "length S < limit" and c: "c \<in> set (contradictions d)" "ctr_user_id c = uid" "ctr_status c = ACTIVE" for c
  proof -
    let ?k = "frozen [ctr_article_a_id c, ctr_article_b_id c]"
    have all: "S = ?all" using S room by simp
    have "?k \<in> set (map (\<lambda>c. frozen [ctr_article_a_id c, ctr_article_b_id c]) (select (\<lambda>c. ctr_user_id c = uid \<and> ctr_status c = ACTIVE) (contradictions d)))"
      using c by auto
    then have "frozen (en_set env ?k) \<in> set (snd ?st2)"
      unfolding suggest_contradictions_def Let_def
      by (intro subsetD [OF foldl_seen_all [where k = "\<lambda>key. frozen (en_set env key)"]] imageI) (auto simp: propose_seen)
    moreover have "set (snd ?st2) \<subseteq> set (snd ?st3)"
      unfolding suggest_sources_def
      by (intro foldl_seen) (auto intro: propose_keeps)
    ultimately have "frozen (en_set env ?k) \<in> set (map (frozen \<circ> sg_article_ids \<circ> fst) S)" unfolding all keys by blast
    then obtain s where "s \<in> set S" "frozen (en_set env ?k) = frozen (sg_article_ids (fst s))" by auto
    then show ?thesis by (auto simp: list_ex_iff frozen_eq assms(1)) (auto simp: frozen_def)
  qed
  have "map (frozen \<circ> sg_article_ids \<circ> fst) S = take limit (snd ?st3)"
    unfolding S by (simp only: take_map [symmetric] keys)
  then have "distinct (map (frozen \<circ> sg_article_ids \<circ> fst) S)" using ok by (simp add: st_ok_def)
  moreover have "list_all (justified uid d) (map fst S)"
    using ok unfolding S by (auto simp: st_ok_def list_all_iff dest!: in_set_takeD)
  moreover have "length S \<le> limit" by (simp add: S)
  ultimately show ?thesis using complete by (auto simp: list_all_iff)
qed

section \<open>Keyword scores\<close>

lemma contains_iff: "contains q s \<longleftrightarrow> (\<exists>u v. s = u @ q @ v)"
proof
  assume "contains q s"
  then obtain i where "find_sub q s = Some i" by (auto simp: contains_def)
  then have "take (length q) (drop i s) = q" by (simp add: find_sub_Some)
  then have "s = take i s @ q @ drop (length q) (drop i s)" by (metis append_take_drop_id)
  then show "\<exists>u v. s = u @ q @ v" by blast
next
  assume "\<exists>u v. s = u @ q @ v"
  then obtain u v where s: "s = u @ q @ v" by blast
  have "\<exists>i \<le> length u. find_sub q s = Some i" by (rule find_sub_le) (simp_all add: s)
  then show "contains q s" by (auto simp: contains_def)
qed

lemma count_sub_pos: "contains q s \<Longrightarrow> 0 < count_sub q s"
  by (subst count_sub.simps) (auto simp: contains_def)

lemma raw_score_pos: "raw_score q d a = Some n \<Longrightarrow> 0 < n"
  using count_sub_pos by (fastforce simp: raw_score_def Let_def split: if_splits)

lemma foldl_max: "(a :: nat) \<le> foldl max a xs \<and> (\<forall>x \<in> set xs. x \<le> foldl max a xs) \<and> foldl max a xs \<in> insert a (set xs)"
  by (induction xs arbitrary: a) (simp, fastforce simp: max_def)

definition hit :: "string \<Rightarrow> db \<Rightarrow> article \<Rightarrow> bool" where
  "hit q d a \<longleftrightarrow> (\<exists>u v. py_lower (art_title a) = u @ py_lower q @ v \<or>
     py_lower (read_content d (art_file_path a) (art_user_id a)) = u @ py_lower q @ v)"

lemma hit_raw: "hit q d a \<longleftrightarrow> raw_score (py_lower q) d a \<noteq> None"
  unfolding hit_def raw_score_def Let_def contains_iff by auto

text \<open>
  The keyword search scores exactly the articles of the user whose title or text contains the query, whatever the
  case of the letters, once each and in their order; the scores lie between 0 and 1, a best one is 1, and an article
  with a larger raw score never has a smaller one.
\<close>

lemma keyword_search_exact:
  assumes "filter (hit q d) (select (\<lambda>a. art_user_id a = uid) (articles d)) = hits" and "keyword_search q uid d = scores"
  shows "map fst scores = map art_id hits \<and> list_all (\<lambda>(i, v). 0 \<le> v \<and> v \<le> 1) scores \<and>
    (hits \<noteq> [] \<longrightarrow> list_ex (\<lambda>(i, v). v = 1) scores) \<and>
    (\<forall>i < length hits. \<forall>j < length hits. the (raw_score (py_lower q) d (hits ! i)) \<le> the (raw_score (py_lower q) d (hits ! j)) \<longrightarrow>
       snd (scores ! i) \<le> snd (scores ! j))"
proof -
  let ?own = "select (\<lambda>a. art_user_id a = uid) (articles d)" and ?r = "\<lambda>a. the (raw_score (py_lower q) d a)"
  let ?raw = "List.map_filter (\<lambda>a. map_option (Pair (art_id a)) (raw_score (py_lower q) d a)) ?own"
  have raw: "?raw = map (\<lambda>a. (art_id a, ?r a)) hits"
    unfolding assms(1) [symmetric] by (induction ?own) (auto simp: map_filter_simps hit_raw map_filter_def split: option.splits)
  let ?m = "foldl max 0 (map ?r hits)"
  have pos: "0 < ?r a" if "a \<in> set hits" for a
    using that raw_score_pos by (auto simp: assms(1) [symmetric] hit_raw)
  have m: "\<And>a. a \<in> set hits \<Longrightarrow> ?r a \<le> ?m" "hits \<noteq> [] \<Longrightarrow> \<exists>a \<in> set hits. ?r a = ?m" "hits \<noteq> [] \<Longrightarrow> 0 < ?m"
  proof -
    show le: "?r a \<le> ?m" if "a \<in> set hits" for a using that foldl_max [of 0 "map ?r hits"] by auto
    show gt: "0 < ?m" if "hits \<noteq> []" using that le [of "hd hits"] pos [of "hd hits"] by simp
    show "\<exists>a \<in> set hits. ?r a = ?m" if "hits \<noteq> []"
      using foldl_max [of 0 "map ?r hits"] gt [OF that] by auto
  qed
  have scores: "scores = map (\<lambda>a. (art_id a, fl (of_nat (?r a) / of_nat ?m))) hits"
    using m(3) by (cases hits) (simp_all add: assms(2) [symmetric] keyword_search_def Let_def raw comp_def)
  have "0 \<le> fl (of_nat (?r a) / of_nat ?m)" "fl (of_nat (?r a) / of_nat ?m) \<le> 1" if "a \<in> set hits" for a
  proof -
    show "0 \<le> fl (of_nat (?r a) / of_nat ?m)" by (simp add: f64.rnd_nonneg)
    have "fl (of_nat (?r a) / of_nat ?m) \<le> fl 1" using m(1) [OF that] by (intro fl_mono) (auto simp: divide_le_eq_1)
    then show "fl (of_nat (?r a) / of_nat ?m) \<le> 1" by simp
  qed
  moreover have "\<exists>a \<in> set hits. fl (of_nat (?r a) / of_nat ?m) = 1" if "hits \<noteq> []"
  proof -
    from m(2,3) [OF that] obtain a where "a \<in> set hits" "?r a = ?m" "0 < ?m" by blast
    then have "of_nat (?r a) / of_nat ?m = (1 :: rat)" by simp
    with \<open>a \<in> set hits\<close> show ?thesis by (intro bexI [of _ a]) simp_all
  qed
  moreover have "fl (of_nat (?r a) / of_nat ?m) \<le> fl (of_nat (?r b) / of_nat ?m)" if "?r a \<le> ?r b" for a b
    using that by (intro fl_mono divide_right_mono) simp_all
  ultimately show ?thesis by (auto simp: scores list_all_iff list_ex_iff comp_def)
qed

section \<open>Hand edits\<close>

lemma select_one:
  assumes "distinct (map f xs)" and "x \<in> set xs" and "P x" and "\<And>y. P y \<Longrightarrow> f y = f x"
  shows "select P xs = [x]"
proof -
  have "select P xs = select P (select (\<lambda>y. f y = f x) xs)"
    unfolding select_def filter_filter by (rule filter_cong) (use assms(4) in blast)+
  then show ?thesis using select_distinct_key [OF assms(1,2)] assms(3) by (simp add: select_Cons)
qed


lemma select_update:
  "(\<And>x. P (f x) = P x) \<Longrightarrow> select P (update_where Q f xs) = update_where Q f (select P xs)"
  by (induction xs) (auto simp: select_def update_where_def)

lemma one_or_none_update: "one_or_none (update_where Q f xs) = map_sum id (map_option (\<lambda>x. if Q x then f x else x)) (one_or_none xs)"
  by (auto simp: one_or_none_def update_where_def split: list.split)

text \<open>An update of the row that a lookup found, and that changes neither key nor owner, is found again.\<close>

lemma owned_update:
  assumes "owned_article k uid d = ok a" and "articles d' = update_where (\<lambda>x. art_id x = art_id a) f (articles d)"
    and "\<And>x. art_id (f x) = art_id x \<and> art_slug (f x) = art_slug x \<and> art_user_id (f x) = art_user_id x"
  shows "owned_article k uid d' = ok (f a)"
proof -
  have "one_or_none (select (\<lambda>a. key a = k \<and> art_user_id a = uid) (articles d')) =
      map_sum id (map_option (\<lambda>x. if art_id x = art_id a then f x else x)) (one_or_none (select (\<lambda>a. key a = k \<and> art_user_id a = uid) (articles d)))"
    if "\<And>x. key (f x) = key x" for key
    unfolding assms(2) by (subst select_update) (simp_all add: that assms(3) one_or_none_update)
  from this [of art_id] this [of art_slug] assms(1,3) show ?thesis
    by (auto simp: owned_article_def bindR_def split: sum.splits option.splits)
qed

lemma owned_sound:
  assumes "owned_article k uid d = ok a"
  shows "a \<in> set (articles d) \<and> art_user_id a = uid"
proof -
  from assms obtain P where "one_or_none (select (\<lambda>a. P a \<and> art_user_id a = uid) (articles d)) = ok (Some a)"
    by (auto simp: owned_article_def bindR_eq_Inr split: option.splits)
  then have "a \<in> set (select (\<lambda>a. P a \<and> art_user_id a = uid) (articles d))" by (simp add: one_or_none_ok_Some)
  then show ?thesis by simp
qed

lemma response_fields:
  assumes "get_article_response we k uid d = ok resp" and "owned_article k uid d = ok a"
  shows "arp_id resp = art_id a" and "arp_title resp = art_title a" and "arp_manually_edited resp = art_manually_edited a"
    and "arp_content resp = read_content d (art_file_path a) (art_user_id a)"
  using assms by (auto simp: get_article_response_def Let_def get_tags_for_article_def)

lemma liftG_ok: "liftG f s = (t, ok x) \<longleftrightarrow> \<not> se_broken s \<and> t = s \<and> f (w_db (se_cur s)) = ok x"
  by (auto simp: liftG_def bindS_ok getS_ok)


section \<open>Whose contradiction is resolved\<close>

text \<open>
  The old endpoint resolves a contradiction between any two articles: whoever owns the link, a request of any user
  with a valid resolution closes it and is answered with success.
\<close>

lemma legacy_resolution_ignores_owner:
  assumes "resolution \<in> set all_resolutions" and "b \<in> set (backlinks (w_db w))" and "link_between source_id target_id b"
    and "constraints_ok w"
  shows "\<exists>v. in_session (resolve_legacy_contradiction now source_id target_id resolution note uid) w = (v, ok ()) \<and>
    close_link now resolution note b \<in> set (backlinks (w_db v))"
proof -
  let ?p = "\<lambda>b. link_between source_id target_id b \<or> link_between target_id source_id b"
  let ?v = "on_db (\<lambda>d. d\<lparr>backlinks := update_where ?p (close_link now resolution note) (backlinks d),
      contradictions := update_where (\<lambda>c. ctr_user_id c = uid \<and> ctr_status c = ACTIVE \<and>
                  ctr_article_a_id c \<in> {source_id, target_id} \<and> ctr_article_b_id c \<in> {source_id, target_id})
                (close_contradiction now resolution uid) (contradictions d)\<rparr>) w"
  have "select ?p (backlinks (w_db w)) \<noteq> []" using assms(2,3) by (auto simp: select_empty_iff)
  moreover have ok: "constraints_ok ?v"
    using assms(4) by (auto simp: constraints_ok_def unique_ok_def foreign_ok_def on_db_def list_all_iff set_update_where close_link_def)
  ultimately have "in_session (resolve_legacy_contradiction now source_id target_id resolution note uid) w = (?v, ok ())"
    using assms(1) by (simp add: in_session_def open_session_def resolve_legacy_contradiction_def bindS_def open_acts on_db_def)
  moreover have "close_link now resolution note b \<in> set (backlinks (w_db ?v))"
    using assms(2,3) by (auto simp: on_db_def set_update_where image_iff intro!: bexI [of _ b])
  ultimately show ?thesis by blast
qed

text \<open>Without a report the summary of the health is the exception of the lookup, not the summary without a report.\<close>

lemma health_summary_without_report:
  assumes "select (\<lambda>r. lr_user_id r = uid) (ls_reports s) = []"
  shows "get_health_summary uid s = raise (NotFoundError ''No lint reports exist yet'')"
  using assms by (simp add: get_health_summary_def get_latest_def list_reports_def)

section \<open>Witnesses\<close>

definition ex_page :: "string \<Rightarrow> string \<Rightarrow> string \<Rightarrow> article" where
  "ex_page aid slug title = new_article aid ''u1'' slug title (slug @ ''.md'') 0"

definition ex_link :: backlink where
  "ex_link = \<lparr>bl_source_article_id = ''a1'', bl_target_article_id = ''a2'', bl_user_id = ''u1'', bl_context = None,
     bl_relation_type = CONTRADICTS, bl_resolution = None, bl_resolution_note = None, bl_resolved_at = None, bl_resolved_by = None\<rparr>"

definition ex_dispute :: contradiction where
  "ex_dispute = \<lparr>ctr_id = ''k1'', ctr_claim_a = ''X is fast'', ctr_claim_b = ''X is slow'', ctr_article_a_id = ''a1'', ctr_article_b_id = ''a2'',
     ctr_source_finding_id = None, ctr_claim_fingerprint = ''f'', ctr_detected_at = 0, ctr_status = ACTIVE, ctr_resolution = None,
     ctr_resolved_at = None, ctr_resolved_by = None, ctr_user_id = ''u1''\<rparr>"

definition ex_pages :: db where
  "ex_pages = empty_db\<lparr>articles := [ex_page ''a1'' ''x'' ''On X'', ex_page ''a2'' ''y'' ''On Y''], backlinks := [ex_link],
     contradictions := [ex_dispute], wiki_files := [(''u1'', ''x.md'') \<mapsto> ''X is fast, X is new.'', (''u1'', ''y.md'') \<mapsto> ''Not so.'']\<rparr>"

lemma graph_filters_exact_witness:
  "sum_list (map gn_connection_count (fst (get_graph ex_env0 ''u1'' (Some CONTRADICTS) (Some ''x'') None ex_pages))) = 2"
proof -
  let ?g = "get_graph ex_env0 ''u1'' (Some CONTRADICTS) (Some ''x'') None ex_pages"
  have "closed_graph (fst ?g) (snd ?g)" "length (snd ?g) = 1" by code_simp+
  with graph_filters_exact [of ex_env0 "''u1''" "Some CONTRADICTS" "Some ''x''" None ex_pages "fst ?g" "snd ?g"] show ?thesis by simp
qed

lemma suggestions_justified_witness:
  "case get_synthesis_suggestions ex_env0 ''u1'' 5 ex_pages of
     [s] \<Rightarrow> justified ''u1'' ex_pages (fst s) \<and> set (sg_article_ids (fst s)) = {''a1'', ''a2''} | _ \<Rightarrow> False"
proof -
  have set: "en_set ex_env0 = nub" by (simp add: ex_env0_def)
  have "map (sg_article_ids \<circ> fst) (get_synthesis_suggestions ex_env0 ''u1'' 5 ex_pages) = [[''a1'', ''a2'']]" by code_simp
  then obtain s where s: "get_synthesis_suggestions ex_env0 ''u1'' 5 ex_pages = [s]" "sg_article_ids (fst s) = [''a1'', ''a2'']" by auto
  have "justified ''u1'' ex_pages (fst s)"
    using suggestions_justified [OF _ _ s(1)] by (simp add: set)
  then show ?thesis by (simp add: s)
qed

lemma keyword_search_exact_witness:
  "list_ex (\<lambda>(i, v). i = ''a1'' \<and> v = 1) (keyword_search ''x IS'' ''u1'' ex_pages)"
proof -
  let ?hits = "filter (hit ''x IS'' ex_pages) (select (\<lambda>a. art_user_id a = ''u1'') (articles ex_pages))"
  have "map art_id ?hits = [''a1'']" unfolding hit_raw by code_simp
  moreover from this have "?hits \<noteq> []" by auto
  moreover note keyword_search_exact [where q = "''x IS''" and d = ex_pages and uid = "''u1''", OF refl refl]
  ultimately show ?thesis by (cases "keyword_search ''x IS'' ''u1'' ex_pages") (auto simp: list_ex_iff)
qed

definition ex_wiki_env :: wiki_env where
  "ex_wiki_env = \<lparr>wk_env = ex_env0, wk_decay_rate = 0, wk_semantic = None, wk_lower = (\<lambda>s. s), wk_pick = (\<lambda>n. 0)\<rparr>"

definition ex_edited :: "sess \<times> article_response result" where
  "ex_edited = edit_article ex_wiki_env ''x'' ''u1'' (Some ''New text.'') None (open_session (on_db (\<lambda>d. ex_pages) (ex_world0 False ''topic-y'')))"

lemma ex_edited_ok: "case ex_edited of (t, Inr resp) \<Rightarrow> arp_id resp = ''a1'' | _ \<Rightarrow> False"
  by code_simp


lemma legacy_resolution_ignores_owner_witness:
  "case in_session (resolve_legacy_contradiction 5 ''a1'' ''a2'' ''both_valid'' None ''somebody else'') (on_db (\<lambda>d. ex_pages) (ex_world0 False ''topic-y'')) of
     (v, r) \<Rightarrow> r = ok () \<and> bl_user_id ex_link = ''u1'' \<and> close_link 5 ''both_valid'' None ex_link \<in> set (backlinks (w_db v))"
proof -
  let ?w = "on_db (\<lambda>d. ex_pages) (ex_world0 False ''topic-y'')"
  have w: "''both_valid'' \<in> set all_resolutions" "ex_link \<in> set (backlinks (w_db ?w))" "link_between ''a1'' ''a2'' ex_link" "constraints_ok ?w"
    by (simp add: all_resolutions_def, simp add: on_db_def ex_pages_def, simp add: link_between_def ex_link_def, code_simp)
  from legacy_resolution_ignores_owner [OF w, of 5 None "''somebody else''"] show ?thesis by (auto simp: ex_link_def)
qed

end
