(* ===== verification/Conversations.thy ===== *)
theory Conversations
  imports World Prompts Queries
begin

text \<open>
  Conversations and their turns: the text of a conversation as an article, \<^verbatim>\<open>engine/conversation_serializer.py\<close>,
  and the threads of forked conversations, which share the first turns of their parents, as
  \<^verbatim>\<open>engine/qa_agent.py\<close> and \<^verbatim>\<open>services/query.py\<close> walk them. The walk up the parents is a loop whose end is not evident from the
  code; with fuel it gives \<open>None\<close> when it has not ended, and one step more than there are conversations is enough
  (theorem \<open>conversation_walk_ends\<close> of Threads).
\<close>

section \<open>The text of a conversation\<close>

text \<open>\<^verbatim>\<open>^(#{1,4}) \<close> at the start of a line.\<close>

definition downshift_line :: "string \<Rightarrow> string" where
  "downshift_line l =
     (let n = length (takeWhile (\<lambda>c. c = CHR ''#'') l)
      in if 1 \<le> n \<and> n \<le> 4 \<and> take 1 (drop n l) = '' '' then ''##'' @ l else l)"

definition downshift_answer_headings :: "string \<Rightarrow> string" where
  "downshift_answer_headings body = join_lines (map downshift_line (split_lines body))"

definition py_rstrip :: "string \<Rightarrow> string" where
  "py_rstrip s = rev (dropWhile is_space (rev s))"

definition escape_quotes :: "string \<Rightarrow> string" where
  "escape_quotes s = concat (map (\<lambda>c. if c = CHR 0x22 then [CHR 0x5C, c] else [c]) s)"

definition parse_sources :: "(string \<Rightarrow> json result) \<Rightarrow> string option \<Rightarrow> string list" where
  "parse_sources loads raw =
     (case raw of
        Some (x # s) \<Rightarrow> (case loads (x # s) of Inr (JList items) \<Rightarrow> map py_str (filter truthy items) | _ \<Rightarrow> [])
      | _ \<Rightarrow> [])"

definition turn_lines :: "(string \<Rightarrow> json result) \<Rightarrow> int \<Rightarrow> qa_query \<Rightarrow> string list" where
  "turn_lines loads number q =
     (let srcs = parse_sources loads (qq_source_article_ids q)
      in [''## Q'' @ show_int number @ '': '' @ qq_question q, [], downshift_answer_headings (qq_answer q), []]
         @ (if srcs = [] then [] else [''**Sources:** '' @ py_join '', '' (map (\<lambda>s. ''[['' @ s @ '']]'') srcs), []]))"

definition serialize_conversation_to_markdown :: "env \<Rightarrow> conversation \<Rightarrow> qa_query list \<Rightarrow> string" where
  "serialize_conversation_to_markdown env c qs =
     py_rstrip (join_lines
       ([''---'', ''title: '' @ [CHR 0x22] @ escape_quotes (cv_title c) @ [CHR 0x22], ''slug: '' @ cv_id c,
         ''type: qa-conversation'', ''created: '' @ en_iso env (cv_created_at c), ''updated: '' @ en_iso env (cv_updated_at c),
         ''turn_count: '' @ show_nat (length qs), ''---'', [], ''# '' @ cv_title c, []]
        @ concat (map (\<lambda>q. turn_lines (en_loads env) (qq_turn_index q + 1) q) qs))) @ [CHR 0x0A]"

type_synonym selected_turn = "conversation \<times> qa_query"

definition needs_separator :: "selected_turn option \<Rightarrow> selected_turn \<Rightarrow> bool" where
  "needs_separator prev t =
     (case prev of
        None \<Rightarrow> False
      | Some (c, q) \<Rightarrow> cv_id (fst t) \<noteq> cv_id c \<or> qq_turn_index (snd t) \<noteq> qq_turn_index q + 1)"

fun selected_lines :: "(string \<Rightarrow> json result) \<Rightarrow> int \<Rightarrow> selected_turn option \<Rightarrow> selected_turn list \<Rightarrow> string list" where
  "selected_lines loads n prev [] = []"
| "selected_lines loads n prev (t # ts) =
     (if needs_separator prev t then [''---'', []] else []) @ turn_lines loads n (snd t) @ selected_lines loads (n + 1) (Some t) ts"

definition selection_title :: "string option \<Rightarrow> string \<Rightarrow> string" where
  "selection_title title other = (case title of Some (x # s) \<Rightarrow> x # s | _ \<Rightarrow> other)"

definition serialize_selected_turns_to_markdown :: "(string \<Rightarrow> json result) \<Rightarrow> selected_turn list \<Rightarrow> string option \<Rightarrow> string" where
  "serialize_selected_turns_to_markdown loads ts title =
     (let quote = [CHR 0x22]
      in case ts of
           [] \<Rightarrow>
             (let t = selection_title title ''Untitled'' in
              join_lines [''---'', ''title: '' @ quote @ t @ quote, ''type: qa-selection'', ''turn_count: 0'', ''---'', [], ''# '' @ t, []])
         | (c, _) # _ \<Rightarrow>
             (let t = selection_title title (cv_title c) in
              py_rstrip (join_lines
                ([''---'', ''title: '' @ quote @ escape_quotes t @ quote, ''type: qa-selection'', ''turn_count: '' @ show_nat (length ts), ''---'', [],
                  ''# '' @ t, []]
                 @ selected_lines loads 1 None ts)) @ [CHR 0x0A]))"

section \<open>Threads\<close>

definition turns_before :: "string \<Rightarrow> int option \<Rightarrow> qa_query list \<Rightarrow> qa_query list" where
  "turns_before cid limit qs =
     sort_key qq_turn_index (select (\<lambda>q. qq_conversation_id q = Some cid \<and> (case limit of None \<Rightarrow> True | Some k \<Rightarrow> qq_turn_index q < k)) qs)"

text \<open>The parents with the fork points, nearest first.\<close>

fun parent_chain :: "nat \<Rightarrow> conversation list \<Rightarrow> conversation \<Rightarrow> (string \<times> int) list option" where
  "parent_chain 0 cs c = None"
| "parent_chain (Suc n) cs c =
     (case (cv_parent_conversation_id c, cv_forked_at_turn_index c) of
        (Some p, Some k) \<Rightarrow>
          (case get_by cv_id p cs of
             None \<Rightarrow> Some [(p, k)]
           | Some parent \<Rightarrow> map_option (Cons (p, k)) (parent_chain n cs parent))
      | _ \<Rightarrow> Some [])"

definition ancestors_of :: "conversation list \<Rightarrow> conversation \<Rightarrow> (string \<times> int) list option" where
  "ancestors_of cs c = map_option rev (parent_chain (length cs + 1) cs c)"

definition ancestor_turns :: "(string \<times> int) list \<Rightarrow> qa_query list \<Rightarrow> qa_query list" where
  "ancestor_turns ancestors qs = concat (map (\<lambda>(cid, k). turns_before cid (Some k) qs) ancestors)"

definition materialize_thread :: "conversation \<Rightarrow> world \<Rightarrow> qa_query list option" where
  "materialize_thread c w =
     map_option (\<lambda>ancestors. ancestor_turns ancestors (w_queries w) @ turns_before (cv_id c) None (w_queries w))
       (ancestors_of (w_conversations w) c)"

text \<open>\<open>all_turns[-cap:] if len(all_turns) > cap else all_turns\<close>; a cap of 0 keeps everything.\<close>

definition last_turns :: "nat \<Rightarrow> 'a list \<Rightarrow> 'a list" where
  "last_turns cap ts = (if length ts > cap \<and> cap \<noteq> 0 then drop (length ts - cap) ts else ts)"

definition load_prior_turns :: "nat \<Rightarrow> string \<Rightarrow> int \<Rightarrow> world \<Rightarrow> qa_query list option" where
  "load_prior_turns cap cid up_to w =
     (let own = turns_before cid (Some up_to) (w_queries w);
          newest = (\<lambda>ts. sort_key qq_turn_index (take cap (sort_key (\<lambda>q. - qq_turn_index q) ts)))
      in case get_by cv_id cid (w_conversations w) of
           None \<Rightarrow> Some (newest own)
         | Some c \<Rightarrow>
             if cv_parent_conversation_id c = None then Some (newest own)
             else map_option (\<lambda>ancestors. last_turns cap (ancestor_turns ancestors (w_queries w) @ own)) (ancestors_of (w_conversations w) c))"

definition next_turn_index :: "string \<Rightarrow> world \<Rightarrow> int" where
  "next_turn_index cid w =
     (case first_of (sort_key (\<lambda>q. - qq_turn_index q) (select (\<lambda>q. qq_conversation_id q = Some cid) (w_queries w))) of
        None \<Rightarrow> 0
      | Some q \<Rightarrow> qq_turn_index q + 1)"

section \<open>The walk up the parents ends\<close>

text \<open>Every conversation was made after its parent.\<close>

fun parents_first :: "string list \<Rightarrow> conversation list \<Rightarrow> bool" where
  "parents_first seen [] = True"
| "parents_first seen (c # cs) =
     ((case cv_parent_conversation_id c of None \<Rightarrow> True | Some p \<Rightarrow> p \<in> set seen) \<and> parents_first (seen @ [cv_id c]) cs)"

lemma parents_first_append: "parents_first seen (xs @ ys) \<longleftrightarrow> parents_first seen xs \<and> parents_first (seen @ map cv_id xs) ys"
  by (induction xs arbitrary: seen) auto

lemma parent_earlier:
  assumes "parents_first [] cs" and "i < length cs" and "cv_parent_conversation_id (cs ! i) = Some p"
  shows "\<exists>j < i. get_by cv_id p cs = Some (cs ! j)"
proof -
  have cs: "cs = take i cs @ cs ! i # drop (Suc i) cs" by (rule id_take_nth_drop [OF assms(2)])
  with assms(1,3) have "p \<in> set (map cv_id (take i cs))"
    by (metis parents_first_append parents_first.simps(2) option.simps(5) append_Nil)
  then obtain k where k: "k < i" "cv_id (cs ! k) = p" using assms(2) by (auto simp: in_set_conv_nth)
  with assms(2) obtain c where c: "get_by cv_id p cs = Some c" using get_by_None [of cv_id p cs] by (cases "get_by cv_id p cs") force+
  then obtain j where j: "j < length cs" "cs ! j = c" "\<forall>l < j. cv_id (cs ! l) \<noteq> p"
    unfolding get_by_def find_Some_iff by auto
  with k have "j \<le> k" by (metis linorder_le_less_linear)
  with k(1) c j(2) show ?thesis by (intro exI [of _ j]) auto
qed

lemma parent_chain_ends: "parents_first [] cs \<Longrightarrow> i < length cs \<Longrightarrow> i < n \<Longrightarrow> parent_chain n cs (cs ! i) \<noteq> None"
proof (induction n arbitrary: i)
  case (Suc n)
  show ?case
  proof (cases "cv_parent_conversation_id (cs ! i)")
    case None
    then show ?thesis by simp
  next
    case (Some p)
    from parent_earlier [OF Suc.prems(1,2) Some] obtain j where j: "j < i" "get_by cv_id p cs = Some (cs ! j)" by blast
    with Suc.IH [of j] Suc.prems have "parent_chain n cs (cs ! j) \<noteq> None" by simp
    with Some j(2) show ?thesis by (auto split: option.splits)
  qed
qed simp

lemma ancestors_end: "parents_first [] cs \<Longrightarrow> c \<in> set cs \<Longrightarrow> ancestors_of cs c \<noteq> None"
  using parent_chain_ends [of cs _ "length cs + 1"] by (auto simp: in_set_conv_nth ancestors_of_def)

section \<open>Turn numbers\<close>

lemma sorted_hd_min: "first_of (sort_key f xs) = Some x \<Longrightarrow> x \<in> set xs \<and> (\<forall>y \<in> set xs. f x \<le> f y)"
proof -
  assume "first_of (sort_key f xs) = Some x"
  then obtain ys where ys: "sort_key f xs = x # ys" by (cases "sort_key f xs") (auto simp: first_of_def)
  have "sorted (map f (sort_key f xs))" by simp
  with ys have "\<forall>y \<in> set (x # ys). f x \<le> f y" by auto
  moreover have "set (x # ys) = set xs" by (metis ys set_sort)
  ultimately show ?thesis by auto
qed

lemma next_turn_index_max:
  assumes "q \<in> set (w_queries w)" and "qq_conversation_id q = Some cid"
  shows "qq_turn_index q < next_turn_index cid w"
proof -
  let ?own = "select (\<lambda>q. qq_conversation_id q = Some cid) (w_queries w)"
  have q: "q \<in> set ?own" using assms by simp
  obtain x where x: "first_of (sort_key (\<lambda>q. - qq_turn_index q) ?own) = Some x"
  proof (cases "sort_key (\<lambda>q. - qq_turn_index q) ?own")
    case Nil
    then have "set ?own = {}" by (metis empty_set set_sort)
    with q show thesis by (metis empty_iff)
  qed (simp add: first_of_def that)
  from sorted_hd_min [OF x] q have "qq_turn_index q \<le> qq_turn_index x" by auto
  with x show ?thesis by (simp add: next_turn_index_def)
qed

end
