(* ===== verification/QaAgent.thy ===== *)
theory QaAgent
  imports Wiki Conversations
begin

text \<open>
  Questions and answers: the agent of \<^verbatim>\<open>src/src/wikimind/engine/qa_agent.py\<close> and the service of
  \<^verbatim>\<open>services/query.py\<close>. A question is answered from the articles of the user and the earlier turns of its conversation,
  kept as a turn, and filed back as an article on request or by a score. The text of the system prompt, the tools of
  external servers and the stream of the language model are parameters; the session of a request commits when its
  handler returns.
\<close>

section \<open>Settings and results\<close>

record external_tool =
  xt_server :: string
  xt_name :: string
  xt_description :: "string option"
  xt_params :: "string list"

record qa_env =
  qe_env :: env
  qe_max_prior_turns :: nat
  qe_truncate_chars :: nat
  qe_title_max_chars :: nat
  qe_max_tokens :: int
  qe_auto_file_back :: bool
  qe_min_words :: nat
  qe_min_sources :: nat
  qe_tools :: "external_tool list"
  qe_stream :: "nat \<Rightarrow> llm_instance \<Rightarrow> completion_request \<Rightarrow> string \<Rightarrow> (string list \<times> completion_response option result) result"

record query_request =
  qrq_question :: string
  qrq_file_back :: bool
  qrq_conversation_id :: "string option"

record query_result =
  qr_answer :: string
  qr_confidence :: string
  qr_sources :: "string list"
  qr_related_articles :: "string list"
  qr_new_article_suggested :: "string option"
  qr_follow_up_questions :: "string list"

record worthiness =
  ww_word_count :: nat
  ww_source_count :: nat
  ww_synthesizes :: bool
  ww_dedup_collision :: bool
  ww_passed :: bool
  ww_auto_filed :: bool

definition parse_query_result :: "fields \<Rightarrow> query_result result" where
  "parse_query_result kvs =
     bindR (required kvs ''answer'' parse_str) (\<lambda>body.
     bindR (required kvs ''confidence'' parse_str) (\<lambda>confidence.
     bindR (required kvs ''sources'' parse_strs) (\<lambda>srcs.
     bindR (required kvs ''related_articles'' parse_strs) (\<lambda>related.
     bindR (optional kvs ''new_article_suggested'' None (\<lambda>n. parse_opt (parse_str n))) (\<lambda>suggested.
     bindR (optional kvs ''follow_up_questions'' [] parse_strs) (\<lambda>follow_up.
       ok \<lparr>qr_answer = body, qr_confidence = confidence, qr_sources = srcs, qr_related_articles = related,
           qr_new_article_suggested = suggested, qr_follow_up_questions = follow_up\<rparr>))))))"

definition failed_result :: query_result where
  "failed_result = \<lparr>qr_answer = ''Error processing answer. Please try again.'', qr_confidence = ''low'', qr_sources = [],
     qr_related_articles = [], qr_new_article_suggested = None, qr_follow_up_questions = []\<rparr>"

definition no_context_result :: "string \<Rightarrow> query_result" where
  "no_context_result question =
     \<lparr>qr_answer = ''No relevant articles found in your wiki for this question. Consider ingesting sources on this topic.'',
      qr_confidence = ''low'', qr_sources = [], qr_related_articles = [], qr_new_article_suggested = None,
      qr_follow_up_questions = [''What sources cover '' @ question @ ''?'']\<rparr>"

text \<open>\<open>QueryResult(**data)\<close>, with the answer for anything that cannot be read.\<close>

definition read_answer :: "(string \<Rightarrow> json result) \<Rightarrow> string \<Rightarrow> query_result result" where
  "read_answer loads content =
     (case bindR (parse_json_response loads content)
             (\<lambda>data. case data of JObj kvs \<Rightarrow> parse_query_result kvs | _ \<Rightarrow> raise (TypeError ''argument after ** must be a mapping'')) of
        Inr r \<Rightarrow> ok r
      | Inl e \<Rightarrow> if is_parse_error e then ok failed_result else raise e)"

section \<open>The prompt\<close>

definition question_terms :: "string \<Rightarrow> string list" where
  "question_terms question = filter (\<lambda>t. length t > 3) (py_split (py_lower question))"

definition overlap :: "string list \<Rightarrow> string \<Rightarrow> nat" where
  "overlap terms content = length (filter (\<lambda>t. contains t (py_lower content)) terms)"

definition retrieve_context :: "string \<Rightarrow> string \<Rightarrow> db \<Rightarrow> (string \<times> string) list" where
  "retrieve_context question user_id d =
     (let terms = question_terms question;
          found = List.map_filter (\<lambda>a. let content = read_content d (art_file_path a) user_id; score = overlap terms content
              in if content = [] \<or> score = 0 then None else Some (score, art_title a, take 3000 content))
            (select (\<lambda>a. art_user_id a = user_id) (articles d))
      in map snd (take 5 (sort_key (\<lambda>x. - int (fst x)) found)))"

definition tool_line :: "external_tool \<Rightarrow> string" where
  "tool_line x =
     ''  - '' @ xt_server x @ ''/'' @ xt_name x @ '': ''
     @ (case xt_description x of Some (c # s) \<Rightarrow> c # s | _ \<Rightarrow> ''No description'')
     @ (if xt_params x = [] then [] else '' (params: '' @ py_join '', '' (xt_params x) @ '')'')"

definition format_external_tools_block :: "external_tool list \<Rightarrow> string" where
  "format_external_tools_block tools =
     (let q = [CHR 0x22]; a = [CHR 0x27] in
      if tools = [] then []
      else join_lines
        ([[], ''You also have access to external tools. If the wiki context is insufficient, ''
            @ ''you MAY suggest calling one of these tools by including a '' @ a @ ''tool_calls'' @ a @ '' array '' @ ''in your response:'', []]
         @ map tool_line tools
         @ [[], ''To call a tool, add '' @ q @ ''tool_calls'' @ q @ '': [{'' @ q @ ''server'' @ q @ '': '' @ q @ ''name'' @ q @ '', ''
            @ q @ ''tool'' @ q @ '': '' @ q @ ''tool_name'' @ q @ '', '' @ q @ ''arguments'' @ q @ '': {...}}] to your JSON response.'']))"

definition conversation_block :: "nat \<Rightarrow> qa_query list \<Rightarrow> string" where
  "conversation_block truncate_chars prior =
     (if prior = [] then []
      else join_lines ([[], ''---'', [], ''Conversation so far:'']
        @ concat (map (\<lambda>q. let n = show_int (qq_turn_index q + 1)
            in [''Q'' @ n @ '': '' @ qq_question q, ''A'' @ n @ '': '' @ take truncate_chars (qq_answer q)]) prior)))"

definition user_message :: "nat \<Rightarrow> string \<Rightarrow> (string \<times> string) list \<Rightarrow> qa_query list \<Rightarrow> string" where
  "user_message truncate_chars question context prior =
     (let nl = [CHR 0x0A]; q = [CHR 0x22];
          context_text = py_join (nl @ nl @ ''---'' @ nl @ nl) (map (\<lambda>(title, content). ''## '' @ title @ nl @ nl @ content) context)
      in ''Wiki context:'' @ nl @ nl @ context_text @ conversation_block truncate_chars prior @ nl @ nl @ ''---'' @ nl @ nl
         @ ''Current question: '' @ question @ nl @ nl
         @ ''Answer based on the wiki context above. Use the conversation history'' @ nl
         @ ''to disambiguate references like '' @ q @ ''it'' @ q @ '' or '' @ q @ ''that approach'' @ q @ ''. If the'' @ nl
         @ ''conversation context contradicts the wiki, prefer the wiki.'')"

definition build_completion_request :: "qa_env \<Rightarrow> string \<Rightarrow> (string \<times> string) list \<Rightarrow> qa_query list \<Rightarrow> completion_request" where
  "build_completion_request qe question context prior =
     compile_request (qe_env qe) (en_prompt (qe_env qe) ''qa'' @ format_external_tools_block (qe_tools qe))
       (user_message (qe_truncate_chars qe) question context prior) (qe_max_tokens qe) (fl (3 / 10)) T_QA"

section \<open>Before the language model is asked\<close>

definition on_conversation :: "string \<Rightarrow> (conversation \<Rightarrow> conversation) \<Rightarrow> unit act" where
  "on_conversation cid f = putS (\<lambda>w. w\<lparr>w_conversations := update_where (\<lambda>c. cv_id c = cid) f (w_conversations w)\<rparr>)"

definition on_query :: "string \<Rightarrow> (qa_query \<Rightarrow> qa_query) \<Rightarrow> unit act" where
  "on_query qid f = putS (\<lambda>w. w\<lparr>w_queries := update_where (\<lambda>q. qq_id q = qid) f (w_queries w)\<rparr>)"

definition conversation_by_id :: "string \<Rightarrow> world \<Rightarrow> conversation option" where
  "conversation_by_id cid w = get_by cv_id cid (w_conversations w)"

definition new_conversation :: "datetime \<Rightarrow> string \<Rightarrow> string \<Rightarrow> string \<Rightarrow> conversation" where
  "new_conversation now cid user_id title =
     \<lparr>cv_id = cid, cv_user_id = user_id, cv_title = title, cv_created_at = now, cv_updated_at = now, cv_filed_article_id = None,
      cv_crystallized_article_id = None, cv_parent_conversation_id = None, cv_forked_at_turn_index = None\<rparr>"

definition add_conversation :: "qa_env \<Rightarrow> string \<Rightarrow> string \<Rightarrow> (conversation \<Rightarrow> conversation) \<Rightarrow> string act" where
  "add_conversation qe user_id question f =
     bindS (freshS (en_uuid (qe_env qe))) (\<lambda>cid.
     bindS (putS (\<lambda>w. w\<lparr>w_conversations := w_conversations w
       @ [f (new_conversation (en_now (qe_env qe)) cid user_id (take (qe_title_max_chars qe) question))]\<rparr>)) (\<lambda>_.
       returnS cid))"

definition get_or_create_conversation :: "qa_env \<Rightarrow> query_request \<Rightarrow> string \<Rightarrow> string act" where
  "get_or_create_conversation qe req user_id =
     (case qrq_conversation_id req of
        Some cid \<Rightarrow> bindS (get_or_raise (NotFoundError ''Conversation not found'') (conversation_by_id cid)) (\<lambda>c. returnS (cv_id c))
      | None \<Rightarrow> add_conversation qe user_id (qrq_question req) id)"

text \<open>A walk that does not end is an exception of the model.\<close>

definition walked :: "'a option \<Rightarrow> 'a result" where
  "walked v = (case v of Some x \<Rightarrow> ok x | None \<Rightarrow> raise (RuntimeError ''the walk up the parents does not end''))"

type_synonym prepared = "string \<times> int \<times> qa_query list \<times> (string \<times> string) list"

definition prepare_context :: "qa_env \<Rightarrow> query_request \<Rightarrow> string \<Rightarrow> prepared act" where
  "prepare_context qe req user_id =
     bindS (get_or_create_conversation qe req user_id) (\<lambda>cid.
     bindS (case qrq_conversation_id req of
              None \<Rightarrow> returnS (0, [])
            | Some _ \<Rightarrow>
                bindS (getS (\<lambda>w. (next_turn_index cid w, load_prior_turns (qe_max_prior_turns qe) cid (next_turn_index cid w) w))) (\<lambda>(n, prior).
                bindS (liftS (walked prior)) (\<lambda>ts. returnS (n, ts)))) (\<lambda>(n, prior).
     bindS (getS w_db) (\<lambda>d.
       returnS (cid, n, prior, retrieve_context (qrq_question req) user_id d))))"

definition query_llm :: "qa_env \<Rightarrow> string \<Rightarrow> (string \<times> string) list \<Rightarrow> qa_query list \<Rightarrow> string \<Rightarrow> query_result act" where
  "query_llm qe question context prior user_id =
     bindS (llmS (qe_env qe) True (build_completion_request qe question context prior) user_id) (\<lambda>response.
       liftS (read_answer (en_loads (qe_env qe)) (rs_content response)))"

section \<open>Filing back\<close>

definition derive_auto_file_back_title :: "query_result \<Rightarrow> string" where
  "derive_auto_file_back_title r =
     (case qr_new_article_suggested r of
        Some (c # s) \<Rightarrow> py_strip (c # s)
      | _ \<Rightarrow> (let ws = py_split (qr_answer r) in if ws = [] then ''Untitled answer'' else py_join '' '' (take 8 ws)))"

definition score_wiki_worthiness :: "qa_env \<Rightarrow> query_result \<Rightarrow> string \<Rightarrow> string \<Rightarrow> db \<Rightarrow> worthiness result" where
  "score_wiki_worthiness qe r answer_text user_id d =
     (let word_count = length (py_split answer_text); source_count = length (qr_sources r);
          synthesizes = (source_count \<ge> 2 \<and> qr_confidence r \<noteq> ''low'');
          slug = en_slugify (qe_env qe) (derive_auto_file_back_title r) None
      in bindR (if slug = [] then ok None
                else one_or_none (select (\<lambda>a. art_slug a = slug \<and> art_user_id a = user_id) (articles d))) (\<lambda>existing.
           ok \<lparr>ww_word_count = word_count, ww_source_count = source_count, ww_synthesizes = synthesizes,
               ww_dedup_collision = (existing \<noteq> None),
               ww_passed = (word_count \<ge> qe_min_words qe \<and> source_count \<ge> qe_min_sources qe \<and> synthesizes),
               ww_auto_filed = False\<rparr>))"

definition filed_article :: "datetime \<Rightarrow> string \<Rightarrow> string \<Rightarrow> string \<Rightarrow> string \<Rightarrow> qa_query list \<Rightarrow> article" where
  "filed_article now aid user_id slug title qs =
     (new_article aid user_id slug title (''qa-answers/'' @ slug @ ''.md'') now)
       \<lparr>art_summary := (case qs of [] \<Rightarrow> None | q # _ \<Rightarrow> Some (take 200 (qq_answer q))), art_page_type := ANSWER\<rparr>"

text \<open>The article a conversation was filed as; a pointer to an article that is gone is cleared.\<close>

definition filed_before :: "string \<Rightarrow> conversation \<Rightarrow> article option act" where
  "filed_before cid c =
     (case cv_filed_article_id c of
        None \<Rightarrow> returnS None
      | Some aid \<Rightarrow>
          bindS (getS (article_by_id aid)) (\<lambda>a. case a of
            Some x \<Rightarrow> returnS (Some x)
          | None \<Rightarrow> bindS (on_conversation cid (\<lambda>c. c\<lparr>cv_filed_article_id := None\<rparr>)) (\<lambda>_. returnS None)))"

definition file_new :: "env \<Rightarrow> string \<Rightarrow> conversation \<Rightarrow> qa_query list \<Rightarrow> string \<Rightarrow> string \<Rightarrow> (article \<times> bool) act" where
  "file_new env cid c qs markdown user_id =
     bindS (fileS (wiki_write (en_data_dir env) user_id (''qa-answers/'' @ cid @ ''.md'') markdown)) (\<lambda>_.
     bindS (freshS (en_uuid env)) (\<lambda>aid.
       let a = filed_article (en_now env) aid user_id cid (cv_title c) qs
       in bindS (putS (on_db (\<lambda>d. d\<lparr>articles := articles d @ [a]\<rparr>))) (\<lambda>_.
          bindS (on_conversation cid (\<lambda>c. c\<lparr>cv_filed_article_id := Some aid, cv_updated_at := en_now env\<rparr>)) (\<lambda>_.
          bindS (index_rows env aid (art_title a) markdown) (\<lambda>_. returnS (a, False))))))"

definition file_again :: "env \<Rightarrow> string \<Rightarrow> article \<Rightarrow> string \<Rightarrow> string \<Rightarrow> (article \<times> bool) act" where
  "file_again env cid a markdown user_id =
     bindS (fileS (wiki_write (en_data_dir env) user_id (art_file_path a) markdown)) (\<lambda>_.
     bindS (on_article (art_id a) (\<lambda>a. a\<lparr>art_updated_at := en_now env\<rparr>)) (\<lambda>_.
     bindS (on_conversation cid (\<lambda>c. c\<lparr>cv_updated_at := en_now env\<rparr>)) (\<lambda>_.
     bindS (index_rows env (art_id a) (art_title a) markdown) (\<lambda>_.
       returnS (a\<lparr>art_updated_at := en_now env\<rparr>, True)))))"

definition file_back_thread :: "env \<Rightarrow> string \<Rightarrow> string \<Rightarrow> (article \<times> bool) act" where
  "file_back_thread env cid user_id =
     bindS (get_or_raise (NotFoundError ''Conversation not found'') (conversation_by_id cid)) (\<lambda>c.
     bindS (getS (\<lambda>w. turns_before cid None (w_queries w))) (\<lambda>qs.
       let markdown = serialize_conversation_to_markdown env c qs
       in bindS (filed_before cid c) (\<lambda>existing.
            case existing of
              None \<Rightarrow> file_new env cid c qs markdown user_id
            | Some a \<Rightarrow> file_again env cid a markdown user_id)))"

section \<open>Storing a turn\<close>

definition new_query :: "env \<Rightarrow> string \<Rightarrow> string \<Rightarrow> string \<Rightarrow> query_result \<Rightarrow> string \<Rightarrow> int \<Rightarrow> qa_query" where
  "new_query env qid user_id question r cid n =
     \<lparr>qq_id = qid, qq_user_id = user_id, qq_question = question, qq_answer = qr_answer r, qq_confidence = Some (qr_confidence r),
      qq_source_article_ids = Some (dump_strings env (qr_sources r)),
      qq_related_article_ids = Some (dump_strings env (qr_related_articles r)), qq_filed_back = False, qq_filed_article_id = None,
      qq_created_at = en_now env, qq_conversation_id = Some cid, qq_turn_index = n\<rparr>"

definition mark_filed :: "string \<Rightarrow> article \<Rightarrow> unit act" where
  "mark_filed qid a = on_query qid (\<lambda>q. q\<lparr>qq_filed_back := True, qq_filed_article_id := Some (art_id a)\<rparr>)"

definition file_query :: "env \<Rightarrow> string \<Rightarrow> string \<Rightarrow> string \<Rightarrow> article act" where
  "file_query env qid cid user_id =
     bindS (file_back_thread env cid user_id) (\<lambda>(a, _). bindS (mark_filed qid a) (\<lambda>_. returnS a))"

text \<open>Filing by the score. Whatever goes wrong, the answer is given; the new title stays.\<close>

definition auto_file_back ::
  "qa_env \<Rightarrow> string \<Rightarrow> string \<Rightarrow> query_result \<Rightarrow> article option \<Rightarrow> string \<Rightarrow> (worthiness option \<times> article option) act" where
  "auto_file_back qe qid cid r filed user_id =
     (if \<not> qe_auto_file_back qe then returnS (None, filed)
      else
        bindS (liftG (score_wiki_worthiness qe r (qr_answer r) user_id)) (\<lambda>score.
          if ww_passed score \<and> \<not> ww_dedup_collision score \<and> filed = None
          then tryS
            (bindS (on_conversation cid (\<lambda>c. c\<lparr>cv_title := derive_auto_file_back_title r\<rparr>)) (\<lambda>_.
             bindS (file_query (qe_env qe) qid cid user_id) (\<lambda>a.
               returnS (Some (score\<lparr>ww_auto_filed := True\<rparr>), Some a))))
            (\<lambda>e. returnS (Some score, None))
          else returnS (Some score, filed)))"

type_synonym qa_result = "qa_query \<times> conversation \<times> worthiness option"

definition persist_query :: "qa_env \<Rightarrow> query_request \<Rightarrow> query_result \<Rightarrow> string \<Rightarrow> int \<Rightarrow> string \<Rightarrow> qa_result act" where
  "persist_query qe req r cid n user_id =
     (let env = qe_env qe in
      bindS (freshS (en_uuid env)) (\<lambda>qid.
      bindS (putS (\<lambda>w. w\<lparr>w_queries := w_queries w @ [new_query env qid user_id (qrq_question req) r cid n]\<rparr>)) (\<lambda>_.
      bindS (on_conversation cid (\<lambda>c. c\<lparr>cv_updated_at := en_now env\<rparr>)) (\<lambda>_.
      bindS (if qrq_file_back req \<and> (qr_confidence r = ''high'' \<or> qr_confidence r = ''medium'')
             then bindS (file_query env qid cid user_id) (\<lambda>a. returnS (Some a)) else returnS None) (\<lambda>manual.
      bindS (auto_file_back qe qid cid r manual user_id) (\<lambda>(score, filed).
      bindS commitS (\<lambda>_.
      bindS (logS is_os_error
              (bindS (fileS (append_log_entry env ''query'' (take 120 (qrq_question req)) user_id [])) (\<lambda>_.
               case filed of
                 None \<Rightarrow> returnS ()
               | Some a \<Rightarrow> fileS (append_log_entry env ''filed'' (art_title a) user_id [(''conversation_id'', cid)])))) (\<lambda>_.
      bindS (get_or_raise NoResultFound (\<lambda>w. get_by qq_id qid (w_queries w))) (\<lambda>q.
      bindS (get_or_raise NoResultFound (conversation_by_id cid)) (\<lambda>c.
        returnS (q, c, score)))))))))))"

definition answer_question :: "qa_env \<Rightarrow> query_request \<Rightarrow> string \<Rightarrow> qa_result act" where
  "answer_question qe req user_id =
     bindS (prepare_context qe req user_id) (\<lambda>(cid, n, prior, context).
     bindS (if context = [] then returnS (no_context_result (qrq_question req))
            else query_llm qe (qrq_question req) context prior user_id) (\<lambda>r.
       persist_query qe req r cid n user_id))"

section \<open>Answers as a stream\<close>

text \<open>
  A stream is the list of its chunks and what it ends with. Its user sees the chunks also when something fails, so
  that the result is the chunks and the outcome.
\<close>

definition attemptS :: "'a act \<Rightarrow> 'a result act" where
  "attemptS m s = (case m s of (t, r) \<Rightarrow> (t, ok r))"

definition streamS :: "qa_env \<Rightarrow> completion_request \<Rightarrow> string \<Rightarrow> (string list \<times> completion_response option result) act" where
  "streamS qe req user_id s =
     (let env = qe_env qe; w = se_cur s;
          (ro, atts, r) = stream_complete (en_llm env) (en_user_key env user_id) (qe_stream qe (w_uuids w)) req (w_router w);
          ran = (\<lambda>v. v\<lparr>w_router := ro, w_uuids := w_uuids w + 1\<rparr>)
      in (s\<lparr>se_saved := ran (se_saved s), se_cur := ran w\<rparr>, r))"

definition log_stream_cost :: "env \<Rightarrow> completion_response option \<Rightarrow> string \<Rightarrow> unit act" where
  "log_stream_cost env response user_id =
     (case response of
        None \<Rightarrow> returnS ()
      | Some resp \<Rightarrow>
          bindS (freshS (en_uuid env)) (\<lambda>i.
          bindS (putS (on_db (log_cost i (en_now env) (rs_provider_used resp) (rs_model_used resp) T_QA resp user_id))) (\<lambda>_. commitS)))"

definition finish_stream :: "qa_env \<Rightarrow> query_request \<Rightarrow> string \<Rightarrow> int \<Rightarrow> string \<Rightarrow> string \<Rightarrow> completion_response option result \<Rightarrow> qa_result act" where
  "finish_stream qe req cid n user_id content outcome =
     bindS (liftS outcome) (\<lambda>response.
     bindS (log_stream_cost (qe_env qe) response user_id) (\<lambda>_.
     bindS (liftS (read_answer (en_loads (qe_env qe)) content)) (\<lambda>r.
       persist_query qe req r cid n user_id)))"

definition answer_stream :: "qa_env \<Rightarrow> query_request \<Rightarrow> string \<Rightarrow> (string list \<times> qa_result result) act" where
  "answer_stream qe req user_id =
     bindS (attemptS (prepare_context qe req user_id)) (\<lambda>p. case p of
       Inl e \<Rightarrow> returnS ([], raise e)
     | Inr (cid, n, prior, context) \<Rightarrow>
         if context = []
         then (let r = no_context_result (qrq_question req)
               in bindS (attemptS (persist_query qe req r cid n user_id)) (\<lambda>x. returnS ([qr_answer r], x)))
         else
           bindS (attemptS (streamS qe (build_completion_request qe (qrq_question req) context prior) user_id)) (\<lambda>st. case st of
             Inl e \<Rightarrow> returnS ([], raise e)
           | Inr (chunks, outcome) \<Rightarrow>
               bindS (attemptS (finish_stream qe req cid n user_id (concat chunks) outcome)) (\<lambda>x. returnS (chunks, x))))"

end
