(* ===== verification/QueryService.thy ===== *)
theory QueryService
  imports QaAgent Quota
begin

text \<open>
  The service of questions and conversations, \<^verbatim>\<open>src/src/wikimind/services/query.py\<close>, and the routes of
  \<^verbatim>\<open>api/routes/query.py\<close> that check the quota: citations, histories, threads, forks, filing and export, and
  the events of a streamed answer.
\<close>

section \<open>Responses\<close>

record citation =
  ci_slug :: string
  ci_title :: string
  ci_sources :: "source_response list"
  ci_confidence_score :: rat
  ci_effective_confidence :: rat

record query_response =
  qp_id :: string
  qp_question :: string
  qp_answer :: string
  qp_confidence :: "string option"
  qp_source_article_ids :: "string option"
  qp_related_article_ids :: "string option"
  qp_filed_back :: bool
  qp_filed_article_id :: "string option"
  qp_created_at :: datetime
  qp_conversation_id :: "string option"
  qp_turn_index :: int
  qp_citations :: "citation list"
  qp_wiki_worthiness :: "worthiness option"

record conversation_response =
  cp_id :: string
  cp_title :: string
  cp_created_at :: datetime
  cp_updated_at :: datetime
  cp_filed_article_id :: "string option"
  cp_crystallized_article_id :: "string option"
  cp_parent_conversation_id :: "string option"
  cp_forked_at_turn_index :: "int option"
  cp_fork_count :: nat

type_synonym ask_response = "query_response \<times> conversation_response"

text \<open>Titles cited more than once are cited more than once; of articles with the same title the last one counts.\<close>

definition citation_of :: "env \<Rightarrow> db \<Rightarrow> article \<Rightarrow> citation" where
  "citation_of env d a =
     (let linked = map as_source_id (select (\<lambda>x. as_article_id x = art_id a) (article_sources d));
          source_ids = (if linked = [] then parse_json_column (en_loads env) (art_source_ids a) else linked)
      in \<lparr>ci_slug = art_slug a, ci_title = art_title a, ci_sources = map to_source_response (fetch_sources source_ids d),
          ci_confidence_score = art_confidence_score a, ci_effective_confidence = effective_confidence env a\<rparr>)"

definition build_citations :: "env \<Rightarrow> string \<Rightarrow> db \<Rightarrow> qa_query \<Rightarrow> citation list" where
  "build_citations env user_id d q =
     (let titles = parse_sources (en_loads env) (qq_source_article_ids q);
          found = (\<lambda>t. find (\<lambda>a. art_title a = t) (rev (select (\<lambda>a. art_title a \<in> set titles \<and> art_user_id a = user_id) (articles d))))
      in map (citation_of env d) (List.map_filter found titles))"

definition to_query_response :: "qa_query \<Rightarrow> citation list \<Rightarrow> worthiness option \<Rightarrow> query_response" where
  "to_query_response q cites score =
     \<lparr>qp_id = qq_id q, qp_question = qq_question q, qp_answer = qq_answer q, qp_confidence = qq_confidence q,
      qp_source_article_ids = qq_source_article_ids q, qp_related_article_ids = qq_related_article_ids q,
      qp_filed_back = qq_filed_back q, qp_filed_article_id = qq_filed_article_id q, qp_created_at = qq_created_at q,
      qp_conversation_id = qq_conversation_id q, qp_turn_index = qq_turn_index q, qp_citations = cites, qp_wiki_worthiness = score\<rparr>"

definition to_conversation_response :: "conversation \<Rightarrow> nat \<Rightarrow> conversation_response" where
  "to_conversation_response c forks =
     \<lparr>cp_id = cv_id c, cp_title = cv_title c, cp_created_at = cv_created_at c, cp_updated_at = cv_updated_at c,
      cp_filed_article_id = cv_filed_article_id c, cp_crystallized_article_id = None,
      cp_parent_conversation_id = cv_parent_conversation_id c, cp_forked_at_turn_index = cv_forked_at_turn_index c, cp_fork_count = forks\<rparr>"

definition count_forks :: "string \<Rightarrow> world \<Rightarrow> nat" where
  "count_forks cid w = length (select (\<lambda>c. cv_parent_conversation_id c = Some cid) (w_conversations w))"

section \<open>Asking\<close>

definition respond :: "qa_env \<Rightarrow> string \<Rightarrow> (world \<Rightarrow> nat) \<Rightarrow> qa_result \<Rightarrow> ask_response act" where
  "respond qe user_id forks x =
     (case x of (q, c, score) \<Rightarrow>
        bindS (getS (\<lambda>w. (build_citations (qe_env qe) user_id (w_db w) q, forks w))) (\<lambda>(cites, n).
          returnS (to_query_response q cites score, to_conversation_response c n)))"

definition ask :: "qa_env \<Rightarrow> query_request \<Rightarrow> string \<Rightarrow> ask_response act" where
  "ask qe req user_id = bindS (answer_question qe req user_id) (respond qe user_id (\<lambda>w. 0))"

text \<open>The events of a stream; the last one tells how it ended.\<close>

datatype sse_event = Chunk string | Done ask_response | StreamError

definition ask_stream :: "qa_env \<Rightarrow> query_request \<Rightarrow> string \<Rightarrow> sse_event list act" where
  "ask_stream qe req user_id =
     bindS (answer_stream qe req user_id) (\<lambda>(chunks, outcome).
     bindS (attemptS (bindS (liftS outcome) (respond qe user_id (\<lambda>w. 0)))) (\<lambda>r.
       returnS (map Chunk chunks @ [case r of Inr resp \<Rightarrow> Done resp | Inl e \<Rightarrow> StreamError])))"

definition query_quotaS :: "env \<Rightarrow> string \<Rightarrow> plan option \<Rightarrow> unit act" where
  "query_quotaS env user_id plan =
     (case plan of
        None \<Rightarrow> returnS ()
      | Some p \<Rightarrow> bindS (liftG (check_query_quota (en_now env) user_id p)) (\<lambda>d. putS (on_db (\<lambda>_. d))))"

definition ask_route :: "qa_env \<Rightarrow> plan option \<Rightarrow> query_request \<Rightarrow> string \<Rightarrow> ask_response act" where
  "ask_route qe plan req user_id = bindS (query_quotaS (qe_env qe) user_id plan) (\<lambda>_. ask qe req user_id)"

text \<open>A session of its own, that nothing commits at the end.\<close>

definition ask_stream_route :: "qa_env \<Rightarrow> plan option \<Rightarrow> query_request \<Rightarrow> string \<Rightarrow> sse_event list act" where
  "ask_stream_route qe plan req user_id =
     tryS (bindS (query_quotaS (qe_env qe) user_id plan) (\<lambda>_. ask_stream qe req user_id)) (\<lambda>e. returnS [StreamError])"

section \<open>Histories and conversations\<close>

definition query_history :: "string \<Rightarrow> nat \<Rightarrow> world \<Rightarrow> qa_query list" where
  "query_history user_id limit w =
     take limit (sort_key (\<lambda>q. - qq_created_at q) (select (\<lambda>q. qq_user_id q = user_id) (w_queries w)))"

definition list_conversations :: "string \<Rightarrow> nat \<Rightarrow> world \<Rightarrow> (conversation_response \<times> nat) list" where
  "list_conversations user_id limit w =
     map (\<lambda>c. (to_conversation_response c (count_forks (cv_id c) w),
           length (select (\<lambda>q. qq_conversation_id q = Some (cv_id c)) (w_queries w))))
       (take limit (sort_key (\<lambda>c. - cv_updated_at c) (select (\<lambda>c. cv_user_id c = user_id) (w_conversations w))))"

definition owned_conversation :: "string \<Rightarrow> string \<Rightarrow> string \<Rightarrow> conversation act" where
  "owned_conversation cid user_id msg =
     bindS (get_or_raise (NotFoundError msg) (conversation_by_id cid)) (\<lambda>c.
       if user_id \<noteq> [] \<and> cv_user_id c \<noteq> user_id then raiseS (NotFoundError msg) else returnS c)"

definition get_conversation :: "env \<Rightarrow> string \<Rightarrow> string \<Rightarrow> (conversation_response \<times> query_response list) act" where
  "get_conversation env cid user_id =
     bindS (owned_conversation cid user_id ''Conversation not found'') (\<lambda>c.
     bindS (getS (\<lambda>w. (if cv_parent_conversation_id c = None then Some (turns_before cid None (w_queries w)) else materialize_thread c w,
                       count_forks cid w, w_db w))) (\<lambda>(thread, forks, d).
     bindS (liftS (walked thread)) (\<lambda>qs.
       returnS (to_conversation_response c forks, map (\<lambda>q. to_query_response q (build_citations env user_id d q) None) qs))))"

definition file_back_conversation :: "env \<Rightarrow> string \<Rightarrow> string \<Rightarrow> (string \<times> string \<times> string \<times> bool) act" where
  "file_back_conversation env cid user_id =
     bindS (owned_conversation cid user_id ''Conversation not found'') (\<lambda>c.
     bindS (file_back_thread env cid user_id) (\<lambda>(a, was_update).
       returnS (art_id a, art_slug a, art_title a, was_update)))"

definition fork_conversation :: "qa_env \<Rightarrow> string \<Rightarrow> int \<Rightarrow> string \<Rightarrow> string \<Rightarrow> ask_response act" where
  "fork_conversation qe cid turn_index question user_id =
     bindS (owned_conversation cid user_id ''Conversation not found'') (\<lambda>c.
       if turn_index < 0 then raiseS (QueryError ''turn_index must be >= 0'')
       else
         bindS (add_conversation qe user_id question
                  (\<lambda>x. x\<lparr>cv_parent_conversation_id := Some cid, cv_forked_at_turn_index := Some turn_index\<rparr>)) (\<lambda>fork.
           if length question > 10000 then raiseS (ValueError ''String should have at most 10000 characters'')
           else
             bindS (answer_question qe \<lparr>qrq_question = question, qrq_file_back = False, qrq_conversation_id = Some fork\<rparr> user_id)
               (respond qe user_id (count_forks fork))))"

section \<open>Filing a selection\<close>

definition select_turns :: "string \<Rightarrow> string \<times> int list \<Rightarrow> selected_turn list \<Rightarrow> selected_turn list act" where
  "select_turns user_id sel acc =
     (case sel of (cid, indices) \<Rightarrow>
        bindS (owned_conversation cid user_id (''Conversation not found: '' @ cid)) (\<lambda>c.
          if indices = [] then returnS acc
          else
            bindS (getS (\<lambda>w. sort_key qq_turn_index (select (\<lambda>q. qq_conversation_id q = Some cid \<and> qq_turn_index q \<in> set indices) (w_queries w)))) (\<lambda>qs.
              let missing = sort (nub (filter (\<lambda>i. i \<notin> set (map qq_turn_index qs)) indices))
              in if missing \<noteq> []
                 then raiseS (QueryError (''Turn indices ['' @ py_join '', '' (map show_int missing) @ ''] not found in conversation '' @ cid))
                 else returnS (acc @ map (Pair c) qs))))"

definition file_back_selection :: "env \<Rightarrow> (string \<times> int list) list \<Rightarrow> string option \<Rightarrow> string \<Rightarrow> (string \<times> string \<times> string \<times> bool) act" where
  "file_back_selection env selections title user_id =
     (if selections = [] then raiseS (QueryError ''No selections provided'')
      else
        bindS (foldS (select_turns user_id) selections []) (\<lambda>turns.
          case turns of
            [] \<Rightarrow> raiseS (QueryError ''No turns selected'')
          | (c, q) # _ \<Rightarrow>
              (let markdown = serialize_selected_turns_to_markdown (en_loads env) turns title
               in bindS (freshS (en_uuid env)) (\<lambda>slug.
                  bindS (fileS (wiki_write (en_data_dir env) user_id (''qa-answers/'' @ slug @ ''.md'') markdown)) (\<lambda>_.
                  bindS (freshS (en_uuid env)) (\<lambda>aid.
                  let a = filed_article (en_now env) aid user_id slug (selection_title title (cv_title c)) (map snd turns)
                  in bindS (putS (on_db (\<lambda>d. d\<lparr>articles := articles d @ [a]\<rparr>))) (\<lambda>_.
                     bindS (foldS (\<lambda>t _. mark_filed (qq_id (snd t)) a) turns ()) (\<lambda>_.
                     bindS commitS (\<lambda>_.
                     bindS (index_rows env aid (art_title a) markdown) (\<lambda>_.
                     bindS commitS (\<lambda>_.
                       returnS (aid, slug, art_title a, False))))))))))))"

section \<open>Export\<close>

definition filename_char :: "char \<Rightarrow> bool" where
  "filename_char c \<longleftrightarrow> is_lower_alnum c \<or> 65 \<le> cp c \<and> cp c \<le> 90 \<or> c \<in> {CHR ''_'', CHR ''-'', CHR '' ''}"

definition sanitize_filename :: "string \<Rightarrow> string" where
  "sanitize_filename title =
     (let replaced = map (\<lambda>c. if filename_char c then c else CHR ''-'') title;
          stripped = strip_by (\<lambda>c. c = CHR ''-'' \<or> c = CHR '' '') (sub_runs 2 (\<lambda>c. c = CHR ''-'') ''-'' replaced)
      in if stripped = [] then ''conversation'' else stripped)"

definition export_conversation :: "env \<Rightarrow> string \<Rightarrow> string \<Rightarrow> (string \<times> string) act" where
  "export_conversation env cid user_id =
     bindS (owned_conversation cid user_id ''Conversation not found'') (\<lambda>c.
     bindS (getS (\<lambda>w. turns_before cid None (w_queries w))) (\<lambda>qs.
       returnS (''attachment; filename='' @ [CHR 0x22] @ sanitize_filename (cv_title c) @ ''.md'' @ [CHR 0x22],
                serialize_conversation_to_markdown env c qs)))"

end
