(* ===== verification/Threads.thy ===== *)
theory Threads
  imports QueryService
begin

text \<open>
  What requests on conversations keep: triples of a condition on the session's world before some code, the code, and a
  condition on the result and the world after it, all under an invariant that commits, rollbacks and exceptions keep;
  the invariant of conversations and turns; and the properties that follow for every run of requests.
\<close>

section \<open>Triples under an invariant\<close>

text \<open>The invariant looks at the conversations, the turns and the number of ids drawn, and survives drawing more.\<close>

locale session_invariant =
  fixes I :: "world \<Rightarrow> bool"
  assumes I_mono: "I w \<Longrightarrow> w_conversations v = w_conversations w \<Longrightarrow> w_queries v = w_queries w \<Longrightarrow> w_uuids w \<le> w_uuids v \<Longrightarrow> I v"
begin

definition session_ok :: "sess \<Rightarrow> bool" where
  "session_ok s \<longleftrightarrow> I (se_saved s) \<and> I (se_cur s) \<and> w_uuids (se_saved s) \<le> w_uuids (se_cur s)"

definition triple :: "(world \<Rightarrow> bool) \<Rightarrow> 'a act \<Rightarrow> ('a \<Rightarrow> world \<Rightarrow> bool) \<Rightarrow> bool" where
  "triple P m Q \<longleftrightarrow> (\<forall>s t r. session_ok s \<longrightarrow> P (se_cur s) \<longrightarrow> m s = (t, r) \<longrightarrow>
     session_ok t \<and> (\<forall>x. r = ok x \<longrightarrow> Q x (se_cur t)))"

lemma tripleI: "(\<And>s t r. session_ok s \<Longrightarrow> P (se_cur s) \<Longrightarrow> m s = (t, r) \<Longrightarrow> session_ok t \<and> (\<forall>x. r = ok x \<longrightarrow> Q x (se_cur t))) \<Longrightarrow> triple P m Q"
  by (simp add: triple_def)

lemma tripleD: "triple P m Q \<Longrightarrow> session_ok s \<Longrightarrow> P (se_cur s) \<Longrightarrow> m s = (t, r) \<Longrightarrow> session_ok t \<and> (\<forall>x. r = ok x \<longrightarrow> Q x (se_cur t))"
  by (simp add: triple_def)

lemma t_weaken: "triple P m Q \<Longrightarrow> (\<And>w. P' w \<Longrightarrow> P w) \<Longrightarrow> (\<And>x w. Q x w \<Longrightarrow> Q' x w) \<Longrightarrow> triple P' m Q'"
  unfolding triple_def by blast

lemma t_return: "(\<And>w. P w \<Longrightarrow> Q x w) \<Longrightarrow> triple P (returnS x) Q"
  and t_raise: "triple P (raiseS e) Q"
  and t_lift: "(\<And>w x. P w \<Longrightarrow> r = ok x \<Longrightarrow> Q x w) \<Longrightarrow> triple P (liftS r) Q"
  by (auto simp: triple_def)

lemma t_bind: "triple P m R \<Longrightarrow> (\<And>x. triple (R x) (f x) Q) \<Longrightarrow> triple P (bindS m f) Q"
proof (rule tripleI)
  fix s t r assume m: "triple P m R" and f: "\<And>x. triple (R x) (f x) Q" and s: "session_ok s" "P (se_cur s)" and run: "bindS m f s = (t, r)"
  obtain u v where u: "m s = (u, v)" by (cases "m s")
  note m = tripleD [OF m s u]
  show "session_ok t \<and> (\<forall>x. r = ok x \<longrightarrow> Q x (se_cur t))"
  proof (cases v)
    case (Inl e)
    with run u m show ?thesis by (auto simp: bindS_def)
  next
    case (Inr x)
    with run u have "f x u = (t, r)" by (simp add: bindS_def)
    with m Inr show ?thesis by (intro tripleD [OF f]) auto
  qed
qed

lemma t_get: "(\<And>w. I w \<Longrightarrow> P w \<Longrightarrow> Q (f w) w) \<Longrightarrow> triple P (getS f) Q"
  by (auto simp: triple_def getS_def checkedS_def readS_def session_ok_def)

lemma t_put: "(\<And>w. I w \<Longrightarrow> P w \<Longrightarrow> I (g w) \<and> w_uuids (g w) = w_uuids w \<and> Q () (g w)) \<Longrightarrow> triple P (putS g) Q"
  by (auto simp: triple_def putS_def checkedS_def modifyS_def session_ok_def)

lemma t_fresh: "(\<And>w. I w \<Longrightarrow> P w \<Longrightarrow> Q (u (w_uuids w)) (w\<lparr>w_uuids := w_uuids w + 1\<rparr>)) \<Longrightarrow> triple P (freshS u) Q"
proof (rule tripleI)
  fix s t r assume *: "\<And>w. I w \<Longrightarrow> P w \<Longrightarrow> Q (u (w_uuids w)) (w\<lparr>w_uuids := w_uuids w + 1\<rparr>)" "session_ok s" "P (se_cur s)" "freshS u s = (t, r)"
  have "I ((se_cur s)\<lparr>w_uuids := w_uuids (se_cur s) + 1\<rparr>)"
    by (rule I_mono [of "se_cur s"]) (use *(2) in \<open>simp_all add: session_ok_def\<close>)
  with * show "session_ok t \<and> (\<forall>x. r = ok x \<longrightarrow> Q x (se_cur t))" by (auto simp: freshS_def session_ok_def)
qed

lemma t_file: "(\<And>w f. P w \<Longrightarrow> Q () (on_db (\<lambda>d0. d0\<lparr>wiki_files := f\<rparr>) w)) \<Longrightarrow> triple P (fileS g) Q"
proof (rule tripleI)
  fix s t r assume *: "\<And>w f. P w \<Longrightarrow> Q () (on_db (\<lambda>d0. d0\<lparr>wiki_files := f\<rparr>) w)" "session_ok s" "P (se_cur s)" "fileS g s = (t, r)"
  have "I (on_db (\<lambda>d0. d0\<lparr>wiki_files := f\<rparr>) (se_cur s))" for f
    by (rule I_mono [of "se_cur s"]) (use *(2) in \<open>simp_all add: session_ok_def on_db_def\<close>)
  with * show "session_ok t \<and> (\<forall>x. r = ok x \<longrightarrow> Q x (se_cur t))"
    by (auto simp: fileS_def session_ok_def on_db_def split: sum.splits)
qed

lemma session_closed: "session_ok s \<Longrightarrow> I (closed s) \<and> w_uuids (closed s) = w_uuids (se_cur s)"
  by (auto simp: session_ok_def closed_def intro!: I_mono [of "se_saved s"])

lemma t_commit: "(\<And>w. P w \<Longrightarrow> Q () w) \<Longrightarrow> triple P commitS Q"
  using session_closed by (fastforce simp: triple_def commitS_def session_ok_def split: if_splits)

text \<open>Calls of the model change the router, the ids drawn and the log of the costs.\<close>

definition outside :: "(world \<Rightarrow> bool) \<Rightarrow> bool" where
  "outside P \<longleftrightarrow> (\<forall>v w. w_conversations v = w_conversations w \<longrightarrow> w_queries v = w_queries w \<longrightarrow> w_uuids w \<le> w_uuids v \<longrightarrow> P w \<longrightarrow> P v)"

lemma t_llm: "outside P \<Longrightarrow> triple P (llmS env b req uid) (\<lambda>_. P)"
proof (rule tripleI)
  fix s t r assume P: "outside P" "P (se_cur s)" and s: "session_ok s" and run: "llmS env b req uid s = (t, r)"
  from run have t: "w_conversations (se_saved t) = w_conversations (se_saved s)" "w_queries (se_saved t) = w_queries (se_saved s)"
    "w_conversations (se_cur t) = w_conversations (se_cur s)" "w_queries (se_cur t) = w_queries (se_cur s)"
    "w_uuids (se_saved t) = w_uuids (se_cur s) + 2" "w_uuids (se_cur t) = w_uuids (se_cur s) + 2"
    by (auto simp: llmS_def Let_def split: prod.splits)
  from s have "I (se_saved t)" "I (se_cur t)"
    by (auto simp: session_ok_def t intro: I_mono [of "se_saved s"] I_mono [of "se_cur s"])
  with P t show "session_ok t \<and> (\<forall>x. r = ok x \<longrightarrow> P (se_cur t))" by (auto simp: session_ok_def outside_def)
qed

lemma t_stream: "outside P \<Longrightarrow> triple P (streamS qe req uid) (\<lambda>_. P)"
proof (rule tripleI)
  fix s t r assume P: "outside P" "P (se_cur s)" and s: "session_ok s" and run: "streamS qe req uid s = (t, r)"
  from run have t: "w_conversations (se_saved t) = w_conversations (se_saved s)" "w_queries (se_saved t) = w_queries (se_saved s)"
    "w_conversations (se_cur t) = w_conversations (se_cur s)" "w_queries (se_cur t) = w_queries (se_cur s)"
    "w_uuids (se_saved t) = w_uuids (se_cur s) + 1" "w_uuids (se_cur t) = w_uuids (se_cur s) + 1"
    by (auto simp: streamS_def Let_def split: prod.splits)
  from s have "I (se_saved t)" "I (se_cur t)"
    by (auto simp: session_ok_def t intro: I_mono [of "se_saved s"] I_mono [of "se_cur s"])
  with P t show "session_ok t \<and> (\<forall>x. r = ok x \<longrightarrow> P (se_cur t))" by (auto simp: session_ok_def outside_def)
qed

lemma t_try: "triple P m Q \<Longrightarrow> (\<And>e. triple (\<lambda>_. True) (h e) Q) \<Longrightarrow> triple P (tryS m h) Q"
proof (rule tripleI)
  fix s t r assume m: "triple P m Q" and h: "\<And>e. triple (\<lambda>_. True) (h e) Q" and s: "session_ok s" "P (se_cur s)" and run: "tryS m h s = (t, r)"
  obtain u v where u: "m s = (u, v)" by (cases "m s")
  note m = tripleD [OF m s u]
  show "session_ok t \<and> (\<forall>x. r = ok x \<longrightarrow> Q x (se_cur t))"
  proof (cases v)
    case (Inl e)
    with run u have "h e u = (t, r)" by (simp add: tryS_def)
    with m show ?thesis by (intro tripleD [OF h]) auto
  next
    case (Inr x)
    with run u m show ?thesis by (auto simp: tryS_def)
  qed
qed

lemma t_attempt: "triple P m Q \<Longrightarrow> triple P (attemptS m) (\<lambda>r w. \<forall>x. r = ok x \<longrightarrow> Q x w)"
  unfolding triple_def attemptS_def by (fastforce split: prod.splits)

lemma t_if: "(b \<Longrightarrow> triple P m Q) \<Longrightarrow> (\<not> b \<Longrightarrow> triple P n Q) \<Longrightarrow> triple P (if b then m else n) Q"
  by simp

lemma t_option: "(v = None \<Longrightarrow> triple P m Q) \<Longrightarrow> (\<And>x. v = Some x \<Longrightarrow> triple P (k x) Q) \<Longrightarrow> triple P (case v of None \<Rightarrow> m | Some x \<Rightarrow> k x) Q"
  by (cases v) simp_all

lemma t_pair: "(\<And>x y. p = (x, y) \<Longrightarrow> triple P (k x y) Q) \<Longrightarrow> triple P (case p of (x, y) \<Rightarrow> k x y) Q"
  by (cases p) simp

lemma t_fold: "(\<And>x acc. x \<in> set xs \<Longrightarrow> triple (\<lambda>_. True) (k x acc) (\<lambda>_ _. True)) \<Longrightarrow> triple (\<lambda>_. True) (foldS k xs acc) (\<lambda>_ _. True)"
  by (induction xs arbitrary: acc) (auto intro: t_return t_bind)

text \<open>Code that only keeps the invariant.\<close>

definition keeps :: "'a act \<Rightarrow> bool" where
  "keeps m \<longleftrightarrow> triple (\<lambda>_. True) m (\<lambda>_ _. True)"

lemma keeps_triple: "keeps m \<Longrightarrow> triple P m (\<lambda>_ _. True)"
  unfolding keeps_def by (rule t_weaken) simp_all

lemma keeps_return: "keeps (returnS x)" and keeps_raise: "keeps (raiseS e)" and keeps_lift: "keeps (liftS r)" and keeps_get: "keeps (getS f)"
  and keeps_fresh: "keeps (freshS u)" and keeps_file: "keeps (fileS g)" and keeps_commit: "keeps commitS"
  unfolding keeps_def by (intro t_return t_raise t_lift t_get t_fresh t_file t_commit TrueI)+

lemma keeps_bind: "keeps m \<Longrightarrow> (\<And>x. keeps (f x)) \<Longrightarrow> keeps (bindS m f)"
  unfolding keeps_def by (rule t_bind)

lemma keeps_try: "keeps m \<Longrightarrow> (\<And>e. keeps (h e)) \<Longrightarrow> keeps (tryS m h)"
  unfolding keeps_def by (rule t_try)

lemma keeps_attempt: "keeps m \<Longrightarrow> keeps (attemptS m)"
  unfolding keeps_def by (rule t_weaken [OF t_attempt]) simp_all

lemma keeps_llm: "keeps (llmS env b req uid)" and keeps_stream: "keeps (streamS qe req uid)"
  unfolding keeps_def by (rule t_weaken [OF t_llm] t_weaken [OF t_stream]; simp add: outside_def)+

lemma keeps_if: "(b \<Longrightarrow> keeps m) \<Longrightarrow> (\<not> b \<Longrightarrow> keeps n) \<Longrightarrow> keeps (if b then m else n)"
  by simp

lemma keeps_option: "(v = None \<Longrightarrow> keeps m) \<Longrightarrow> (\<And>x. v = Some x \<Longrightarrow> keeps (k x)) \<Longrightarrow> keeps (case v of None \<Rightarrow> m | Some x \<Rightarrow> k x)"
  by (cases v) simp_all

lemma keeps_sum: "(\<And>e. v = Inl e \<Longrightarrow> keeps (h e)) \<Longrightarrow> (\<And>x. v = Inr x \<Longrightarrow> keeps (k x)) \<Longrightarrow> keeps (case v of Inl e \<Rightarrow> h e | Inr x \<Rightarrow> k x)"
  by (cases v) simp_all

lemma keeps_list: "(v = [] \<Longrightarrow> keeps m) \<Longrightarrow> (\<And>x xs. v = x # xs \<Longrightarrow> keeps (k x xs)) \<Longrightarrow> keeps (case v of [] \<Rightarrow> m | x # xs \<Rightarrow> k x xs)"
  by (cases v) simp_all

lemma keeps_pair: "(\<And>x y. p = (x, y) \<Longrightarrow> keeps (k x y)) \<Longrightarrow> keeps (case p of (x, y) \<Rightarrow> k x y)"
  by (cases p) simp

lemma keeps_fold: "(\<And>x acc. x \<in> set xs \<Longrightarrow> keeps (k x acc)) \<Longrightarrow> keeps (foldS k xs acc)"
  unfolding keeps_def by (rule t_fold)

lemma keeps_put: "(\<And>w. I w \<Longrightarrow> I (g w) \<and> w_uuids (g w) = w_uuids w) \<Longrightarrow> keeps (putS g)"
  unfolding keeps_def by (rule t_put) simp

lemma keeps_put_same:
  "(\<And>w. w_conversations (g w) = w_conversations w \<and> w_queries (g w) = w_queries w \<and> w_uuids (g w) = w_uuids w) \<Longrightarrow> keeps (putS g)"
  by (rule keeps_put) (auto intro: I_mono)

lemmas keeps_rules = keeps_return keeps_raise keeps_lift keeps_bind keeps_fold keeps_try keeps_if keeps_pair keeps_get keeps_fresh keeps_file
  keeps_commit keeps_attempt keeps_llm keeps_stream keeps_option keeps_sum keeps_list

lemma in_session_ok: "keeps m \<Longrightarrow> I w \<Longrightarrow> I (fst (in_session m w))"
proof -
  assume m: "keeps m" and w: "I w"
  obtain s r where s: "m (open_session w) = (s, r)" by (cases "m (open_session w)")
  have "session_ok (open_session w)" using w by (simp add: session_ok_def open_session_def)
  with m s have "session_ok s" unfolding keeps_def using tripleD by blast
  then show ?thesis using session_closed by (simp add: in_session_def s)
qed

lemma in_request_ok: "keeps m \<Longrightarrow> I w \<Longrightarrow> I (fst (in_request m w))"
  unfolding in_request_def by (intro in_session_ok keeps_rules)

end

section \<open>The invariant of conversations and turns\<close>

definition ids_of :: "world \<Rightarrow> string list" where
  "ids_of w = map cv_id (w_conversations w)"

definition numbers :: "string \<Rightarrow> world \<Rightarrow> int list" where
  "numbers cid w = map qq_turn_index (select (\<lambda>q. qq_conversation_id q = Some cid) (w_queries w))"

definition counted_up :: "int list \<Rightarrow> bool" where
  "counted_up ns \<longleftrightarrow> ns = map int [0..<length ns]"

text \<open>
  Conversations were made after their parents, have an id of their own, and all ids were drawn; every turn belongs to
  a conversation, and the turns of each are numbered from 0 in the order in which they were stored.
\<close>

definition threads_ok :: "(nat \<Rightarrow> string) \<Rightarrow> world \<Rightarrow> bool" where
  "threads_ok uuid w \<longleftrightarrow> inj uuid \<and> parents_first [] (w_conversations w) \<and> distinct (ids_of w) \<and> set (ids_of w) \<subseteq> uuid ` {..<w_uuids w} \<and>
     (\<forall>q \<in> set (w_queries w). \<exists>cid \<in> set (ids_of w). qq_conversation_id q = Some cid) \<and> (\<forall>cid. counted_up (numbers cid w))"

lemma threads_mono:
  "threads_ok uuid w \<Longrightarrow> w_conversations v = w_conversations w \<Longrightarrow> w_queries v = w_queries w \<Longrightarrow> w_uuids w \<le> w_uuids v \<Longrightarrow> threads_ok uuid v"
  by (auto simp: threads_ok_def ids_of_def numbers_def)

interpretation thr: session_invariant "threads_ok uuid" for uuid
  by unfold_locales (rule threads_mono)

lemma counted_up_snoc: "counted_up (ns @ [n]) \<longleftrightarrow> counted_up ns \<and> n = int (length ns)"
  by (auto simp: counted_up_def)

lemma parents_update:
  "(\<And>c. cv_id (f c) = cv_id c \<and> cv_parent_conversation_id (f c) = cv_parent_conversation_id c) \<Longrightarrow>
   parents_first seen (update_where p f cs) = parents_first seen cs"
  by (induction cs arbitrary: seen) (simp_all add: update_where_def)

lemma keeps_conversation:
  "(\<And>c. cv_id (f c) = cv_id c \<and> cv_parent_conversation_id (f c) = cv_parent_conversation_id c) \<Longrightarrow> thr.keeps uuid (on_conversation cid f)"
  unfolding on_conversation_def
proof (rule thr.keeps_put)
  fix w assume f: "\<And>c. cv_id (f c) = cv_id c \<and> cv_parent_conversation_id (f c) = cv_parent_conversation_id c" and w: "threads_ok uuid w"
  let ?v = "w\<lparr>w_conversations := update_where (\<lambda>c. cv_id c = cid) f (w_conversations w)\<rparr>"
  have "ids_of ?v = ids_of w" using f by (simp add: ids_of_def)
  with w f show "threads_ok uuid ?v \<and> w_uuids ?v = w_uuids w" by (simp add: threads_ok_def numbers_def parents_update)
qed

lemma keeps_query:
  "(\<And>q. qq_conversation_id (f q) = qq_conversation_id q \<and> qq_turn_index (f q) = qq_turn_index q) \<Longrightarrow> thr.keeps uuid (on_query qid f)"
  unfolding on_query_def
proof (rule thr.keeps_put)
  fix w assume f: "\<And>q. qq_conversation_id (f q) = qq_conversation_id q \<and> qq_turn_index (f q) = qq_turn_index q" and w: "threads_ok uuid w"
  let ?v = "w\<lparr>w_queries := update_where (\<lambda>q. qq_id q = qid) f (w_queries w)\<rparr>"
  have "numbers c ?v = numbers c w" for c
    using f by (simp add: numbers_def select_update)
  with w f show "threads_ok uuid ?v \<and> w_uuids ?v = w_uuids w" by (auto simp: threads_ok_def ids_of_def set_update_where)
qed

lemma keeps_found: "thr.keeps uuid (get_or_raise e f)"
  unfolding get_or_raise_def by (intro thr.keeps_rules)

lemma keeps_on_article: "thr.keeps uuid (on_article aid f)" and keeps_liftG: "thr.keeps uuid (liftG g)"
  unfolding on_article_def liftG_def by (intro thr.keeps_rules thr.keeps_put_same; simp add: on_db_def)+

lemma keeps_index: "thr.keeps uuid (index_rows env aid title content)"
  unfolding index_rows_def by (intro thr.keeps_rules thr.keeps_put_same) simp_all

lemma keeps_put_db: "thr.keeps uuid (putS (on_db f))"
  by (rule thr.keeps_put_same) (simp add: on_db_def)

lemmas keeps_parts = keeps_found keeps_on_article keeps_liftG keeps_index keeps_put_db

lemma keeps_file_back: "thr.keeps uuid (file_back_thread env cid user_id)"
  unfolding file_back_thread_def filed_before_def file_new_def file_again_def Let_def
  by (intro thr.keeps_rules keeps_parts keeps_conversation) simp_all

lemma keeps_file_query: "thr.keeps uuid (file_query env qid cid user_id)"
  unfolding file_query_def mark_filed_def by (intro thr.keeps_rules keeps_file_back keeps_query) simp_all

lemma keeps_auto_file: "thr.keeps uuid (auto_file_back qe qid cid r filed user_id)"
  unfolding auto_file_back_def by (intro thr.keeps_rules keeps_parts keeps_file_query keeps_conversation) simp_all

section \<open>Adding turns and conversations\<close>

text \<open>The number the next turn of a conversation gets.\<close>

definition next_turn :: "string \<Rightarrow> int \<Rightarrow> world \<Rightarrow> bool" where
  "next_turn cid n w \<longleftrightarrow> cid \<in> set (ids_of w) \<and> n = int (length (numbers cid w))"

lemma outside_next: "thr.outside (next_turn cid n)"
  by (simp add: thr.outside_def next_turn_def ids_of_def numbers_def)

lemma persist_keeps: "thr.triple uuid (next_turn cid n) (persist_query qe req r cid n user_id) (\<lambda>_ _. True)"
proof -
  have add: "thr.triple uuid (next_turn cid n) (putS (\<lambda>w. w\<lparr>w_queries := w_queries w @ [new_query env qid user_id question r cid n]\<rparr>)) (\<lambda>_ _. True)"
    for env qid question
  proof (rule thr.t_put)
    fix w assume w: "threads_ok uuid w" "next_turn cid n w"
    let ?v = "w\<lparr>w_queries := w_queries w @ [new_query env qid user_id question r cid n]\<rparr>"
    have "numbers c ?v = numbers c w @ (if c = cid then [n] else [])" for c
      by (simp add: numbers_def select_def new_query_def)
    then have "counted_up (numbers c ?v)" for c
      using w by (auto simp: threads_ok_def next_turn_def counted_up_snoc)
    with w show "threads_ok uuid ?v \<and> w_uuids ?v = w_uuids w \<and> True"
      by (auto simp: threads_ok_def ids_of_def next_turn_def new_query_def)
  qed
  have fresh: "thr.triple uuid (next_turn cid n) (freshS u) (\<lambda>_. next_turn cid n)" for u
    by (rule thr.t_fresh) (simp add: next_turn_def ids_of_def numbers_def)
  show ?thesis
    unfolding persist_query_def Let_def logS_def
    by (rule thr.t_bind [OF fresh], rule thr.t_bind [OF add], rule thr.keeps_triple,
        intro thr.keeps_rules keeps_parts keeps_file_query keeps_auto_file keeps_conversation) simp_all
qed

lemma next_turn_found:
  assumes "threads_ok uuid w" and "c \<in> set (w_conversations w)"
  shows "next_turn (cv_id c) (next_turn_index (cv_id c) w) w"
proof -
  let ?own = "select (\<lambda>q. qq_conversation_id q = Some (cv_id c)) (w_queries w)"
  have up: "counted_up (map qq_turn_index ?own)" using assms(1) by (simp add: threads_ok_def numbers_def)
  have "next_turn_index (cv_id c) w = int (length ?own)"
  proof (cases "first_of (sort_key (\<lambda>q. - qq_turn_index q) ?own)")
    case None
    then have "sort_key (\<lambda>q. - qq_turn_index q) ?own = []" by simp
    then have "?own = []" by (metis length_sort list.size(3) length_0_conv)
    then show ?thesis by (simp add: next_turn_index_def first_of_def)
  next
    case (Some q)
    from sorted_hd_min [OF Some] have q: "q \<in> set ?own" "\<And>p. p \<in> set ?own \<Longrightarrow> qq_turn_index p \<le> qq_turn_index q" by auto
    have all: "qq_turn_index ` set ?own = int ` {..<length ?own}"
      using arg_cong [OF up [unfolded counted_up_def], of set] by (simp add: atLeast0LessThan)
    have "qq_turn_index q \<in> int ` {..<length ?own}" unfolding all [symmetric] by (rule imageI [OF q(1)])
    then have "qq_turn_index q < int (length ?own)" "0 < length ?own" by auto
    moreover have "int (length ?own - 1) \<in> qq_turn_index ` set ?own" using all \<open>0 < length ?own\<close> by auto
    with q(2) have "int (length ?own - 1) \<le> qq_turn_index q" by auto
    ultimately have "qq_turn_index q + 1 = int (length ?own)" by linarith
    with Some show ?thesis by (simp add: next_turn_index_def)
  qed
  with assms(2) show ?thesis by (simp add: next_turn_def ids_of_def numbers_def)
qed

text \<open>The conversation of a question: one that is there, or a new one without turns.\<close>

lemma add_conversation_triple:
  assumes "\<And>w. P w \<Longrightarrow> \<forall>cid now title. let c = f (new_conversation now cid user_id title) in cv_id c = cid \<and>
      (case cv_parent_conversation_id c of None \<Rightarrow> True | Some p \<Rightarrow> p \<in> set (ids_of w))"
    and "\<And>w. P w \<Longrightarrow> P (w\<lparr>w_uuids := w_uuids w + 1\<rparr>)"
  shows "thr.triple (en_uuid (qe_env qe)) P (add_conversation qe user_id question f) (\<lambda>cid. next_turn cid 0)"
proof -
  let ?u = "en_uuid (qe_env qe)" and ?c = "\<lambda>cid. f (new_conversation (en_now (qe_env qe)) cid user_id (take (qe_title_max_chars qe) question))"
  have fresh: "thr.triple ?u P (freshS ?u) (\<lambda>cid w. P w \<and> cid \<notin> set (ids_of w) \<and> cid \<in> ?u ` {..<w_uuids w})"
  proof (rule thr.t_fresh)
    fix w assume w: "threads_ok ?u w" "P w"
    then have "?u (w_uuids w) \<notin> ?u ` {..<w_uuids w}" by (auto simp: threads_ok_def dest: injD)
    with w(1) have "?u (w_uuids w) \<notin> set (ids_of w)" by (auto simp: threads_ok_def)
    with w(2) assms(2) [OF w(2)] show "P (w\<lparr>w_uuids := w_uuids w + 1\<rparr>) \<and> ?u (w_uuids w) \<notin> set (ids_of (w\<lparr>w_uuids := w_uuids w + 1\<rparr>)) \<and>
        ?u (w_uuids w) \<in> ?u ` {..<w_uuids (w\<lparr>w_uuids := w_uuids w + 1\<rparr>)}"
      by (simp add: ids_of_def)
  qed
  have add: "thr.triple ?u (\<lambda>w. P w \<and> cid \<notin> set (ids_of w) \<and> cid \<in> ?u ` {..<w_uuids w})
      (putS (\<lambda>w. w\<lparr>w_conversations := w_conversations w @ [?c cid]\<rparr>)) (\<lambda>_. next_turn cid 0)" for cid
  proof (rule thr.t_put)
    fix w assume w: "threads_ok ?u w" and P: "P w \<and> cid \<notin> set (ids_of w) \<and> cid \<in> ?u ` {..<w_uuids w}"
    let ?v = "w\<lparr>w_conversations := w_conversations w @ [?c cid]\<rparr>"
    from assms(1) [of w] P have c: "cv_id (?c cid) = cid"
      "case cv_parent_conversation_id (?c cid) of None \<Rightarrow> True | Some p \<Rightarrow> p \<in> set (ids_of w)" by (simp_all add: Let_def)
    have none: "numbers cid w = []"
      using w P by (auto simp: numbers_def select_empty_iff threads_ok_def)
    have "ids_of ?v = ids_of w @ [cid]" "numbers k ?v = numbers k w" for k by (simp_all add: ids_of_def numbers_def c)
    with w P c(2) [unfolded ids_of_def] none show "threads_ok ?u ?v \<and> w_uuids ?v = w_uuids w \<and> next_turn cid 0 ?v"
      by (simp add: threads_ok_def next_turn_def parents_first_append ids_of_def)
  qed
  show ?thesis
    unfolding add_conversation_def by (rule thr.t_bind [OF fresh], rule thr.t_bind [OF add], rule thr.t_return) simp
qed

lemma get_or_create_triple:
  "thr.triple (en_uuid (qe_env qe)) P (get_or_create_conversation qe req user_id)
     (\<lambda>cid w. cid \<in> set (ids_of w) \<and> (qrq_conversation_id req = None \<longrightarrow> next_turn cid 0 w))"
proof (cases "qrq_conversation_id req")
  case None
  have "thr.triple (en_uuid (qe_env qe)) (\<lambda>_. True) (add_conversation qe user_id (qrq_question req) id) (\<lambda>cid. next_turn cid 0)"
    by (rule add_conversation_triple) (simp_all add: new_conversation_def)
  then show ?thesis
    using None by (auto simp: get_or_create_conversation_def next_turn_def elim!: thr.t_weaken)
next
  case (Some cid)
  have "thr.triple (en_uuid (qe_env qe)) P (get_or_raise e (conversation_by_id cid)) (\<lambda>c w. c \<in> set (w_conversations w))" for e
    unfolding get_or_raise_def
    by (rule thr.t_bind [OF thr.t_get [where Q = "\<lambda>x w. x = conversation_by_id cid w"]])
       (auto intro!: thr.t_option thr.t_raise thr.t_return simp: conversation_by_id_def dest: get_by_Some [OF sym])
  then show ?thesis
    using Some unfolding get_or_create_conversation_def
    by (auto intro!: thr.t_bind thr.t_return simp: ids_of_def)
qed

definition prepared_ok :: "prepared \<Rightarrow> world \<Rightarrow> bool" where
  "prepared_ok p w \<longleftrightarrow> (case p of (cid, n, prior, context) \<Rightarrow> next_turn cid n w)"

lemma outside_prepared: "thr.outside (prepared_ok p)"
  by (simp add: thr.outside_def prepared_ok_def next_turn_def ids_of_def numbers_def split: prod.splits)

lemma turns_triple:
  "thr.triple (en_uuid (qe_env qe)) (\<lambda>w. cid \<in> set (ids_of w) \<and> (qrq_conversation_id req = None \<longrightarrow> next_turn cid 0 w))
     (case qrq_conversation_id req of
        None \<Rightarrow> returnS (0, [])
      | Some _ \<Rightarrow>
          bindS (getS (\<lambda>w. (next_turn_index cid w, load_prior_turns (qe_max_prior_turns qe) cid (next_turn_index cid w) w))) (\<lambda>(n, prior).
          bindS (liftS (walked prior)) (\<lambda>ts. returnS (n, ts)))) (\<lambda>x. next_turn cid (fst x))"
proof (cases "qrq_conversation_id req")
  case None
  then show ?thesis by (auto intro!: thr.t_return)
next
  case (Some k)
  have found: "thr.triple (en_uuid (qe_env qe)) (\<lambda>w. cid \<in> set (ids_of w)) (getS (\<lambda>w. (next_turn_index cid w, load_prior_turns m cid (next_turn_index cid w) w)))
      (\<lambda>x. next_turn cid (fst x))" for m
    by (rule thr.t_get) (auto simp: ids_of_def dest: next_turn_found)
  have walk: "thr.triple (en_uuid (qe_env qe)) (next_turn cid n) (bindS (liftS (walked prior)) (\<lambda>ts. returnS (n, ts))) (\<lambda>x. next_turn cid (fst x))"
    for n and prior :: "qa_query list option"
    by (rule thr.t_bind [OF thr.t_lift [where Q = "\<lambda>_. next_turn cid n"]]) (auto intro!: thr.t_return)
  have "thr.triple (en_uuid (qe_env qe)) (\<lambda>w. cid \<in> set (ids_of w))
      (bindS (getS (\<lambda>w. (next_turn_index cid w, load_prior_turns (qe_max_prior_turns qe) cid (next_turn_index cid w) w)))
         (\<lambda>(n, prior). bindS (liftS (walked prior)) (\<lambda>ts. returnS (n, ts)))) (\<lambda>x. next_turn cid (fst x))"
    by (rule thr.t_bind [OF found]) (rule thr.t_pair, hypsubst, unfold fst_conv, rule walk)
  then show ?thesis unfolding Some option.case by (rule thr.t_weaken) simp_all
qed

lemma prepare_triple: "thr.triple (en_uuid (qe_env qe)) P (prepare_context qe req user_id) prepared_ok"
proof -
  have rest: "thr.triple (en_uuid (qe_env qe)) (next_turn cid (fst x))
      (case x of (n, prior) \<Rightarrow> bindS (getS w_db) (\<lambda>d. returnS (cid, n, prior, retrieve_context (qrq_question req) user_id d))) prepared_ok"
    for cid and x :: "int \<times> qa_query list"
    by (cases x) (auto intro!: thr.t_bind [OF thr.t_get [where Q = "\<lambda>_. next_turn cid (fst x)"]] thr.t_return simp: prepared_ok_def)
  show ?thesis
    unfolding prepare_context_def
    by (rule thr.t_bind [OF get_or_create_triple], rule thr.t_bind [OF turns_triple], rule rest)
qed

section \<open>Requests\<close>

lemma query_llm_triple: "thr.outside P \<Longrightarrow> thr.triple uuid P (query_llm qe question ctx prior user_id) (\<lambda>_. P)"
  unfolding query_llm_def by (rule thr.t_bind [OF thr.t_llm], assumption, rule thr.t_lift) simp

lemma answer_keeps: "thr.triple (en_uuid (qe_env qe)) P (answer_question qe req user_id) (\<lambda>_ _. True)"
  unfolding answer_question_def
proof (rule thr.t_bind [OF prepare_triple], clarify)
  fix cid n prior and ctx :: "(string \<times> string) list"
  have prep: "prepared_ok (cid, n, prior, ctx) = next_turn cid n" by (simp add: fun_eq_iff prepared_ok_def)
  show "thr.triple (en_uuid (qe_env qe)) (prepared_ok (cid, n, prior, ctx))
      (bindS (if ctx = [] then returnS (no_context_result (qrq_question req)) else query_llm qe (qrq_question req) ctx prior user_id)
         (\<lambda>r. persist_query qe req r cid n user_id)) (\<lambda>_ _. True)"
    unfolding prep
    by (rule thr.t_bind [where R = "\<lambda>_. next_turn cid n"])
       (intro thr.t_if thr.t_return query_llm_triple outside_next persist_keeps; assumption)+
qed

lemma stream_cost_triple: "thr.outside P \<Longrightarrow> thr.triple uuid P (log_stream_cost env response user_id) (\<lambda>_. P)"
proof -
  assume P: "thr.outside P"
  have "thr.triple uuid P (freshS (en_uuid env)) (\<lambda>_. P)"
    using P by (intro thr.t_fresh) (simp add: thr.outside_def)
  moreover have "thr.triple uuid P (putS (on_db f)) (\<lambda>_. P)" for f
    using P by (intro thr.t_put) (auto simp: thr.outside_def on_db_def intro: threads_mono)
  ultimately show ?thesis
    unfolding log_stream_cost_def by (auto intro!: thr.t_return thr.t_bind thr.t_commit split: option.split)
qed

lemma finish_keeps: "thr.triple uuid (next_turn cid n) (finish_stream qe req cid n user_id content outcome) (\<lambda>_ _. True)"
  unfolding finish_stream_def
  by (rule thr.t_bind [OF thr.t_lift [where Q = "\<lambda>_. next_turn cid n"]], assumption, rule thr.t_bind [OF stream_cost_triple [OF outside_next]],
      rule thr.t_bind [OF thr.t_lift [where Q = "\<lambda>_. next_turn cid n"]], assumption, rule persist_keeps)

lemma answer_stream_keeps: "thr.keeps (en_uuid (qe_env qe)) (answer_stream qe req user_id)"
proof -
  let ?u = "en_uuid (qe_env qe)"
  have attempt: "thr.triple ?u P (attemptS m) (\<lambda>_ _. True)" if "thr.triple ?u P m (\<lambda>_ _. True)" for P and m :: "qa_result act"
    using thr.t_attempt [OF that] by (rule thr.t_weaken) simp_all
  have stream: "thr.triple ?u (next_turn cid n) (attemptS (streamS qe r user_id)) (\<lambda>_. next_turn cid n)" for cid n r
  proof (rule thr.tripleI)
    fix s t v assume s: "thr.session_ok ?u s" "next_turn cid n (se_cur s)" and "attemptS (streamS qe r user_id) s = (t, v)"
    then obtain x where x: "streamS qe r user_id s = (t, x)" by (auto simp: attemptS_def split: prod.splits)
    then have "next_turn cid n (se_cur t)" using s(2)
      by (auto simp: streamS_def Let_def next_turn_def ids_of_def numbers_def split: prod.splits)
    with thr.tripleD [OF thr.t_stream [OF outside_next] s x]
    show "thr.session_ok ?u t \<and> (\<forall>x. v = ok x \<longrightarrow> next_turn cid n (se_cur t))" by blast
  qed
  have "thr.triple ?u (\<lambda>_. True) (answer_stream qe req user_id) (\<lambda>_ _. True)"
    unfolding answer_stream_def
  proof (rule thr.t_bind [OF thr.t_attempt [OF prepare_triple]])
    fix p :: "prepared result"
    show "thr.triple ?u (\<lambda>w. \<forall>x. p = ok x \<longrightarrow> prepared_ok x w) (case p of Inl e \<Rightarrow> returnS ([], raise e)
        | Inr (cid, n, prior, ctx) \<Rightarrow>
            if ctx = [] then let r = no_context_result (qrq_question req)
              in bindS (attemptS (persist_query qe req r cid n user_id)) (\<lambda>x. returnS ([qr_answer r], x))
            else bindS (attemptS (streamS qe (build_completion_request qe (qrq_question req) ctx prior) user_id)) (\<lambda>st. case st of
                Inl e \<Rightarrow> returnS ([], raise e)
              | Inr (chunks, outcome) \<Rightarrow> bindS (attemptS (finish_stream qe req cid n user_id (concat chunks) outcome)) (\<lambda>x. returnS (chunks, x))))
        (\<lambda>_ _. True)"
    proof (cases p)
      case (Inl e)
      then show ?thesis by (simp add: thr.t_return)
    next
      case (Inr x)
      obtain cid n prior ctx where x: "x = (cid, n, prior, ctx)" by (cases x) auto
      have P: "(\<forall>x. p = ok x \<longrightarrow> prepared_ok x w) = next_turn cid n w" for w by (simp add: Inr x prepared_ok_def)
      show ?thesis
        unfolding Inr x sum.case prod.case P [unfolded Inr x]
        by (cases "ctx = []")
           (auto simp: Let_def intro!: thr.t_bind [OF attempt] thr.t_bind [OF stream] persist_keeps finish_keeps thr.t_return split: sum.split)
    qed
  qed
  then show ?thesis by (simp add: thr.keeps_def)
qed

lemma respond_keeps: "thr.keeps uuid (respond qe user_id forks x)"
  unfolding respond_def by (intro thr.keeps_rules)

lemma quota_keeps: "thr.keeps uuid (query_quotaS env user_id plan)"
  unfolding query_quotaS_def by (intro thr.keeps_rules keeps_parts)

lemma owned_keeps: "thr.keeps uuid (owned_conversation cid user_id msg)"
  unfolding owned_conversation_def by (intro thr.keeps_rules keeps_parts)

lemma ask_keeps: "thr.keeps (en_uuid (qe_env qe)) (ask qe req user_id)"
proof -
  have "thr.keeps (en_uuid (qe_env qe)) (answer_question qe req user_id)" unfolding thr.keeps_def by (rule answer_keeps)
  then show ?thesis unfolding ask_def by (intro thr.keeps_rules respond_keeps)
qed

lemma ask_stream_keeps: "thr.keeps (en_uuid (qe_env qe)) (ask_stream qe req user_id)"
  unfolding ask_stream_def by (intro thr.keeps_rules answer_stream_keeps respond_keeps)

lemma fork_keeps: "thr.keeps (en_uuid (qe_env qe)) (fork_conversation qe cid turn question user_id)"
proof -
  let ?u = "en_uuid (qe_env qe)"
  have owned: "thr.triple ?u (\<lambda>_. True) (owned_conversation cid user_id msg) (\<lambda>_ w. cid \<in> set (ids_of w))" for msg
  proof -
    have "thr.triple ?u (\<lambda>_. True) (get_or_raise e (conversation_by_id cid)) (\<lambda>_ w. cid \<in> set (ids_of w))" for e
      unfolding get_or_raise_def
      by (rule thr.t_bind [OF thr.t_get [where Q = "\<lambda>x w. x = conversation_by_id cid w"]])
         (auto intro!: thr.t_option thr.t_raise thr.t_return simp: conversation_by_id_def ids_of_def image_iff dest!: get_by_Some [OF sym])
    then show ?thesis
      unfolding owned_conversation_def by (rule thr.t_bind) (intro thr.t_if thr.t_raise thr.t_return)
  qed
  have create: "thr.triple ?u (\<lambda>w. cid \<in> set (ids_of w)) (add_conversation qe user_id question
      (\<lambda>x. x\<lparr>cv_parent_conversation_id := Some cid, cv_forked_at_turn_index := Some turn\<rparr>)) (\<lambda>fork. next_turn fork 0)"
    by (rule add_conversation_triple) (simp_all add: new_conversation_def ids_of_def)
  have reply: "thr.triple ?u P (bindS (answer_question qe r user_id) (respond qe user_id forks)) (\<lambda>_ _. True)" for P r forks
    by (rule thr.t_bind [OF answer_keeps]) (rule thr.keeps_triple [OF respond_keeps])
  show ?thesis
    unfolding thr.keeps_def fork_conversation_def
    by (rule thr.t_bind [OF owned], rule thr.t_if, rule thr.t_raise, rule thr.t_bind [OF create], rule thr.t_if, rule thr.t_raise, rule reply)
qed

lemma file_conversation_keeps: "thr.keeps uuid (file_back_conversation env cid user_id)"
  unfolding file_back_conversation_def by (intro thr.keeps_rules owned_keeps keeps_file_back)

lemma selection_keeps: "thr.keeps uuid (file_back_selection env selections title user_id)"
  unfolding file_back_selection_def select_turns_def mark_filed_def Let_def
  by (intro thr.keeps_rules owned_keeps keeps_parts keeps_query) simp_all

text \<open>The requests of users, each in a session of its own, one after the other.\<close>

datatype qa_request =
    Asked "plan option" query_request
  | Streamed "plan option" query_request
  | Forked string int string
  | FiledThread string
  | FiledTurns "(string \<times> int list) list" "string option"

fun qa_step :: "qa_env \<Rightarrow> string \<times> qa_request \<Rightarrow> world \<Rightarrow> world" where
  "qa_step qe (u, Asked plan req) w = fst (in_request (ask_route qe plan req u) w)"
| "qa_step qe (u, Streamed plan req) w = fst (in_session (ask_stream_route qe plan req u) w)"
| "qa_step qe (u, Forked cid turn question) w = fst (in_request (fork_conversation qe cid turn question u) w)"
| "qa_step qe (u, FiledThread cid) w = fst (in_request (file_back_conversation (qe_env qe) cid u) w)"
| "qa_step qe (u, FiledTurns selections title) w = fst (in_request (file_back_selection (qe_env qe) selections title u) w)"

definition qa_run :: "qa_env \<Rightarrow> (string \<times> qa_request) list \<Rightarrow> world \<Rightarrow> world" where
  "qa_run qe evs w = fold (qa_step qe) evs w"

lemma qa_step_ok: "threads_ok (en_uuid (qe_env qe)) w \<Longrightarrow> threads_ok (en_uuid (qe_env qe)) (qa_step qe ev w)"
proof (induction qe ev w rule: qa_step.induct)
  case 1
  then show ?case unfolding qa_step.simps ask_route_def by (intro thr.in_request_ok thr.keeps_rules quota_keeps ask_keeps)
next
  case 2
  then show ?case unfolding qa_step.simps ask_stream_route_def
    by (intro thr.in_session_ok thr.keeps_rules quota_keeps ask_stream_keeps)
next
  case 3
  then show ?case unfolding qa_step.simps by (intro thr.in_request_ok fork_keeps)
next
  case 4
  then show ?case unfolding qa_step.simps by (intro thr.in_request_ok file_conversation_keeps)
next
  case 5
  then show ?case unfolding qa_step.simps by (intro thr.in_request_ok selection_keeps)
qed

lemma qa_run_ok: "threads_ok (en_uuid (qe_env qe)) w \<Longrightarrow> threads_ok (en_uuid (qe_env qe)) (qa_run qe evs w)"
  unfolding qa_run_def by (induction evs arbitrary: w) (simp_all add: qa_step_ok)

lemma threads_ok_empty: "inj uuid \<Longrightarrow> w_conversations w = [] \<Longrightarrow> w_queries w = [] \<Longrightarrow> threads_ok uuid w"
  by (simp add: threads_ok_def ids_of_def numbers_def counted_up_def)

section \<open>Properties\<close>

text \<open>
  C36. In every state that questions, streamed questions, forks and filing reach from a wiki without conversations,
  the walk up the parents of a conversation ends, so that every conversation can be shown and every question on it can
  be prepared; the loop of the code has no bound of its own. (The ids drawn are different.)
\<close>

theorem conversation_walk_ends:
  assumes "inj (en_uuid (qe_env qe))" and "w_conversations w = []" and "w_queries w = []"
    and "c \<in> set (w_conversations (qa_run qe evs w))"
  shows "materialize_thread c (qa_run qe evs w) \<noteq> None \<and> load_prior_turns cap (cv_id c) up_to (qa_run qe evs w) \<noteq> None"
proof -
  let ?v = "qa_run qe evs w"
  have ok: "threads_ok (en_uuid (qe_env qe)) ?v" by (intro qa_run_ok threads_ok_empty assms(1-3))
  then have walk: "d \<in> set (w_conversations ?v) \<Longrightarrow> ancestors_of (w_conversations ?v) d \<noteq> None" for d
    by (intro ancestors_end) (simp_all add: threads_ok_def)
  show ?thesis
    using walk [OF assms(4)] walk [OF conjunct1 [OF get_by_Some]]
    by (auto simp: materialize_thread_def load_prior_turns_def Let_def split: option.splits)
qed

text \<open>
  C37. In every state that is reached in this way, each turn belongs to one conversation that exists, and the turns of
  a conversation are numbered 0, 1, 2 and so on in the order in which they were stored, whatever requests failed in
  between: no number is given twice and none is missing. (Requests one after the other; the ids drawn are different.)
\<close>

theorem turns_are_numbered:
  assumes "inj (en_uuid (qe_env qe))" and "w_conversations w = []" and "w_queries w = []"
  shows "distinct (map cv_id (w_conversations (qa_run qe evs w))) \<and>
    list_all (\<lambda>q. \<exists>c. conversation_by_id c (qa_run qe evs w) \<noteq> None \<and> qq_conversation_id q = Some c) (w_queries (qa_run qe evs w)) \<and>
    map qq_turn_index (select (\<lambda>q. qq_conversation_id q = Some cid) (w_queries (qa_run qe evs w))) =
      map int [0..<length (select (\<lambda>q. qq_conversation_id q = Some cid) (w_queries (qa_run qe evs w)))]"
proof -
  let ?v = "qa_run qe evs w"
  have ok: "threads_ok (en_uuid (qe_env qe)) ?v" by (intro qa_run_ok threads_ok_empty assms)
  have "\<exists>c. conversation_by_id c ?v \<noteq> None \<and> qq_conversation_id q = Some c" if "q \<in> set (w_queries ?v)" for q
    using ok that unfolding threads_ok_def ids_of_def conversation_by_id_def by (metis get_by_None image_set)
  with ok show ?thesis by (simp add: threads_ok_def ids_of_def numbers_def counted_up_def list_all_iff)
qed

end
