(* ===== verification/Answers.thy ===== *)
theory Answers
  imports Threads Samples
begin

text \<open>
  Properties of single requests on conversations: reading what the model answers, filing a conversation twice, a
  question on the conversation of another user, a streamed question over the spend cap, and the name of an exported
  file; and the witnesses of this part.
\<close>

section \<open>Reading the answer of the model\<close>

text \<open>A result whose exception, if any, the agent handles.\<close>

definition handled :: "'a result \<Rightarrow> bool" where
  "handled r \<longleftrightarrow> (case r of Inl e \<Rightarrow> is_parse_error e | Inr x \<Rightarrow> True)"

lemma handled_simps [simp]: "handled (ok x)" "handled (raise e) = is_parse_error e" "handled (invalid name)"
  by (simp_all add: handled_def invalid_def)

lemma handled_bind [intro]: "handled m \<Longrightarrow> (\<And>x. m = ok x \<Longrightarrow> handled (f x)) \<Longrightarrow> handled (bindR m f)"
  by (cases m) simp_all

lemma handled_str: "handled (parse_str name j)"
  by (cases j) simp_all

lemma handled_items: "(\<And>x. handled (f x)) \<Longrightarrow> handled (parse_items f xs)"
  by (induction xs) (simp_all, intro handled_bind, simp_all)

lemma handled_strs: "handled (parse_strs name j)"
  unfolding parse_strs_def by (cases j) (simp_all add: handled_items handled_str)

lemma handled_opt: "(\<And>x. handled (f x)) \<Longrightarrow> handled (parse_opt f j)"
  by (cases j) (simp_all add: handled_bind)

lemma handled_required: "(\<And>n j. handled (f n j)) \<Longrightarrow> handled (required kvs name f)"
  and handled_optional: "(\<And>n j. handled (f n j)) \<Longrightarrow> handled (optional kvs name dflt f)"
  by (simp_all add: required_def optional_def split: option.split)

lemma handled_query_result: "handled (parse_query_result kvs)"
  unfolding parse_query_result_def
  by (intro handled_bind handled_required handled_optional handled_opt handled_str handled_strs) simp_all

lemma handled_response: "(\<And>s. handled (loads s)) \<Longrightarrow> handled (parse_json_response loads content)"
proof -
  assume loads: "\<And>s. handled (loads s)"
  have fall: "handled (case r of Inl (ValueError m) \<Rightarrow> r' | v \<Rightarrow> v)" if "handled r" "handled r'" for r r' :: "json result"
  proof (cases r)
    case (Inl e)
    with that show ?thesis by (cases e) simp_all
  qed simp
  show ?thesis
    unfolding parse_json_response_def Let_def by (intro fall loads) (simp add: fall loads split: option.split)
qed

text \<open>
  C39. No text that the model gives makes a question fail: it is read as an answer, and if it is not the JSON of one the
  answer is the apology, of low confidence and without sources, so that it is never filed as an article. (The parser of
  JSON raises the exceptions it documents.)
\<close>

theorem every_text_is_an_answer:
  assumes "\<And>s. handled (loads s)"
  shows "\<exists>r. read_answer loads content = ok r \<and>
    (r = failed_result \<or> (\<exists>kvs. parse_json_response loads content = ok (JObj kvs) \<and> parse_query_result kvs = ok r))"
proof -
  let ?data = "\<lambda>data. case data of JObj kvs \<Rightarrow> parse_query_result kvs | _ \<Rightarrow> raise (TypeError ''argument after ** must be a mapping'')"
  have "handled (bindR (parse_json_response loads content) ?data)"
    by (intro handled_bind handled_response assms) (simp add: handled_query_result split: json.split)
  then consider (readable) r where "bindR (parse_json_response loads content) ?data = ok r" | (error) e where
      "bindR (parse_json_response loads content) ?data = raise e" "is_parse_error e"
    by (cases "bindR (parse_json_response loads content) ?data") auto
  then show ?thesis
  proof cases
    case readable
    then obtain j where j: "parse_json_response loads content = ok j" "?data j = ok r" by (auto simp: bindR_eq_Inr)
    with readable show ?thesis unfolding read_answer_def by (cases j) auto
  next
    case error
    then show ?thesis unfolding read_answer_def by simp
  qed
qed

section \<open>Filing twice\<close>

lemma index_article_runs: "\<exists>fts. index_article md5 postgres aid title content s = ok fts"
  by (auto simp: index_article_def Let_def insert_fts_def)

lemma index_rows_runs: "\<not> se_broken s \<Longrightarrow> \<exists>fts. index_rows env aid title content s = (s\<lparr>se_cur := (se_cur s)\<lparr>w_fts := fts\<rparr>\<rparr>, ok ())"
  using index_article_runs [of "en_md5 env" "w_postgres (se_cur s)" aid title content "w_fts (se_cur s)"]
  by (auto simp: index_rows_def bindS_def getS_def putS_def checkedS_def readS_def modifyS_def)

lemma get_by_key_update:
  "(\<And>x. key (f x) = key x) \<Longrightarrow> get_by key k (update_where (\<lambda>x. key x = k) f xs) = map_option f (get_by key k xs)"
  by (induction xs) (simp_all add: get_by_def update_where_def)

lemma update_same: "distinct (map key xs) \<Longrightarrow> get_by key k xs = Some x \<Longrightarrow> f x = x \<Longrightarrow> update_where (\<lambda>y. key y = k) f xs = xs"
  using distinct_map_eq [of key xs] by (auto simp: update_where_def intro!: map_idI dest!: get_by_Some)

lemma found_ok: "get_or_raise e f s = (t, ok x) \<longleftrightarrow> \<not> se_broken s \<and> t = s \<and> f (se_cur s) = Some x"
  by (auto simp: get_or_raise_def bindS_ok getS_ok split: option.splits)

lemma index_rows_okD: "index_rows env aid title content s = (t, ok ()) \<Longrightarrow> \<exists>fts. t = s\<lparr>se_cur := (se_cur s)\<lparr>w_fts := fts\<rparr>\<rparr>"
  by (auto simp: index_rows_def bindS_ok getS_ok putS_ok)

text \<open>The state in which a conversation is filed as an article, whose path lies in the storage of the user.\<close>

definition filed_as :: "env \<Rightarrow> string \<Rightarrow> string \<Rightarrow> article \<Rightarrow> conversation \<Rightarrow> sess \<Rightarrow> bool" where
  "filed_as env cid uid a c s \<longleftrightarrow> \<not> se_broken s \<and> conversation_by_id cid (se_cur s) = Some c \<and> cv_filed_article_id c = Some (art_id a) \<and>
     a \<in> set (articles (w_db (se_cur s))) \<and> art_updated_at a = en_now env \<and>
     (\<exists>p. storage_resolve (Storage.get_wiki_storage (en_data_dir env) uid) (art_file_path a) = ok p)"

lemma wiki_write_okD: "wiki_write dir uid path content d = ok d' \<Longrightarrow>
    (\<exists>p. storage_resolve (Storage.get_wiki_storage dir uid) path = ok p) \<and> wiki_files d' = (wiki_files d)((uid, path) \<mapsto> content)"
  by (auto simp: wiki_write_def bindR_eq_Inr)

lemma file_new_filed:
  assumes "file_new env cid c qs markdown uid s = (t, ok (a, b))" and "conversation_by_id cid (se_cur s) \<noteq> None"
  shows "\<exists>c'. filed_as env cid uid a c' t"
proof -
  let ?aid = "en_uuid env (w_uuids (se_cur s))"
  let ?a = "filed_article (en_now env) ?aid uid cid (cv_title c) qs"
  let ?u = "\<lambda>d. s\<lparr>se_cur := (se_cur s)\<lparr>w_uuids := w_uuids (se_cur s) + 1, w_db := (w_db (se_cur s))\<lparr>wiki_files := wiki_files d,
        articles := articles (w_db (se_cur s)) @ [?a]\<rparr>,
      w_conversations := update_where (\<lambda>c. cv_id c = cid) (\<lambda>c. c\<lparr>cv_filed_article_id := Some ?aid, cv_updated_at := en_now env\<rparr>)
        (w_conversations (se_cur s))\<rparr>\<rparr>"
  from assms(1) obtain d where d: "wiki_write (en_data_dir env) uid (''qa-answers/'' @ cid @ ''.md'') markdown (w_db (se_cur s)) = ok d"
      "\<not> se_broken s" "a = ?a" and t: "index_rows env ?aid (art_title ?a) markdown (?u d) = (t, ok ())"
    unfolding file_new_def Let_def act_ok on_conversation_def on_db_def by (auto simp: on_db_def)
  define u where "u = ?u d"
  have u: "w_conversations (se_cur u) = update_where (\<lambda>c. cv_id c = cid) (\<lambda>c. c\<lparr>cv_filed_article_id := Some ?aid, cv_updated_at := en_now env\<rparr>) (w_conversations (se_cur s))"
      "a \<in> set (articles (w_db (se_cur u)))" "se_broken u = se_broken s"
    by (simp_all add: u_def d(3))
  from index_rows_okD [OF t [folded u_def]] obtain fts where "t = u\<lparr>se_cur := (se_cur u)\<lparr>w_fts := fts\<rparr>\<rparr>" by blast
  moreover from assms(2) obtain c0 where "conversation_by_id cid (se_cur s) = Some c0" by blast
  then have "conversation_by_id cid (se_cur u) = Some (c0\<lparr>cv_filed_article_id := Some ?aid, cv_updated_at := en_now env\<rparr>)"
    by (simp add: conversation_by_id_def u(1) get_by_key_update)
  moreover have "art_id a = ?aid" "art_file_path a = ''qa-answers/'' @ cid @ ''.md''" "art_updated_at a = en_now env"
    by (simp_all add: d(3) filed_article_def new_article_def)
  ultimately show ?thesis using u d(2) wiki_write_okD [OF d(1)] by (auto simp: filed_as_def conversation_by_id_def)
qed

lemma file_again_filed:
  assumes "file_again env cid a0 markdown uid s = (t, ok (a, b))" and "conversation_by_id cid (se_cur s) = Some c"
    and "cv_filed_article_id c = Some (art_id a0)" and "a0 \<in> set (articles (w_db (se_cur s)))"
  shows "\<exists>c'. filed_as env cid uid a c' t"
proof -
  let ?u = "\<lambda>d. s\<lparr>se_cur := (se_cur s)\<lparr>w_db := (w_db (se_cur s))\<lparr>wiki_files := wiki_files d,
        articles := update_where (\<lambda>x. art_id x = art_id a0) (\<lambda>a. a\<lparr>art_updated_at := en_now env\<rparr>) (articles (w_db (se_cur s)))\<rparr>,
      w_conversations := update_where (\<lambda>c. cv_id c = cid) (\<lambda>c. c\<lparr>cv_updated_at := en_now env\<rparr>) (w_conversations (se_cur s))\<rparr>\<rparr>"
  from assms(1) obtain d where d: "wiki_write (en_data_dir env) uid (art_file_path a0) markdown (w_db (se_cur s)) = ok d"
      "\<not> se_broken s" "a = a0\<lparr>art_updated_at := en_now env\<rparr>"
    and t: "index_rows env (art_id a0) (art_title a0) markdown (?u d) = (t, ok ())"
    by (auto simp: file_again_def act_ok on_conversation_def on_article_def on_db_def)
  define u where "u = ?u d"
  have u: "w_conversations (se_cur u) = update_where (\<lambda>c. cv_id c = cid) (\<lambda>c. c\<lparr>cv_updated_at := en_now env\<rparr>) (w_conversations (se_cur s))"
      "articles (w_db (se_cur u)) = update_where (\<lambda>x. art_id x = art_id a0) (\<lambda>a. a\<lparr>art_updated_at := en_now env\<rparr>) (articles (w_db (se_cur s)))"
      "se_broken u = se_broken s"
    by (simp_all add: u_def)
  note t = t [folded u_def]
  from index_rows_okD [OF t] obtain fts where "t = u\<lparr>se_cur := (se_cur u)\<lparr>w_fts := fts\<rparr>\<rparr>" by blast
  moreover have "conversation_by_id cid (se_cur u) = Some (c\<lparr>cv_updated_at := en_now env\<rparr>)"
    using assms(2) by (simp add: conversation_by_id_def u(1) get_by_key_update)
  moreover have "a \<in> set (articles (w_db (se_cur u)))"
    using assms(4) by (auto simp: d(3) u(2) set_update_where image_iff)
  ultimately show ?thesis using u(3) d(2,3) assms(3) wiki_write_okD [OF d(1)] by (auto simp: filed_as_def conversation_by_id_def)
qed

lemma file_back_filed:
  assumes "file_back_thread env cid uid s = (t, ok (a, b))"
  shows "\<exists>c. filed_as env cid uid a c t"
proof -
  from assms obtain c u qs existing where c: "conversation_by_id cid (se_cur s) = Some c" "filed_before cid c s = (u, ok existing)"
    and rest: "(case existing of None \<Rightarrow> file_new env cid c qs (serialize_conversation_to_markdown env c qs) uid
        | Some a \<Rightarrow> file_again env cid a (serialize_conversation_to_markdown env c qs) uid) u = (t, ok (a, b))"
    by (auto simp: file_back_thread_def bindS_ok found_ok getS_ok Let_def)
  show ?thesis
  proof (cases existing)
    case None
    with c have "conversation_by_id cid (se_cur u) \<noteq> None"
      by (auto simp: filed_before_def act_ok on_conversation_def conversation_by_id_def get_by_key_update split: option.splits)
    with None rest show ?thesis by (auto intro: file_new_filed)
  next
    case (Some x)
    with c have "u = s" "cv_filed_article_id c = Some (art_id x)" "x \<in> set (articles (w_db (se_cur s)))"
      by (auto simp: filed_before_def act_ok article_by_id_def dest: get_by_Some split: option.splits)
    with Some rest c(1) show ?thesis by (auto intro: file_again_filed)
  qed
qed

text \<open>
  C38. Filing a conversation is idempotent: after it was filed as an article, filing it again succeeds, updates that
  article in place and leaves the table of articles as it is, and the file of the article then has the text of the
  conversation with all its turns.
\<close>

theorem filing_twice_keeps_one_article:
  assumes "file_back_thread env cid uid s = (t, ok (a, b))" and "distinct (map art_id (articles (w_db (se_cur t))))"
  shows "\<exists>v c. file_back_thread env cid uid t = (v, ok (a, True)) \<and> articles (w_db (se_cur v)) = articles (w_db (se_cur t)) \<and>
    conversation_by_id cid (se_cur t) = Some c \<and> wiki_files (w_db (se_cur v)) (uid, art_file_path a) =
      Some (serialize_conversation_to_markdown env c (turns_before cid None (w_queries (se_cur t))))"
proof -
  from file_back_filed [OF assms(1)] obtain c p where c: "\<not> se_broken t" "conversation_by_id cid (se_cur t) = Some c"
    "cv_filed_article_id c = Some (art_id a)" "a \<in> set (articles (w_db (se_cur t)))" "art_updated_at a = en_now env"
    "storage_resolve (Storage.get_wiki_storage (en_data_dir env) uid) (art_file_path a) = ok p"
    by (auto simp: filed_as_def)
  have a: "article_by_id (art_id a) (se_cur t) = Some a"
    using get_by_distinct [OF assms(2) c(4)] by (simp add: article_by_id_def)
  have same: "a\<lparr>art_updated_at := en_now env\<rparr> = a" using c(5) by simp
  let ?md = "serialize_conversation_to_markdown env c (turns_before cid None (w_queries (se_cur t)))"
  let ?w1 = "on_db (\<lambda>d. d\<lparr>wiki_files := (wiki_files d)((uid, art_file_path a) \<mapsto> ?md)\<rparr>) (se_cur t)"
  let ?w2 = "?w1\<lparr>w_conversations := update_where (\<lambda>c. cv_id c = cid) (\<lambda>c. c\<lparr>cv_updated_at := en_now env\<rparr>) (w_conversations ?w1)\<rparr>"
  have arts: "update_where (\<lambda>x. art_id x = art_id a) (\<lambda>a. a\<lparr>art_updated_at := en_now env\<rparr>) (articles (w_db (se_cur t))) = articles (w_db (se_cur t))"
    by (rule update_same [where key = art_id, OF assms(2) a [unfolded article_by_id_def]]) (rule same)
  obtain fts where fts: "index_rows env (art_id a) (art_title a) ?md (t\<lparr>se_cur := ?w2\<rparr>) = (t\<lparr>se_cur := ?w2\<lparr>w_fts := fts\<rparr>\<rparr>, ok ())"
    using index_rows_runs [of "t\<lparr>se_cur := ?w2\<rparr>" env "art_id a" "art_title a" ?md] c(1) by auto
  have "file_again env cid a ?md uid t = (t\<lparr>se_cur := ?w2\<lparr>w_fts := fts\<rparr>\<rparr>, ok (a, True))"
    using fts c(1,6) same arts
    by (simp add: file_again_def bindS_def fileS_def wiki_write_def on_article_def on_conversation_def putS_def checkedS_def modifyS_def on_db_def)
  moreover have "filed_before cid c t = (t, ok (Some a))"
    using c(1,3) a by (simp add: filed_before_def bindS_def getS_def checkedS_def readS_def)
  ultimately have "file_back_thread env cid uid t = (t\<lparr>se_cur := ?w2\<lparr>w_fts := fts\<rparr>\<rparr>, ok (a, True))"
    using c(1,2) by (simp add: file_back_thread_def Let_def get_or_raise_def bindS_def getS_def checkedS_def readS_def)
  then show ?thesis using c(2) by (auto simp: on_db_def)
qed

section \<open>Whose conversation is continued\<close>

lemma log_runs: "plain_name uid \<Longrightarrow> \<exists>d. append_log_entry env op title uid extra d0 = ok d \<and> d = d0\<lparr>wiki_files := wiki_files d\<rparr>"
  by (auto simp: append_log_entry_def plain_name_def Let_def)

lemma prepare_known:
  assumes "conversation_by_id cid w = Some c" and "cv_parent_conversation_id c = None" and "qrq_conversation_id req = Some cid"
    and "retrieve_context (qrq_question req) uid (w_db w) = []"
  shows "\<exists>prior. prepare_context qe req uid (open_session w) = (open_session w, ok (cid, next_turn_index cid w, prior, []))"
proof -
  have c: "get_by cv_id cid (w_conversations w) = Some c" "cv_id c = cid" using assms(1) by (auto simp: conversation_by_id_def dest: get_by_Some)
  obtain prior where "load_prior_turns (qe_max_prior_turns qe) cid (next_turn_index cid w) w = Some prior"
    using assms(2) c(1) by (simp add: load_prior_turns_def Let_def)
  then show ?thesis
    using assms c by (simp add: prepare_context_def get_or_create_conversation_def get_or_raise_def bindS_def getS_def checkedS_def readS_def walked_def open_session_def)
qed

text \<open>A turn without filing in a new session: what the commit makes last.\<close>

definition with_turn :: "env \<Rightarrow> string \<Rightarrow> string \<Rightarrow> query_result \<Rightarrow> string \<Rightarrow> int \<Rightarrow> world \<Rightarrow> world" where
  "with_turn env uid question r cid n w =
     w\<lparr>w_uuids := w_uuids w + 1, w_queries := w_queries w @ [new_query env (en_uuid env (w_uuids w)) uid question r cid n],
       w_conversations := update_where (\<lambda>c. cv_id c = cid) (\<lambda>c. c\<lparr>cv_updated_at := en_now env\<rparr>) (w_conversations w)\<rparr>"

lemma constraints_turn: "constraints_ok w \<Longrightarrow> constraints_ok (with_turn env uid question r cid n w)"
  and constraints_files: "constraints_ok w \<Longrightarrow> constraints_ok (on_db (\<lambda>d. d\<lparr>wiki_files := f\<rparr>) w)"
  by (simp_all add: constraints_ok_def unique_ok_def foreign_ok_def with_turn_def on_db_def)

lemma persist_plain:
  assumes "conversation_by_id cid w \<noteq> None" and "\<not> qe_auto_file_back qe" and "qr_confidence r = ''low''" and "plain_name uid" and "constraints_ok w"
  shows "\<exists>f x. persist_query qe req r cid n uid (open_session w) =
    (\<lparr>se_saved = with_turn (qe_env qe) uid (qrq_question req) r cid n w,
      se_cur = on_db (\<lambda>d. d\<lparr>wiki_files := f\<rparr>) (with_turn (qe_env qe) uid (qrq_question req) r cid n w), se_broken = False\<rparr>, ok x)"
proof -
  let ?env = "qe_env qe" and ?v = "with_turn (qe_env qe) uid (qrq_question req) r cid n w"
  obtain d where d: "append_log_entry ?env ''query'' (take 120 (qrq_question req)) uid [] (w_db ?v) = ok d" using log_runs [OF assms(4)] by blast
  let ?u = "on_db (\<lambda>d0. d0\<lparr>wiki_files := wiki_files d\<rparr>) ?v"
  have "en_uuid ?env (w_uuids w) \<in> qq_id ` set (w_queries ?u)" by (simp add: with_turn_def on_db_def new_query_def)
  then obtain q where q: "get_by qq_id (en_uuid ?env (w_uuids w)) (w_queries ?u) = Some q"
    using get_by_None [of qq_id _ "w_queries ?u"] by (metis not_None_eq)
  obtain c where c: "conversation_by_id cid ?u = Some c"
    using assms(1) by (auto simp: conversation_by_id_def with_turn_def on_db_def get_by_key_update)
  let ?v1 = "w\<lparr>w_uuids := w_uuids w + 1\<rparr>" and ?q = "new_query ?env (en_uuid ?env (w_uuids w)) uid (qrq_question req) r cid n"
  let ?v2 = "?v1\<lparr>w_queries := w_queries w @ [?q]\<rparr>"
  let ?s = "\<lambda>a b. \<lparr>se_saved = a, se_cur = b, se_broken = False\<rparr> :: sess"
  have steps: "freshS (en_uuid ?env) (open_session w) = (?s w ?v1, ok (en_uuid ?env (w_uuids w)))"
    "putS (\<lambda>w. w\<lparr>w_queries := w_queries w @ [?q]\<rparr>) (?s w ?v1) = (?s w ?v2, ok ())"
    "on_conversation cid (\<lambda>c. c\<lparr>cv_updated_at := en_now ?env\<rparr>) (?s w ?v2) = (?s w ?v, ok ())"
    "auto_file_back qe qid cid r None uid s = (s, ok (None, None))"
    "commitS (?s w ?v) = (?s ?v ?v, ok ())" for qid s
    using assms(2) open_acts(3) [OF constraints_turn [OF assms(5)]]
    by (simp_all add: freshS_def open_session_def on_conversation_def open_acts auto_file_back_def with_turn_def)
  have log: "logS is_os_error (bindS (fileS (append_log_entry ?env ''query'' (take 120 (qrq_question req)) uid []))
        (\<lambda>_. case None of None \<Rightarrow> returnS () | Some a \<Rightarrow> fileS (append_log_entry ?env ''filed'' (art_title a) uid [(''conversation_id'', cid)])))
      (?s ?v ?v) = (?s ?v ?u, ok ())"
    using d by (simp add: logS_def tryS_def bindS_def fileS_def)
  have rows: "get_or_raise NoResultFound (\<lambda>w. get_by qq_id qid (w_queries w)) (?s ?v ?u) = (?s ?v ?u, ok q)" if "qid = en_uuid ?env (w_uuids w)" for qid
    using q that by (simp add: get_or_raise_def bindS_def open_acts)
  have conv: "get_or_raise NoResultFound (conversation_by_id cid) (?s ?v ?u) = (?s ?v ?u, ok c)"
    using c by (simp add: get_or_raise_def bindS_def open_acts)
  have low: "(qrq_file_back req \<and> (qr_confidence r = ''high'' \<or> qr_confidence r = ''medium'')) = False" using assms(3) by simp
  have "persist_query qe req r cid n uid (open_session w) = (?s ?v ?u, ok (q, c, None))"
    unfolding persist_query_def Let_def
    by (simp only: bindS_def steps low if_False returnS_app prod.case sum.case log rows conv)
  then show ?thesis by blast
qed


section \<open>The spend cap of the plan\<close>

text \<open>
  The spend cap is not looked at when an answer is streamed: for a user over the cap of the plan, and the same
  question in the same state, the plain request is refused before the model is called, while the streamed one calls
  the model and hands its chunks to the user.
\<close>

lemma streaming_escapes_spend_cap:
  assumes "prepare_context qe req uid s = (t, ok (cid, n, prior, ctx))" and "ctx \<noteq> []" and "en_billing (qe_env qe)"
    and "get_effective_plan (en_now (qe_env qe)) (w_db (se_cur t)) uid = ok plan"
    and "check_daily_llm_spend (en_now (qe_env qe)) (w_db (se_cur t)) uid plan = raise e"
    and "stream_complete (en_llm (qe_env qe)) (en_user_key (qe_env qe) uid) (qe_stream qe (w_uuids (se_cur t)))
      (build_completion_request qe (qrq_question req) ctx prior) (w_router (se_cur t)) = (ro, atts, ok (chunks, outcome))"
  shows "snd (answer_question qe req uid s) = raise e \<and> (\<exists>u r. answer_stream qe req uid s = (u, ok (chunks, r)))"
proof
  obtain u where "llmS (qe_env qe) True (build_completion_request qe (qrq_question req) ctx prior) uid t = (u, raise e)"
    using assms(3-5) by (simp add: llmS_def Let_def plan_aware_complete_def)
  then show "snd (answer_question qe req uid s) = raise e"
    using assms(1,2) by (simp add: answer_question_def bindS_def query_llm_def)
  obtain v where "streamS qe (build_completion_request qe (qrq_question req) ctx prior) uid t = (v, ok (chunks, outcome))"
    using assms(6) by (simp add: streamS_def Let_def)
  then show "\<exists>u r. answer_stream qe req uid s = (u, ok (chunks, r))"
    using assms(1,2) by (auto simp: answer_stream_def bindS_def attemptS_def split: prod.splits)
qed

section \<open>Names of exported files\<close>

lemma strip_by_edges: "xs = strip_by p ys \<Longrightarrow> xs \<noteq> [] \<Longrightarrow> \<not> p (hd xs) \<and> \<not> p (last xs)"
  using strip_by_hd [of p ys] strip_by_last [of p ys] by simp

text \<open>
  Whatever the title of a conversation, the name under which it is exported has only letters, digits, spaces,
  hyphens and underscores, is not empty and neither starts nor ends with a hyphen or a space; so that no title can end
  the quoted name in the header of the response or name another directory.
\<close>

lemma exported_names_are_safe:
  "list_all filename_char (sanitize_filename title) \<and> sanitize_filename title \<noteq> [] \<and>
   hd (sanitize_filename title) \<notin> {CHR ''-'', CHR '' ''} \<and> last (sanitize_filename title) \<notin> {CHR ''-'', CHR '' ''} \<and>
   CHR 0x22 \<notin> set (sanitize_filename title) \<and> CHR ''/'' \<notin> set (sanitize_filename title) \<and> CHR 0x0A \<notin> set (sanitize_filename title)"
proof -
  let ?r = "sub_runs 2 (\<lambda>c. c = CHR ''-'') ''-'' (map (\<lambda>c. if filename_char c then c else CHR ''-'') title)"
  let ?x = "strip_by (\<lambda>c. c = CHR ''-'' \<or> c = CHR '' '') ?r"
  have "set ?r \<subseteq> {c. filename_char c}"
    using set_sub_runs [of 2 "\<lambda>c. c = CHR ''-''" "''-''" "map (\<lambda>c. if filename_char c then c else CHR ''-'') title"]
    by (auto simp: filename_char_def)
  then have x: "list_all filename_char ?x" using set_strip_by [of _ ?r] by (fastforce simp: list_all_iff)
  have bad: "\<not> filename_char (CHR 0x22)" "\<not> filename_char (CHR ''/'')" "\<not> filename_char (CHR 0x0A)" by code_simp+
  have "list_all filename_char (sanitize_filename title) \<and> sanitize_filename title \<noteq> [] \<and>
     hd (sanitize_filename title) \<notin> {CHR ''-'', CHR '' ''} \<and> last (sanitize_filename title) \<notin> {CHR ''-'', CHR '' ''}"
  proof (cases "?x = []")
    case True
    then have "sanitize_filename title = ''conversation''" by (simp add: sanitize_filename_def)
    moreover have "list_all filename_char ''conversation''" by code_simp
    ultimately show ?thesis by simp
  next
    case False
    then have eq: "sanitize_filename title = ?x" by (simp add: sanitize_filename_def)
    show ?thesis unfolding eq using x False strip_by_edges [OF refl False] by simp
  qed
  with bad show ?thesis by (auto simp: list_all_iff)
qed

section \<open>Witnesses\<close>

definition ex_ids :: "nat \<Rightarrow> string" where
  "ex_ids n = CHR ''k'' # replicate n CHR ''i''"

lemma inj_ex_ids: "inj ex_ids"
  by (rule injI) (metis ex_ids_def list.inject length_replicate)

definition ex_qa :: qa_env where
  "ex_qa = \<lparr>qe_env = ex_env0\<lparr>en_uuid := ex_ids\<rparr>, qe_max_prior_turns = 5, qe_truncate_chars = 100, qe_title_max_chars = 20, qe_max_tokens = 100,
     qe_auto_file_back = False, qe_min_words = 10, qe_min_sources = 2, qe_tools = [],
     qe_stream = (\<lambda>n inst req model. ok ([''streamed''], ok None))\<rparr>"

definition ex_question :: "string \<Rightarrow> string option \<Rightarrow> query_request" where
  "ex_question text0 cid = \<lparr>qrq_question = text0, qrq_file_back = False, qrq_conversation_id = cid\<rparr>"

text \<open>A question and a fork before its turn; and two questions in a conversation.\<close>

definition ex_forked :: "(string \<times> qa_request) list" where
  "ex_forked = [(''u1'', Asked None (ex_question ''Who?'' None)), (''u1'', Forked ''k'' 0 ''How?'')]"

definition ex_asked :: "(string \<times> qa_request) list" where
  "ex_asked = [(''u1'', Asked None (ex_question ''Who?'' None)), (''u1'', Asked None (ex_question ''Why?'' (Some ''k'')))]"

abbreviation ex_start :: world where "ex_start \<equiv> ex_world0 False ''topic-y''"

definition is_forked :: "world \<Rightarrow> bool" where
  "is_forked w \<longleftrightarrow> (case w_conversations w of [c, f] \<Rightarrow> cv_parent_conversation_id f = Some (cv_id c) | _ \<Rightarrow> False)"

lemma ex_forked_shape: "is_forked (qa_run ex_qa ex_forked ex_start)"
  by code_simp

lemma ex_asked_shape: "map (\<lambda>q. (qq_conversation_id q, qq_turn_index q)) (w_queries (qa_run ex_qa ex_asked ex_start)) = [(Some ''k'', 0), (Some ''k'', 1)]"
  by code_simp

lemma ex_run_start: "inj (en_uuid (qe_env ex_qa))" "w_conversations ex_start = []" "w_queries ex_start = []"
  by (simp_all add: ex_qa_def inj_ex_ids ex_world0_def)

lemma conversation_walk_ends_witness:
  "case w_conversations (qa_run ex_qa ex_forked ex_start) of
     [c, f] \<Rightarrow> materialize_thread f (qa_run ex_qa ex_forked ex_start) \<noteq> None \<and> cv_parent_conversation_id f = Some (cv_id c)
   | _ \<Rightarrow> False"
proof -
  let ?v = "qa_run ex_qa ex_forked ex_start"
  obtain c f where cs: "w_conversations ?v = [c, f]" "cv_parent_conversation_id f = Some (cv_id c)"
    using ex_forked_shape by (auto simp: is_forked_def split: list.splits)
  then have "f \<in> set (w_conversations ?v)" by simp
  from conversation_walk_ends [OF ex_run_start this] cs show ?thesis by simp
qed

lemma turns_are_numbered_witness:
  "length (w_queries (qa_run ex_qa ex_asked ex_start)) = 2 \<and> distinct (map cv_id (w_conversations (qa_run ex_qa ex_asked ex_start))) \<and>
   map qq_turn_index (select (\<lambda>q. qq_conversation_id q = Some ''k'') (w_queries (qa_run ex_qa ex_asked ex_start))) = map int [0..<2]"
proof -
  let ?qs = "w_queries (qa_run ex_qa ex_asked ex_start)"
  have len: "length ?qs = 2" using arg_cong [OF ex_asked_shape, of length] by simp
  have "list_all (\<lambda>x. fst x = Some ''k'') (map (\<lambda>q. (qq_conversation_id q, qq_turn_index q)) ?qs)" unfolding ex_asked_shape by simp
  then have "select (\<lambda>q. qq_conversation_id q = Some ''k'') ?qs = ?qs" by (simp add: select_def list_all_iff)
  with len turns_are_numbered [OF ex_run_start, of ex_asked "''k''"] show ?thesis by simp
qed

lemma every_text_is_an_answer_witness: "\<exists>r. read_answer (en_loads ex_env0) ''no JSON at all'' = ok r"
proof -
  have "handled (en_loads ex_env0 s)" for s by (simp add: ex_env0_def Samples.ex_loads_def)
  with every_text_is_an_answer [of "en_loads ex_env0" "''no JSON at all''"] show ?thesis by blast
qed

definition ex_filing :: "sess \<times> (article \<times> bool) result" where
  "ex_filing = file_back_thread (qe_env ex_qa) ''k'' ''u1'' (open_session (qa_run ex_qa ex_asked ex_start))"

lemma ex_filing_ok: "case ex_filing of (t, Inr (a, b)) \<Rightarrow> \<not> b \<and> distinct (map art_id (articles (w_db (se_cur t)))) | _ \<Rightarrow> False"
  by code_simp

lemma filing_twice_keeps_one_article_witness:
  "case ex_filing of (t, Inr (a, b)) \<Rightarrow> \<exists>v. file_back_thread (qe_env ex_qa) ''k'' ''u1'' t = (v, ok (a, True)) | _ \<Rightarrow> False"
proof -
  obtain t a b where x: "ex_filing = (t, ok (a, b))" and d: "distinct (map art_id (articles (w_db (se_cur t))))"
    using ex_filing_ok by (auto split: prod.splits sum.splits)
  from filing_twice_keeps_one_article [OF x [unfolded ex_filing_def] d]
  have "\<exists>v. file_back_thread (qe_env ex_qa) ''k'' ''u1'' t = (v, ok (a, True))" by blast
  then show ?thesis by (simp add: x)
qed

text \<open>A conversation of \<open>u1\<close>, continued by \<open>eve\<close>.\<close>

definition ex_owned :: world where
  "ex_owned = qa_run ex_qa (take 1 ex_asked) ex_start"


text \<open>A user over the cap of the plan, and the same question asked in both ways.\<close>

definition ex_capped :: world where
  "ex_capped = on_db (\<lambda>d. d\<lparr>users := [ex_user], plans := [ex_plan], cost_logs := [ex_cost 1]\<rparr>) ex_start"

definition ex_hosted_qa :: qa_env where
  "ex_hosted_qa = ex_qa\<lparr>qe_env := (qe_env ex_qa)\<lparr>en_billing := True\<rparr>\<rparr>"

definition ex_ctx :: "sess \<times> prepared result" where
  "ex_ctx = prepare_context ex_hosted_qa (ex_question ''Tell me about things'' None) ''u1'' (open_session ex_capped)"

definition capped_now :: "sess \<times> prepared result \<Rightarrow> bool" where
  "capped_now x \<longleftrightarrow>
     (case x of
        (t, Inr (cid, n, prior, ctx)) \<Rightarrow> ctx \<noteq> [] \<and>
          (case get_effective_plan 1000 (w_db (se_cur t)) ''u1'' of
             Inr p \<Rightarrow> (case check_daily_llm_spend 1000 (w_db (se_cur t)) ''u1'' p of Inl e \<Rightarrow> True | _ \<Rightarrow> False) | _ \<Rightarrow> False) \<and>
          (case stream_complete ex_mock (\<lambda>p. None) (qe_stream ex_hosted_qa (w_uuids (se_cur t)))
              (build_completion_request ex_hosted_qa ''Tell me about things'' ctx prior) (w_router (se_cur t)) of
             (ro, atts, Inr (chunks, outcome)) \<Rightarrow> chunks = [''streamed''] | _ \<Rightarrow> False)
      | _ \<Rightarrow> False)"

lemma ex_capped_now: "capped_now ex_ctx"
  by code_simp

lemma streaming_escapes_spend_cap_witness:
  "(case snd (answer_question ex_hosted_qa (ex_question ''Tell me about things'' None) ''u1'' (open_session ex_capped)) of Inl e \<Rightarrow> True | Inr x \<Rightarrow> False) \<and>
   (case snd (answer_stream ex_hosted_qa (ex_question ''Tell me about things'' None) ''u1'' (open_session ex_capped)) of Inl e \<Rightarrow> False | Inr (chunks, r) \<Rightarrow> chunks = [''streamed''])"
proof -
  obtain t r where r: "ex_ctx = (t, r)" by (rule prod.exhaust)
  have "capped_now (t, r)" using ex_capped_now unfolding r .
  then obtain x where "r = ok x" by (cases r) (simp_all add: capped_now_def)
  moreover obtain cid n prior ctx where "x = (cid, n, prior, ctx)" by (rule prod_cases4)
  ultimately have p: "ex_ctx = (t, ok (cid, n, prior, ctx))" and c: "capped_now (t, ok (cid, n, prior, ctx))"
    using r ex_capped_now by simp_all
  from c have ctx: "ctx \<noteq> []" by (simp add: capped_now_def)
  from c obtain plan e ro atts outcome where x: "get_effective_plan 1000 (w_db (se_cur t)) ''u1'' = ok plan"
      "check_daily_llm_spend 1000 (w_db (se_cur t)) ''u1'' plan = raise e"
      "stream_complete ex_mock (\<lambda>p. None) (qe_stream ex_hosted_qa (w_uuids (se_cur t)))
        (build_completion_request ex_hosted_qa ''Tell me about things'' ctx prior) (w_router (se_cur t)) = (ro, atts, ok ([''streamed''], outcome))"
    by (auto simp: capped_now_def split: sum.splits prod.splits)
  have env: "en_billing (qe_env ex_hosted_qa)" "en_now (qe_env ex_hosted_qa) = 1000" "en_llm (qe_env ex_hosted_qa) = ex_mock"
    "en_user_key (qe_env ex_hosted_qa) ''u1'' = (\<lambda>p. None)" "qrq_question (ex_question ''Tell me about things'' None) = ''Tell me about things''"
    by (simp_all add: ex_hosted_qa_def ex_qa_def ex_env0_def ex_question_def)
  from streaming_escapes_spend_cap [OF p [unfolded ex_ctx_def] ctx env(1), unfolded env, OF x] show ?thesis by auto
qed

end
