(* ===== verification/Spec2Isabelle.thy ===== *)
theory Spec2Isabelle
  imports Sweep Slug Confidence Spans Billing LlmRouter Chunking Sharing BacklinkEnforcer ApiKeys McpAuth Taxonomy
    Search Tags LintRunner Schemas Compiler Worker Wiki Answers
begin

text \<open>
  WikiMind is a FastAPI service under \<^verbatim>\<open>src/src/wikimind\<close> that turns the sources a user ingests into a wiki of
  articles with a language model, links the articles, checks them, and serves them with search, sharing and a
  question answering agent. This development models its own logic: the parts that decide, compute and change state,
  in the order in which data passes through them. The state is the database of the application, one record of
  tables (\<open>db\<close>, theory Domain), whose rows are records with the columns of \<^verbatim>\<open>models/tables\<close>; an operation is a
  function from the state to the state and a result, in which every exception is a value (\<open>exc\<close>, theory Prelude).

  Theories and the code they model.

  \<^item> Prelude: results, exceptions (\<^verbatim>\<open>errors.py\<close>), the primitives of SQL queries on lists of rows and the lemmas on
    them that the other theories share. PyStr: the Python string methods that the code calls. Float64: rounding to
    binary64. Json: decoded JSON values with the operations on them and the exceptions these raise. Domain: tables
    and enumerations.
  \<^item> Ingest: Chunking (\<^verbatim>\<open>ingest/utils.py\<close>, the chunks of a document) and Spans (\<^verbatim>\<open>services/source_spans.py\<close>,
    paragraph anchors and their refresh).
  \<^item> Articles: TitleNormalizer, WikilinkResolver, Sweep, Slug, Confidence (\<^verbatim>\<open>engine/\<close> and \<^verbatim>\<open>jobs/sweep.py\<close>: titles,
    link resolution, the job that links and cleans the wiki, slugs, confidence and decay), Taxonomy
    (\<^verbatim>\<open>services/taxonomy.py\<close>, concepts and their hierarchy).
  \<^item> Language models: LlmRouter (\<^verbatim>\<open>engine/llm_router.py\<close>, \<^verbatim>\<open>services/plan_routing.py\<close>: choice of the provider,
    fallback, budget, plan restrictions) and ApiKeys (encrypted keys of users).
  \<^item> Linter: LintModel (state and the monad of a check), LintDetect and LintSound (the contradiction detector of
    \<^verbatim>\<open>engine/linter/contradictions.py\<close> and its soundness), BacklinkEnforcer, Contradictions, LintRunner (the whole
    run of \<^verbatim>\<open>engine/linter/runner.py\<close>, with orphans, staleness and stale spans, and the report service).
  \<^item> Reading: Search (\<^verbatim>\<open>services/search.py\<close>), Tags (tags and saved searches), MarkdownHtml (rendering and export),
    Sharing (public links).
  \<^item> Accounts: McpAuth (the OAuth server for MCP clients, personal tokens, the middleware that authenticates a
    request), Quota (limits of plans), Billing (webhooks of the payment provider, plan changes, expiry).

  \<^item> Effects and World: code with effects as functions that keep what was done before an exception; the session of a
    request with its commits and rollbacks (\<^verbatim>\<open>database.py\<close>), the constraints of the schema, calls of the model, and the
    record \<open>env\<close> of settings and parameters. Storage (\<^verbatim>\<open>storage.py\<close>) and Queries (\<^verbatim>\<open>queries/articles.py\<close>).
  \<^item> Compilation: Prompts and Compiler (\<^verbatim>\<open>engine/compiler.py\<close>: prompts, what is read from the model, saving an
    article with its claims and links), ConceptCompiler (concept pages), WikiIndex (\<^verbatim>\<open>services/wiki_index.py\<close>,
    the catalogue, the health page and the log), Schemas, Drafts, Worker (\<^verbatim>\<open>jobs/\<close>: the jobs and their dispatch).
  \<^item> The wiki for its users: Wiki (\<^verbatim>\<open>services/wiki.py\<close>: lists, graph, search, edits, stubs, recompilation,
    suggestions). Questions: Conversations (\<^verbatim>\<open>engine/conversation_serializer.py\<close> and threads of forks), QaAgent
    (\<^verbatim>\<open>engine/qa_agent.py\<close>), QueryService (\<^verbatim>\<open>services/query.py\<close>), Threads (invariants of every run of requests) and
    Answers (single requests). Samples holds the environment and the wiki of the witnesses.

  What the lemmas show. Every theory starts with the definitions, which follow the code, and then proves what makes
  the component correct, on every branch: functional behaviour against a declarative description (which article a
  link resolves to, what a search returns, which facet counts are shown), invariants of the state under every
  sequence of operations (uniqueness of keys, forests, symmetric links, one active contradiction, one use of a code),
  safety of boundaries (no unescaped markup, no operator in a query, no token without consent, no answer past a
  quota), refinement of abstract maps and relations (keys, tags), termination and bounds (chunks, calls of the
  language model), round trips (the pair cache) and the behaviour on errors. A lemma named in a finding of the manifest
  shows a defect of the code on a concrete state.

  Interfaces. A locale states what several operations or clients rely on: stores of keys, tables of rows with an
  owner, relations that a check preserves, views that survive exceptions, invariants of a session with triples of
  conditions before and after code, markup that is safe; each is interpreted on the model's own definitions.

  Parameters stand for code that is not in the repository: hash functions and encryption, JSON text, the language
  model and its answers, the full text engines, the vector search, PyJWT, the payment provider, random samples, the
  iteration of sets and fresh ids. The laws that are assumed of them are premises of the theorems that use them, each
  with a witness: that fresh ids differ, that the iteration of a set yields its members, that the JSON parser raises the
  errors it documents. Times are integers in microseconds. Loops of the code are structural recursions or functions
  with a termination proof; where a loop of the code may run forever, it has fuel and a theorem shows how much is
  enough: the walk from a fork up its parents has one step more than there are conversations, and ends in every state
  that requests reach. Requests are atomic, one after the other, except in Quota, where handlers interleave; a
  constraint of the schema is checked at the commit and not at an earlier flush.

  Not modelled, and why: the HTTP handlers that only call a service, the command line and the MCP tools (formatted
  HTTP calls), configuration, the database engine and migrations, logging and rate limits (libraries), the clients of
  the providers and of the vector store, the document converters and the adapters around them, the OAuth login
  (libraries), and the archive of the wiki export. The syntheses, discussions and crystallization, feeds and
  capture, and the administration, which follow the patterns of the compilers and of the table services, have no model.
\<close>

end
